(* ===== verification/Prelude.thy ===== *)
theory Prelude
  imports "HOL-Library.Word" "HOL-Library.Monad_Syntax"
begin

text \<open>
  Shared vocabulary of the development: the machine integers of the target (unsigned words
  of 8, 16 and 32 bits), C pointers that may be null, arrays with bounds-checked access,
  and the lemmas that let the simplifier run straight-line code over them.

  Two readings of \<open>option\<close> are kept apart by name. A value of type \<open>'a ptr\<close> is a C pointer:
  \<open>None\<close> is \<open>NULL\<close>, \<open>Some v\<close> a pointer to \<open>v\<close>. A value of type \<open>'a exec\<close> is the outcome of
  running code: \<open>None\<close> is undefined behaviour (an access outside an array, a dereferenced null
  pointer), \<open>Some v\<close> is a normal return. A theorem that some call is \<open>Some ...\<close> is therefore a
  memory-safety statement as well. Dereferencing is reading a pointer inside the
  \<open>exec\<close> monad: \<open>x \<leftarrow> p\<close> is stuck when \<open>p\<close> is null.

  A read-only byte pointer (\<open>const uint8_t *\<close>) is the list of the bytes from the address to
  the end of the array it points into, so \<open>&p[8]\<close> is \<open>drop 8 p\<close> and a read past the end is
  undefined, while a read past a message but inside the array is not. A writable array is the
  list of all its elements, and a pointer into it is the list with an offset.
\<close>

unbundle bit_operations_syntax

type_synonym u8 = "8 word"
type_synonym u16 = "16 word"
type_synonym u32 = "32 word"
type_synonym 'a ptr = "'a option"
type_synonym 'a exec = "'a option"
type_synonym bytes = "8 word list"

abbreviation (input) NULL :: "'a ptr" where "NULL \<equiv> None"
abbreviation (input) undefined_behaviour :: "'a exec" where "undefined_behaviour \<equiv> None"

named_theorems exec_simps \<open>rewrite rules that run memory accesses and big-endian helpers\<close>
named_theorems wire_simps \<open>closed forms of the encoders and decoders\<close>
named_theorems inv_intros \<open>preservation of the component invariants\<close>

section \<open>Bounds-checked arrays\<close>

definition rd :: "'a list \<Rightarrow> nat \<Rightarrow> 'a exec" where
  "rd xs i = (if i < length xs then Some (xs ! i) else undefined_behaviour)"

definition rd_block :: "'a list \<Rightarrow> nat \<Rightarrow> nat \<Rightarrow> 'a list exec" where
  "rd_block xs off n =
     (if off + n \<le> length xs then Some (take n (drop off xs)) else undefined_behaviour)"

definition wr_block :: "'a list \<Rightarrow> nat \<Rightarrow> 'a list \<Rightarrow> 'a list exec" where
  "wr_block xs off ys =
     (if off + length ys \<le> length xs
      then Some (take off xs @ ys @ drop (off + length ys) xs) else undefined_behaviour)"

definition wr :: "'a list \<Rightarrow> nat \<Rightarrow> 'a \<Rightarrow> 'a list exec" where
  "wr xs i v = (if i < length xs then Some (xs[i := v]) else undefined_behaviour)"

text \<open>\<open>memcpy(&dst[off], src, n)\<close>, \<open>memcmp(p, q, n) == 0\<close>, and the update of one element of
  an array of structures.\<close>

definition memcpy :: "'a list \<Rightarrow> nat \<Rightarrow> 'a list \<Rightarrow> nat \<Rightarrow> 'a list exec" where
  "memcpy dst off src n = do { ys \<leftarrow> rd_block src 0 n; wr_block dst off ys }"

definition memcmp_eq :: "bytes \<Rightarrow> bytes \<Rightarrow> nat \<Rightarrow> bool exec" where
  "memcmp_eq p q n = do { xs \<leftarrow> rd_block p 0 n; ys \<leftarrow> rd_block q 0 n; Some (xs = ys) }"

definition upd_at :: "'a list \<Rightarrow> nat \<Rightarrow> ('a \<Rightarrow> 'a) \<Rightarrow> 'a list exec" where
  "upd_at xs i f = (if i < length xs then Some (xs[i := f (xs ! i)]) else undefined_behaviour)"

text \<open>An index of C type \<open>int\<close>: a negative one is outside every array.\<close>

definition idx :: "int \<Rightarrow> nat exec" where
  "idx i = (if 0 \<le> i then Some (nat i) else undefined_behaviour)"

lemma wr_as_block [exec_simps]: "wr xs i v = wr_block xs i [v]"
  by (auto simp: wr_def wr_block_def upd_conv_take_nth_drop)

lemma wr_block_bind_merge [exec_simps]:
  assumes "off2 = off + length ys"
  shows "(wr_block xs off ys \<bind> (\<lambda>b. wr_block b off2 zs \<bind> k))
           = (wr_block xs off (ys @ zs) \<bind> k)"
  using assms by (auto simp: wr_block_def add.commute add.left_commute)

lemma wr_block_merge [exec_simps]:
  assumes "off2 = off + length ys"
  shows "(wr_block xs off ys \<bind> (\<lambda>b. wr_block b off2 zs)) = wr_block xs off (ys @ zs)"
  using wr_block_bind_merge [OF assms, of xs zs Some] by simp

lemma wr_block_eq_Some_iff:
  "wr_block xs off ys = Some zs \<longleftrightarrow>
     off + length ys \<le> length xs \<and> zs = take off xs @ ys @ drop (off + length ys) xs"
  by (auto simp: wr_block_def)

lemma length_wr_block: "wr_block xs off ys = Some zs \<Longrightarrow> length zs = length xs"
  by (auto simp: wr_block_def split: if_splits)

lemma wr_block_0:
  "length ys \<le> length xs \<Longrightarrow> wr_block xs 0 ys = Some (ys @ drop (length ys) xs)"
  by (simp add: wr_block_def)

lemma wr_block_append:
  "off = length pre \<Longrightarrow> length ys \<le> length xs \<Longrightarrow>
     wr_block (pre @ xs) off ys = Some (pre @ ys @ drop (length ys) xs)"
  by (simp add: wr_block_def)

lemma wr_block_out_of_bounds:
  "length xs < off + length ys \<Longrightarrow> wr_block xs off ys = undefined_behaviour"
  by (simp add: wr_block_def)

lemma rd_block_0 [exec_simps]: "n \<le> length xs \<Longrightarrow> rd_block xs 0 n = Some (take n xs)"
  by (simp add: rd_block_def)

lemma rd_Some [exec_simps]: "i < length xs \<Longrightarrow> rd xs i = Some (xs ! i)"
  by (simp add: rd_def)

lemma rd_first [exec_simps]: "1 \<le> length xs \<Longrightarrow> rd xs 0 = Some (xs ! 0)"
  by (auto simp: rd_def)

lemma rd_None_iff: "rd xs i = None \<longleftrightarrow> length xs \<le> i"
  by (simp add: rd_def)

lemma rd_drop [exec_simps]: "rd (drop k xs) i = rd xs (k + i)"
  by (auto simp: rd_def)

lemma memcpy_exact [exec_simps]:
  "n = length src \<Longrightarrow> memcpy dst off src n = wr_block dst off src"
  by (simp add: memcpy_def rd_block_def)

lemma memcpy_in_bounds [exec_simps]:
  "n \<le> length src \<Longrightarrow> memcpy dst off src n = wr_block dst off (take n src)"
  by (simp add: memcpy_def rd_block_def)

lemma memcmp_eq_in_bounds [exec_simps]:
  "n \<le> length p \<Longrightarrow> n \<le> length q \<Longrightarrow> memcmp_eq p q n = Some (take n p = take n q)"
  by (simp add: memcmp_eq_def rd_block_def)

lemma upd_at_Some [exec_simps]: "i < length xs \<Longrightarrow> upd_at xs i f = Some (xs[i := f (xs ! i)])"
  by (simp add: upd_at_def)

lemma upd_at_eq_Some_iff: "upd_at xs i f = Some ys \<longleftrightarrow> i < length xs \<and> ys = xs[i := f (xs ! i)]"
  by (auto simp: upd_at_def)

lemma idx_nonneg [exec_simps]: "0 \<le> i \<Longrightarrow> idx i = Some (nat i)"
  by (simp add: idx_def)

lemma idx_int [simp]: "idx (int n) = Some n"
  by (simp add: idx_def)

lemma idx_eq_Some_iff: "idx i = Some n \<longleftrightarrow> i = int n"
  by (auto simp: idx_def)

section \<open>Loops and calls that may not return\<close>

text \<open>A \<open>for\<close> loop over a fixed range. The outcome of code with an unbounded loop is of type
  \<open>'a run\<close>: \<open>None\<close> says that it never returns, \<open>Some None\<close> that it runs into undefined behaviour,
  \<open>Some (Some v)\<close> that it returns \<open>v\<close>.\<close>

primrec for_each :: "'a list \<Rightarrow> ('a \<Rightarrow> 's \<Rightarrow> 's exec) \<Rightarrow> 's \<Rightarrow> 's exec" where
  "for_each [] body s = Some s"
| "for_each (x # xs) body s = do { s \<leftarrow> body x s; for_each xs body s }"

type_synonym 'a run = "'a exec option"

abbreviation (input) never_returns :: "'a run" where "never_returns \<equiv> None"
abbreviation returns :: "'a \<Rightarrow> 'a run" where "returns v \<equiv> Some (Some v)"

definition then_run :: "'a run \<Rightarrow> ('a \<Rightarrow> 'b run) \<Rightarrow> 'b run" where
  "then_run m k =
     (case m of
        None \<Rightarrow> never_returns
      | Some None \<Rightarrow> Some undefined_behaviour
      | Some (Some a) \<Rightarrow> k a)"

primrec for_each_run :: "'a list \<Rightarrow> ('a \<Rightarrow> 's \<Rightarrow> 's run) \<Rightarrow> 's \<Rightarrow> 's run" where
  "for_each_run [] body s = returns s"
| "for_each_run (x # xs) body s = then_run (body x s) (for_each_run xs body)"

lemma for_each_append: "for_each (xs @ ys) body s = (for_each xs body s \<bind> for_each ys body)"
  by (induction xs arbitrary: s) (simp_all add: bind_assoc)

lemma for_each_replicate_Suc:
  "for_each (replicate (Suc n) x) body s = (for_each (replicate n x) body s \<bind> body x)"
proof -
  have last: "for_each [x] body = body x"
    by (simp add: fun_eq_iff)
  have "for_each (replicate (Suc n) x) body s = for_each (replicate n x @ [x]) body s"
    by (simp add: replicate_append_same)
  then show ?thesis
    by (simp only: for_each_append last)
qed

lemma then_run_simps [simp]:
  "then_run never_returns k = never_returns"
  "then_run (Some undefined_behaviour) k = Some undefined_behaviour"
  "then_run (returns a) k = k a"
  by (simp_all add: then_run_def)

lemma then_run_eq_returns_iff: "then_run m k = returns b \<longleftrightarrow> (\<exists>a. m = returns a \<and> k a = returns b)"
  by (auto simp: then_run_def split: option.splits)

lemma then_run_returns [simp]: "then_run m returns = m"
  by (auto simp: then_run_def split: option.splits)

lemma for_each_Some_invariant:
  assumes "for_each xs body s = Some s'" and "P s"
    and "\<And>x t t'. x \<in> set xs \<Longrightarrow> P t \<Longrightarrow> body x t = Some t' \<Longrightarrow> P t'"
  shows "P s'"
  using assms
proof (induction xs arbitrary: s)
  case (Cons x xs)
  then obtain t where t: "body x s = Some t" "for_each xs body t = Some s'"
    by (auto split: Option.bind_splits)
  have "P t"
    by (rule Cons.prems(3) [OF _ Cons.prems(2) t(1)]) simp
  then show ?case
    by (rule Cons.IH [OF t(2)]) (rule Cons.prems(3), simp_all)
qed simp

lemma for_each_run_invariant:
  assumes "for_each_run xs body s = returns s'" and "P s"
    and "\<And>x t t'. x \<in> set xs \<Longrightarrow> P t \<Longrightarrow> body x t = returns t' \<Longrightarrow> P t'"
  shows "P s'"
  using assms
proof (induction xs arbitrary: s)
  case (Cons x xs)
  then obtain t where t: "body x s = returns t" "for_each_run xs body t = returns s'"
    by (auto simp: then_run_eq_returns_iff)
  have "P t"
    by (rule Cons.prems(3) [OF _ Cons.prems(2) t(1)]) simp
  then show ?case
    by (rule Cons.IH [OF t(2)]) (rule Cons.prems(3), simp_all)
qed simp

lemma for_each_run_total:
  assumes "P s" and "\<And>x t. x \<in> set xs \<Longrightarrow> P t \<Longrightarrow> \<exists>t'. body x t = returns t' \<and> P t'"
  shows "\<exists>s'. for_each_run xs body s = returns s' \<and> P s'"
  using assms
proof (induction xs arbitrary: s)
  case (Cons x xs)
  then obtain t where "body x s = returns t" "P t" by force
  then show ?case using Cons by simp
qed simp

text \<open>Objects that several components share (the interface, the entity) are fields of one system
  record. A pointer argument to such an object is an \<open>object_ptr\<close>: null, or the address of the
  object.\<close>

type_synonym object_ptr = "unit ptr"

abbreviation (input) address_of_it :: object_ptr where "address_of_it \<equiv> Some ()"

section \<open>Big-endian integers\<close>

text \<open>The bytes of a 16-bit and of a 32-bit value as the code computes them, and back.\<close>

definition be16 :: "u16 \<Rightarrow> bytes" where
  "be16 v = [ucast (drop_bit 8 v), ucast (v AND 0xFF)]"

definition be32 :: "u32 \<Rightarrow> bytes" where
  "be32 v = [ucast (drop_bit 24 v), ucast (drop_bit 16 v AND 0xFF),
             ucast (drop_bit 8 v AND 0xFF), ucast (v AND 0xFF)]"

definition of_be16 :: "u8 \<Rightarrow> u8 \<Rightarrow> u16" where
  "of_be16 a b = push_bit 8 (ucast a) OR ucast b"

definition of_be32 :: "u8 \<Rightarrow> u8 \<Rightarrow> u8 \<Rightarrow> u8 \<Rightarrow> u32" where
  "of_be32 a b c d =
     push_bit 24 (ucast a) OR push_bit 16 (ucast b) OR push_bit 8 (ucast c) OR ucast d"

lemma mask8: "(0xFF :: 'a::len word) = mask 8"
  by (simp add: mask_eq_exp_minus_1)

lemma bit_of_be16:
  "bit (of_be16 a b) n \<longleftrightarrow> (if n < 8 then bit b n else n < 16 \<and> bit a (n - 8))"
  by (auto simp: of_be16_def bit_simps dest: bit_imp_le_length)

lemma bit_of_be32:
  "bit (of_be32 a b c d) n \<longleftrightarrow>
     (if n < 8 then bit d n else if n < 16 then bit c (n - 8)
      else if n < 24 then bit b (n - 16) else n < 32 \<and> bit a (n - 24))"
  by (auto simp: of_be32_def bit_simps dest: bit_imp_le_length)

lemma of_be16_split [simp]: "of_be16 (ucast (drop_bit 8 v)) (ucast (v AND 0xFF)) = v"
  unfolding mask8 by (rule bit_word_eqI) (auto simp: bit_of_be16 bit_simps)

lemma of_be32_split [simp]:
  "of_be32 (ucast (drop_bit 24 v)) (ucast (drop_bit 16 v AND 0xFF))
           (ucast (drop_bit 8 v AND 0xFF)) (ucast (v AND 0xFF)) = v"
  unfolding mask8 by (rule bit_word_eqI) (auto simp: bit_of_be32 bit_simps)

lemma be16_of_be16 [simp]: "be16 (of_be16 a b) = [a, b]"
  unfolding be16_def mask8
  by (auto intro!: bit_word_eqI simp: bit_of_be16 bit_simps dest: bit_imp_le_length)

lemma be32_of_be32 [simp]: "be32 (of_be32 a b c d) = [a, b, c, d]"
  unfolding be32_def mask8
  by (auto intro!: bit_word_eqI simp: bit_of_be32 bit_simps dest: bit_imp_le_length)

lemma length_be16 [simp]: "length (be16 v) = 2"
  by (simp add: be16_def)

lemma length_be32 [simp]: "length (be32 v) = 4"
  by (simp add: be32_def)

lemma of_be16_be16 [exec_simps]: "of_be16 (be16 v ! 0) (be16 v ! Suc 0) = v"
  by (simp add: be16_def)

lemma of_be32_be32 [exec_simps]:
  "of_be32 (be32 v ! 0) (be32 v ! Suc 0) (be32 v ! 2) (be32 v ! 3) = v"
  by (simp add: be32_def)

lemma be16_inject [simp]: "be16 v = be16 w \<longleftrightarrow> v = w"
  by (metis of_be16_be16)

lemma be32_inject [simp]: "be32 v = be32 w \<longleftrightarrow> v = w"
  by (metis of_be32_be32)

section \<open>Words\<close>

lemma unat_add_no_wrap:
  fixes a b :: "'a::len word"
  shows "unat a + unat b < 2 ^ LENGTH('a) \<Longrightarrow> unat (a + b) = unat a + unat b"
  by (simp add: unat_word_ariths)

lemma unat_sub_word: "b \<le> (a :: 'a::len word) \<Longrightarrow> unat (a - b) = unat a - unat b"
  by (simp add: unat_sub)

lemma unat_u32_bound [simp]: "unat (v :: u32) < 4294967296"
  using unsigned_less [of v] by simp

lemma unat_of_nat_u32: "n < 4294967296 \<Longrightarrow> unat (of_nat n :: u32) = n"
  by (simp add: unsigned_of_nat take_bit_nat_eq_self)

lemma unat_pred_u32: "0 < n \<Longrightarrow> n < 4294967296 \<Longrightarrow> unat (of_nat n - 1 :: u32) = n - 1"
  using unat_of_nat_u32 [of "n - 1"] by (cases n) auto

lemma unat_of_int_u32: "0 \<le> r \<Longrightarrow> r < 4294967296 \<Longrightarrow> unat (of_int r :: u32) = nat r"
  using unat_of_nat_u32 [of "nat r"] by simp

lemma unat_of_int_le: "0 \<le> r \<Longrightarrow> r \<le> int k \<Longrightarrow> k < 4294967296 \<Longrightarrow> unat (of_int r :: u32) \<le> k"
  by (simp add: unat_of_int_u32)

end
