(* ===== verification/DoIP_Protocol.thy ===== *)
theory DoIP_Protocol
  imports Prelude
begin

text \<open>
  The wire format of \<^verbatim>\<open>src/doip/doip_protocol.h\<close> and \<^verbatim>\<open>src/doip/doip_protocol.c\<close>: the structures,
  the big-endian helpers, every encoder and decoder, and \<open>doip_encode_diag_message_ack\<close>, which
  the header declares and \<^verbatim>\<open>app_doip_entity.c\<close> defines. Each C out-parameter is returned:
  a call gives the result code, the buffer and the length cell as it leaves them.

  The abstract side is a datatype of messages with the bytes ISO 13400-2 assigns to them
  (\<open>frame\<close>); every encoder is shown to write exactly that frame, and every decoder to read it
  back.
\<close>

section \<open>Data\<close>

datatype doip_result_t =
    DOIP_RESULT_OK | DOIP_RESULT_ERROR | DOIP_RESULT_INVALID_PARAM
  | DOIP_RESULT_BUFFER_TOO_SMALL | DOIP_RESULT_INVALID_FORMAT | DOIP_RESULT_TIMEOUT
  | DOIP_RESULT_NOT_READY | DOIP_RESULT_NO_MEMORY

record doip_header_t =
  protocol_version :: u8
  inverse_protocol_version :: u8
  payload_type :: u16
  payload_length :: u32

record doip_vehicle_id_response_t =
  vid_vin :: bytes
  vid_logical_address :: u16
  vid_eid :: bytes
  vid_gid :: bytes
  further_action_required :: u8
  sync_status :: u8

record doip_routing_activation_req_t =
  rreq_source_address :: u16
  activation_type :: u8
  rreq_reserved :: u32
  rreq_oem_specific :: u32

record doip_routing_activation_res_t =
  rres_tester_address :: u16
  rres_entity_address :: u16
  response_code :: u8
  rres_reserved :: u32
  rres_oem_specific :: u32

text \<open>\<open>user_data\<close> points into the buffer the message was read from: the bytes from there to the
  end of that array, so that \<open>user_data_length\<close> need not be its length.\<close>

record doip_diagnostic_message_t =
  dm_source_address :: u16
  dm_target_address :: u16
  user_data_length :: u32
  user_data :: "bytes ptr"

section \<open>Constants\<close>

abbreviation (input) "DOIP_PROTOCOL_VERSION_2012 \<equiv> (0x02 :: u8)"
abbreviation (input) "DOIP_PROTOCOL_VERSION_2019 \<equiv> (0x03 :: u8)"
abbreviation (input) "DOIP_INVERSE_VERSION_2012 \<equiv> (0xFD :: u8)"
abbreviation (input) "DOIP_INVERSE_VERSION_2019 \<equiv> (0xFC :: u8)"

abbreviation (input) "DOIP_PAYLOAD_TYPE_GENERIC_NACK \<equiv> (0x0000 :: u16)"
abbreviation (input) "DOIP_PAYLOAD_TYPE_VEHICLE_ID_REQ \<equiv> (0x0001 :: u16)"
abbreviation (input) "DOIP_PAYLOAD_TYPE_VEHICLE_ID_REQ_EID \<equiv> (0x0002 :: u16)"
abbreviation (input) "DOIP_PAYLOAD_TYPE_VEHICLE_ID_REQ_VIN \<equiv> (0x0003 :: u16)"
abbreviation (input) "DOIP_PAYLOAD_TYPE_VEHICLE_ANNOUNCEMENT \<equiv> (0x0004 :: u16)"
abbreviation (input) "DOIP_PAYLOAD_TYPE_ROUTING_ACTIVATION_REQ \<equiv> (0x0005 :: u16)"
abbreviation (input) "DOIP_PAYLOAD_TYPE_ROUTING_ACTIVATION_RES \<equiv> (0x0006 :: u16)"
abbreviation (input) "DOIP_PAYLOAD_TYPE_ALIVE_CHECK_REQ \<equiv> (0x0007 :: u16)"
abbreviation (input) "DOIP_PAYLOAD_TYPE_ALIVE_CHECK_RES \<equiv> (0x0008 :: u16)"
abbreviation (input) "DOIP_PAYLOAD_TYPE_DIAG_MESSAGE \<equiv> (0x8001 :: u16)"
abbreviation (input) "DOIP_PAYLOAD_TYPE_DIAG_MESSAGE_ACK \<equiv> (0x8002 :: u16)"
abbreviation (input) "DOIP_PAYLOAD_TYPE_DIAG_MESSAGE_NACK \<equiv> (0x8003 :: u16)"

abbreviation (input) "DOIP_ROUTING_ACT_RES_UNKNOWN_SOURCE \<equiv> (0x00 :: u8)"
abbreviation (input) "DOIP_ROUTING_ACT_RES_SUCCESS \<equiv> (0x10 :: u8)"
abbreviation (input) "DOIP_ROUTING_ACT_RES_CONFIRM_REQUIRED \<equiv> (0x11 :: u8)"
abbreviation (input) "DOIP_DIAG_NACK_INVALID_SOURCE \<equiv> (0x02 :: u8)"
abbreviation (input) "DOIP_DIAG_NACK_UNKNOWN_TARGET \<equiv> (0x03 :: u8)"

abbreviation (input) "DOIP_MAX_PAYLOAD_SIZE \<equiv> (4096 :: u32)"
abbreviation (input) "DOIP_VIN_LENGTH \<equiv> (17 :: u32)"
abbreviation (input) "DOIP_EID_LENGTH \<equiv> (6 :: u32)"
abbreviation (input) "DOIP_GID_LENGTH \<equiv> (6 :: u32)"

section \<open>Big-endian helpers\<close>

definition write_be16 :: "bytes \<Rightarrow> nat \<Rightarrow> u16 \<Rightarrow> bytes exec" where
  "write_be16 buf off val = do {
     buf \<leftarrow> wr buf off (ucast (drop_bit 8 val));
     wr buf (off + 1) (ucast (val AND 0xFF))
   }"

definition write_be32 :: "bytes \<Rightarrow> nat \<Rightarrow> u32 \<Rightarrow> bytes exec" where
  "write_be32 buf off val = do {
     buf \<leftarrow> wr buf off (ucast (drop_bit 24 val));
     buf \<leftarrow> wr buf (off + 1) (ucast (drop_bit 16 val AND 0xFF));
     buf \<leftarrow> wr buf (off + 2) (ucast (drop_bit 8 val AND 0xFF));
     wr buf (off + 3) (ucast (val AND 0xFF))
   }"

definition read_be16 :: "bytes \<Rightarrow> u16 exec" where
  "read_be16 buf = do {
     b0 \<leftarrow> rd buf 0;
     b1 \<leftarrow> rd buf 1;
     Some (push_bit 8 (ucast b0) OR ucast b1)
   }"

definition read_be32 :: "bytes \<Rightarrow> u32 exec" where
  "read_be32 buf = do {
     b0 \<leftarrow> rd buf 0;
     b1 \<leftarrow> rd buf 1;
     b2 \<leftarrow> rd buf 2;
     b3 \<leftarrow> rd buf 3;
     Some (push_bit 24 (ucast b0) OR push_bit 16 (ucast b1) OR push_bit 8 (ucast b2) OR ucast b3)
   }"

section \<open>The generic header\<close>

definition doip_encode_header ::
    "doip_header_t ptr \<Rightarrow> bytes ptr \<Rightarrow> u32 \<Rightarrow> (doip_result_t \<times> bytes ptr) exec" where
  "doip_encode_header header buffer buffer_size =
     (if header = NULL \<or> buffer = NULL then Some (DOIP_RESULT_INVALID_PARAM, buffer)
      else if buffer_size < 8 then Some (DOIP_RESULT_BUFFER_TOO_SMALL, buffer)
      else do {
        h \<leftarrow> header;
        b \<leftarrow> buffer;
        b \<leftarrow> wr b 0 (protocol_version h);
        b \<leftarrow> wr b 1 (inverse_protocol_version h);
        b \<leftarrow> write_be16 b 2 (payload_type h);
        b \<leftarrow> write_be32 b 4 (payload_length h);
        Some (DOIP_RESULT_OK, Some b)
      })"

definition doip_decode_header ::
    "bytes ptr \<Rightarrow> u32 \<Rightarrow> doip_header_t ptr \<Rightarrow> (doip_result_t \<times> doip_header_t ptr) exec" where
  "doip_decode_header buffer buffer_size header =
     (if buffer = NULL \<or> header = NULL then Some (DOIP_RESULT_INVALID_PARAM, header)
      else if buffer_size < 8 then Some (DOIP_RESULT_BUFFER_TOO_SMALL, header)
      else do {
        b \<leftarrow> buffer;
        h \<leftarrow> header;
        v \<leftarrow> rd b 0;
        iv \<leftarrow> rd b 1;
        pt \<leftarrow> read_be16 (drop 2 b);
        pl \<leftarrow> read_be32 (drop 4 b);
        Some (DOIP_RESULT_OK,
              Some (h\<lparr>protocol_version := v, inverse_protocol_version := iv,
                      payload_type := pt, payload_length := pl\<rparr>))
      })"

definition doip_validate_header :: "doip_header_t ptr \<Rightarrow> bool" where
  "doip_validate_header header =
     (case header of
        None \<Rightarrow> False
      | Some h \<Rightarrow>
          let is_valid =
            (if protocol_version h = DOIP_PROTOCOL_VERSION_2012 \<and>
                inverse_protocol_version h = DOIP_INVERSE_VERSION_2012 then True
             else if protocol_version h = DOIP_PROTOCOL_VERSION_2019 \<and>
                inverse_protocol_version h = DOIP_INVERSE_VERSION_2019 then True
             else False)
          in if is_valid \<and> payload_length h > DOIP_MAX_PAYLOAD_SIZE then False else is_valid)"

text \<open>The header every encoder fills in: protocol version 2019, the payload type and length.\<close>

definition header_2019 :: "u16 \<Rightarrow> u32 \<Rightarrow> doip_header_t" where
  "header_2019 pt len =
     \<lparr>protocol_version = DOIP_PROTOCOL_VERSION_2019,
      inverse_protocol_version = DOIP_INVERSE_VERSION_2019,
      payload_type = pt, payload_length = len\<rparr>"

section \<open>Encoders and decoders\<close>

definition doip_encode_vehicle_id_response ::
    "doip_vehicle_id_response_t ptr \<Rightarrow> bytes ptr \<Rightarrow> u32 \<Rightarrow> u32 ptr
      \<Rightarrow> (doip_result_t \<times> bytes ptr \<times> u32 ptr) exec" where
  "doip_encode_vehicle_id_response response buffer buffer_size encoded_length =
     (if response = NULL \<or> buffer = NULL \<or> encoded_length = NULL
      then Some (DOIP_RESULT_INVALID_PARAM, buffer, encoded_length)
      else if buffer_size < 41 then Some (DOIP_RESULT_BUFFER_TOO_SMALL, buffer, encoded_length)
      else do {
        r \<leftarrow> response;
        let header = header_2019 DOIP_PAYLOAD_TYPE_VEHICLE_ANNOUNCEMENT 33;
        (res, buffer) \<leftarrow> doip_encode_header (Some header) buffer buffer_size;
        if res \<noteq> DOIP_RESULT_OK then Some (DOIP_RESULT_ERROR, buffer, encoded_length)
        else do {
          b \<leftarrow> buffer;
          let offset = (8 :: u32);
          b \<leftarrow> memcpy b (unat offset) (vid_vin r) (unat DOIP_VIN_LENGTH);
          let offset = offset + DOIP_VIN_LENGTH;
          b \<leftarrow> write_be16 b (unat offset) (vid_logical_address r);
          let offset = offset + 2;
          b \<leftarrow> memcpy b (unat offset) (vid_eid r) (unat DOIP_EID_LENGTH);
          let offset = offset + DOIP_EID_LENGTH;
          b \<leftarrow> memcpy b (unat offset) (vid_gid r) (unat DOIP_GID_LENGTH);
          let offset = offset + DOIP_GID_LENGTH;
          b \<leftarrow> wr b (unat offset) (further_action_required r);
          let offset = offset + 1;
          b \<leftarrow> wr b (unat offset) (sync_status r);
          let offset = offset + 1;
          Some (DOIP_RESULT_OK, Some b, Some offset)
        }
      })"

definition doip_encode_routing_activation_req ::
    "doip_routing_activation_req_t ptr \<Rightarrow> bytes ptr \<Rightarrow> u32 \<Rightarrow> u32 ptr
      \<Rightarrow> (doip_result_t \<times> bytes ptr \<times> u32 ptr) exec" where
  "doip_encode_routing_activation_req request buffer buffer_size encoded_length =
     (if request = NULL \<or> buffer = NULL \<or> encoded_length = NULL
      then Some (DOIP_RESULT_INVALID_PARAM, buffer, encoded_length)
      else if buffer_size < 19 then Some (DOIP_RESULT_BUFFER_TOO_SMALL, buffer, encoded_length)
      else do {
        r \<leftarrow> request;
        let header = header_2019 DOIP_PAYLOAD_TYPE_ROUTING_ACTIVATION_REQ 11;
        (res, buffer) \<leftarrow> doip_encode_header (Some header) buffer buffer_size;
        if res \<noteq> DOIP_RESULT_OK then Some (DOIP_RESULT_ERROR, buffer, encoded_length)
        else do {
          b \<leftarrow> buffer;
          let offset = (8 :: u32);
          b \<leftarrow> write_be16 b (unat offset) (rreq_source_address r);
          let offset = offset + 2;
          b \<leftarrow> wr b (unat offset) (activation_type r);
          let offset = offset + 1;
          b \<leftarrow> write_be32 b (unat offset) (rreq_reserved r);
          let offset = offset + 4;
          b \<leftarrow> write_be32 b (unat offset) (rreq_oem_specific r);
          let offset = offset + 4;
          Some (DOIP_RESULT_OK, Some b, Some offset)
        }
      })"

text \<open>The length check of this decoder is commented out in the source: the first seven bytes
  are read whatever \<open>payload_length\<close> says.\<close>

definition doip_decode_routing_activation_req ::
    "bytes ptr \<Rightarrow> u32 \<Rightarrow> doip_routing_activation_req_t ptr
      \<Rightarrow> (doip_result_t \<times> doip_routing_activation_req_t ptr) exec" where
  "doip_decode_routing_activation_req payload len request =
     (if payload = NULL \<or> request = NULL then Some (DOIP_RESULT_INVALID_PARAM, request)
      else do {
        p \<leftarrow> payload;
        r \<leftarrow> request;
        sa \<leftarrow> read_be16 p;
        at \<leftarrow> rd p 2;
        res \<leftarrow> read_be32 (drop 3 p);
        oem \<leftarrow> (if len \<ge> 11 then read_be32 (drop 7 p) else Some 0);
        Some (DOIP_RESULT_OK,
              Some (r\<lparr>rreq_source_address := sa, activation_type := at,
                      rreq_reserved := res, rreq_oem_specific := oem\<rparr>))
      })"

definition doip_encode_routing_activation_res ::
    "doip_routing_activation_res_t ptr \<Rightarrow> bytes ptr \<Rightarrow> u32 \<Rightarrow> u32 ptr
      \<Rightarrow> (doip_result_t \<times> bytes ptr \<times> u32 ptr) exec" where
  "doip_encode_routing_activation_res response buffer buffer_size encoded_length =
     (if response = NULL \<or> buffer = NULL \<or> encoded_length = NULL
      then Some (DOIP_RESULT_INVALID_PARAM, buffer, encoded_length)
      else if buffer_size < 21 then Some (DOIP_RESULT_BUFFER_TOO_SMALL, buffer, encoded_length)
      else do {
        r \<leftarrow> response;
        let header = header_2019 DOIP_PAYLOAD_TYPE_ROUTING_ACTIVATION_RES 13;
        (res, buffer) \<leftarrow> doip_encode_header (Some header) buffer buffer_size;
        if res \<noteq> DOIP_RESULT_OK then Some (DOIP_RESULT_ERROR, buffer, encoded_length)
        else do {
          b \<leftarrow> buffer;
          let offset = (8 :: u32);
          b \<leftarrow> write_be16 b (unat offset) (rres_tester_address r);
          let offset = offset + 2;
          b \<leftarrow> write_be16 b (unat offset) (rres_entity_address r);
          let offset = offset + 2;
          b \<leftarrow> wr b (unat offset) (response_code r);
          let offset = offset + 1;
          b \<leftarrow> write_be32 b (unat offset) (rres_reserved r);
          let offset = offset + 4;
          b \<leftarrow> write_be32 b (unat offset) (rres_oem_specific r);
          let offset = offset + 4;
          Some (DOIP_RESULT_OK, Some b, Some offset)
        }
      })"

text \<open>\<open>total_length\<close> is computed in 32 bits and wraps for a \<open>user_data_length\<close> close to
  \<open>2 ^ 32\<close>; the copy then runs with the unwrapped length.\<close>

definition doip_encode_diagnostic_message ::
    "doip_diagnostic_message_t ptr \<Rightarrow> bytes ptr \<Rightarrow> u32 \<Rightarrow> u32 ptr
      \<Rightarrow> (doip_result_t \<times> bytes ptr \<times> u32 ptr) exec" where
  "doip_encode_diagnostic_message message buffer buffer_size encoded_length =
     (if message = NULL \<or> buffer = NULL \<or> encoded_length = NULL
      then Some (DOIP_RESULT_INVALID_PARAM, buffer, encoded_length)
      else do {
        m \<leftarrow> message;
        if user_data m = NULL then Some (DOIP_RESULT_INVALID_PARAM, buffer, encoded_length)
        else let total_length = 8 + 4 + user_data_length m in
        if buffer_size < total_length
        then Some (DOIP_RESULT_BUFFER_TOO_SMALL, buffer, encoded_length)
        else do {
          let header = header_2019 DOIP_PAYLOAD_TYPE_DIAG_MESSAGE (4 + user_data_length m);
          (res, buffer) \<leftarrow> doip_encode_header (Some header) buffer buffer_size;
          if res \<noteq> DOIP_RESULT_OK then Some (DOIP_RESULT_ERROR, buffer, encoded_length)
          else do {
            b \<leftarrow> buffer;
            data \<leftarrow> user_data m;
            let offset = (8 :: u32);
            b \<leftarrow> write_be16 b (unat offset) (dm_source_address m);
            let offset = offset + 2;
            b \<leftarrow> write_be16 b (unat offset) (dm_target_address m);
            let offset = offset + 2;
            b \<leftarrow> memcpy b (unat offset) data (unat (user_data_length m));
            let offset = offset + user_data_length m;
            Some (DOIP_RESULT_OK, Some b, Some offset)
          }
        }
      })"

definition doip_decode_diagnostic_message ::
    "bytes ptr \<Rightarrow> u32 \<Rightarrow> doip_diagnostic_message_t ptr
      \<Rightarrow> (doip_result_t \<times> doip_diagnostic_message_t ptr) exec" where
  "doip_decode_diagnostic_message payload len message =
     (if payload = NULL \<or> message = NULL then Some (DOIP_RESULT_INVALID_PARAM, message)
      else if len < 4 then Some (DOIP_RESULT_INVALID_FORMAT, message)
      else do {
        p \<leftarrow> payload;
        m \<leftarrow> message;
        sa \<leftarrow> read_be16 p;
        ta \<leftarrow> read_be16 (drop 2 p);
        Some (DOIP_RESULT_OK,
              Some (m\<lparr>dm_source_address := sa, dm_target_address := ta,
                      user_data := Some (drop 4 p), user_data_length := len - 4\<rparr>))
      })"

definition doip_encode_generic_nack ::
    "u8 \<Rightarrow> bytes ptr \<Rightarrow> u32 \<Rightarrow> u32 ptr \<Rightarrow> (doip_result_t \<times> bytes ptr \<times> u32 ptr) exec" where
  "doip_encode_generic_nack nack_code buffer buffer_size encoded_length =
     (if buffer = NULL \<or> encoded_length = NULL
      then Some (DOIP_RESULT_INVALID_PARAM, buffer, encoded_length)
      else if buffer_size < 9 then Some (DOIP_RESULT_BUFFER_TOO_SMALL, buffer, encoded_length)
      else do {
        let header = header_2019 DOIP_PAYLOAD_TYPE_GENERIC_NACK 1;
        (res, buffer) \<leftarrow> doip_encode_header (Some header) buffer buffer_size;
        if res \<noteq> DOIP_RESULT_OK then Some (DOIP_RESULT_ERROR, buffer, encoded_length)
        else do {
          b \<leftarrow> buffer;
          b \<leftarrow> wr b 8 nack_code;
          Some (DOIP_RESULT_OK, Some b, Some 9)
        }
      })"

definition doip_encode_diag_message_ack ::
    "u16 \<Rightarrow> u16 \<Rightarrow> u8 \<Rightarrow> bytes ptr \<Rightarrow> u32 \<Rightarrow> u32 ptr
      \<Rightarrow> (doip_result_t \<times> bytes ptr \<times> u32 ptr) exec" where
  "doip_encode_diag_message_ack source_address target_address ack_code buffer buffer_size
      encoded_length =
     (if buffer = NULL \<or> encoded_length = NULL
      then Some (DOIP_RESULT_INVALID_PARAM, buffer, encoded_length)
      else if buffer_size < 13 then Some (DOIP_RESULT_BUFFER_TOO_SMALL, buffer, encoded_length)
      else do {
        let ptype = (if ack_code = 0 then DOIP_PAYLOAD_TYPE_DIAG_MESSAGE_ACK
                     else DOIP_PAYLOAD_TYPE_DIAG_MESSAGE_NACK);
        let header = header_2019 ptype 5;
        (res, buffer) \<leftarrow> doip_encode_header (Some header) buffer buffer_size;
        if res \<noteq> DOIP_RESULT_OK then Some (DOIP_RESULT_ERROR, buffer, encoded_length)
        else do {
          b \<leftarrow> buffer;
          let offset = (8 :: u32);
          b \<leftarrow> wr b (unat offset) (ucast (drop_bit 8 source_address));
          b \<leftarrow> wr b (unat (offset + 1)) (ucast (source_address AND 0xFF));
          let offset = offset + 2;
          b \<leftarrow> wr b (unat offset) (ucast (drop_bit 8 target_address));
          b \<leftarrow> wr b (unat (offset + 1)) (ucast (target_address AND 0xFF));
          let offset = offset + 2;
          b \<leftarrow> wr b (unat offset) ack_code;
          let offset = offset + 1;
          Some (DOIP_RESULT_OK, Some b, Some offset)
        }
      })"

section \<open>Abstract messages and their frames\<close>

datatype doip_msg =
    VehicleAnnouncement bytes u16 bytes bytes u8 u8
  | RoutingActivationReq u16 u8 u32 u32
  | RoutingActivationRes u16 u16 u8 u32 u32
  | DiagMessage u16 u16 bytes
  | DiagAck u16 u16 u8
  | GenericNack u8

fun msg_type :: "doip_msg \<Rightarrow> u16" where
  "msg_type (VehicleAnnouncement _ _ _ _ _ _) = DOIP_PAYLOAD_TYPE_VEHICLE_ANNOUNCEMENT"
| "msg_type (RoutingActivationReq _ _ _ _) = DOIP_PAYLOAD_TYPE_ROUTING_ACTIVATION_REQ"
| "msg_type (RoutingActivationRes _ _ _ _ _) = DOIP_PAYLOAD_TYPE_ROUTING_ACTIVATION_RES"
| "msg_type (DiagMessage _ _ _) = DOIP_PAYLOAD_TYPE_DIAG_MESSAGE"
| "msg_type (DiagAck _ _ c) =
     (if c = 0 then DOIP_PAYLOAD_TYPE_DIAG_MESSAGE_ACK else DOIP_PAYLOAD_TYPE_DIAG_MESSAGE_NACK)"
| "msg_type (GenericNack _) = DOIP_PAYLOAD_TYPE_GENERIC_NACK"

fun msg_payload :: "doip_msg \<Rightarrow> bytes" where
  "msg_payload (VehicleAnnouncement vin la eid gid far sync) =
     vin @ be16 la @ eid @ gid @ [far, sync]"
| "msg_payload (RoutingActivationReq sa at res oem) = be16 sa @ [at] @ be32 res @ be32 oem"
| "msg_payload (RoutingActivationRes ta ea c res oem) =
     be16 ta @ be16 ea @ [c] @ be32 res @ be32 oem"
| "msg_payload (DiagMessage sa ta ud) = be16 sa @ be16 ta @ ud"
| "msg_payload (DiagAck sa ta c) = be16 sa @ be16 ta @ [c]"
| "msg_payload (GenericNack c) = [c]"

definition header_bytes :: "doip_header_t \<Rightarrow> bytes" where
  "header_bytes h = [protocol_version h, inverse_protocol_version h]
                    @ be16 (payload_type h) @ be32 (payload_length h)"

definition header_of :: "bytes \<Rightarrow> doip_header_t" where
  "header_of b =
     \<lparr>protocol_version = b ! 0, inverse_protocol_version = b ! 1,
      payload_type = of_be16 (b ! 2) (b ! 3),
      payload_length = of_be32 (b ! 4) (b ! 5) (b ! 6) (b ! 7)\<rparr>"

definition frame :: "doip_msg \<Rightarrow> bytes" where
  "frame m = header_bytes (header_2019 (msg_type m) (of_nat (length (msg_payload m))))
             @ msg_payload m"

text \<open>The identification fields have the sizes of the C arrays.\<close>

fun wf_msg :: "doip_msg \<Rightarrow> bool" where
  "wf_msg (VehicleAnnouncement vin la eid gid far sync) =
     (length vin = 17 \<and> length eid = 6 \<and> length gid = 6)"
| "wf_msg (DiagMessage sa ta ud) = (length ud \<le> 4092)"
| "wf_msg _ = True"

text \<open>What a successful encoder leaves behind: the frame at the start of the buffer, the rest of
  the buffer as it was, and the length of the frame in the length cell.\<close>

definition writes_frame ::
    "doip_msg \<Rightarrow> bytes \<Rightarrow> (doip_result_t \<times> bytes ptr \<times> u32 ptr) exec" where
  "writes_frame m b =
     Some (DOIP_RESULT_OK, Some (frame m @ drop (length (frame m)) b),
           Some (of_nat (length (frame m))))"

text \<open>The encoder the code has for each kind of message.\<close>

fun doip_encode_msg ::
    "doip_msg \<Rightarrow> bytes ptr \<Rightarrow> u32 \<Rightarrow> u32 ptr \<Rightarrow> (doip_result_t \<times> bytes ptr \<times> u32 ptr) exec" where
  "doip_encode_msg (VehicleAnnouncement vin la eid gid far sync) buf n l =
     doip_encode_vehicle_id_response
       (Some \<lparr>vid_vin = vin, vid_logical_address = la, vid_eid = eid, vid_gid = gid,
              further_action_required = far, sync_status = sync\<rparr>) buf n l"
| "doip_encode_msg (RoutingActivationReq sa at res oem) buf n l =
     doip_encode_routing_activation_req
       (Some \<lparr>rreq_source_address = sa, activation_type = at, rreq_reserved = res,
              rreq_oem_specific = oem\<rparr>) buf n l"
| "doip_encode_msg (RoutingActivationRes ta ea c res oem) buf n l =
     doip_encode_routing_activation_res
       (Some \<lparr>rres_tester_address = ta, rres_entity_address = ea, response_code = c,
              rres_reserved = res, rres_oem_specific = oem\<rparr>) buf n l"
| "doip_encode_msg (DiagMessage sa ta ud) buf n l =
     doip_encode_diagnostic_message
       (Some \<lparr>dm_source_address = sa, dm_target_address = ta,
              user_data_length = of_nat (length ud), user_data = Some ud\<rparr>) buf n l"
| "doip_encode_msg (DiagAck sa ta c) buf n l = doip_encode_diag_message_ack sa ta c buf n l"
| "doip_encode_msg (GenericNack c) buf n l = doip_encode_generic_nack c buf n l"

section \<open>Running the code\<close>

lemma write_be16_block [exec_simps]: "write_be16 b off v = wr_block b off (be16 v)"
  by (simp add: write_be16_def be16_def exec_simps)

lemma write_be32_block [exec_simps]: "write_be32 b off v = wr_block b off (be32 v)"
  by (simp add: write_be32_def be32_def exec_simps)

lemma read_be16_Some [exec_simps]:
  "2 \<le> length b \<Longrightarrow> read_be16 b = Some (of_be16 (b ! 0) (b ! 1))"
  by (simp add: read_be16_def of_be16_def exec_simps)

lemma read_be32_Some [exec_simps]:
  "4 \<le> length b \<Longrightarrow> read_be32 b = Some (of_be32 (b ! 0) (b ! 1) (b ! 2) (b ! 3))"
  by (simp add: read_be32_def of_be32_def exec_simps)

lemma read_be16_append [exec_simps]: "read_be16 (be16 v @ xs) = Some v"
  by (simp add: read_be16_Some nth_append) (simp add: be16_def)

lemma read_be32_append [exec_simps]: "read_be32 (be32 v @ xs) = Some v"
  by (simp add: read_be32_Some nth_append) (simp add: be32_def)

lemma length_header_bytes [simp]: "length (header_bytes h) = 8"
  by (simp add: header_bytes_def)

lemma length_frame: "length (frame m) = 8 + length (msg_payload m)"
  by (simp add: frame_def)

lemma u32_not_less_mono: "\<not> n < (k :: u32) \<Longrightarrow> j \<le> k \<Longrightarrow> \<not> n < j"
  by auto

lemma doip_encode_header_ok [exec_simps]:
  "\<not> n < 8 \<Longrightarrow>
   doip_encode_header (Some h) (Some b) n =
     wr_block b 0 (header_bytes h) \<bind> (\<lambda>b. Some (DOIP_RESULT_OK, Some b))"
  by (simp add: doip_encode_header_def exec_simps header_bytes_def)

lemma header_of_bytes [simp]: "header_of (header_bytes h @ xs) = h"
  by (simp add: header_of_def header_bytes_def be16_def be32_def)

lemma header_bytes_of [simp]: "8 \<le> length b \<Longrightarrow> header_bytes (header_of b) = take 8 b"
  by (auto simp: header_of_def header_bytes_def list_eq_iff_nth_eq nth_append nth_Cons'
      less_Suc_eq eval_nat_numeral)

lemma doip_decode_header_ok [exec_simps]:
  "\<not> n < 8 \<Longrightarrow> 8 \<le> length b \<Longrightarrow>
   doip_decode_header (Some b) n (Some h) = Some (DOIP_RESULT_OK, Some (header_of b))"
  by (simp add: doip_decode_header_def header_of_def exec_simps)

lemma doip_decode_header_short [exec_simps]:
  "n < 8 \<Longrightarrow> doip_decode_header (Some b) n (Some h) = Some (DOIP_RESULT_BUFFER_TOO_SMALL, Some h)"
  by (simp add: doip_decode_header_def)

lemma doip_decode_diagnostic_message_bytes [exec_simps]:
  "\<not> len < 4 \<Longrightarrow>
   doip_decode_diagnostic_message (Some (be16 sa @ be16 ta @ xs)) len (Some m) =
     Some (DOIP_RESULT_OK, Some \<lparr>dm_source_address = sa, dm_target_address = ta,
       user_data_length = len - 4, user_data = Some xs\<rparr>)"
  by (simp add: doip_decode_diagnostic_message_def exec_simps)

lemma doip_decode_diagnostic_message_ok [exec_simps]:
  "\<not> len < 4 \<Longrightarrow> 4 \<le> length p \<Longrightarrow>
   doip_decode_diagnostic_message (Some p) len (Some m) =
     Some (DOIP_RESULT_OK, Some \<lparr>dm_source_address = of_be16 (p ! 0) (p ! 1),
       dm_target_address = of_be16 (p ! 2) (p ! 3), user_data_length = len - 4,
       user_data = Some (drop 4 p)\<rparr>)"
  by (simp add: doip_decode_diagnostic_message_def exec_simps)

lemma doip_decode_diagnostic_message_short [exec_simps]:
  "len < 4 \<Longrightarrow>
   doip_decode_diagnostic_message (Some p) len (Some m) = Some (DOIP_RESULT_INVALID_FORMAT, Some m)"
  by (simp add: doip_decode_diagnostic_message_def)

section \<open>Every encoder writes the frame of its message\<close>

lemma doip_encode_vehicle_id_response_frame [wire_simps]:
  assumes "length (vid_vin r) = 17" "length (vid_eid r) = 6" "length (vid_gid r) = 6"
    and "\<not> n < 41" "41 \<le> length b"
  shows "doip_encode_vehicle_id_response (Some r) (Some b) n (Some l) =
    writes_frame (VehicleAnnouncement (vid_vin r) (vid_logical_address r) (vid_eid r) (vid_gid r)
      (further_action_required r) (sync_status r)) b"
  using assms u32_not_less_mono [OF assms(4), of 8]
  by (simp add: doip_encode_vehicle_id_response_def exec_simps)
    (simp add: wr_block_0 writes_frame_def frame_def)

lemma doip_encode_routing_activation_req_frame [wire_simps]:
  assumes "\<not> n < 19" "19 \<le> length b"
  shows "doip_encode_routing_activation_req (Some r) (Some b) n (Some l) =
    writes_frame (RoutingActivationReq (rreq_source_address r) (activation_type r)
      (rreq_reserved r) (rreq_oem_specific r)) b"
  using assms u32_not_less_mono [OF assms(1), of 8]
  by (simp add: doip_encode_routing_activation_req_def exec_simps)
    (simp add: wr_block_0 writes_frame_def frame_def)

lemma doip_encode_routing_activation_res_frame [wire_simps]:
  assumes "\<not> n < 21" "21 \<le> length b"
  shows "doip_encode_routing_activation_res (Some r) (Some b) n (Some l) =
    writes_frame (RoutingActivationRes (rres_tester_address r) (rres_entity_address r)
      (response_code r) (rres_reserved r) (rres_oem_specific r)) b"
  using assms u32_not_less_mono [OF assms(1), of 8]
  by (simp add: doip_encode_routing_activation_res_def exec_simps)
    (simp add: wr_block_0 writes_frame_def frame_def)

lemma doip_encode_diag_message_ack_frame [wire_simps]:
  assumes "\<not> n < 13" "13 \<le> length b"
  shows "doip_encode_diag_message_ack sa ta c (Some b) n (Some l) = writes_frame (DiagAck sa ta c) b"
  using assms u32_not_less_mono [OF assms(1), of 8]
  by (simp add: doip_encode_diag_message_ack_def exec_simps)
    (simp add: wr_block_0 writes_frame_def frame_def be16_def)

lemma doip_encode_generic_nack_frame [wire_simps]:
  assumes "\<not> n < 9" "9 \<le> length b"
  shows "doip_encode_generic_nack c (Some b) n (Some l) = writes_frame (GenericNack c) b"
  using assms u32_not_less_mono [OF assms(1), of 8]
  by (simp add: doip_encode_generic_nack_def exec_simps)
    (simp add: wr_block_0 writes_frame_def frame_def)

lemma doip_encode_diagnostic_message_frame [wire_simps]:
  assumes "unat L < 4294967284" "unat L \<le> length d" "\<not> n < 12 + L" "12 + unat L \<le> length b"
  shows "doip_encode_diagnostic_message
      (Some \<lparr>dm_source_address = sa, dm_target_address = ta, user_data_length = L,
             user_data = Some d\<rparr>) (Some b) n (Some l) =
    writes_frame (DiagMessage sa ta (take (unat L) d)) b"
proof -
  have tot: "unat (12 + L) = 12 + unat L"
    using assms(1) unat_add_no_wrap [of 12 L] by simp
  have "12 + unat L \<le> unat n"
    using assms(3) tot by (simp add: not_less word_le_nat_alt)
  then have n8: "\<not> n < 8"
    by (simp add: not_less word_le_nat_alt)
  have "doip_encode_diagnostic_message
      (Some \<lparr>dm_source_address = sa, dm_target_address = ta, user_data_length = L,
             user_data = Some d\<rparr>) (Some b) n (Some l) =
    wr_block b 0 (frame (DiagMessage sa ta (take (unat L) d)))
      \<bind> (\<lambda>b. Some (DOIP_RESULT_OK, Some b, Some (12 + L)))"
    using assms n8 by (simp add: doip_encode_diagnostic_message_def exec_simps frame_def)
  then show ?thesis
    using assms by (simp add: wr_block_0 writes_frame_def length_frame)
qed

section \<open>The contract of a frame encoder\<close>

text \<open>
  What the callers of an encoder rely on: it refuses null pointers, refuses a buffer that is
  too small without touching it, and otherwise writes the frame. Everything a caller needs
  (no write outside the buffer, a header the receiver accepts) follows from these laws.
\<close>

locale frame_encoder =
  fixes encode :: "'r \<Rightarrow> bytes ptr \<Rightarrow> u32 \<Rightarrow> u32 ptr \<Rightarrow> (doip_result_t \<times> bytes ptr \<times> u32 ptr) exec"
    and msg_of :: "'r \<Rightarrow> doip_msg"
    and wf :: "'r \<Rightarrow> bool"
  assumes payload_limit: "wf r \<Longrightarrow> length (msg_payload (msg_of r)) \<le> 4096"
    and null_buffer: "encode r NULL n lp = Some (DOIP_RESULT_INVALID_PARAM, NULL, lp)"
    and null_length: "encode r bp n NULL = Some (DOIP_RESULT_INVALID_PARAM, bp, NULL)"
    and too_small: "wf r \<Longrightarrow> unat n < length (frame (msg_of r)) \<Longrightarrow>
      encode r (Some b) n (Some l) = Some (DOIP_RESULT_BUFFER_TOO_SMALL, Some b, Some l)"
    and fits: "wf r \<Longrightarrow> length (frame (msg_of r)) \<le> unat n \<Longrightarrow> length (frame (msg_of r)) \<le> length b \<Longrightarrow>
      encode r (Some b) n (Some l) = writes_frame (msg_of r) b"
begin

lemma refines_frame:
  assumes "wf r" and "unat n \<le> length b"
  shows "encode r (Some b) n (Some l) =
    (if unat n < length (frame (msg_of r))
     then Some (DOIP_RESULT_BUFFER_TOO_SMALL, Some b, Some l) else writes_frame (msg_of r) b)"
  using assms too_small fits by auto

lemma encoded_length_exact:
  assumes "wf r"
  shows "unat (of_nat (length (frame (msg_of r))) :: u32) = length (frame (msg_of r))"
  using payload_limit [OF assms] by (intro unat_of_nat_u32) (simp add: length_frame)

lemma announces_itself:
  assumes "wf r" and "unat n \<le> length b"
    and "encode r (Some b) n (Some l) = Some (DOIP_RESULT_OK, Some b', Some l')"
  shows "\<exists>h. doip_decode_header (Some b') l' (Some h0) = Some (DOIP_RESULT_OK, Some h)
           \<and> doip_validate_header (Some h)
           \<and> unat l' = 8 + unat (payload_length h)
           \<and> payload_type h = msg_type (msg_of r)
           \<and> take (unat (payload_length h)) (drop 8 b') = msg_payload (msg_of r)"
proof -
  let ?m = "msg_of r" and ?h = "header_2019 (msg_type (msg_of r)) (of_nat (length (msg_payload (msg_of r))))"
  from assms have b': "b' = frame ?m @ drop (length (frame ?m)) b"
    and l': "l' = of_nat (length (frame ?m))"
    by (auto simp: refines_frame writes_frame_def split: if_splits)
  have ul: "unat l' = length (frame ?m)"
    using encoded_length_exact [OF assms(1)] l' by simp
  have up: "unat (of_nat (length (msg_payload ?m)) :: u32) = length (msg_payload ?m)"
    using payload_limit [OF assms(1)] by (intro unat_of_nat_u32) simp
  have "\<not> l' < 8"
    using ul by (simp add: not_less word_le_nat_alt length_frame)
  then have "doip_decode_header (Some b') l' (Some h0) = Some (DOIP_RESULT_OK, Some ?h)"
    by (simp add: b' frame_def exec_simps)
  moreover have "doip_validate_header (Some ?h)"
    using payload_limit [OF assms(1)] up
    by (simp add: doip_validate_header_def header_2019_def word_less_nat_alt)
  ultimately show ?thesis
    using ul up by (simp add: header_2019_def length_frame) (simp add: b' frame_def)
qed

end

lemma wf_msg_payload_limit: "wf_msg m \<Longrightarrow> length (msg_payload m) \<le> 4096"
  by (cases m) auto

lemma doip_encode_msg_null:
  "doip_encode_msg m NULL n l = Some (DOIP_RESULT_INVALID_PARAM, NULL, l)"
  "doip_encode_msg m b n NULL = Some (DOIP_RESULT_INVALID_PARAM, b, NULL)"
  by (cases m; simp add: doip_encode_vehicle_id_response_def doip_encode_routing_activation_req_def
      doip_encode_routing_activation_res_def doip_encode_diagnostic_message_def
      doip_encode_diag_message_ack_def doip_encode_generic_nack_def)+

lemma unat_12_plus_length:
  "length ud \<le> 4092 \<Longrightarrow> unat (12 + of_nat (length ud) :: u32) = 12 + length ud"
  using unat_add_no_wrap [of "12 :: u32" "of_nat (length ud)"] by (simp add: unat_of_nat_u32)

lemma doip_encode_msg_too_small:
  assumes "wf_msg m" and "unat n < length (frame m)"
  shows "doip_encode_msg m (Some b) n (Some l) =
    Some (DOIP_RESULT_BUFFER_TOO_SMALL, Some b, Some l)"
  using assms
  by (cases m)
    (simp_all add: doip_encode_vehicle_id_response_def doip_encode_routing_activation_req_def
      doip_encode_routing_activation_res_def doip_encode_diagnostic_message_def
      doip_encode_diag_message_ack_def doip_encode_generic_nack_def length_frame
      word_less_nat_alt unat_12_plus_length)

lemma doip_encode_msg_fits:
  assumes "wf_msg m" and "length (frame m) \<le> unat n" and "length (frame m) \<le> length b"
  shows "doip_encode_msg m (Some b) n (Some l) = writes_frame m b"
  using assms
  by (cases m)
    (simp_all add: wire_simps length_frame word_less_nat_alt unat_of_nat_u32 unat_12_plus_length)

interpretation codec: frame_encoder doip_encode_msg "\<lambda>m. m" wf_msg
  by unfold_locales
    (simp_all add: wf_msg_payload_limit doip_encode_msg_null doip_encode_msg_too_small
      doip_encode_msg_fits)

lemma wrap_u32_12:
  "4294967284 \<le> x \<Longrightarrow> x < 4294967296 \<Longrightarrow> (12 + x) mod 4294967296 = x - (4294967284 :: nat)"
  by (simp add: le_mod_geq)

section \<open>Properties\<close>

text \<open>C1. Every encoder of the protocol layer refines the abstract frame of its message: with a
  buffer of at least the announced size it either reports \<open>DOIP_RESULT_BUFFER_TOO_SMALL\<close> and
  changes nothing, exactly when the frame does not fit, or writes the frame at the start of the
  buffer, leaves every later byte alone and reports the frame's length. No byte outside the
  buffer is read or written.\<close>

theorem encoders_refine_frames:
  assumes "wf_msg m" and "unat n \<le> length b"
  shows "doip_encode_msg m (Some b) n (Some l) =
    (if unat n < length (frame m)
     then Some (DOIP_RESULT_BUFFER_TOO_SMALL, Some b, Some l)
     else Some (DOIP_RESULT_OK, Some (frame m @ drop (length (frame m)) b),
                Some (of_nat (length (frame m)))))"
  using codec.refines_frame [OF assms] by (simp add: writes_frame_def)

theorem encoders_refine_frames_witness:
  "doip_encode_msg (DiagAck 0x1000 0x0E80 0) (Some (replicate 32 0)) 32 (Some 0) =
     Some (DOIP_RESULT_OK,
           Some ([0x03, 0xFC, 0x80, 0x02, 0, 0, 0, 5, 0x10, 0x00, 0x0E, 0x80, 0] @ replicate 19 0),
           Some 13)"
  using encoders_refine_frames [of "DiagAck 0x1000 0x0E80 0" 32 "replicate 32 0" 0]
  by (simp add: length_frame) (simp add: frame_def header_bytes_def header_2019_def be16_def be32_def)

text \<open>A frame that an encoder has written announces itself correctly to the receiving side:
  the header decodes, passes \<open>doip_validate_header\<close>, carries the payload type of the message, its
  length field plus the eight header bytes is the encoded length, and the bytes it delimits are
  the payload.\<close>

lemma encoded_frame_accepted:
  assumes "wf_msg m" and "unat n \<le> length b"
    and "doip_encode_msg m (Some b) n (Some l) = Some (DOIP_RESULT_OK, Some b', Some l')"
  shows "\<exists>h. doip_decode_header (Some b') l' (Some h0) = Some (DOIP_RESULT_OK, Some h)
           \<and> doip_validate_header (Some h)
           \<and> unat l' = 8 + unat (payload_length h)
           \<and> payload_type h = msg_type m
           \<and> take (unat (payload_length h)) (drop 8 b') = msg_payload m"
  by (rule codec.announces_itself [OF assms])

text \<open>Encoding a header and decoding the buffer gives the header back, for every header
  (valid or not) and every buffer of at least eight bytes.\<close>

lemma header_roundtrip:
  assumes "8 \<le> unat n" and "8 \<le> length b"
  shows "do { (res, b') \<leftarrow> doip_encode_header (Some h) (Some b) n;
              doip_decode_header b' n (Some h0) } = Some (DOIP_RESULT_OK, Some h)"
proof -
  have "\<not> n < 8"
    using assms(1) by (simp add: not_less word_le_nat_alt)
  then show ?thesis
    using assms(2) by (simp add: doip_encode_header_ok wr_block_0 doip_decode_header_ok)
qed

text \<open>\<open>doip_validate_header\<close> accepts exactly the headers whose version is 2012 or 2019, whose
  inverse version is the bitwise complement of the version, and whose payload length is at most
  4096; a null pointer is rejected.\<close>

lemma validate_header_iff:
  "doip_validate_header p \<longleftrightarrow>
     (\<exists>h. p = Some h \<and> protocol_version h \<in> {0x02, 0x03}
        \<and> inverse_protocol_version h = NOT (protocol_version h)
        \<and> unat (payload_length h) \<le> 4096)"
  by (auto simp: doip_validate_header_def word_less_nat_alt split: option.splits if_splits)

text \<open>C2. A diagnostic message that fits a tester's buffer survives the wire: the receiver's
  decoder, run on the bytes after the header with the announced payload length, returns the two
  addresses and a pointer to exactly the user data.\<close>

theorem diagnostic_message_roundtrip:
  assumes "length ud \<le> 4092" and "12 + length ud \<le> unat n" and "unat n \<le> length b"
  shows "\<exists>b' l'. doip_encode_diagnostic_message
             (Some \<lparr>dm_source_address = sa, dm_target_address = ta,
                    user_data_length = of_nat (length ud), user_data = Some ud\<rparr>)
             (Some b) n (Some l) = Some (DOIP_RESULT_OK, Some b', Some l')
         \<and> (\<exists>m. doip_decode_diagnostic_message (Some (drop 8 b')) (l' - 8) (Some m0) = Some (DOIP_RESULT_OK, Some m)
               \<and> dm_source_address m = sa \<and> dm_target_address m = ta
               \<and> unat (user_data_length m) = length ud
               \<and> (\<exists>d. user_data m = Some d \<and> take (length ud) d = ud))"
proof -
  let ?f = "frame (DiagMessage sa ta ud)"
  let ?b = "?f @ drop (length ?f) b" and ?l = "of_nat (12 + length ud) :: u32"
    and ?d = "ud @ drop (length ?f) b"
  have enc: "doip_encode_msg (DiagMessage sa ta ud) (Some b) n (Some l) =
      Some (DOIP_RESULT_OK, Some ?b, Some ?l)"
    using assms codec.fits [of "DiagMessage sa ta ud" n b l]
    by (simp add: writes_frame_def length_frame)
  have "?l - 8 = of_nat (4 + length ud)"
    by simp
  then have "unat (?l - 8) = 4 + length ud"
    using assms(1) unat_of_nat_u32 [of "4 + length ud"] by simp
  then have "\<not> ?l - 8 < 4"
    by (simp only: word_less_nat_alt) simp
  moreover have "drop 8 ?b = be16 sa @ be16 ta @ ?d"
    by (simp add: frame_def)
  ultimately have dec: "doip_decode_diagnostic_message (Some (drop 8 ?b)) (?l - 8) (Some m0) =
      Some (DOIP_RESULT_OK, Some \<lparr>dm_source_address = sa, dm_target_address = ta,
        user_data_length = ?l - 8 - 4, user_data = Some ?d\<rparr>)"
    by (simp only: doip_decode_diagnostic_message_bytes simp_thms)
  have ul: "unat (?l - 8 - 4) = length ud"
    using assms(1) by (simp add: unat_of_nat_u32)
  show ?thesis
    by (intro exI conjI, rule enc [unfolded doip_encode_msg.simps], rule dec)
      (simp_all only: doip_diagnostic_message_t.select_convs ul, simp)
qed

theorem diagnostic_message_roundtrip_witness:
  "\<exists>b' l'. doip_encode_diagnostic_message
             (Some \<lparr>dm_source_address = 0x0E80, dm_target_address = 0x1000,
                    user_data_length = of_nat (length [0x10, 0x02 :: u8]), user_data = Some [0x10, 0x02]\<rparr>)
             (Some (replicate 64 0)) 64 (Some 0) = Some (DOIP_RESULT_OK, Some b', Some l')
         \<and> (\<exists>m. doip_decode_diagnostic_message (Some (drop 8 b')) (l' - 8)
                  (Some \<lparr>dm_source_address = 0, dm_target_address = 0, user_data_length = 0,
                         user_data = NULL\<rparr>) = Some (DOIP_RESULT_OK, Some m)
               \<and> dm_source_address m = 0x0E80 \<and> dm_target_address m = 0x1000
               \<and> unat (user_data_length m) = length [0x10, 0x02 :: u8]
               \<and> (\<exists>d. user_data m = Some d \<and> take (length [0x10, 0x02 :: u8]) d = [0x10, 0x02]))"
  by (rule diagnostic_message_roundtrip) simp_all

text \<open>The size check of \<open>doip_encode_diagnostic_message\<close> is computed modulo \<open>2 ^ 32\<close>: for a
  \<open>user_data_length\<close> of at least \<open>2 ^ 32 - 12\<close> the check passes on a wrapped, small total and the
  copy runs out of the buffer, so a caller that passes such a length gets undefined behaviour
  instead of \<open>DOIP_RESULT_BUFFER_TOO_SMALL\<close>.\<close>

lemma diagnostic_message_length_wraps:
  assumes "4294967284 \<le> unat L" and "20 \<le> unat n" and "length b < 4294967296"
  shows "doip_encode_diagnostic_message
      (Some \<lparr>dm_source_address = sa, dm_target_address = ta, user_data_length = L,
             user_data = Some d\<rparr>) (Some b) n (Some l) = undefined_behaviour"
proof -
  have "unat (12 + L) = (12 + unat L) mod 4294967296"
    by (simp add: unat_word_ariths)
  also have "\<dots> = unat L - 4294967284"
    by (rule wrap_u32_12 [OF assms(1) unat_u32_bound])
  finally have "unat (12 + L) \<le> unat n"
    using assms(2) unat_u32_bound [of L] by linarith
  then have "\<not> n < 12 + L" and "\<not> n < 8"
    using assms(2) by (simp_all add: word_less_nat_alt)
  moreover have "memcpy b' 12 d (unat L) = undefined_behaviour" if "length b' = length b" for b' :: bytes
    using that assms by (auto simp: memcpy_def rd_block_def wr_block_def)
  ultimately show ?thesis
    by (auto simp: doip_encode_diagnostic_message_def exec_simps split: Option.bind_split
        dest: length_wr_block)
qed

end
