(* ===== verification/DoIP_Interface.thy ===== *)
theory DoIP_Interface
  imports DoIP_Protocol
begin

text \<open>
  The network interface of \<^verbatim>\<open>src/doip/doip_interface.h\<close> and \<^verbatim>\<open>src/doip/doip_interface.c\<close>: the table of
  network operations, the connection slots with their receive buffers, and every operation of the
  interface, the polling function \<open>doip_interface_process\<close> included.

  The network operations act on a network state of type \<open>'w\<close>, which is a parameter of the model.
  A callback acts on the whole system record, because the code's callbacks reach the interface
  through the entity that is their user data; after each callback the fields of the interface are
  read again, as the code does. A callback receives the pointer to the receive buffer as the list
  of all bytes of that buffer.

  The receive loop of a connection is a partial function: its termination is a theorem, with the
  one length field for which the loop does not terminate.
\<close>

section \<open>Data\<close>

record 'w doip_network_ops_t =
  udp_bind :: "u16 \<Rightarrow> 'w \<Rightarrow> int \<times> 'w"
  udp_sendto :: "int \<Rightarrow> bytes \<Rightarrow> u32 \<Rightarrow> string \<Rightarrow> u16 \<Rightarrow> 'w \<Rightarrow> int \<times> 'w"
  udp_recvfrom :: "int \<Rightarrow> u32 \<Rightarrow> 'w \<Rightarrow> (int \<times> bytes \<times> string \<times> u16) \<times> 'w"
  tcp_listen :: "u16 \<Rightarrow> 'w \<Rightarrow> int \<times> 'w"
  tcp_accept :: "int \<Rightarrow> 'w \<Rightarrow> int \<times> 'w"
  tcp_connect :: "string \<Rightarrow> u16 \<Rightarrow> 'w \<Rightarrow> int \<times> 'w"
  tcp_send :: "int \<Rightarrow> bytes \<Rightarrow> u32 \<Rightarrow> 'w \<Rightarrow> int \<times> 'w"
  tcp_recv :: "int \<Rightarrow> u32 \<Rightarrow> 'w \<Rightarrow> (int \<times> bytes) \<times> 'w"
  close_socket :: "int \<Rightarrow> 'w \<Rightarrow> 'w"
  socket_select :: "(int \<Rightarrow> u32 \<Rightarrow> 'w \<Rightarrow> int \<times> 'w) ptr"

datatype doip_connection_state_t =
    DOIP_CONN_STATE_CLOSED | DOIP_CONN_STATE_LISTEN | DOIP_CONN_STATE_PENDING_ACTIVATION
  | DOIP_CONN_STATE_ACTIVATED | DOIP_CONN_STATE_FINALIZE

record doip_tcp_connection_t =
  socket_fd :: int
  tcp_state :: doip_connection_state_t
  tcp_source_address :: u16
  last_activity_time :: u32
  rx_buffer :: bytes
  rx_buffer_used :: u32

record 'w doip_interface_t =
  net_ops :: "'w doip_network_ops_t ptr"
  udp_socket :: int
  tcp_listen_socket :: int
  connections :: "doip_tcp_connection_t list"
  udp_rx_buffer :: bytes

abbreviation (input) "INVALID_SOCKET \<equiv> (- 1 :: int)"
abbreviation (input) "DOIP_UDP_DISCOVERY_PORT \<equiv> (13400 :: u16)"
abbreviation (input) "DOIP_TCP_DATA_PORT \<equiv> (13400 :: u16)"
abbreviation (input) "DOIP_MAX_CONNECTIONS \<equiv> (2 :: nat)"
abbreviation (input) "DOIP_RX_BUFFER_SIZE \<equiv> (4096 :: u32)"

text \<open>The state the interface layer works on: the interface object and the network. The layers
  above extend the record with their own objects.\<close>

record 'w net_system =
  iface :: "'w doip_interface_t"
  net :: 'w

type_synonym 's udp_rx_callback = "string \<Rightarrow> u16 \<Rightarrow> bytes \<Rightarrow> u32 \<Rightarrow> 's \<Rightarrow> 's exec"
type_synonym 's tcp_rx_callback = "int \<Rightarrow> bytes \<Rightarrow> u32 \<Rightarrow> 's \<Rightarrow> 's exec"
type_synonym 's connection_callback = "int \<Rightarrow> 's \<Rightarrow> 's exec"

text \<open>Access to one connection slot of the interface.\<close>

definition conn :: "('w, 'z) net_system_scheme \<Rightarrow> nat \<Rightarrow> doip_tcp_connection_t exec" where
  "conn s i = rd (connections (iface s)) i"

definition conn_update ::
    "nat \<Rightarrow> (doip_tcp_connection_t \<Rightarrow> doip_tcp_connection_t) \<Rightarrow> ('w, 'z) net_system_scheme
      \<Rightarrow> ('w, 'z) net_system_scheme exec" where
  "conn_update i f s = do {
     cs \<leftarrow> upd_at (connections (iface s)) i f;
     Some (s\<lparr>iface := (iface s)\<lparr>connections := cs\<rparr>\<rparr>)
   }"

definition ops :: "('w, 'z) net_system_scheme \<Rightarrow> 'w doip_network_ops_t exec" where
  "ops s = net_ops (iface s)"

section \<open>Initialisation and transmission\<close>

definition doip_interface_init ::
    "object_ptr \<Rightarrow> 'w doip_network_ops_t ptr \<Rightarrow> ('w, 'z) net_system_scheme
      \<Rightarrow> (doip_result_t \<times> ('w, 'z) net_system_scheme) exec" where
  "doip_interface_init interface nops s =
     (if interface = NULL \<or> nops = NULL then Some (DOIP_RESULT_INVALID_PARAM, s)
      else do {
        let s = s\<lparr>iface := (iface s)\<lparr>net_ops := nops, udp_socket := INVALID_SOCKET,
                                     tcp_listen_socket := INVALID_SOCKET\<rparr>\<rparr>;
        s \<leftarrow> for_each [0..<DOIP_MAX_CONNECTIONS]
              (\<lambda>i. conn_update i (\<lambda>c. c\<lparr>socket_fd := INVALID_SOCKET, tcp_state := DOIP_CONN_STATE_CLOSED,
                 tcp_source_address := 0, last_activity_time := 0, rx_buffer_used := 0\<rparr>)) s;
        Some (DOIP_RESULT_OK, s)
      })"

definition doip_interface_start_udp ::
    "object_ptr \<Rightarrow> u16 \<Rightarrow> ('w, 'z) net_system_scheme
      \<Rightarrow> (doip_result_t \<times> ('w, 'z) net_system_scheme) exec" where
  "doip_interface_start_udp interface port s =
     (if interface = NULL then Some (DOIP_RESULT_INVALID_PARAM, s)
      else do {
        no \<leftarrow> ops s;
        let (sock, w) = udp_bind no port (net s);
        let s = s\<lparr>iface := (iface s)\<lparr>udp_socket := sock\<rparr>, net := w\<rparr>;
        if udp_socket (iface s) < 0 then Some (DOIP_RESULT_ERROR, s) else Some (DOIP_RESULT_OK, s)
      })"

definition doip_interface_start_tcp_server ::
    "object_ptr \<Rightarrow> u16 \<Rightarrow> ('w, 'z) net_system_scheme
      \<Rightarrow> (doip_result_t \<times> ('w, 'z) net_system_scheme) exec" where
  "doip_interface_start_tcp_server interface port s =
     (if interface = NULL then Some (DOIP_RESULT_INVALID_PARAM, s)
      else do {
        no \<leftarrow> ops s;
        let (sock, w) = tcp_listen no port (net s);
        let s = s\<lparr>iface := (iface s)\<lparr>tcp_listen_socket := sock\<rparr>, net := w\<rparr>;
        if tcp_listen_socket (iface s) < 0 then Some (DOIP_RESULT_ERROR, s)
        else Some (DOIP_RESULT_OK, s)
      })"

definition doip_interface_udp_send ::
    "object_ptr \<Rightarrow> string ptr \<Rightarrow> u16 \<Rightarrow> bytes ptr \<Rightarrow> u32 \<Rightarrow> ('w, 'z) net_system_scheme
      \<Rightarrow> (doip_result_t \<times> ('w, 'z) net_system_scheme) exec" where
  "doip_interface_udp_send interface dest_ip dest_port data len s =
     (if interface = NULL \<or> dest_ip = NULL \<or> data = NULL then Some (DOIP_RESULT_INVALID_PARAM, s)
      else do {
        no \<leftarrow> ops s;
        d \<leftarrow> data;
        ip \<leftarrow> dest_ip;
        let (result, w) = udp_sendto no (udp_socket (iface s)) d len ip dest_port (net s);
        Some (if result \<ge> 0 then DOIP_RESULT_OK else DOIP_RESULT_ERROR, s\<lparr>net := w\<rparr>)
      })"

definition doip_interface_udp_broadcast ::
    "object_ptr \<Rightarrow> bytes ptr \<Rightarrow> u32 \<Rightarrow> u16 \<Rightarrow> ('w, 'z) net_system_scheme
      \<Rightarrow> (doip_result_t \<times> ('w, 'z) net_system_scheme) exec" where
  "doip_interface_udp_broadcast interface data len port s =
     (if interface = NULL \<or> data = NULL then Some (DOIP_RESULT_INVALID_PARAM, s)
      else do {
        no \<leftarrow> ops s;
        d \<leftarrow> data;
        let (result, w) = udp_sendto no (udp_socket (iface s)) d len ''255.255.255.255'' port (net s);
        Some (if result \<ge> 0 then DOIP_RESULT_OK else DOIP_RESULT_ERROR, s\<lparr>net := w\<rparr>)
      })"

definition doip_interface_tcp_send ::
    "object_ptr \<Rightarrow> int \<Rightarrow> bytes ptr \<Rightarrow> u32 \<Rightarrow> ('w, 'z) net_system_scheme
      \<Rightarrow> (doip_result_t \<times> ('w, 'z) net_system_scheme) exec" where
  "doip_interface_tcp_send interface connection_id data len s =
     (if interface = NULL \<or> data = NULL then Some (DOIP_RESULT_INVALID_PARAM, s)
      else if connection_id < 0 \<or> connection_id \<ge> int DOIP_MAX_CONNECTIONS
      then Some (DOIP_RESULT_INVALID_PARAM, s)
      else do {
        i \<leftarrow> idx connection_id;
        c \<leftarrow> conn s i;
        if socket_fd c < 0 then Some (DOIP_RESULT_NOT_READY, s)
        else do {
          no \<leftarrow> ops s;
          d \<leftarrow> data;
          let (result, w) = tcp_send no (socket_fd c) d len (net s);
          Some (if result \<ge> 0 then DOIP_RESULT_OK else DOIP_RESULT_ERROR, s\<lparr>net := w\<rparr>)
        }
      })"

definition doip_interface_close_connection ::
    "object_ptr \<Rightarrow> int \<Rightarrow> ('w, 'z) net_system_scheme \<Rightarrow> ('w, 'z) net_system_scheme exec" where
  "doip_interface_close_connection interface connection_id s =
     (if interface = NULL \<or> connection_id < 0 \<or> connection_id \<ge> int DOIP_MAX_CONNECTIONS then Some s
      else do {
        i \<leftarrow> idx connection_id;
        c \<leftarrow> conn s i;
        if socket_fd c \<ge> 0 then do {
          no \<leftarrow> ops s;
          let s = s\<lparr>net := close_socket no (socket_fd c) (net s)\<rparr>;
          conn_update i (\<lambda>c. c\<lparr>socket_fd := INVALID_SOCKET, tcp_state := DOIP_CONN_STATE_CLOSED,
                                rx_buffer_used := 0\<rparr>) s
        } else Some s
      })"

section \<open>Polling\<close>

text \<open>\<open>find_free_connection\<close>: the first closed slot, or \<open>INVALID_SOCKET\<close>.\<close>

fun first_closed :: "nat list \<Rightarrow> doip_tcp_connection_t list \<Rightarrow> int exec" where
  "first_closed [] cs = Some INVALID_SOCKET"
| "first_closed (i # is) cs = do {
     c \<leftarrow> rd cs i;
     if tcp_state c = DOIP_CONN_STATE_CLOSED then Some (int i) else first_closed is cs
   }"

definition find_free_connection :: "'w doip_interface_t \<Rightarrow> int exec" where
  "find_free_connection interface = first_closed [0..<DOIP_MAX_CONNECTIONS] (connections interface)"

text \<open>The three stages of \<open>doip_interface_process\<close>. A null callback is \<open>None\<close>.\<close>

definition process_udp ::
    "(('w, 'z) net_system_scheme udp_rx_callback) ptr \<Rightarrow> ('w, 'z) net_system_scheme
      \<Rightarrow> ('w, 'z) net_system_scheme exec" where
  "process_udp udp_callback s =
     (if udp_socket (iface s) \<ge> 0 \<and> udp_callback \<noteq> NULL then do {
        no \<leftarrow> ops s;
        cb \<leftarrow> udp_callback;
        let ((bytes_received, received, src_ip, src_port), w) =
          udp_recvfrom no (udp_socket (iface s)) DOIP_RX_BUFFER_SIZE (net s);
        buf \<leftarrow> wr_block (udp_rx_buffer (iface s)) 0 received;
        let s = s\<lparr>iface := (iface s)\<lparr>udp_rx_buffer := buf\<rparr>, net := w\<rparr>;
        if bytes_received > 0
        then cb src_ip src_port (udp_rx_buffer (iface s)) (of_int bytes_received) s
        else Some s
      } else Some s)"

definition process_accept ::
    "(('w, 'z) net_system_scheme connection_callback) ptr \<Rightarrow> ('w, 'z) net_system_scheme
      \<Rightarrow> ('w, 'z) net_system_scheme exec" where
  "process_accept connected_callback s =
     (if tcp_listen_socket (iface s) \<ge> 0 then do {
        no \<leftarrow> ops s;
        let (new_socket, w) = tcp_accept no (tcp_listen_socket (iface s)) (net s);
        let s = s\<lparr>net := w\<rparr>;
        if new_socket \<ge> 0 then do {
          conn_id \<leftarrow> find_free_connection (iface s);
          if conn_id \<ge> 0 then do {
            i \<leftarrow> idx conn_id;
            s \<leftarrow> conn_update i (\<lambda>c. c\<lparr>socket_fd := new_socket,
                   tcp_state := DOIP_CONN_STATE_PENDING_ACTIVATION, rx_buffer_used := 0,
                   last_activity_time := 0\<rparr>) s;
            (case connected_callback of None \<Rightarrow> Some s | Some cb \<Rightarrow> cb conn_id s)
          } else Some (s\<lparr>net := close_socket no new_socket (net s)\<rparr>)
        } else Some s
      } else Some s)"

text \<open>One pass of the receive loop: the boolean says whether the loop goes on. The header is a
  local variable without initial value; it is filled before it is read.\<close>

definition uninitialised_header :: doip_header_t where
  "uninitialised_header =
     \<lparr>protocol_version = 0, inverse_protocol_version = 0, payload_type = 0, payload_length = 0\<rparr>"

definition rx_step ::
    "(('w, 'z) net_system_scheme tcp_rx_callback) ptr \<Rightarrow> nat \<Rightarrow> ('w, 'z) net_system_scheme
      \<Rightarrow> (bool \<times> ('w, 'z) net_system_scheme) exec" where
  "rx_step tcp_callback i s = do {
     c \<leftarrow> conn s i;
     if rx_buffer_used c \<ge> 8 then do {
       (res, hp) \<leftarrow> doip_decode_header (Some (rx_buffer c)) (rx_buffer_used c) (Some uninitialised_header);
       if res \<noteq> DOIP_RESULT_OK then Some (False, s)
       else do {
         header \<leftarrow> hp;
         let total_message_size = 8 + payload_length header;
         if rx_buffer_used c \<ge> total_message_size then do {
           s \<leftarrow> (case tcp_callback of
                    None \<Rightarrow> Some s
                  | Some cb \<Rightarrow> cb (int i) (rx_buffer c) total_message_size s);
           c \<leftarrow> conn s i;
           s \<leftarrow> (if rx_buffer_used c > total_message_size then do {
                   b \<leftarrow> memcpy (rx_buffer c) 0 (drop (unat total_message_size) (rx_buffer c))
                          (unat (rx_buffer_used c - total_message_size));
                   conn_update i (\<lambda>c. c\<lparr>rx_buffer := b\<rparr>) s
                 } else Some s);
           s \<leftarrow> conn_update i (\<lambda>c. c\<lparr>rx_buffer_used := rx_buffer_used c - total_message_size\<rparr>) s;
           Some (True, s)
         } else Some (False, s)
       }
     } else Some (False, s)
   }"

partial_function (option) rx_loop ::
    "(('w, 'z) net_system_scheme tcp_rx_callback) ptr \<Rightarrow> nat \<Rightarrow> ('w, 'z) net_system_scheme
      \<Rightarrow> ('w, 'z) net_system_scheme run" where
  "rx_loop tcp_callback i s =
     (case rx_step tcp_callback i s of
        None \<Rightarrow> Some undefined_behaviour
      | Some (go_on, s') \<Rightarrow> if go_on then rx_loop tcp_callback i s' else returns s')"

text \<open>The peer has closed the connection.\<close>

definition process_disconnect ::
    "(('w, 'z) net_system_scheme connection_callback) ptr \<Rightarrow> nat \<Rightarrow> ('w, 'z) net_system_scheme
      \<Rightarrow> ('w, 'z) net_system_scheme exec" where
  "process_disconnect disconnected_callback i s = do {
     s \<leftarrow> (case disconnected_callback of None \<Rightarrow> Some s | Some cb \<Rightarrow> cb (int i) s);
     no \<leftarrow> ops s;
     c \<leftarrow> conn s i;
     let s = s\<lparr>net := close_socket no (socket_fd c) (net s)\<rparr>;
     conn_update i (\<lambda>c. c\<lparr>socket_fd := INVALID_SOCKET, tcp_state := DOIP_CONN_STATE_CLOSED,
                           rx_buffer_used := 0\<rparr>) s
   }"

text \<open>Reading the socket of one connection: what \<open>tcp_recv\<close> returned, with the received bytes
  stored behind the ones that are there.\<close>

definition receive_into ::
    "nat \<Rightarrow> doip_tcp_connection_t \<Rightarrow> ('w, 'z) net_system_scheme
      \<Rightarrow> (int \<times> ('w, 'z) net_system_scheme) exec" where
  "receive_into i c s = do {
     no \<leftarrow> ops s;
     let ((bytes_received, received), w) =
       tcp_recv no (socket_fd c) (DOIP_RX_BUFFER_SIZE - rx_buffer_used c) (net s);
     b \<leftarrow> wr_block (rx_buffer c) (unat (rx_buffer_used c)) received;
     s \<leftarrow> conn_update i (\<lambda>c. c\<lparr>rx_buffer := b\<rparr>) (s\<lparr>net := w\<rparr>);
     Some (bytes_received, s)
   }"

definition process_connection ::
    "(('w, 'z) net_system_scheme tcp_rx_callback) ptr
      \<Rightarrow> (('w, 'z) net_system_scheme connection_callback) ptr
      \<Rightarrow> nat \<Rightarrow> ('w, 'z) net_system_scheme \<Rightarrow> ('w, 'z) net_system_scheme run" where
  "process_connection tcp_callback disconnected_callback i s =
     then_run (Some (conn s i)) (\<lambda>c.
       if socket_fd c \<ge> 0 then
         then_run (Some (receive_into i c s)) (\<lambda>(bytes_received, s).
           if bytes_received > 0 then
             then_run (Some (conn_update i (\<lambda>c. c\<lparr>rx_buffer_used := rx_buffer_used c + of_int bytes_received\<rparr>) s))
               (rx_loop tcp_callback i)
           else if bytes_received = 0 then Some (process_disconnect disconnected_callback i s)
           else returns s)
       else returns s)"

definition doip_interface_process ::
    "object_ptr \<Rightarrow> (('w, 'z) net_system_scheme udp_rx_callback) ptr
      \<Rightarrow> (('w, 'z) net_system_scheme tcp_rx_callback) ptr
      \<Rightarrow> (('w, 'z) net_system_scheme connection_callback) ptr
      \<Rightarrow> (('w, 'z) net_system_scheme connection_callback) ptr
      \<Rightarrow> ('w, 'z) net_system_scheme \<Rightarrow> (doip_result_t \<times> ('w, 'z) net_system_scheme) run" where
  "doip_interface_process interface udp_callback tcp_callback connected_callback disconnected_callback s =
     (if interface = NULL then returns (DOIP_RESULT_INVALID_PARAM, s)
      else
        then_run (Some (process_udp udp_callback s)) (\<lambda>s.
        then_run (Some (process_accept connected_callback s)) (\<lambda>s.
        then_run (for_each_run [0..<DOIP_MAX_CONNECTIONS]
                    (process_connection tcp_callback disconnected_callback) s) (\<lambda>s.
        returns (DOIP_RESULT_OK, s)))))"

section \<open>The byte stream and its messages\<close>

text \<open>The message at the start of a byte stream has the size the receive loop computes, modulo
  \<open>2 ^ 32\<close>. \<open>split_frames\<close> cuts a stream into its complete messages and the rest. A stream stalls
  the loop when, after the complete messages, a header with the length field \<open>0xFFFFFFF8\<close>
  follows, for which the size wraps to zero.\<close>

definition msg_size :: "bytes \<Rightarrow> nat" where
  "msg_size bs = unat (8 + payload_length (header_of bs))"

function split_frames :: "bytes \<Rightarrow> bytes list \<times> bytes" where
  "split_frames bs =
     (if 8 \<le> length bs \<and> 0 < msg_size bs \<and> msg_size bs \<le> length bs
      then let (fs, r) = split_frames (drop (msg_size bs) bs) in (take (msg_size bs) bs # fs, r)
      else ([], bs))"
  by auto
termination
  by (relation "measure length") auto

declare split_frames.simps [simp del]

definition stalls :: "bytes \<Rightarrow> bool" where
  "stalls bs \<longleftrightarrow> (let r = snd (split_frames bs) in 8 \<le> length r \<and> msg_size r = 0)"

lemma split_frames_more:
  "8 \<le> length bs \<Longrightarrow> 0 < msg_size bs \<Longrightarrow> msg_size bs \<le> length bs \<Longrightarrow>
     split_frames bs = (take (msg_size bs) bs # fst (split_frames (drop (msg_size bs) bs)),
                        snd (split_frames (drop (msg_size bs) bs)))"
  by (subst split_frames.simps) (simp add: split_beta)

lemma split_frames_done:
  "\<not> (8 \<le> length bs \<and> 0 < msg_size bs \<and> msg_size bs \<le> length bs) \<Longrightarrow> split_frames bs = ([], bs)"
  by (subst split_frames.simps) (simp only: if_False)

lemma header_of_prefix: "8 \<le> length a \<Longrightarrow> header_of (a @ b) = header_of a"
  by (auto simp: header_of_def nth_append)

lemma header_of_take: "8 \<le> n \<Longrightarrow> 8 \<le> length a \<Longrightarrow> header_of (take n a) = header_of a"
  by (simp add: header_of_def)

lemma msg_size_prefix: "8 \<le> length a \<Longrightarrow> msg_size (a @ b) = msg_size a"
  by (simp add: msg_size_def header_of_prefix)

text \<open>Cutting a stream is independent of how it arrives: the rest of the first part, followed by
  the second part, continues as the whole stream does.\<close>

lemma split_frames_append:
  "split_frames (a @ b) =
     (fst (split_frames a) @ fst (split_frames (snd (split_frames a) @ b)),
      snd (split_frames (snd (split_frames a) @ b)))"
proof (induction a rule: split_frames.induct)
  case (1 a)
  show ?case
  proof (cases "8 \<le> length a \<and> 0 < msg_size a \<and> msg_size a \<le> length a")
    case True
    then show ?thesis
      using 1 [OF True] by (simp add: split_frames_more msg_size_prefix)
  next
    case False
    then show ?thesis by (simp add: split_frames_done [OF False])
  qed
qed

lemma split_frames_rest [simp]: "fst (split_frames (snd (split_frames bs))) = []"
  using arg_cong [OF split_frames_append [of bs "[]"], of fst] by simp

lemma concat_split_frames: "concat (fst (split_frames bs)) @ snd (split_frames bs) = bs"
proof (induction bs rule: split_frames.induct)
  case (1 bs)
  show ?case
  proof (cases "8 \<le> length bs \<and> 0 < msg_size bs \<and> msg_size bs \<le> length bs")
    case True
    then show ?thesis using 1 [OF True] by (simp add: split_frames_more)
  next
    case False
    then show ?thesis by (simp add: split_frames_done)
  qed
qed

lemma split_frames_frame:
  assumes "wf_msg m"
  shows "split_frames (frame m @ bs) = (frame m # fst (split_frames bs), snd (split_frames bs))"
proof -
  have "length (msg_payload m) \<le> 4096"
    by (rule wf_msg_payload_limit [OF assms])
  then have "unat (8 + of_nat (length (msg_payload m)) :: u32) = 8 + length (msg_payload m)"
    using unat_of_nat_u32 [of "8 + length (msg_payload m)"] by simp
  then have "msg_size (frame m @ bs) = length (frame m)"
    by (simp add: msg_size_def frame_def header_2019_def)
  then show ?thesis
    by (simp add: split_frames_more length_frame)
qed

lemma stalls_append:
  assumes "\<not> stalls (a @ b)"
  shows "\<not> stalls a"
proof
  assume "stalls a"
  then have r: "8 \<le> length (snd (split_frames a))" "msg_size (snd (split_frames a)) = 0"
    by (simp_all add: stalls_def Let_def)
  then have "split_frames (snd (split_frames a) @ b) = ([], snd (split_frames a) @ b)"
    by (intro split_frames_done) (simp add: msg_size_prefix)
  then have "stalls (a @ b)"
    using r by (simp add: stalls_def Let_def split_frames_append [of a b] msg_size_prefix)
  then show False using assms by contradiction
qed

section \<open>A connection's receive buffer\<close>

definition wf_conn :: "doip_tcp_connection_t \<Rightarrow> bool" where
  "wf_conn c \<longleftrightarrow> length (rx_buffer c) = 4096 \<and> unat (rx_buffer_used c) \<le> 4096"

definition pending :: "doip_tcp_connection_t \<Rightarrow> bytes" where
  "pending c = take (unat (rx_buffer_used c)) (rx_buffer c)"

definition pop_conn :: "nat \<Rightarrow> doip_tcp_connection_t \<Rightarrow> doip_tcp_connection_t" where
  "pop_conn n c =
     c\<lparr>rx_buffer := drop n (pending c) @ drop (length (pending c) - n) (rx_buffer c),
       rx_buffer_used := rx_buffer_used c - of_nat n\<rparr>"

lemma length_pending: "wf_conn c \<Longrightarrow> length (pending c) = unat (rx_buffer_used c)"
  by (simp add: wf_conn_def pending_def)

lemma pop_conn_wf:
  assumes "wf_conn c" and "n \<le> length (pending c)"
  shows "wf_conn (pop_conn n c)" and "pending (pop_conn n c) = drop n (pending c)"
proof -
  have n: "n \<le> unat (rx_buffer_used c)" "n \<le> 4096"
    using assms by (auto simp: length_pending wf_conn_def)
  then have "unat (rx_buffer_used c - of_nat n) = unat (rx_buffer_used c) - n"
    by (subst unat_sub_word) (auto simp: word_le_nat_alt unat_of_nat_u32)
  then show "wf_conn (pop_conn n c)" "pending (pop_conn n c) = drop n (pending c)"
    using assms n by (auto simp: wf_conn_def pending_def pop_conn_def)
qed

lemma conn_update_Some:
  "conn s i = Some c \<Longrightarrow> conn_update i f s =
     Some (s\<lparr>iface := (iface s)\<lparr>connections := (connections (iface s))[i := f c]\<rparr>\<rparr>)"
  by (auto simp: conn_def conn_update_def rd_def upd_at_def split: if_splits)

lemma conn_update_conn:
  "conn_update i f s = Some s' \<Longrightarrow> conn s' j = (if i = j then map_option f (conn s j) else conn s j)"
  by (auto simp: conn_def conn_update_def rd_def upd_at_def split: if_splits)

lemma conn_update_twice:
  "(conn_update i f s \<bind> conn_update i g) = conn_update i (\<lambda>c. g (f c)) s"
  by (auto simp: conn_update_def upd_at_def split: if_splits)

text \<open>The call of a callback that may be null.\<close>

definition call_tcp ::
    "('s tcp_rx_callback) ptr \<Rightarrow> 's tcp_rx_callback" where
  "call_tcp cb i d n s = (case cb of None \<Rightarrow> Some s | Some f \<Rightarrow> f i d n s)"

lemma shift_pending:
  assumes "wf_conn c" and "n \<le> length (pending c)"
  shows "memcpy (rx_buffer c) 0 (drop n (rx_buffer c)) (unat (rx_buffer_used c) - n) =
    Some (drop n (pending c) @ drop (length (pending c) - n) (rx_buffer c))"
  using assms by (auto simp: wf_conn_def pending_def memcpy_def rd_block_def wr_block_def drop_take)

lemma rx_step_waits:
  assumes "conn s i = Some c" and "wf_conn c"
    and "length (pending c) < 8 \<or> length (pending c) < msg_size (pending c)"
  shows "rx_step cb i s = Some (False, s)"
proof (cases "length (pending c) < 8")
  case True
  then show ?thesis
    using assms by (simp add: rx_step_def length_pending word_le_nat_alt)
next
  case False
  then have "8 \<le> rx_buffer_used c" "\<not> rx_buffer_used c < 8" "8 \<le> length (rx_buffer c)"
    using assms by (auto simp: length_pending word_le_nat_alt word_less_nat_alt wf_conn_def)
  moreover have "header_of (pending c) = header_of (rx_buffer c)"
    using False assms by (simp add: pending_def header_of_take)
  ultimately show ?thesis
    using assms False by (simp add: rx_step_def exec_simps msg_size_def length_pending word_le_nat_alt)
qed

lemma rx_step_delivers:
  assumes "conn s i = Some c" and "wf_conn c"
    and "8 \<le> length (pending c)" and "msg_size (pending c) \<le> length (pending c)"
    and keeps: "\<And>s'. call_tcp cb (int i) (rx_buffer c) (of_nat (msg_size (pending c))) s = Some s' \<Longrightarrow>
                   conn s' i = Some c"
  shows "rx_step cb i s = do {
      s' \<leftarrow> call_tcp cb (int i) (rx_buffer c) (of_nat (msg_size (pending c))) s;
      s' \<leftarrow> conn_update i (pop_conn (msg_size (pending c))) s';
      Some (True, s') }"
proof -
  let ?n = "msg_size (pending c)" and ?t = "8 + payload_length (header_of (pending c))"
  have t: "of_nat ?n = ?t"
    by (simp add: msg_size_def)
  have used: "8 \<le> rx_buffer_used c" "\<not> rx_buffer_used c < 8" "8 \<le> length (rx_buffer c)"
    using assms(2,3) by (auto simp: length_pending word_le_nat_alt word_less_nat_alt wf_conn_def)
  have hd: "header_of (rx_buffer c) = header_of (pending c)"
    using used(1) assms(2) by (simp add: pending_def header_of_take word_le_nat_alt wf_conn_def)
  have le: "?t \<le> rx_buffer_used c"
    using assms(2,4) by (simp add: word_le_nat_alt length_pending msg_size_def)
  have step: "rx_step cb i s = do {
      s' \<leftarrow> call_tcp cb (int i) (rx_buffer c) ?t s;
      c' \<leftarrow> conn s' i;
      s' \<leftarrow> (if rx_buffer_used c' > ?t then do {
               b \<leftarrow> memcpy (rx_buffer c') 0 (drop (unat ?t) (rx_buffer c')) (unat (rx_buffer_used c' - ?t));
               conn_update i (\<lambda>c. c\<lparr>rx_buffer := b\<rparr>) s' } else Some s');
      s' \<leftarrow> conn_update i (\<lambda>c. c\<lparr>rx_buffer_used := rx_buffer_used c - ?t\<rparr>) s';
      Some (True, s') }"
    using assms(1) used le by (simp add: rx_step_def exec_simps hd call_tcp_def Let_def)
  have shift: "(if rx_buffer_used c > ?t then do {
               b \<leftarrow> memcpy (rx_buffer c) 0 (drop (unat ?t) (rx_buffer c)) (unat (rx_buffer_used c - ?t));
               conn_update i (\<lambda>c. c\<lparr>rx_buffer := b\<rparr>) s' } else Some s')
      \<bind> (\<lambda>s'. conn_update i (\<lambda>c. c\<lparr>rx_buffer_used := rx_buffer_used c - ?t\<rparr>) s')
      = conn_update i (pop_conn ?n) s'" if "conn s' i = Some c" for s'
  proof (cases "rx_buffer_used c > ?t")
    case True
    have "memcpy (rx_buffer c) 0 (drop (unat ?t) (rx_buffer c)) (unat (rx_buffer_used c - ?t)) =
        Some (rx_buffer (pop_conn ?n c))"
      using shift_pending [OF assms(2,4)] le
      by (simp add: unat_sub_word pop_conn_def) (simp add: msg_size_def)
    then show ?thesis
      using True that by (simp add: conn_update_twice) (simp add: conn_update_Some pop_conn_def t)
  next
    case False
    then have "rx_buffer_used c = ?t"
      using le by simp
    then have "length (pending c) = ?n"
      by (simp add: length_pending assms(2) msg_size_def)
    then show ?thesis
      using False that by (simp add: conn_update_Some pop_conn_def t)
  qed
  show ?thesis
  proof (cases "call_tcp cb (int i) (rx_buffer c) ?t s")
    case None
    then show ?thesis unfolding t step by simp
  next
    case (Some s')
    then have "conn s' i = Some c"
      using keeps [unfolded t] by simp
    then show ?thesis
      unfolding t step
      using arg_cong [OF shift, of s' "\<lambda>m. m \<bind> (\<lambda>s'. Some (True, s'))"] Some by simp
  qed
qed

section \<open>The receive loop delivers the messages of the stream\<close>

text \<open>The specification of the loop: the callback is called once for each message, in order, with a
  buffer that starts with the message, and the message leaves the buffer after its call.\<close>

primrec deliver ::
    "(('w, 'z) net_system_scheme tcp_rx_callback) ptr \<Rightarrow> nat \<Rightarrow> bytes list
      \<Rightarrow> ('w, 'z) net_system_scheme \<Rightarrow> ('w, 'z) net_system_scheme exec" where
  "deliver cb i [] s = Some s"
| "deliver cb i (f # fs) s = do {
     c \<leftarrow> conn s i;
     s \<leftarrow> call_tcp cb (int i) (f @ drop (length f) (rx_buffer c)) (of_nat (length f)) s;
     s \<leftarrow> conn_update i (pop_conn (length f)) s;
     deliver cb i fs s
   }"

text \<open>What the receive loop relies on: a callback does not change the interface.\<close>

locale rx_client =
  fixes cb :: "(('w, 'z) net_system_scheme tcp_rx_callback) ptr"
  assumes keeps_iface: "call_tcp cb j d n s = Some s' \<Longrightarrow> iface s' = iface s"
begin

lemma keeps_conn: "call_tcp cb j d n s = Some s' \<Longrightarrow> conn s' i = conn s i"
  using keeps_iface by (simp add: conn_def)

lemma step_pops:
  assumes "conn s i = Some c" and "wf_conn c" and "8 \<le> length (pending c)"
    and "msg_size (pending c) \<le> length (pending c)"
    and "rx_step cb i s = Some (go_on, s')"
  shows "go_on" and "conn s' i = Some (pop_conn (msg_size (pending c)) c)"
proof -
  have "rx_step cb i s = do {
      s' \<leftarrow> call_tcp cb (int i) (rx_buffer c) (of_nat (msg_size (pending c))) s;
      s' \<leftarrow> conn_update i (pop_conn (msg_size (pending c))) s';
      Some (True, s') }"
    using assms(1-4) keeps_conn by (intro rx_step_delivers) auto
  then show "go_on" "conn s' i = Some (pop_conn (msg_size (pending c)) c)"
    using assms(1,5) keeps_conn by (auto simp: conn_update_conn split: Option.bind_splits)
qed

lemma buffer_starts_with_message:
  assumes "wf_conn c" and "n \<le> length (pending c)"
  shows "take n (pending c) @ drop n (rx_buffer c) = rx_buffer c"
  using assms length_pending [OF assms(1)] by (simp add: pending_def min_absorb1)

lemma deliver_first:
  assumes "conn s i = Some c" and "wf_conn c" and "8 \<le> length (pending c)"
    and "msg_size (pending c) \<le> length (pending c)"
  shows "deliver cb i (take (msg_size (pending c)) (pending c) # fs) s =
    (rx_step cb i s \<bind> (\<lambda>(_, s'). deliver cb i fs s'))"
proof -
  have "rx_step cb i s = do {
      s' \<leftarrow> call_tcp cb (int i) (rx_buffer c) (of_nat (msg_size (pending c))) s;
      s' \<leftarrow> conn_update i (pop_conn (msg_size (pending c))) s';
      Some (True, s') }"
    using assms keeps_conn by (intro rx_step_delivers) auto
  then show ?thesis
    using assms by (simp add: buffer_starts_with_message min_absorb2 bind_assoc)
qed

theorem rx_loop_delivers:
  assumes "conn s i = Some c" and "wf_conn c" and "\<not> stalls (pending c)"
  shows "rx_loop cb i s = Some (deliver cb i (fst (split_frames (pending c))) s)"
  using assms
proof (induction "pending c" arbitrary: s c rule: split_frames.induct)
  case 1
  let ?n = "msg_size (pending c)"
  show ?case
  proof (cases "8 \<le> length (pending c) \<and> 0 < ?n \<and> ?n \<le> length (pending c)")
    case True
    then have more: "8 \<le> length (pending c)" "0 < ?n" "?n \<le> length (pending c)"
      by auto
    note wf = pop_conn_wf [OF "1.prems"(2) more(3)]
    have nostall: "\<not> stalls (pending (pop_conn ?n c))"
      using "1.prems"(3) more by (simp add: wf stalls_def split_frames_more)
    show ?thesis
    proof (cases "rx_step cb i s")
      case None
      then show ?thesis
        using deliver_first [OF "1.prems"(1,2) more(1,3)] more
        by (simp add: rx_loop.simps split_frames_more)
    next
      case (Some a)
      then obtain go_on s' where step: "rx_step cb i s = Some (go_on, s')"
        by (cases a) auto
      then have "go_on" and c': "conn s' i = Some (pop_conn ?n c)"
        using step_pops [OF "1.prems"(1,2) more(1,3)] by auto
      moreover have "rx_loop cb i s' = Some (deliver cb i (fst (split_frames (drop ?n (pending c)))) s')"
        using "1.hyps" [of "pop_conn ?n c" s'] True c' wf nostall by simp
      ultimately show ?thesis
        using deliver_first [OF "1.prems"(1,2) more(1,3)] more step
        by (simp add: rx_loop.simps [of cb i s] split_frames_more)
    qed
  next
    case False
    moreover from this "1.prems"(3)
    have "length (pending c) < 8 \<or> length (pending c) < ?n"
      by (auto simp: stalls_def split_frames_done)
    ultimately show ?thesis
      using rx_step_waits [OF "1.prems"(1,2), of cb] by (simp add: rx_loop.simps split_frames_done)
  qed
qed

lemma deliver_leaves_rest:
  assumes "deliver cb i fs s = Some s'" and "conn s i = Some c" and "wf_conn c"
    and "pending c = concat fs @ r"
  shows "\<exists>c'. conn s' i = Some c' \<and> wf_conn c' \<and> pending c' = r \<and> socket_fd c' = socket_fd c
          \<and> tcp_state c' = tcp_state c \<and> (\<forall>j. j \<noteq> i \<longrightarrow> conn s' j = conn s j)
          \<and> (\<exists>cs. iface s' = (iface s)\<lparr>connections := cs\<rparr> \<and> length cs = length (connections (iface s)))"
  using assms
proof (induction fs arbitrary: s c)
  case Nil
  then show ?case by (auto intro!: exI [of _ "connections (iface s')"])
next
  case (Cons f fs)
  then obtain t u where t: "call_tcp cb (int i) (f @ drop (length f) (rx_buffer c)) (of_nat (length f)) s = Some t"
      and u: "conn_update i (pop_conn (length f)) t = Some u" and d: "deliver cb i fs u = Some s'"
    by (auto split: Option.bind_splits)
  have it: "iface t = iface s" and ct: "conn t i = Some c"
    using keeps_iface [OF t] Cons.prems(2) by (simp_all add: conn_def)
  have cu: "conn u i = Some (pop_conn (length f) c)" and oj: "\<And>j. j \<noteq> i \<Longrightarrow> conn u j = conn s j"
    using conn_update_conn [OF u] ct it by (auto simp: conn_def)
  have iu: "\<exists>cs. iface u = (iface s)\<lparr>connections := cs\<rparr> \<and> length cs = length (connections (iface s))"
    using u it by (auto simp: conn_update_Some [OF ct])
  have f: "length f \<le> length (pending c)" and p: "pending (pop_conn (length f) c) = concat fs @ r"
    using Cons.prems(3,4) by (simp_all add: pop_conn_wf)
  note IH = Cons.IH [OF d cu pop_conn_wf(1) [OF Cons.prems(3) f] p]
  then show ?case
    using oj iu by (fastforce simp: pop_conn_def)
qed

end

section \<open>Safety of polling\<close>

text \<open>The well-formed interface: the arrays have their sizes, no receive buffer is filled beyond its
  end, and a slot has a socket exactly when it is not closed.\<close>

definition wf_slot :: "doip_tcp_connection_t \<Rightarrow> bool" where
  "wf_slot c \<longleftrightarrow> wf_conn c \<and> (0 \<le> socket_fd c \<longleftrightarrow> tcp_state c \<noteq> DOIP_CONN_STATE_CLOSED)"

definition wf_interface :: "'w doip_interface_t \<Rightarrow> bool" where
  "wf_interface f \<longleftrightarrow> length (connections f) = 2 \<and> length (udp_rx_buffer f) = 4096
     \<and> (\<forall>c \<in> set (connections f). wf_slot c)"

text \<open>A state in which the interface can be polled: it is well formed, the table of network
  operations is in place, and the invariant of the layer above holds.\<close>

definition sys_ok ::
    "'w doip_network_ops_t \<Rightarrow> (('w, 'z) net_system_scheme \<Rightarrow> bool) \<Rightarrow> ('w, 'z) net_system_scheme \<Rightarrow> bool" where
  "sys_ok no client_inv s \<longleftrightarrow> wf_interface (iface s) \<and> net_ops (iface s) = Some no \<and> client_inv s"

lemma wf_interface_conn:
  assumes "wf_interface (iface s)" and "i < 2"
  shows "\<exists>c. conn s i = Some c \<and> wf_slot c"
  using assms by (simp add: wf_interface_def conn_def rd_def)

lemma conn_index: "conn s i = Some c \<Longrightarrow> wf_interface (iface s) \<Longrightarrow> i < 2 \<and> wf_slot c"
  by (auto simp: conn_def rd_def wf_interface_def split: if_splits)

lemma wf_interface_update:
  assumes "wf_interface (iface s)" and "conn_update i f s = Some s'"
    and "\<And>c. conn s i = Some c \<Longrightarrow> wf_slot (f c)"
  shows "wf_interface (iface s')"
  using assms
  by (auto simp: wf_interface_def conn_update_def upd_at_def conn_def rd_def in_set_conv_nth nth_list_update
      split: if_splits)

lemma conn_update_frame:
  "conn_update i f s = Some s' \<Longrightarrow>
     net s' = net s \<and> net_ops (iface s') = net_ops (iface s) \<and> udp_socket (iface s') = udp_socket (iface s)
     \<and> tcp_listen_socket (iface s') = tcp_listen_socket (iface s)
     \<and> s\<lparr>iface := iface s'\<rparr> = s'"
  by (auto simp: conn_update_def upd_at_def split: if_splits)

lemma find_free_connection_spec:
  assumes "wf_interface f"
  shows "\<exists>k. find_free_connection f = Some k \<and>
    (k = INVALID_SOCKET \<and> (\<forall>c \<in> set (connections f). tcp_state c \<noteq> DOIP_CONN_STATE_CLOSED)
     \<or> (\<exists>i < 2. k = int i \<and> tcp_state (connections f ! i) = DOIP_CONN_STATE_CLOSED))"
proof -
  obtain c0 c1 where "connections f = [c0, c1]"
    using assms by (auto simp: wf_interface_def numeral_2_eq_2 length_Suc_conv)
  then show ?thesis
    by (auto simp: find_free_connection_def upt_rec rd_def)
qed

text \<open>What the polling function relies on from the network: a receive operation delivers as many
  bytes as it reports and never more than it was given room for.\<close>

locale network =
  fixes no :: "'w doip_network_ops_t"
  assumes tcp_recv_law: "tcp_recv no fd n w = ((r, ys), w') \<Longrightarrow>
      r = int (length ys) \<and> length ys \<le> unat n \<or> r < 0 \<and> ys = []"
    and udp_recv_law: "udp_recvfrom no fd m v = ((q, zs, ip, port), v') \<Longrightarrow>
      q = int (length zs) \<and> length zs \<le> unat m \<or> q < 0 \<and> zs = []"

text \<open>The call of a connection callback that may be null.\<close>

definition call_conn :: "('s connection_callback) ptr \<Rightarrow> 's connection_callback" where
  "call_conn cb i s = (case cb of None \<Rightarrow> Some s | Some f \<Rightarrow> f i s)"

text \<open>What it relies on from its client: the four callbacks, called with the arguments the interface
  passes in a well-formed state, return, leave the interface alone and keep the client's own
  invariant. Of the interface the invariant may depend on the sockets of the slots; it is
  re-established by the callback after a slot has received its new socket, and by the callback
  before a slot loses its socket.\<close>

locale interface_client = network no + rx_client on_tcp
  for no :: "'w doip_network_ops_t"
    and on_tcp :: "(('w, 'z) net_system_scheme tcp_rx_callback) ptr" +
  fixes on_udp :: "(('w, 'z) net_system_scheme udp_rx_callback) ptr"
    and on_connected :: "(('w, 'z) net_system_scheme connection_callback) ptr"
    and on_disconnected :: "(('w, 'z) net_system_scheme connection_callback) ptr"
    and client_inv :: "('w, 'z) net_system_scheme \<Rightarrow> bool"
  assumes inv_net: "client_inv (s\<lparr>net := w\<rparr>) = client_inv s"
    and inv_iface: "wf_interface (iface s) \<Longrightarrow> map socket_fd (connections f) = map socket_fd (connections (iface s)) \<Longrightarrow>
      client_inv (s\<lparr>iface := f\<rparr>) = client_inv s"
    and udp_total: "wf_interface (iface s) \<Longrightarrow> net_ops (iface s) = Some no \<Longrightarrow> client_inv s \<Longrightarrow>
      on_udp = Some ucb \<Longrightarrow> length d = 4096 \<Longrightarrow> unat n \<le> 4096 \<Longrightarrow>
      \<exists>s'. ucb ip port d n s = Some s' \<and> iface s' = iface s \<and> client_inv s'"
    and tcp_total: "wf_interface (iface s) \<Longrightarrow> net_ops (iface s) = Some no \<Longrightarrow> client_inv s \<Longrightarrow>
      i < 2 \<Longrightarrow> 0 \<le> socket_fd (connections (iface s) ! i) \<Longrightarrow> length d = 4096 \<Longrightarrow> unat n \<le> 4096 \<Longrightarrow>
      \<exists>s'. call_tcp on_tcp (int i) d n s = Some s' \<and> client_inv s'"
    and connected_total: "wf_interface (iface s) \<Longrightarrow> client_inv s \<Longrightarrow> i < 2 \<Longrightarrow>
      socket_fd (connections (iface s) ! i) < 0 \<Longrightarrow> conn_update i g s = Some t \<Longrightarrow>
      \<exists>s'. call_conn on_connected (int i) t = Some s' \<and> iface s' = iface t \<and> client_inv s'"
    and disconnected_total: "wf_interface (iface s) \<Longrightarrow> client_inv s \<Longrightarrow> i < 2 \<Longrightarrow>
      (\<And>c. socket_fd (h c) < 0) \<Longrightarrow>
      \<exists>s' t. call_conn on_disconnected (int i) s = Some s' \<and> iface s' = iface s
            \<and> conn_update i h s' = Some t \<and> client_inv t"
begin

lemma conn_update_ok:
  assumes "sys_ok no client_inv s" and "i < 2"
    and "\<And>c. conn s i = Some c \<Longrightarrow> wf_slot (f c) \<and> socket_fd (f c) = socket_fd c"
  shows "\<exists>s'. conn_update i f s = Some s' \<and> sys_ok no client_inv s' \<and> conn s' i = map_option f (conn s i)"
proof -
  obtain c where c: "conn s i = Some c"
    using wf_interface_conn [of s i] assms by (auto simp: sys_ok_def)
  obtain s' where s': "conn_update i f s = Some s'"
    using conn_update_Some [OF c] by blast
  have "wf_interface (iface s)"
    using assms(1) by (simp add: sys_ok_def)
  then have "wf_interface (iface s')"
    by (rule wf_interface_update [OF _ s']) (use assms(3) in blast)
  moreover have "s\<lparr>iface := iface s'\<rparr> = s'" "net_ops (iface s') = net_ops (iface s)"
    using conn_update_frame [OF s'] by auto
  moreover have "map socket_fd (connections (iface s')) = map socket_fd (connections (iface s))"
    using s' c assms(3) [OF c] by (auto simp: conn_update_Some [OF c] map_update conn_def rd_def list_update_same_conv split: if_splits)
  then have "client_inv s'"
    using assms(1) inv_iface [where s = s and f = "iface s'"] calculation by (simp add: sys_ok_def)
  ultimately show ?thesis
    using s' assms(1) conn_update_conn [OF s'] by (auto simp: sys_ok_def)
qed

lemma process_udp_ok:
  assumes "sys_ok no client_inv s"
  shows "\<exists>s'. process_udp on_udp s = Some s' \<and> sys_ok no client_inv s' \<and> connections (iface s') = connections (iface s)"
proof (cases "udp_socket (iface s) \<ge> 0 \<and> on_udp \<noteq> NULL")
  case True
  then obtain ucb where ucb: "on_udp = Some ucb" by auto
  obtain r ys ip port w where recv:
      "udp_recvfrom no (udp_socket (iface s)) 4096 (net s) = ((r, ys, ip, port), w)"
    by (metis prod.exhaust)
  then have r: "length ys \<le> 4096" "r \<le> 4096"
    using udp_recv_law [OF recv] by auto
  let ?f = "(iface s)\<lparr>udp_rx_buffer := ys @ drop (length ys) (udp_rx_buffer (iface s))\<rparr>"
  let ?s = "s\<lparr>iface := ?f, net := w\<rparr>"
  have ok: "sys_ok no client_inv ?s"
    using assms r inv_net [where s = "s\<lparr>iface := ?f\<rparr>" and w = w] inv_iface [where s = s and f = ?f]
    by (simp add: sys_ok_def wf_interface_def)
  have run: "process_udp on_udp s =
      (if r > 0 then ucb ip port (udp_rx_buffer ?f) (of_int r) ?s else Some ?s)"
    using True ucb recv assms r
    by (simp add: process_udp_def ops_def sys_ok_def wf_interface_def wr_block_0)
  show ?thesis
  proof (cases "r > 0")
    case True
    then have "unat (of_int r :: u32) \<le> 4096"
      using r by (simp add: unat_of_int_le)
    then obtain s' where "ucb ip port (udp_rx_buffer ?f) (of_int r) ?s = Some s'" "iface s' = iface ?s" "client_inv s'"
      using udp_total [OF _ _ _ ucb, of ?s "udp_rx_buffer ?f" "of_int r" ip port] ok
      by (auto simp: sys_ok_def wf_interface_def)
    then show ?thesis
      using run True ok by (auto simp: sys_ok_def)
  qed (use run ok in auto)
qed (use assms in \<open>auto simp: process_udp_def\<close>)

lemma process_accept_ok:
  assumes "sys_ok no client_inv s"
  shows "\<exists>s'. process_accept on_connected s = Some s' \<and> sys_ok no client_inv s'"
proof (cases "tcp_listen_socket (iface s) \<ge> 0")
  case True
  obtain fd w where acc: "tcp_accept no (tcp_listen_socket (iface s)) (net s) = (fd, w)"
    by (metis prod.exhaust)
  let ?s = "s\<lparr>net := w\<rparr>"
  have ok: "sys_ok no client_inv ?s"
    using assms inv_net [where s = s and w = w] by (simp add: sys_ok_def)
  obtain k where k: "find_free_connection (iface ?s) = Some k"
      "k = INVALID_SOCKET \<or>
       (\<exists>i < 2. k = int i \<and> tcp_state (connections (iface ?s) ! i) = DOIP_CONN_STATE_CLOSED)"
    using find_free_connection_spec [of "iface ?s"] ok by (auto simp: sys_ok_def)
  let ?f = "\<lambda>c. c\<lparr>socket_fd := fd, tcp_state := DOIP_CONN_STATE_PENDING_ACTIVATION, rx_buffer_used := 0,
                   last_activity_time := 0\<rparr>"
  consider "fd < 0" | "fd \<ge> 0" "k = INVALID_SOCKET" 
    | i where "fd \<ge> 0" "i < 2" "k = int i" "tcp_state (connections (iface ?s) ! i) = DOIP_CONN_STATE_CLOSED"
    using k(2) by fastforce
  then show ?thesis
  proof cases
    case 1
    then show ?thesis
      using True acc ok assms by (simp add: process_accept_def ops_def sys_ok_def)
  next
    case 2
    then have "process_accept on_connected s = Some (?s\<lparr>net := close_socket no fd w\<rparr>)"
      using True acc k(1) assms by (simp add: process_accept_def ops_def sys_ok_def)
    then show ?thesis
      using ok inv_net [where s = ?s and w = "close_socket no fd w"] by (simp add: sys_ok_def)
  next
    case (3 i)
    have wf: "wf_interface (iface ?s)" and inv: "client_inv ?s"
      using ok by (simp_all add: sys_ok_def)
    obtain c where c: "conn ?s i = Some c" "wf_slot c"
      using wf_interface_conn [OF wf 3(2)] by blast
    then obtain t where t: "conn_update i ?f ?s = Some t"
      using conn_update_Some by blast
    have "wf_slot (?f c)" if "conn ?s i = Some c" for c
      using conn_index [OF that wf] 3(1) by (simp add: wf_slot_def wf_conn_def)
    then have wft: "wf_interface (iface t)"
      by (rule wf_interface_update [OF wf t])
    have "socket_fd (connections (iface ?s) ! i) < 0"
      using 3(4) c by (auto simp: conn_def rd_def wf_slot_def split: if_splits)
    from connected_total [OF wf inv 3(2) this t] obtain s' where
        s': "call_conn on_connected (int i) t = Some s'" "iface s' = iface t" "client_inv s'"
      by blast
    have "process_accept on_connected s = call_conn on_connected (int i) t"
      using True acc k(1) assms 3 t by (simp add: process_accept_def ops_def sys_ok_def call_conn_def)
    then show ?thesis
      using s' wft conn_update_frame [OF t] assms by (simp add: sys_ok_def)
  qed
qed (use assms in \<open>auto simp: process_accept_def\<close>)

lemma process_disconnect_ok:
  assumes "sys_ok no client_inv s" and "i < 2"
  shows "\<exists>s'. process_disconnect on_disconnected i s = Some s' \<and> sys_ok no client_inv s'"
proof -
  let ?f = "\<lambda>c. c\<lparr>socket_fd := INVALID_SOCKET, tcp_state := DOIP_CONN_STATE_CLOSED, rx_buffer_used := 0\<rparr>"
  have wf: "wf_interface (iface s)" and no: "net_ops (iface s) = Some no" and inv: "client_inv s"
    using assms(1) by (simp_all add: sys_ok_def)
  obtain t u where t: "call_conn on_disconnected (int i) s = Some t" "iface t = iface s"
      and u: "conn_update i ?f t = Some u" "client_inv u"
    using disconnected_total [OF wf inv assms(2), of ?f] by auto
  obtain c where c: "conn t i = Some c"
    using wf assms(2) wf_interface_conn [of t i] t(2) by auto
  let ?w = "close_socket no (socket_fd c) (net t)"
  have run: "process_disconnect on_disconnected i s = Some (u\<lparr>net := ?w\<rparr>)"
    using t u(1) c no
    by (auto simp: process_disconnect_def ops_def call_conn_def conn_def conn_update_Some [OF c]
        conn_update_Some [of "t\<lparr>net := ?w\<rparr>" i c])
  have "wf_slot (?f c)" if "conn t i = Some c" for c
    using conn_index [OF that] wf t(2) by (simp add: wf_slot_def wf_conn_def)
  then have "wf_interface (iface u)"
    using wf t(2) by (intro wf_interface_update [OF _ u(1)]) auto
  then show ?thesis
    using run u(2) inv_net [where s = u] conn_update_frame [OF u(1)] t(2) no
    by (simp add: sys_ok_def)
qed

lemma receive_into_ok:
  assumes "sys_ok no client_inv s" and "i < 2" and "conn s i = Some c"
    and recv: "tcp_recv no (socket_fd c) (4096 - rx_buffer_used c) (net s) = ((r, ys), w)"
  shows "\<exists>s'. receive_into i c s = Some (r, s') \<and> sys_ok no client_inv s'
    \<and> conn s' i = Some (c\<lparr>rx_buffer := take (unat (rx_buffer_used c)) (rx_buffer c) @ ys
                                      @ drop (unat (rx_buffer_used c) + length ys) (rx_buffer c)\<rparr>)
    \<and> (r = int (length ys) \<and> unat (rx_buffer_used c) + length ys \<le> 4096 \<or> r < 0 \<and> ys = [])"
proof -
  have wf: "wf_conn c"
    using assms conn_index [OF assms(3)] by (auto simp: sys_ok_def wf_slot_def)
  have "unat (4096 - rx_buffer_used c) = 4096 - unat (rx_buffer_used c)"
    using wf by (subst unat_sub_word) (simp_all add: wf_conn_def word_le_nat_alt)
  then have r: "r = int (length ys) \<and> unat (rx_buffer_used c) + length ys \<le> 4096 \<or> r < 0 \<and> ys = []"
    using tcp_recv_law [OF recv] wf by (auto simp: wf_conn_def)
  let ?b = "take (unat (rx_buffer_used c)) (rx_buffer c) @ ys
              @ drop (unat (rx_buffer_used c) + length ys) (rx_buffer c)"
  let ?s = "s\<lparr>net := w\<rparr>"
  have wr: "wr_block (rx_buffer c) (unat (rx_buffer_used c)) ys = Some ?b"
    using r wf by (auto simp: wr_block_def wf_conn_def)
  have ok: "sys_ok no client_inv ?s"
    using assms(1) inv_net [where s = s] by (simp add: sys_ok_def)
  have "wf_slot (c\<lparr>rx_buffer := ?b\<rparr>) \<and> socket_fd (c\<lparr>rx_buffer := ?b\<rparr>) = socket_fd c"
    using assms wf r conn_index [OF assms(3)] by (auto simp: sys_ok_def wf_slot_def wf_conn_def)
  then obtain s' where "conn_update i (\<lambda>c. c\<lparr>rx_buffer := ?b\<rparr>) ?s = Some s'" "sys_ok no client_inv s'"
      "conn s' i = map_option (\<lambda>c. c\<lparr>rx_buffer := ?b\<rparr>) (conn ?s i)"
    using conn_update_ok [OF ok assms(2), of "\<lambda>c. c\<lparr>rx_buffer := ?b\<rparr>"] assms(3) by (auto simp: conn_def)
  then show ?thesis
    using assms recv wr r by (auto simp: receive_into_def ops_def sys_ok_def conn_def)
qed

lemma rx_step_ok:
  assumes "sys_ok no client_inv s" and "i < 2" and "0 \<le> socket_fd (connections (iface s) ! i)"
  shows "\<exists>go_on s'. rx_step on_tcp i s = Some (go_on, s') \<and> sys_ok no client_inv s'
    \<and> 0 \<le> socket_fd (connections (iface s') ! i)"
proof -
  obtain c where c: "conn s i = Some c" and wf: "wf_slot c" "wf_conn c"
    using wf_interface_conn [of s i] assms by (auto simp: sys_ok_def wf_slot_def)
  have fd: "0 \<le> socket_fd c"
    using assms(3) c by (simp add: conn_def rd_def split: if_splits)
  let ?n = "msg_size (pending c)"
  show ?thesis
  proof (cases "length (pending c) < 8 \<or> length (pending c) < ?n")
    case True
    then show ?thesis
      using rx_step_waits [OF c wf(2) True] assms(1,3) by blast
  next
    case False
    then have n: "8 \<le> length (pending c)" "?n \<le> length (pending c)"
      by auto
    have "unat (of_nat ?n :: u32) \<le> 4096"
      using n(2) wf(2) length_pending [OF wf(2)] by (simp add: unat_of_nat_u32 wf_conn_def)
    then obtain t where t: "call_tcp on_tcp (int i) (rx_buffer c) (of_nat ?n) s = Some t" "client_inv t"
      using tcp_total [of s i "rx_buffer c" "of_nat ?n"] assms wf(2) by (auto simp: sys_ok_def wf_conn_def)
    have it: "iface t = iface s"
      by (rule keeps_iface [OF t(1)])
    then have ok: "sys_ok no client_inv t" and ct: "conn t i = Some c"
      using assms(1) t(2) c by (simp_all add: sys_ok_def conn_def)
    have "wf_slot (pop_conn ?n c) \<and> socket_fd (pop_conn ?n c) = socket_fd c"
      using pop_conn_wf(1) [OF wf(2) n(2)] wf(1) by (simp add: wf_slot_def) (simp add: pop_conn_def)
    then obtain u where u: "conn_update i (pop_conn ?n) t = Some u" "sys_ok no client_inv u"
        "conn u i = Some (pop_conn ?n c)"
      using conn_update_ok [OF ok assms(2), of "pop_conn ?n"] ct by auto
    have "0 \<le> socket_fd (connections (iface u) ! i)"
      using u(3) fd by (simp add: conn_def rd_def pop_conn_def split: if_splits)
    moreover have "rx_step on_tcp i s = Some (True, u)"
      using rx_step_delivers [OF c wf(2) n, of on_tcp] t(1) u(1) ct by simp
    ultimately show ?thesis using u(2) by blast
  qed
qed

lemma rx_loop_ok:
  assumes "rx_loop cb i s = Some r" and "cb = on_tcp" and "sys_ok no client_inv s" and "i < 2"
    and "0 \<le> socket_fd (connections (iface s) ! i)"
  shows "\<exists>s'. r = Some s' \<and> sys_ok no client_inv s'"
  using assms
proof (induction cb i s r rule: rx_loop.raw_induct [rotated 1, consumes 1])
  case (1 loop cb i s r)
  then obtain go_on s' where "rx_step on_tcp i s = Some (go_on, s')" "sys_ok no client_inv s'"
      "0 \<le> socket_fd (connections (iface s') ! i)"
    using rx_step_ok by blast
  then show ?case
    using 1 by (cases go_on) auto
qed

lemma process_connection_ok:
  assumes "sys_ok no client_inv s" and "i < 2"
    and "process_connection on_tcp on_disconnected i s = Some r"
  shows "\<exists>s'. r = Some s' \<and> sys_ok no client_inv s'"
proof -
  obtain c where c: "conn s i = Some c"
    using wf_interface_conn [of s i] assms(1,2) by (auto simp: sys_ok_def)
  show ?thesis
  proof (cases "socket_fd c \<ge> 0")
    case True
    obtain k ys w where recv: "tcp_recv no (socket_fd c) (4096 - rx_buffer_used c) (net s) = ((k, ys), w)"
      by (metis prod.exhaust)
    obtain s' where s': "receive_into i c s = Some (k, s')" "sys_ok no client_inv s'"
        "conn s' i = Some (c\<lparr>rx_buffer := take (unat (rx_buffer_used c)) (rx_buffer c) @ ys
                             @ drop (unat (rx_buffer_used c) + length ys) (rx_buffer c)\<rparr>)"
        and k: "k = int (length ys) \<and> unat (rx_buffer_used c) + length ys \<le> 4096 \<or> k < 0 \<and> ys = []"
      using receive_into_ok [OF assms(1,2) c recv] by blast
    let ?f = "\<lambda>c. c\<lparr>rx_buffer_used := rx_buffer_used c + of_int k\<rparr>"
    consider "k > 0" | "k = 0" | "k < 0" by linarith
    then show ?thesis
    proof cases
      case 1
      then have k': "k = int (length ys)" "unat (rx_buffer_used c) + length ys \<le> 4096"
        using k by auto
      then have "unat (rx_buffer_used c + of_int k) = unat (rx_buffer_used c) + length ys"
        by (subst unat_add_no_wrap) (simp_all add: unat_of_nat_u32)
      then have "wf_slot (?f c') \<and> socket_fd (?f c') = socket_fd c'" if "conn s' i = Some c'" for c'
        using that s'(3) k'(2) conn_index [OF that] s'(2)
        by (auto simp: sys_ok_def wf_slot_def wf_conn_def)
      then obtain t where t: "conn_update i ?f s' = Some t" "sys_ok no client_inv t"
          "conn t i = map_option ?f (conn s' i)"
        using conn_update_ok [OF s'(2) assms(2), of ?f] by blast
      have "0 \<le> socket_fd (connections (iface t) ! i)"
        using t(3) s'(3) True by (simp add: conn_def rd_def split: if_splits)
      moreover have "rx_loop on_tcp i t = Some r"
        using assms(3) c True s'(1) t(1) 1 by (simp add: process_connection_def)
      ultimately show ?thesis
        using rx_loop_ok t(2) assms(2) by blast
    next
      case 2
      then show ?thesis
        using assms(3) c True s'(1) process_disconnect_ok [OF s'(2) assms(2)]
        by (auto simp: process_connection_def)
    next
      case 3
      then show ?thesis
        using assms(3) c True s'(1,2) by (auto simp: process_connection_def)
    qed
  qed (use assms c in \<open>auto simp: process_connection_def\<close>)
qed

text \<open>Polling never runs into undefined behaviour; when it returns, it reports success and the
  state can be polled again.\<close>

lemma process_ok:
  assumes "sys_ok no client_inv s"
  shows "doip_interface_process address_of_it on_udp on_tcp on_connected on_disconnected s = never_returns
    \<or> (\<exists>s'. doip_interface_process address_of_it on_udp on_tcp on_connected on_disconnected s
          = returns (DOIP_RESULT_OK, s') \<and> sys_ok no client_inv s')"
proof -
  obtain t where t: "process_udp on_udp s = Some t" "sys_ok no client_inv t"
    using process_udp_ok [OF assms] by blast
  obtain u where u: "process_accept on_connected t = Some u" "sys_ok no client_inv u"
    using process_accept_ok [OF t(2)] by blast
  have loop: "for_each_run is (process_connection on_tcp on_disconnected) v = never_returns
      \<or> (\<exists>v'. for_each_run is (process_connection on_tcp on_disconnected) v = returns v' \<and> sys_ok no client_inv v')"
    if "set is \<subseteq> {0, 1}" "sys_ok no client_inv v" for "is" v
    using that
  proof (induction "is" arbitrary: v)
    case (Cons i "is")
    then show ?case
      using process_connection_ok [of v i]
      by (cases "process_connection on_tcp on_disconnected i v") fastforce+
  qed simp
  have "set [0..<2::nat] \<subseteq> {0, 1}"
    by auto
  then show ?thesis
    using loop [OF _ u(2), of "[0..<2]"] t(1) u(1)
    by (auto simp: doip_interface_process_def simp del: upt_Suc)
qed

end

section \<open>Reassembly of a TCP stream\<close>

context rx_client
begin

lemma poll_delivers:
  assumes "conn s i = Some c" and "wf_conn c" and "socket_fd c \<ge> 0" and "net_ops (iface s) = Some no"
    and recv: "tcp_recv no (socket_fd c) (4096 - rx_buffer_used c) (net s) = ((int (length ys), ys), w)"
    and "ys \<noteq> []" and "length (pending c) + length ys \<le> 4096" and "\<not> stalls (pending c @ ys)"
  shows "\<exists>t c'. conn t i = Some c' \<and> wf_conn c' \<and> pending c' = pending c @ ys \<and> socket_fd c' = socket_fd c
    \<and> net_ops (iface t) = Some no \<and> s\<lparr>iface := iface t, net := w\<rparr> = t
    \<and> (\<forall>j. j \<noteq> i \<longrightarrow> conn t j = conn s j)
    \<and> process_connection cb dcb i s = Some (deliver cb i (fst (split_frames (pending c @ ys))) t)"
proof -
  let ?u = "rx_buffer_used c + of_int (int (length ys))"
  let ?b = "pending c @ ys @ drop (length (pending c) + length ys) (rx_buffer c)"
  let ?c = "c\<lparr>rx_buffer := ?b, rx_buffer_used := ?u\<rparr>"
  let ?t = "s\<lparr>net := w, iface := (iface s)\<lparr>connections := (connections (iface s))[i := ?c]\<rparr>\<rparr>"
  have lp: "length (pending c) = unat (rx_buffer_used c)"
    by (rule length_pending [OF assms(2)])
  then have uu: "unat ?u = length (pending c) + length ys"
    using assms(7) by (subst unat_add_no_wrap) (simp_all add: unat_of_nat_u32)
  have wr: "wr_block (rx_buffer c) (unat (rx_buffer_used c)) ys = Some ?b"
    using assms(2,7) lp by (auto simp: wr_block_def wf_conn_def pending_def)
  have i: "i < length (connections (iface s))" "connections (iface s) ! i = c"
    using assms(1) by (auto simp: conn_def rd_def split: if_splits)
  have wf: "wf_conn ?c" "pending ?c = pending c @ ys"
    using assms(2,7) uu by (auto simp: wf_conn_def) (simp add: pending_def uu)
  have ct: "conn ?t i = Some ?c"
    using i by (simp add: conn_def rd_def)
  have "receive_into i c s =
      Some (int (length ys), s\<lparr>net := w, iface := (iface s)\<lparr>connections := (connections (iface s))[i := c\<lparr>rx_buffer := ?b\<rparr>]\<rparr>\<rparr>)"
    using assms(4) recv wr i by (simp add: receive_into_def ops_def conn_update_def upd_at_def)
  then have "process_connection cb dcb i s = rx_loop cb i ?t"
    using assms(1,3,6) i by (simp add: process_connection_def conn_update_def upd_at_def)
  then have "process_connection cb dcb i s = Some (deliver cb i (fst (split_frames (pending c @ ys))) ?t)"
    using rx_loop_delivers [OF ct wf(1), unfolded wf(2), OF assms(8)] by (rule trans)
  moreover have "\<forall>j. j \<noteq> i \<longrightarrow> conn ?t j = conn s j"
    by (simp add: conn_def rd_def)
  ultimately show ?thesis
    using ct wf assms(4) by (intro exI [of _ ?t] exI [of _ ?c]) simp
qed

end

text \<open>A client that records the messages it is called with.\<close>

record 'w recording = "'w net_system" +
  delivered :: "bytes list"

definition record_message :: "('w, 'z) recording_scheme tcp_rx_callback" where
  "record_message j d n s = Some (s\<lparr>delivered := delivered s @ [take (unat n) d]\<rparr>)"

interpretation recorder: rx_client "Some record_message"
  by unfold_locales (auto simp: call_tcp_def record_message_def)

lemma deliver_records:
  assumes "deliver (Some record_message) i fs s = Some s'" and "conn s i = Some c"
    and "length (concat fs) \<le> 4096"
  shows "delivered s' = delivered s @ fs \<and> net s' = net s"
  using assms
proof (induction fs arbitrary: s c)
  case (Cons f fs)
  let ?s = "s\<lparr>delivered := delivered s @ [f]\<rparr>"
  have "record_message (int i) (f @ drop (length f) (rx_buffer c)) (of_nat (length f)) s = Some ?s"
    using Cons.prems(3) by (simp add: record_message_def unat_of_nat_u32)
  moreover have cs: "conn ?s i = Some c"
    using Cons.prems(2) by (simp add: conn_def)
  ultimately obtain t where t: "conn_update i (pop_conn (length f)) ?s = Some t"
      "deliver (Some record_message) i fs t = Some s'"
    using Cons.prems(1,2) by (auto simp: call_tcp_def split: Option.bind_splits)
  moreover have "delivered t = delivered ?s" "net t = net s"
    using t(1) by (auto simp: conn_update_Some [OF cs])
  moreover have "conn t i = Some (pop_conn (length f) c)"
    using conn_update_conn [OF t(1)] cs by simp
  ultimately show ?case
    using Cons.IH [of t] Cons.prems(3) by auto
qed simp

lemma deliver_records_total:
  assumes "conn s i = Some c"
  shows "\<exists>s'. deliver (Some record_message) i fs s = Some s'"
  using assms
proof (induction fs arbitrary: s c)
  case (Cons f fs)
  let ?s = "s\<lparr>delivered := delivered s @ [take (unat (of_nat (length f) :: u32)) (f @ drop (length f) (rx_buffer c))]\<rparr>"
  have cs: "conn ?s i = Some c"
    using Cons.prems by (simp add: conn_def)
  obtain t where t: "conn_update i (pop_conn (length f)) ?s = Some t"
    using conn_update_Some [OF cs] by blast
  then have "conn t i = Some (pop_conn (length f) c)"
    using conn_update_conn [OF t] cs by simp
  then show ?case
    using Cons t by (simp add: call_tcp_def record_message_def)
qed simp

text \<open>A socket that carries a byte stream, in the states in which it is live: a receive operation with room either reports that there
  is nothing to read, or takes a non-empty piece, of any size that fits, off the stream.\<close>

locale tcp_stream =
  fixes no :: "'w doip_network_ops_t" and fd :: int and incoming :: "'w \<Rightarrow> bytes" and live :: "'w \<Rightarrow> bool"
  assumes recv_stream: "live w \<Longrightarrow> 0 < n \<Longrightarrow> tcp_recv no fd n w = ((r, ys), w') \<Longrightarrow>
      live w' \<and> ((r < 0 \<and> ys = [] \<and> incoming w = [] \<and> incoming w' = [])
      \<or> (r = int (length ys) \<and> ys \<noteq> [] \<and> length ys \<le> unat n \<and> incoming w = ys @ incoming w'))"
begin

lemma poll_keeps_stream:
  fixes s :: "('w, 'z) recording_scheme"
  assumes "conn s i = Some c" and "wf_conn c" and "socket_fd c = fd" and "fd \<ge> 0"
    and "net_ops (iface s) = Some no" and "length (pending c) < 4096"
    and "\<not> stalls (pending c @ incoming (net s))" and "live (net s)" and "fst (split_frames (pending c)) = []"
  shows "\<exists>s' c'. process_connection (Some record_message) dcb i s = returns s' \<and> live (net s')
    \<and> conn s' i = Some c' \<and> wf_conn c' \<and> socket_fd c' = fd \<and> net_ops (iface s') = Some no
    \<and> fst (split_frames (pending c')) = []
    \<and> (incoming (net s') = [] \<or> length (incoming (net s')) < length (incoming (net s)))
    \<and> delivered s' @ fst (split_frames (pending c' @ incoming (net s')))
        = delivered s @ fst (split_frames (pending c @ incoming (net s)))
    \<and> snd (split_frames (pending c' @ incoming (net s'))) = snd (split_frames (pending c @ incoming (net s)))"
proof -
  obtain r ys w where recv: "tcp_recv no fd (4096 - rx_buffer_used c) (net s) = ((r, ys), w)"
    by (metis prod.exhaust)
  have room: "unat (4096 - rx_buffer_used c) = 4096 - length (pending c)"
    using assms(2) by (subst unat_sub_word) (simp_all add: wf_conn_def word_le_nat_alt length_pending)
  then have "0 < 4096 - rx_buffer_used c"
    using assms(6) by (simp add: word_less_nat_alt)
  from recv_stream [OF assms(8) this recv] show ?thesis
  proof (elim disjE conjE)
    assume r: "live w" "r < 0" "ys = []" "incoming (net s) = []" "incoming w = []"
    then have "wr_block (rx_buffer c) (unat (rx_buffer_used c)) ys = Some (rx_buffer c)"
      using assms(2) by (simp add: wr_block_def wf_conn_def)
    then have "process_connection (Some record_message) dcb i s = returns (s\<lparr>net := w\<rparr>)"
      using assms(1,3,4,5) recv r
      by (auto simp: process_connection_def receive_into_def ops_def conn_update_def upd_at_def conn_def rd_def
          split: if_splits)
    then show ?thesis
      using assms r(1,4,5) by (intro exI [of _ "s\<lparr>net := w\<rparr>"] exI [of _ c]) (simp add: conn_def)
  next
    assume "live w" and r: "r = int (length ys)" "ys \<noteq> []" "length ys \<le> unat (4096 - rx_buffer_used c)"
      "incoming (net s) = ys @ incoming w"
    have "\<not> stalls (pending c @ ys)"
      using assms(7) stalls_append [of "pending c @ ys" "incoming w"] r(4) by simp
    moreover have "length (pending c) + length ys \<le> 4096"
      using r(3) room assms(6) by simp
    ultimately obtain t c' where t: "conn t i = Some c'" "wf_conn c'" "pending c' = pending c @ ys"
        "socket_fd c' = fd" "net_ops (iface t) = Some no" "s\<lparr>iface := iface t, net := w\<rparr> = t"
        "process_connection (Some record_message) dcb i s =
           Some (deliver (Some record_message) i (fst (split_frames (pending c @ ys))) t)"
      using recorder.poll_delivers [of s i c no ys w dcb] assms recv r room by auto
    obtain s' where s': "deliver (Some record_message) i (fst (split_frames (pending c @ ys))) t = Some s'"
      using deliver_records_total [OF t(1)] by blast
    have pc: "pending c' = concat (fst (split_frames (pending c @ ys))) @ snd (split_frames (pending c @ ys))"
      by (simp add: t(3) concat_split_frames)
    have "length (concat (fst (split_frames (pending c @ ys)))) \<le> length (pending c')"
      by (simp add: pc)
    then have rec: "delivered s' = delivered t @ fst (split_frames (pending c @ ys))" "net s' = net t"
      using deliver_records [OF s' t(1)] t(2) length_pending [OF t(2)] by (auto simp: wf_conn_def)
    obtain c'' where "conn s' i = Some c''" "wf_conn c''" "pending c'' = snd (split_frames (pending c @ ys))"
        "socket_fd c'' = fd" "net_ops (iface s') = Some no"
      using recorder.deliver_leaves_rest [OF s' t(1,2) pc] t(4,5) by auto
    moreover have "delivered t = delivered s" "net t = w"
      by (subst t(6) [symmetric], simp)+
    ultimately show ?thesis
      using t(7) s' rec r(2,4) \<open>live w\<close> split_frames_append [of "pending c @ ys" "incoming w"]
      by (intro exI [of _ s'] exI [of _ c'']) auto
  qed
qed

end

lemma split_frames_messages:
  "list_all wf_msg ms \<Longrightarrow>
     split_frames (concat (map frame ms) @ r) = (map frame ms @ fst (split_frames r), snd (split_frames r))"
  by (induction ms) (simp_all add: split_frames_frame)

lemma well_formed_stream_never_stalls:
  assumes "list_all wf_msg ms" and "concat (map frame ms) = p @ q"
  shows "\<not> stalls p"
proof (rule stalls_append)
  have "split_frames [] = ([], [])"
    by (rule split_frames_done) simp
  then show "\<not> stalls (p @ q)"
    using split_frames_messages [OF assms(1), of "[]"] assms(2) by (simp add: stalls_def Let_def)
qed

section \<open>Start-up and accepting connections\<close>

lemma interface_init_ok:
  assumes "length (connections (iface s)) = 2" and "length (udp_rx_buffer (iface s)) = 4096"
    and "\<forall>c \<in> set (connections (iface s)). length (rx_buffer c) = 4096"
  shows "\<exists>s'. doip_interface_init address_of_it (Some no) s = Some (DOIP_RESULT_OK, s')
    \<and> wf_interface (iface s') \<and> net_ops (iface s') = Some no
    \<and> udp_socket (iface s') = INVALID_SOCKET \<and> tcp_listen_socket (iface s') = INVALID_SOCKET
    \<and> (\<forall>c \<in> set (connections (iface s')). tcp_state c = DOIP_CONN_STATE_CLOSED \<and> pending c = [])
    \<and> s\<lparr>iface := iface s'\<rparr> = s'"
proof -
  obtain c0 c1 where "connections (iface s) = [c0, c1]"
    using assms(1) by (auto simp: numeral_2_eq_2 length_Suc_conv)
  then show ?thesis
    using assms(2,3)
    by (simp add: doip_interface_init_def upt_rec conn_update_def upd_at_def wf_interface_def wf_slot_def
        wf_conn_def pending_def)
qed

text \<open>Slot \<open>i\<close> of the interface after it has received a new socket.\<close>

definition slot_opened :: "nat \<Rightarrow> int \<Rightarrow> 'w doip_interface_t \<Rightarrow> 'w doip_interface_t" where
  "slot_opened i fd f = f\<lparr>connections := (connections f)[i := (connections f ! i)
     \<lparr>socket_fd := fd, tcp_state := DOIP_CONN_STATE_PENDING_ACTIVATION, rx_buffer_used := 0, last_activity_time := 0\<rparr>]\<rparr>"

lemma process_accept_eq:
  assumes "wf_interface (iface s)" and "net_ops (iface s) = Some no"
    and "tcp_accept no (tcp_listen_socket (iface s)) (net s) = (fd, w)"
  shows "process_accept on_connected s =
    (if tcp_listen_socket (iface s) < 0 then Some s
     else if fd < 0 then Some (s\<lparr>net := w\<rparr>)
     else if \<forall>c \<in> set (connections (iface s)). socket_fd c \<ge> 0 then Some (s\<lparr>net := close_socket no fd w\<rparr>)
     else let i = (if socket_fd (connections (iface s) ! 0) < 0 then 0 else 1)
          in call_conn on_connected (int i) (s\<lparr>net := w, iface := slot_opened i fd (iface s)\<rparr>))"
proof -
  obtain c0 c1 where c: "connections (iface s) = [c0, c1]"
    using assms(1) by (auto simp: wf_interface_def numeral_2_eq_2 length_Suc_conv)
  then have "tcp_state c0 = DOIP_CONN_STATE_CLOSED \<longleftrightarrow> socket_fd c0 < 0" "tcp_state c1 = DOIP_CONN_STATE_CLOSED \<longleftrightarrow> socket_fd c1 < 0"
    using assms(1) by (auto simp: wf_interface_def wf_slot_def)
  then show ?thesis
    using assms(2,3) c
    by (auto simp: process_accept_def ops_def find_free_connection_def upt_rec rd_def idx_def conn_update_def upd_at_def
        call_conn_def slot_opened_def Let_def split: option.splits)
qed

section \<open>When polling returns\<close>

text \<open>The stall, as one poll meets it: slot \<open>i\<close> receives bytes now that, behind those in its buffer, stall its receive loop. A poll
  hangs when that happens to the first slot, or to the second one after the first has been served.\<close>

definition slot_stalls :: "'w doip_network_ops_t \<Rightarrow> nat \<Rightarrow> ('w, 'z) net_system_scheme \<Rightarrow> bool" where
  "slot_stalls no i s =
     (case conn s i of
        None \<Rightarrow> False
      | Some c \<Rightarrow> socket_fd c \<ge> 0 \<and>
          (let ((r, ys), w) = tcp_recv no (socket_fd c) (DOIP_RX_BUFFER_SIZE - rx_buffer_used c) (net s)
           in r > 0 \<and> stalls (pending c @ ys)))"

definition poll_hangs ::
    "'w doip_network_ops_t \<Rightarrow> (('w, 'z) net_system_scheme udp_rx_callback) ptr
      \<Rightarrow> (('w, 'z) net_system_scheme tcp_rx_callback) ptr
      \<Rightarrow> (('w, 'z) net_system_scheme connection_callback) ptr
      \<Rightarrow> (('w, 'z) net_system_scheme connection_callback) ptr \<Rightarrow> ('w, 'z) net_system_scheme \<Rightarrow> bool" where
  "poll_hangs no on_udp on_tcp on_connected on_disconnected s =
     (case do { s \<leftarrow> process_udp on_udp s; process_accept on_connected s } of
        None \<Rightarrow> False
      | Some s \<Rightarrow> slot_stalls no 0 s \<or>
          (case process_connection on_tcp on_disconnected 0 s of
             Some (Some s) \<Rightarrow> slot_stalls no 1 s
           | _ \<Rightarrow> False))"

context interface_client
begin

lemma process_disconnect_others:
  assumes "sys_ok no client_inv s" and "i < 2" and "j \<noteq> i"
    and "process_disconnect on_disconnected i s = Some s'"
  shows "conn s' j = conn s j"
proof -
  let ?f = "\<lambda>c. c\<lparr>socket_fd := INVALID_SOCKET, tcp_state := DOIP_CONN_STATE_CLOSED, rx_buffer_used := 0\<rparr>"
  obtain t where t: "call_conn on_disconnected (int i) s = Some t" "iface t = iface s"
    using disconnected_total [of s i ?f] assms(1,2) by (auto simp: sys_ok_def)
  have "conn t i = Some (connections (iface s) ! i)"
    using assms(1,2) t(2) by (simp add: conn_def rd_def sys_ok_def wf_interface_def)
  then have u: "conn_update i ?f (t\<lparr>net := close_socket no (socket_fd (connections (iface s) ! i)) (net t)\<rparr>) = Some s'"
    using assms(1,4) t by (simp add: process_disconnect_def call_conn_def ops_def sys_ok_def)
  show ?thesis
    using conn_update_conn [OF u, of j] assms(3) t(2) by (simp add: conn_def)
qed

lemma process_connection_returns:
  assumes "sys_ok no client_inv s" and "i < 2" and "conn s i = Some c"
    and nostall: "\<not> slot_stalls no i s"
  shows "\<exists>s'. process_connection on_tcp on_disconnected i s = returns s' \<and> sys_ok no client_inv s'
    \<and> (\<forall>j. j \<noteq> i \<longrightarrow> conn s' j = conn s j)"
proof (cases "socket_fd c \<ge> 0")
  case True
  have wf: "wf_conn c" and no: "net_ops (iface s) = Some no"
    using conn_index [OF assms(3)] assms(1) by (auto simp: sys_ok_def wf_slot_def)
  obtain r ys w where recv: "tcp_recv no (socket_fd c) (4096 - rx_buffer_used c) (net s) = ((r, ys), w)"
    by (metis prod.exhaust)
  have room: "unat (4096 - rx_buffer_used c) = 4096 - length (pending c)"
    using wf by (subst unat_sub_word) (simp_all add: wf_conn_def word_le_nat_alt length_pending)
  have le: "length (pending c) \<le> 4096"
    using wf length_pending [OF wf] by (simp add: wf_conn_def)
  show ?thesis
  proof (cases "r > 0")
    case pos: True
    then have ys: "r = int (length ys)" "length ys \<le> 4096 - length (pending c)" "ys \<noteq> []"
      using tcp_recv_law [OF recv] room by auto
    have "length (pending c) + length ys \<le> 4096" and "\<not> stalls (pending c @ ys)"
      using ys(2) le nostall pos assms(3) True recv by (simp_all add: slot_stalls_def)
    from poll_delivers [OF assms(3) wf True no recv [unfolded ys(1)] ys(3) this, of on_disconnected]
    obtain t c' where t: "conn t i = Some c'" "wf_conn c'" "pending c' = pending c @ ys"
        "\<forall>j. j \<noteq> i \<longrightarrow> conn t j = conn s j"
        and run: "process_connection on_tcp on_disconnected i s =
          Some (deliver on_tcp i (fst (split_frames (pending c @ ys))) t)"
      by blast
    then obtain s' where s': "deliver on_tcp i (fst (split_frames (pending c @ ys))) t = Some s'" "sys_ok no client_inv s'"
      using process_connection_ok [OF assms(1,2) run] by auto
    have "pending c' = concat (fst (split_frames (pending c @ ys))) @ snd (split_frames (pending c @ ys))"
      by (simp add: t(3) concat_split_frames)
    then have "\<forall>j. j \<noteq> i \<longrightarrow> conn s' j = conn t j"
      using deliver_leaves_rest [OF s'(1) t(1,2)] by blast
    then show ?thesis
      using run s' t(4) by auto
  next
    case nonpos: False
    then have ys: "ys = []"
      using tcp_recv_law [OF recv] by auto
    let ?s = "s\<lparr>net := w\<rparr>"
    have same: "(connections (iface s))[i := c] = connections (iface s)"
      using assms(3) by (auto simp: conn_def rd_def split: if_splits)
    have "receive_into i c s = Some (r, ?s)"
      using recv no ys wf assms(3) same
      by (auto simp: receive_into_def ops_def wr_block_def wf_conn_def conn_update_def upd_at_def conn_def rd_def
          split: if_splits)
    then have run: "process_connection on_tcp on_disconnected i s =
        (if r = 0 then Some (process_disconnect on_disconnected i ?s) else returns ?s)"
      using assms(3) True nonpos by (simp add: process_connection_def)
    have ok: "sys_ok no client_inv ?s"
      using assms(1) inv_net [where s = s] by (simp add: sys_ok_def)
    obtain u where "process_disconnect on_disconnected i ?s = Some u" "sys_ok no client_inv u"
      using process_disconnect_ok [OF ok assms(2)] by blast
    then show ?thesis
      using run ok process_disconnect_others [OF ok assms(2)] by (auto simp: conn_def)
  qed
qed (use assms in \<open>auto simp: process_connection_def\<close>)

end

lemma stalls_size:
  assumes "stalls bs"
  shows "8 \<le> length bs \<and> msg_size bs \<le> length bs"
proof (cases "8 \<le> length bs \<and> 0 < msg_size bs \<and> msg_size bs \<le> length bs")
  case False
  then show ?thesis
    using assms split_frames_done [OF False] by (simp add: stalls_def Let_def)
qed simp

text \<open>A stream that stalls hangs the receive loop of every client that returns from its callbacks:
  the messages before the header with the wrapped size are delivered, and then the loop repeats
  itself for ever.\<close>

context interface_client
begin

lemma stalled_loop_never_returns:
  assumes "rx_loop cb i s = Some r" and "cb = on_tcp" and "sys_ok no client_inv s" and "i < 2"
    and "0 \<le> socket_fd (connections (iface s) ! i)"
    and "conn s i = Some c" and "stalls (pending c)"
  shows False
  using assms
proof (induction cb i s r arbitrary: c rule: rx_loop.raw_induct [rotated 1, consumes 1])
  case (1 loop cb i s r)
  let ?n = "msg_size (pending c)"
  have wf: "wf_conn c"
    using conn_index [OF "1.prems"(5)] "1.prems"(2) by (auto simp: sys_ok_def wf_slot_def)
  have size: "8 \<le> length (pending c)" "?n \<le> length (pending c)"
    using stalls_size [OF "1.prems"(6)] by auto
  note pop = pop_conn_wf [OF wf size(2)]
  obtain go_on s' where s': "rx_step on_tcp i s = Some (go_on, s')" "sys_ok no client_inv s'"
      "0 \<le> socket_fd (connections (iface s') ! i)"
    using rx_step_ok [OF "1.prems"(2,3,4)] by blast
  have "go_on" and c': "conn s' i = Some (pop_conn ?n c)"
    using step_pops [OF "1.prems"(5) wf size s'(1)] by auto
  then have "loop cb i s' = Some r"
    using "1.hyps" "1.prems"(1) s'(1) by simp
  moreover have "stalls (pending (pop_conn ?n c))"
    using "1.prems"(6) size pop(2) by (cases "?n = 0") (simp_all add: stalls_def split_frames_more)
  ultimately show False
    using "1.IH" [of cb i s' r "pop_conn ?n c"] "1.prems"(1,3) s'(2,3) c' by simp
qed

lemma stalled_connection_hangs:
  assumes "sys_ok no client_inv s" and "i < 2" and "conn s i = Some c" and "socket_fd c \<ge> 0"
    and recv: "tcp_recv no (socket_fd c) (4096 - rx_buffer_used c) (net s) = ((int (length ys), ys), w)"
    and "ys \<noteq> []" and "stalls (pending c @ ys)"
  shows "process_connection on_tcp on_disconnected i s = never_returns"
proof -
  let ?f = "\<lambda>c. c\<lparr>rx_buffer_used := rx_buffer_used c + of_int (int (length ys))\<rparr>"
  have wf: "wf_slot c" "wf_conn c" and no: "net_ops (iface s) = Some no"
    using conn_index [OF assms(3)] assms(1) by (auto simp: sys_ok_def wf_slot_def)
  obtain s' where s': "receive_into i c s = Some (int (length ys), s')" "sys_ok no client_inv s'"
      "conn s' i = Some (c\<lparr>rx_buffer := take (unat (rx_buffer_used c)) (rx_buffer c) @ ys
                           @ drop (unat (rx_buffer_used c) + length ys) (rx_buffer c)\<rparr>)"
      "unat (rx_buffer_used c) + length ys \<le> 4096"
    using receive_into_ok [OF assms(1-3) recv] by auto
  let ?c = "c\<lparr>rx_buffer := pending c @ ys @ drop (length (pending c) + length ys) (rx_buffer c),
                rx_buffer_used := rx_buffer_used c + of_int (int (length ys))\<rparr>"
  have len: "length (pending c) = unat (rx_buffer_used c)" "unat (rx_buffer_used c) + length ys \<le> 4096"
    using length_pending [OF wf(2)] s'(4) by auto
  have uu: "unat (rx_buffer_used c + of_int (int (length ys))) = unat (rx_buffer_used c) + length ys"
    using len(2) by (subst unat_add_no_wrap) (simp_all add: unat_of_nat_u32)
  have cs: "map_option ?f (conn s' i) = Some ?c"
    using s'(3) len(1) by (simp add: pending_def)
  then have "wf_slot (?f c') \<and> socket_fd (?f c') = socket_fd c'" if "conn s' i = Some c'" for c'
    using that wf len uu s'(3) by (auto simp: wf_slot_def wf_conn_def)
  then obtain t where t: "conn_update i ?f s' = Some t" "sys_ok no client_inv t" "conn t i = Some ?c"
    using conn_update_ok [OF s'(2) assms(2), of ?f] cs by auto
  have "pending ?c = pending c @ ys"
    using len uu by (simp add: pending_def)
  then have stall: "stalls (pending ?c)"
    using assms(7) by (simp only:)
  have fd: "0 \<le> socket_fd (connections (iface t) ! i)"
    using t(3) assms(4) by (simp add: conn_def rd_def split: if_splits)
  have "process_connection on_tcp on_disconnected i s = rx_loop on_tcp i t"
    using assms(3,4,6) s'(1) t(1) by (simp add: process_connection_def)
  then show ?thesis
    using stalled_loop_never_returns [OF _ refl t(2) assms(2) fd t(3) stall]
    by (cases "rx_loop on_tcp i t") auto
qed

lemma connection_exact:
  assumes "sys_ok no client_inv s" and "i < 2"
  shows "if slot_stalls no i s then process_connection on_tcp on_disconnected i s = never_returns
    else \<exists>s'. process_connection on_tcp on_disconnected i s = returns s' \<and> sys_ok no client_inv s'"
proof -
  obtain c where c: "conn s i = Some c"
    using wf_interface_conn [of s i] assms by (auto simp: sys_ok_def)
  show ?thesis
  proof (cases "slot_stalls no i s")
    case True
    then obtain r ys w where recv: "tcp_recv no (socket_fd c) (4096 - rx_buffer_used c) (net s) = ((r, ys), w)"
        and "socket_fd c \<ge> 0" "r > 0" "stalls (pending c @ ys)"
      using c by (auto simp: slot_stalls_def split: prod.splits)
    moreover have "r = int (length ys)" and "ys \<noteq> []"
      using tcp_recv_law [OF recv] \<open>r > 0\<close> by auto
    ultimately show ?thesis
      using stalled_connection_hangs [OF assms c] True by simp
  next
    case False
    then show ?thesis
      using process_connection_returns [OF assms c False] by auto
  qed
qed

text \<open>Polling returns, with success, exactly when it does not hang on a stall.\<close>

lemma process_exact:
  assumes "sys_ok no client_inv s"
  shows "if poll_hangs no on_udp on_tcp on_connected on_disconnected s
    then doip_interface_process address_of_it on_udp on_tcp on_connected on_disconnected s = never_returns
    else \<exists>s'. doip_interface_process address_of_it on_udp on_tcp on_connected on_disconnected s
           = returns (DOIP_RESULT_OK, s') \<and> sys_ok no client_inv s'"
proof -
  obtain s1 s2 where s1: "process_udp on_udp s = Some s1" and s2: "process_accept on_connected s1 = Some s2" "sys_ok no client_inv s2"
    using process_udp_ok [OF assms] process_accept_ok by blast
  let ?pc = "process_connection on_tcp on_disconnected"
  have last: "then_run (then_run r (for_each_run [] ?pc)) g = then_run r g" for r and g :: "_ \<Rightarrow> (doip_result_t \<times> ('w, 'z) net_system_scheme) run"
    by (cases r; cases "the r") simp_all
  have run: "doip_interface_process address_of_it on_udp on_tcp on_connected on_disconnected s =
      then_run (?pc 0 s2) (\<lambda>s. then_run (?pc 1 s) (\<lambda>s. returns (DOIP_RESULT_OK, s)))"
    using s1 s2(1) by (cases "?pc 0 s2"; cases "the (?pc 0 s2)") (simp_all add: doip_interface_process_def upt_rec last)
  show ?thesis
  proof (cases "slot_stalls no 0 s2")
    case True
    then show ?thesis using run s1 s2 connection_exact [OF s2(2), of 0] by (simp add: poll_hangs_def)
  next
    case False
    then obtain s3 where s3: "?pc 0 s2 = returns s3" "sys_ok no client_inv s3"
      using connection_exact [OF s2(2), of 0] by auto
    then show ?thesis
      using run s1 s2 False connection_exact [OF s3(2), of 1] by (auto simp: poll_hangs_def)
  qed
qed

lemma process_hangs:
  assumes "process_udp on_udp s = Some s1" and "process_accept on_connected s1 = Some s2"
    and "process_connection on_tcp on_disconnected 0 s2 = never_returns"
  shows "doip_interface_process address_of_it on_udp on_tcp on_connected on_disconnected s = never_returns"
  using assms by (simp add: doip_interface_process_def upt_rec)

end

section \<open>Properties\<close>

text \<open>Concrete values for the witnesses: a network on which every operation fails, a connection
  with the given bytes in its buffer, and a system with one such connection.\<close>

definition dead_ops :: "unit doip_network_ops_t" where
  "dead_ops =
     \<lparr>udp_bind = \<lambda>_ w. (-1, w), udp_sendto = \<lambda>_ _ _ _ _ w. (-1, w),
      udp_recvfrom = \<lambda>_ _ w. ((-1, [], '''', 0), w), tcp_listen = \<lambda>_ w. (-1, w),
      tcp_accept = \<lambda>_ w. (7, w), tcp_connect = \<lambda>_ _ w. (-1, w), tcp_send = \<lambda>_ _ _ w. (-1, w),
      tcp_recv = \<lambda>_ _ w. ((-1, []), w), close_socket = \<lambda>_ w. w, socket_select = NULL\<rparr>"

definition open_connection :: "bytes \<Rightarrow> doip_tcp_connection_t" where
  "open_connection bs =
     \<lparr>socket_fd = 3, tcp_state = DOIP_CONN_STATE_PENDING_ACTIVATION, tcp_source_address = 0,
      last_activity_time = 0, rx_buffer = bs @ replicate (4096 - length bs) 0,
      rx_buffer_used = of_nat (length bs)\<rparr>"

definition closed_connection :: doip_tcp_connection_t where
  "closed_connection =
     \<lparr>socket_fd = -1, tcp_state = DOIP_CONN_STATE_CLOSED, tcp_source_address = 0,
      last_activity_time = 0, rx_buffer = replicate 4096 0, rx_buffer_used = 0\<rparr>"

definition sample_interface :: "bytes \<Rightarrow> unit doip_interface_t" where
  "sample_interface bs =
     \<lparr>net_ops = Some dead_ops, udp_socket = 1, tcp_listen_socket = 2,
      connections = [open_connection bs, closed_connection], udp_rx_buffer = replicate 4096 0\<rparr>"

lemma open_connection_pending [simp]: "length bs \<le> 4096 \<Longrightarrow> pending (open_connection bs) = bs"
  by (simp add: pending_def open_connection_def unat_of_nat_u32)

lemma open_connection_wf [simp]: "length bs \<le> 4096 \<Longrightarrow> wf_slot (open_connection bs) \<and> wf_conn (open_connection bs)"
  by (simp add: wf_slot_def wf_conn_def open_connection_def unat_of_nat_u32)

lemma sample_interface_wf [simp]: "length bs \<le> 4096 \<Longrightarrow> wf_interface (sample_interface bs)"
  by (simp add: wf_interface_def sample_interface_def) (simp add: closed_connection_def wf_slot_def wf_conn_def)

text \<open>C5. The receive loop of a connection refines the cutting of the byte stream: for every callback
  that leaves the interface alone and every buffer without a header whose size wraps to zero, the
  loop terminates and calls the callback exactly once for each complete message in the buffer, in
  order, each time with a buffer that starts with that message and with the message's length, and
  the message is removed after its call. Array accesses and the overlapping move stay in bounds.\<close>

theorem receive_loop_refines_stream:
  assumes "\<And>j d n t t'. cb j d n t = Some t' \<Longrightarrow> iface t' = iface t"
    and "conn s i = Some c" and "wf_conn c" and "\<not> stalls (pending c)"
  shows "rx_loop (Some cb) i s = Some (deliver (Some cb) i (fst (split_frames (pending c))) s)"
proof -
  have "rx_client (Some cb)"
    using assms(1) by unfold_locales (simp add: call_tcp_def)
  then show ?thesis
    by (rule rx_client.rx_loop_delivers [OF _ assms(2,3,4)])
qed

theorem receive_loop_refines_stream_witness:
  "rx_loop (Some record_message) 0
     \<lparr>iface = sample_interface (frame (GenericNack 4) @ [3]), net = (), delivered = []\<rparr> =
   Some (deliver (Some record_message) 0 [frame (GenericNack 4)]
     \<lparr>iface = sample_interface (frame (GenericNack 4) @ [3]), net = (), delivered = []\<rparr>)"
proof -
  let ?p = "frame (GenericNack 4) @ [3]"
  let ?s = "\<lparr>iface = sample_interface ?p, net = (), delivered = []\<rparr>"
  have sp: "split_frames ?p = ([frame (GenericNack 4)], [3])"
    by (simp add: split_frames_frame split_frames_done)
  have "rx_loop (Some record_message) 0 ?s =
      Some (deliver (Some record_message) 0 (fst (split_frames (pending (open_connection ?p)))) ?s)"
    by (rule receive_loop_refines_stream)
      (auto simp: record_message_def conn_def rd_def sample_interface_def length_frame stalls_def sp)
  then show ?thesis
    using sp by (simp add: length_frame)
qed

text \<open>C6. Accepting a connection never disturbs one that is open and never loses a socket: in a well-formed interface, a new
  socket goes to the first slot without one, with an empty buffer and a pending activation, and its callback is called for that slot; when
  both slots are in use the new socket is closed again and nothing else changes; without a new socket only the network has
  changed. If the callback leaves the interface alone, every slot with a socket is afterwards exactly as it was.\<close>

theorem accept_spares_live_connections:
  assumes "wf_interface (iface s)" and "net_ops (iface s) = Some no"
    and "tcp_accept no (tcp_listen_socket (iface s)) (net s) = (fd, w)"
  shows "process_accept on_connected s =
      (if tcp_listen_socket (iface s) < 0 then Some s
       else if fd < 0 then Some (s\<lparr>net := w\<rparr>)
       else if \<forall>c \<in> set (connections (iface s)). socket_fd c \<ge> 0 then Some (s\<lparr>net := close_socket no fd w\<rparr>)
       else let i = (if socket_fd (connections (iface s) ! 0) < 0 then 0 else 1)
            in call_conn on_connected (int i) (s\<lparr>net := w, iface := slot_opened i fd (iface s)\<rparr>))
    \<and> ((\<forall>i t t'. call_conn on_connected i t = Some t' \<longrightarrow> iface t' = iface t) \<longrightarrow>
         (\<forall>s' j c. process_accept on_connected s = Some s' \<longrightarrow> conn s j = Some c \<longrightarrow> socket_fd c \<ge> 0 \<longrightarrow> conn s' j = Some c))"
proof (intro conjI impI allI)
  note eq = process_accept_eq [OF assms, of on_connected]
  show "process_accept on_connected s =
      (if tcp_listen_socket (iface s) < 0 then Some s
       else if fd < 0 then Some (s\<lparr>net := w\<rparr>)
       else if \<forall>c \<in> set (connections (iface s)). socket_fd c \<ge> 0 then Some (s\<lparr>net := close_socket no fd w\<rparr>)
       else let i = (if socket_fd (connections (iface s) ! 0) < 0 then 0 else 1)
            in call_conn on_connected (int i) (s\<lparr>net := w, iface := slot_opened i fd (iface s)\<rparr>))"
    by (rule eq)
  fix s' j c
  assume keeps: "\<forall>i t t'. call_conn on_connected i t = Some t' \<longrightarrow> iface t' = iface t"
    and run: "process_accept on_connected s = Some s'" and c: "conn s j = Some c" "socket_fd c \<ge> 0"
  define i where "i = (if socket_fd (connections (iface s) ! 0) < 0 then 0 else 1 :: nat)"
  have free: "socket_fd (connections (iface s) ! i) < 0" if "\<not> (\<forall>c \<in> set (connections (iface s)). socket_fd c \<ge> 0)"
    using that assms(1) by (auto simp: i_def wf_interface_def in_set_conv_nth less_2_cases_iff)
  consider "iface s' = iface s" | "socket_fd (connections (iface s) ! i) < 0" "iface s' = slot_opened i fd (iface s)"
  proof -
    define t where "t = s\<lparr>net := w, iface := slot_opened i fd (iface s)\<rparr>"
    have iface: "iface t = slot_opened i fd (iface s)" by (simp add: t_def)
    have "s' \<in> {s, s\<lparr>net := w\<rparr>, s\<lparr>net := close_socket no fd w\<rparr>}
        \<or> \<not> (\<forall>c \<in> set (connections (iface s)). socket_fd c \<ge> 0) \<and> call_conn on_connected (int i) t = Some s'"
      using run unfolding eq i_def [symmetric] Let_def t_def [symmetric] by (simp split: if_splits)
    then show ?thesis
      using that free keeps iface by (elim disjE insertE conjE) auto
  qed
  then show "conn s' j = Some c"
    using c by cases (cases "i = j"; auto simp: conn_def rd_def slot_opened_def split: if_splits)+
qed

theorem accept_spares_live_connections_witness:
  "\<exists>s'. process_accept NULL \<lparr>iface = sample_interface [], net = ()\<rparr> = Some s'
     \<and> conn s' 0 = Some (open_connection []) \<and> socket_fd (connections (iface s') ! 1) = 7"
proof -
  let ?s = "\<lparr>iface = sample_interface [], net = ()\<rparr>"
  have sample: "net_ops (iface ?s) = Some dead_ops" "tcp_listen_socket (iface ?s) = 2"
      "connections (iface ?s) = [open_connection [], closed_connection]"
      "tcp_accept dead_ops (tcp_listen_socket (iface ?s)) (net ?s) = (7, ())"
      "socket_fd closed_connection = -1" "socket_fd (open_connection []) = 3"
    by (simp_all add: sample_interface_def) (simp_all add: dead_ops_def closed_connection_def open_connection_def)
  have wf: "wf_interface (iface ?s)" by simp
  note accept = accept_spares_live_connections [OF wf sample(1,4), of NULL]
  have run: "process_accept NULL ?s = Some (?s\<lparr>net := (), iface := slot_opened 1 7 (iface ?s)\<rparr>)"
    using accept sample(2,3,5,6) by (simp add: call_conn_def)
  moreover have "conn ?s 0 = Some (open_connection [])"
    using sample(3) by (simp add: conn_def rd_def)
  then have "conn (?s\<lparr>net := (), iface := slot_opened 1 7 (iface ?s)\<rparr>) 0 = Some (open_connection [])"
    using accept run sample(6) by (simp add: call_conn_def)
  moreover have "socket_fd (connections (slot_opened 1 7 (iface ?s)) ! 1) = 7"
    using sample(3) by (simp add: slot_opened_def)
  ultimately show ?thesis by auto
qed

text \<open>\<open>doip_interface_init\<close> turns any interface whose arrays have their sizes, whatever they
  contain, into a well-formed one with all slots closed, empty buffers and no sockets.\<close>

lemma interface_init_well_formed:
  assumes "length (connections (iface s)) = 2" and "length (udp_rx_buffer (iface s)) = 4096"
    and "\<forall>c \<in> set (connections (iface s)). length (rx_buffer c) = 4096"
  shows "\<exists>s'. doip_interface_init address_of_it (Some no) s = Some (DOIP_RESULT_OK, s')
    \<and> wf_interface (iface s') \<and> net_ops (iface s') = Some no
    \<and> udp_socket (iface s') = INVALID_SOCKET \<and> tcp_listen_socket (iface s') = INVALID_SOCKET
    \<and> (\<forall>c \<in> set (connections (iface s')). tcp_state c = DOIP_CONN_STATE_CLOSED \<and> pending c = [])"
  using interface_init_ok [OF assms, of no] by blast

end
