(* ===== verification/DoIP_Entity.thy ===== *)
theory DoIP_Entity
  imports DoIP_Interface
begin

text \<open>
  The DoIP entity (the vehicle side) of \<^verbatim>\<open>src/doip/app_doip_entity.h\<close> and
  \<^verbatim>\<open>src/doip/app_doip_entity.c\<close>: configuration, the per-connection contexts, the four callbacks it
  registers with the interface, announcements, routing activation, diagnostic messages, responses
  and timers. \<open>doip_encode_diag_message_ack\<close>, which the same file defines, is in the protocol theory.

  The entity extends the system record, so that every operation works on the interface it points
  to and on the network. The callback that takes diagnostic messages (\<open>entity->uds_callback\<close>) is an
  argument of the operations that call it: \<open>doip_entity_process\<close> stores it in the entity just before
  it polls, and nothing else changes it. The debug output is not modelled. A local array
  starts out as zeros; what is passed on from it is only the part that was written.
\<close>

section \<open>Data\<close>

record doip_entity_config_t =
  cfg_vin :: bytes
  cfg_eid :: bytes
  cfg_gid :: bytes
  logical_address :: u16
  general_inactivity_time :: u32
  initial_inactivity_time :: u32
  alive_check_time :: u32
  max_tester_connections :: u8

record doip_entity_connection_t =
  connection_id :: int
  source_address :: u16
  is_activated :: bool
  initial_inactivity_timer :: u32
  general_inactivity_timer :: u32
  alive_check_timer :: u32
  alive_check_pending :: bool

record doip_entity_t =
  config :: doip_entity_config_t
  ent_interface :: object_ptr
  ent_connections :: "doip_entity_connection_t list"
  announcement_count :: u32
  announcement_timer :: u32

record 'w entity_system = "'w net_system" +
  entity :: doip_entity_t

type_synonym 's uds_rx_callback = "u16 \<Rightarrow> u16 \<Rightarrow> bytes ptr \<Rightarrow> u32 \<Rightarrow> 's \<Rightarrow> 's exec"

abbreviation (input) "DOIP_TESTER_ADDRESS_MIN \<equiv> (0x0E00 :: u16)"
abbreviation (input) "DOIP_TESTER_ADDRESS_MAX \<equiv> (0x0FFF :: u16)"

text \<open>Access to one connection context; an index of C type \<open>int\<close>.\<close>

definition econn :: "('w, 'z) entity_system_scheme \<Rightarrow> int \<Rightarrow> doip_entity_connection_t exec" where
  "econn s k = do { i \<leftarrow> idx k; rd (ent_connections (entity s)) i }"

definition econn_update ::
    "int \<Rightarrow> (doip_entity_connection_t \<Rightarrow> doip_entity_connection_t) \<Rightarrow> ('w, 'z) entity_system_scheme
      \<Rightarrow> ('w, 'z) entity_system_scheme exec" where
  "econn_update k f s = do {
     i \<leftarrow> idx k;
     cs \<leftarrow> upd_at (ent_connections (entity s)) i f;
     Some (s\<lparr>entity := (entity s)\<lparr>ent_connections := cs\<rparr>\<rparr>)
   }"

definition local_array :: "nat \<Rightarrow> bytes" where
  "local_array n = replicate n 0"

section \<open>Start-up and announcements\<close>

definition doip_entity_init ::
    "object_ptr \<Rightarrow> doip_entity_config_t ptr \<Rightarrow> object_ptr \<Rightarrow> ('w, 'z) entity_system_scheme
      \<Rightarrow> (doip_result_t \<times> ('w, 'z) entity_system_scheme) exec" where
  "doip_entity_init ent cfg interface s =
     (if ent = NULL \<or> cfg = NULL \<or> interface = NULL then Some (DOIP_RESULT_INVALID_PARAM, s)
      else do {
        c \<leftarrow> cfg;
        let s = s\<lparr>entity := (entity s)\<lparr>config := c, ent_interface := interface,
                                       announcement_count := 0, announcement_timer := 0\<rparr>\<rparr>;
        s \<leftarrow> for_each [0..<DOIP_MAX_CONNECTIONS]
              (\<lambda>i. econn_update (int i) (\<lambda>e. e\<lparr>connection_id := -1, source_address := 0,
                 is_activated := False, initial_inactivity_timer := 0, general_inactivity_timer := 0,
                 alive_check_timer := 0, alive_check_pending := False\<rparr>)) s;
        Some (DOIP_RESULT_OK, s)
      })"

definition doip_entity_start ::
    "object_ptr \<Rightarrow> ('w, 'z) entity_system_scheme
      \<Rightarrow> (doip_result_t \<times> ('w, 'z) entity_system_scheme) exec" where
  "doip_entity_start ent s =
     (if ent = NULL then Some (DOIP_RESULT_INVALID_PARAM, s)
      else do {
        (result, s) \<leftarrow> doip_interface_start_udp (ent_interface (entity s)) DOIP_UDP_DISCOVERY_PORT s;
        if result \<noteq> DOIP_RESULT_OK then Some (result, s)
        else do {
          (result, s) \<leftarrow> doip_interface_start_tcp_server (ent_interface (entity s)) DOIP_TCP_DATA_PORT s;
          if result \<noteq> DOIP_RESULT_OK then Some (result, s)
          else Some (DOIP_RESULT_OK,
                     s\<lparr>entity := (entity s)\<lparr>announcement_count := 0, announcement_timer := 0\<rparr>\<rparr>)
        }
      })"

text \<open>The identification response that both the announcement and the answer to a request carry.\<close>

definition identification :: "doip_entity_config_t \<Rightarrow> doip_vehicle_id_response_t exec" where
  "identification cfg = do {
     vin \<leftarrow> memcpy (local_array 17) 0 (cfg_vin cfg) (unat DOIP_VIN_LENGTH);
     eid \<leftarrow> memcpy (local_array 6) 0 (cfg_eid cfg) (unat DOIP_EID_LENGTH);
     gid \<leftarrow> memcpy (local_array 6) 0 (cfg_gid cfg) (unat DOIP_GID_LENGTH);
     Some \<lparr>vid_vin = vin, vid_logical_address = logical_address cfg, vid_eid = eid, vid_gid = gid,
           further_action_required = 0, sync_status = 0\<rparr>
   }"

definition doip_entity_send_vehicle_announcement ::
    "object_ptr \<Rightarrow> ('w, 'z) entity_system_scheme
      \<Rightarrow> (doip_result_t \<times> ('w, 'z) entity_system_scheme) exec" where
  "doip_entity_send_vehicle_announcement ent s =
     (if ent = NULL then Some (DOIP_RESULT_INVALID_PARAM, s)
      else do {
        response \<leftarrow> identification (config (entity s));
        (result, buffer, encoded_length) \<leftarrow>
          doip_encode_vehicle_id_response (Some response) (Some (local_array 64)) 64 (Some 0);
        if result \<noteq> DOIP_RESULT_OK then Some (result, s)
        else do {
          n \<leftarrow> encoded_length;
          doip_interface_udp_broadcast (ent_interface (entity s)) buffer n DOIP_UDP_DISCOVERY_PORT s
        }
      })"

section \<open>Requests\<close>

definition handle_vehicle_id_request ::
    "string \<Rightarrow> u16 \<Rightarrow> u16 \<Rightarrow> bytes \<Rightarrow> u32 \<Rightarrow> ('w, 'z) entity_system_scheme
      \<Rightarrow> ('w, 'z) entity_system_scheme exec" where
  "handle_vehicle_id_request src_ip src_port ptype payload len s = do {
     should_respond \<leftarrow>
       (if ptype = DOIP_PAYLOAD_TYPE_VEHICLE_ID_REQ then Some True
        else if ptype = DOIP_PAYLOAD_TYPE_VEHICLE_ID_REQ_VIN then
          (if len \<ge> DOIP_VIN_LENGTH
           then memcmp_eq payload (cfg_vin (config (entity s))) (unat DOIP_VIN_LENGTH) else Some False)
        else if ptype = DOIP_PAYLOAD_TYPE_VEHICLE_ID_REQ_EID then
          (if len \<ge> DOIP_EID_LENGTH
           then memcmp_eq payload (cfg_eid (config (entity s))) (unat DOIP_EID_LENGTH) else Some False)
        else Some False);
     if should_respond then do {
       response \<leftarrow> identification (config (entity s));
       (result, buffer, encoded_length) \<leftarrow>
         doip_encode_vehicle_id_response (Some response) (Some (local_array 64)) 64 (Some 0);
       if result = DOIP_RESULT_OK then do {
         n \<leftarrow> encoded_length;
         (_, s) \<leftarrow> doip_interface_udp_send (ent_interface (entity s)) (Some src_ip) src_port buffer n s;
         Some s
       } else Some s
     } else Some s
   }"

definition handle_routing_activation_request ::
    "int \<Rightarrow> bytes \<Rightarrow> u32 \<Rightarrow> ('w, 'z) entity_system_scheme \<Rightarrow> ('w, 'z) entity_system_scheme exec" where
  "handle_routing_activation_request conn_id payload len s = do {
     (res, reqp) \<leftarrow> doip_decode_routing_activation_req (Some payload) len
       (Some \<lparr>rreq_source_address = 0, activation_type = 0, rreq_reserved = 0, rreq_oem_specific = 0\<rparr>);
     request \<leftarrow> reqp;
     (code, s) \<leftarrow>
       (if res \<noteq> DOIP_RESULT_OK then Some (DOIP_ROUTING_ACT_RES_UNKNOWN_SOURCE, s)
        else if rreq_source_address request < DOIP_TESTER_ADDRESS_MIN \<or>
                rreq_source_address request > DOIP_TESTER_ADDRESS_MAX
        then Some (DOIP_ROUTING_ACT_RES_UNKNOWN_SOURCE, s)
        else do {
          s \<leftarrow> econn_update conn_id (\<lambda>e. e\<lparr>is_activated := True,
                 source_address := rreq_source_address request,
                 general_inactivity_timer := general_inactivity_time (config (entity s))\<rparr>) s;
          Some (DOIP_ROUTING_ACT_RES_SUCCESS, s)
        });
     (result, buffer, encoded_length) \<leftarrow> doip_encode_routing_activation_res
       (Some \<lparr>rres_tester_address = rreq_source_address request,
              rres_entity_address = logical_address (config (entity s)), response_code = code,
              rres_reserved = 0, rres_oem_specific = 0\<rparr>) (Some (local_array 32)) 32 (Some 0);
     if result = DOIP_RESULT_OK then do {
       n \<leftarrow> encoded_length;
       (_, s) \<leftarrow> doip_interface_tcp_send (ent_interface (entity s)) conn_id buffer n s;
       Some s
     } else Some s
   }"

text \<open>Encoding a diagnostic acknowledgement into the local buffer and sending it: the result of the
  encoder is ignored by the code.\<close>

definition send_diag_ack ::
    "int \<Rightarrow> u16 \<Rightarrow> u8 \<Rightarrow> ('w, 'z) entity_system_scheme \<Rightarrow> ('w, 'z) entity_system_scheme exec" where
  "send_diag_ack conn_id target ack_code s = do {
     (_, buffer, ack_length) \<leftarrow> doip_encode_diag_message_ack (logical_address (config (entity s))) target
       ack_code (Some (local_array 32)) 32 (Some 0);
     n \<leftarrow> ack_length;
     (_, s) \<leftarrow> doip_interface_tcp_send (ent_interface (entity s)) conn_id buffer n s;
     Some s
   }"

definition handle_diagnostic_message ::
    "(('w, 'z) entity_system_scheme uds_rx_callback) ptr \<Rightarrow> int \<Rightarrow> bytes \<Rightarrow> u32
      \<Rightarrow> ('w, 'z) entity_system_scheme \<Rightarrow> ('w, 'z) entity_system_scheme exec" where
  "handle_diagnostic_message uds_callback conn_id payload len s = do {
     e \<leftarrow> econn s conn_id;
     if \<not> is_activated e then send_diag_ack conn_id 0x0000 DOIP_DIAG_NACK_INVALID_SOURCE s
     else do {
       (res, msgp) \<leftarrow> doip_decode_diagnostic_message (Some payload) len
         (Some \<lparr>dm_source_address = 0, dm_target_address = 0, user_data_length = 0, user_data = NULL\<rparr>);
       if res \<noteq> DOIP_RESULT_OK then Some s
       else do {
         diag_msg \<leftarrow> msgp;
         let ack_target_address = dm_source_address diag_msg;
         if dm_target_address diag_msg \<noteq> logical_address (config (entity s))
         then send_diag_ack conn_id (dm_target_address diag_msg) DOIP_DIAG_NACK_UNKNOWN_TARGET s
         else do {
           s \<leftarrow> send_diag_ack conn_id ack_target_address 0x00 s;
           s \<leftarrow> (case uds_callback of
                    None \<Rightarrow> Some s
                  | Some cb \<Rightarrow> cb (dm_source_address diag_msg) (dm_target_address diag_msg)
                                 (user_data diag_msg) (user_data_length diag_msg) s);
           econn_update conn_id
             (\<lambda>e. e\<lparr>general_inactivity_timer := general_inactivity_time (config (entity s))\<rparr>) s
         }
       }
     }
   }"

section \<open>The callbacks of the interface\<close>

definition entity_udp_rx_callback :: "('w, 'z) entity_system_scheme udp_rx_callback" where
  "entity_udp_rx_callback src_ip src_port data len s =
     (if len < 8 then Some s
      else do {
        (res, hp) \<leftarrow> doip_decode_header (Some data) len (Some uninitialised_header);
        if res \<noteq> DOIP_RESULT_OK then Some s
        else do {
          header \<leftarrow> hp;
          if \<not> doip_validate_header (Some header) then Some s
          else if payload_type header \<in> {DOIP_PAYLOAD_TYPE_VEHICLE_ID_REQ,
                    DOIP_PAYLOAD_TYPE_VEHICLE_ID_REQ_EID, DOIP_PAYLOAD_TYPE_VEHICLE_ID_REQ_VIN}
          then handle_vehicle_id_request src_ip src_port (payload_type header) (drop 8 data)
                 (payload_length header) s
          else Some s
        }
      })"

definition entity_tcp_rx_callback ::
    "(('w, 'z) entity_system_scheme uds_rx_callback) ptr \<Rightarrow> ('w, 'z) entity_system_scheme tcp_rx_callback" where
  "entity_tcp_rx_callback uds_callback conn_id data len s = do {
     (res, hp) \<leftarrow> doip_decode_header (Some data) len (Some uninitialised_header);
     if res \<noteq> DOIP_RESULT_OK then Some s
     else do {
       header \<leftarrow> hp;
       if \<not> doip_validate_header (Some header) then Some s
       else if payload_type header = DOIP_PAYLOAD_TYPE_ROUTING_ACTIVATION_REQ
       then handle_routing_activation_request conn_id (drop 8 data) (payload_length header) s
       else if payload_type header = DOIP_PAYLOAD_TYPE_DIAG_MESSAGE
       then handle_diagnostic_message uds_callback conn_id (drop 8 data) (payload_length header) s
       else if payload_type header = DOIP_PAYLOAD_TYPE_ALIVE_CHECK_RES
       then econn_update conn_id (\<lambda>e. e\<lparr>alive_check_pending := False\<rparr>) s
       else Some s
     }
   }"

definition entity_tcp_connected_callback :: "('w, 'z) entity_system_scheme connection_callback" where
  "entity_tcp_connected_callback conn_id s =
     econn_update conn_id (\<lambda>e. e\<lparr>connection_id := conn_id,
       initial_inactivity_timer := initial_inactivity_time (config (entity s)),
       is_activated := False, source_address := 0\<rparr>) s"

definition entity_tcp_disconnected_callback :: "('w, 'z) entity_system_scheme connection_callback" where
  "entity_tcp_disconnected_callback conn_id s =
     econn_update conn_id (\<lambda>e. e\<lparr>connection_id := -1, source_address := 0, is_activated := False,
       initial_inactivity_timer := 0, general_inactivity_timer := 0, alive_check_timer := 0,
       alive_check_pending := False\<rparr>) s"

definition doip_entity_process ::
    "object_ptr \<Rightarrow> (('w, 'z) entity_system_scheme uds_rx_callback) ptr \<Rightarrow> ('w, 'z) entity_system_scheme
      \<Rightarrow> (doip_result_t \<times> ('w, 'z) entity_system_scheme) run" where
  "doip_entity_process ent uds_callback s =
     (if ent = NULL then returns (DOIP_RESULT_INVALID_PARAM, s)
      else doip_interface_process (ent_interface (entity s)) (Some entity_udp_rx_callback)
             (Some (entity_tcp_rx_callback uds_callback)) (Some entity_tcp_connected_callback)
             (Some entity_tcp_disconnected_callback) s)"

section \<open>Responses and timers\<close>

text \<open>The search of the connection for a target address: the stored connection id of the first
  activated context with that address, or \<open>-1\<close>.\<close>

fun find_target :: "nat list \<Rightarrow> u16 \<Rightarrow> doip_entity_connection_t list \<Rightarrow> int exec" where
  "find_target [] addr cs = Some (-1)"
| "find_target (i # is) addr cs = do {
     e \<leftarrow> rd cs i;
     if is_activated e \<and> source_address e = addr then Some (connection_id e)
     else find_target is addr cs
   }"

definition doip_entity_send_diagnostic_response ::
    "object_ptr \<Rightarrow> u16 \<Rightarrow> bytes ptr \<Rightarrow> u32 \<Rightarrow> ('w, 'z) entity_system_scheme
      \<Rightarrow> (doip_result_t \<times> ('w, 'z) entity_system_scheme) exec" where
  "doip_entity_send_diagnostic_response ent target_addr data len s =
     (if ent = NULL \<or> data = NULL then Some (DOIP_RESULT_INVALID_PARAM, s)
      else do {
        target_connection \<leftarrow> find_target [0..<DOIP_MAX_CONNECTIONS] target_addr (ent_connections (entity s));
        if target_connection < 0 then Some (DOIP_RESULT_NOT_READY, s)
        else do {
          (result, buffer, encoded_length) \<leftarrow> doip_encode_diagnostic_message
            (Some \<lparr>dm_source_address = logical_address (config (entity s)), dm_target_address = target_addr,
                   user_data_length = len, user_data = data\<rparr>) (Some (local_array 4104)) 4104 (Some 0);
          if result \<noteq> DOIP_RESULT_OK then Some (DOIP_RESULT_ERROR, s)
          else do {
            n \<leftarrow> encoded_length;
            doip_interface_tcp_send (ent_interface (entity s)) target_connection buffer n s
          }
        }
      })"

definition update_announcement ::
    "u32 \<Rightarrow> ('w, 'z) entity_system_scheme \<Rightarrow> ('w, 'z) entity_system_scheme exec" where
  "update_announcement elapsed_ms s =
     (if announcement_count (entity s) < 3 then
        if announcement_timer (entity s) > elapsed_ms
        then Some (s\<lparr>entity := (entity s)\<lparr>announcement_timer := announcement_timer (entity s) - elapsed_ms\<rparr>\<rparr>)
        else do {
          let s = s\<lparr>entity := (entity s)\<lparr>announcement_timer := 500\<rparr>\<rparr>;
          (_, s) \<leftarrow> doip_entity_send_vehicle_announcement address_of_it s;
          Some (s\<lparr>entity := (entity s)\<lparr>announcement_count := announcement_count (entity s) + 1\<rparr>\<rparr>)
        }
      else Some s)"

definition update_connection_timer ::
    "u32 \<Rightarrow> nat \<Rightarrow> ('w, 'z) entity_system_scheme \<Rightarrow> ('w, 'z) entity_system_scheme exec" where
  "update_connection_timer elapsed_ms i s = do {
     e \<leftarrow> econn s (int i);
     if connection_id e \<ge> 0 then
       if \<not> is_activated e then
         if initial_inactivity_timer e > elapsed_ms
         then econn_update (int i) (\<lambda>e. e\<lparr>initial_inactivity_timer := initial_inactivity_timer e - elapsed_ms\<rparr>) s
         else doip_interface_close_connection (ent_interface (entity s)) (connection_id e) s
       else
         if general_inactivity_timer e > elapsed_ms
         then econn_update (int i) (\<lambda>e. e\<lparr>general_inactivity_timer := general_inactivity_timer e - elapsed_ms\<rparr>) s
         else doip_interface_close_connection (ent_interface (entity s)) (connection_id e) s
     else Some s
   }"

definition doip_entity_update_timers ::
    "object_ptr \<Rightarrow> u32 \<Rightarrow> ('w, 'z) entity_system_scheme \<Rightarrow> ('w, 'z) entity_system_scheme exec" where
  "doip_entity_update_timers ent elapsed_ms s =
     (if ent = NULL then Some s
      else do {
        s \<leftarrow> update_announcement elapsed_ms s;
        for_each [0..<DOIP_MAX_CONNECTIONS] (update_connection_timer elapsed_ms) s
      })"

section \<open>What the operations do\<close>

definition wf_config :: "doip_entity_config_t \<Rightarrow> bool" where
  "wf_config c \<longleftrightarrow> length (cfg_vin c) = 17 \<and> length (cfg_eid c) = 6 \<and> length (cfg_gid c) = 6"

text \<open>The array \<open>b\<close> of \<open>k\<close> bytes with a message at its start.\<close>

definition in_array :: "nat \<Rightarrow> bytes \<Rightarrow> bytes" where
  "in_array k f = f @ replicate (k - length f) 0"

definition announcement :: "doip_entity_config_t \<Rightarrow> doip_msg" where
  "announcement c = VehicleAnnouncement (cfg_vin c) (logical_address c) (cfg_eid c) (cfg_gid c) 0 0"

text \<open>The effect of handing a message to the socket of slot \<open>i\<close>: nothing when the slot has none.\<close>

definition tcp_sent ::
    "'w doip_network_ops_t \<Rightarrow> nat \<Rightarrow> bytes \<Rightarrow> u32 \<Rightarrow> ('w, 'z) net_system_scheme \<Rightarrow> ('w, 'z) net_system_scheme" where
  "tcp_sent no i d n s =
     (let fd = socket_fd (connections (iface s) ! i)
      in if fd < 0 then s else s\<lparr>net := snd (tcp_send no fd d n (net s))\<rparr>)"

lemma tcp_sent_frame [simp]:
  "iface (tcp_sent no i d n s) = iface s" "entity (tcp_sent no i d n t) = entity t"
  by (simp_all add: tcp_sent_def Let_def)

lemma econn_Some:
  "i < length (ent_connections (entity s)) \<Longrightarrow> econn s (int i) = Some (ent_connections (entity s) ! i)"
  by (simp add: econn_def rd_def)

lemma econn_update_eq:
  "i < length (ent_connections (entity s)) \<Longrightarrow> econn_update (int i) f s =
     Some (s\<lparr>entity := (entity s)\<lparr>ent_connections :=
             (ent_connections (entity s))[i := f (ent_connections (entity s) ! i)]\<rparr>\<rparr>)"
  by (simp add: econn_update_def upd_at_def)

lemma identification_ok:
  "wf_config c \<Longrightarrow> identification c = Some \<lparr>vid_vin = cfg_vin c, vid_logical_address = logical_address c,
     vid_eid = cfg_eid c, vid_gid = cfg_gid c, further_action_required = 0, sync_status = 0\<rparr>"
  by (simp add: identification_def wf_config_def local_array_def exec_simps) (simp add: wr_block_0)

lemma encode_in_array:
  assumes "wf_msg m" and "length (frame m) \<le> k" and "k < 4294967296"
  shows "doip_encode_msg m (Some (local_array k)) (of_nat k) (Some 0) =
    Some (DOIP_RESULT_OK, Some (in_array k (frame m)), Some (of_nat (length (frame m))))"
  using assms by (simp add: codec.refines_frame unat_of_nat_u32 local_array_def writes_frame_def in_array_def)

lemma interface_tcp_send_ok:
  assumes "wf_interface (iface s)" and "net_ops (iface s) = Some no" and "i < 2"
  shows "\<exists>r. doip_interface_tcp_send address_of_it (int i) (Some d) n s = Some (r, tcp_sent no i d n s)
    \<and> (r = DOIP_RESULT_NOT_READY \<longleftrightarrow> socket_fd (connections (iface s) ! i) < 0)"
proof -
  have "conn s i = Some (connections (iface s) ! i)"
    using assms by (simp add: conn_def rd_def wf_interface_def)
  then show ?thesis
    using assms(2,3) by (auto simp: doip_interface_tcp_send_def idx_def ops_def tcp_sent_def split: prod.splits)
qed

lemma send_diag_ack_ok:
  assumes "wf_interface (iface s)" and "net_ops (iface s) = Some no" and "i < 2"
    and "ent_interface (entity s) = address_of_it"
  shows "send_diag_ack (int i) ta code s =
    Some (tcp_sent no i (in_array 32 (frame (DiagAck (logical_address (config (entity s))) ta code))) 13 s)"
proof -
  let ?m = "DiagAck (logical_address (config (entity s))) ta code"
  have "doip_encode_diag_message_ack (logical_address (config (entity s))) ta code
      (Some (local_array 32)) 32 (Some 0) = Some (DOIP_RESULT_OK, Some (in_array 32 (frame ?m)), Some 13)"
    using encode_in_array [of ?m 32] by (simp add: length_frame)
  then show ?thesis
    using interface_tcp_send_ok [OF assms(1-3), of "in_array 32 (frame ?m)" 13] assms(4)
    by (auto simp: send_diag_ack_def)
qed

text \<open>Routing activation of connection \<open>i\<close> for the tester address \<open>sa\<close>.\<close>

definition tester_address :: "u16 \<Rightarrow> bool" where
  "tester_address sa \<longleftrightarrow> 0x0E00 \<le> sa \<and> sa \<le> 0x0FFF"

definition activate :: "nat \<Rightarrow> u16 \<Rightarrow> ('w, 'z) entity_system_scheme \<Rightarrow> ('w, 'z) entity_system_scheme" where
  "activate i sa s = s\<lparr>entity := (entity s)\<lparr>ent_connections := (ent_connections (entity s))
     [i := (ent_connections (entity s) ! i)\<lparr>is_activated := True, source_address := sa,
             general_inactivity_timer := general_inactivity_time (config (entity s))\<rparr>]\<rparr>\<rparr>"

lemma activate_frame [simp]:
  "iface (activate i sa s) = iface s" "net (activate i sa s) = net s"
  "config (entity (activate i sa s)) = config (entity s)"
  "ent_interface (entity (activate i sa s)) = ent_interface (entity s)"
  by (simp_all add: activate_def)

lemma decode_routing_request_ok:
  assumes "11 \<le> length p"
  shows "\<exists>r. doip_decode_routing_activation_req (Some p) len (Some r0) = Some (DOIP_RESULT_OK, Some r)
    \<and> rreq_source_address r = of_be16 (p ! 0) (p ! 1)"
  using assms by (simp add: doip_decode_routing_activation_req_def exec_simps)

lemma routing_activation_ok:
  assumes "wf_interface (iface s)" and "net_ops (iface s) = Some no" and "i < 2"
    and "ent_interface (entity s) = address_of_it" and "length (ent_connections (entity s)) = 2"
    and "11 \<le> length p" and "sa = of_be16 (p ! 0) (p ! 1)"
  shows "handle_routing_activation_request (int i) p len s =
    Some (tcp_sent no i (in_array 32 (frame (RoutingActivationRes sa (logical_address (config (entity s)))
                          (if tester_address sa then 0x10 else 0) 0 0))) 21
           (if tester_address sa then activate i sa s else s))"
proof -
  let ?code = "if tester_address sa then 0x10 else 0 :: u8"
  let ?s = "if tester_address sa then activate i sa s else s"
  let ?m = "RoutingActivationRes sa (logical_address (config (entity s))) ?code 0 0"
  obtain r where dec: "doip_decode_routing_activation_req (Some p) len
      (Some \<lparr>rreq_source_address = 0, activation_type = 0, rreq_reserved = 0, rreq_oem_specific = 0\<rparr>)
        = Some (DOIP_RESULT_OK, Some r)" and sa: "rreq_source_address r = sa"
    using decode_routing_request_ok [OF assms(6)] assms(7) by blast
  have enc: "doip_encode_routing_activation_res
      (Some \<lparr>rres_tester_address = sa, rres_entity_address = logical_address (config (entity s)),
             response_code = ?code, rres_reserved = 0, rres_oem_specific = 0\<rparr>)
      (Some (local_array 32)) 32 (Some 0) = Some (DOIP_RESULT_OK, Some (in_array 32 (frame ?m)), Some 21)"
    using encode_in_array [of ?m 32] by (simp add: length_frame)
  have upd: "econn_update (int i) (\<lambda>e. e\<lparr>is_activated := True, source_address := sa,
      general_inactivity_timer := general_inactivity_time (config (entity s))\<rparr>) s = Some (activate i sa s)"
    using assms(3,5) by (simp add: econn_update_eq activate_def)
  have range: "(sa < 0x0E00 \<or> 0x0FFF < sa) \<longleftrightarrow> \<not> tester_address sa"
    by (auto simp: tester_address_def)
  show ?thesis
  proof (cases "tester_address sa")
    case True
    then show ?thesis
      using interface_tcp_send_ok [of "activate i sa s" no i "in_array 32 (frame ?m)" 21] assms(1-4) enc
      by (auto simp: handle_routing_activation_request_def dec sa range upd)
  next
    case False
    then show ?thesis
      using interface_tcp_send_ok [OF assms(1-3), of "in_array 32 (frame ?m)" 21] assms(4) enc
      by (auto simp: handle_routing_activation_request_def dec sa range)
  qed
qed

text \<open>The addresses of a diagnostic message payload.\<close>

definition diag_source :: "bytes \<Rightarrow> u16" where
  "diag_source p = of_be16 (p ! 0) (p ! 1)"

definition diag_target :: "bytes \<Rightarrow> u16" where
  "diag_target p = of_be16 (p ! 2) (p ! 3)"

definition call_uds :: "('s uds_rx_callback) ptr \<Rightarrow> 's uds_rx_callback" where
  "call_uds cb sa ta d n s = (case cb of None \<Rightarrow> Some s | Some f \<Rightarrow> f sa ta d n s)"

lemma diagnostic_message_ok:
  assumes "wf_interface (iface s)" and "net_ops (iface s) = Some no" and "i < 2"
    and "ent_interface (entity s) = address_of_it" and "length (ent_connections (entity s)) = 2"
    and "4 \<le> length p" and "la = logical_address (config (entity s))"
  shows "handle_diagnostic_message uds (int i) p len s =
    (if \<not> is_activated (ent_connections (entity s) ! i)
     then Some (tcp_sent no i (in_array 32 (frame (DiagAck la 0 0x02))) 13 s)
     else if len < 4 then Some s
     else if diag_target p \<noteq> la
     then Some (tcp_sent no i (in_array 32 (frame (DiagAck la (diag_target p) 0x03))) 13 s)
     else do {
       t \<leftarrow> call_uds uds (diag_source p) (diag_target p) (Some (drop 4 p)) (len - 4)
              (tcp_sent no i (in_array 32 (frame (DiagAck la (diag_source p) 0))) 13 s);
       econn_update (int i)
         (\<lambda>e. e\<lparr>general_inactivity_timer := general_inactivity_time (config (entity t))\<rparr>) t })"
  using assms
  by (cases uds)
    (simp_all add: handle_diagnostic_message_def econn_Some send_diag_ack_ok exec_simps diag_source_def
      diag_target_def call_uds_def)

lemma tcp_rx_dispatch:
  assumes "8 \<le> length d"
  shows "entity_tcp_rx_callback uds k d n s =
    (if n < 8 \<or> \<not> doip_validate_header (Some (header_of d)) then Some s
     else if payload_type (header_of d) = 0x0005
     then handle_routing_activation_request k (drop 8 d) (payload_length (header_of d)) s
     else if payload_type (header_of d) = 0x8001
     then handle_diagnostic_message uds k (drop 8 d) (payload_length (header_of d)) s
     else if payload_type (header_of d) = 0x0008
     then econn_update k (\<lambda>e. e\<lparr>alive_check_pending := False\<rparr>) s
     else Some s)"
  using assms by (cases "n < 8") (simp_all add: entity_tcp_rx_callback_def exec_simps)

lemma udp_rx_dispatch:
  assumes "8 \<le> length d"
  shows "entity_udp_rx_callback ip port d n s =
    (if n < 8 \<or> \<not> doip_validate_header (Some (header_of d)) \<or> payload_type (header_of d) \<notin> {1, 2, 3}
     then Some s
     else handle_vehicle_id_request ip port (payload_type (header_of d)) (drop 8 d)
            (payload_length (header_of d)) s)"
  using assms by (auto simp: entity_udp_rx_callback_def exec_simps)

text \<open>Which identification requests are answered.\<close>

definition addressed :: "doip_entity_config_t \<Rightarrow> u16 \<Rightarrow> bytes \<Rightarrow> u32 \<Rightarrow> bool" where
  "addressed c ptype p len \<longleftrightarrow>
     ptype = 1 \<or> ptype = 3 \<and> 17 \<le> len \<and> take 17 p = cfg_vin c \<or> ptype = 2 \<and> 6 \<le> len \<and> take 6 p = cfg_eid c"

lemma vehicle_id_request_ok:
  assumes "net_ops (iface s) = Some no" and "ent_interface (entity s) = address_of_it"
    and "wf_config (config (entity s))" and "17 \<le> length p"
  shows "handle_vehicle_id_request ip port ptype p len s =
    Some (if addressed (config (entity s)) ptype p len
          then s\<lparr>net := snd (udp_sendto no (udp_socket (iface s))
                 (in_array 64 (frame (announcement (config (entity s))))) 41 ip port (net s))\<rparr>
          else s)"
proof -
  let ?m = "announcement (config (entity s))"
  have "wf_msg ?m" "length (frame ?m) = 41"
    using assms(3) by (simp_all add: announcement_def wf_config_def length_frame)
  then have enc: "doip_encode_msg ?m (Some (local_array 64)) 64 (Some 0) =
      Some (DOIP_RESULT_OK, Some (in_array 64 (frame ?m)), Some 41)"
    using encode_in_array [of ?m 64] by simp
  have send: "(if b then do {
       response \<leftarrow> identification (config (entity s));
       (result, buffer, encoded_length) \<leftarrow>
         doip_encode_vehicle_id_response (Some response) (Some (local_array 64)) 64 (Some 0);
       if result = DOIP_RESULT_OK then do {
         n \<leftarrow> encoded_length;
         (_, s) \<leftarrow> doip_interface_udp_send (ent_interface (entity s)) (Some ip) port buffer n s;
         Some s
       } else Some s
     } else Some s) = Some (if b
          then s\<lparr>net := snd (udp_sendto no (udp_socket (iface s)) (in_array 64 (frame ?m)) 41 ip port (net s))\<rparr>
          else s)" for b
    using enc assms(1,2)
    by (simp add: identification_ok [OF assms(3)] announcement_def doip_interface_udp_send_def ops_def split_beta)
  have "length (cfg_vin (config (entity s))) = 17" "length (cfg_eid (config (entity s))) = 6"
    using assms(3) by (simp_all add: wf_config_def)
  then show ?thesis
    using assms(4) unfolding handle_vehicle_id_request_def send
    by (auto simp: exec_simps addressed_def)
qed

lemma announce_ok:
  assumes "net_ops (iface s) = Some no" and "ent_interface (entity s) = address_of_it"
    and "wf_config (config (entity s))"
  shows "\<exists>r. doip_entity_send_vehicle_announcement address_of_it s =
    Some (r, s\<lparr>net := snd (udp_sendto no (udp_socket (iface s))
       (in_array 64 (frame (announcement (config (entity s))))) 41 ''255.255.255.255'' 13400 (net s))\<rparr>)"
proof -
  let ?m = "announcement (config (entity s))"
  have "wf_msg ?m" "length (frame ?m) = 41"
    using assms(3) by (simp_all add: announcement_def wf_config_def length_frame)
  then have "doip_encode_msg ?m (Some (local_array 64)) 64 (Some 0) =
      Some (DOIP_RESULT_OK, Some (in_array 64 (frame ?m)), Some 41)"
    using encode_in_array [of ?m 64] by simp
  then show ?thesis
    using assms(1,2)
    by (simp add: doip_entity_send_vehicle_announcement_def identification_ok [OF assms(3)] announcement_def
        doip_interface_udp_broadcast_def ops_def split_beta)
qed

section \<open>The entity as a client of the interface\<close>

text \<open>The invariant of the entity. A context carries no connection id or that of its own slot; an
  activated context belongs to a connection and has a tester address; and every open socket has a
  context that knows it, so that the inactivity timers reach it.\<close>

definition wf_context :: "nat \<Rightarrow> int \<Rightarrow> doip_entity_connection_t \<Rightarrow> bool" where
  "wf_context i fd e \<longleftrightarrow> connection_id e \<in> {-1, int i}
     \<and> (is_activated e \<longrightarrow> connection_id e = int i \<and> tester_address (source_address e))
     \<and> (0 \<le> fd \<longrightarrow> connection_id e = int i)"

definition entity_inv :: "('w, 'z) entity_system_scheme \<Rightarrow> bool" where
  "entity_inv s \<longleftrightarrow> wf_config (config (entity s)) \<and> ent_interface (entity s) = address_of_it
     \<and> length (ent_connections (entity s)) = 2
     \<and> (\<forall>i < 2. wf_context i (socket_fd (connections (iface s) ! i)) (ent_connections (entity s) ! i))"

lemma entity_inv_net [simp]: "entity_inv (s\<lparr>net := w\<rparr>) = entity_inv s"
  by (simp add: entity_inv_def)

lemma entity_inv_tcp_sent [simp]: "entity_inv (tcp_sent no i d n s) = entity_inv s"
  by (simp add: entity_inv_def)

lemma entity_inv_iface:
  assumes "map socket_fd (connections f) = map socket_fd (connections (iface s))" and "wf_interface (iface s)"
  shows "entity_inv (s\<lparr>iface := f\<rparr>) = entity_inv s"
proof -
  have "length (connections f) = 2"
    using map_eq_imp_length_eq [OF assms(1)] assms(2) by (simp add: wf_interface_def)
  then have "socket_fd (connections f ! i) = socket_fd (connections (iface s) ! i)" if "i < 2" for i
    using that arg_cong [OF assms(1), of "\<lambda>xs. xs ! i"] assms(2) by (simp add: wf_interface_def)
  then show ?thesis
    by (simp add: entity_inv_def)
qed

lemma entity_inv_context:
  assumes "entity_inv s" and "i < 2"
    and "wf_context i (socket_fd (connections (iface s) ! i)) (f (ent_connections (entity s) ! i))"
  shows "\<exists>s'. econn_update (int i) f s = Some s' \<and> entity_inv s'
    \<and> s\<lparr>entity := (entity s)\<lparr>ent_connections := (ent_connections (entity s))[i := f (ent_connections (entity s) ! i)]\<rparr>\<rparr> = s'"
  using assms by (auto simp: entity_inv_def econn_update_eq nth_list_update)

lemma tcp_send_keeps:
  "doip_interface_tcp_send p k d n s = Some (r, s') \<Longrightarrow> \<exists>w. s' = s\<lparr>net := w\<rparr>"
proof -
  have "s = s\<lparr>net := net s\<rparr>" by simp
  then show "doip_interface_tcp_send p k d n s = Some (r, s') \<Longrightarrow> \<exists>w. s' = s\<lparr>net := w\<rparr>"
    by (auto simp: doip_interface_tcp_send_def split: if_splits Option.bind_splits prod.splits intro: exI [of _ "net s"])
qed

lemma econn_update_keeps: "econn_update k f s = Some s' \<Longrightarrow> iface s' = iface s \<and> net s' = net s"
  by (auto simp: econn_update_def split: Option.bind_splits)

lemma send_diag_ack_keeps: "send_diag_ack k ta c s = Some s' \<Longrightarrow> \<exists>w. s' = s\<lparr>net := w\<rparr>"
  by (auto simp: send_diag_ack_def split: Option.bind_splits prod.splits dest: tcp_send_keeps)

lemma routing_activation_keeps:
  "handle_routing_activation_request k p n s = Some s' \<Longrightarrow> iface s' = iface s"
  by (auto simp: handle_routing_activation_request_def split: Option.bind_splits prod.splits if_splits
      dest!: tcp_send_keeps econn_update_keeps)

lemma diagnostic_message_keeps:
  assumes "\<And>sa ta d n s s'. call_uds uds sa ta d n s = Some s' \<Longrightarrow> iface s' = iface s"
    and "handle_diagnostic_message uds k p n s = Some s'"
  shows "iface s' = iface s"
  using assms(2) assms(1)
  by (auto simp: handle_diagnostic_message_def call_uds_def [symmetric] Let_def
      split: Option.bind_splits prod.splits if_splits
      dest!: send_diag_ack_keeps econn_update_keeps)

lemma tcp_rx_keeps:
  assumes "\<And>sa ta d n s s'. call_uds uds sa ta d n s = Some s' \<Longrightarrow> iface s' = iface s"
    and "entity_tcp_rx_callback uds k d n s = Some s'"
  shows "iface s' = iface s"
proof -
  have "iface s' = iface s" if "handle_diagnostic_message uds k p m s = Some s'" for p m
    using diagnostic_message_keeps [OF assms(1) that] .
  then show ?thesis
    using assms(2)
    by (auto simp: entity_tcp_rx_callback_def split: Option.bind_splits prod.splits if_splits
        dest: routing_activation_keeps econn_update_keeps)
qed

text \<open>What the entity relies on from the layer that takes diagnostic messages: it leaves the
  interface and the entity alone, returns for every message, and keeps an invariant of its own
  that depends neither on the network nor on the layers below.\<close>

locale uds_client = network no
  for no :: "'w doip_network_ops_t" +
  fixes uds :: "(('w, 'z) entity_system_scheme uds_rx_callback) ptr"
    and app_inv :: "('w, 'z) entity_system_scheme \<Rightarrow> bool"
  assumes uds_keeps: "call_uds uds sa ta d n s = Some s' \<Longrightarrow> iface s' = iface s \<and> entity s' = entity s"
    and uds_total: "wf_interface (iface s) \<Longrightarrow> net_ops (iface s) = Some no \<Longrightarrow> entity_inv s \<Longrightarrow> app_inv s \<Longrightarrow>
      length b = 4084 \<Longrightarrow> unat n \<le> 4092 \<Longrightarrow> \<exists>s'. call_uds uds sa ta (Some b) n s = Some s' \<and> app_inv s'"
    and app_net: "app_inv (s\<lparr>net := w\<rparr>) = app_inv s"
    and app_iface: "app_inv (s\<lparr>iface := f\<rparr>) = app_inv s"
    and app_entity: "app_inv (s\<lparr>entity := e\<rparr>) = app_inv s"
begin

lemma app_tcp_sent: "app_inv (tcp_sent no i d n s) = app_inv s"
  by (simp add: tcp_sent_def Let_def app_net)

lemma context_update:
  assumes "entity_inv s" and "app_inv s" and "i < 2"
    and "wf_context i (socket_fd (connections (iface s) ! i)) (f (ent_connections (entity s) ! i))"
  shows "\<exists>s'. econn_update (int i) f s = Some s' \<and> entity_inv s' \<and> app_inv s' \<and> iface s' = iface s"
proof -
  obtain s' where s': "econn_update (int i) f s = Some s'" "entity_inv s'"
      "s\<lparr>entity := (entity s)\<lparr>ent_connections := (ent_connections (entity s))[i := f (ent_connections (entity s) ! i)]\<rparr>\<rparr> = s'"
    using entity_inv_context [of s i f] assms(1,3,4) by blast
  then have "app_inv s'"
    using app_entity [where s = s] assms(2) by blast
  then show ?thesis
    using s' econn_update_keeps [OF s'(1)] by blast
qed

lemma tcp_callback_total:
  assumes "wf_interface (iface s)" and "net_ops (iface s) = Some no" and inv: "entity_inv s" "app_inv s"
    and "i < 2" and "0 \<le> socket_fd (connections (iface s) ! i)" and "length d = 4096"
  shows "\<exists>s'. entity_tcp_rx_callback uds (int i) d n s = Some s' \<and> entity_inv s' \<and> app_inv s'"
proof -
  let ?p = "drop 8 d" and ?h = "header_of d" and ?e = "ent_connections (entity s) ! i"
    and ?fd = "socket_fd (connections (iface s) ! i)" and ?la = "logical_address (config (entity s))"
  have ent: "ent_interface (entity s) = address_of_it" "length (ent_connections (entity s)) = 2"
      and e: "wf_context i ?fd ?e"
    using inv(1) assms(5) by (auto simp: entity_inv_def)
  have sent: "entity_inv (tcp_sent no i b m s)" "app_inv (tcp_sent no i b m s)" for b m
    using inv by (simp_all add: app_tcp_sent)
  have len: "4 \<le> length ?p" "11 \<le> length ?p" "8 \<le> length d"
    using assms(7) by simp_all
  consider (ignore) "n < 8 \<or> \<not> doip_validate_header (Some ?h) \<or> payload_type ?h \<notin> {0x0005, 0x8001, 0x0008}"
    | (routing) "\<not> n < 8" "doip_validate_header (Some ?h)" "payload_type ?h = 0x0005"
    | (diag) "\<not> n < 8" "doip_validate_header (Some ?h)" "payload_type ?h = 0x8001"
    | (alive) "\<not> n < 8" "doip_validate_header (Some ?h)" "payload_type ?h = 0x0008"
    by blast
  then show ?thesis
  proof cases
    case ignore
    then show ?thesis using inv by (auto simp: tcp_rx_dispatch [OF len(3)])
  next
    case routing
    let ?sa = "of_be16 (?p ! 0) (?p ! 1)"
    let ?s = "if tester_address ?sa then activate i ?sa s else s"
    have "entity_inv ?s"
      using inv(1) e assms(5,6) by (auto simp: entity_inv_def activate_def wf_context_def nth_list_update)
    moreover have "app_inv ?s"
      using inv(2) app_entity [where s = s] by (simp add: activate_def)
    ultimately show ?thesis
      using routing routing_activation_ok [OF assms(1,2,5) ent len(2) refl]
      by (simp add: tcp_rx_dispatch [OF len(3)] app_tcp_sent)
  next
    case diag
    let ?t = "tcp_sent no i (in_array 32 (frame (DiagAck ?la (diag_source ?p) 0))) 13 s"
    let ?n = "payload_length ?h - 4"
    have run: "entity_tcp_rx_callback uds (int i) d n s =
        handle_diagnostic_message uds (int i) ?p (payload_length ?h) s"
      using diag by (simp add: tcp_rx_dispatch [OF len(3)])
    note msg = diagnostic_message_ok [OF assms(1,2,5) ent len(1) refl, of uds "payload_length ?h"]
    show ?thesis
    proof (cases "\<not> is_activated ?e \<or> payload_length ?h < 4 \<or> diag_target ?p \<noteq> ?la")
      case True
      then show ?thesis
        using run msg sent inv by auto
    next
      case False
      then have "4 \<le> payload_length ?h" by auto
      then have "unat ?n \<le> 4092"
        using diag(2) by (simp add: unat_sub_word doip_validate_header_def word_less_nat_alt split: if_splits)
      moreover have "length (drop 4 ?p) = 4084"
        using assms(7) by simp
      ultimately obtain u where u: "call_uds uds (diag_source ?p) (diag_target ?p) (Some (drop 4 ?p)) ?n ?t = Some u"
          "app_inv u"
        using uds_total [of ?t "drop 4 ?p" ?n "diag_source ?p" "diag_target ?p"] sent assms(1,2) by auto
      have iu: "iface u = iface s" "entity u = entity s"
        using uds_keeps [OF u(1)] by simp_all
      then have "entity_inv u"
        using inv(1) by (simp add: entity_inv_def)
      moreover have "handle_diagnostic_message uds (int i) ?p (payload_length ?h) s =
          econn_update (int i) (\<lambda>e. e\<lparr>general_inactivity_timer := general_inactivity_time (config (entity u))\<rparr>) u"
        using msg False u(1) by simp
      ultimately show ?thesis
        using context_update [of u i "\<lambda>e. e\<lparr>general_inactivity_timer := general_inactivity_time (config (entity u))\<rparr>"]
          u(2) assms(5) e iu run by (auto simp: wf_context_def)
    qed
  next
    case alive
    then show ?thesis
      using context_update [OF inv assms(5), of "\<lambda>e. e\<lparr>alive_check_pending := False\<rparr>"] e
      by (auto simp: tcp_rx_dispatch [OF len(3)] wf_context_def)
  qed
qed

lemma udp_callback_total:
  assumes "net_ops (iface s) = Some no" and "entity_inv s" and "app_inv s" and "length d = 4096"
  shows "\<exists>s'. entity_udp_rx_callback ip port d n s = Some s' \<and> iface s' = iface s \<and> entity_inv s' \<and> app_inv s'"
proof -
  have "8 \<le> length d" "17 \<le> length (drop 8 d)"
    using assms(4) by simp_all
  moreover have "ent_interface (entity s) = address_of_it" "wf_config (config (entity s))"
    using assms(2) by (simp_all add: entity_inv_def)
  ultimately show ?thesis
    using assms(1-3) vehicle_id_request_ok [of s no "drop 8 d" ip port] by (simp add: udp_rx_dispatch app_net)
qed

end

lemma conn_update_elements:
  assumes "conn_update i g s = Some t"
  shows "connections (iface t) = (connections (iface s))[i := g (connections (iface s) ! i)]"
    and "i < length (connections (iface s))"
  using assms by (auto simp: conn_update_def upd_at_def split: if_splits)

context uds_client
begin

lemma connected_callback_total:
  assumes "wf_interface (iface s)" and "entity_inv s" and "app_inv s" and "i < 2"
    and "conn_update i g s = Some t"
  shows "\<exists>s'. entity_tcp_connected_callback (int i) t = Some s' \<and> iface s' = iface t \<and> entity_inv s' \<and> app_inv s'"
proof -
  have t: "t = s\<lparr>iface := iface t\<rparr>"
    using conn_update_frame [OF assms(5)] by simp
  then have et: "entity t = entity s"
    by (metis entity_system.surjective net_system.update_convs(1) entity_system.select_convs(1))
  have "app_inv t"
    using assms(3) app_iface [where s = s] t by metis
  then show ?thesis
    using assms(2,4) et conn_update_elements [OF assms(5)] app_entity [where s = t]
    by (auto simp: entity_tcp_connected_callback_def econn_update_eq entity_inv_def nth_list_update wf_context_def)
qed

lemma disconnected_callback_total:
  assumes "wf_interface (iface s)" and "entity_inv s" and "app_inv s" and "i < 2"
    and "\<And>c. socket_fd (h c) < 0"
  shows "\<exists>s' t. entity_tcp_disconnected_callback (int i) s = Some s' \<and> iface s' = iface s
    \<and> conn_update i h s' = Some t \<and> entity_inv t \<and> app_inv t"
proof -
  let ?f = "\<lambda>e. e\<lparr>connection_id := -1, source_address := 0, is_activated := False,
       initial_inactivity_timer := 0, general_inactivity_timer := 0, alive_check_timer := 0,
       alive_check_pending := False\<rparr>"
  let ?s = "s\<lparr>entity := (entity s)\<lparr>ent_connections := (ent_connections (entity s))[i := ?f (ent_connections (entity s) ! i)]\<rparr>\<rparr>"
  let ?t = "?s\<lparr>iface := (iface s)\<lparr>connections := (connections (iface s))[i := h (connections (iface s) ! i)]\<rparr>\<rparr>"
  have "entity_tcp_disconnected_callback (int i) s = Some ?s"
    using assms(2,4) by (simp add: entity_tcp_disconnected_callback_def econn_update_eq entity_inv_def)
  moreover have "conn_update i h ?s = Some ?t"
    using assms(1,4) by (simp add: conn_update_def upd_at_def wf_interface_def)
  moreover have "entity_inv ?t"
    using assms(1,2,4,5) by (auto simp: entity_inv_def wf_interface_def nth_list_update wf_context_def not_le)
  moreover have "app_inv ?t"
    using assms(3) app_iface [where s = ?s] app_entity [where s = s] by simp
  ultimately show ?thesis by auto
qed

end

sublocale uds_client \<subseteq> interface_client no "Some (entity_tcp_rx_callback uds)"
  "Some entity_udp_rx_callback" "Some entity_tcp_connected_callback" "Some entity_tcp_disconnected_callback"
  "\<lambda>s. entity_inv s \<and> app_inv s"
proof (unfold_locales, goal_cases)
  case (1 j d n s s')
  have "iface t' = iface t" if "call_uds uds sa ta b m t = Some t'" for sa ta b m t t'
    using uds_keeps [OF that] by simp
  then show ?case
    using 1 tcp_rx_keeps [of uds j d n s s'] by (auto simp: call_tcp_def)
next
  case (2 s w)
  then show ?case by (simp add: app_net)
next
  case (3 s f)
  then show ?case by (simp add: app_iface entity_inv_iface)
next
  case (4 s ucb d n ip port)
  then show ?case using udp_callback_total [of s d ip port n] by auto
next
  case (5 s i d n)
  then show ?case using tcp_callback_total [of s i d n] by (simp add: call_tcp_def)
next
  case (6 s i g t)
  then show ?case using connected_callback_total [of s i g t] by (simp add: call_conn_def)
next
  case (7 s i h)
  then show ?case using disconnected_callback_total [of s i h] by (simp add: call_conn_def)
qed

section \<open>Timers\<close>

text \<open>Slot \<open>i\<close> after the interface has closed it.\<close>

definition slot_closed ::
    "'w doip_network_ops_t \<Rightarrow> nat \<Rightarrow> ('w, 'z) net_system_scheme \<Rightarrow> ('w, 'z) net_system_scheme" where
  "slot_closed no i s =
     (let c = connections (iface s) ! i
      in if socket_fd c < 0 then s
         else s\<lparr>net := close_socket no (socket_fd c) (net s),
                iface := (iface s)\<lparr>connections := (connections (iface s))
                  [i := c\<lparr>socket_fd := INVALID_SOCKET, tcp_state := DOIP_CONN_STATE_CLOSED, rx_buffer_used := 0\<rparr>]\<rparr>\<rparr>)"

lemma close_connection_ok:
  assumes "wf_interface (iface s)" and "net_ops (iface s) = Some no" and "i < 2"
  shows "doip_interface_close_connection address_of_it (int i) s = Some (slot_closed no i s)"
proof -
  have "i < length (connections (iface s))"
    using assms by (simp add: wf_interface_def)
  then show ?thesis
    using assms(2,3)
    by (simp add: doip_interface_close_connection_def conn_def rd_def ops_def slot_closed_def Let_def
        conn_update_def upd_at_def)
qed

lemma slot_closed_entity [simp]: "entity (slot_closed no i s) = entity s"
  by (simp add: slot_closed_def Let_def)

lemma slot_closed_ok:
  assumes "wf_interface (iface s)" and "net_ops (iface s) = Some no" and "i < 2"
  shows "wf_interface (iface (slot_closed no i s))" and "net_ops (iface (slot_closed no i s)) = Some no"
    and "socket_fd (connections (iface (slot_closed no i s)) ! i) < 0"
proof -
  have "wf_slot (connections (iface s) ! i)"
    using assms by (simp add: wf_interface_def)
  then show "wf_interface (iface (slot_closed no i s))"
    using assms
    by (auto simp: slot_closed_def Let_def wf_interface_def wf_slot_def wf_conn_def
        dest!: subsetD [OF set_update_subset_insert])
qed (use assms in \<open>auto simp: slot_closed_def Let_def wf_interface_def\<close>)

lemma slot_closed_inv: "entity_inv s \<Longrightarrow> wf_interface (iface s) \<Longrightarrow> i < 2 \<Longrightarrow> entity_inv (slot_closed no i s)"
  by (auto simp: slot_closed_def Let_def wf_interface_def entity_inv_def nth_list_update wf_context_def)

text \<open>The timer that counts for a connection, and one tick of it.\<close>

definition inactivity_timer :: "doip_entity_connection_t \<Rightarrow> u32" where
  "inactivity_timer e = (if is_activated e then general_inactivity_timer e else initial_inactivity_timer e)"

definition tick_context :: "u32 \<Rightarrow> doip_entity_connection_t \<Rightarrow> doip_entity_connection_t" where
  "tick_context el e =
     (if is_activated e then e\<lparr>general_inactivity_timer := general_inactivity_timer e - el\<rparr>
      else e\<lparr>initial_inactivity_timer := initial_inactivity_timer e - el\<rparr>)"

lemma tick_context_simps [simp]:
  "connection_id (tick_context el e) = connection_id e" "is_activated (tick_context el e) = is_activated e"
  "source_address (tick_context el e) = source_address e"
  "inactivity_timer (tick_context el e) = inactivity_timer e - el"
  by (simp_all add: tick_context_def inactivity_timer_def)

definition with_context ::
    "nat \<Rightarrow> (doip_entity_connection_t \<Rightarrow> doip_entity_connection_t) \<Rightarrow> ('w, 'z) entity_system_scheme
      \<Rightarrow> ('w, 'z) entity_system_scheme" where
  "with_context i f s = s\<lparr>entity := (entity s)\<lparr>ent_connections :=
     (ent_connections (entity s))[i := f (ent_connections (entity s) ! i)]\<rparr>\<rparr>"

lemma connection_timer_ok:
  assumes "wf_interface (iface s)" and "net_ops (iface s) = Some no" and "entity_inv s" and "i < 2"
  shows "update_connection_timer el i s = Some (
    let e = ent_connections (entity s) ! i
    in if connection_id e < 0 then s
       else if el < inactivity_timer e then with_context i (tick_context el) s
       else slot_closed no i s)"
proof -
  let ?e = "ent_connections (entity s) ! i"
  have e: "connection_id ?e \<in> {-1, int i}" "length (ent_connections (entity s)) = 2"
      "ent_interface (entity s) = address_of_it"
    using assms(3,4) by (auto simp: entity_inv_def wf_context_def)
  then show ?thesis
    using assms(4) close_connection_ok [OF assms(1,2,4)]
    by (auto simp: update_connection_timer_def econn_Some econn_update_eq inactivity_timer_def
        tick_context_def with_context_def)
qed

text \<open>The effect of one broadcast of the announcement on the network.\<close>

definition announced :: "'w doip_network_ops_t \<Rightarrow> ('w, 'z) entity_system_scheme \<Rightarrow> 'w \<Rightarrow> 'w" where
  "announced no s w = snd (udp_sendto no (udp_socket (iface s))
     (in_array 64 (frame (announcement (config (entity s))))) 41 ''255.255.255.255'' 13400 w)"

lemma announcement_eq:
  assumes "net_ops (iface s) = Some no" and "entity_inv s"
  shows "update_announcement el s = Some (
    if \<not> announcement_count (entity s) < 3 then s
    else if el < announcement_timer (entity s)
    then s\<lparr>entity := (entity s)\<lparr>announcement_timer := announcement_timer (entity s) - el\<rparr>\<rparr>
    else s\<lparr>net := announced no s (net s),
           entity := (entity s)\<lparr>announcement_timer := 500,
                       announcement_count := announcement_count (entity s) + 1\<rparr>\<rparr>)"
proof -
  let ?s = "s\<lparr>entity := (entity s)\<lparr>announcement_timer := 500\<rparr>\<rparr>"
  obtain r where "doip_entity_send_vehicle_announcement address_of_it ?s =
      Some (r, ?s\<lparr>net := announced no ?s (net ?s)\<rparr>)"
    using announce_ok [of ?s no] assms by (auto simp: entity_inv_def announced_def)
  then show ?thesis
    by (auto simp: update_announcement_def announced_def)
qed

lemma announcement_ok:
  assumes "net_ops (iface s) = Some no" and "entity_inv s"
  shows "\<exists>w e. update_announcement el s = Some (s\<lparr>net := w, entity := e\<rparr>)
    \<and> config e = config (entity s) \<and> ent_interface e = ent_interface (entity s)
    \<and> ent_connections e = ent_connections (entity s)"
proof -
  obtain s' where s': "update_announcement el s = Some s'"
      "s' = s\<lparr>net := net s', entity := entity s'\<rparr>" "config (entity s') = config (entity s)"
      "ent_interface (entity s') = ent_interface (entity s)"
      "ent_connections (entity s') = ent_connections (entity s)"
    using announcement_eq [OF assms, of el] by (auto split: if_splits)
  then show ?thesis by metis
qed

context uds_client
begin

abbreviation ok :: "('w, 'z) entity_system_scheme \<Rightarrow> bool" where
  "ok \<equiv> sys_ok no (\<lambda>s. entity_inv s \<and> app_inv s)"

lemma connection_timer_safe:
  assumes "ok s" and "i < 2"
  shows "\<exists>s'. update_connection_timer el i s = Some s' \<and> ok s'"
proof -
  have wf: "wf_interface (iface s)" "net_ops (iface s) = Some no" "entity_inv s" "app_inv s"
    using assms(1) by (simp_all add: sys_ok_def)
  have "ok (with_context i (tick_context el) s)"
    using wf app_entity [where s = s] assms(2)
    by (auto simp: sys_ok_def with_context_def entity_inv_def nth_list_update wf_context_def)
  moreover have "app_inv (slot_closed no i s)"
    using wf(4) app_iface app_net by (simp add: slot_closed_def Let_def)
  then have "ok (slot_closed no i s)"
    using slot_closed_ok [OF wf(1,2) assms(2)] slot_closed_inv [OF wf(3,1) assms(2)] by (simp add: sys_ok_def)
  ultimately show ?thesis
    using assms(1) by (simp add: connection_timer_ok [OF wf(1-3) assms(2)] Let_def)
qed

lemma update_timers_safe:
  assumes "ok s"
  shows "\<exists>s'. doip_entity_update_timers address_of_it el s = Some s' \<and> ok s'"
proof -
  have wf: "wf_interface (iface s)" "net_ops (iface s) = Some no" "entity_inv s" "app_inv s"
    using assms by (simp_all add: sys_ok_def)
  obtain w e where t: "update_announcement el s = Some (s\<lparr>net := w, entity := e\<rparr>)"
      "config e = config (entity s)" "ent_interface e = ent_interface (entity s)"
      "ent_connections e = ent_connections (entity s)"
    using announcement_ok [OF wf(2,3), of el] by blast
  let ?t = "s\<lparr>net := w, entity := e\<rparr>"
  have "ok ?t"
    using wf t app_net app_entity by (simp add: sys_ok_def entity_inv_def)
  then obtain u where u: "update_connection_timer el 0 ?t = Some u" "ok u"
    using connection_timer_safe [of ?t 0 el] by auto
  then obtain v where "update_connection_timer el 1 u = Some v" "ok v"
    using connection_timer_safe [of u 1 el] by auto
  then show ?thesis
    using t(1) u(1) by (simp add: doip_entity_update_timers_def upt_rec)
qed

lemma entity_process_safe:
  assumes "ok s"
  shows "doip_entity_process address_of_it uds s = never_returns
    \<or> (\<exists>s'. doip_entity_process address_of_it uds s = returns (DOIP_RESULT_OK, s') \<and> ok s')"
  using process_ok [OF assms] assms by (simp add: doip_entity_process_def sys_ok_def entity_inv_def)

end

text \<open>The announcement counter and timer, in cycles of 10 ms, as numbers: the closed form of their
  evolution from the state after the start.\<close>

definition announcement_step :: "nat \<times> nat \<Rightarrow> nat \<times> nat" where
  "announcement_step kt =
     (if fst kt < 3 then if 10 < snd kt then (fst kt, snd kt - 10) else (fst kt + 1, 500) else kt)"

definition announcements_after :: "nat \<Rightarrow> nat" where
  "announcements_after n = min 3 ((n + 49) div 50)"

lemma announcements_after_Suc: "announcements_after (Suc k) = min 3 (Suc (k div 50))"
proof -
  have "(Suc k + 49) div 50 = (k + 50) div 50"
    by simp
  then show ?thesis
    by (simp add: announcements_after_def)
qed

lemma announcement_steps:
  "(announcement_step ^^ Suc k) (0, 0) =
     (announcements_after (Suc k),
      if announcements_after (Suc k) = 3 then 500 else 500 - 10 * (k mod 50))"
proof (induction k)
  case 0
  then show ?case by (simp add: announcements_after_Suc announcement_step_def)
next
  case (Suc k)
  have IH: "(announcement_step ^^ Suc (Suc k)) (0, 0) =
      announcement_step (min 3 (Suc (k div 50)), if min 3 (Suc (k div 50)) = 3 then 500 else 500 - 10 * (k mod 50))"
    using Suc.IH by (simp add: announcements_after_Suc)
  have "k mod 50 < 50" by simp
  then show ?case
    unfolding IH announcements_after_Suc
    by (cases "Suc (k mod 50) = 50"; cases "k div 50 < 2")
      (simp_all add: announcement_step_def div_Suc mod_Suc)
qed

lemma announcement_steps_bounds:
  "fst ((announcement_step ^^ n) (0, 0)) = announcements_after n \<and> snd ((announcement_step ^^ n) (0, 0)) \<le> 500"
  by (cases n) (auto simp: announcement_steps announcements_after_def simp del: funpow.simps(2))

lemma idle_timers:
  assumes "net_ops (iface s) = Some no" and "entity_inv s"
    and "\<forall>e \<in> set (ent_connections (entity s)). connection_id e = -1"
  shows "doip_entity_update_timers address_of_it el s = update_announcement el s"
proof -
  obtain s' where s': "update_announcement el s = Some s'" and c: "ent_connections (entity s') = ent_connections (entity s)"
    using announcement_ok [OF assms(1,2), of el] by auto
  have "update_connection_timer el i s' = Some s'" if "i < 2" for i
    using c assms(2,3) that by (auto simp: entity_inv_def update_connection_timer_def econn_Some)
  then show ?thesis
    using s' by (simp add: doip_entity_update_timers_def upt_rec)
qed

lemma announcements_run:
  assumes "net_ops (iface s) = Some no" and "entity_inv s"
    and "\<forall>e \<in> set (ent_connections (entity s)). connection_id e = -1"
    and "announcement_count (entity s) = 0" and "announcement_timer (entity s) = 0"
  shows "for_each (replicate n 10) (doip_entity_update_timers address_of_it) s =
    Some (s\<lparr>net := (announced no s ^^ fst ((announcement_step ^^ n) (0, 0))) (net s),
            entity := (entity s)\<lparr>announcement_count := of_nat (fst ((announcement_step ^^ n) (0, 0))),
                                 announcement_timer := of_nat (snd ((announcement_step ^^ n) (0, 0)))\<rparr>\<rparr>)"
proof (induction n)
  case 0
  then show ?case using assms by simp
next
  case (Suc n)
  obtain k t where kt: "(announcement_step ^^ n) (0, 0) = (k, t)" by fastforce
  then have k: "k \<le> 3" and t: "t \<le> 500"
    using announcement_steps_bounds [of n] by (auto simp: announcements_after_def)
  let ?s = "s\<lparr>net := (announced no s ^^ k) (net s),
              entity := (entity s)\<lparr>announcement_count := of_nat k, announcement_timer := of_nat t\<rparr>\<rparr>"
  have "entity_inv ?s"
    using assms(2) by (simp add: entity_inv_def)
  then have "doip_entity_update_timers address_of_it 10 ?s = update_announcement 10 ?s"
    using assms(1,3) by (intro idle_timers) simp_all
  moreover have "(of_nat k < (3 :: u32)) = (k < 3)" "((10 :: u32) < of_nat t) = (10 < t)"
    using k t by (simp_all add: word_less_nat_alt unat_of_nat_u32)
  moreover have "announced no ?s = announced no s"
    by (simp add: announced_def fun_eq_iff)
  ultimately have "doip_entity_update_timers address_of_it 10 ?s = Some (
      s\<lparr>net := (announced no s ^^ fst (announcement_step (k, t))) (net s),
        entity := (entity s)\<lparr>announcement_count := of_nat (fst (announcement_step (k, t))),
                             announcement_timer := of_nat (snd (announcement_step (k, t)))\<rparr>\<rparr>)"
    using announcement_eq [of ?s no 10] \<open>entity_inv ?s\<close> assms(1)
    by (simp add: announcement_step_def add.commute)
  then show ?case
    using Suc kt unfolding for_each_replicate_Suc by simp
qed

text \<open>One update of all timers, seen from slot \<open>i\<close>.\<close>

lemma connection_timer_other:
  assumes "wf_interface (iface s)" and "net_ops (iface s) = Some no" and "entity_inv s" and "j < 2" and "i \<noteq> j"
    and "update_connection_timer el j s = Some s'"
  shows "ent_connections (entity s') ! i = ent_connections (entity s) ! i"
    and "connections (iface s') ! i = connections (iface s) ! i"
  using assms(5,6) connection_timer_ok [OF assms(1-4), of el]
  by (auto simp: Let_def with_context_def slot_closed_def split: if_splits)

lemma connection_timer_keeps:
  assumes "wf_interface (iface s)" and "net_ops (iface s) = Some no" and "entity_inv s" and "j < 2"
  shows "\<exists>s'. update_connection_timer el j s = Some s' \<and> wf_interface (iface s')
    \<and> net_ops (iface s') = Some no \<and> entity_inv s'"
proof -
  have "entity_inv (with_context j (tick_context el) s)"
    using assms(3,4) by (auto simp: with_context_def entity_inv_def nth_list_update wf_context_def)
  then show ?thesis
    using assms(1-3) connection_timer_ok [OF assms, of el] slot_closed_ok [OF assms(1,2,4)]
      slot_closed_inv [OF assms(3,1,4)]
    by (auto simp: Let_def with_context_def)
qed

definition slot_ticked ::
    "u32 \<Rightarrow> nat \<Rightarrow> ('w, 'z) entity_system_scheme \<Rightarrow> ('w, 'z) entity_system_scheme \<Rightarrow> bool" where
  "slot_ticked el i s s' \<longleftrightarrow>
     (let e = ent_connections (entity s) ! i; e' = ent_connections (entity s') ! i;
          c = connections (iface s) ! i; c' = connections (iface s') ! i
      in if connection_id e < 0 then e' = e \<and> c' = c
         else if el < inactivity_timer e then e' = tick_context el e \<and> c' = c
         else e' = e \<and> socket_fd c' < 0)"

text \<open>The sockets that one update closes, and what it announces before.\<close>

definition slot_due :: "u32 \<Rightarrow> ('w, 'z) entity_system_scheme \<Rightarrow> nat \<Rightarrow> bool" where
  "slot_due el s i \<longleftrightarrow> connection_id (ent_connections (entity s) ! i) \<ge> 0 \<and>
     \<not> el < inactivity_timer (ent_connections (entity s) ! i) \<and> socket_fd (connections (iface s) ! i) \<ge> 0"

definition due_sockets :: "u32 \<Rightarrow> ('w, 'z) entity_system_scheme \<Rightarrow> int list" where
  "due_sockets el s = map (\<lambda>i. socket_fd (connections (iface s) ! i)) (filter (slot_due el s) [0..<DOIP_MAX_CONNECTIONS])"

definition announce_due :: "'w doip_network_ops_t \<Rightarrow> u32 \<Rightarrow> ('w, 'z) entity_system_scheme \<Rightarrow> 'w" where
  "announce_due no el s =
     (if announcement_count (entity s) < 3 \<and> \<not> el < announcement_timer (entity s) then announced no s (net s) else net s)"

lemma connection_timer_net:
  assumes "wf_interface (iface s)" and "net_ops (iface s) = Some no" and "entity_inv s" and "i < 2"
    and "update_connection_timer el i s = Some s'"
  shows "net s' = (if slot_due el s i then close_socket no (socket_fd (connections (iface s) ! i)) (net s) else net s)"
  using assms(5) connection_timer_ok [OF assms(1-4), of el]
  by (auto simp: slot_due_def slot_closed_def with_context_def Let_def split: if_splits)

lemma update_timers_slot:
  assumes "wf_interface (iface s)" and "net_ops (iface s) = Some no" and "entity_inv s" and "i < 2"
  shows "\<exists>s'. doip_entity_update_timers address_of_it el s = Some s' \<and> wf_interface (iface s')
    \<and> net_ops (iface s') = Some no \<and> entity_inv s' \<and> slot_ticked el i s s'
    \<and> net s' = fold (close_socket no) (due_sockets el s) (announce_due no el s)"
proof -
  obtain w e where t: "update_announcement el s = Some (s\<lparr>net := w, entity := e\<rparr>)"
      "config e = config (entity s)" "ent_interface e = ent_interface (entity s)"
      "ent_connections e = ent_connections (entity s)"
    using announcement_ok [OF assms(2,3), of el] by blast
  let ?t = "s\<lparr>net := w, entity := e\<rparr>"
  have t_ok: "wf_interface (iface ?t)" "net_ops (iface ?t) = Some no" "entity_inv ?t"
    using assms t by (simp_all add: entity_inv_def)
  obtain u where u: "update_connection_timer el 0 ?t = Some u" and u_ok: "wf_interface (iface u)"
      "net_ops (iface u) = Some no" "entity_inv u"
    using connection_timer_keeps [OF t_ok, of 0 el] by auto
  obtain v where v: "update_connection_timer el 1 u = Some v" and v_ok: "wf_interface (iface v)"
      "net_ops (iface v) = Some no" "entity_inv v"
    using connection_timer_keeps [OF u_ok, of 1 el] by auto
  have run: "doip_entity_update_timers address_of_it el s = Some v"
    using t(1) u v by (simp add: doip_entity_update_timers_def upt_rec)
  have "slot_ticked el i s v"
  proof (cases "i = 0")
    case True
    have "ent_connections (entity v) ! 0 = ent_connections (entity u) ! 0"
      "connections (iface v) ! 0 = connections (iface u) ! 0"
      using connection_timer_other [OF u_ok _ _ v, of 0] by simp_all
    then show ?thesis
      using True u connection_timer_ok [OF t_ok, of 0 el] slot_closed_ok(3) [OF t_ok(1,2), of 0] t_ok(3) t(4)
      by (auto simp: slot_ticked_def Let_def with_context_def entity_inv_def split: if_splits)
  next
    case False
    then have i: "i = 1" using assms(4) by simp
    have "ent_connections (entity u) ! 1 = ent_connections e ! 1"
      "connections (iface u) ! 1 = connections (iface s) ! 1"
      using connection_timer_other [OF t_ok _ _ u, of 1] by simp_all
    then show ?thesis
      using i v connection_timer_ok [OF u_ok, of 1 el] slot_closed_ok(3) [OF u_ok(1,2), of 1] u_ok(3) t(4)
      by (auto simp: slot_ticked_def Let_def with_context_def entity_inv_def split: if_splits)
  qed
  moreover have "net v = fold (close_socket no) (due_sockets el s) (announce_due no el s)"
  proof -
    have "Some w = map_option net (update_announcement el s)"
      using t(1) by simp
    also have "\<dots> = Some (announce_due no el s)"
      by (simp add: announcement_eq [OF assms(2,3)] announce_due_def)
    finally have "w = announce_due no el s" by simp
    moreover have "slot_due el ?t j = slot_due el s j" for j
      using t(4) by (simp add: slot_due_def)
    moreover have "slot_due el u 1 = slot_due el s 1" "connections (iface u) ! 1 = connections (iface s) ! 1"
      using connection_timer_other [OF t_ok _ _ u, of 1] t(4) by (simp_all add: slot_due_def)
    ultimately show ?thesis
      using connection_timer_net [OF t_ok _ u] connection_timer_net [OF u_ok _ v] by (simp add: due_sockets_def upt_rec)
  qed
  ultimately show ?thesis
    using run v_ok by blast
qed

lemma timers_count_down:
  assumes "wf_interface (iface s)" and "net_ops (iface s) = Some no" and "entity_inv s" and "i < 2"
    and "connection_id (ent_connections (entity s) ! i) = int i"
    and "n = 0 \<or> n * unat el < unat (inactivity_timer (ent_connections (entity s) ! i))"
  shows "\<exists>s'. for_each (replicate n el) (doip_entity_update_timers address_of_it) s = Some s'
    \<and> wf_interface (iface s') \<and> net_ops (iface s') = Some no \<and> entity_inv s'
    \<and> connection_id (ent_connections (entity s') ! i) = int i
    \<and> connections (iface s') ! i = connections (iface s) ! i
    \<and> unat (inactivity_timer (ent_connections (entity s') ! i))
        = unat (inactivity_timer (ent_connections (entity s) ! i)) - n * unat el"
  using assms(6)
proof (induction n)
  case 0
  then show ?case using assms by simp
next
  case (Suc n)
  then obtain t where t: "for_each (replicate n el) (doip_entity_update_timers address_of_it) s = Some t"
      "wf_interface (iface t)" "net_ops (iface t) = Some no" "entity_inv t"
      "connection_id (ent_connections (entity t) ! i) = int i"
      "connections (iface t) ! i = connections (iface s) ! i"
      "unat (inactivity_timer (ent_connections (entity t) ! i))
        = unat (inactivity_timer (ent_connections (entity s) ! i)) - n * unat el"
    by auto
  obtain u where u: "doip_entity_update_timers address_of_it el t = Some u" "wf_interface (iface u)"
      "net_ops (iface u) = Some no" "entity_inv u" "slot_ticked el i t u"
    using update_timers_slot [OF t(2-4) assms(4)] by blast
  have "el < inactivity_timer (ent_connections (entity t) ! i)"
    using Suc.prems t(7) by (simp add: word_less_nat_alt)
  then have "ent_connections (entity u) ! i = tick_context el (ent_connections (entity t) ! i)"
      "connections (iface u) ! i = connections (iface t) ! i"
    using u(5) t(5) by (simp_all add: slot_ticked_def Let_def)
  then show ?case
    using t u \<open>el < _\<close> unfolding for_each_replicate_Suc by (simp add: unat_sub_word)
qed

section \<open>Responses\<close>

lemma find_target_first:
  assumes "length cs = 2" and "i < 2" and "is_activated (cs ! i)" and "source_address (cs ! i) = a"
    and "\<And>j. j < i \<Longrightarrow> \<not> (is_activated (cs ! j) \<and> source_address (cs ! j) = a)"
  shows "find_target [0..<2] a cs = Some (connection_id (cs ! i))"
  using assms by (cases "i = 0") (auto simp: upt_rec rd_def less_2_cases_iff)

lemma response_ok:
  assumes "wf_interface (iface s)" and "net_ops (iface s) = Some no" and "entity_inv s" and "i < 2"
    and "is_activated (ent_connections (entity s) ! i)" and "source_address (ent_connections (entity s) ! i) = a"
    and "\<And>j. j < i \<Longrightarrow> \<not> (is_activated (ent_connections (entity s) ! j) \<and> source_address (ent_connections (entity s) ! j) = a)"
    and "unat len \<le> length d" and "unat len \<le> 4092"
  shows "\<exists>r. doip_entity_send_diagnostic_response address_of_it a (Some d) len s =
      Some (r, tcp_sent no i (in_array 4104 (frame (DiagMessage (logical_address (config (entity s))) a (take (unat len) d))))
                 (12 + len) s)
    \<and> (r = DOIP_RESULT_NOT_READY \<longleftrightarrow> socket_fd (connections (iface s) ! i) < 0)"
proof -
  let ?la = "logical_address (config (entity s))" and ?d = "take (unat len) d"
  let ?m = "DiagMessage ?la a ?d"
  have "find_target [0..<2] a (ent_connections (entity s)) = Some (int i)"
    using find_target_first [of "ent_connections (entity s)" i a] assms(3-7)
    by (auto simp: entity_inv_def wf_context_def)
  moreover have ld: "length ?d = unat len"
    using assms(8) by simp
  have "unat (12 + len) = 12 + unat len"
    using assms(9) unat_add_no_wrap [of 12 len] by simp
  then have "\<not> 4104 < 12 + len"
    using assms(9) by (simp add: word_less_nat_alt)
  then have enc: "doip_encode_diagnostic_message (Some \<lparr>dm_source_address = ?la, dm_target_address = a,
      user_data_length = len, user_data = Some d\<rparr>) (Some (local_array 4104)) 4104 (Some 0) =
      Some (DOIP_RESULT_OK, Some (in_array 4104 (frame ?m)), Some (12 + len))"
    using assms(8,9) ld
    by (subst doip_encode_diagnostic_message_frame)
      (simp_all add: local_array_def writes_frame_def in_array_def length_frame)
  ultimately show ?thesis
    using interface_tcp_send_ok [OF assms(1,2,4), of "in_array 4104 (frame ?m)" "12 + len"] assms(3) enc
    by (auto simp: doip_entity_send_diagnostic_response_def entity_inv_def)
qed

lemma diagnostic_message_outcome:
  assumes "wf_interface (iface s)" and "net_ops (iface s) = Some no" and "entity_inv s" and "i < 2"
    and "is_activated (ent_connections (entity s) ! i)" and "length ud \<le> 4084"
    and "d = frame (DiagMessage sa ta ud) @ rest" and "length d = 4096"
    and "la = logical_address (config (entity s))"
  shows "entity_tcp_rx_callback (Some uds) (int i) d (of_nat (12 + length ud)) s =
    (if ta = la then do {
       t \<leftarrow> uds sa ta (Some (ud @ rest)) (of_nat (length ud))
              (tcp_sent no i (in_array 32 (frame (DiagAck la sa 0))) 13 s);
       econn_update (int i)
         (\<lambda>e. e\<lparr>general_inactivity_timer := general_inactivity_time (config (entity t))\<rparr>) t }
     else Some (tcp_sent no i (in_array 32 (frame (DiagAck la ta 0x03))) 13 s))"
proof -
  let ?h = "header_2019 0x8001 (of_nat (4 + length ud))"
  have h: "header_of d = ?h" and p: "drop 8 d = be16 sa @ be16 ta @ ud @ rest"
    by (simp_all add: assms(7) frame_def)
  have ad: "diag_source (drop 8 d) = sa" "diag_target (drop 8 d) = ta" "drop 4 (drop 8 d) = ud @ rest"
    unfolding p by (simp_all add: diag_source_def diag_target_def nth_append of_be16_be16 eval_nat_numeral)
  have un: "unat (of_nat (12 + length ud) :: u32) = 12 + length ud" "unat (of_nat (4 + length ud) :: u32) = 4 + length ud"
    using assms(6) by (simp_all only: unat_of_nat_u32)
  have n: "\<not> (of_nat (12 + length ud) :: u32) < 8" and pl: "\<not> payload_length ?h < 4"
      and v: "doip_validate_header (Some ?h)" and ty: "payload_type ?h = 0x8001"
    using un assms(6) unfolding header_2019_def doip_validate_header_def word_less_nat_alt
    by (simp_all del: of_nat_add)
  have "ent_interface (entity s) = address_of_it" "length (ent_connections (entity s)) = 2"
    using assms(3) by (simp_all add: entity_inv_def)
  moreover have "4 \<le> length (drop 8 d)" "8 \<le> length d"
    using assms(8) by simp_all
  moreover have "payload_length ?h - 4 = of_nat (length ud)"
    by (simp add: header_2019_def)
  ultimately show ?thesis
    using diagnostic_message_ok [OF assms(1,2,4), of "drop 8 d" la "Some uds" "payload_length ?h"]
      assms(5,9) n pl v ty
    by (simp only: tcp_rx_dispatch h ad call_uds_def option.case simp_thms if_True if_False) auto
qed

lemma routing_activation_outcome:
  assumes "wf_interface (iface s)" and "net_ops (iface s) = Some no" and "entity_inv s" and "i < 2"
    and "d = frame (RoutingActivationReq sa at res oem) @ rest" and "length d = 4096"
  shows "entity_tcp_rx_callback uds (int i) d 19 s =
    Some (tcp_sent no i (in_array 32 (frame (RoutingActivationRes sa (logical_address (config (entity s)))
                          (if tester_address sa then 0x10 else 0) 0 0))) 21
           (if tester_address sa then activate i sa s else s))"
proof -
  have h: "header_of d = header_2019 0x0005 11" and p: "drop 8 d = be16 sa @ [at] @ be32 res @ be32 oem @ rest"
    by (simp_all add: assms(5) frame_def)
  have "of_be16 (drop 8 d ! 0) (drop 8 d ! 1) = sa"
    by (simp add: p nth_append of_be16_be16)
  moreover have "ent_interface (entity s) = address_of_it" "length (ent_connections (entity s)) = 2"
    using assms(3) by (simp_all add: entity_inv_def)
  moreover have "doip_validate_header (Some (header_2019 0x0005 11))" "payload_type (header_2019 0x0005 11) = 0x0005"
    by (simp_all add: doip_validate_header_def header_2019_def)
  ultimately show ?thesis
    using routing_activation_ok [OF assms(1,2,4), of "drop 8 d" sa "payload_length (header_of d)"] assms(6)
    by (simp add: tcp_rx_dispatch h)
qed

lemma identification_outcome:
  assumes "net_ops (iface s) = Some no" and "entity_inv s" and "length d = 4096" and "\<not> n < 8"
    and "doip_validate_header (Some (header_of d))"
  shows "entity_udp_rx_callback ip port d n s =
    Some (if addressed (config (entity s)) (payload_type (header_of d)) (drop 8 d) (payload_length (header_of d))
          then s\<lparr>net := snd (udp_sendto no (udp_socket (iface s))
                 (in_array 64 (frame (announcement (config (entity s))))) 41 ip port (net s))\<rparr>
          else s)"
proof -
  have "ent_interface (entity s) = address_of_it" "wf_config (config (entity s))"
    using assms(2) by (simp_all add: entity_inv_def)
  then have "handle_vehicle_id_request ip port (payload_type (header_of d)) (drop 8 d) (payload_length (header_of d)) s =
    Some (if addressed (config (entity s)) (payload_type (header_of d)) (drop 8 d) (payload_length (header_of d))
          then s\<lparr>net := snd (udp_sendto no (udp_socket (iface s))
                 (in_array 64 (frame (announcement (config (entity s))))) 41 ip port (net s))\<rparr>
          else s)"
    using vehicle_id_request_ok [OF assms(1)] assms(3) by simp
  moreover have "\<not> addressed (config (entity s)) t p l" if "t \<notin> {1, 2, 3}" for t p l
    using that by (auto simp: addressed_def)
  ultimately show ?thesis
    using assms(3-5) by (simp add: udp_rx_dispatch)
qed

section \<open>Properties\<close>

text \<open>A network that records what is sent and which sockets are closed, and an entity with one open
  connection, for the witnesses.\<close>

datatype net_event = UdpSent string u16 bytes | TcpSent int bytes | SocketClosed int

definition log_ops :: "net_event list doip_network_ops_t" where
  "log_ops =
     \<lparr>udp_bind = \<lambda>_ w. (1, w),
      udp_sendto = \<lambda>_ d n ip port w. (0, w @ [UdpSent ip port (take (unat n) d)]),
      udp_recvfrom = \<lambda>_ _ w. ((-1, [], '''', 0), w), tcp_listen = \<lambda>_ w. (2, w),
      tcp_accept = \<lambda>_ w. (-1, w), tcp_connect = \<lambda>_ _ w. (-1, w),
      tcp_send = \<lambda>fd d n w. (0, w @ [TcpSent fd (take (unat n) d)]),
      tcp_recv = \<lambda>_ _ w. ((-1, []), w), close_socket = \<lambda>fd w. w @ [SocketClosed fd],
      socket_select = NULL\<rparr>"

interpretation recording: network log_ops
  by unfold_locales (auto simp: log_ops_def)

definition sample_config :: doip_entity_config_t where
  "sample_config = \<lparr>cfg_vin = replicate 17 0x57, cfg_eid = replicate 6 1, cfg_gid = replicate 6 2,
     logical_address = 0x1000, general_inactivity_time = 300000, initial_inactivity_time = 2000,
     alive_check_time = 500, max_tester_connections = 2\<rparr>"

definition context_of :: "int \<Rightarrow> bool \<Rightarrow> u16 \<Rightarrow> doip_entity_connection_t" where
  "context_of k active addr = \<lparr>connection_id = k, source_address = addr, is_activated = active,
     initial_inactivity_timer = 20, general_inactivity_timer = 30, alive_check_timer = 0,
     alive_check_pending = False\<rparr>"

definition sample_system ::
    "doip_tcp_connection_t list \<Rightarrow> doip_entity_connection_t list \<Rightarrow> net_event list entity_system" where
  "sample_system cs es =
     \<lparr>iface = \<lparr>net_ops = Some log_ops, udp_socket = 1, tcp_listen_socket = 2, connections = cs,
               udp_rx_buffer = replicate 4096 0\<rparr>,
      net = [],
      entity = \<lparr>config = sample_config, ent_interface = address_of_it, ent_connections = es,
                announcement_count = 0, announcement_timer = 0\<rparr>\<rparr>"

text \<open>A diagnostic layer that notes the request it gets.\<close>

definition note_request :: "net_event list entity_system uds_rx_callback" where
  "note_request sa ta d n s =
     (case d of None \<Rightarrow> Some s | Some b \<Rightarrow> Some (s\<lparr>net := net s @ [UdpSent '''' sa (take (unat n) b)]\<rparr>))"

lemma sample_system_wf [simp]:
  "wf_interface (iface (sample_system [open_connection [], closed_connection] es))"
  "wf_interface (iface (sample_system [closed_connection, open_connection []] es))"
  "wf_interface (iface (sample_system [closed_connection, closed_connection] es))"
  by (simp_all add: wf_interface_def sample_system_def)
    (simp_all add: closed_connection_def wf_slot_def wf_conn_def)

lemma sample_system_ops [simp]: "net_ops (iface (sample_system cs es)) = Some log_ops"
  by (simp add: sample_system_def)

lemma sample_system_inv:
  "entity_inv (sample_system [c0, c1] [e0, e1]) \<longleftrightarrow> wf_context 0 (socket_fd c0) e0 \<and> wf_context 1 (socket_fd c1) e1"
  by (auto simp: entity_inv_def sample_system_def wf_config_def sample_config_def less_2_cases_iff)

lemma sample_selectors [simp]:
  "socket_fd (open_connection bs) = 3" "socket_fd closed_connection = -1"
  "connection_id (context_of k a x) = k" "is_activated (context_of k a x) = a"
  "source_address (context_of k a x) = x" "initial_inactivity_timer (context_of k a x) = 20"
  "general_inactivity_timer (context_of k a x) = 30"
  "ent_connections (entity (sample_system cs es)) = es" "connections (iface (sample_system cs es)) = cs"
  "logical_address (config (entity (sample_system cs es))) = 0x1000"
  by (simp_all add: open_connection_def closed_connection_def context_of_def sample_system_def sample_config_def)

lemmas sample_defs = sample_system_def sample_config_def context_of_def open_connection_def
  closed_connection_def log_ops_def

text \<open>C7. Routing activation: a well-formed request on an open connection is answered with a routing
  activation response that repeats the tester address and carries the entity's address, with code
  \<open>0x10\<close> for an address in \<open>0x0E00..0x0FFF\<close> and \<open>0x00\<close> otherwise; exactly in the first case the
  connection is activated for that address and its inactivity timer is loaded. Nothing else changes.\<close>

theorem routing_activation_effect:
  assumes "wf_interface (iface s)" and "net_ops (iface s) = Some no" and "entity_inv s" and "i < 2"
    and "d = frame (RoutingActivationReq sa at res oem) @ rest" and "length d = 4096"
  shows "entity_tcp_rx_callback uds (int i) d 19 s =
    Some (tcp_sent no i (in_array 32 (frame (RoutingActivationRes sa (logical_address (config (entity s)))
                          (if tester_address sa then 0x10 else 0) 0 0))) 21
           (if tester_address sa then activate i sa s else s))"
  by (rule routing_activation_outcome [OF assms])

theorem routing_activation_effect_witness:
  "\<exists>s'. entity_tcp_rx_callback NULL 0 (in_array 4096 (frame (RoutingActivationReq 0x0E80 0 0 0))) 19
      (sample_system [open_connection [], closed_connection] [context_of 0 False 0, context_of (-1) False 0]) = Some s'
    \<and> net s' = [TcpSent 3 (frame (RoutingActivationRes 0x0E80 0x1000 0x10 0 0))]
    \<and> is_activated (ent_connections (entity s') ! 0)"
proof -
  let ?s = "sample_system [open_connection [], closed_connection] [context_of 0 False 0, context_of (-1) False 0]"
  have "entity_tcp_rx_callback NULL (int 0) (in_array 4096 (frame (RoutingActivationReq 0x0E80 0 0 0))) 19 ?s =
    Some (tcp_sent log_ops 0 (in_array 32 (frame (RoutingActivationRes 0x0E80 (logical_address (config (entity ?s)))
                          (if tester_address 0x0E80 then 0x10 else 0) 0 0))) 21
           (if tester_address 0x0E80 then activate 0 0x0E80 ?s else ?s))"
    by (rule routing_activation_effect)
      (simp_all add: sample_system_inv wf_context_def in_array_def length_frame)
  then show ?thesis
    by (simp add: tester_address_def tcp_sent_def activate_def in_array_def length_frame sample_defs)
qed

text \<open>C8. Diagnostics need routing activation: on a connection that is not activated, every diagnostic
  message, whatever its content, is answered with the negative acknowledgement \<open>0x02\<close> (invalid source
  address); the diagnostic layer is not called and neither the entity nor the interface changes.\<close>

theorem diagnostics_need_activation:
  assumes "wf_interface (iface s)" and "net_ops (iface s) = Some no" and "entity_inv s" and "i < 2"
    and "\<not> is_activated (ent_connections (entity s) ! i)"
    and "length d = 4096" and "\<not> n < 8" and "doip_validate_header (Some (header_of d))"
    and "payload_type (header_of d) = 0x8001"
  shows "entity_tcp_rx_callback uds (int i) d n s =
    Some (tcp_sent no i (in_array 32 (frame (DiagAck (logical_address (config (entity s))) 0 0x02))) 13 s)"
proof -
  have "ent_interface (entity s) = address_of_it" "length (ent_connections (entity s)) = 2"
    using assms(3) by (simp_all add: entity_inv_def)
  then show ?thesis
    using diagnostic_message_ok [OF assms(1,2,4), of "drop 8 d" _ uds "payload_length (header_of d)"] assms(5-9)
    by (simp add: tcp_rx_dispatch)
qed

theorem diagnostics_need_activation_witness:
  "\<exists>s'. entity_tcp_rx_callback (Some (\<lambda>_ _ _ _ _. undefined_behaviour)) 0
        (in_array 4096 (frame (DiagMessage 0x0E80 0x1000 [0x10, 0x02]))) 14
        (sample_system [open_connection [], closed_connection] [context_of 0 False 0, context_of (-1) False 0]) = Some s'
    \<and> net s' = [TcpSent 3 (frame (DiagAck 0x1000 0 0x02))]"
proof -
  let ?s = "sample_system [open_connection [], closed_connection] [context_of 0 False 0, context_of (-1) False 0]"
  let ?d = "in_array 4096 (frame (DiagMessage 0x0E80 0x1000 [0x10, 0x02]))"
  have h: "header_of ?d = header_2019 0x8001 6"
    by (simp add: in_array_def frame_def)
  have "entity_tcp_rx_callback (Some (\<lambda>_ _ _ _ _. undefined_behaviour)) (int 0) ?d 14 ?s =
    Some (tcp_sent log_ops 0 (in_array 32 (frame (DiagAck (logical_address (config (entity ?s))) 0 0x02))) 13 ?s)"
    by (rule diagnostics_need_activation)
      (simp_all add: sample_system_inv wf_context_def h doip_validate_header_def header_2019_def,
        simp add: in_array_def length_frame)
  then show ?thesis
    by (simp add: tcp_sent_def in_array_def length_frame sample_defs)
qed

text \<open>C9. A diagnostic message on an activated connection, addressed to the entity, is acknowledged
  with code \<open>0x00\<close> to the source address it carries, then the diagnostic layer is called exactly once,
  with the addresses and the user data of the message, and after it has returned the connection's
  inactivity timer is reloaded. The source address is not compared with the address the connection
  was activated for. A message to another target gets the negative acknowledgement \<open>0x03\<close>, which
  carries that target address, and is not forwarded.\<close>

theorem diagnostic_message_handling:
  assumes "wf_interface (iface s)" and "net_ops (iface s) = Some no" and "entity_inv s" and "i < 2"
    and "is_activated (ent_connections (entity s) ! i)" and "length ud \<le> 4084"
    and "d = frame (DiagMessage sa ta ud) @ rest" and "length d = 4096"
    and "la = logical_address (config (entity s))"
  shows "entity_tcp_rx_callback (Some uds) (int i) d (of_nat (12 + length ud)) s =
    (if ta = la then do {
       t \<leftarrow> uds sa ta (Some (ud @ rest)) (of_nat (length ud))
              (tcp_sent no i (in_array 32 (frame (DiagAck la sa 0))) 13 s);
       econn_update (int i)
         (\<lambda>e. e\<lparr>general_inactivity_timer := general_inactivity_time (config (entity t))\<rparr>) t }
     else Some (tcp_sent no i (in_array 32 (frame (DiagAck la ta 0x03))) 13 s))"
  by (rule diagnostic_message_outcome [OF assms])

theorem diagnostic_message_handling_witness:
  "\<exists>s'. entity_tcp_rx_callback (Some note_request) 0
        (in_array 4096 (frame (DiagMessage 0x0E90 0x1000 [0x10, 0x02]))) 14
        (sample_system [open_connection [], closed_connection] [context_of 0 True 0x0E80, context_of (-1) False 0]) = Some s'
    \<and> net s' = [TcpSent 3 (frame (DiagAck 0x1000 0x0E90 0)), UdpSent '''' 0x0E90 [0x10, 0x02]]
    \<and> general_inactivity_timer (ent_connections (entity s') ! 0) = 300000"
proof -
  let ?s = "sample_system [open_connection [], closed_connection] [context_of 0 True 0x0E80, context_of (-1) False 0]"
  let ?m = "DiagMessage 0x0E90 0x1000 [0x10, 0x02]"
  let ?r = "replicate 4082 0"
  have n: "of_nat (12 + length [0x10, 0x02 :: u8]) = (14 :: u32)" "int 0 = 0"
    by simp_all
  have run: "entity_tcp_rx_callback (Some note_request) (int 0) (in_array 4096 (frame ?m)) (of_nat (12 + length [0x10, 0x02 :: u8])) ?s =
    (if 0x1000 = (0x1000 :: u16) then do {
       t \<leftarrow> note_request 0x0E90 0x1000 (Some ([0x10, 0x02] @ ?r)) (of_nat (length [0x10, 0x02 :: u8]))
              (tcp_sent log_ops 0 (in_array 32 (frame (DiagAck 0x1000 0x0E90 0))) 13 ?s);
       econn_update (int 0)
         (\<lambda>e. e\<lparr>general_inactivity_timer := general_inactivity_time (config (entity t))\<rparr>) t }
     else Some (tcp_sent log_ops 0 (in_array 32 (frame (DiagAck 0x1000 0x1000 0x03))) 13 ?s))"
    by (rule diagnostic_message_handling)
      (simp_all add: sample_system_inv wf_context_def tester_address_def in_array_def length_frame)
  show ?thesis
    unfolding run [unfolded n]
    by (simp add: note_request_def tcp_sent_def in_array_def length_frame)
      (simp add: sample_defs econn_update_def upd_at_def idx_def length_frame)
qed

text \<open>Announcements: after the start of the entity, with no connection and the task's cycle of 10 ms,
  the announcement has been broadcast \<open>min 3 ((n + 49) div 50)\<close> times after \<open>n\<close> cycles: at once, after
  500 ms, after 1000 ms, and never again.\<close>

lemma announcement_schedule:
  assumes "net_ops (iface s) = Some no" and "entity_inv s"
    and "\<forall>e \<in> set (ent_connections (entity s)). connection_id e = -1"
    and "announcement_count (entity s) = 0" and "announcement_timer (entity s) = 0"
  shows "\<exists>s'. for_each (replicate n 10) (doip_entity_update_timers address_of_it) s = Some s'
    \<and> net s' = (announced no s ^^ min 3 ((n + 49) div 50)) (net s)
    \<and> unat (announcement_count (entity s')) = min 3 ((n + 49) div 50)
    \<and> iface s' = iface s \<and> ent_connections (entity s') = ent_connections (entity s)"
  using announcements_run [OF assms, of n] announcement_steps_bounds [of n]
  by (simp add: announcements_after_def unat_of_nat_u32)

text \<open>C10. An idle connection is closed on time: with timer updates of \<open>el\<close> milliseconds, the slot of a
  tracked connection is untouched for as long as the elapsed time is below its inactivity timer
  (the initial one before activation, the general one after). In the update that reaches it the network closes its socket, if it has
  one, together with the sockets of the other connections whose time has come and after the announcement that may be due, and
  nothing else happens on the network; the slot has no socket afterwards.\<close>

theorem idle_connection_closed:
  assumes "wf_interface (iface s)" and "net_ops (iface s) = Some no" and "entity_inv s" and "i < 2"
    and "connection_id (ent_connections (entity s) ! i) = int i"
    and "T = unat (inactivity_timer (ent_connections (entity s) ! i))"
    and "n = 0 \<or> n * unat el < T" and "T \<le> Suc n * unat el"
  shows "\<exists>s' s''. for_each (replicate n el) (doip_entity_update_timers address_of_it) s = Some s'
    \<and> connections (iface s') ! i = connections (iface s) ! i
    \<and> for_each (replicate (Suc n) el) (doip_entity_update_timers address_of_it) s = Some s''
    \<and> net s'' = fold (close_socket no) (due_sockets el s') (announce_due no el s')
    \<and> (socket_fd (connections (iface s) ! i) \<ge> 0 \<longrightarrow> socket_fd (connections (iface s) ! i) \<in> set (due_sockets el s'))
    \<and> socket_fd (connections (iface s'') ! i) < 0"
proof -
  obtain t where t: "for_each (replicate n el) (doip_entity_update_timers address_of_it) s = Some t"
      "wf_interface (iface t)" "net_ops (iface t) = Some no" "entity_inv t"
      "connection_id (ent_connections (entity t) ! i) = int i"
      "connections (iface t) ! i = connections (iface s) ! i"
      "unat (inactivity_timer (ent_connections (entity t) ! i)) = T - n * unat el"
    using timers_count_down [OF assms(1-5), of n el] assms(6,7) by blast
  obtain u where u: "doip_entity_update_timers address_of_it el t = Some u" "slot_ticked el i t u"
      "net u = fold (close_socket no) (due_sockets el t) (announce_due no el t)"
    using update_timers_slot [OF t(2-4) assms(4)] by blast
  have late: "\<not> el < inactivity_timer (ent_connections (entity t) ! i)"
    using t(7) assms(8) by (simp add: word_less_nat_alt)
  then have "socket_fd (connections (iface u) ! i) < 0"
    using u(2) t(5) by (simp add: slot_ticked_def Let_def)
  moreover have "socket_fd (connections (iface s) ! i) \<in> set (due_sockets el t)" if "socket_fd (connections (iface s) ! i) \<ge> 0"
    using that late t(5,6) assms(4) by (auto simp: due_sockets_def slot_due_def intro!: image_eqI [of _ _ i])
  moreover have "for_each (replicate (Suc n) el) (doip_entity_update_timers address_of_it) s = Some u"
    unfolding for_each_replicate_Suc using t(1) u(1) by simp
  ultimately show ?thesis
    using t(1,6) u(3) by blast
qed

lemma log_closes: "fold (close_socket log_ops) fds w = w @ map SocketClosed fds"
  by (induction fds arbitrary: w) (simp_all add: log_ops_def)

theorem idle_connection_closed_witness:
  "\<exists>s' s''. for_each (replicate 1 10) (doip_entity_update_timers address_of_it)
        (sample_system [open_connection [], closed_connection] [context_of 0 False 0, context_of (-1) False 0]) = Some s'
    \<and> connections (iface s') ! 0 = open_connection []
    \<and> for_each (replicate (Suc 1) 10) (doip_entity_update_timers address_of_it)
        (sample_system [open_connection [], closed_connection] [context_of 0 False 0, context_of (-1) False 0]) = Some s''
    \<and> SocketClosed 3 \<in> set (net s'') \<and> socket_fd (connections (iface s'') ! 0) < 0"
proof -
  let ?s = "sample_system [open_connection [], closed_connection] [context_of 0 False 0, context_of (-1) False 0]"
  have "socket_fd (open_connection []) = 3" by (simp add: open_connection_def)
  then show ?thesis
    using idle_connection_closed [of ?s log_ops 0 20 1 10]
    by (auto simp: log_closes sample_system_inv wf_context_def inactivity_timer_def simp del: replicate.simps)
qed

text \<open>A diagnostic response reaches the tester it is for: it is sent, as one diagnostic message
  from the entity's address with exactly the response bytes, on the connection of the first
  context that is activated for the target address. The call reports \<open>DOIP_RESULT_NOT_READY\<close> exactly
  when that connection has no socket.\<close>

lemma diagnostic_response_routed:
  assumes "wf_interface (iface s)" and "net_ops (iface s) = Some no" and "entity_inv s" and "i < 2"
    and "is_activated (ent_connections (entity s) ! i)" and "source_address (ent_connections (entity s) ! i) = a"
    and "\<And>j. j < i \<Longrightarrow> \<not> (is_activated (ent_connections (entity s) ! j) \<and> source_address (ent_connections (entity s) ! j) = a)"
    and "unat len \<le> length d" and "unat len \<le> 4092"
  shows "\<exists>r. doip_entity_send_diagnostic_response address_of_it a (Some d) len s =
      Some (r, tcp_sent no i (in_array 4104 (frame (DiagMessage (logical_address (config (entity s))) a (take (unat len) d))))
                 (12 + len) s)
    \<and> (r = DOIP_RESULT_NOT_READY \<longleftrightarrow> socket_fd (connections (iface s) ! i) < 0)"
  by (rule response_ok [OF assms])

text \<open>C11. A connection closed by its inactivity timer keeps its activated context: a tester that
  reconnects in the other slot and activates the same address gets no responses, because they are
  routed to the first, dead slot. Nothing is sent and the caller sees \<open>DOIP_RESULT_NOT_READY\<close>.\<close>

theorem stale_context_swallows_response:
  assumes "wf_interface (iface s)" and "net_ops (iface s) = Some no" and "entity_inv s"
    and "is_activated (ent_connections (entity s) ! 0)" and "source_address (ent_connections (entity s) ! 0) = a"
    and "inactivity_timer (ent_connections (entity s) ! 0) \<le> el"
    and "is_activated (ent_connections (entity s) ! 1)" and "source_address (ent_connections (entity s) ! 1) = a"
    and "socket_fd (connections (iface s) ! 1) \<ge> 0"
    and "el < inactivity_timer (ent_connections (entity s) ! 1)"
    and "unat len \<le> length d" and "unat len \<le> 4092"
  shows "\<exists>s'. doip_entity_update_timers address_of_it el s = Some s'
    \<and> is_activated (ent_connections (entity s') ! 1) \<and> connections (iface s') ! 1 = connections (iface s) ! 1
    \<and> doip_entity_send_diagnostic_response address_of_it a (Some d) len s' = Some (DOIP_RESULT_NOT_READY, s')"
proof -
  obtain s' where s': "doip_entity_update_timers address_of_it el s = Some s'" "wf_interface (iface s')"
      "net_ops (iface s') = Some no" "entity_inv s'" "slot_ticked el 0 s s'"
    using update_timers_slot [OF assms(1-3), of 0 el] by auto
  have t1: "slot_ticked el 1 s s'"
    using update_timers_slot [OF assms(1-3), of 1 el] s'(1) by auto
  have "connection_id (ent_connections (entity s) ! 0) = 0" "connection_id (ent_connections (entity s) ! 1) = 1"
    using assms(3,4,7) by (auto simp: entity_inv_def wf_context_def)
  then have "ent_connections (entity s') ! 0 = ent_connections (entity s) ! 0" "socket_fd (connections (iface s') ! 0) < 0"
      "ent_connections (entity s') ! 1 = tick_context el (ent_connections (entity s) ! 1)"
      "connections (iface s') ! 1 = connections (iface s) ! 1"
    using s'(5) t1 assms(6,10) by (auto simp: slot_ticked_def Let_def)
  moreover from this obtain r where
      "doip_entity_send_diagnostic_response address_of_it a (Some d) len s' = Some (r,
         tcp_sent no 0 (in_array 4104 (frame (DiagMessage (logical_address (config (entity s'))) a (take (unat len) d)))) (12 + len) s')"
      "r = DOIP_RESULT_NOT_READY"
    using response_ok [OF s'(2-4), of 0 a len d] assms(4,5,11,12) by auto
  ultimately show ?thesis
    using s'(1) assms(7) by (simp add: tcp_sent_def)
qed

theorem stale_context_swallows_response_witness:
  "\<exists>s'. doip_entity_update_timers address_of_it 30
        (sample_system [closed_connection, open_connection []]
           [context_of 0 True 0x0E80, (context_of 1 True 0x0E80)\<lparr>general_inactivity_timer := 300000\<rparr>]) = Some s'
    \<and> is_activated (ent_connections (entity s') ! 1) \<and> connections (iface s') ! 1 = open_connection []
    \<and> doip_entity_send_diagnostic_response address_of_it 0x0E80 (Some [0x50, 0x02]) 2 s' = Some (DOIP_RESULT_NOT_READY, s')"
  using stale_context_swallows_response [of "sample_system [closed_connection, open_connection []]
      [context_of 0 True 0x0E80, (context_of 1 True 0x0E80)\<lparr>general_inactivity_timer := 300000\<rparr>]"
      log_ops "0x0E80" 30 2 "[0x50, 0x02]"]
  by (simp add: sample_system_inv wf_context_def tester_address_def inactivity_timer_def)

text \<open>A routing activation request is not required to contain an address: with an empty payload
  (length field zero, message size eight) the connection is activated for whatever address the bytes
  behind the message, left over in the receive buffer, happen to spell.\<close>

lemma routing_activation_reads_stale_bytes:
  assumes "wf_interface (iface s)" and "net_ops (iface s) = Some no" and "entity_inv s" and "i < 2"
    and "d = header_bytes (header_2019 0x0005 0) @ be16 sa @ rest" and "length d = 4096" and "tester_address sa"
  shows "\<exists>s'. entity_tcp_rx_callback uds (int i) d 8 s = Some s'
    \<and> is_activated (ent_connections (entity s') ! i) \<and> source_address (ent_connections (entity s') ! i) = sa"
proof -
  have h: "header_of d = header_2019 0x0005 0" and p: "drop 8 d = be16 sa @ rest"
    by (simp_all add: assms(5))
  have "of_be16 (drop 8 d ! 0) (drop 8 d ! 1) = sa"
    by (simp add: p nth_append of_be16_be16)
  moreover have ent: "ent_interface (entity s) = address_of_it" "length (ent_connections (entity s)) = 2"
    using assms(3) by (simp_all add: entity_inv_def)
  moreover have "doip_validate_header (Some (header_2019 0x0005 0))" "payload_type (header_2019 0x0005 0) = 0x0005"
    by (simp_all add: doip_validate_header_def header_2019_def)
  ultimately show ?thesis
    using routing_activation_ok [OF assms(1,2,4), of "drop 8 d" sa "payload_length (header_of d)"] assms(4,6,7)
    by (simp add: tcp_rx_dispatch h) (simp add: activate_def)
qed

text \<open>Vehicle identification: a valid identification request is answered, with one datagram to its
  sender that contains the announcement of this entity, exactly when it is unconditional or names
  this entity's VIN or EID. Everything else is ignored. The number of bytes the datagram really had
  plays no role beyond the eight of the header: the length field of the header is trusted.\<close>

lemma vehicle_identification_answered:
  assumes "net_ops (iface s) = Some no" and "entity_inv s" and "length d = 4096" and "\<not> n < 8"
    and "doip_validate_header (Some (header_of d))"
  shows "entity_udp_rx_callback ip port d n s =
    Some (if addressed (config (entity s)) (payload_type (header_of d)) (drop 8 d) (payload_length (header_of d))
          then s\<lparr>net := snd (udp_sendto no (udp_socket (iface s))
                 (in_array 64 (frame (announcement (config (entity s))))) 41 ip port (net s))\<rparr>
          else s)"
  by (rule identification_outcome [OF assms])

end
