(* ===== verification/UDS_Services.thy ===== *)
theory UDS_Services
  imports Prelude
begin

text \<open>
  The diagnostic services of \<^verbatim>\<open>src/uds/uds_services.h\<close> and \<^verbatim>\<open>src/uds/uds_services.c\<close>: the context,
  one definition per handler and the dispatcher \<open>uds_process_request\<close>. A request's \<open>data\<close> is the
  list of the bytes from the pointer to the end of the array it points into, and its \<open>length\<close> is
  the value of the C field, which need not agree with the list.

  The abstract side (\<open>uds_answer\<close>) gives the context and the response bytes for a request as
  ISO 14229 writes it: a service identifier and its parameter bytes.
\<close>

section \<open>Data\<close>

record uds_request_t =
  req_sid :: u8
  req_data :: bytes
  req_length :: u32

record uds_response_t =
  resp_buffer :: bytes
  max_length :: u32
  actual_length :: u32

record uds_context_t =
  current_session :: u8
  security_level :: u8
  security_unlocked :: bool
  seed :: u32
  failed_security_attempts :: u8
  last_tester_present_time :: u32

abbreviation (input) "UDS_SID_DIAGNOSTIC_SESSION_CONTROL \<equiv> (0x10 :: u8)"
abbreviation (input) "UDS_SID_ECU_RESET \<equiv> (0x11 :: u8)"
abbreviation (input) "UDS_SID_SECURITY_ACCESS \<equiv> (0x27 :: u8)"
abbreviation (input) "UDS_SID_TESTER_PRESENT \<equiv> (0x3E :: u8)"
abbreviation (input) "UDS_SID_READ_DATA_BY_IDENTIFIER \<equiv> (0x22 :: u8)"
abbreviation (input) "UDS_POSITIVE_RESPONSE_OFFSET \<equiv> (0x40 :: u8)"
abbreviation (input) "UDS_NRC_SERVICE_NOT_SUPPORTED \<equiv> (0x11 :: u8)"
abbreviation (input) "UDS_NRC_SUB_FUNCTION_NOT_SUPPORTED \<equiv> (0x12 :: u8)"
abbreviation (input) "UDS_NRC_INCORRECT_MESSAGE_LENGTH \<equiv> (0x13 :: u8)"
abbreviation (input) "UDS_NRC_REQUEST_OUT_OF_RANGE \<equiv> (0x31 :: u8)"
abbreviation (input) "UDS_NRC_SECURITY_ACCESS_DENIED \<equiv> (0x33 :: u8)"
abbreviation (input) "UDS_NRC_INVALID_KEY \<equiv> (0x35 :: u8)"
abbreviation (input) "UDS_NRC_EXCEEDED_NUMBER_OF_ATTEMPTS \<equiv> (0x36 :: u8)"
abbreviation (input) "UDS_SESSION_DEFAULT \<equiv> (0x01 :: u8)"
abbreviation (input) "UDS_SESSION_PROGRAMMING \<equiv> (0x02 :: u8)"
abbreviation (input) "UDS_SESSION_EXTENDED \<equiv> (0x03 :: u8)"
abbreviation (input) "UDS_RESET_HARD \<equiv> (0x01 :: u8)"
abbreviation (input) "UDS_RESET_KEY_OFF_ON \<equiv> (0x02 :: u8)"
abbreviation (input) "UDS_RESET_SOFT \<equiv> (0x03 :: u8)"
abbreviation (input) "UDS_SECURITY_REQUEST_SEED_LEVEL_1 \<equiv> (0x01 :: u8)"
abbreviation (input) "UDS_SECURITY_SEND_KEY_LEVEL_1 \<equiv> (0x02 :: u8)"
abbreviation (input) "UDS_DID_VIN \<equiv> (0xF190 :: u16)"
abbreviation (input) "UDS_DID_ECU_SERIAL_NUMBER \<equiv> (0xF18C :: u16)"
abbreviation (input) "UDS_DID_ECU_SOFTWARE_NUMBER \<equiv> (0xF194 :: u16)"

section \<open>Operations\<close>

definition uds_init :: "uds_context_t ptr \<Rightarrow> uds_context_t ptr" where
  "uds_init context =
     map_option (\<lambda>c. c\<lparr>current_session := UDS_SESSION_DEFAULT, security_level := 0,
       security_unlocked := False, seed := 0, failed_security_attempts := 0,
       last_tester_present_time := 0\<rparr>) context"

definition uds_send_negative_response ::
    "u8 \<Rightarrow> u8 \<Rightarrow> uds_response_t ptr \<Rightarrow> uds_response_t ptr exec" where
  "uds_send_negative_response sid nrc response =
     (case response of
        None \<Rightarrow> Some response
      | Some r \<Rightarrow>
          if max_length r \<ge> 3 then do {
            b \<leftarrow> wr (resp_buffer r) 0 0x7F;
            b \<leftarrow> wr b 1 sid;
            b \<leftarrow> wr b 2 nrc;
            Some (Some (r\<lparr>resp_buffer := b, actual_length := 3\<rparr>))
          } else Some response)"

text \<open>\<open>data\<close> may be null; then only the service identifier is written.\<close>

definition uds_send_positive_response ::
    "u8 \<Rightarrow> bytes ptr \<Rightarrow> u32 \<Rightarrow> uds_response_t ptr \<Rightarrow> uds_response_t ptr exec" where
  "uds_send_positive_response sid data len response =
     (case response of
        None \<Rightarrow> Some response
      | Some r \<Rightarrow>
          let total_length = 1 + len in
          if max_length r \<ge> total_length then do {
            b \<leftarrow> wr (resp_buffer r) 0 (sid + UDS_POSITIVE_RESPONSE_OFFSET);
            b \<leftarrow> (if data \<noteq> NULL \<and> len > 0 then do { d \<leftarrow> data; memcpy b 1 d (unat len) } else Some b);
            Some (Some (r\<lparr>resp_buffer := b, actual_length := total_length\<rparr>))
          } else Some response)"

definition uds_handle_diagnostic_session_control ::
    "uds_context_t ptr \<Rightarrow> uds_request_t ptr \<Rightarrow> uds_response_t ptr
      \<Rightarrow> (uds_context_t ptr \<times> uds_response_t ptr) exec" where
  "uds_handle_diagnostic_session_control context request response =
     (if request = NULL \<or> response = NULL \<or> context = NULL then Some (context, response)
      else do {
        c \<leftarrow> context;
        r \<leftarrow> request;
        if req_length r < 1 then do {
          response \<leftarrow> uds_send_negative_response UDS_SID_DIAGNOSTIC_SESSION_CONTROL
                       UDS_NRC_INCORRECT_MESSAGE_LENGTH response;
          Some (context, response)
        } else do {
          session_type \<leftarrow> rd (req_data r) 0;
          if session_type \<noteq> UDS_SESSION_DEFAULT \<and> session_type \<noteq> UDS_SESSION_PROGRAMMING \<and>
             session_type \<noteq> UDS_SESSION_EXTENDED
          then do {
            response \<leftarrow> uds_send_negative_response UDS_SID_DIAGNOSTIC_SESSION_CONTROL
                         UDS_NRC_SUB_FUNCTION_NOT_SUPPORTED response;
            Some (context, response)
          } else do {
            let c = c\<lparr>current_session := session_type\<rparr>;
            response \<leftarrow> uds_send_positive_response UDS_SID_DIAGNOSTIC_SESSION_CONTROL
                         (Some [session_type, 0x00, 0x32, 0x01, 0xF4]) 5 response;
            Some (Some c, response)
          }
        }
      })"

text \<open>The reset itself is a comment in the source: the handler only answers.\<close>

definition uds_handle_ecu_reset ::
    "uds_context_t ptr \<Rightarrow> uds_request_t ptr \<Rightarrow> uds_response_t ptr
      \<Rightarrow> (uds_context_t ptr \<times> uds_response_t ptr) exec" where
  "uds_handle_ecu_reset context request response =
     (if request = NULL \<or> response = NULL \<or> context = NULL then Some (context, response)
      else do {
        c \<leftarrow> context;
        r \<leftarrow> request;
        if req_length r < 1 then do {
          response \<leftarrow> uds_send_negative_response UDS_SID_ECU_RESET
                       UDS_NRC_INCORRECT_MESSAGE_LENGTH response;
          Some (context, response)
        } else do {
          reset_type \<leftarrow> rd (req_data r) 0;
          if reset_type \<noteq> UDS_RESET_HARD \<and> reset_type \<noteq> UDS_RESET_KEY_OFF_ON \<and>
             reset_type \<noteq> UDS_RESET_SOFT
          then do {
            response \<leftarrow> uds_send_negative_response UDS_SID_ECU_RESET
                         UDS_NRC_SUB_FUNCTION_NOT_SUPPORTED response;
            Some (context, response)
          } else if \<not> security_unlocked c \<and> current_session c \<noteq> UDS_SESSION_DEFAULT
          then do {
            response \<leftarrow> uds_send_negative_response UDS_SID_ECU_RESET
                         UDS_NRC_SECURITY_ACCESS_DENIED response;
            Some (context, response)
          } else do {
            response \<leftarrow> uds_send_positive_response UDS_SID_ECU_RESET (Some [reset_type]) 1 response;
            Some (context, response)
          }
        }
      })"

definition uds_handle_security_access ::
    "uds_context_t ptr \<Rightarrow> uds_request_t ptr \<Rightarrow> uds_response_t ptr
      \<Rightarrow> (uds_context_t ptr \<times> uds_response_t ptr) exec" where
  "uds_handle_security_access context request response =
     (if request = NULL \<or> response = NULL \<or> context = NULL then Some (context, response)
      else do {
        c \<leftarrow> context;
        r \<leftarrow> request;
        if req_length r < 1 then do {
          response \<leftarrow> uds_send_negative_response UDS_SID_SECURITY_ACCESS
                       UDS_NRC_INCORRECT_MESSAGE_LENGTH response;
          Some (context, response)
        } else do {
          sub_function \<leftarrow> rd (req_data r) 0;
          if sub_function = UDS_SECURITY_REQUEST_SEED_LEVEL_1 then
            if security_unlocked c then do {
              response \<leftarrow> uds_send_positive_response UDS_SID_SECURITY_ACCESS
                           (Some [sub_function, 0x00, 0x00, 0x00, 0x00]) 5 response;
              Some (context, response)
            } else do {
              let c = c\<lparr>seed := 0x12345678\<rparr>;
              response \<leftarrow> uds_send_positive_response UDS_SID_SECURITY_ACCESS
                (Some [sub_function, ucast (drop_bit 24 (seed c)), ucast (drop_bit 16 (seed c)),
                       ucast (drop_bit 8 (seed c)), ucast (seed c AND 0xFF)]) 5 response;
              Some (Some c, response)
            }
          else if sub_function = UDS_SECURITY_SEND_KEY_LEVEL_1 then
            if req_length r < 5 then do {
              response \<leftarrow> uds_send_negative_response UDS_SID_SECURITY_ACCESS
                           UDS_NRC_INCORRECT_MESSAGE_LENGTH response;
              Some (context, response)
            } else do {
              k1 \<leftarrow> rd (req_data r) 1;
              k2 \<leftarrow> rd (req_data r) 2;
              k3 \<leftarrow> rd (req_data r) 3;
              k4 \<leftarrow> rd (req_data r) 4;
              let received_key = push_bit 24 (ucast k1) OR push_bit 16 (ucast k2) OR
                                 push_bit 8 (ucast k3) OR (ucast k4 :: u32);
              let expected_key = seed c XOR 0xA5A5A5A5;
              if received_key = expected_key then do {
                let c = c\<lparr>security_unlocked := True, failed_security_attempts := 0\<rparr>;
                response \<leftarrow> uds_send_positive_response UDS_SID_SECURITY_ACCESS
                             (Some [sub_function]) 1 response;
                Some (Some c, response)
              } else do {
                let c = c\<lparr>failed_security_attempts := failed_security_attempts c + 1\<rparr>;
                response \<leftarrow>
                  (if failed_security_attempts c \<ge> 3
                   then uds_send_negative_response UDS_SID_SECURITY_ACCESS
                          UDS_NRC_EXCEEDED_NUMBER_OF_ATTEMPTS response
                   else uds_send_negative_response UDS_SID_SECURITY_ACCESS
                          UDS_NRC_INVALID_KEY response);
                Some (Some c, response)
              }
            }
          else do {
            response \<leftarrow> uds_send_negative_response UDS_SID_SECURITY_ACCESS
                         UDS_NRC_SUB_FUNCTION_NOT_SUPPORTED response;
            Some (context, response)
          }
        }
      })"

definition uds_handle_tester_present ::
    "uds_context_t ptr \<Rightarrow> uds_request_t ptr \<Rightarrow> uds_response_t ptr
      \<Rightarrow> (uds_context_t ptr \<times> uds_response_t ptr) exec" where
  "uds_handle_tester_present context request response =
     (if request = NULL \<or> response = NULL \<or> context = NULL then Some (context, response)
      else do {
        r \<leftarrow> request;
        if req_length r < 1 then do {
          response \<leftarrow> uds_send_negative_response UDS_SID_TESTER_PRESENT
                       UDS_NRC_INCORRECT_MESSAGE_LENGTH response;
          Some (context, response)
        } else do {
          sub \<leftarrow> rd (req_data r) 0;
          response \<leftarrow> uds_send_positive_response UDS_SID_TESTER_PRESENT (Some [sub]) 1 response;
          Some (context, response)
        }
      })"

text \<open>String literals as the bytes \<open>memcpy\<close> reads.\<close>

definition str_bytes :: "string \<Rightarrow> bytes" where
  "str_bytes s = map (\<lambda>c. of_char c) s"

definition uds_handle_read_data_by_id ::
    "uds_context_t ptr \<Rightarrow> uds_request_t ptr \<Rightarrow> uds_response_t ptr
      \<Rightarrow> (uds_context_t ptr \<times> uds_response_t ptr) exec" where
  "uds_handle_read_data_by_id context request response =
     (if request = NULL \<or> response = NULL \<or> context = NULL then Some (context, response)
      else do {
        r \<leftarrow> request;
        if req_length r < 2 then do {
          response \<leftarrow> uds_send_negative_response UDS_SID_READ_DATA_BY_IDENTIFIER
                       UDS_NRC_INCORRECT_MESSAGE_LENGTH response;
          Some (context, response)
        } else do {
          d0 \<leftarrow> rd (req_data r) 0;
          d1 \<leftarrow> rd (req_data r) 1;
          let did = (push_bit 8 (ucast d0) OR ucast d1 :: u16);
          let value =
            (if did = UDS_DID_VIN then Some (str_bytes ''WVWZZZ1KZ1A234567'')
             else if did = UDS_DID_ECU_SERIAL_NUMBER then Some (str_bytes ''SN123456789'')
             else if did = UDS_DID_ECU_SOFTWARE_NUMBER then Some [0x01, 0x00, 0x05]
             else None);
          (case value of
             None \<Rightarrow> do {
               response \<leftarrow> uds_send_negative_response UDS_SID_READ_DATA_BY_IDENTIFIER
                            UDS_NRC_REQUEST_OUT_OF_RANGE response;
               Some (context, response)
             }
           | Some v \<Rightarrow> do {
               let resp_data = [d0, d1] @ v;
               response \<leftarrow> uds_send_positive_response UDS_SID_READ_DATA_BY_IDENTIFIER
                            (Some resp_data) (of_nat (length resp_data)) response;
               Some (context, response)
             })
        }
      })"

definition uds_process_request ::
    "uds_context_t ptr \<Rightarrow> uds_request_t ptr \<Rightarrow> uds_response_t ptr
      \<Rightarrow> (bool \<times> uds_context_t ptr \<times> uds_response_t ptr) exec" where
  "uds_process_request context request response =
     (if context = NULL \<or> request = NULL \<or> response = NULL then Some (False, context, response)
      else do {
        r \<leftarrow> request;
        (context, response) \<leftarrow>
          (if req_sid r = UDS_SID_DIAGNOSTIC_SESSION_CONTROL
           then uds_handle_diagnostic_session_control context request response
           else if req_sid r = UDS_SID_ECU_RESET then uds_handle_ecu_reset context request response
           else if req_sid r = UDS_SID_SECURITY_ACCESS
           then uds_handle_security_access context request response
           else if req_sid r = UDS_SID_TESTER_PRESENT
           then uds_handle_tester_present context request response
           else if req_sid r = UDS_SID_READ_DATA_BY_IDENTIFIER
           then uds_handle_read_data_by_id context request response
           else do {
             response \<leftarrow> uds_send_negative_response (req_sid r) UDS_NRC_SERVICE_NOT_SUPPORTED response;
             Some (context, response)
           });
        rs \<leftarrow> response;
        Some (actual_length rs > 0, context, response)
      })"

section \<open>The answer to a request\<close>

definition nrc :: "u8 \<Rightarrow> u8 \<Rightarrow> bytes" where
  "nrc sid code = [0x7F, sid, code]"

fun session_answer :: "uds_context_t \<Rightarrow> bytes \<Rightarrow> uds_context_t \<times> bytes" where
  "session_answer c [] = (c, nrc 0x10 UDS_NRC_INCORRECT_MESSAGE_LENGTH)"
| "session_answer c (s # _) =
     (if s \<in> {1, 2, 3} then (c\<lparr>current_session := s\<rparr>, [0x50, s, 0x00, 0x32, 0x01, 0xF4])
      else (c, nrc 0x10 UDS_NRC_SUB_FUNCTION_NOT_SUPPORTED))"

fun reset_answer :: "uds_context_t \<Rightarrow> bytes \<Rightarrow> uds_context_t \<times> bytes" where
  "reset_answer c [] = (c, nrc 0x11 UDS_NRC_INCORRECT_MESSAGE_LENGTH)"
| "reset_answer c (t # _) =
     (c, if t \<notin> {1, 2, 3} then nrc 0x11 UDS_NRC_SUB_FUNCTION_NOT_SUPPORTED
         else if \<not> security_unlocked c \<and> current_session c \<noteq> 1
         then nrc 0x11 UDS_NRC_SECURITY_ACCESS_DENIED
         else [0x51, t])"

definition key_answer :: "uds_context_t \<Rightarrow> u32 \<Rightarrow> uds_context_t \<times> bytes" where
  "key_answer c key =
     (if key = seed c XOR 0xA5A5A5A5
      then (c\<lparr>security_unlocked := True, failed_security_attempts := 0\<rparr>, [0x67, 0x02])
      else (c\<lparr>failed_security_attempts := failed_security_attempts c + 1\<rparr>,
            nrc 0x27 (if failed_security_attempts c + 1 \<ge> 3
                      then UDS_NRC_EXCEEDED_NUMBER_OF_ATTEMPTS else UDS_NRC_INVALID_KEY)))"

fun security_answer :: "uds_context_t \<Rightarrow> bytes \<Rightarrow> uds_context_t \<times> bytes" where
  "security_answer c [] = (c, nrc 0x27 UDS_NRC_INCORRECT_MESSAGE_LENGTH)"
| "security_answer c (sub # ks) =
     (if sub = 1 then
        (if security_unlocked c then (c, [0x67, 0x01, 0, 0, 0, 0])
         else (c\<lparr>seed := 0x12345678\<rparr>, [0x67, 0x01, 0x12, 0x34, 0x56, 0x78]))
      else if sub = 2 then
        (case ks of
           k1 # k2 # k3 # k4 # _ \<Rightarrow> key_answer c (of_be32 k1 k2 k3 k4)
         | _ \<Rightarrow> (c, nrc 0x27 UDS_NRC_INCORRECT_MESSAGE_LENGTH))
      else (c, nrc 0x27 UDS_NRC_SUB_FUNCTION_NOT_SUPPORTED))"

fun tester_present_answer :: "uds_context_t \<Rightarrow> bytes \<Rightarrow> uds_context_t \<times> bytes" where
  "tester_present_answer c [] = (c, nrc 0x3E UDS_NRC_INCORRECT_MESSAGE_LENGTH)"
| "tester_present_answer c (sub # _) = (c, [0x7E, sub])"

definition did_value :: "u16 \<Rightarrow> bytes option" where
  "did_value did =
     (if did = UDS_DID_VIN then Some (str_bytes ''WVWZZZ1KZ1A234567'')
      else if did = UDS_DID_ECU_SERIAL_NUMBER then Some (str_bytes ''SN123456789'')
      else if did = UDS_DID_ECU_SOFTWARE_NUMBER then Some [0x01, 0x00, 0x05]
      else None)"

fun read_answer :: "uds_context_t \<Rightarrow> bytes \<Rightarrow> uds_context_t \<times> bytes" where
  "read_answer c (d0 # d1 # _) =
     (c, case did_value (of_be16 d0 d1) of
           Some v \<Rightarrow> [0x62, d0, d1] @ v
         | None \<Rightarrow> nrc 0x22 UDS_NRC_REQUEST_OUT_OF_RANGE)"
| "read_answer c _ = (c, nrc 0x22 UDS_NRC_INCORRECT_MESSAGE_LENGTH)"

definition uds_answer :: "uds_context_t \<Rightarrow> u8 \<Rightarrow> bytes \<Rightarrow> uds_context_t \<times> bytes" where
  "uds_answer c sid params =
     (if sid = 0x10 then session_answer c params
      else if sid = 0x11 then reset_answer c params
      else if sid = 0x27 then security_answer c params
      else if sid = 0x3E then tester_present_answer c params
      else if sid = 0x22 then read_answer c params
      else (c, nrc sid UDS_NRC_SERVICE_NOT_SUPPORTED))"

text \<open>A response with the bytes \<open>a\<close> written at the start of its buffer.\<close>

definition responds :: "uds_response_t \<Rightarrow> bytes \<Rightarrow> uds_response_t" where
  "responds rs a = rs\<lparr>resp_buffer := a @ drop (length a) (resp_buffer rs),
                      actual_length := of_nat (length a)\<rparr>"

text \<open>A response buffer that takes the longest answer (twenty bytes, the VIN).\<close>

definition roomy :: "uds_response_t \<Rightarrow> bool" where
  "roomy rs \<longleftrightarrow> 20 \<le> unat (max_length rs) \<and> unat (max_length rs) \<le> length (resp_buffer rs)"

text \<open>The array behind \<open>data\<close> holds what the handlers may read: all announced bytes, or five.\<close>

definition readable :: "uds_request_t \<Rightarrow> bool" where
  "readable r \<longleftrightarrow> unat (req_length r) \<le> length (req_data r) \<or> 5 \<le> length (req_data r)"

definition params :: "uds_request_t \<Rightarrow> bytes" where
  "params r = take (unat (req_length r)) (req_data r)"

definition answers ::
    "uds_response_t \<Rightarrow> uds_context_t \<times> bytes \<Rightarrow> (uds_context_t ptr \<times> uds_response_t ptr) exec" where
  "answers rs ca = Some (Some (fst ca), Some (responds rs (snd ca)))"

section \<open>The handlers compute the answer\<close>

lemma length_str_bytes [simp]: "length (str_bytes s) = length s"
  by (simp add: str_bytes_def)

lemma send_negative_ok [exec_simps]:
  assumes "roomy rs"
  shows "uds_send_negative_response sid code (Some rs) = Some (Some (responds rs (nrc sid code)))"
proof -
  have "max_length rs \<ge> 3" and "3 \<le> length (resp_buffer rs)"
    using assms by (auto simp: roomy_def word_le_nat_alt)
  then show ?thesis
    by (simp add: uds_send_negative_response_def exec_simps) (simp add: wr_block_0 responds_def nrc_def)
qed

lemma send_positive_ok [exec_simps]:
  assumes "roomy rs" and "len = of_nat (length d)" and "d \<noteq> []" and "length d \<le> 19"
  shows "uds_send_positive_response sid (Some d) len (Some rs) =
    Some (Some (responds rs ((sid + 0x40) # d)))"
proof -
  have ul: "unat len = length d"
    using assms(2,4) by (simp add: unat_of_nat_u32)
  then have u1: "unat (1 + len) = 1 + length d"
    using assms(4) unat_add_no_wrap [of 1 len] by simp
  have "max_length rs \<ge> 1 + len" and "1 + length d \<le> length (resp_buffer rs)" and "len > 0"
    using assms ul u1 by (auto simp: roomy_def word_le_nat_alt word_less_nat_alt)
  then show ?thesis
    using ul assms(2)
    by (simp add: uds_send_positive_response_def exec_simps) (simp add: wr_block_0 responds_def)
qed

lemmas handler_defs =
  uds_handle_diagnostic_session_control_def uds_handle_ecu_reset_def
  uds_handle_security_access_def uds_handle_tester_present_def uds_handle_read_data_by_id_def

lemma rd_params: "i < length (params r) \<Longrightarrow> rd (req_data r) i = Some (params r ! i)"
  by (simp add: params_def rd_def)

lemma short_iff_params:
  assumes "readable r" and "unat (k :: u32) \<le> 5"
  shows "req_length r < k \<longleftrightarrow> length (params r) < unat k"
  using assms by (auto simp: params_def readable_def word_less_nat_alt)

lemma session_control_answers:
  assumes "roomy rs" and "readable r"
  shows "uds_handle_diagnostic_session_control (Some c) (Some r) (Some rs) =
    answers rs (session_answer c (params r))"
  using assms short_iff_params [OF assms(2), of 1] rd_params [of 0 r]
  by (cases "params r")
    (auto simp: uds_handle_diagnostic_session_control_def answers_def exec_simps)

lemma ecu_reset_answers:
  assumes "roomy rs" and "readable r"
  shows "uds_handle_ecu_reset (Some c) (Some r) (Some rs) = answers rs (reset_answer c (params r))"
  using assms short_iff_params [OF assms(2), of 1] rd_params [of 0 r]
  by (cases "params r") (auto simp: uds_handle_ecu_reset_def answers_def exec_simps)

lemma tester_present_answers:
  assumes "roomy rs" and "readable r"
  shows "uds_handle_tester_present (Some c) (Some r) (Some rs) =
    answers rs (tester_present_answer c (params r))"
  using assms short_iff_params [OF assms(2), of 1] rd_params [of 0 r]
  by (cases "params r") (auto simp: uds_handle_tester_present_def answers_def exec_simps)

lemma did_value_length: "did_value did = Some v \<Longrightarrow> length v \<le> 17"
  by (auto simp: did_value_def split: if_splits)

lemma read_data_answers:
  assumes "roomy rs" and "readable r"
  shows "uds_handle_read_data_by_id (Some c) (Some r) (Some rs) = answers rs (read_answer c (params r))"
proof (cases "length (params r) < 2")
  case True
  then have "req_length r < 2"
    using short_iff_params [OF assms(2), of 2] by simp
  moreover have "read_answer c (params r) = (c, nrc 0x22 UDS_NRC_INCORRECT_MESSAGE_LENGTH)"
    using True by (cases "(c, params r)" rule: read_answer.cases) auto
  ultimately show ?thesis
    using assms by (simp add: uds_handle_read_data_by_id_def answers_def exec_simps)
next
  case False
  then obtain d0 d1 ds where ps: "params r = d0 # d1 # ds"
    by (cases "params r"; cases "tl (params r)") auto
  then have rds: "rd (req_data r) 0 = Some d0" "rd (req_data r) 1 = Some d1"
    using rd_params [of 0 r] rd_params [of 1 r] by simp_all
  have "\<not> req_length r < 2"
    using False short_iff_params [OF assms(2), of 2] by simp
  then show ?thesis
    using assms rds did_value_length [of "of_be16 d0 d1"]
    by (cases "did_value (of_be16 d0 d1)")
      (auto simp: uds_handle_read_data_by_id_def ps answers_def exec_simps did_value_def of_be16_def
        split: if_splits)
qed

text \<open>The middle bytes of the seed, truncated to eight bits by the cast.\<close>

lemma seed_byte_values: "(0x1234 :: u8) = 0x34" "(0x123456 :: u8) = 0x56"
  by simp_all

lemma security_access_answers:
  assumes "roomy rs" and "readable r"
  shows "uds_handle_security_access (Some c) (Some r) (Some rs) =
    answers rs (security_answer c (params r))"
proof (cases "params r")
  case Nil
  then show ?thesis
    using assms short_iff_params [OF assms(2), of 1]
    by (simp add: uds_handle_security_access_def answers_def exec_simps)
next
  case (Cons sub ks)
  then have sub: "\<not> req_length r < 1" "rd (req_data r) 0 = Some sub"
    using short_iff_params [OF assms(2), of 1] rd_params [of 0 r] by simp_all
  show ?thesis
  proof (cases "sub = 2 \<and> 4 \<le> length ks")
    case True
    then obtain k1 k2 k3 k4 kt where ks: "ks = k1 # k2 # k3 # k4 # kt"
      by (auto simp: numeral_eq_Suc Suc_le_length_iff)
    then have "rd (req_data r) 1 = Some k1" "rd (req_data r) 2 = Some k2"
        "rd (req_data r) 3 = Some k3" "rd (req_data r) 4 = Some k4" "\<not> req_length r < 5"
      using Cons rd_params [of 1 r] rd_params [of 2 r] rd_params [of 3 r] rd_params [of 4 r]
        short_iff_params [OF assms(2), of 5] by simp_all
    then show ?thesis
      using sub True ks Cons assms
      by (auto simp: uds_handle_security_access_def answers_def exec_simps key_answer_def of_be32_def)
  next
    case False
    then have "sub = 2 \<Longrightarrow> req_length r < 5"
      using Cons short_iff_params [OF assms(2), of 5] by auto
    then show ?thesis
      using sub False Cons assms
      by (auto simp: uds_handle_security_access_def answers_def exec_simps seed_byte_values
          split: list.splits)
  qed
qed

lemma answer_length_parts:
  "length (snd (session_answer c ps)) \<in> {1..20}" "length (snd (reset_answer c ps)) \<in> {1..20}"
  "length (snd (security_answer c ps)) \<in> {1..20}"
  "length (snd (tester_present_answer c ps)) \<in> {1..20}"
  by (cases ps; simp add: nrc_def key_answer_def split: list.splits)+

lemma answer_length_read: "length (snd (read_answer c ps)) \<in> {1..20}"
  by (cases "(c, ps)" rule: read_answer.cases)
    (auto simp: nrc_def split: option.splits dest: did_value_length)

lemma answer_length: "length (snd (uds_answer c sid ps)) \<in> {1..20}"
  using answer_length_parts answer_length_read by (simp add: uds_answer_def nrc_def)

section \<open>The contract of a service handler\<close>

text \<open>The five handlers share one contract towards the dispatcher: null pointers leave everything
  as it is, and a readable request with a roomy response buffer is answered, without undefined
  behaviour, by between one and twenty bytes at the start of the buffer.\<close>

locale uds_handler =
  fixes handle :: "uds_context_t ptr \<Rightarrow> uds_request_t ptr \<Rightarrow> uds_response_t ptr
                     \<Rightarrow> (uds_context_t ptr \<times> uds_response_t ptr) exec"
    and answer :: "uds_context_t \<Rightarrow> bytes \<Rightarrow> uds_context_t \<times> bytes"
  assumes null_args: "cp = NULL \<or> rp = NULL \<or> rsp = NULL \<Longrightarrow> handle cp rp rsp = Some (cp, rsp)"
    and handle_answers: "roomy rs \<Longrightarrow> readable r \<Longrightarrow>
      handle (Some c) (Some r) (Some rs) = answers rs (answer c (params r))"
    and answer_bounds: "length (snd (answer c ps)) \<in> {1..20}"
begin

lemma replies:
  assumes "roomy rs" and "readable r"
  shows "\<exists>c' rs'. handle (Some c) (Some r) (Some rs) = Some (Some c', Some rs')
    \<and> 0 < actual_length rs' \<and> actual_length rs' \<le> max_length rs' \<and> roomy rs'
    \<and> length (resp_buffer rs') = length (resp_buffer rs)"
  using assms answer_bounds [of c "params r"]
  by (auto simp: handle_answers answers_def responds_def roomy_def word_less_nat_alt
      word_le_nat_alt unat_of_nat_u32)

end

lemma handlers_null:
  assumes "cp = NULL \<or> rp = NULL \<or> rsp = NULL"
  shows "uds_handle_diagnostic_session_control cp rp rsp = Some (cp, rsp)"
    and "uds_handle_ecu_reset cp rp rsp = Some (cp, rsp)"
    and "uds_handle_security_access cp rp rsp = Some (cp, rsp)"
    and "uds_handle_tester_present cp rp rsp = Some (cp, rsp)"
    and "uds_handle_read_data_by_id cp rp rsp = Some (cp, rsp)"
  using assms by (auto simp: handler_defs)

interpretation session_control:
  uds_handler uds_handle_diagnostic_session_control session_answer
  by unfold_locales
    (erule handlers_null, erule (1) session_control_answers, rule answer_length_parts)

interpretation ecu_reset: uds_handler uds_handle_ecu_reset reset_answer
  by unfold_locales (erule handlers_null, erule (1) ecu_reset_answers, rule answer_length_parts)

interpretation security_access: uds_handler uds_handle_security_access security_answer
  by unfold_locales (erule handlers_null, erule (1) security_access_answers, rule answer_length_parts)

interpretation tester_present: uds_handler uds_handle_tester_present tester_present_answer
  by unfold_locales (erule handlers_null, erule (1) tester_present_answers, rule answer_length_parts)

interpretation read_data: uds_handler uds_handle_read_data_by_id read_answer
  by unfold_locales (erule handlers_null, erule (1) read_data_answers, rule answer_length_read)

lemmas handlers_answer =
  session_control.handle_answers ecu_reset.handle_answers security_access.handle_answers
  tester_present.handle_answers read_data.handle_answers

lemma process_request_answers:
  assumes "roomy rs" and "readable r"
  shows "uds_process_request (Some c) (Some r) (Some rs) =
    (let (c', a) = uds_answer c (req_sid r) (params r) in Some (True, Some c', Some (responds rs a)))"
proof -
  have "length (snd (uds_answer c (req_sid r) (params r))) \<in> {1..20}"
    by (rule answer_length)
  then have pos: "(0 :: u32) < of_nat (length (snd (uds_answer c (req_sid r) (params r))))"
    by (auto simp: word_less_nat_alt unat_of_nat_u32)
  then show ?thesis
    using assms
    by (auto simp: uds_process_request_def handlers_answer answers_def uds_answer_def responds_def
        exec_simps Let_def split_beta)
qed

section \<open>Sessions\<close>

text \<open>A diagnostic session: the requests are processed one after the other, each with a fresh
  response buffer of 256 bytes as \<open>doip_entity_uds_rx_handler\<close> provides it; the answers are
  collected.\<close>

definition response_256 :: uds_response_t where
  "response_256 = \<lparr>resp_buffer = replicate 256 0, max_length = 256, actual_length = 0\<rparr>"

fun uds_session :: "uds_context_t \<Rightarrow> uds_request_t list \<Rightarrow> (uds_context_t \<times> bytes list) exec" where
  "uds_session c [] = Some (c, [])"
| "uds_session c (r # rs) = do {
     (_, cp, rp) \<leftarrow> uds_process_request (Some c) (Some r) (Some response_256);
     c \<leftarrow> cp;
     resp \<leftarrow> rp;
     (c, as) \<leftarrow> uds_session c rs;
     Some (c, take (unat (actual_length resp)) (resp_buffer resp) # as)
   }"

text \<open>The context of a running server is reachable from \<open>uds_init\<close> by processing requests.\<close>

inductive uds_reachable :: "uds_context_t \<Rightarrow> bool" where
  init: "uds_init (Some c0) = Some c \<Longrightarrow> uds_reachable c"
| step: "uds_reachable c \<Longrightarrow> roomy rs \<Longrightarrow> readable r \<Longrightarrow>
    uds_process_request (Some c) (Some r) (Some rs) = Some (ok, Some c', rsp) \<Longrightarrow> uds_reachable c'"

definition uds_inv :: "uds_context_t \<Rightarrow> bool" where
  "uds_inv c \<longleftrightarrow> current_session c \<in> {1, 2, 3} \<and> seed c \<in> {0, 0x12345678} \<and> security_level c = 0"

fun_cases session_answerE: "session_answer c ps = (c', a)"
fun_cases security_answerE: "security_answer c ps = (c', a)"

lemma roomy_response_256 [simp]: "roomy response_256"
  by (simp add: roomy_def response_256_def)

lemma take_responds:
  "length a \<le> 20 \<Longrightarrow> take (unat (actual_length (responds rs a))) (resp_buffer (responds rs a)) = a"
  by (simp add: responds_def unat_of_nat_u32)

lemma uds_session_Cons [simp]:
  assumes "readable r"
  shows "uds_session c (r # rs) =
    (let (c', a) = uds_answer c (req_sid r) (params r)
     in map_option (\<lambda>(c'', as). (c'', a # as)) (uds_session c' rs))"
  using answer_length [of c "req_sid r" "params r"]
  by (cases "uds_session (fst (uds_answer c (req_sid r) (params r))) rs")
    (auto simp: process_request_answers [OF roomy_response_256 assms] split_beta take_responds)

declare uds_session.simps(2) [simp del]

lemma answer_context_frame:
  "fst (reset_answer c ps) = c" "fst (tester_present_answer c ps) = c" "fst (read_answer c ps) = c"
    apply (cases ps; simp)
   apply (cases ps; simp)
  apply (cases "(c, ps)" rule: read_answer.cases; simp)
  done

lemma answer_context:
  "fst (uds_answer c sid ps) =
     (if sid = 0x10 then fst (session_answer c ps)
      else if sid = 0x27 then fst (security_answer c ps) else c)"
  by (simp add: uds_answer_def answer_context_frame)

lemma answer_inv [inv_intros]: "uds_inv c \<Longrightarrow> uds_inv (fst (uds_answer c sid ps))"
  by (cases ps) (auto simp: answer_context uds_inv_def key_answer_def split: list.splits)

lemma reachable_inv: "uds_reachable c \<Longrightarrow> uds_inv c"
proof (induction rule: uds_reachable.induct)
  case (init c0 c)
  then show ?case by (auto simp: uds_init_def uds_inv_def)
next
  case (step c rs r ok c' rsp)
  then have "c' = fst (uds_answer c (req_sid r) (params r))"
    by (auto simp: process_request_answers split_beta)
  with step.IH show ?case by (simp add: answer_inv)
qed

lemma answer_format_parts:
  "length (snd (session_answer c ps)) \<in> {2..20} \<and>
     ((\<exists>code. snd (session_answer c ps) = nrc 0x10 code) \<or> snd (session_answer c ps) ! 0 = 0x50)"
  "length (snd (reset_answer c ps)) \<in> {2..20} \<and>
     ((\<exists>code. snd (reset_answer c ps) = nrc 0x11 code) \<or> snd (reset_answer c ps) ! 0 = 0x51)"
  "length (snd (security_answer c ps)) \<in> {2..20} \<and>
     ((\<exists>code. snd (security_answer c ps) = nrc 0x27 code) \<or> snd (security_answer c ps) ! 0 = 0x67)"
  "length (snd (tester_present_answer c ps)) \<in> {2..20} \<and>
     ((\<exists>code. snd (tester_present_answer c ps) = nrc 0x3E code) \<or>
      snd (tester_present_answer c ps) ! 0 = 0x7E)"
  by (cases ps; auto simp: nrc_def key_answer_def split: list.splits)+

lemma answer_format_read:
  "length (snd (read_answer c ps)) \<in> {2..20} \<and>
     ((\<exists>code. snd (read_answer c ps) = nrc 0x22 code) \<or> snd (read_answer c ps) ! 0 = 0x62)"
  by (cases "(c, ps)" rule: read_answer.cases)
    (auto simp: nrc_def split: option.splits dest: did_value_length)

lemma answer_format:
  "length (snd (uds_answer c sid ps)) \<in> {2..20} \<and>
     ((\<exists>code. snd (uds_answer c sid ps) = nrc sid code) \<or> snd (uds_answer c sid ps) ! 0 = sid + 0x40)"
proof -
  have unknown: "length (snd (c, nrc sid k)) \<in> {2..20} \<and>
      ((\<exists>code. snd (c, nrc sid k) = nrc sid code) \<or> snd (c, nrc sid k) ! 0 = sid + 0x40)" for k
    by (simp add: nrc_def)
  consider "sid = 0x10" | "sid = 0x11" | "sid = 0x27" | "sid = 0x3E" | "sid = 0x22"
    | "sid \<notin> {0x10, 0x11, 0x27, 0x3E, 0x22}"
    by blast
  then show ?thesis
    using answer_format_parts [of c ps] answer_format_read [of c ps] unknown
    by cases (simp_all add: uds_answer_def)
qed

lemma unlock_needs_key:
  assumes "\<not> security_unlocked c" and "security_unlocked (fst (uds_answer c sid ps))"
  shows "sid = 0x27 \<and> 5 \<le> length ps \<and> ps ! 0 = 2
    \<and> of_be32 (ps ! 1) (ps ! 2) (ps ! 3) (ps ! 4) = seed c XOR 0xA5A5A5A5"
  using assms
  by (cases ps) (auto simp: answer_context key_answer_def split: if_splits list.splits)

lemma wrong_key_request:
  assumes "of_be32 a0 a1 a2 a3 \<noteq> seed c XOR 0xA5A5A5A5"
  shows "uds_session c (\<lparr>req_sid = 0x27, req_data = [0x02, a0, a1, a2, a3], req_length = 5\<rparr> # rs) =
    map_option (\<lambda>(c', as). (c', nrc 0x27 (if failed_security_attempts c + 1 \<ge> 3 then 0x36 else 0x35) # as))
      (uds_session (c\<lparr>failed_security_attempts := failed_security_attempts c + 1\<rparr>) rs)"
  using assms by (simp add: readable_def params_def uds_answer_def key_answer_def)

lemma wrong_keys_then_right_key:
  assumes "of_be32 a0 a1 a2 a3 \<noteq> seed c XOR 0xA5A5A5A5"
    and "of_be32 k0 k1 k2 k3 = seed c XOR 0xA5A5A5A5"
    and "failed_security_attempts c = of_nat m"
  shows "uds_session c
      (replicate n \<lparr>req_sid = 0x27, req_data = [0x02, a0, a1, a2, a3], req_length = 5\<rparr>
       @ [\<lparr>req_sid = 0x27, req_data = [0x02, k0, k1, k2, k3], req_length = 5\<rparr>]) =
    Some (c\<lparr>security_unlocked := True, failed_security_attempts := 0\<rparr>,
      map (\<lambda>i. [0x7F, 0x27, if Suc (m + i) mod 256 \<ge> 3 then 0x36 else 0x35]) [0..<n]
      @ [[0x67, 0x02]])"
  using assms
proof (induction n arbitrary: c m)
  case 0
  then show ?case
    by (simp add: readable_def params_def uds_answer_def key_answer_def)
next
  case (Suc n)
  let ?c = "c\<lparr>failed_security_attempts := failed_security_attempts c + 1\<rparr>"
  have "failed_security_attempts c + 1 \<ge> 3 \<longleftrightarrow> Suc m mod 256 \<ge> 3"
    using Suc.prems(3) by (simp add: word_le_nat_alt unat_word_ariths unsigned_of_nat take_bit_eq_mod mod_Suc_eq)
  moreover have "failed_security_attempts ?c = of_nat (Suc m)"
    using Suc.prems(3) by simp
  ultimately show ?case
    using Suc.IH [of ?c "Suc m"] Suc.prems
    by (simp add: wrong_key_request upt_conv_Cons map_Suc_upt [symmetric] nrc_def comp_def
        del: uds_session_Cons upt_Suc)
qed

section \<open>Properties\<close>



text \<open>The response identifies its request: it is the negative response \<open>7F sid nrc\<close> or it starts
  with the service identifier plus \<open>0x40\<close>, and it is between two and twenty bytes long.\<close>

lemma uds_response_format:
  assumes "roomy rs" and "readable r"
  shows "\<exists>c' rs'. uds_process_request (Some c) (Some r) (Some rs) = Some (True, Some c', Some rs')
    \<and> actual_length rs' \<in> {2..20} \<and> length (resp_buffer rs') = length (resp_buffer rs)
    \<and> ((resp_buffer rs' ! 0 = 0x7F \<and> resp_buffer rs' ! 1 = req_sid r \<and> actual_length rs' = 3)
       \<or> resp_buffer rs' ! 0 = req_sid r + 0x40)"
proof -
  let ?a = "snd (uds_answer c (req_sid r) (params r))"
  have "length ?a \<in> {2..20} \<and> ((\<exists>code. ?a = nrc (req_sid r) code) \<or> ?a ! 0 = req_sid r + 0x40)"
    using answer_format by blast
  moreover have "20 \<le> length (resp_buffer rs)"
    using assms(1) by (simp add: roomy_def)
  ultimately show ?thesis
    using process_request_answers [OF assms]
    by (auto simp: split_beta responds_def nrc_def word_le_nat_alt unat_of_nat_u32 nth_append)
qed

text \<open>C4. Security access cannot be gained by any service but a key that matches the seed: a request
  that turns a locked context into an unlocked one is a security-access request with sub-function
  two whose four key bytes are the stored seed xor \<open>0xA5A5A5A5\<close>.\<close>

theorem unlock_only_by_matching_key:
  assumes "roomy rs" and "readable r" and "\<not> security_unlocked c"
    and "uds_process_request (Some c) (Some r) (Some rs) = Some (ok, Some c', rsp)"
    and "security_unlocked c'"
  shows "req_sid r = 0x27 \<and> 5 \<le> length (params r) \<and> params r ! 0 = 2
    \<and> of_be32 (params r ! 1) (params r ! 2) (params r ! 3) (params r ! 4) = seed c XOR 0xA5A5A5A5"
proof -
  have "c' = fst (uds_answer c (req_sid r) (params r))"
    using assms(4) process_request_answers [OF assms(1,2)] by (auto simp: split_beta)
  then have "security_unlocked (fst (uds_answer c (req_sid r) (params r)))"
    using assms(5) by simp
  then show ?thesis
    by (rule unlock_needs_key [OF assms(3)])
qed

theorem unlock_only_by_matching_key_witness:
  "\<exists>c'. uds_process_request
      (Some \<lparr>current_session = 1, security_level = 0, security_unlocked = False, seed = 0x12345678,
             failed_security_attempts = 0, last_tester_present_time = 0\<rparr>)
      (Some \<lparr>req_sid = 0x27, req_data = [0x02, 0xB7, 0x91, 0xF3, 0xDD], req_length = 5\<rparr>)
      (Some response_256) = Some (True, Some c', Some (responds response_256 [0x67, 0x02]))
     \<and> security_unlocked c'
     \<and> of_be32 0xB7 0x91 0xF3 0xDD = 0x12345678 XOR 0xA5A5A5A5"
proof -
  let ?c = "\<lparr>current_session = 1, security_level = 0, security_unlocked = False, seed = 0x12345678,
             failed_security_attempts = 0, last_tester_present_time = 0\<rparr>"
  let ?r = "\<lparr>req_sid = 0x27, req_data = [0x02, 0xB7, 0x91, 0xF3, 0xDD], req_length = 5\<rparr>"
  let ?c' = "?c\<lparr>security_unlocked := True\<rparr>"
  have run: "uds_process_request (Some ?c) (Some ?r) (Some response_256) =
      Some (True, Some ?c', Some (responds response_256 [0x67, 0x02]))"
    by (simp add: process_request_answers readable_def params_def uds_answer_def key_answer_def
        of_be32_def)
  have "of_be32 0xB7 0x91 0xF3 0xDD = seed ?c XOR 0xA5A5A5A5"
    using unlock_only_by_matching_key [OF _ _ _ run] by (simp add: readable_def params_def)
  then show ?thesis
    using run by (intro exI [of _ ?c']) simp
qed

text \<open>In every context the running server can reach, the session is default, programming or
  extended, and the seed is either zero (never requested) or the constant \<open>0x12345678\<close>, so that only
  the two constants \<open>0xA5A5A5A5\<close> and \<open>0xB791F3DD\<close> ever open a locked server.\<close>

lemma reachable_context_invariant:
  assumes "uds_reachable c"
  shows "current_session c \<in> {1, 2, 3} \<and> seed c \<in> {0, 0x12345678} \<and> security_level c = 0
    \<and> seed c XOR 0xA5A5A5A5 \<in> {0xA5A5A5A5, 0xB791F3DD}"
  using reachable_inv [OF assms] by (auto simp: uds_inv_def)

text \<open>A security-access key is accepted although no seed was ever requested: after \<open>uds_init\<close> the
  stored seed is zero, and the single request \<open>27 02 A5 A5 A5 A5\<close> unlocks the server.\<close>

lemma unlock_without_seed_request:
  "uds_session (the (uds_init (Some c)))
     [\<lparr>req_sid = 0x27, req_data = [0x02, 0xA5, 0xA5, 0xA5, 0xA5], req_length = 5\<rparr>] =
   Some (the (uds_init (Some c))\<lparr>security_unlocked := True\<rparr>, [[0x67, 0x02]])"
  by (simp add: readable_def params_def uds_answer_def key_answer_def uds_init_def of_be32_def)

text \<open>There is no lock-out: after any number \<open>n\<close> of wrong keys, answered by \<open>INVALID_KEY\<close> or by
  \<open>EXCEEDED_NUMBER_OF_ATTEMPTS\<close>, the right key still unlocks the server and resets the counter. The
  counter itself is an 8-bit value, so attempt number \<open>n\<close> reports \<open>EXCEEDED_NUMBER_OF_ATTEMPTS\<close>
  exactly when \<open>n mod 256\<close> is at least three.\<close>

lemma no_lockout_after_wrong_keys:
  assumes "failed_security_attempts c = 0"
    and "of_be32 a0 a1 a2 a3 \<noteq> seed c XOR 0xA5A5A5A5"
    and "of_be32 k0 k1 k2 k3 = seed c XOR 0xA5A5A5A5"
  shows "uds_session c
      (replicate n \<lparr>req_sid = 0x27, req_data = [0x02, a0, a1, a2, a3], req_length = 5\<rparr>
       @ [\<lparr>req_sid = 0x27, req_data = [0x02, k0, k1, k2, k3], req_length = 5\<rparr>]) =
    Some (c\<lparr>security_unlocked := True, failed_security_attempts := 0\<rparr>,
      map (\<lambda>i. [0x7F, 0x27, if i mod 256 \<ge> 3 then 0x36 else 0x35]) [1..<Suc n] @ [[0x67, 0x02]])"
  using wrong_keys_then_right_key [of a0 a1 a2 a3 c k0 k1 k2 k3 0 n] assms
  by (simp add: map_Suc_upt [symmetric] comp_def del: upt_Suc)

text \<open>An ECU reset is confirmed exactly for the three reset types, and outside the default session
  only on an unlocked server; every other reset request gets the negative response that says why.
  No reset request changes the context.\<close>

lemma ecu_reset_gate:
  assumes "roomy rs" and "readable r" and "req_sid r = 0x11" and "params r = t # ps"
  shows "uds_process_request (Some c) (Some r) (Some rs) =
    Some (True, Some c, Some (responds rs
      (if t \<notin> {1, 2, 3} then [0x7F, 0x11, 0x12]
       else if current_session c = 1 \<or> security_unlocked c then [0x51, t]
       else [0x7F, 0x11, 0x33])))"
  using process_request_answers [OF assms(1,2)] assms(3,4) by (auto simp: uds_answer_def nrc_def)

end
