(* ===== verification/DoIP_Task.thy ===== *)
theory DoIP_Task
  imports DoIP_Entity UDS_Services
begin

text \<open>
  The task that runs the vehicle side, from \<^verbatim>\<open>src/doip/doip_task_example.h\<close> and
  \<^verbatim>\<open>src/doip/doip_task_example.c\<close>: the handler that connects the entity with the UDS services, the
  configuration, the start of the task, one pass of its main loop, the mutex, and the application
  start-up. The globals of that file (entity, interface, UDS context, mutex handle) are fields of
  the system record.

  The operating system and the TCP/IP stack's start-up functions are a record of operations on a
  kernel state of type \<open>'k\<close>, a parameter of the model. The log output is not modelled here.
\<close>

section \<open>Data\<close>

record ('w, 'k) app_system = "'w entity_system" +
  uds_context :: uds_context_t
  g_doip_mutex :: "nat ptr"
  g_doip_entity_task_handle :: "nat ptr"
  kernel :: 'k

record 'k os_api =
  configTICK_RATE_HZ :: "64 word"
  xSemaphoreCreateMutex :: "'k \<Rightarrow> nat ptr \<times> 'k"
  xSemaphoreTake :: "nat \<Rightarrow> u32 \<Rightarrow> 'k \<Rightarrow> bool \<times> 'k"
  xSemaphoreGive :: "nat \<Rightarrow> 'k \<Rightarrow> 'k"
  xTaskCreate :: "string \<Rightarrow> u32 \<Rightarrow> nat \<Rightarrow> 'k \<Rightarrow> (bool \<times> nat ptr) \<times> 'k"
  vTaskDelete :: "'k \<Rightarrow> 'k"
  vTaskDelayUntil :: "u32 \<Rightarrow> u32 \<Rightarrow> 'k \<Rightarrow> u32 \<times> 'k"
  xTaskGetTickCount :: "'k \<Rightarrow> u32"
  vTaskStartScheduler :: "'k \<Rightarrow> 'k"
  tcpip_init :: "'k \<Rightarrow> 'k"
  netconn_thread_init :: "'k \<Rightarrow> 'k"
  netif_add :: "nat \<Rightarrow> u8 list \<Rightarrow> u8 list \<Rightarrow> u8 list \<Rightarrow> 'k \<Rightarrow> nat ptr \<times> 'k"
  netif_set_default :: "nat ptr \<Rightarrow> 'k \<Rightarrow> 'k"
  netif_set_up :: "nat \<Rightarrow> 'k \<Rightarrow> 'k"

abbreviation (input) "DOIP_ENTITY_CYCLE_TIME_MS \<equiv> (10 :: u32)"

text \<open>The conversion of milliseconds to ticks, computed in 64 bits; the tick rate is a constant of the
  generated configuration and therefore a parameter.\<close>

definition pdMS_TO_TICKS :: "'k os_api \<Rightarrow> u32 \<Rightarrow> u32" where
  "pdMS_TO_TICKS os ms = ucast ((ucast ms * configTICK_RATE_HZ os) div (1000 :: 64 word))"

section \<open>The handler for diagnostic requests\<close>

definition doip_entity_uds_rx_handler :: "('w, 'k, 'z) app_system_scheme uds_rx_callback" where
  "doip_entity_uds_rx_handler source_addr target_addr data len s = do {
     d \<leftarrow> data;
     sid \<leftarrow> rd d 0;
     let request = \<lparr>req_sid = sid, req_data = drop 1 d, req_length = len - 1\<rparr>;
     let response = \<lparr>resp_buffer = local_array 256, max_length = 256, actual_length = 0\<rparr>;
     (replied, ctx, resp) \<leftarrow> uds_process_request (Some (uds_context s)) (Some request) (Some response);
     c \<leftarrow> ctx;
     let s = s\<lparr>uds_context := c\<rparr>;
     if replied then do {
       r \<leftarrow> resp;
       (_, s) \<leftarrow> doip_entity_send_diagnostic_response address_of_it source_addr
                 (Some (resp_buffer r)) (actual_length r) s;
       Some s
     } else Some s
   }"

section \<open>The mutex\<close>

definition doip_lock ::
    "'k os_api \<Rightarrow> u32 \<Rightarrow> ('w, 'k, 'z) app_system_scheme \<Rightarrow> bool \<times> ('w, 'k, 'z) app_system_scheme" where
  "doip_lock os timeout_ms s =
     (case g_doip_mutex s of
        None \<Rightarrow> (False, s)
      | Some m \<Rightarrow> let (got, k) = xSemaphoreTake os m timeout_ms (kernel s) in (got, s\<lparr>kernel := k\<rparr>))"

definition doip_unlock :: "'k os_api \<Rightarrow> ('w, 'k, 'z) app_system_scheme \<Rightarrow> ('w, 'k, 'z) app_system_scheme" where
  "doip_unlock os s =
     (case g_doip_mutex s of
        None \<Rightarrow> s
      | Some m \<Rightarrow> s\<lparr>kernel := xSemaphoreGive os m (kernel s)\<rparr>)"

section \<open>The task\<close>

definition entity_task_config :: doip_entity_config_t where
  "entity_task_config =
     \<lparr>cfg_vin = str_bytes ''WVWZZZ1KZ1A234567'',
      cfg_eid = [0x00, 0x1B, 0x2C, 0x3D, 0x4E, 0x5F],
      cfg_gid = [0xFF, 0xFF, 0xFF, 0xFF, 0xFF, 0xFF],
      logical_address = 0x1000,
      general_inactivity_time = 300000,
      initial_inactivity_time = 2000,
      alive_check_time = 500,
      max_tester_connections = 2\<rparr>"

text \<open>The part of \<open>doip_entity_task\<close> before its loop: the boolean says whether the loop is entered; a
  failed step deletes the task.\<close>

definition entity_task_start ::
    "'k os_api \<Rightarrow> 'w doip_network_ops_t \<Rightarrow> ('w, 'k, 'z) app_system_scheme
      \<Rightarrow> (bool \<times> ('w, 'k, 'z) app_system_scheme) exec" where
  "entity_task_start os no s = do {
     (res, s) \<leftarrow> doip_interface_init address_of_it (Some no) s;
     if res \<noteq> DOIP_RESULT_OK then Some (False, s\<lparr>kernel := vTaskDelete os (kernel s)\<rparr>)
     else do {
       (res, s) \<leftarrow> doip_entity_init address_of_it (Some entity_task_config) address_of_it s;
       if res \<noteq> DOIP_RESULT_OK then Some (False, s\<lparr>kernel := vTaskDelete os (kernel s)\<rparr>)
       else do {
         (res, s) \<leftarrow> doip_entity_start address_of_it s;
         if res \<noteq> DOIP_RESULT_OK then Some (False, s\<lparr>kernel := vTaskDelete os (kernel s)\<rparr>)
         else Some (True, s)
       }
     }
   }"

text \<open>One pass of the loop of \<open>doip_entity_task\<close>, with the time of the last wake-up.\<close>

definition entity_task_cycle ::
    "'k os_api \<Rightarrow> u32 \<times> ('w, 'k, 'z) app_system_scheme \<Rightarrow> (u32 \<times> ('w, 'k, 'z) app_system_scheme) run" where
  "entity_task_cycle os ws =
     (let (last_wake_time, s) = ws; (locked, s) = doip_lock os (pdMS_TO_TICKS os 100) s in
      then_run
        (if locked then
           then_run (doip_entity_process address_of_it (Some doip_entity_uds_rx_handler) s) (\<lambda>(_, s).
           then_run (Some (doip_entity_update_timers address_of_it DOIP_ENTITY_CYCLE_TIME_MS s)) (\<lambda>s.
           returns (doip_unlock os s)))
         else returns s)
        (\<lambda>s. let (wake, k) = vTaskDelayUntil os last_wake_time (pdMS_TO_TICKS os DOIP_ENTITY_CYCLE_TIME_MS) (kernel s)
             in returns (wake, s\<lparr>kernel := k\<rparr>)))"

text \<open>The task up to its \<open>n\<close>-th pass.\<close>

definition entity_task ::
    "'k os_api \<Rightarrow> 'w doip_network_ops_t \<Rightarrow> nat \<Rightarrow> ('w, 'k, 'z) app_system_scheme
      \<Rightarrow> (u32 \<times> ('w, 'k, 'z) app_system_scheme) run" where
  "entity_task os no n s =
     then_run (Some (entity_task_start os no s)) (\<lambda>(running, s).
       if running
       then for_each_run [0..<n] (\<lambda>_. entity_task_cycle os) (xTaskGetTickCount os (kernel s), s)
       else returns (0, s))"

section \<open>Start-up of the application\<close>

text \<open>\<open>interface_init\<close> for the one Ethernet interface of the board.\<close>

definition interface_init :: "'k os_api \<Rightarrow> 'k \<Rightarrow> 'k" where
  "interface_init os k =
     (let (netif, k) = netif_add os 0 [10, 42, 0, 200] [255, 255, 255, 0] [10, 42, 0, 1] k;
          k = netif_set_default os netif k
      in netif_set_up os 0 k)"

text \<open>How \<open>doip_application_init\<close> ends: it halts in an endless loop when the mutex or the task cannot
  be created; otherwise it has started the scheduler.\<close>

datatype startup = Halted | SchedulerStarted

definition doip_application_init ::
    "'k os_api \<Rightarrow> ('w, 'k, 'z) app_system_scheme \<Rightarrow> startup \<times> ('w, 'k, 'z) app_system_scheme" where
  "doip_application_init os s =
     (let s = s\<lparr>kernel := interface_init os (netconn_thread_init os (tcpip_init os (kernel s)))\<rparr>;
          s = s\<lparr>uds_context := the (uds_init (Some (uds_context s)))\<rparr>;
          (mutex, k) = xSemaphoreCreateMutex os (kernel s);
          s = s\<lparr>g_doip_mutex := mutex, kernel := k\<rparr>
      in if g_doip_mutex s = NULL then (Halted, s)
         else
           let ((created, handle), k) = xTaskCreate os ''DoIP_Entity'' 2048 3 (kernel s);
               s = s\<lparr>g_doip_entity_task_handle := handle, kernel := k\<rparr>
           in if \<not> created then (Halted, s)
              else (SchedulerStarted, s\<lparr>kernel := vTaskStartScheduler os (kernel s)\<rparr>))"

definition doip_get_entity_instance :: object_ptr where
  "doip_get_entity_instance = address_of_it"

section \<open>The handler answers every request\<close>

text \<open>The bytes behind a request that is announced with \<open>len\<close> bytes, and the answer of the UDS layer.\<close>

definition request_of :: "bytes \<Rightarrow> u32 \<Rightarrow> uds_request_t" where
  "request_of d len = \<lparr>req_sid = d ! 0, req_data = drop 1 d, req_length = len - 1\<rparr>"

definition answer_to :: "uds_context_t \<Rightarrow> bytes \<Rightarrow> u32 \<Rightarrow> uds_context_t \<times> bytes" where
  "answer_to c d len = uds_answer c (d ! 0) (params (request_of d len))"

lemma request_readable: "6 \<le> length d \<Longrightarrow> readable (request_of d len)"
  by (auto simp: readable_def request_of_def)

lemma handler_eq:
  assumes "6 \<le> length d"
  shows "doip_entity_uds_rx_handler sa ta (Some d) len s =
    (let (c, a) = answer_to (uds_context s) d len in
     map_option snd (doip_entity_send_diagnostic_response address_of_it sa
       (Some (in_array 256 a)) (of_nat (length a)) (s\<lparr>uds_context := c\<rparr>)))"
proof -
  let ?r = "request_of d len" and ?rs = "\<lparr>resp_buffer = local_array 256, max_length = 256, actual_length = 0\<rparr>"
  have "roomy ?rs"
    by (simp add: roomy_def local_array_def)
  then have run: "uds_process_request (Some (uds_context s)) (Some ?r) (Some ?rs) =
      (let (c, a) = answer_to (uds_context s) d len in Some (True, Some c, Some (responds ?rs a)))"
    using process_request_answers [of ?rs ?r "uds_context s"] request_readable [OF assms]
    by (simp add: answer_to_def) (simp add: request_of_def)
  have "rd d 0 = Some (d ! 0)"
    using assms by (auto simp: rd_def)
  then show ?thesis
    using run
    by (simp add: doip_entity_uds_rx_handler_def request_of_def split_beta Let_def responds_def
        local_array_def in_array_def drop_replicate map_conv_bind_option case_prod_unfold comp_def)
qed

lemma response_total:
  assumes "wf_interface (iface s)" and "net_ops (iface s) = Some no" and "entity_inv s"
    and "unat len \<le> length d" and "unat len \<le> 4092"
  shows "\<exists>r w. doip_entity_send_diagnostic_response address_of_it a (Some d) len s = Some (r, s\<lparr>net := w\<rparr>)"
proof (cases "\<exists>i < 2. is_activated (ent_connections (entity s) ! i) \<and> source_address (ent_connections (entity s) ! i) = a")
  case True
  then obtain i where i: "i < 2" "is_activated (ent_connections (entity s) ! i)" "source_address (ent_connections (entity s) ! i) = a"
      and first: "\<And>j. j < i \<Longrightarrow> \<not> (is_activated (ent_connections (entity s) ! j) \<and> source_address (ent_connections (entity s) ! j) = a)"
    using exists_least_iff [of "\<lambda>i. i < 2 \<and> is_activated (ent_connections (entity s) ! i) \<and> source_address (ent_connections (entity s) ! i) = a"]
    by (auto dest: less_trans)
  have "\<exists>w. tcp_sent no i b n s = s\<lparr>net := w\<rparr>" for b n
    by (auto simp: tcp_sent_def Let_def intro: exI [of _ "net s"])
  then show ?thesis
    using response_ok [OF assms(1-3) i first assms(4,5)] by metis
next
  case False
  then have "find_target [0..<2] a (ent_connections (entity s)) = Some (-1)"
    using assms(3) by (auto simp: upt_rec rd_def entity_inv_def less_2_cases_iff)
  then have "doip_entity_send_diagnostic_response address_of_it a (Some d) len s = Some (DOIP_RESULT_NOT_READY, s\<lparr>net := net s\<rparr>)"
    by (simp add: doip_entity_send_diagnostic_response_def)
  then show ?thesis by blast
qed

lemma response_keeps:
  "doip_entity_send_diagnostic_response p a d len s = Some (r, s') \<Longrightarrow> \<exists>w. s' = s\<lparr>net := w\<rparr>"
proof -
  have "s = s\<lparr>net := net s\<rparr>" by simp
  then show "doip_entity_send_diagnostic_response p a d len s = Some (r, s') \<Longrightarrow> \<exists>w. s' = s\<lparr>net := w\<rparr>"
    by (auto simp: doip_entity_send_diagnostic_response_def split: if_splits Option.bind_splits prod.splits
        dest: tcp_send_keeps intro: exI [of _ "net s"])
qed

lemma handler_keeps:
  assumes "doip_entity_uds_rx_handler sa ta d len s = Some s'"
  shows "iface s' = iface s \<and> entity s' = entity s"
  using assms
  by (auto simp: doip_entity_uds_rx_handler_def Let_def split: if_splits Option.bind_splits prod.splits
      dest!: response_keeps)

lemma handler_total:
  assumes "wf_interface (iface s)" and "net_ops (iface s) = Some no" and "entity_inv s" and "length d = 4084"
  shows "\<exists>s'. doip_entity_uds_rx_handler sa ta (Some d) len s = Some s'"
proof -
  obtain c a where ca: "answer_to (uds_context s) d len = (c, a)" by fastforce
  have "length a \<le> 20"
    using answer_length [of "uds_context s" "d ! 0" "params (request_of d len)"] ca by (simp add: answer_to_def)
  then have "unat (of_nat (length a) :: u32) \<le> length (in_array 256 a)" "unat (of_nat (length a) :: u32) \<le> 4092"
    by (simp_all add: unat_of_nat_u32 in_array_def)
  moreover have "entity_inv (s\<lparr>uds_context := c\<rparr>)"
    using assms(3) by (simp add: entity_inv_def)
  ultimately obtain r w where "doip_entity_send_diagnostic_response address_of_it sa (Some (in_array 256 a))
      (of_nat (length a)) (s\<lparr>uds_context := c\<rparr>) = Some (r, s\<lparr>uds_context := c, net := w\<rparr>)"
    using response_total [of "s\<lparr>uds_context := c\<rparr>" no "of_nat (length a)" "in_array 256 a" sa] assms(1,2) by auto
  then show ?thesis
    using handler_eq [of d sa ta len s] assms(4) ca by simp
qed

text \<open>On every network that keeps its contract the handler serves the entity: the whole stack is
  then a client of the interface.\<close>

sublocale network \<subseteq> stack: uds_client no
    "Some (doip_entity_uds_rx_handler :: ('w, 'k, 'z) app_system_scheme uds_rx_callback)" "\<lambda>_. True"
proof (unfold_locales, goal_cases)
  case (1 sa ta d n s s')
  then show ?case using handler_keeps by (simp add: call_uds_def)
next
  case (2 s b n sa ta)
  then show ?case using handler_total [of s no b sa ta n] by (simp add: call_uds_def)
qed simp_all

section \<open>The running task\<close>

definition stack_ok :: "'w doip_network_ops_t \<Rightarrow> ('w, 'z) entity_system_scheme \<Rightarrow> bool" where
  "stack_ok no s \<longleftrightarrow> wf_interface (iface s) \<and> net_ops (iface s) = Some no \<and> entity_inv s"

lemma stack_ok_frame [simp]:
  "stack_ok no (s\<lparr>kernel := k\<rparr>) = stack_ok no s" "stack_ok no (s\<lparr>uds_context := c\<rparr>) = stack_ok no s"
  by (simp_all add: stack_ok_def entity_inv_def)

lemma stack_ok_lock [simp]:
  "stack_ok no (snd (doip_lock os t s)) = stack_ok no s" "stack_ok no (doip_unlock os s) = stack_ok no s"
  by (simp_all add: doip_lock_def doip_unlock_def split: option.splits prod.splits)

lemma entity_init_ok:
  assumes "wf_config c" and "length (ent_connections (entity s)) = 2"
    and "\<forall>i < 2. socket_fd (connections (iface s) ! i) < 0"
  shows "\<exists>s'. doip_entity_init address_of_it (Some c) address_of_it s = Some (DOIP_RESULT_OK, s')
    \<and> entity_inv s' \<and> iface s' = iface s \<and> (\<forall>e \<in> set (ent_connections (entity s')). connection_id e = -1)"
proof -
  obtain e0 e1 where e: "ent_connections (entity s) = [e0, e1]"
    using assms(2) by (auto simp: numeral_2_eq_2 length_Suc_conv)
  have "\<not> 0 \<le> socket_fd (connections (iface s) ! 0)" "\<not> 0 \<le> socket_fd (connections (iface s) ! Suc 0)"
    using assms(3) by (auto simp: less_2_cases_iff)
  then show ?thesis
    using assms(1) e
    by (simp add: doip_entity_init_def upt_rec econn_update_def upd_at_def idx_def entity_inv_def wf_context_def
        less_2_cases_iff all_conj_distrib)
qed

lemma entity_start_ok:
  assumes "stack_ok no s"
  shows "\<exists>r s'. doip_entity_start address_of_it s = Some (r, s') \<and> stack_ok no s'
    \<and> ent_connections (entity s') = ent_connections (entity s)
    \<and> (r = DOIP_RESULT_OK \<longrightarrow> announcement_count (entity s') = 0 \<and> announcement_timer (entity s') = 0
         \<and> udp_socket (iface s') \<ge> 0 \<and> tcp_listen_socket (iface s') \<ge> 0)"
  using assms
  by (auto simp: doip_entity_start_def doip_interface_start_udp_def doip_interface_start_tcp_server_def ops_def
      stack_ok_def entity_inv_def wf_interface_def Let_def split: prod.splits)

lemma task_config_wf: "wf_config entity_task_config"
  by (simp add: wf_config_def entity_task_config_def)

lemma task_start_ok:
  assumes "length (connections (iface s)) = 2" and "length (udp_rx_buffer (iface s)) = 4096"
    and "\<forall>c \<in> set (connections (iface s)). length (rx_buffer c) = 4096"
    and "length (ent_connections (entity s)) = 2"
  shows "\<exists>running s'. entity_task_start os no s = Some (running, s') \<and> stack_ok no s'
    \<and> (running \<longrightarrow> announcement_count (entity s') = 0 \<and> announcement_timer (entity s') = 0
         \<and> (\<forall>e \<in> set (ent_connections (entity s')). connection_id e = -1))"
proof -
  obtain t where t: "doip_interface_init address_of_it (Some no) s = Some (DOIP_RESULT_OK, t)"
      "wf_interface (iface t)" "net_ops (iface t) = Some no"
      "\<forall>c \<in> set (connections (iface t)). tcp_state c = DOIP_CONN_STATE_CLOSED" "s\<lparr>iface := iface t\<rparr> = t"
    using interface_init_ok [OF assms(1-3), of no] by blast
  have "entity t = entity s"
    by (subst t(5) [symmetric]) simp
  moreover have "\<forall>i < 2. socket_fd (connections (iface t) ! i) < 0"
    using t(2,4) by (auto simp: wf_interface_def wf_slot_def not_le [symmetric])
  ultimately obtain u where u: "doip_entity_init address_of_it (Some entity_task_config) address_of_it t = Some (DOIP_RESULT_OK, u)"
      "entity_inv u" "iface u = iface t" "\<forall>e \<in> set (ent_connections (entity u)). connection_id e = -1"
    using entity_init_ok [OF task_config_wf, of t] assms(4) by auto
  then have "stack_ok no u"
    using t by (simp add: stack_ok_def)
  then obtain r v where "doip_entity_start address_of_it u = Some (r, v)" "stack_ok no v"
      "ent_connections (entity v) = ent_connections (entity u)"
      "r = DOIP_RESULT_OK \<longrightarrow> announcement_count (entity v) = 0 \<and> announcement_timer (entity v) = 0"
    using entity_start_ok by blast
  then show ?thesis
    using t(1) u by (auto simp: entity_task_start_def)
qed

context network
begin

lemma stack_sys_ok: "sys_ok no (\<lambda>s. entity_inv s \<and> True) s \<longleftrightarrow> stack_ok no s"
  by (simp add: sys_ok_def stack_ok_def)

lemma process_safe:
  assumes "stack_ok no s"
  shows "doip_entity_process address_of_it (Some doip_entity_uds_rx_handler) s = never_returns
    \<or> (\<exists>s'. doip_entity_process address_of_it (Some doip_entity_uds_rx_handler) s = returns (DOIP_RESULT_OK, s')
          \<and> stack_ok no s')"
  using stack.entity_process_safe [of s] assms by (simp only: stack_sys_ok)

lemma cycle_safe:
  assumes "stack_ok no s"
  shows "entity_task_cycle os (t, s) = never_returns
    \<or> (\<exists>t' s'. entity_task_cycle os (t, s) = returns (t', s') \<and> stack_ok no s')"
proof -
  obtain locked s1 where s1: "doip_lock os (pdMS_TO_TICKS os 100) s = (locked, s1)" by fastforce
  then have ok1: "stack_ok no s1"
    using assms stack_ok_lock(1) [of no os "pdMS_TO_TICKS os 100" s] by simp
  consider (unlocked) "\<not> locked"
    | (hang) "locked" "doip_entity_process address_of_it (Some doip_entity_uds_rx_handler) s1 = never_returns"
    | (returned) s2 where "locked"
        "doip_entity_process address_of_it (Some doip_entity_uds_rx_handler) s1 = returns (DOIP_RESULT_OK, s2)"
        "stack_ok no s2"
    using process_safe [OF ok1] by (cases locked) auto
  then show ?thesis
  proof cases
    case (returned s2)
    then obtain s3 where "doip_entity_update_timers address_of_it 10 s2 = Some s3" "stack_ok no s3"
      using stack.update_timers_safe [of s2 10] by (auto simp only: stack_sys_ok)
    then show ?thesis
      using s1 returned by (simp add: entity_task_cycle_def split: prod.splits)
  qed (use s1 ok1 in \<open>simp_all add: entity_task_cycle_def split: prod.splits\<close>)
qed

lemma cycles_safe:
  assumes "stack_ok no s"
  shows "for_each_run xs (\<lambda>_. entity_task_cycle os) (t, s) = never_returns
    \<or> (\<exists>t' s'. for_each_run xs (\<lambda>_. entity_task_cycle os) (t, s) = returns (t', s') \<and> stack_ok no s')"
  using assms
proof (induction xs arbitrary: t s)
  case (Cons x xs)
  from cycle_safe [OF Cons.prems, of os t] show ?case
  proof (elim disjE exE conjE)
    fix t' s'
    assume "entity_task_cycle os (t, s) = returns (t', s')" and "stack_ok no s'"
    then show ?thesis
      using Cons.IH [of s' t'] by simp
  qed simp
qed simp

lemma entity_process_exact:
  fixes s :: "('w, 'k, 'z) app_system_scheme"
  assumes "stack_ok no s"
  shows "if poll_hangs no (Some entity_udp_rx_callback) (Some (entity_tcp_rx_callback (Some doip_entity_uds_rx_handler)))
        (Some entity_tcp_connected_callback) (Some entity_tcp_disconnected_callback) s
    then doip_entity_process address_of_it (Some doip_entity_uds_rx_handler) s = never_returns
    else \<exists>s'. doip_entity_process address_of_it (Some doip_entity_uds_rx_handler) s = returns (DOIP_RESULT_OK, s') \<and> stack_ok no s'"
proof -
  have "sys_ok no (\<lambda>s. entity_inv s \<and> True) s" using assms by (simp only: stack_sys_ok)
  note exact = stack.process_exact [OF this, unfolded stack_sys_ok]
  have "ent_interface (entity s) = address_of_it" using assms by (simp add: stack_ok_def entity_inv_def)
  then show ?thesis using exact by (simp add: doip_entity_process_def)
qed

lemma process_hangs_on_stall:
  assumes "stack_ok no s"
    and udp: "process_udp (Some entity_udp_rx_callback) s = Some s1"
    and acc: "process_accept (Some entity_tcp_connected_callback) s1 = Some s2"
    and "conn s2 0 = Some c" and "socket_fd c \<ge> 0"
    and "tcp_recv no (socket_fd c) (4096 - rx_buffer_used c) (net s2) = ((int (length ys), ys), w)"
    and "ys \<noteq> []" and "stalls (pending c @ ys)"
  shows "doip_entity_process address_of_it (Some doip_entity_uds_rx_handler) s = never_returns"
proof -
  have "sys_ok no (\<lambda>s. entity_inv s \<and> True) s" using assms(1) by (simp only: stack_sys_ok)
  then have "sys_ok no (\<lambda>s. entity_inv s \<and> True) s1" using stack.process_udp_ok [of s] udp by auto
  then have "sys_ok no (\<lambda>s. entity_inv s \<and> True) s2" using stack.process_accept_ok [of s1] acc by auto
  from stack.stalled_connection_hangs [OF this _ assms(4-8)]
  show ?thesis
    using assms(1) stack.process_hangs [OF udp acc] by (simp add: doip_entity_process_def stack_ok_def entity_inv_def)
qed

end

context network
begin

lemma accepted_conn_wf:
  fixes s :: "('w, 'k, 'z) app_system_scheme"
  assumes "stack_ok no s"
    and udp: "process_udp (Some entity_udp_rx_callback) s = Some s1"
    and acc: "process_accept (Some entity_tcp_connected_callback) s1 = Some s2"
    and "conn s2 i = Some c"
  shows "wf_conn c"
proof -
  have "sys_ok no (\<lambda>s. entity_inv s \<and> True) s" using assms(1) by (simp only: stack_sys_ok)
  then have "sys_ok no (\<lambda>s. entity_inv s \<and> True) s1" using stack.process_udp_ok [of s] udp by auto
  then have "sys_ok no (\<lambda>s. entity_inv s \<and> True) s2" using stack.process_accept_ok [of s1] acc by auto
  then show ?thesis
    using conn_index [OF assms(4)] by (auto simp: sys_ok_def wf_slot_def)
qed

end


section \<open>Properties\<close>

text \<open>Concrete values for the witnesses: an operating system whose calls succeed, and the
  application with its globals, on the recording network and on one whose connections always
  deliver the given bytes.\<close>

definition sample_os :: "unit os_api" where
  "sample_os =
     \<lparr>configTICK_RATE_HZ = 1000, xSemaphoreCreateMutex = \<lambda>k. (Some 0, k), xSemaphoreTake = \<lambda>_ _ k. (True, k),
      xSemaphoreGive = \<lambda>_ k. k, xTaskCreate = \<lambda>_ _ _ k. ((True, Some 0), k), vTaskDelete = \<lambda>k. k,
      vTaskDelayUntil = \<lambda>t n k. (t + n, k), xTaskGetTickCount = \<lambda>_. 0, vTaskStartScheduler = \<lambda>k. k,
      tcpip_init = \<lambda>k. k, netconn_thread_init = \<lambda>k. k, netif_add = \<lambda>_ _ _ _ k. (Some 0, k),
      netif_set_default = \<lambda>_ k. k, netif_set_up = \<lambda>_ k. k\<rparr>"

definition feed_ops :: "bytes \<Rightarrow> net_event list doip_network_ops_t" where
  "feed_ops bs = log_ops\<lparr>tcp_recv := \<lambda>fd n w. ((int (min (length bs) (unat n)), take (unat n) bs), w)\<rparr>"

definition default_uds_context :: uds_context_t where
  "default_uds_context = \<lparr>current_session = 1, security_level = 0, security_unlocked = False, seed = 0,
     failed_security_attempts = 0, last_tester_present_time = 0\<rparr>"

definition sample_app ::
    "net_event list doip_network_ops_t \<Rightarrow> doip_tcp_connection_t list \<Rightarrow> doip_entity_connection_t list
      \<Rightarrow> (net_event list, unit) app_system" where
  "sample_app no cs es =
     \<lparr>iface = \<lparr>net_ops = Some no, udp_socket = 1, tcp_listen_socket = 2, connections = cs,
               udp_rx_buffer = replicate 4096 0\<rparr>,
      net = [],
      entity = \<lparr>config = entity_task_config, ent_interface = address_of_it, ent_connections = es,
                announcement_count = 0, announcement_timer = 0\<rparr>,
      uds_context = default_uds_context, g_doip_mutex = Some 0, g_doip_entity_task_handle = Some 0, kernel = ()\<rparr>"

interpretation feeding: network "feed_ops bs"
  by unfold_locales (auto simp: feed_ops_def log_ops_def)

lemma sample_app_ok:
  assumes "wf_slot c0" and "wf_slot c1" and "wf_context 0 (socket_fd c0) e0" and "wf_context 1 (socket_fd c1) e1"
  shows "stack_ok no (sample_app no [c0, c1] [e0, e1])"
  using assms task_config_wf
  by (auto simp: stack_ok_def sample_app_def wf_interface_def entity_inv_def less_2_cases_iff)

lemma sample_slots [simp]: "wf_slot closed_connection" "wf_slot (open_connection [])"
  by (simp_all add: closed_connection_def wf_slot_def wf_conn_def open_connection_def)

text \<open>C12. Memory safety of the running task: on every network whose receive operations return at
  most the bytes they were asked for, whatever these bytes are and whatever the kernel does, the
  entity task performs no undefined behaviour from its start through any number of cycles, and the
  invariant of interface and entity holds afterwards. The one other outcome is that a receive
  loop does not return.\<close>

theorem entity_task_memory_safe:
  assumes "network no" and "length (connections (iface s)) = 2" and "length (udp_rx_buffer (iface s)) = 4096"
    and "\<forall>c \<in> set (connections (iface s)). length (rx_buffer c) = 4096"
    and "length (ent_connections (entity s)) = 2"
  shows "entity_task os no n s = never_returns
    \<or> (\<exists>t s'. entity_task os no n s = returns (t, s') \<and> stack_ok no s')"
proof -
  obtain running s1 where "entity_task_start os no s = Some (running, s1)" and ok: "stack_ok no s1"
    using task_start_ok [OF assms(2-5), of os no] by blast
  then show ?thesis
    using network.cycles_safe [OF assms(1) ok, of "[0..<n]" os "xTaskGetTickCount os (kernel s1)"]
    by (cases running) (auto simp: entity_task_def)
qed

theorem entity_task_memory_safe_witness:
  "entity_task sample_os log_ops 5 (sample_app log_ops [closed_connection, closed_connection]
       [context_of (-1) False 0, context_of (-1) False 0]) = never_returns
   \<or> (\<exists>t s'. entity_task sample_os log_ops 5 (sample_app log_ops [closed_connection, closed_connection]
       [context_of (-1) False 0, context_of (-1) False 0]) = returns (t, s') \<and> stack_ok log_ops s')"
  by (rule entity_task_memory_safe [OF recording.network_axioms])
    (simp_all add: sample_app_def closed_connection_def)

text \<open>C14. The receive loop is the only place where the entity can hang, and it does so for one header only: a cycle of the entity
  from a well-formed state never returns if the bytes that a connection receives in this cycle, behind those in its buffer, contain, after complete
  messages, a header whose length field makes the message size wrap to zero; in every other case it returns with
  success and the state is well formed again. The second connection is judged in the state that the first one leaves.\<close>

theorem entity_process_returns:
  assumes "network no" and "stack_ok no s"
  shows "if poll_hangs no (Some entity_udp_rx_callback) (Some (entity_tcp_rx_callback (Some doip_entity_uds_rx_handler)))
        (Some entity_tcp_connected_callback) (Some entity_tcp_disconnected_callback) s
    then doip_entity_process address_of_it (Some doip_entity_uds_rx_handler) s = never_returns
    else \<exists>s'. doip_entity_process address_of_it (Some doip_entity_uds_rx_handler) s = returns (DOIP_RESULT_OK, s') \<and> stack_ok no s'"
  by (rule network.entity_process_exact [OF assms])

lemma sample_app_quiet:
  "process_udp (Some entity_udp_rx_callback) (sample_app (feed_ops bs) cs es) = Some (sample_app (feed_ops bs) cs es)"
  "process_accept (Some entity_tcp_connected_callback) (sample_app (feed_ops bs) cs es) = Some (sample_app (feed_ops bs) cs es)"
  by (auto simp: process_udp_def process_accept_def sample_app_def log_ops_def feed_ops_def ops_def exec_simps wr_block_0)

theorem entity_process_returns_witness:
  "\<exists>s'. doip_entity_process address_of_it (Some doip_entity_uds_rx_handler)
      (sample_app (feed_ops (frame (GenericNack 4))) [open_connection [], closed_connection]
         [context_of 0 False 0, context_of (-1) False 0]) = returns (DOIP_RESULT_OK, s')
    \<and> stack_ok (feed_ops (frame (GenericNack 4))) s'"
proof -
  let ?f = "frame (GenericNack 4)"
  let ?s = "sample_app (feed_ops ?f) [open_connection [], closed_connection] [context_of 0 False 0, context_of (-1) False 0]"
  have ok: "stack_ok (feed_ops ?f) ?s" by (rule sample_app_ok) (auto simp: wf_context_def)
  have "\<not> stalls ?f"
    using split_frames_frame [of "GenericNack 4" "[]"] by (simp add: stalls_def split_frames_done)
  then have "\<not> stalls (take 4096 ?f)" by (simp add: length_frame)
  then have "\<not> slot_stalls (feed_ops ?f) 0 ?s"
    by (simp add: slot_stalls_def conn_def rd_def sample_app_def feed_ops_def open_connection_def [of "[]"] pending_def)
  moreover have "\<not> slot_stalls (feed_ops ?f) 1 s3" if "process_connection (Some (entity_tcp_rx_callback (Some doip_entity_uds_rx_handler)))
      (Some entity_tcp_disconnected_callback) 0 ?s = returns s3" for s3
  proof -
    have "sys_ok (feed_ops ?f) (\<lambda>s. entity_inv s \<and> True) ?s" using ok by (simp only: feeding.stack_sys_ok)
    moreover have c: "conn ?s 0 = Some (open_connection [])" "conn ?s 1 = Some closed_connection" by (simp_all add: conn_def rd_def sample_app_def)
    ultimately have "conn s3 1 = Some closed_connection"
      using feeding.stack.process_connection_returns [of ?f ?s 0 "open_connection []"] that \<open>\<not> slot_stalls (feed_ops ?f) 0 ?s\<close> by auto
    then show ?thesis by (simp add: slot_stalls_def closed_connection_def)
  qed
  ultimately have "\<not> poll_hangs (feed_ops ?f) (Some entity_udp_rx_callback) (Some (entity_tcp_rx_callback (Some doip_entity_uds_rx_handler)))
        (Some entity_tcp_connected_callback) (Some entity_tcp_disconnected_callback) ?s"
    by (auto simp: poll_hangs_def sample_app_quiet split: option.splits)
  then show ?thesis
    using entity_process_returns [OF feeding.network_axioms ok] by simp
qed

text \<open>C15. One message stops the entity: when a header with the length field \<open>0xFFFFFFF8\<close> arrives at the
  front of the empty buffer of the first connection, the size of the message is zero in 32 bits,
  the receive loop removes zero bytes again and again, and the cycle never returns.\<close>

theorem zero_size_message_hangs:
  assumes "network no" and "stack_ok no s"
    and "process_udp (Some entity_udp_rx_callback) s = Some s1"
    and "process_accept (Some entity_tcp_connected_callback) s1 = Some s2"
    and "conn s2 0 = Some c" and "socket_fd c \<ge> 0" and "pending c = []"
    and "tcp_recv no (socket_fd c) 4096 (net s2) = ((int (length ys), ys), w)"
    and "ys = header_bytes h @ zs" and "payload_length h = 0xFFFFFFF8"
  shows "doip_entity_process address_of_it (Some doip_entity_uds_rx_handler) s = never_returns"
proof -
  have "wf_conn c"
    using network.accepted_conn_wf [OF assms(1-5)] .
  then have "rx_buffer_used c = 0"
    using length_pending [of c] assms(7) by (simp add: unat_eq_0)
  moreover have "msg_size ys = 0" 
    by (simp add: msg_size_def assms(9,10))
  then have "stalls (pending c @ ys)"
    using assms(7,9) by (simp add: stalls_def split_frames_done)
  moreover have "ys \<noteq> []"
    using assms(9) length_header_bytes [of h] by (metis append_is_Nil_conv list.size(3) zero_neq_numeral)
  ultimately show ?thesis
    using network.process_hangs_on_stall [OF assms(1-6), of ys w] assms(8) by simp
qed

theorem zero_size_message_hangs_witness:
  "doip_entity_process address_of_it (Some doip_entity_uds_rx_handler)
      (sample_app (feed_ops [2, 0xFD, 0, 0, 0xFF, 0xFF, 0xFF, 0xF8]) [open_connection [], closed_connection]
         [context_of 0 False 0, context_of (-1) False 0]) = never_returns"
proof (rule zero_size_message_hangs [OF feeding.network_axioms sample_app_ok sample_app_quiet(1) sample_app_quiet(2)])
  let ?h = "\<lparr>protocol_version = 2, inverse_protocol_version = 0xFD, payload_type = 0, payload_length = 0xFFFFFFF8\<rparr>"
  show "[2, 0xFD, 0, 0, 0xFF, 0xFF, 0xFF, 0xF8] = header_bytes ?h @ []" and "payload_length ?h = 0xFFFFFFF8"
    by (simp_all add: header_bytes_def be16_def be32_def)
qed (auto simp: wf_context_def conn_def rd_def sample_app_def feed_ops_def)



text \<open>A diagnostic message without user data is not rejected: the handler subtracts one from the
  length zero and treats whatever lies in the receive buffer behind the message as the request.\<close>

lemma empty_request_runs_stale_bytes:
  assumes "6 \<le> length d" and "length d \<le> 4084"
  shows "doip_entity_uds_rx_handler sa ta (Some d) 0 s = doip_entity_uds_rx_handler sa ta (Some d) (of_nat (length d)) s"
proof -
  have "unat (- 1 :: u32) = 4294967295"
    by (simp add: unsigned_minus_1_eq_mask mask_eq_exp_minus_1)
  then have "unat (- 1 :: u32) \<ge> length d"
    using assms(2) by simp
  moreover have "unat (of_nat (length d) - 1 :: u32) = length d - 1"
    using assms by (intro unat_pred_u32) linarith+
  ultimately have "params (request_of d 0) = params (request_of d (of_nat (length d)))"
    by (simp add: params_def request_of_def)
  then show ?thesis
    by (simp only: handler_eq [OF assms(1)] answer_to_def)
qed

end
