(* ===== verification/DoIP_Tester.thy ===== *)
theory DoIP_Tester
  imports DoIP_Entity
begin

text \<open>
  The DoIP tester (the client side) of \<^verbatim>\<open>src/doip/app_doip_tester.h\<close> and
  \<^verbatim>\<open>src/doip/app_doip_tester.c\<close>: discovery, connection, routing activation, diagnostic requests,
  the two callbacks it registers with the interface, and its timer. The theory ends with the
  exchange between tester and entity: what one side sends is what the other side understands.

  The tester extends the system record of the interface, as the entity does. Its \<open>user_data\<close> is the
  address of the indication function that \<open>doip_tester_process\<close> stores there; the code never calls
  it through that field, so the address is a number. A C string is the list of its characters
  before the terminating zero; the array \<open>ip_address\<close> is a list of 16 characters.
\<close>

section \<open>Data\<close>

record doip_tester_config_t =
  tst_logical_address :: u16
  tst_activation_type :: u8
  response_timeout :: u32
  max_retry_count :: u32

datatype doip_tester_state_t =
  DOIP_TESTER_STATE_IDLE | DOIP_TESTER_STATE_DISCOVERY | DOIP_TESTER_STATE_CONNECTING
  | DOIP_TESTER_STATE_ACTIVATING | DOIP_TESTER_STATE_READY | DOIP_TESTER_STATE_ERROR

record doip_discovered_entity_t =
  ip_address :: string
  disc_port :: u16
  disc_vin :: bytes
  disc_logical_address :: u16
  disc_eid :: bytes

record doip_tester_t =
  tst_config :: doip_tester_config_t
  tst_interface :: object_ptr
  tst_state :: doip_tester_state_t
  tcp_connection_id :: int
  tst_entity :: doip_discovered_entity_t
  routing_activated :: bool
  timeout_timer :: u32
  tst_user_data :: "nat ptr"

record 'w tester_system = "'w net_system" +
  tester :: doip_tester_t

type_synonym 's tester_uds_indication = "u16 \<Rightarrow> bytes ptr \<Rightarrow> u32 \<Rightarrow> nat ptr \<Rightarrow> 's \<Rightarrow> 's exec"

text \<open>\<open>strncpy\<close> of at most \<open>n\<close> characters: short strings are padded with zeros up to \<open>n\<close>, long
  ones are cut without a terminating zero.\<close>

definition strncpy :: "string \<Rightarrow> string \<Rightarrow> nat \<Rightarrow> string exec" where
  "strncpy dest src n = wr_block dest 0 (take n src @ replicate (n - length src) (CHR 0x00))"

abbreviation (input) set_tester ::
    "(doip_tester_t \<Rightarrow> doip_tester_t) \<Rightarrow> ('w, 'z) tester_system_scheme \<Rightarrow> ('w, 'z) tester_system_scheme" where
  "set_tester f s \<equiv> s\<lparr>tester := f (tester s)\<rparr>"

section \<open>Operations\<close>

definition doip_tester_init ::
    "object_ptr \<Rightarrow> doip_tester_config_t ptr \<Rightarrow> object_ptr \<Rightarrow> ('w, 'z) tester_system_scheme
      \<Rightarrow> (doip_result_t \<times> ('w, 'z) tester_system_scheme) exec" where
  "doip_tester_init tst cfg interface s =
     (if tst = NULL \<or> cfg = NULL \<or> interface = NULL then Some (DOIP_RESULT_INVALID_PARAM, s)
      else do {
        c \<leftarrow> cfg;
        Some (DOIP_RESULT_OK, set_tester (\<lambda>t. t\<lparr>tst_config := c, tst_interface := interface,
          tst_state := DOIP_TESTER_STATE_IDLE, tcp_connection_id := -1, routing_activated := False,
          timeout_timer := 0\<rparr>) s)
      })"

definition doip_tester_start_discovery ::
    "object_ptr \<Rightarrow> ('w, 'z) tester_system_scheme \<Rightarrow> (doip_result_t \<times> ('w, 'z) tester_system_scheme) exec" where
  "doip_tester_start_discovery tst s =
     (if tst = NULL then Some (DOIP_RESULT_INVALID_PARAM, s)
      else do {
        (result, s) \<leftarrow> doip_interface_start_udp (tst_interface (tester s)) 0 s;
        if result \<noteq> DOIP_RESULT_OK then Some (result, s)
        else do {
          let header = header_2019 DOIP_PAYLOAD_TYPE_VEHICLE_ID_REQ 0;
          (result, buffer) \<leftarrow> doip_encode_header (Some header) (Some (local_array 16)) 16;
          if result \<noteq> DOIP_RESULT_OK then Some (result, s)
          else do {
            (result, s) \<leftarrow> doip_interface_udp_broadcast (tst_interface (tester s)) buffer 8
                            DOIP_UDP_DISCOVERY_PORT s;
            Some (result,
              if result = DOIP_RESULT_OK
              then set_tester (\<lambda>t. t\<lparr>tst_state := DOIP_TESTER_STATE_DISCOVERY,
                     timeout_timer := response_timeout (tst_config t)\<rparr>) s
              else s)
          }
        }
      })"

definition doip_tester_connect ::
    "object_ptr \<Rightarrow> string ptr \<Rightarrow> u16 \<Rightarrow> ('w, 'z) tester_system_scheme
      \<Rightarrow> (doip_result_t \<times> ('w, 'z) tester_system_scheme) exec" where
  "doip_tester_connect tst entity_ip entity_port s =
     (if tst = NULL \<or> entity_ip = NULL then Some (DOIP_RESULT_INVALID_PARAM, s)
      else do {
        ip \<leftarrow> entity_ip;
        _ \<leftarrow> tst_interface (tester s);
        no \<leftarrow> ops s;
        let (fd, w) = tcp_connect no ip entity_port (net s);
        let s = s\<lparr>net := w\<rparr>;
        if fd < 0 then Some (DOIP_RESULT_ERROR, s)
        else do {
          let s = set_tester (\<lambda>t. t\<lparr>tcp_connection_id := 0\<rparr>) s;
          s \<leftarrow> conn_update 0 (\<lambda>c. c\<lparr>socket_fd := fd, tcp_state := DOIP_CONN_STATE_PENDING_ACTIVATION\<rparr>) s;
          let s = set_tester (\<lambda>t. t\<lparr>tst_state := DOIP_TESTER_STATE_CONNECTING\<rparr>) s;
          a \<leftarrow> strncpy (ip_address (tst_entity (tester s))) ip 15;
          Some (DOIP_RESULT_OK, set_tester (\<lambda>t. t\<lparr>tst_entity :=
            (tst_entity t)\<lparr>ip_address := a, disc_port := entity_port\<rparr>\<rparr>) s)
        }
      })"

definition doip_tester_activate_routing ::
    "object_ptr \<Rightarrow> ('w, 'z) tester_system_scheme \<Rightarrow> (doip_result_t \<times> ('w, 'z) tester_system_scheme) exec" where
  "doip_tester_activate_routing tst s =
     (if tst = NULL then Some (DOIP_RESULT_INVALID_PARAM, s)
      else if tcp_connection_id (tester s) < 0 then Some (DOIP_RESULT_NOT_READY, s)
      else do {
        let request = \<lparr>rreq_source_address = tst_logical_address (tst_config (tester s)),
                       activation_type = tst_activation_type (tst_config (tester s)),
                       rreq_reserved = 0, rreq_oem_specific = 0\<rparr>;
        (result, buffer, encoded_length) \<leftarrow>
          doip_encode_routing_activation_req (Some request) (Some (local_array 32)) 32 (Some 0);
        if result \<noteq> DOIP_RESULT_OK then Some (result, s)
        else do {
          n \<leftarrow> encoded_length;
          (result, s) \<leftarrow> doip_interface_tcp_send (tst_interface (tester s)) (tcp_connection_id (tester s)) buffer n s;
          Some (result,
            if result = DOIP_RESULT_OK
            then set_tester (\<lambda>t. t\<lparr>tst_state := DOIP_TESTER_STATE_ACTIVATING,
                   timeout_timer := response_timeout (tst_config t)\<rparr>) s
            else s)
        }
      })"

definition doip_tester_send_diagnostic ::
    "object_ptr \<Rightarrow> u16 \<Rightarrow> bytes ptr \<Rightarrow> u32 \<Rightarrow> ('w, 'z) tester_system_scheme
      \<Rightarrow> (doip_result_t \<times> ('w, 'z) tester_system_scheme) exec" where
  "doip_tester_send_diagnostic tst target_addr uds_data len s =
     (if tst = NULL \<or> uds_data = NULL then Some (DOIP_RESULT_INVALID_PARAM, s)
      else if \<not> routing_activated (tester s) then Some (DOIP_RESULT_NOT_READY, s)
      else do {
        let diag_msg = \<lparr>dm_source_address = tst_logical_address (tst_config (tester s)),
                        dm_target_address = target_addr, user_data_length = len, user_data = uds_data\<rparr>;
        (result, buffer, encoded_length) \<leftarrow>
          doip_encode_diagnostic_message (Some diag_msg) (Some (local_array 4104)) 4104 (Some 0);
        if result \<noteq> DOIP_RESULT_OK then Some (result, s)
        else do {
          n \<leftarrow> encoded_length;
          doip_interface_tcp_send (tst_interface (tester s)) (tcp_connection_id (tester s)) buffer n s
        }
      })"

section \<open>Received messages\<close>

definition handle_vehicle_announcement ::
    "string \<Rightarrow> u16 \<Rightarrow> bytes \<Rightarrow> u32 \<Rightarrow> ('w, 'z) tester_system_scheme \<Rightarrow> ('w, 'z) tester_system_scheme exec" where
  "handle_vehicle_announcement src_ip src_port payload len s =
     (if tst_state (tester s) \<noteq> DOIP_TESTER_STATE_DISCOVERY then Some s
      else if len < 33 then Some s
      else do {
        let e = tst_entity (tester s);
        a \<leftarrow> strncpy (ip_address e) src_ip 15;
        let e = e\<lparr>ip_address := a, disc_port := DOIP_TCP_DATA_PORT\<rparr>;
        vin \<leftarrow> memcpy (disc_vin e) 0 payload (unat DOIP_VIN_LENGTH);
        hi \<leftarrow> rd payload 17;
        lo \<leftarrow> rd payload 18;
        let e = e\<lparr>disc_vin := vin, disc_logical_address := push_bit 8 (ucast hi) OR ucast lo\<rparr>;
        eid \<leftarrow> memcpy (disc_eid e) 0 (drop 19 payload) (unat DOIP_EID_LENGTH);
        Some (set_tester (\<lambda>t. t\<lparr>tst_entity := e\<lparr>disc_eid := eid\<rparr>, tst_state := DOIP_TESTER_STATE_IDLE\<rparr>) s)
      })"

definition handle_routing_activation_response ::
    "bytes \<Rightarrow> u32 \<Rightarrow> ('w, 'z) tester_system_scheme \<Rightarrow> ('w, 'z) tester_system_scheme exec" where
  "handle_routing_activation_response payload len s =
     (if tst_state (tester s) \<noteq> DOIP_TESTER_STATE_ACTIVATING then Some s
      else if len < 13 then Some s
      else do {
        response_code \<leftarrow> rd payload 4;
        Some (if response_code = DOIP_ROUTING_ACT_RES_SUCCESS \<or>
                 response_code = DOIP_ROUTING_ACT_RES_CONFIRM_REQUIRED
              then set_tester (\<lambda>t. t\<lparr>routing_activated := True, tst_state := DOIP_TESTER_STATE_READY\<rparr>) s
              else set_tester (\<lambda>t. t\<lparr>tst_state := DOIP_TESTER_STATE_ERROR\<rparr>) s)
      })"

definition tester_handle_diagnostic_message ::
    "(('w, 'z) tester_system_scheme tester_uds_indication) ptr \<Rightarrow> bytes \<Rightarrow> u32
      \<Rightarrow> ('w, 'z) tester_system_scheme \<Rightarrow> ('w, 'z) tester_system_scheme exec" where
  "tester_handle_diagnostic_message uds_indication payload len s = do {
     (res, msgp) \<leftarrow> doip_decode_diagnostic_message (Some payload) len
       (Some \<lparr>dm_source_address = 0, dm_target_address = 0, user_data_length = 0, user_data = NULL\<rparr>);
     if res \<noteq> DOIP_RESULT_OK then Some s
     else (case uds_indication of
             None \<Rightarrow> Some s
           | Some f \<Rightarrow> do {
               m \<leftarrow> msgp;
               f (dm_source_address m) (user_data m) (user_data_length m) (tst_user_data (tester s)) s
             })
   }"

definition tester_udp_rx_callback :: "('w, 'z) tester_system_scheme udp_rx_callback" where
  "tester_udp_rx_callback src_ip src_port data len s =
     (if len < 8 then Some s
      else do {
        (res, hp) \<leftarrow> doip_decode_header (Some data) len (Some uninitialised_header);
        if res \<noteq> DOIP_RESULT_OK then Some s
        else do {
          header \<leftarrow> hp;
          if payload_type header = DOIP_PAYLOAD_TYPE_VEHICLE_ANNOUNCEMENT
          then handle_vehicle_announcement src_ip src_port (drop 8 data) (payload_length header) s
          else Some s
        }
      })"

text \<open>The callback passes a null indication to the handler of diagnostic messages, as in the code.\<close>

definition tester_tcp_rx_callback :: "('w, 'z) tester_system_scheme tcp_rx_callback" where
  "tester_tcp_rx_callback conn_id data len s = do {
     (res, hp) \<leftarrow> doip_decode_header (Some data) len (Some uninitialised_header);
     if res \<noteq> DOIP_RESULT_OK then Some s
     else do {
       header \<leftarrow> hp;
       if payload_type header = DOIP_PAYLOAD_TYPE_ROUTING_ACTIVATION_RES
       then handle_routing_activation_response (drop 8 data) (payload_length header) s
       else if payload_type header = DOIP_PAYLOAD_TYPE_DIAG_MESSAGE
       then tester_handle_diagnostic_message NULL (drop 8 data) (payload_length header) s
       else Some s
     }
   }"

definition doip_tester_process ::
    "object_ptr \<Rightarrow> nat ptr \<Rightarrow> ('w, 'z) tester_system_scheme
      \<Rightarrow> (doip_result_t \<times> ('w, 'z) tester_system_scheme) run" where
  "doip_tester_process tst uds_indication s =
     (if tst = NULL then returns (DOIP_RESULT_INVALID_PARAM, s)
      else let s = set_tester (\<lambda>t. t\<lparr>tst_user_data := uds_indication\<rparr>) s in
        doip_interface_process (tst_interface (tester s)) (Some tester_udp_rx_callback)
          (Some tester_tcp_rx_callback) NULL NULL s)"

definition doip_tester_update_timers ::
    "object_ptr \<Rightarrow> u32 \<Rightarrow> ('w, 'z) tester_system_scheme \<Rightarrow> ('w, 'z) tester_system_scheme" where
  "doip_tester_update_timers tst elapsed_ms s =
     (if tst = NULL then s
      else if timeout_timer (tester s) > 0 then
        if timeout_timer (tester s) > elapsed_ms
        then set_tester (\<lambda>t. t\<lparr>timeout_timer := timeout_timer t - elapsed_ms\<rparr>) s
        else set_tester (\<lambda>t. t\<lparr>timeout_timer := 0,
               tst_state := if tst_state t = DOIP_TESTER_STATE_DISCOVERY then DOIP_TESTER_STATE_ERROR
                            else if tst_state t = DOIP_TESTER_STATE_ACTIVATING then DOIP_TESTER_STATE_ERROR
                            else tst_state t\<rparr>) s
      else s)"

definition doip_tester_is_ready :: "('w, 'z) tester_system_scheme ptr \<Rightarrow> bool" where
  "doip_tester_is_ready tst =
     (case tst of None \<Rightarrow> False
      | Some s \<Rightarrow> tst_state (tester s) = DOIP_TESTER_STATE_READY \<and> routing_activated (tester s))"

section \<open>The invariant\<close>

text \<open>The arrays have their sizes, the tester points to the interface, uses slot 0 or none, and is
  only ready after an activation.\<close>

definition tester_inv :: "('w, 'z) tester_system_scheme \<Rightarrow> bool" where
  "tester_inv s \<longleftrightarrow> tst_interface (tester s) = address_of_it
     \<and> length (ip_address (tst_entity (tester s))) = 16 \<and> length (disc_vin (tst_entity (tester s))) = 17
     \<and> length (disc_eid (tst_entity (tester s))) = 6 \<and> tcp_connection_id (tester s) \<in> {-1, 0}
     \<and> (tst_state (tester s) = DOIP_TESTER_STATE_READY \<longrightarrow> routing_activated (tester s))"

definition tester_ok :: "'w doip_network_ops_t \<Rightarrow> ('w, 'z) tester_system_scheme \<Rightarrow> bool" where
  "tester_ok no s \<longleftrightarrow> wf_interface (iface s) \<and> net_ops (iface s) = Some no \<and> tester_inv s"

lemma tester_inv_frame [simp]:
  "tester_inv (s\<lparr>net := w\<rparr>) = tester_inv s" "tester_inv (s\<lparr>iface := f\<rparr>) = tester_inv s"
  by (simp_all add: tester_inv_def)

lemma strncpy_ok:
  assumes "length d = Suc n"
  shows "strncpy d s n = Some (take n s @ replicate (n - length s) (CHR 0x00) @ [d ! n])"
proof -
  have "drop n d = [d ! n]"
    using assms by (metis Cons_nth_drop_Suc drop_all lessI order_refl)
  moreover have "min (length s) n + (n - length s) = n"
    by simp
  ultimately show ?thesis
    using assms by (simp add: strncpy_def wr_block_0)
qed

text \<open>The record of the discovered entity after an announcement from the address \<open>ip\<close>.\<close>

definition discovered :: "string \<Rightarrow> bytes \<Rightarrow> doip_discovered_entity_t \<Rightarrow> doip_discovered_entity_t" where
  "discovered ip p e = e\<lparr>ip_address := take 15 ip @ replicate (15 - length ip) (CHR 0x00) @ [ip_address e ! 15],
     disc_port := 13400, disc_vin := take 17 p, disc_logical_address := of_be16 (p ! 17) (p ! 18),
     disc_eid := take 6 (drop 19 p)\<rparr>"

lemma announcement_stored:
  assumes "tester_inv s" and "25 \<le> length p"
  shows "handle_vehicle_announcement ip port p n s =
    Some (if tst_state (tester s) \<noteq> DOIP_TESTER_STATE_DISCOVERY \<or> n < 33 then s
          else s\<lparr>tester := (tester s)\<lparr>tst_entity := discovered ip p (tst_entity (tester s)),
                                      tst_state := DOIP_TESTER_STATE_IDLE\<rparr>\<rparr>)"
  using assms
  by (simp add: handle_vehicle_announcement_def tester_inv_def strncpy_ok exec_simps wr_block_0
      discovered_def of_be16_def Let_def)

lemma activation_stored:
  assumes "5 \<le> length p"
  shows "handle_routing_activation_response p n s =
    Some (if tst_state (tester s) \<noteq> DOIP_TESTER_STATE_ACTIVATING \<or> n < 13 then s
          else if p ! 4 = 0x10 \<or> p ! 4 = 0x11
          then s\<lparr>tester := (tester s)\<lparr>routing_activated := True, tst_state := DOIP_TESTER_STATE_READY\<rparr>\<rparr>
          else s\<lparr>tester := (tester s)\<lparr>tst_state := DOIP_TESTER_STATE_ERROR\<rparr>\<rparr>)"
  using assms by (simp add: handle_routing_activation_response_def rd_def)

lemma diagnostic_dropped: "4 \<le> length p \<Longrightarrow> tester_handle_diagnostic_message NULL p n s = Some s"
  by (cases "n < 4") (simp_all add: tester_handle_diagnostic_message_def exec_simps)

lemma tester_tcp_dispatch:
  assumes "13 \<le> length d"
  shows "tester_tcp_rx_callback k d n s =
    (if n < 8 \<or> payload_type (header_of d) \<noteq> 0x0006 then Some s
     else handle_routing_activation_response (drop 8 d) (payload_length (header_of d)) s)"
  using assms by (cases "n < 8") (simp_all add: tester_tcp_rx_callback_def exec_simps diagnostic_dropped)

lemma tester_udp_dispatch:
  assumes "8 \<le> length d"
  shows "tester_udp_rx_callback ip port d n s =
    (if n < 8 \<or> payload_type (header_of d) \<noteq> 0x0004 then Some s
     else handle_vehicle_announcement ip port (drop 8 d) (payload_length (header_of d)) s)"
  using assms by (cases "n < 8") (simp_all add: tester_udp_rx_callback_def exec_simps)

lemma tester_tcp_keeps: "tester_tcp_rx_callback k d n s = Some s' \<Longrightarrow> iface s' = iface s \<and> net s' = net s"
  by (auto simp: tester_tcp_rx_callback_def handle_routing_activation_response_def
      tester_handle_diagnostic_message_def split: Option.bind_splits if_splits prod.splits)

lemma tester_tcp_total:
  assumes "tester_inv s" and "length d = 4096"
  shows "\<exists>s'. tester_tcp_rx_callback k d n s = Some s' \<and> tester_inv s'"
  using assms by (auto simp: tester_tcp_dispatch activation_stored) (auto simp: tester_inv_def)

lemma tester_udp_total:
  assumes "tester_inv s" and "length d = 4096"
  shows "\<exists>s'. tester_udp_rx_callback ip port d n s = Some s' \<and> iface s' = iface s \<and> tester_inv s'"
  using assms by (auto simp: tester_udp_dispatch announcement_stored) (auto simp: tester_inv_def discovered_def)

text \<open>The tester is a client of the interface on every network that keeps its contract.\<close>

sublocale network \<subseteq> tester_side: interface_client no "Some tester_tcp_rx_callback" "Some tester_udp_rx_callback"
    NULL NULL "tester_inv :: ('w, 'z) tester_system_scheme \<Rightarrow> bool"
proof (unfold_locales, goal_cases)
  case (1 j d n s s')
  then show ?case using tester_tcp_keeps [of j d n s s'] by (simp add: call_tcp_def)
next
  case (4 s ucb d n ip port)
  then show ?case using tester_udp_total [of s d ip port n] by auto
next
  case (5 s i d n)
  then show ?case using tester_tcp_total [of s d "int i" n] by (simp add: call_tcp_def)
next
  case (6 s i g t)
  then have "s\<lparr>iface := iface t\<rparr> = t" using conn_update_frame by blast
  then show ?case using 6 tester_inv_frame(2) [where s = s and f = "iface t"] by (simp add: call_conn_def)
next
  case (7 s i h)
  then show ?case
    by (auto simp: call_conn_def conn_update_def upd_at_def wf_interface_def)
qed simp_all

section \<open>Every operation keeps the invariant\<close>

lemma udp_broadcast_ok:
  assumes "net_ops (iface s) = Some no"
  shows "\<exists>r w. doip_interface_udp_broadcast address_of_it (Some d) n port s = Some (r, s\<lparr>net := w\<rparr>)"
  using assms by (auto simp: doip_interface_udp_broadcast_def ops_def split: prod.splits)

lemma start_discovery_ok:
  assumes "tester_ok no s"
  shows "\<exists>r s'. doip_tester_start_discovery address_of_it s = Some (r, s') \<and> tester_ok no s'"
proof -
  obtain fd w where fd: "udp_bind no 0 (net s) = (fd, w)" by fastforce
  let ?t = "s\<lparr>iface := (iface s)\<lparr>udp_socket := fd\<rparr>, net := w\<rparr>"
  have t: "tester_ok no ?t" "tst_interface (tester s) = address_of_it" "net_ops (iface s) = Some no"
    using assms by (simp_all add: tester_ok_def wf_interface_def tester_inv_def)
  obtain r v where "doip_interface_udp_broadcast address_of_it
      (Some (header_bytes (header_2019 1 0) @ replicate 8 0)) 8 13400 ?t = Some (r, ?t\<lparr>net := v\<rparr>)"
    using udp_broadcast_ok [of ?t no "header_bytes (header_2019 1 0) @ replicate 8 0" 8 13400] t(3) by auto
  moreover have "doip_encode_header (Some (header_2019 1 0)) (Some (local_array 16)) 16 =
      Some (DOIP_RESULT_OK, Some (header_bytes (header_2019 1 0) @ replicate 8 0))"
    by (simp add: exec_simps wr_block_0 local_array_def)
  ultimately show ?thesis
    using t fd
    by (cases "fd < 0") (auto simp: doip_tester_start_discovery_def doip_interface_start_udp_def ops_def Let_def
        tester_ok_def tester_inv_def)
qed

lemma tester_connect_ok:
  assumes "tester_ok no s"
  shows "\<exists>r s'. doip_tester_connect address_of_it (Some ip) port s = Some (r, s') \<and> tester_ok no s'"
proof -
  obtain fd w where fd: "tcp_connect no ip port (net s) = (fd, w)" by fastforce
  obtain c0 c1 where c: "connections (iface s) = [c0, c1]"
    using assms by (auto simp: tester_ok_def wf_interface_def numeral_2_eq_2 length_Suc_conv)
  note defs = doip_tester_connect_def tester_ok_def tester_inv_def ops_def Let_def
  show ?thesis
  proof (cases "fd < 0")
    case True
    then show ?thesis using assms fd by (simp add: defs)
  next
    case False
    have "wf_slot (c0\<lparr>socket_fd := fd, tcp_state := DOIP_CONN_STATE_PENDING_ACTIVATION\<rparr>)"
      using assms c False by (simp add: tester_ok_def wf_interface_def wf_slot_def wf_conn_def)
    then show ?thesis
      using False assms fd c by (simp add: defs conn_update_def upd_at_def strncpy_ok wf_interface_def)
  qed
qed

lemma tester_tcp_send_ok:
  assumes "tester_ok no s"
  shows "\<exists>r w. doip_interface_tcp_send address_of_it (tcp_connection_id (tester s)) (Some d) n s = Some (r, s\<lparr>net := w\<rparr>)"
proof -
  let ?k = "tcp_connection_id (tester s)"
  obtain r t where t: "doip_interface_tcp_send address_of_it ?k (Some d) n s = Some (r, t)"
  proof (cases "?k = 0")
    case True
    then show ?thesis
      using that interface_tcp_send_ok [of s no 0 d n] assms by (auto simp: tester_ok_def)
  next
    case False
    then have "?k = -1" using assms by (simp add: tester_ok_def tester_inv_def)
    then show ?thesis using that by (simp add: doip_interface_tcp_send_def)
  qed
  obtain w where "t = s\<lparr>net := w\<rparr>"
    using tcp_send_keeps [OF t] by blast
  then show ?thesis using t by auto
qed

lemma activate_routing_ok:
  assumes "tester_ok no s"
  shows "\<exists>r s'. doip_tester_activate_routing address_of_it s = Some (r, s') \<and> tester_ok no s'"
proof (cases "tcp_connection_id (tester s) = 0")
  case True
  let ?m = "RoutingActivationReq (tst_logical_address (tst_config (tester s)))
             (tst_activation_type (tst_config (tester s))) 0 0"
  obtain r w where "doip_interface_tcp_send address_of_it 0 (Some (frame ?m @ replicate 13 0)) 19 s = Some (r, s\<lparr>net := w\<rparr>)"
    using tester_tcp_send_ok [OF assms, of "frame ?m @ replicate 13 0" 19] True by auto
  then show ?thesis
    using assms True
    by (auto simp: doip_tester_activate_routing_def wire_simps local_array_def writes_frame_def length_frame
        tester_ok_def tester_inv_def)
next
  case False
  then show ?thesis
    using assms by (auto simp: doip_tester_activate_routing_def tester_ok_def tester_inv_def)
qed

lemma tester_send_ok:
  assumes "tester_ok no s" and "unat len \<le> length d" and "unat len < 4294967284"
  shows "\<exists>r s'. doip_tester_send_diagnostic address_of_it ta (Some d) len s = Some (r, s') \<and> tester_ok no s'"
proof -
  consider "\<not> routing_activated (tester s)" | "4104 < 12 + len" | "routing_activated (tester s)" "\<not> 4104 < 12 + len"
    by blast
  then show ?thesis
  proof cases
    case 3
    let ?k = "tcp_connection_id (tester s)"
    let ?m = "DiagMessage (tst_logical_address (tst_config (tester s))) ta (take (unat len) d)"
    have "unat (12 + len) = 12 + unat len"
      using unat_add_no_wrap [of 12 len] assms(3) by simp
    then have "12 + unat len \<le> 4104"
      using 3(2) by (simp add: not_less word_le_nat_alt)
    then have "doip_encode_diagnostic_message
        (Some \<lparr>dm_source_address = tst_logical_address (tst_config (tester s)), dm_target_address = ta,
               user_data_length = len, user_data = Some d\<rparr>) (Some (local_array 4104)) 4104 (Some 0) =
        writes_frame ?m (local_array 4104)"
      using assms 3(2) by (intro doip_encode_diagnostic_message_frame) (simp_all add: local_array_def)
    moreover obtain r w where "doip_interface_tcp_send address_of_it ?k
        (Some (frame ?m @ drop (length (frame ?m)) (local_array 4104))) (of_nat (length (frame ?m))) s =
        Some (r, s\<lparr>net := w\<rparr>)"
      using tester_tcp_send_ok [OF assms(1)] by blast
    moreover have "tst_interface (tester s) = address_of_it" "tester_ok no (s\<lparr>net := w\<rparr>)"
      using assms(1) by (simp_all add: tester_ok_def tester_inv_def)
    ultimately show ?thesis
      using 3(1) by (simp add: doip_tester_send_diagnostic_def writes_frame_def)
  qed (use assms in \<open>auto simp: doip_tester_send_diagnostic_def doip_encode_diagnostic_message_def\<close>)
qed

lemma update_timers_ok: "tester_ok no s \<Longrightarrow> tester_ok no (doip_tester_update_timers p el s)"
  by (auto simp: doip_tester_update_timers_def tester_ok_def tester_inv_def)

context network
begin

lemma tester_process_exact:
  fixes s :: "('w, 'z) tester_system_scheme"
  assumes "tester_ok no s"
  shows "if poll_hangs no (Some tester_udp_rx_callback) (Some tester_tcp_rx_callback) NULL NULL (set_tester (\<lambda>t. t\<lparr>tst_user_data := f\<rparr>) s)
    then doip_tester_process address_of_it f s = never_returns
    else \<exists>s'. doip_tester_process address_of_it f s = returns (DOIP_RESULT_OK, s') \<and> tester_ok no s'"
proof -
  let ?s = "set_tester (\<lambda>t. t\<lparr>tst_user_data := f\<rparr>) s"
  have "sys_ok no tester_inv ?s" and "tst_interface (tester ?s) = address_of_it"
    using assms by (simp_all add: sys_ok_def tester_ok_def tester_inv_def)
  moreover have "sys_ok no tester_inv t = tester_ok no t" for t :: "('w, 'z) tester_system_scheme"
    by (simp add: sys_ok_def tester_ok_def)
  ultimately show ?thesis
    using tester_side.process_exact [of ?s] by (simp add: doip_tester_process_def Let_def split: if_splits)
qed

lemma tester_process_keeps:
  assumes "tester_ok no s" and "doip_tester_process address_of_it f s = returns (r, s')"
  shows "tester_ok no s'"
  using tester_process_exact [OF assms(1), of f] assms(2) by (auto split: if_splits)

end

section \<open>Reachable testers\<close>

text \<open>A tester that was initialised over a well-formed interface, after any sequence of calls of its
  operations, polls and timer updates; between the calls the network may do anything. A call of
  \<open>doip_tester_send_diagnostic\<close> passes a length that its data covers.\<close>

inductive tester_reachable :: "'w doip_network_ops_t \<Rightarrow> ('w, 'z) tester_system_scheme \<Rightarrow> bool" for no where
  init: "wf_interface (iface s) \<Longrightarrow> net_ops (iface s) = Some no \<Longrightarrow> length (ip_address (tst_entity (tester s))) = 16 \<Longrightarrow>
     length (disc_vin (tst_entity (tester s))) = 17 \<Longrightarrow> length (disc_eid (tst_entity (tester s))) = 6 \<Longrightarrow>
     doip_tester_init address_of_it (Some cfg) address_of_it s = Some (r, s') \<Longrightarrow> tester_reachable no s'"
| discovery: "tester_reachable no s \<Longrightarrow> doip_tester_start_discovery address_of_it s = Some (r, s') \<Longrightarrow> tester_reachable no s'"
| connect: "tester_reachable no s \<Longrightarrow> doip_tester_connect address_of_it (Some ip) port s = Some (r, s') \<Longrightarrow>
     tester_reachable no s'"
| activation: "tester_reachable no s \<Longrightarrow> doip_tester_activate_routing address_of_it s = Some (r, s') \<Longrightarrow>
     tester_reachable no s'"
| request: "tester_reachable no s \<Longrightarrow> unat len \<le> length d \<Longrightarrow> unat len < 4294967284 \<Longrightarrow>
     doip_tester_send_diagnostic address_of_it ta (Some d) len s = Some (r, s') \<Longrightarrow> tester_reachable no s'"
| poll: "tester_reachable no s \<Longrightarrow> doip_tester_process address_of_it f s = returns (r, s') \<Longrightarrow> tester_reachable no s'"
| tick: "tester_reachable no s \<Longrightarrow> tester_reachable no (doip_tester_update_timers address_of_it el s)"
| traffic: "tester_reachable no s \<Longrightarrow> tester_reachable no (s\<lparr>net := w\<rparr>)"

lemma tester_init_ok:
  assumes "wf_interface (iface s)" and "net_ops (iface s) = Some no" and "length (ip_address (tst_entity (tester s))) = 16"
    and "length (disc_vin (tst_entity (tester s))) = 17" and "length (disc_eid (tst_entity (tester s))) = 6"
    and "doip_tester_init address_of_it (Some cfg) address_of_it s = Some (r, s')"
  shows "tester_ok no s'"
  using assms by (auto simp: doip_tester_init_def tester_ok_def tester_inv_def)

lemma reachable_tester_ok:
  assumes "tester_reachable no s" and "network no"
  shows "tester_ok no s"
  using assms(1)
proof induction
  case (init s cfg r s')
  then show ?case by (rule tester_init_ok)
next
  case (discovery s r s')
  then show ?case using start_discovery_ok [of no s] by auto
next
  case (connect s ip port r s')
  then show ?case using tester_connect_ok [of no s ip port] by auto
next
  case (activation s r s')
  then show ?case using activate_routing_ok [of no s] by auto
next
  case (request s len d ta r s')
  then show ?case using tester_send_ok [of no s len d ta] by auto
next
  case (poll s f r s')
  then show ?case using network.tester_process_keeps [OF assms(2)] by blast
next
  case (tick s el)
  then show ?case by (simp add: update_timers_ok)
next
  case (traffic s w)
  then show ?case by (simp add: tester_ok_def)
qed

section \<open>Properties\<close>

text \<open>A tester for the witnesses: configured with the address \<open>a\<close>, connected in slot 0.\<close>

definition sample_tester :: "u16 \<Rightarrow> doip_tester_state_t \<Rightarrow> net_event list tester_system" where
  "sample_tester a st =
     \<lparr>iface = \<lparr>net_ops = Some log_ops, udp_socket = 1, tcp_listen_socket = -1,
               connections = [open_connection [], closed_connection], udp_rx_buffer = replicate 4096 0\<rparr>,
      net = [],
      tester = \<lparr>tst_config = \<lparr>tst_logical_address = a, tst_activation_type = 0, response_timeout = 2000, max_retry_count = 3\<rparr>,
                tst_interface = address_of_it, tst_state = st, tcp_connection_id = 0,
                tst_entity = \<lparr>ip_address = replicate 16 (CHR 0x00), disc_port = 0, disc_vin = replicate 17 0,
                              disc_logical_address = 0, disc_eid = replicate 6 0\<rparr>,
                routing_activated = False, timeout_timer = 0, tst_user_data = NULL\<rparr>\<rparr>"

lemma sample_tester_ok: "st \<noteq> DOIP_TESTER_STATE_READY \<Longrightarrow> tester_ok log_ops (sample_tester a st)"
  by (simp add: tester_ok_def sample_tester_def tester_inv_def wf_interface_def)
    (simp add: wf_slot_def wf_conn_def closed_connection_def)

text \<open>C16. A tester can be driven by any sequence of its operations: in every reachable state, on every
  network that keeps the receive contract, the invariant of tester and interface holds; every operation other than polling returns, touches no
  memory it should not and keeps the invariant; polling never returns exactly when a connection receives the header whose message
  size wraps to zero, and otherwise returns with success and keeps the invariant. The tester counts as ready
  exactly in its ready state.\<close>

theorem reachable_tester_safe:
  assumes "tester_reachable no s" and "network no"
  shows "tester_ok no s
    \<and> (\<exists>r s'. doip_tester_start_discovery address_of_it s = Some (r, s') \<and> tester_ok no s')
    \<and> (\<exists>r s'. doip_tester_connect address_of_it (Some ip) port s = Some (r, s') \<and> tester_ok no s')
    \<and> (\<exists>r s'. doip_tester_activate_routing address_of_it s = Some (r, s') \<and> tester_ok no s')
    \<and> (length d < 4294967284 \<longrightarrow>
         (\<exists>r s'. doip_tester_send_diagnostic address_of_it ta (Some d) (of_nat (length d)) s = Some (r, s') \<and> tester_ok no s'))
    \<and> tester_ok no (doip_tester_update_timers address_of_it el s)
    \<and> (if poll_hangs no (Some tester_udp_rx_callback) (Some tester_tcp_rx_callback) NULL NULL (set_tester (\<lambda>t. t\<lparr>tst_user_data := f\<rparr>) s)
       then doip_tester_process address_of_it f s = never_returns
       else \<exists>s'. doip_tester_process address_of_it f s = returns (DOIP_RESULT_OK, s') \<and> tester_ok no s')
    \<and> (doip_tester_is_ready (Some s) \<longleftrightarrow> tst_state (tester s) = DOIP_TESTER_STATE_READY)"
proof (intro conjI impI)
  show ok: "tester_ok no s" by (rule reachable_tester_ok [OF assms])
  show "doip_tester_is_ready (Some s) \<longleftrightarrow> tst_state (tester s) = DOIP_TESTER_STATE_READY"
    using ok by (auto simp: doip_tester_is_ready_def tester_ok_def tester_inv_def)
  show "\<exists>r s'. doip_tester_send_diagnostic address_of_it ta (Some d) (of_nat (length d)) s = Some (r, s') \<and> tester_ok no s'"
    if "length d < 4294967284"
    using that by (intro tester_send_ok [OF ok]) (simp_all add: unat_of_nat_u32)
  show "if poll_hangs no (Some tester_udp_rx_callback) (Some tester_tcp_rx_callback) NULL NULL (set_tester (\<lambda>t. t\<lparr>tst_user_data := f\<rparr>) s)
       then doip_tester_process address_of_it f s = never_returns
       else \<exists>s'. doip_tester_process address_of_it f s = returns (DOIP_RESULT_OK, s') \<and> tester_ok no s'"
    by (rule network.tester_process_exact [OF assms(2) ok])
qed (use assms in \<open>simp_all only: reachable_tester_ok start_discovery_ok tester_connect_ok activate_routing_ok update_timers_ok\<close>)

theorem reachable_tester_safe_witness:
  "\<exists>s :: net_event list tester_system. tester_reachable log_ops s \<and> tst_state (tester s) = DOIP_TESTER_STATE_DISCOVERY
     \<and> (\<exists>r s'. doip_tester_activate_routing address_of_it s = Some (r, s') \<and> tester_ok log_ops s') \<and> \<not> doip_tester_is_ready (Some s)"
proof -
  let ?s = "sample_tester 0x0E80 DOIP_TESTER_STATE_IDLE"
  let ?t = "?s\<lparr>tester := (tester ?s)\<lparr>tcp_connection_id := -1\<rparr>\<rparr>"
  obtain r u where u: "doip_tester_start_discovery address_of_it ?t = Some (r, u)" "tst_state (tester u) = DOIP_TESTER_STATE_DISCOVERY"
    by (simp add: doip_tester_start_discovery_def doip_interface_start_udp_def doip_interface_udp_broadcast_def ops_def
        sample_tester_def log_ops_def exec_simps local_array_def wr_block_0)
  have "tester_ok log_ops ?s"
    by (rule sample_tester_ok) simp
  then have "tester_reachable log_ops ?t"
    by (intro tester_reachable.init [of ?s, where cfg = "tst_config (tester ?s)" and r = DOIP_RESULT_OK])
      (simp_all add: tester_ok_def tester_inv_def, simp_all add: sample_tester_def doip_tester_init_def)
  then have "tester_reachable log_ops u"
    using u(1) by (rule tester_reachable.discovery)
  then show ?thesis
    using reachable_tester_safe [of log_ops u] recording.network_axioms u(2) by auto
qed

text \<open>C17. The activation handshake between the two sides of the protocol: the request a connected tester
  sends, delivered to an entity, is answered; the answer, delivered back to the tester, makes it ready
  and the entity's connection activated for the tester's address when that address is in the range
  \<open>0x0E00..0x0FFF\<close>, and otherwise leaves the tester in its error state and the entity unchanged.\<close>

theorem activation_handshake:
  assumes "tester_ok tno t" and "tcp_connection_id (tester t) = 0" and "socket_fd (connections (iface t) ! 0) = fd" and "0 \<le> fd"
    and "a = tst_logical_address (tst_config (tester t))" and "at = tst_activation_type (tst_config (tester t))"
    and "tcp_send tno fd (in_array 32 (frame (RoutingActivationReq a at 0 0))) 19 (net t) = (r, w)" and "0 \<le> r"
    and "wf_interface (iface e)" and "net_ops (iface e) = Some eno" and "entity_inv e" and "i < 2"
    and "length rest = 4077" and "length rest' = 4075"
  shows "\<exists>t1 e1 t2 res. doip_tester_activate_routing address_of_it t = Some (DOIP_RESULT_OK, t1) \<and> net t1 = w
    \<and> entity_tcp_rx_callback uds (int i) (frame (RoutingActivationReq a at 0 0) @ rest) 19 e =
        Some (tcp_sent eno i (in_array 32 (frame res)) 21 e1)
    \<and> tester_tcp_rx_callback 0 (frame res @ rest') 21 t1 = Some t2
    \<and> (if tester_address a
       then doip_tester_is_ready (Some t2) \<and> is_activated (ent_connections (entity e1) ! i)
            \<and> source_address (ent_connections (entity e1) ! i) = a
       else tst_state (tester t2) = DOIP_TESTER_STATE_ERROR \<and> e1 = e)"
proof -
  let ?req = "RoutingActivationReq a at 0 0" and ?c = "if tester_address a then 0x10 else 0 :: u8"
  let ?res = "RoutingActivationRes a (logical_address (config (entity e))) ?c 0 0"
  let ?t1 = "t\<lparr>net := w, tester := (tester t)\<lparr>tst_state := DOIP_TESTER_STATE_ACTIVATING,
               timeout_timer := response_timeout (tst_config (tester t))\<rparr>\<rparr>"
  let ?e1 = "if tester_address a then activate i a e else e"
  let ?t2 = "if tester_address a
             then ?t1\<lparr>tester := (tester ?t1)\<lparr>routing_activated := True, tst_state := DOIP_TESTER_STATE_READY\<rparr>\<rparr>
             else ?t1\<lparr>tester := (tester ?t1)\<lparr>tst_state := DOIP_TESTER_STATE_ERROR\<rparr>\<rparr>"
  have "conn t 0 = Some (connections (iface t) ! 0)" "net_ops (iface t) = Some tno" "tst_interface (tester t) = address_of_it"
    using assms(1) by (simp_all add: tester_ok_def conn_def rd_def wf_interface_def tester_inv_def)
  then have 1: "doip_tester_activate_routing address_of_it t = Some (DOIP_RESULT_OK, ?t1)"
    using assms(2-8)
    by (simp add: doip_tester_activate_routing_def doip_interface_tcp_send_def wire_simps writes_frame_def local_array_def
        in_array_def length_frame idx_def ops_def)
  have 2: "entity_tcp_rx_callback uds (int i) (frame ?req @ rest) 19 e = Some (tcp_sent eno i (in_array 32 (frame ?res)) 21 ?e1)"
    by (rule routing_activation_outcome [OF assms(9-12) refl]) (simp add: length_frame assms(13))
  have "header_of (frame ?res @ rest') = header_2019 0x0006 13" "(drop 8 (frame ?res @ rest')) ! 4 = ?c"
    by (simp_all add: frame_def nth_append)
  then have 3: "tester_tcp_rx_callback 0 (frame ?res @ rest') 21 ?t1 = Some ?t2"
    by (simp add: tester_tcp_dispatch activation_stored length_frame assms(14) header_2019_def)
  have "length (ent_connections (entity e)) = 2"
    using assms(11) by (simp add: entity_inv_def)
  then have 4: "if tester_address a
       then doip_tester_is_ready (Some ?t2) \<and> is_activated (ent_connections (entity ?e1) ! i)
            \<and> source_address (ent_connections (entity ?e1) ! i) = a
       else tst_state (tester ?t2) = DOIP_TESTER_STATE_ERROR \<and> ?e1 = e"
    using assms(12) by (simp add: doip_tester_is_ready_def activate_def)
  have "net ?t1 = w" by simp
  with 1 2 3 4 show ?thesis by blast
qed

theorem activation_handshake_witness:
  "\<exists>t1 e1 t2 res. doip_tester_activate_routing address_of_it (sample_tester 0x0E80 DOIP_TESTER_STATE_CONNECTING)
        = Some (DOIP_RESULT_OK, t1) \<and> net t1 = [TcpSent 3 (frame (RoutingActivationReq 0x0E80 0 0 0))]
    \<and> entity_tcp_rx_callback NULL (int 0) (frame (RoutingActivationReq 0x0E80 0 0 0) @ replicate 4077 0) 19
        (sample_system [open_connection [], closed_connection] [context_of 0 False 0, context_of (-1) False 0]) =
        Some (tcp_sent log_ops 0 (in_array 32 (frame res)) 21 e1)
    \<and> tester_tcp_rx_callback 0 (frame res @ replicate 4075 0) 21 t1 = Some t2
    \<and> doip_tester_is_ready (Some t2) \<and> is_activated (ent_connections (entity e1) ! 0)"
proof -
  let ?t = "sample_tester 0x0E80 DOIP_TESTER_STATE_CONNECTING"
  let ?e = "sample_system [open_connection [], closed_connection] [context_of 0 False 0, context_of (-1) False 0]"
  have "tester_ok log_ops ?t"
    by (rule sample_tester_ok) simp
  moreover have "tester_address 0x0E80"
    by (simp add: tester_address_def)
  ultimately show ?thesis
    using activation_handshake [of log_ops ?t 3 "0x0E80" 0 0 "[TcpSent 3 (frame (RoutingActivationReq 0x0E80 0 0 0))]"
        ?e log_ops 0 "replicate 4077 0" "replicate 4075 0" NULL]
    by (simp add: sample_system_inv wf_context_def)
      (fastforce simp: sample_tester_def log_ops_def in_array_def length_frame)
qed

text \<open>Discovery between the two sides: the request a tester broadcasts, delivered to an entity, is
  answered to the tester's address, and the answer, delivered to a tester that is in discovery,
  fills in the entity's VIN, logical address, EID, the data port and the address the datagram came
  from, and ends the discovery.\<close>

lemma discovery_exchange:
  assumes "net_ops (iface e) = Some eno" and "entity_inv e" and "length rest = 4088"
    and "tester_inv t" and "tst_state (tester t) = DOIP_TESTER_STATE_DISCOVERY" and "length rest' = 4055"
  shows "entity_udp_rx_callback tester_ip port (header_bytes (header_2019 1 0) @ rest) 8 e =
      Some (e\<lparr>net := snd (udp_sendto eno (udp_socket (iface e))
              (in_array 64 (frame (announcement (config (entity e))))) 41 tester_ip port (net e))\<rparr>)
    \<and> (\<exists>t'. tester_udp_rx_callback ip eport (frame (announcement (config (entity e))) @ rest') 41 t = Some t'
         \<and> tst_state (tester t') = DOIP_TESTER_STATE_IDLE
         \<and> disc_vin (tst_entity (tester t')) = cfg_vin (config (entity e))
         \<and> disc_logical_address (tst_entity (tester t')) = logical_address (config (entity e))
         \<and> disc_eid (tst_entity (tester t')) = cfg_eid (config (entity e))
         \<and> disc_port (tst_entity (tester t')) = 13400
         \<and> take 15 (ip_address (tst_entity (tester t'))) = take 15 ip @ replicate (15 - length ip) (CHR 0x00))"
proof
  let ?c = "config (entity e)" and ?d = "header_bytes (header_2019 1 0) @ rest"
  have h: "header_of ?d = header_2019 1 0" "doip_validate_header (Some (header_2019 1 0))"
      "addressed ?c 1 p l" for p l
    by (simp_all add: doip_validate_header_def header_2019_def addressed_def)
  then show "entity_udp_rx_callback tester_ip port ?d 8 e =
      Some (e\<lparr>net := snd (udp_sendto eno (udp_socket (iface e)) (in_array 64 (frame (announcement ?c))) 41 tester_ip port (net e))\<rparr>)"
    using identification_outcome [OF assms(1,2), of ?d 8 tester_ip port] assms(3) by (simp add: header_2019_def)
  let ?a = "announcement ?c"
  have lens: "length (cfg_vin ?c) = 17" "length (cfg_eid ?c) = 6" "length (cfg_gid ?c) = 6"
    using assms(2) by (simp_all add: entity_inv_def wf_config_def)
  then have p: "header_of (frame ?a @ rest') = header_2019 4 33"
      "drop 8 (frame ?a @ rest') = cfg_vin ?c @ be16 (logical_address ?c) @ cfg_eid ?c @ cfg_gid ?c @ [0, 0] @ rest'"
    by (simp_all add: frame_def announcement_def)
  have "of_be16 ((cfg_vin ?c @ be16 (logical_address ?c) @ ys) ! 17) ((cfg_vin ?c @ be16 (logical_address ?c) @ ys) ! 18)
      = logical_address ?c" for ys
    using lens by (simp add: nth_append of_be16_be16)
  moreover have "take 15 (take 15 ip @ replicate (15 - length ip) (CHR 0x00) @ z) = take 15 ip @ replicate (15 - length ip) (CHR 0x00)" for z
    by (simp add: min_def)
  ultimately have store: "\<exists>t'. tester_udp_rx_callback ip eport d 41 t = Some t'
         \<and> tst_state (tester t') = DOIP_TESTER_STATE_IDLE
         \<and> disc_vin (tst_entity (tester t')) = cfg_vin ?c
         \<and> disc_logical_address (tst_entity (tester t')) = logical_address ?c
         \<and> disc_eid (tst_entity (tester t')) = cfg_eid ?c
         \<and> disc_port (tst_entity (tester t')) = 13400
         \<and> take 15 (ip_address (tst_entity (tester t'))) = take 15 ip @ replicate (15 - length ip) (CHR 0x00)"
    if "length d = 4096" "header_of d = header_2019 4 33"
      "drop 8 d = cfg_vin ?c @ be16 (logical_address ?c) @ cfg_eid ?c @ cfg_gid ?c @ [0, 0] @ rest'" for d
    using that assms(4,5) lens
    by (simp add: tester_udp_dispatch announcement_stored discovered_def assms(6) header_2019_def)
  show "\<exists>t'. tester_udp_rx_callback ip eport (frame ?a @ rest') 41 t = Some t'
         \<and> tst_state (tester t') = DOIP_TESTER_STATE_IDLE
         \<and> disc_vin (tst_entity (tester t')) = cfg_vin ?c
         \<and> disc_logical_address (tst_entity (tester t')) = logical_address ?c
         \<and> disc_eid (tst_entity (tester t')) = cfg_eid ?c
         \<and> disc_port (tst_entity (tester t')) = 13400
         \<and> take 15 (ip_address (tst_entity (tester t'))) = take 15 ip @ replicate (15 - length ip) (CHR 0x00)"
    using assms(4,5) lens store [of "frame ?a @ rest'", OF _ p]
    by (simp add: length_frame assms(6) announcement_def)
qed

text \<open>The tester never hands a diagnostic response to its user: whatever indication function was
  registered, a received diagnostic message changes nothing, because the callback passes a null
  indication to the handler.\<close>

lemma tester_drops_diagnostic_responses:
  assumes "length d = 4096" and "payload_type (header_of d) = 0x8001"
  shows "tester_tcp_rx_callback k d n s = Some s"
  using assms by (simp add: tester_tcp_dispatch)

end
