(* ===== verification/Ip4_Addr.thy ===== *)
theory Ip4_Addr
  imports Prelude
begin

text \<open>
  The IPv4 address conversions of lwIP that the network adapter uses: byte order
  (\<^verbatim>\<open>core/def.c\<close>), text to address and address to text (\<^verbatim>\<open>core/ipv4/ip4_addr.c\<close>). The target is
  little-endian, so a 32-bit address in network order has its first byte in the low bits.

  A C string is the list of its characters before the terminating zero; the end of the list is
  read as that zero. \<open>ip4addr_ntoa_r\<close> returns the string it has written, or \<open>NULL\<close>.
\<close>

section \<open>Byte order\<close>

definition lwip_htons :: "u16 \<Rightarrow> u16" where
  "lwip_htons x = push_bit 8 (x AND 0x00FF) OR drop_bit 8 (x AND 0xFF00)"

definition lwip_htonl :: "u32 \<Rightarrow> u32" where
  "lwip_htonl x = push_bit 24 (x AND 0x000000FF) OR push_bit 8 (x AND 0x0000FF00)
                  OR drop_bit 8 (x AND 0x00FF0000) OR drop_bit 24 (x AND 0xFF000000)"

section \<open>Text to address\<close>

definition code_in :: "char \<Rightarrow> nat \<Rightarrow> nat \<Rightarrow> bool" where
  "code_in c lo hi \<longleftrightarrow> lo \<le> (of_char c :: nat) \<and> (of_char c :: nat) \<le> hi"

definition lwip_isdigit :: "char \<Rightarrow> bool" where
  "lwip_isdigit c = code_in c 48 57"

definition lwip_isxdigit :: "char \<Rightarrow> bool" where
  "lwip_isxdigit c \<longleftrightarrow> lwip_isdigit c \<or> code_in c 97 102 \<or> code_in c 65 70"

definition lwip_islower :: "char \<Rightarrow> bool" where
  "lwip_islower c = code_in c 97 122"

definition lwip_isspace :: "char \<Rightarrow> bool" where
  "lwip_isspace c \<longleftrightarrow> c = CHR '' '' \<or> (of_char c :: nat) \<in> {12, 10, 13, 9, 11}"

text \<open>The inner loop: the digits of one number in its base.\<close>

fun aton_digits :: "u8 \<Rightarrow> u32 \<Rightarrow> string \<Rightarrow> u32 \<times> string" where
  "aton_digits base val [] = (val, [])"
| "aton_digits base val (c # cs) =
     (if lwip_isdigit c then
        if base = 8 \<and> (of_char c :: nat) - 48 \<ge> 8 then (val, c # cs)
        else aton_digits base (val * ucast base + of_nat (of_char c - 48)) cs
      else if base = 16 \<and> lwip_isxdigit c
      then aton_digits base (push_bit 4 val OR of_nat (of_char c + 10 - (if lwip_islower c then 97 else 65))) cs
      else (val, c # cs))"

lemma aton_digits_shortens: "length (snd (aton_digits base val cs)) \<le> length cs"
  by (induction base val cs rule: aton_digits.induct) auto

text \<open>The prefix that selects the base of a number: nothing, \<open>0\<close> or \<open>0x\<close>.\<close>

fun aton_base :: "string \<Rightarrow> u8 \<times> string" where
  "aton_base (c # cs) =
     (if c = CHR ''0'' then
        (case cs of
           [] \<Rightarrow> (8, [])
         | x # cs' \<Rightarrow> if x = CHR ''x'' \<or> x = CHR ''X'' then (16, cs') else (8, cs))
      else (10, c # cs))"
| "aton_base [] = (10, [])"

lemma aton_base_shortens: "length (snd (aton_base cs)) \<le> length cs"
  by (cases cs) (auto split: list.splits)

text \<open>The outer loop: the parts stored so far, the value of the last part and the characters behind it.\<close>

function aton_parts :: "u32 list \<Rightarrow> string \<Rightarrow> (u32 list \<times> u32 \<times> string) option" where
  "aton_parts parts cs =
     (case cs of
        [] \<Rightarrow> None
      | c # _ \<Rightarrow>
          if \<not> lwip_isdigit c then None
          else
            let (base, digits) = aton_base cs; (val, rest) = aton_digits base 0 digits in
            (case rest of
               [] \<Rightarrow> Some (parts, val, rest)
             | d # rest' \<Rightarrow>
                 if d = CHR ''.'' then if length parts \<ge> 3 then None else aton_parts (parts @ [val]) rest'
                 else Some (parts, val, rest)))"
  by auto
termination
proof (relation "measure (length \<circ> snd)", goal_cases)
  case (2 parts cs c cs' bd base digits vr val rest d rest')
  then have "length (d # rest') \<le> length digits" "length digits \<le> length cs"
    using aton_digits_shortens [of base 0 digits] aton_base_shortens [of cs] by (metis snd_conv)+
  then show ?case by simp
qed simp

declare aton_parts.simps [simp del]

definition aton_join :: "u32 list \<Rightarrow> u32 \<Rightarrow> u32 option" where
  "aton_join parts val =
     (case parts of
        [] \<Rightarrow> Some val
      | [a] \<Rightarrow> if val > 0xFFFFFF \<or> a > 0xFF then None else Some (val OR push_bit 24 a)
      | [a, b] \<Rightarrow> if val > 0xFFFF \<or> a > 0xFF \<or> b > 0xFF then None
                 else Some (val OR (push_bit 24 a OR push_bit 16 b))
      | [a, b, c] \<Rightarrow> if val > 0xFF \<or> a > 0xFF \<or> b > 0xFF \<or> c > 0xFF then None
                    else Some (val OR (push_bit 24 a OR push_bit 16 b OR push_bit 8 c))
      | _ \<Rightarrow> Some val)"

definition ip4addr_aton :: "string \<Rightarrow> u32 option" where
  "ip4addr_aton cp =
     (case aton_parts [] cp of
        None \<Rightarrow> None
      | Some (parts, val, rest) \<Rightarrow>
          if rest \<noteq> [] \<and> \<not> lwip_isspace (hd rest) then None
          else map_option lwip_htonl (aton_join parts val))"

section \<open>Address to text\<close>

text \<open>The digits of one byte, least significant first, as the loop stores them in \<open>inv\<close>.\<close>

function ntoa_inv :: "u8 \<Rightarrow> string" where
  "ntoa_inv ap =
     (let rem = ap mod 10; ap' = ap div 10
      in char_of (48 + unat rem) # (if ap' \<noteq> 0 then ntoa_inv ap' else []))"
  by auto
termination
  by (relation "measure unat") (auto simp: unat_div word_neq_0_conv word_less_nat_alt)

declare ntoa_inv.simps [simp del]

text \<open>One character into the buffer of size \<open>buflen\<close>; the length counts also the character that does
  not fit any more.\<close>

definition ntoa_put :: "int \<Rightarrow> char \<Rightarrow> string \<Rightarrow> string option" where
  "ntoa_put buflen c out = (if int (length out) \<ge> buflen then None else Some (out @ [c]))"

fun ntoa_puts :: "int \<Rightarrow> string \<Rightarrow> string \<Rightarrow> string option" where
  "ntoa_puts buflen [] out = Some out"
| "ntoa_puts buflen (c # cs) out = ntoa_put buflen c out \<bind> ntoa_puts buflen cs"

fun ntoa_bytes :: "int \<Rightarrow> u8 list \<Rightarrow> string \<Rightarrow> string option" where
  "ntoa_bytes buflen [] out = Some out"
| "ntoa_bytes buflen (ap # aps) out = do {
     out \<leftarrow> ntoa_puts buflen (rev (ntoa_inv ap)) out;
     out \<leftarrow> ntoa_put buflen (CHR ''.'') out;
     ntoa_bytes buflen aps out
   }"

text \<open>The bytes of a 32-bit number in memory.\<close>

definition le_bytes :: "u32 \<Rightarrow> u8 list" where
  "le_bytes s = [ucast s, ucast (drop_bit 8 s), ucast (drop_bit 16 s), ucast (drop_bit 24 s)]"

text \<open>The last dot becomes the terminating zero.\<close>

definition ip4addr_ntoa_r :: "u32 \<Rightarrow> int \<Rightarrow> string ptr" where
  "ip4addr_ntoa_r addr buflen = map_option butlast (ntoa_bytes buflen (le_bytes addr) [])"

section \<open>Properties\<close>

lemma byte_masks:
  "(0x000000FF :: u32) = mask 8" "(0x0000FF00 :: u32) = push_bit 8 (mask 8)"
  "(0x00FF0000 :: u32) = push_bit 16 (mask 8)" "(0xFF000000 :: u32) = push_bit 24 (mask 8)"
  by (simp_all add: mask_eq_exp_minus_1 push_bit_eq_mult)

lemma htonl_bytes:
  "lwip_htonl (ucast (ucast (drop_bit 24 s) :: u8) OR (push_bit 24 (ucast (ucast s :: u8))
      OR push_bit 16 (ucast (ucast (drop_bit 8 s) :: u8)) OR push_bit 8 (ucast (ucast (drop_bit 16 s) :: u8)))) = s"
  (is "?l = s")
proof (rule bit_word_eqI)
  fix n
  assume "n < LENGTH(32)"
  then consider "n < 8" | "8 \<le> n" "n < 16" | "16 \<le> n" "n < 24" | "24 \<le> n" "n < 32" by fastforce
  then show "bit ?l n = bit s n"
    unfolding lwip_htonl_def byte_masks
    by cases (simp_all add: bit_or_iff bit_and_iff bit_push_bit_iff bit_drop_bit_eq bit_ucast_iff bit_mask_iff
        less_diff_conv2)
qed

lemma ntoa_inv_cases:
  "ntoa_inv v =
    (if unat v < 10 then [char_of (48 + unat v)]
     else if unat v < 100 then [char_of (48 + unat v mod 10), char_of (48 + unat v div 10)]
     else [char_of (48 + unat v mod 10), char_of (48 + unat v div 10 mod 10), char_of (48 + unat v div 100)])"
proof -
  have "unat v < 256" using unsigned_less [of v] by simp
  have nz: "(w div 10 \<noteq> 0) = (10 \<le> unat w)" for w :: u8
    by (simp add: unat_gt_0 [symmetric] unat_div div_greater_zero_iff del: unat_gt_0)
  have step: "ntoa_inv w = char_of (48 + unat w mod 10) # (if 10 \<le> unat w then ntoa_inv (w div 10) else [])" for w
    by (subst ntoa_inv.simps) (simp add: Let_def nz unat_mod)
  have s1: "unat (v div 10) = unat v div 10" "unat (v div 10 div 10) = unat v div 100"
    by (simp_all add: unat_div div_mult2_eq [symmetric])
  consider "unat v < 10" | "10 \<le> unat v" "unat v < 100" | "100 \<le> unat v" by linarith
  then show ?thesis
  proof cases
    case 1
    then show ?thesis by (simp add: step [of v])
  next
    case 2
    then have "unat v div 10 < 10" by simp
    then show ?thesis using 2 by (simp add: step [of v] step [of "v div 10"] s1)
  next
    case 3
    then have "10 \<le> unat v div 10" "unat v div 100 < 10"
      using \<open>unat v < 256\<close> by simp_all
    then show ?thesis using 3 by (simp add: step [of v] step [of "v div 10"] step [of "v div 10 div 10"] s1)
  qed
qed

text \<open>The decimal digits of a byte, most significant first.\<close>

definition octet :: "u8 \<Rightarrow> string" where
  "octet v = rev (ntoa_inv v)"

lemma digit_char:
  assumes "d < 10"
  shows "(of_char (char_of (48 + d) :: char) :: nat) = 48 + d" "lwip_isdigit (char_of (48 + d))"
    "(char_of (48 + d) :: char) = CHR ''0'' \<longleftrightarrow> d = 0" "(char_of (48 + d) :: char) \<noteq> CHR ''.''"
proof -
  show c: "(of_char (char_of (48 + d) :: char) :: nat) = 48 + d"
    using assms by simp
  then show "lwip_isdigit (char_of (48 + d))"
    using assms by (simp add: lwip_isdigit_def code_in_def)
  have "(char_of (48 + d) :: char) = ch \<longleftrightarrow> 48 + d = (of_char ch :: nat)" for ch
    using c by (metis of_char_eq_iff)
  then show "(char_of (48 + d) :: char) = CHR ''0'' \<longleftrightarrow> d = 0" "(char_of (48 + d) :: char) \<noteq> CHR ''.''"
    using assms by (simp_all add: of_char_def)
qed

lemma octet_length: "length (octet v) \<le> 3" "octet v \<noteq> []"
  by (simp_all add: octet_def ntoa_inv_cases)

text \<open>Behind a number stands the end, a dot or a space.\<close>

definition ends_number :: "string \<Rightarrow> bool" where
  "ends_number rest \<longleftrightarrow> rest = [] \<or> \<not> lwip_isxdigit (hd rest) \<and> hd rest \<notin> {CHR ''x'', CHR ''X''}"

lemma aton_number:
  assumes "ends_number rest"
  shows "aton_digits b val rest = (val, rest)"
  using assms by (cases rest) (auto simp: ends_number_def lwip_isxdigit_def)

lemma aton_digit:
  assumes "d < 10"
  shows "aton_digits 10 val (char_of (48 + d) # cs) = aton_digits 10 (val * 10 + of_nat d) cs"
  using digit_char(1,2) [OF assms] by simp

lemma aton_octet:
  assumes "ends_number rest"
  shows "(case aton_base (octet v @ rest) of (b, ds) \<Rightarrow> aton_digits b 0 ds) = (ucast v, rest)"
proof -
  have v: "unat v < 256" using unsigned_less [of v] by simp
  have val: "ucast v = (of_nat (unat v) :: u32)"
    by simp
  consider "unat v = 0" | "0 < unat v" "unat v < 10" | "10 \<le> unat v" "unat v < 100" | "100 \<le> unat v"
    by linarith
  then show ?thesis
  proof cases
    case 1
    then have "octet v = [CHR ''0'']"
      using digit_char(3) [of 0] by (simp add: octet_def ntoa_inv_cases)
    then show ?thesis
      using 1 assms by (cases rest) (auto simp: ends_number_def lwip_isxdigit_def unat_eq_0)
  next
    case 2
    then show ?thesis
      using digit_char(3) [of "unat v"] aton_digit [of "unat v" 0 rest] assms
      by (simp add: octet_def ntoa_inv_cases aton_number)
  next
    case 3
    let ?a = "unat v div 10" and ?b = "unat v mod 10"
    have a: "?a < 10" "?a \<noteq> 0"
      using 3 by auto
    have "aton_digits 10 0 (char_of (48 + ?a) # char_of (48 + ?b) # rest) = (of_nat (?a * 10 + ?b), rest)"
      using a(1) assms by (simp only: aton_digit aton_number mod_less_divisor zero_less_numeral of_nat_add of_nat_mult
          of_nat_numeral mult_zero_left add_0)
    then have "aton_digits 10 0 (char_of (48 + ?a) # char_of (48 + ?b) # rest) = (ucast v, rest)"
      by (simp only: div_mult_mod_eq val)
    then show ?thesis
      using 3 digit_char(3) [OF a(1)] a(2) by (simp add: octet_def ntoa_inv_cases del: aton_digits.simps)
  next
    case 4
    let ?a = "unat v div 100" and ?b = "unat v div 10 mod 10" and ?c = "unat v mod 10"
    have a: "?a < 10" "?a \<noteq> 0"
      using v 4 by (simp_all add: div_eq_0_iff)
    have "unat v div 10 div 10 = ?a"
      by (simp add: div_mult2_eq [symmetric])
    then have sum: "(?a * 10 + ?b) * 10 + ?c = unat v"
      by (metis div_mult_mod_eq)
    have "aton_digits 10 0 (char_of (48 + ?a) # char_of (48 + ?b) # char_of (48 + ?c) # rest) =
        (of_nat ((?a * 10 + ?b) * 10 + ?c), rest)"
      using a(1) assms by (simp only: aton_digit aton_number mod_less_divisor zero_less_numeral of_nat_add of_nat_mult
          of_nat_numeral mult_zero_left add_0)
    then have "aton_digits 10 0 (char_of (48 + ?a) # char_of (48 + ?b) # char_of (48 + ?c) # rest) = (ucast v, rest)"
      by (simp only: sum val)
    then show ?thesis
      using 4 digit_char(3) [OF a(1)] a(2) by (simp add: octet_def ntoa_inv_cases del: aton_digits.simps)
  qed
qed

lemma octet_starts: "\<exists>d ds. octet v = char_of (48 + d) # ds \<and> d < (10 :: nat)"
proof -
  have v: "unat v < 256" using unsigned_less [of v] by simp
  consider "unat v < 10" | "10 \<le> unat v" "unat v < 100" | "100 \<le> unat v" by linarith
  then show ?thesis
  proof cases
    case 1
    then show ?thesis
      by (intro exI [of _ "unat v"] exI [of _ "[]"]) (simp add: octet_def ntoa_inv_cases)
  next
    case 2
    then show ?thesis
      by (intro exI [of _ "unat v div 10"] exI [of _ "tl (octet v)"]) (auto simp: octet_def ntoa_inv_cases)
  next
    case 3
    then show ?thesis
      using v by (intro exI [of _ "unat v div 100"] exI [of _ "tl (octet v)"]) (auto simp: octet_def ntoa_inv_cases)
  qed
qed

lemma aton_parts_octet:
  assumes "ends_number rest"
  shows "aton_parts parts (octet v @ rest) =
    (case rest of [] \<Rightarrow> Some (parts, ucast v, rest)
     | d # rest' \<Rightarrow> if d = CHR ''.'' then if length parts \<ge> 3 then None else aton_parts (parts @ [ucast v]) rest'
                  else Some (parts, ucast v, rest))"
proof -
  obtain d :: nat and ds where d: "octet v = char_of (48 + d) # ds" "d < 10"
    using octet_starts by blast
  obtain b bs where b: "aton_base (octet v @ rest) = (b, bs)"
    by fastforce
  then have "aton_digits b 0 bs = (ucast v, rest)"
    using aton_octet [OF assms, of v] by simp
  then show ?thesis
    using b digit_char(2) [OF d(2)] by (subst aton_parts.simps) (simp add: d(1))
qed

lemma ends_number_dot [simp]: "ends_number (CHR ''.'' # cs)" "ends_number []"
  by (simp_all add: ends_number_def lwip_isxdigit_def lwip_isdigit_def code_in_def)

lemma ntoa_puts_ok:
  "int (length out + length cs) \<le> buflen \<Longrightarrow> ntoa_puts buflen cs out = Some (out @ cs)"
  by (induction cs arbitrary: out) (simp_all add: ntoa_put_def)

lemma ntoa_bytes_ok:
  "int (length out + length (concat (map (\<lambda>b. octet b @ [CHR ''.'']) bs))) \<le> buflen \<Longrightarrow>
   ntoa_bytes buflen bs out = Some (out @ concat (map (\<lambda>b. octet b @ [CHR ''.'']) bs))"
  by (induction bs arbitrary: out) (simp_all add: ntoa_puts_ok ntoa_put_def octet_def)

lemma aton_join_octets:
  "aton_join [ucast a, ucast b, ucast c] (ucast (d :: u8)) =
     Some (ucast d OR (push_bit 24 (ucast (a :: u8)) OR push_bit 16 (ucast (b :: u8)) OR push_bit 8 (ucast (c :: u8))))"
proof -
  have "\<not> 0xFF < (ucast x :: u32)" for x :: u8
  proof -
    have "unat x < 256" using unsigned_less [of x] by simp
    then show ?thesis using unat_of_nat_u32 [of "unat x"] by (simp add: word_less_nat_alt)
  qed
  then show ?thesis
    by (simp add: aton_join_def)
qed

lemma printed_address_parses:
  "\<exists>s. ip4addr_ntoa_r addr 16 = Some s \<and> length s \<le> 15 \<and> ip4addr_aton s = Some addr"
proof -
  obtain a b c d where abcd: "le_bytes addr = [a, b, c, d]"
    by (simp add: le_bytes_def)
  let ?s = "octet a @ CHR ''.'' # octet b @ CHR ''.'' # octet c @ CHR ''.'' # octet d"
  have "length (octet a) \<le> 3" "length (octet b) \<le> 3" "length (octet c) \<le> 3" "length (octet d) \<le> 3"
    by (rule octet_length)+
  then have len: "length ?s \<le> 15"
    by simp
  then have "ip4addr_ntoa_r addr 16 = Some ?s"
    using ntoa_bytes_ok [of "[]" "[a, b, c, d]" 16] by (simp add: ip4addr_ntoa_r_def abcd butlast_append)
  moreover have "aton_parts [] ?s = Some ([ucast a, ucast b, ucast c], ucast d, [])"
    using aton_parts_octet [of "[]" "[ucast a, ucast b, ucast c]" d] by (simp add: aton_parts_octet)
  then have "ip4addr_aton ?s = Some addr"
    using abcd htonl_bytes [of addr] by (simp add: ip4addr_aton_def aton_join_octets le_bytes_def)
  ultimately show ?thesis
    using len by blast
qed

section \<open>Properties\<close>

text \<open>C18. Addresses survive the conversion to text: every address is printed in the 16 bytes that the
  callers provide, with its terminating zero, and parsing the printed text gives the address back.\<close>

theorem ip4_text_roundtrip:
  "\<exists>s. ip4addr_ntoa_r addr 16 = Some s \<and> length s \<le> 15 \<and> ip4addr_aton s = Some addr"
  by (rule printed_address_parses)

end
