(* ===== verification/Lwip_Sockets.thy ===== *)
theory Lwip_Sockets
  imports Ip4_Addr
begin

text \<open>
  The socket layer of lwIP, from \<^verbatim>\<open>api/sockets.c\<close> and \<^verbatim>\<open>api/err.c\<close>: the table of sockets, opening,
  binding, listening, accepting, connecting, receiving, sending, closing and the non-blocking mode.

  The layer below, lwIP's netconn interface, is a record of operations on a state of type \<open>'n\<close>, a
  parameter of the model. A netconn is a handle (a number). A \<open>pbuf\<close> chain is the list of its payload
  bytes; its 16-bit total length is taken from that list. The union \<open>lastdata\<close> of a socket is two
  fields, of which the code only ever uses the one that fits the kind of its netconn.

  The options of the build (\<^verbatim>\<open>lwipopts.h\<close>) are not part of the repository; the model has the defaults of
  \<^verbatim>\<open>opt.h\<close>: IPv4 only, no full-duplex reference counts, no multicast, core locking. The bookkeeping
  of receive and send events is modelled; no task waits in \<open>select\<close> or \<open>poll\<close>, so there is nobody to
  wake up. The data of a caller's array is returned to it as a list of bytes. Debug output and the
  address checks that hold for every \<open>struct sockaddr_in\<close> (its alignment) are left out.
\<close>

section \<open>Data\<close>

datatype err_t =
  ERR_OK | ERR_MEM | ERR_BUF | ERR_TIMEOUT | ERR_RTE | ERR_INPROGRESS | ERR_VAL | ERR_WOULDBLOCK
  | ERR_USE | ERR_ALREADY | ERR_ISCONN | ERR_CONN | ERR_IF | ERR_ABRT | ERR_RST | ERR_CLSD | ERR_ARG

datatype errno_t =
  ENONE | ENOMEM | ENOBUFS | EWOULDBLOCK | EHOSTUNREACH | EINPROGRESS | EINVAL | EADDRINUSE | EALREADY
  | EISCONN | ENOTCONN | EMINUSONE | ECONNABORTED | ECONNRESET | EIO | EBADF | EOPNOTSUPP | ENFILE
  | EMSGSIZE | ENOSYS | ENOPROTOOPT | EFAULT | ENOSPC | EAFNOSUPPORT

fun err_to_errno :: "err_t \<Rightarrow> errno_t" where
  "err_to_errno ERR_OK = ENONE"
| "err_to_errno ERR_MEM = ENOMEM"
| "err_to_errno ERR_BUF = ENOBUFS"
| "err_to_errno ERR_TIMEOUT = EWOULDBLOCK"
| "err_to_errno ERR_RTE = EHOSTUNREACH"
| "err_to_errno ERR_INPROGRESS = EINPROGRESS"
| "err_to_errno ERR_VAL = EINVAL"
| "err_to_errno ERR_WOULDBLOCK = EWOULDBLOCK"
| "err_to_errno ERR_USE = EADDRINUSE"
| "err_to_errno ERR_ALREADY = EALREADY"
| "err_to_errno ERR_ISCONN = EISCONN"
| "err_to_errno ERR_CONN = ENOTCONN"
| "err_to_errno ERR_IF = EMINUSONE"
| "err_to_errno ERR_ABRT = ECONNABORTED"
| "err_to_errno ERR_RST = ECONNRESET"
| "err_to_errno ERR_CLSD = ENOTCONN"
| "err_to_errno ERR_ARG = EIO"

datatype netconn_type = NETCONN_TCP | NETCONN_UDP | NETCONN_UDPLITE | NETCONN_RAW

text \<open>The group of a netconn type: UDP-Lite belongs to UDP.\<close>

definition NETCONNTYPE_GROUP :: "netconn_type \<Rightarrow> netconn_type" where
  "NETCONNTYPE_GROUP t = (if t = NETCONN_UDPLITE then NETCONN_UDP else t)"

datatype netconn_evt =
  NETCONN_EVT_RCVPLUS | NETCONN_EVT_RCVMINUS | NETCONN_EVT_SENDPLUS | NETCONN_EVT_SENDMINUS | NETCONN_EVT_ERROR

record netbuf =
  nb_data :: bytes
  nb_addr :: u32
  nb_port :: u16

record sockaddr_in =
  sin_family :: u8
  sin_port :: u16
  sin_addr :: u32

abbreviation (input) "AF_UNSPEC \<equiv> (0 :: u8)"
abbreviation (input) "AF_INET \<equiv> (2 :: u8)"
abbreviation (input) "sizeof_sockaddr_in \<equiv> (16 :: u32)"
abbreviation (input) "MSG_PEEK \<equiv> (0x01 :: u32)"
abbreviation (input) "MSG_DONTWAIT \<equiv> (0x08 :: u32)"
abbreviation (input) "MSG_MORE \<equiv> (0x10 :: u32)"
abbreviation (input) "NETCONN_COPY \<equiv> (0x01 :: u8)"
abbreviation (input) "NETCONN_MORE \<equiv> (0x02 :: u8)"
abbreviation (input) "NETCONN_DONTBLOCK \<equiv> (0x04 :: u8)"
abbreviation (input) "NETCONN_NOAUTORCVD \<equiv> (0x08 :: u8)"
abbreviation (input) "NETCONN_NOFIN \<equiv> (0x10 :: u8)"
abbreviation (input) "O_NONBLOCK \<equiv> (1 :: u32)"
abbreviation (input) "O_RDONLY \<equiv> (2 :: u32)"
abbreviation (input) "O_WRONLY \<equiv> (4 :: u32)"
abbreviation (input) "O_RDWR \<equiv> (6 :: u32)"
abbreviation (input) "SSIZE_MAX \<equiv> (2147483647 :: u32)"

record lwip_sock =
  sock_conn :: "nat ptr"
  lastdata_pbuf :: "bytes ptr"
  lastdata_netbuf :: "netbuf ptr"
  rcvevent :: "16 word"
  sendevent :: u16
  errevent :: u16

record 'n socket_state =
  sockets :: "lwip_sock list"
  errno :: errno_t
  stack :: 'n

text \<open>The netconn interface: the operations of \<^verbatim>\<open>api_lib.c\<close> and \<^verbatim>\<open>netbuf.c\<close> that the socket layer calls,
  and the fields of a netconn it reads and writes (type, socket number, non-blocking flag, the
  closed directions of its control block).\<close>

record 'n netconn_api =
  conn_type :: "nat \<Rightarrow> 'n \<Rightarrow> netconn_type"
  conn_socket :: "nat \<Rightarrow> 'n \<Rightarrow> int"
  set_conn_socket :: "nat \<Rightarrow> int \<Rightarrow> 'n \<Rightarrow> 'n"
  netconn_is_nonblocking :: "nat \<Rightarrow> 'n \<Rightarrow> bool"
  netconn_set_nonblocking :: "nat \<Rightarrow> bool \<Rightarrow> 'n \<Rightarrow> 'n"
  pcb_rx_open :: "nat \<Rightarrow> 'n \<Rightarrow> bool"
  pcb_tx_open :: "nat \<Rightarrow> 'n \<Rightarrow> bool"
  has_pcb :: "nat \<Rightarrow> 'n \<Rightarrow> bool"
  ip_set_broadcast :: "nat \<Rightarrow> bool \<Rightarrow> 'n \<Rightarrow> 'n"
  netconn_new :: "netconn_type \<Rightarrow> u8 \<Rightarrow> 'n \<Rightarrow> nat ptr \<times> 'n"
  netconn_delete :: "nat \<Rightarrow> 'n \<Rightarrow> 'n"
  netconn_prepare_delete :: "nat \<Rightarrow> 'n \<Rightarrow> err_t \<times> 'n"
  netconn_bind :: "nat \<Rightarrow> u32 \<Rightarrow> u16 \<Rightarrow> 'n \<Rightarrow> err_t \<times> 'n"
  netconn_connect :: "nat \<Rightarrow> u32 \<Rightarrow> u16 \<Rightarrow> 'n \<Rightarrow> err_t \<times> 'n"
  netconn_disconnect :: "nat \<Rightarrow> 'n \<Rightarrow> err_t \<times> 'n"
  netconn_listen_with_backlog :: "nat \<Rightarrow> u8 \<Rightarrow> 'n \<Rightarrow> err_t \<times> 'n"
  netconn_accept :: "nat \<Rightarrow> 'n \<Rightarrow> (err_t \<times> nat ptr) \<times> 'n"
  netconn_peer :: "nat \<Rightarrow> 'n \<Rightarrow> (err_t \<times> u32 \<times> u16) \<times> 'n"
  netconn_recv_tcp_pbuf_flags :: "nat \<Rightarrow> u8 \<Rightarrow> 'n \<Rightarrow> (err_t \<times> bytes ptr) \<times> 'n"
  netconn_tcp_recvd :: "nat \<Rightarrow> u32 \<Rightarrow> 'n \<Rightarrow> 'n"
  netconn_recv_udp_raw_netbuf_flags :: "nat \<Rightarrow> u8 \<Rightarrow> 'n \<Rightarrow> (err_t \<times> netbuf ptr) \<times> 'n"
  netconn_write_partly :: "nat \<Rightarrow> bytes \<Rightarrow> u32 \<Rightarrow> u8 \<Rightarrow> 'n \<Rightarrow> (err_t \<times> u32) \<times> 'n"
  netbuf_ref :: "bytes \<Rightarrow> u16 \<Rightarrow> 'n \<Rightarrow> err_t \<times> 'n"
  netconn_send :: "nat \<Rightarrow> netbuf \<Rightarrow> 'n \<Rightarrow> err_t \<times> 'n"
  netbuf_free :: "'n \<Rightarrow> 'n"

section \<open>The table of sockets\<close>

definition sock_at :: "'n socket_state \<Rightarrow> nat \<Rightarrow> lwip_sock" where
  "sock_at s i = sockets s ! i"

definition conn_of :: "'n socket_state \<Rightarrow> nat \<Rightarrow> nat" where
  "conn_of s i = the (sock_conn (sock_at s i))"

definition set_sock :: "nat \<Rightarrow> (lwip_sock \<Rightarrow> lwip_sock) \<Rightarrow> 'n socket_state \<Rightarrow> 'n socket_state" where
  "set_sock i f s = s\<lparr>sockets := (sockets s)[i := f (sockets s ! i)]\<rparr>"

text \<open>An error number is stored only when it is not 0, so that success leaves the old one in place.\<close>

definition set_errno :: "errno_t \<Rightarrow> 'n socket_state \<Rightarrow> 'n socket_state" where
  "set_errno e s = (if e = ENONE then s else s\<lparr>errno := e\<rparr>)"

lemma set_errno_frame [simp]: "sockets (set_errno e s) = sockets s" "stack (set_errno e s) = stack s"
  by (simp_all add: set_errno_def)

definition tryget_socket_unconn_nouse :: "int \<Rightarrow> 'n socket_state \<Rightarrow> nat ptr" where
  "tryget_socket_unconn_nouse fd s =
     (if fd < 0 \<or> fd \<ge> int (length (sockets s)) then NULL else Some (nat fd))"

definition tryget_socket :: "int \<Rightarrow> 'n socket_state \<Rightarrow> nat ptr" where
  "tryget_socket fd s =
     (case tryget_socket_unconn_nouse fd s of
        None \<Rightarrow> NULL
      | Some i \<Rightarrow> if sock_conn (sock_at s i) \<noteq> NULL then Some i else NULL)"

definition get_socket :: "int \<Rightarrow> 'n socket_state \<Rightarrow> nat ptr \<times> 'n socket_state" where
  "get_socket fd s =
     (case tryget_socket fd s of
        None \<Rightarrow> (NULL, set_errno EBADF s)
      | Some i \<Rightarrow> (Some i, s))"

fun first_free :: "nat list \<Rightarrow> lwip_sock list \<Rightarrow> nat ptr" where
  "first_free [] ss = NULL"
| "first_free (i # is) ss = (if sock_conn (ss ! i) = NULL then Some i else first_free is ss)"

definition alloc_socket :: "'n netconn_api \<Rightarrow> nat \<Rightarrow> bool \<Rightarrow> 'n socket_state \<Rightarrow> int \<times> 'n socket_state" where
  "alloc_socket api newconn accepted s =
     (case first_free [0..<length (sockets s)] (sockets s) of
        None \<Rightarrow> (-1, s)
      | Some i \<Rightarrow>
          (int i, set_sock i (\<lambda>k. k\<lparr>sock_conn := Some newconn, lastdata_pbuf := NULL, lastdata_netbuf := NULL,
             rcvevent := 0,
             sendevent := (if NETCONNTYPE_GROUP (conn_type api newconn (stack s)) = NETCONN_TCP
                           then (if accepted then 1 else 0) else 1),
             errevent := 0\<rparr>) s))"

definition free_socket_locked ::
    "nat \<Rightarrow> 'n socket_state \<Rightarrow> (nat ptr \<times> bytes ptr \<times> netbuf ptr) \<times> 'n socket_state" where
  "free_socket_locked i s =
     ((sock_conn (sock_at s i), lastdata_pbuf (sock_at s i), lastdata_netbuf (sock_at s i)),
      set_sock i (\<lambda>k. k\<lparr>lastdata_pbuf := NULL, lastdata_netbuf := NULL, sock_conn := NULL\<rparr>) s)"

text \<open>Freeing a socket: the data left in it is dropped (the memory pools are not modelled) and its
  netconn is deleted.\<close>

definition free_socket_free_elements ::
    "'n netconn_api \<Rightarrow> nat ptr \<times> bytes ptr \<times> netbuf ptr \<Rightarrow> 'n socket_state \<Rightarrow> 'n socket_state" where
  "free_socket_free_elements api elements s =
     (case fst elements of None \<Rightarrow> s | Some c \<Rightarrow> s\<lparr>stack := netconn_delete api c (stack s)\<rparr>)"

definition free_socket :: "'n netconn_api \<Rightarrow> nat \<Rightarrow> 'n socket_state \<Rightarrow> 'n socket_state" where
  "free_socket api i s =
     (let (elements, s) = free_socket_locked i s in free_socket_free_elements api elements s)"

text \<open>The netconn layer reports events of a netconn through this callback.\<close>

definition event_callback :: "'n netconn_api \<Rightarrow> nat ptr \<Rightarrow> netconn_evt \<Rightarrow> 'n socket_state \<Rightarrow> 'n socket_state" where
  "event_callback api conn evt s =
     (case conn of
        None \<Rightarrow> s
      | Some c \<Rightarrow>
          if conn_socket api c (stack s) < 0 then
            if evt = NETCONN_EVT_RCVPLUS
            then s\<lparr>stack := set_conn_socket api c (conn_socket api c (stack s) - 1) (stack s)\<rparr>
            else s
          else
            (case get_socket (conn_socket api c (stack s)) s of
               (None, s) \<Rightarrow> s
             | (Some i, s) \<Rightarrow>
                 set_sock i (\<lambda>k. case evt of
                     NETCONN_EVT_RCVPLUS \<Rightarrow> k\<lparr>rcvevent := rcvevent k + 1\<rparr>
                   | NETCONN_EVT_RCVMINUS \<Rightarrow> k\<lparr>rcvevent := rcvevent k - 1\<rparr>
                   | NETCONN_EVT_SENDPLUS \<Rightarrow> k\<lparr>sendevent := 1\<rparr>
                   | NETCONN_EVT_SENDMINUS \<Rightarrow> k\<lparr>sendevent := 0\<rparr>
                   | NETCONN_EVT_ERROR \<Rightarrow> k\<lparr>errevent := 1\<rparr>) s))"

section \<open>Connections\<close>

text \<open>
  A socket type selects the kind of netconn; a protocol number matters to raw sockets and to
  the choice between UDP and UDP-Lite.
\<close>

datatype sock_type = SOCK_STREAM | SOCK_DGRAM | SOCK_RAW | SOCK_OTHER int

definition IPPROTO_UDPLITE :: int where
  "IPPROTO_UDPLITE = 136"

fun socket_netconn :: "sock_type \<Rightarrow> int \<Rightarrow> (netconn_type \<times> u8) option" where
  "socket_netconn SOCK_RAW protocol = Some (NETCONN_RAW, word_of_int protocol)"
| "socket_netconn SOCK_DGRAM protocol =
     Some (if protocol = IPPROTO_UDPLITE then NETCONN_UDPLITE else NETCONN_UDP, 0)"
| "socket_netconn SOCK_STREAM protocol = Some (NETCONN_TCP, 0)"
| "socket_netconn (SOCK_OTHER t) protocol = None"

definition lwip_socket ::
    "'n netconn_api \<Rightarrow> sock_type \<Rightarrow> int \<Rightarrow> 'n socket_state \<Rightarrow> int \<times> 'n socket_state" where
  "lwip_socket api type protocol s =
     (case socket_netconn type protocol of
        None \<Rightarrow> (-1, set_errno EINVAL s)
      | Some (t, proto) \<Rightarrow>
          (case netconn_new api t proto (stack s) of
             (None, n) \<Rightarrow> (-1, set_errno ENOBUFS (s\<lparr>stack := n\<rparr>))
           | (Some c, n) \<Rightarrow>
               let (i, s) = alloc_socket api c False (s\<lparr>stack := n\<rparr>) in
               if i = -1
               then (-1, set_errno ENFILE (s\<lparr>stack := netconn_delete api c (stack s)\<rparr>))
               else (i, set_errno ENONE (s\<lparr>stack := set_conn_socket api c i (stack s)\<rparr>))))"

text \<open>The receive events counted on a netconn before it had a socket are replayed.\<close>

definition replay_events :: "'n netconn_api \<Rightarrow> nat \<Rightarrow> int \<Rightarrow> 'n socket_state \<Rightarrow> 'n socket_state" where
  "replay_events api c k s = (event_callback api (Some c) NETCONN_EVT_RCVPLUS ^^ nat k) s"

definition make_sockaddr :: "u32 \<Rightarrow> u16 \<Rightarrow> sockaddr_in" where
  "make_sockaddr addr port = \<lparr>sin_family = AF_INET, sin_port = lwip_htons port, sin_addr = addr\<rparr>"

definition lwip_accept ::
    "'n netconn_api \<Rightarrow> int \<Rightarrow> 'n socket_state \<Rightarrow> (int \<times> sockaddr_in ptr) \<times> 'n socket_state" where
  "lwip_accept api fd s =
     (case get_socket fd s of
        (None, s) \<Rightarrow> ((-1, NULL), s)
      | (Some i, s) \<Rightarrow>
          let ((err, newconn), n) = netconn_accept api (conn_of s i) (stack s); s = s\<lparr>stack := n\<rparr> in
          if err \<noteq> ERR_OK then
            ((-1, NULL),
             set_errno (if NETCONNTYPE_GROUP (conn_type api (conn_of s i) (stack s)) \<noteq> NETCONN_TCP then EOPNOTSUPP
                        else if err = ERR_CLSD then EINVAL else err_to_errno err) s)
          else
            let c = the newconn; (newsock, s) = alloc_socket api c True s in
            if newsock = -1 then ((-1, NULL), set_errno ENFILE (s\<lparr>stack := netconn_delete api c (stack s)\<rparr>))
            else
              let recvevent = sint (of_int (-1 - conn_socket api c (stack s)) :: 16 word);
                  s = s\<lparr>stack := set_conn_socket api c newsock (stack s)\<rparr>;
                  s = replay_events api c recvevent s;
                  ((err, naddr, port), n) = netconn_peer api c (stack s);
                  s = s\<lparr>stack := n\<rparr>
              in if err \<noteq> ERR_OK then ((-1, NULL), set_errno (err_to_errno err) (free_socket api (nat newsock) s))
                 else ((newsock, Some (make_sockaddr naddr port)), set_errno ENONE s))"

definition lwip_bind ::
    "'n netconn_api \<Rightarrow> int \<Rightarrow> sockaddr_in \<Rightarrow> u32 \<Rightarrow> 'n socket_state \<Rightarrow> int \<times> 'n socket_state" where
  "lwip_bind api fd name namelen s =
     (case get_socket fd s of
        (None, s) \<Rightarrow> (-1, s)
      | (Some i, s) \<Rightarrow>
          if \<not> (namelen = sizeof_sockaddr_in \<and> sin_family name = AF_INET) then (-1, set_errno (err_to_errno ERR_ARG) s)
          else
            let (err, n) = netconn_bind api (conn_of s i) (sin_addr name) (lwip_htons (sin_port name)) (stack s);
                s = s\<lparr>stack := n\<rparr>
            in if err \<noteq> ERR_OK then (-1, set_errno (err_to_errno err) s) else (0, set_errno ENONE s))"

definition lwip_close :: "'n netconn_api \<Rightarrow> int \<Rightarrow> 'n socket_state \<Rightarrow> int \<times> 'n socket_state" where
  "lwip_close api fd s =
     (case get_socket fd s of
        (None, s) \<Rightarrow> (-1, s)
      | (Some i, s) \<Rightarrow>
          let (err, n) = netconn_prepare_delete api (conn_of s i) (stack s); s = s\<lparr>stack := n\<rparr> in
          if err \<noteq> ERR_OK then (-1, set_errno (err_to_errno err) s)
          else (0, set_errno ENONE (free_socket api i s)))"

definition lwip_connect ::
    "'n netconn_api \<Rightarrow> int \<Rightarrow> sockaddr_in \<Rightarrow> u32 \<Rightarrow> 'n socket_state \<Rightarrow> int \<times> 'n socket_state" where
  "lwip_connect api fd name namelen s =
     (case get_socket fd s of
        (None, s) \<Rightarrow> (-1, s)
      | (Some i, s) \<Rightarrow>
          if sin_family name \<noteq> AF_UNSPEC \<and> \<not> (namelen = sizeof_sockaddr_in \<and> sin_family name = AF_INET)
          then (-1, set_errno (err_to_errno ERR_ARG) s)
          else
            let (err, n) = (if sin_family name = AF_UNSPEC then netconn_disconnect api (conn_of s i) (stack s)
                            else netconn_connect api (conn_of s i) (sin_addr name) (lwip_htons (sin_port name)) (stack s));
                s = s\<lparr>stack := n\<rparr>
            in if err \<noteq> ERR_OK then (-1, set_errno (err_to_errno err) s) else (0, set_errno ENONE s))"

definition lwip_listen :: "'n netconn_api \<Rightarrow> int \<Rightarrow> int \<Rightarrow> 'n socket_state \<Rightarrow> int \<times> 'n socket_state" where
  "lwip_listen api fd backlog s =
     (case get_socket fd s of
        (None, s) \<Rightarrow> (-1, s)
      | (Some i, s) \<Rightarrow>
          let (err, n) = netconn_listen_with_backlog api (conn_of s i) (of_int (min (max backlog 0) 0xFF)) (stack s);
              s = s\<lparr>stack := n\<rparr>
          in if err \<noteq> ERR_OK
             then (-1, set_errno (if NETCONNTYPE_GROUP (conn_type api (conn_of s i) (stack s)) \<noteq> NETCONN_TCP
                                  then EOPNOTSUPP else err_to_errno err) s)
             else (0, set_errno ENONE s))"

section \<open>Modes\<close>

datatype fcntl_cmd = F_GETFL | F_SETFL | F_OTHER

definition lwip_fcntl ::
    "'n netconn_api \<Rightarrow> int \<Rightarrow> fcntl_cmd \<Rightarrow> u32 \<Rightarrow> 'n socket_state \<Rightarrow> u32 \<times> 'n socket_state" where
  "lwip_fcntl api fd cmd val s =
     (case get_socket fd s of
        (None, s) \<Rightarrow> (- 1, s)
      | (Some i, s) \<Rightarrow>
          let c = conn_of s i in
          (case cmd of
             F_GETFL \<Rightarrow>
               let ret = (if netconn_is_nonblocking api c (stack s) then O_NONBLOCK else 0);
                   op_mode = (if NETCONNTYPE_GROUP (conn_type api c (stack s)) = NETCONN_TCP
                     then if has_pcb api c (stack s)
                          then (if pcb_rx_open api c (stack s) then O_RDONLY else 0)
                               OR (if pcb_tx_open api c (stack s) then O_WRONLY else 0)
                          else 0
                     else O_RDWR)
               in (ret OR (if op_mode = O_RDONLY OR O_WRONLY then O_RDWR else op_mode), set_errno ENONE s)
           | F_SETFL \<Rightarrow>
               let val = val AND NOT (O_RDONLY OR O_WRONLY OR O_RDWR) in
               if val AND NOT O_NONBLOCK = 0
               then (0, set_errno ENONE (s\<lparr>stack := netconn_set_nonblocking api c (val AND O_NONBLOCK \<noteq> 0) (stack s)\<rparr>))
               else (- 1, set_errno ENOSYS s)
           | F_OTHER \<Rightarrow> (- 1, set_errno ENOSYS s)))"

text \<open>The branch of \<open>lwip_setsockopt_impl\<close> for \<open>SO_BROADCAST\<close>, with an option value of type \<open>int\<close>, and
  \<open>lwip_setsockopt\<close> around it.\<close>

definition lwip_setsockopt_impl ::
    "'n netconn_api \<Rightarrow> int \<Rightarrow> int \<Rightarrow> 'n socket_state \<Rightarrow> errno_t \<times> 'n socket_state" where
  "lwip_setsockopt_impl api fd optval s =
     (case tryget_socket fd s of
        None \<Rightarrow> (EBADF, s)
      | Some i \<Rightarrow>
          let c = conn_of s i in
          if NETCONNTYPE_GROUP (conn_type api c (stack s)) \<noteq> NETCONN_UDP then (ENOPROTOOPT, s)
          else if \<not> has_pcb api c (stack s) then (EINVAL, s)
          else (ENONE, s\<lparr>stack := ip_set_broadcast api c (optval \<noteq> 0) (stack s)\<rparr>))"

definition lwip_setsockopt ::
    "'n netconn_api \<Rightarrow> int \<Rightarrow> int ptr \<Rightarrow> 'n socket_state \<Rightarrow> int \<times> 'n socket_state" where
  "lwip_setsockopt api fd optval s =
     (case get_socket fd s of
        (None, s) \<Rightarrow> (-1, s)
      | (Some i, s) \<Rightarrow>
          (case optval of
             None \<Rightarrow> (-1, set_errno EFAULT s)
           | Some v \<Rightarrow>
               let (err, s) = lwip_setsockopt_impl api fd v s
               in (if err \<noteq> ENONE then -1 else 0, set_errno err s)))"

section \<open>Receiving\<close>

text \<open>The buffer of one pass of the loop of \<open>lwip_recv_tcp\<close>: what the last call left over, or else the
  next buffer of the netconn, which then is the socket's left-over data.\<close>

definition next_pbuf ::
    "'n netconn_api \<Rightarrow> nat \<Rightarrow> u8 \<Rightarrow> 'n socket_state \<Rightarrow> (err_t \<times> bytes ptr) \<times> 'n socket_state" where
  "next_pbuf api i apiflags s =
     (case lastdata_pbuf (sock_at s i) of
        Some p \<Rightarrow> ((ERR_OK, Some p), s)
      | None \<Rightarrow>
          let ((err, p), n) = netconn_recv_tcp_pbuf_flags api (conn_of s i) apiflags (stack s);
              s = s\<lparr>stack := n\<rparr>
          in if err = ERR_OK then ((err, p), set_sock i (\<lambda>k. k\<lparr>lastdata_pbuf := p\<rparr>) s)
             else ((err, NULL), s))"

text \<open>The code at the label \<open>lwip_recv_tcp_done\<close>.\<close>

definition recv_tcp_done ::
    "'n netconn_api \<Rightarrow> nat \<Rightarrow> u32 \<Rightarrow> bytes \<Rightarrow> 'n socket_state \<Rightarrow> (int \<times> bytes) \<times> 'n socket_state" where
  "recv_tcp_done api i flags acc s =
     (let s = (if length acc > 0 \<and> flags AND MSG_PEEK = 0
               then s\<lparr>stack := netconn_tcp_recvd api (conn_of s i) (of_nat (length acc)) (stack s)\<rparr> else s)
      in ((int (length acc), acc), set_errno ENONE s))"

text \<open>One pass after another: \<open>acc\<close> are the bytes copied so far (\<open>recvd\<close> of
  them), \<open>left\<close> the room that is left. The loop ends when the room is used up, when the netconn
  has nothing more, or after one buffer when peeking. The number of passes is bounded by the
  first argument.\<close>

fun recv_tcp_loop ::
    "nat \<Rightarrow> 'n netconn_api \<Rightarrow> nat \<Rightarrow> u32 \<Rightarrow> bytes \<Rightarrow> int \<Rightarrow> u8 \<Rightarrow> 'n socket_state
      \<Rightarrow> ((int \<times> bytes) \<times> 'n socket_state) run" where
  "recv_tcp_loop 0 api i flags acc left apiflags s = never_returns"
| "recv_tcp_loop (Suc fuel) api i flags acc left apiflags s =
     (let recvd = int (length acc); ((err, p), s) = next_pbuf api i apiflags s
      in if err \<noteq> ERR_OK then
           if recvd > 0 then returns (recv_tcp_done api i flags acc s)
           else returns ((if err = ERR_CLSD then 0 else -1, []), set_errno (err_to_errno err) s)
         else (case p of
             None \<Rightarrow> Some undefined_behaviour
           | Some b \<Rightarrow>
               let tot_len = (of_nat (length b) :: u16);
                   copylen = (if left > int (unat tot_len) then tot_len else of_int left);
                   copylen = (if recvd + int (unat copylen) < recvd then of_int (int (unat SSIZE_MAX) - recvd) else copylen);
                   acc = acc @ take (unat copylen) b;
                   left = left - int (unat copylen);
                   s = (if flags AND MSG_PEEK = 0
                        then set_sock i (\<lambda>k. k\<lparr>lastdata_pbuf :=
                               if int (unat tot_len) - int (unat copylen) > 0 then Some (drop (unat copylen) b) else NULL\<rparr>) s
                        else s)
               in if left > 0 \<and> flags AND MSG_PEEK = 0
                  then recv_tcp_loop fuel api i flags acc left (apiflags OR NETCONN_DONTBLOCK OR NETCONN_NOFIN) s
                  else returns (recv_tcp_done api i flags acc s)))"

text \<open>A pass that does not end the loop copies at least one byte, unless the netconn delivers an empty
  buffer; the bound of \<open>len + 1\<close> passes is enough for a netconn that does not.\<close>

definition lwip_recv_tcp ::
    "'n netconn_api \<Rightarrow> nat \<Rightarrow> u32 \<Rightarrow> u32 \<Rightarrow> 'n socket_state \<Rightarrow> ((int \<times> bytes) \<times> 'n socket_state) run" where
  "lwip_recv_tcp api i len flags s =
     (let recv_left = (if len \<le> SSIZE_MAX then int (unat len) else int (unat SSIZE_MAX));
          apiflags = (if flags AND MSG_DONTWAIT \<noteq> 0 then NETCONN_NOAUTORCVD OR NETCONN_DONTBLOCK else NETCONN_NOAUTORCVD)
      in recv_tcp_loop (Suc (unat len)) api i flags [] recv_left apiflags s)"

text \<open>The copy of a datagram into the caller's buffers, given by their sizes.\<close>

fun copy_iovs :: "u32 list \<Rightarrow> bytes \<Rightarrow> u16 \<Rightarrow> bytes" where
  "copy_iovs [] b copied = []"
| "copy_iovs (iov_len # iovs) b copied =
     (let buflen = of_nat (length b) in
      if copied < buflen then
        let len_left = buflen - copied;
            copylen = (if iov_len > ucast len_left then len_left else ucast iov_len)
        in take (unat copylen) (drop (unat copied) b) @ copy_iovs iovs b (copied + copylen)
      else [])"

definition lwip_recvfrom_udp_raw ::
    "'n netconn_api \<Rightarrow> nat \<Rightarrow> u32 \<Rightarrow> u32 list \<Rightarrow> 'n socket_state
      \<Rightarrow> ((err_t \<times> bytes \<times> u16 \<times> sockaddr_in) \<times> 'n socket_state) exec" where
  "lwip_recvfrom_udp_raw api i flags iovs s =
     (let apiflags = (if flags AND MSG_DONTWAIT \<noteq> 0 then NETCONN_DONTBLOCK else 0);
          (err, buf, s) = (case lastdata_netbuf (sock_at s i) of
                             Some b \<Rightarrow> (ERR_OK, Some b, s)
                           | None \<Rightarrow>
                               let ((err, b), n) = netconn_recv_udp_raw_netbuf_flags api (conn_of s i) apiflags (stack s);
                                   s = s\<lparr>stack := n\<rparr>
                               in if err = ERR_OK then (err, b, set_sock i (\<lambda>k. k\<lparr>lastdata_netbuf := b\<rparr>) s)
                                  else (err, NULL, s))
      in if err \<noteq> ERR_OK then Some ((err, [], 0, make_sockaddr 0 0), s)
         else do {
           b \<leftarrow> buf;
           let received = copy_iovs iovs (nb_data b) 0;
           let from = make_sockaddr (nb_addr b) (nb_port b);
           let s = (if flags AND MSG_PEEK = 0 then set_sock i (\<lambda>k. k\<lparr>lastdata_netbuf := NULL\<rparr>) s else s);
           Some ((ERR_OK, received, of_nat (length (nb_data b)), from), s)
         })"

text \<open>The result of \<open>lwip_recvfrom\<close> for a datagram: the size of the caller's buffer or of the datagram,
  whichever is smaller.\<close>

definition datagram_size :: "u32 \<Rightarrow> u16 \<Rightarrow> nat" where
  "datagram_size len datagram_len = unat (min (min len (ucast datagram_len)) SSIZE_MAX)"

text \<open>The caller of \<open>lwip_recvfrom\<close> passes no address, or one of full size (\<open>from\<close>); the address that is
  returned here is meaningful in the second case, when a datagram or data was received.\<close>

definition lwip_recvfrom ::
    "'n netconn_api \<Rightarrow> int \<Rightarrow> u32 \<Rightarrow> u32 \<Rightarrow> bool \<Rightarrow> 'n socket_state
      \<Rightarrow> ((int \<times> bytes \<times> sockaddr_in) \<times> 'n socket_state) run" where
  "lwip_recvfrom api fd len flags from s =
     (case get_socket fd s of
        (None, s) \<Rightarrow> returns ((-1, [], make_sockaddr 0 0), s)
      | (Some i, s) \<Rightarrow>
          if NETCONNTYPE_GROUP (conn_type api (conn_of s i) (stack s)) = NETCONN_TCP
          then then_run (lwip_recv_tcp api i len flags s) (\<lambda>((ret, bs), s).
                 if from then
                   let ((_, addr, port), n) = netconn_peer api (conn_of s i) (stack s)
                   in returns ((ret, bs, make_sockaddr addr port), s\<lparr>stack := n\<rparr>)
                 else returns ((ret, bs, make_sockaddr 0 0), s))
          else then_run (Some (lwip_recvfrom_udp_raw api i flags [len] s)) (\<lambda>((err, bs, datagram_len, addr), s).
                 if err \<noteq> ERR_OK then returns ((-1, [], addr), set_errno (err_to_errno err) s)
                 else returns ((int (datagram_size len datagram_len), bs, addr), set_errno ENONE s)))"

definition lwip_recv ::
    "'n netconn_api \<Rightarrow> int \<Rightarrow> u32 \<Rightarrow> u32 \<Rightarrow> 'n socket_state \<Rightarrow> ((int \<times> bytes) \<times> 'n socket_state) run" where
  "lwip_recv api fd len flags s =
     then_run (lwip_recvfrom api fd len flags False s) (\<lambda>((ret, bs, _), s). returns ((ret, bs), s))"

section \<open>Sending\<close>

text \<open>\<open>lwip_send\<close> on a TCP socket; the data is an array, of which \<open>len\<close> bytes are sent.\<close>

definition send_stream ::
    "'n netconn_api \<Rightarrow> nat \<Rightarrow> bytes \<Rightarrow> u32 \<Rightarrow> u32 \<Rightarrow> 'n socket_state \<Rightarrow> int \<times> 'n socket_state" where
  "send_stream api i data len flags s =
     (let write_flags = NETCONN_COPY OR (if flags AND MSG_MORE \<noteq> 0 then NETCONN_MORE else 0)
                        OR (if flags AND MSG_DONTWAIT \<noteq> 0 then NETCONN_DONTBLOCK else 0);
          ((err, written), n) = netconn_write_partly api (conn_of s i) data len write_flags (stack s)
      in (if err = ERR_OK then sint written else -1, set_errno (err_to_errno err) (s\<lparr>stack := n\<rparr>)))"

text \<open>\<open>lwip_sendto\<close> on any other socket.\<close>

definition send_datagram ::
    "'n netconn_api \<Rightarrow> nat \<Rightarrow> bytes \<Rightarrow> u32 \<Rightarrow> sockaddr_in ptr \<Rightarrow> u32 \<Rightarrow> 'n socket_state \<Rightarrow> int \<times> 'n socket_state" where
  "send_datagram api i data len to tolen s =
     (if len > 0xFFFF then (-1, set_errno EMSGSIZE s)
      else if \<not> (to = NULL \<and> tolen = 0 \<or> tolen = sizeof_sockaddr_in \<and> (case to of None \<Rightarrow> False | Some a \<Rightarrow> sin_family a = AF_INET))
      then (-1, set_errno (err_to_errno ERR_ARG) s)
      else
        let short_size = (ucast len :: u16);
            (addr, port) = (case to of None \<Rightarrow> (0, 0) | Some a \<Rightarrow> (sin_addr a, lwip_htons (sin_port a)));
            (err, n) = netbuf_ref api data short_size (stack s);
            (err, n) = (if err = ERR_OK
                        then netconn_send api (conn_of s i)
                               \<lparr>nb_data = take (unat short_size) data, nb_addr = addr, nb_port = port\<rparr> n
                        else (err, n));
            n = netbuf_free api n
        in (if err = ERR_OK then int (unat short_size) else -1, set_errno (err_to_errno err) (s\<lparr>stack := n\<rparr>)))"

definition lwip_send ::
    "'n netconn_api \<Rightarrow> int \<Rightarrow> bytes \<Rightarrow> u32 \<Rightarrow> u32 \<Rightarrow> 'n socket_state \<Rightarrow> int \<times> 'n socket_state" where
  "lwip_send api fd data len flags s =
     (case get_socket fd s of
        (None, s) \<Rightarrow> (-1, s)
      | (Some i, s) \<Rightarrow>
          if NETCONNTYPE_GROUP (conn_type api (conn_of s i) (stack s)) \<noteq> NETCONN_TCP
          then send_datagram api i data len NULL 0 s
          else send_stream api i data len flags s)"

definition lwip_sendto ::
    "'n netconn_api \<Rightarrow> int \<Rightarrow> bytes \<Rightarrow> u32 \<Rightarrow> u32 \<Rightarrow> sockaddr_in ptr \<Rightarrow> u32 \<Rightarrow> 'n socket_state \<Rightarrow> int \<times> 'n socket_state" where
  "lwip_sendto api fd data len flags to tolen s =
     (case get_socket fd s of
        (None, s) \<Rightarrow> (-1, s)
      | (Some i, s) \<Rightarrow>
          if NETCONNTYPE_GROUP (conn_type api (conn_of s i) (stack s)) = NETCONN_TCP
          then lwip_send api fd data len flags s
          else send_datagram api i data len to tolen s)"

section \<open>Addresses as text\<close>

definition lwip_inet_ntop :: "u8 \<Rightarrow> u32 \<Rightarrow> u32 \<Rightarrow> 'n socket_state \<Rightarrow> string ptr \<times> 'n socket_state" where
  "lwip_inet_ntop af src len s =
     (if sint len < 0 then (NULL, set_errno ENOSPC s)
      else if af = AF_INET then
        (case ip4addr_ntoa_r src (sint len) of None \<Rightarrow> (NULL, set_errno ENOSPC s) | Some t \<Rightarrow> (Some t, s))
      else (NULL, set_errno EAFNOSUPPORT s))"

definition lwip_inet_pton :: "u8 \<Rightarrow> string \<Rightarrow> 'n socket_state \<Rightarrow> (int \<times> u32 ptr) \<times> 'n socket_state" where
  "lwip_inet_pton af src s =
     (if af = AF_INET then
        (case ip4addr_aton src of None \<Rightarrow> ((0, NULL), s) | Some a \<Rightarrow> ((1, Some a), s))
      else ((-1, NULL), set_errno EAFNOSUPPORT s))"

section \<open>What a receive call returns\<close>

lemma unat_of_nat_u16_le: "unat (of_nat n :: u16) \<le> n"
  by (simp add: unsigned_of_nat take_bit_nat_less_eq_self)

lemma unat_of_nat_u16: "n < 65536 \<Longrightarrow> unat (of_nat n :: u16) = n"
  by (simp add: unsigned_of_nat take_bit_nat_eq_self)

lemma unat_of_int_u16: "0 \<le> k \<Longrightarrow> k < 65536 \<Longrightarrow> unat (of_int k :: u16) = nat k"
  using unat_of_nat_u16 [of "nat k"] by simp

text \<open>The length that one pass copies.\<close>

definition copy_length :: "int \<Rightarrow> bytes \<Rightarrow> nat" where
  "copy_length left b = min (nat left) (unat (of_nat (length b) :: u16))"

lemma unat_u16_bound: "unat (v :: u16) < 65536"
  using unsigned_less [of v] by simp

lemma copylen_eq:
  assumes "0 \<le> left"
  shows "unat (if int (unat (of_nat (length b) :: u16)) < left then of_nat (length b) else of_int left :: u16) = copy_length left b"
proof (cases "int (unat (of_nat (length b) :: u16)) < left")
  case True
  then show ?thesis
    by (simp add: copy_length_def min_def nat_le_iff)
next
  case False
  moreover have "int (unat (of_nat (length b) :: u16)) < 65536"
    using unat_u16_bound [of "of_nat (length b)"] by linarith
  ultimately have small: "left < 65536" and "nat left \<le> unat (of_nat (length b) :: u16)"
    by (linarith, simp only: nat_le_iff not_less)
  with False unat_of_int_u16 [OF assms small] show ?thesis
    by (simp add: copy_length_def min_absorb1)
qed

lemma copy_length_le: "copy_length left b \<le> length b" "0 \<le> left \<Longrightarrow> int (copy_length left b) \<le> left"
  using unat_of_nat_u16_le [of "length b"] by (auto simp: copy_length_def)

lemma copy_length_le_tot: "copy_length left b \<le> unat (of_nat (length b) :: u16)"
  by (simp add: copy_length_def)

lemma copy_length_pos: "0 < left \<Longrightarrow> b \<noteq> [] \<Longrightarrow> length b < 65536 \<Longrightarrow> 0 < copy_length left b"
  by (simp add: copy_length_def unat_of_nat_u16)

text \<open>The state after a pass that took \<open>k\<close> bytes of the buffer \<open>b\<close>.\<close>

definition took_pbuf :: "nat \<Rightarrow> u32 \<Rightarrow> nat \<Rightarrow> bytes \<Rightarrow> 'n socket_state \<Rightarrow> 'n socket_state" where
  "took_pbuf i flags k b s =
     (if flags AND MSG_PEEK = 0
      then set_sock i (\<lambda>q. q\<lparr>lastdata_pbuf := if k < unat (of_nat (length b) :: u16) then Some (drop k b) else NULL\<rparr>) s
      else s)"

lemma recv_tcp_loop_step:
  assumes "0 \<le> left"
  shows "recv_tcp_loop (Suc fuel) api i flags acc left apiflags s =
     (let ((err, p), s) = next_pbuf api i apiflags s
      in if err \<noteq> ERR_OK then
           if acc \<noteq> [] then returns (recv_tcp_done api i flags acc s)
           else returns ((if err = ERR_CLSD then 0 else -1, []), set_errno (err_to_errno err) s)
         else (case p of
             None \<Rightarrow> Some undefined_behaviour
           | Some b \<Rightarrow>
               let k = copy_length left b; acc = acc @ take k b; s = took_pbuf i flags k b s
               in if left - int k > 0 \<and> flags AND MSG_PEEK = 0
                  then recv_tcp_loop fuel api i flags acc (left - int k) (apiflags OR NETCONN_DONTBLOCK OR NETCONN_NOFIN) s
                  else returns (recv_tcp_done api i flags acc s)))"
proof -
  have no_wrap: "\<not> int (length acc) + int k < int (length acc)" for k
    by linarith
  have room: "int (unat (of_nat (length b) :: u16)) - int (copy_length left b) > 0
      \<longleftrightarrow> copy_length left b < unat (of_nat (length b) :: u16)" for b
    by linarith
  show ?thesis
    by (simp only: recv_tcp_loop.simps Let_def no_wrap if_False copylen_eq [OF assms] room took_pbuf_def
        length_greater_0_conv of_nat_0_less_iff)
qed

declare recv_tcp_loop.simps(2) [simp del]

text \<open>Whatever the netconn layer does, the loop returns an error and no data, or exactly the bytes it
  has written, never more than the caller's array can hold.\<close>

lemma recv_tcp_loop_bounds:
  assumes "recv_tcp_loop fuel api i flags acc left apiflags s = returns ((r, bs), s')" and "0 \<le> left"
  shows "r = int (length bs) \<and> r \<le> int (length acc) + left \<or> r < 0 \<and> bs = []"
  using assms
proof (induction fuel arbitrary: acc left apiflags s)
  case (Suc fuel)
  obtain err p t where n: "next_pbuf api i apiflags s = ((err, p), t)"
    by (metis prod.exhaust)
  show ?case
  proof (cases "err = ERR_OK")
    case False
    with Suc.prems n show ?thesis
      by (auto simp: recv_tcp_loop_step recv_tcp_done_def Let_def split: if_splits)
  next
    case True
    then obtain b where p: "p = Some b"
      using Suc.prems n by (cases p) (simp_all add: recv_tcp_loop_step)
    let ?k = "copy_length left b"
    have k: "int ?k \<le> left" "length (take ?k b) = ?k"
      using copy_length_le [of left b] Suc.prems(2) by auto
    show ?thesis
    proof (cases "left - int ?k > 0 \<and> flags AND MSG_PEEK = 0")
      case rec: True
      then have "recv_tcp_loop fuel api i flags (acc @ take ?k b) (left - int ?k)
          (apiflags OR NETCONN_DONTBLOCK OR NETCONN_NOFIN) (took_pbuf i flags ?k b t) = returns ((r, bs), s')"
        using Suc.prems n True p by (simp add: recv_tcp_loop_step Let_def)
      from Suc.IH [OF this] rec k show ?thesis
        by auto
    next
      case False
      then have "recv_tcp_done api i flags (acc @ take ?k b) (took_pbuf i flags ?k b t) = ((r, bs), s')"
        using Suc.prems n True p by (simp add: recv_tcp_loop_step Let_def split: if_splits)
      with k show ?thesis
        by (auto simp: recv_tcp_done_def Let_def)
    qed
  qed
qed simp

section \<open>The stream of a TCP socket\<close>

text \<open>What the receive loop needs of the netconn layer to come to an end: in a state that satisfies an
  invariant the netconn \<open>c\<close> delivers buffers that are neither empty nor longer than their 16-bit
  length field can say, and the two operations of the loop keep the invariant.\<close>

definition good_pbuf :: "bytes \<Rightarrow> bool" where
  "good_pbuf b \<longleftrightarrow> b \<noteq> [] \<and> length b < 65536"

definition left_over :: "'n socket_state \<Rightarrow> nat \<Rightarrow> bytes" where
  "left_over s i = (case lastdata_pbuf (sock_at s i) of None \<Rightarrow> [] | Some b \<Rightarrow> b)"

definition socket_of :: "nat \<Rightarrow> nat \<Rightarrow> 'n socket_state \<Rightarrow> bool" where
  "socket_of c i s \<longleftrightarrow> i < length (sockets s) \<and> sock_conn (sock_at s i) = Some c
     \<and> pred_option good_pbuf (lastdata_pbuf (sock_at s i))"

lemma socket_of_conn [simp]: "socket_of c i s \<Longrightarrow> conn_of s i = c"
  by (simp add: socket_of_def conn_of_def)

lemma sock_at_set_sock [simp]: "i < length (sockets s) \<Longrightarrow> sock_at (set_sock i f s) i = f (sock_at s i)"
  by (simp add: sock_at_def set_sock_def)

lemma set_sock_frame [simp]:
  "length (sockets (set_sock i f s)) = length (sockets s)" "stack (set_sock i f s) = stack s"
  by (simp_all add: set_sock_def)

lemma sock_at_frame [simp]: "sock_at (s\<lparr>stack := n\<rparr>) i = sock_at s i" "sock_at (set_errno e s) i = sock_at s i"
  by (simp_all add: sock_at_def)

lemma socket_of_frame [simp]:
  "socket_of c i (s\<lparr>stack := n\<rparr>) = socket_of c i s" "socket_of c i (set_errno e s) = socket_of c i s"
  by (simp_all add: socket_of_def)

lemma left_over_frame [simp]:
  "left_over (s\<lparr>stack := n\<rparr>) i = left_over s i" "left_over (set_errno e s) i = left_over s i"
  by (simp_all add: left_over_def)

lemma recv_tcp_done_result: "fst (recv_tcp_done api i flags acc s) = (int (length acc), acc)"
  by (simp add: recv_tcp_done_def Let_def)

lemma stack_took_pbuf [simp]: "stack (took_pbuf i flags k b s) = stack s"
  by (simp add: took_pbuf_def)

lemma took_pbuf_socket:
  assumes "socket_of c i s" and "good_pbuf b" and "lastdata_pbuf (sock_at s i) = Some b" and "0 \<le> left"
  shows "socket_of c i (took_pbuf i flags (copy_length left b) b s)"
    and "flags AND MSG_PEEK = 0 \<Longrightarrow> left_over (took_pbuf i flags (copy_length left b) b s) i = drop (copy_length left b) b"
  using assms by (auto simp: took_pbuf_def socket_of_def left_over_def good_pbuf_def unat_of_nat_u16)

text \<open>The bytes a socket has still to deliver: what is left over of the last buffer, then what its netconn
  has queued.\<close>

definition avail :: "('n \<Rightarrow> bytes) \<Rightarrow> nat \<Rightarrow> 'n socket_state \<Rightarrow> bytes" where
  "avail queued i s = left_over s i @ queued (stack s)"

locale pbuf_source =
  fixes api :: "'n netconn_api" and c :: nat and ok :: "'n \<Rightarrow> bool"
  assumes recv_good: "ok n \<Longrightarrow> netconn_recv_tcp_pbuf_flags api c f n = ((ERR_OK, p), n') \<Longrightarrow>
      ok n' \<and> (\<exists>b. p = Some b \<and> good_pbuf b)"
    and tcp_type: "ok n \<Longrightarrow> NETCONNTYPE_GROUP (conn_type api c n) = NETCONN_TCP"
begin

lemma next_pbuf_good:
  assumes "next_pbuf api i f s = ((err, p), t)" and "socket_of c i s" and "ok (stack s)"
  shows "socket_of c i t
    \<and> (err = ERR_OK \<longrightarrow> ok (stack t) \<and> (\<exists>b. p = Some b \<and> good_pbuf b \<and> lastdata_pbuf (sock_at t i) = Some b))"
proof (cases "lastdata_pbuf (sock_at s i)")
  case (Some b)
  with assms(1) have "p = Some b" "t = s"
    by (simp_all add: next_pbuf_def)
  with assms(2,3) Some show ?thesis
    by (simp add: socket_of_def)
next
  case None
  obtain e q n where r: "netconn_recv_tcp_pbuf_flags api c f (stack s) = ((e, q), n)"
    by (metis prod.exhaust)
  with recv_good [OF assms(3), of f q n] assms(1,2) None show ?thesis
    by (auto simp: next_pbuf_def Let_def socket_of_def split: if_splits)
qed

lemma recv_tcp_done_socket: "socket_of c i s \<Longrightarrow> socket_of c i (snd (recv_tcp_done api i flags acc s))"
  by (simp add: recv_tcp_done_def Let_def)

lemma recv_tcp_loop_returns:
  assumes "socket_of c i s" and "ok (stack s)" and "0 \<le> left" and "nat left < fuel"
  shows "\<exists>r bs s'. recv_tcp_loop fuel api i flags acc left apiflags s = returns ((r, bs), s')
    \<and> socket_of c i s'"
  using assms
proof (induction fuel arbitrary: acc left apiflags s)
  case (Suc fuel)
  obtain err p t where n: "next_pbuf api i apiflags s = ((err, p), t)"
    by (metis prod.exhaust)
  note good = next_pbuf_good [OF n Suc.prems(1,2)]
  show ?case
  proof (cases "err = ERR_OK")
    case False
    with Suc.prems(3) n good recv_tcp_done_socket [of i t flags acc] show ?thesis
      by (cases "recv_tcp_done api i flags acc t") (auto simp: recv_tcp_loop_step)
  next
    case True
    then obtain b where b: "p = Some b" "good_pbuf b" "lastdata_pbuf (sock_at t i) = Some b"
      using good by auto
    let ?k = "copy_length left b" and ?acc = "acc @ take (copy_length left b) b"
    let ?t = "took_pbuf i flags ?k b t"
    have t: "socket_of c i ?t" "ok (stack ?t)"
      using took_pbuf_socket [OF _ b(2,3) Suc.prems(3)] good True by simp_all
    show ?thesis
    proof (cases "left - int ?k > 0 \<and> flags AND MSG_PEEK = 0")
      case rec: True
      have "nat (left - int ?k) < fuel"
        using copy_length_pos [of left b] b(2) rec Suc.prems(4) by (auto simp: good_pbuf_def)
      with Suc.IH [OF t, of "left - int ?k" ?acc] rec Suc.prems(3) n True b(1) show ?thesis
        by (simp add: recv_tcp_loop_step Let_def)
    next
      case False
      with Suc.prems(3) n True b(1) recv_tcp_done_socket [OF t(1), of flags ?acc] show ?thesis
        by (cases "recv_tcp_done api i flags ?acc ?t") (auto simp: recv_tcp_loop_step Let_def)
    qed
  qed
qed simp

lemma recv_is_tcp:
  assumes "socket_of c i s" and "ok (stack s)"
  shows "lwip_recv api (int i) len flags s = lwip_recv_tcp api i len flags s"
proof -
  have "get_socket (int i) s = (Some i, s)"
    using assms(1) by (simp add: get_socket_def tryget_socket_def tryget_socket_unconn_nouse_def socket_of_def)
  then show ?thesis
    using tcp_type [OF assms(2)] assms(1)
    by (simp add: lwip_recv_def lwip_recvfrom_def then_run_def split: option.splits)
qed

lemma recv_tcp_returns:
  assumes "socket_of c i s" and "ok (stack s)"
  shows "\<exists>r bs s'. lwip_recv_tcp api i len flags s = returns ((r, bs), s') \<and> socket_of c i s'"
proof -
  have "int (unat len) \<le> int (unat SSIZE_MAX)" if "len \<le> SSIZE_MAX"
    using that by (simp add: word_le_def)
  then show ?thesis
    unfolding lwip_recv_tcp_def Let_def
    by (intro recv_tcp_loop_returns assms) (auto simp: word_le_nat_alt)
qed

end

text \<open>A live connection: the netconn hands out the bytes of its queue in order, a buffer at a time, and
  reports an error, other than the end of the stream, only when the queue is empty.\<close>

locale pbuf_stream = pbuf_source api c alive for api :: "'n netconn_api" and c and alive +
  fixes queued :: "'n \<Rightarrow> bytes"
  assumes recv_queued: "alive n \<Longrightarrow> netconn_recv_tcp_pbuf_flags api c f n = ((err, p), n') \<Longrightarrow>
      (if err = ERR_OK then queued n = the p @ queued n'
       else err \<noteq> ERR_CLSD \<and> alive n' \<and> queued n = [] \<and> queued n' = [])"
    and recvd_queued: "alive n \<Longrightarrow>
      alive (netconn_tcp_recvd api c k n) \<and> queued (netconn_tcp_recvd api c k n) = queued n"
begin

lemma next_pbuf_avail:
  assumes "next_pbuf api i f s = ((err, p), t)" and "socket_of c i s" and "alive (stack s)"
  shows "alive (stack t) \<and> avail queued i t = avail queued i s \<and> (if err = ERR_OK then left_over t i = the p else avail queued i s = [] \<and> err \<noteq> ERR_CLSD)"
proof (cases "lastdata_pbuf (sock_at s i)")
  case (Some b)
  with assms(1) have "err = ERR_OK" "p = Some b" "t = s"
    by (simp_all add: next_pbuf_def)
  with Some assms(3) show ?thesis
    by (simp add: left_over_def)
next
  case None
  obtain e q n where r: "netconn_recv_tcp_pbuf_flags api c f (stack s) = ((e, q), n)"
    by (metis prod.exhaust)
  from recv_good [OF assms(3), of f q n] recv_queued [OF assms(3) r] assms(1,2) r None show ?thesis
    by (auto simp: next_pbuf_def Let_def socket_of_def avail_def left_over_def split: if_splits)
qed

lemma recv_tcp_done_avail:
  "alive (stack s) \<Longrightarrow> socket_of c i s \<Longrightarrow>
     alive (stack (snd (recv_tcp_done api i flags acc s))) \<and> avail queued i (snd (recv_tcp_done api i flags acc s)) = avail queued i s"
  by (simp add: recv_tcp_done_def Let_def avail_def recvd_queued)

text \<open>The loop takes the next bytes of the stream, as many as there is room for.\<close>

lemma recv_tcp_loop_takes:
  assumes "recv_tcp_loop fuel api i flags acc left apiflags s = returns ((r, bs), s')"
    and "socket_of c i s" and "alive (stack s)" and "0 < left" and "flags AND MSG_PEEK = 0"
  shows "(if acc @ avail queued i s = [] then r = -1 \<and> bs = []
          else r = int (length bs) \<and> bs = acc @ take (nat left) (avail queued i s))
    \<and> alive (stack s') \<and> avail queued i s' = drop (nat left) (avail queued i s)"
  using assms(1-4)
proof (induction fuel arbitrary: acc left apiflags s)
  case (Suc fuel)
  obtain err p t where n: "next_pbuf api i apiflags s = ((err, p), t)"
    by (metis prod.exhaust)
  note good = next_pbuf_good [OF n Suc.prems(2,3)] and av = next_pbuf_avail [OF n Suc.prems(2,3)]
  show ?case
  proof (cases "err = ERR_OK")
    case False
    with Suc.prems(1,4) n good av recv_tcp_done_avail [of t i flags acc] recv_tcp_done_result [of api i flags acc t]
    show ?thesis
      by (cases "recv_tcp_done api i flags acc t") (auto simp: recv_tcp_loop_step avail_def split: if_splits)
  next
    case True
    then obtain b where b: "p = Some b" "good_pbuf b" "lastdata_pbuf (sock_at t i) = Some b"
      using good by auto
    let ?k = "copy_length left b" and ?acc = "acc @ take (copy_length left b) b"
    let ?t = "took_pbuf i flags ?k b t"
    have k: "?k = min (nat left) (length b)" "0 < ?k"
      using copy_length_pos [of left b] Suc.prems(4) b(2)
      by (simp_all add: copy_length_def good_pbuf_def unat_of_nat_u16)
    have left: "0 \<le> left" and st: "socket_of c i t"
      using Suc.prems(4) good by simp_all
    have t: "socket_of c i ?t" "alive (stack ?t)"
      using took_pbuf_socket(1) [OF st b(2,3) left] good True by simp_all
    have s: "avail queued i s = b @ queued (stack t)"
      using av True b(1) by (auto simp: avail_def)
    have rest: "avail queued i ?t = drop ?k b @ queued (stack t)"
      using took_pbuf_socket(2) [OF st b(2,3) left assms(5)] by (simp add: avail_def)
    show ?thesis
    proof (cases "left - int ?k > 0")
      case rec: True
      then have "recv_tcp_loop fuel api i flags ?acc (left - int ?k)
          (apiflags OR NETCONN_DONTBLOCK OR NETCONN_NOFIN) ?t = returns ((r, bs), s')"
        using Suc.prems n True b(1) assms(5) by (simp add: recv_tcp_loop_step Let_def)
      note IH = Suc.IH [OF this t rec]
      have "?k = length b" "nat (left - int (length b)) = nat left - length b" "length b \<le> nat left"
        using k rec by (auto simp: nat_diff_distrib')
      with IH rest s b(2) show ?thesis
        by (auto simp: good_pbuf_def)
    next
      case False
      then have "?k = nat left" "nat left \<le> length b" "recv_tcp_done api i flags ?acc ?t = ((r, bs), s')"
        using Suc.prems n True b(1) k by (auto simp: recv_tcp_loop_step Let_def min_def split: if_splits)
      with recv_tcp_done_avail [OF t(2,1), of flags ?acc] recv_tcp_done_result [of api i flags ?acc ?t] rest s k(2)
      show ?thesis
        by auto
    qed
  qed
qed simp

lemma recv_takes:
  fixes len :: u32
  defines "room \<equiv> unat (min len SSIZE_MAX)"
  assumes "socket_of c i s" and "alive (stack s)" and "0 < len"
  shows "\<exists>s'. lwip_recv api (int i) len 0 s =
      returns ((if avail queued i s = [] then (-1, [])
                else (int (min room (length (avail queued i s))), take room (avail queued i s))), s')
    \<and> socket_of c i s' \<and> alive (stack s') \<and> avail queued i s' = drop room (avail queued i s)"
proof -
  obtain r bs s' where r: "lwip_recv_tcp api i len 0 s = returns ((r, bs), s')" "socket_of c i s'"
    using recv_tcp_returns [OF assms(2,3)] by blast
  have left: "(if len \<le> SSIZE_MAX then int (unat len) else int (unat SSIZE_MAX)) = int room"
    by (simp add: room_def min_def)
  have loop: "recv_tcp_loop (Suc (unat len)) api i 0 [] (int room) NETCONN_NOAUTORCVD s = returns ((r, bs), s')"
    using r(1) unfolding lwip_recv_tcp_def left by simp
  have "0 < min len SSIZE_MAX"
    using assms(4) by (simp add: min_def)
  then have "0 < int room"
    by (simp only: room_def of_nat_0_less_iff word_less_nat_alt unat_0)
  from recv_tcp_loop_takes [OF loop assms(2,3) this] r recv_is_tcp [OF assms(2,3)] show ?thesis
    by (intro exI [of _ s']) (simp add: min.commute split: if_splits)
qed

text \<open>A call with room for no byte returns 0 when there is data, as it does at the end of the stream.\<close>

lemma recv_zero:
  assumes "socket_of c i s" and "alive (stack s)" and "avail queued i s \<noteq> []"
  shows "\<exists>s'. lwip_recv api (int i) 0 0 s = returns ((0, []), s')"
proof -
  obtain err p t where n: "next_pbuf api i NETCONN_NOAUTORCVD s = ((err, p), t)"
    by (metis prod.exhaust)
  have "err = ERR_OK"
    using next_pbuf_avail [OF n assms(1,2)] assms(3) by (auto split: if_splits)
  then obtain b where "p = Some b"
    using next_pbuf_good [OF n assms(1,2)] by auto
  with \<open>err = ERR_OK\<close> n have "recv_tcp_loop (Suc 0) api i 0 [] 0 NETCONN_NOAUTORCVD s =
      returns (recv_tcp_done api i 0 [] (took_pbuf i 0 0 b t))"
    by (simp add: recv_tcp_loop_step Let_def copy_length_def)
  then show ?thesis
    using recv_is_tcp [OF assms(1,2), of 0 0] by (simp add: lwip_recv_tcp_def recv_tcp_done_def)
qed

end

section \<open>Bounds of every receive call\<close>

lemma recv_tcp_bounds:
  assumes "lwip_recv_tcp api i len flags s = returns ((r, bs), s')"
  shows "r = int (length bs) \<and> length bs \<le> unat len \<or> r < 0 \<and> bs = []"
proof -
  define left where "left = (if len \<le> SSIZE_MAX then int (unat len) else int (unat SSIZE_MAX))"
  have "left \<le> int (unat len)" "0 \<le> left"
    by (simp_all add: left_def word_le_def)
  moreover have "r = int (length bs) \<and> r \<le> left \<or> r < 0 \<and> bs = []"
    using recv_tcp_loop_bounds [OF _ \<open>0 \<le> left\<close>] assms by (fastforce simp: lwip_recv_tcp_def left_def)
  ultimately have "r < 0 \<and> bs = [] \<or> r = int (length bs) \<and> int (length bs) \<le> int (unat len)"
    by auto
  then show ?thesis
    unfolding zle_int by blast
qed

text \<open>A datagram is copied into the one buffer of the caller as far as it fits.\<close>

lemma unat_ucast_u16 [simp]: "unat (ucast (v :: u16) :: u32) = unat v"
  using unat_u16_bound [of v] take_bit_nat_eq_self [of "unat v" 32] by (simp add: unsigned_ucast_eq)

lemma unat_ucast_u32: "unat (v :: u32) < 65536 \<Longrightarrow> unat (ucast v :: u16) = unat v"
  by (simp add: unsigned_ucast_eq take_bit_nat_eq_self)

lemma copy_datagram:
  "copy_iovs [len] b 0 = take (min (unat len) (unat (of_nat (length b) :: u16))) b"
proof (cases "(ucast (of_nat (length b) :: u16) :: u32) < len")
  case True
  then show ?thesis
    by (auto simp: Let_def min_def word_less_nat_alt)
next
  case False
  then have le: "unat len \<le> unat (of_nat (length b) :: u16)"
    by (simp add: word_less_nat_alt)
  with False unat_ucast_u32 [OF le_less_trans [OF le unat_u16_bound]] show ?thesis
    by (auto simp: Let_def min_def word_less_nat_alt)
qed

lemma datagram_length:
  "datagram_size len (of_nat (length b))
     = length (take (min (unat len) (unat (of_nat (length b) :: u16))) b)"
proof -
  have "datagram_size len (of_nat (length b)) = min (unat len) (unat (of_nat (length b) :: u16))"
    using unat_u16_bound [of "of_nat (length b)"] by (auto simp: datagram_size_def min_def word_le_nat_alt)
  then show ?thesis
    using unat_of_nat_u16_le [of "length b"] by simp
qed

lemma udp_raw_result:
  assumes "lwip_recvfrom_udp_raw api i flags iovs s = Some ((ERR_OK, got, dlen, a), s')"
  obtains b :: netbuf where "got = copy_iovs iovs (nb_data b) 0" "dlen = of_nat (length (nb_data b))"
    "a = make_sockaddr (nb_addr b) (nb_port b)"
proof (cases "lastdata_netbuf (sock_at s i)")
  case None
  obtain e q n where "netconn_recv_udp_raw_netbuf_flags api (conn_of s i)
      (if flags AND MSG_DONTWAIT \<noteq> 0 then NETCONN_DONTBLOCK else 0) (stack s) = ((e, q), n)"
    by (metis prod.exhaust)
  with assms None show ?thesis
    by (intro that [of "the q"]; cases q) (simp_all add: lwip_recvfrom_udp_raw_def Let_def split: if_splits)
next
  case (Some b)
  with assms show ?thesis
    by (intro that [of b]) (simp_all add: lwip_recvfrom_udp_raw_def Let_def)
qed

lemma recvfrom_bounds:
  assumes "lwip_recvfrom api fd len flags from s = returns ((r, bs, a), s')"
  shows "r = int (length bs) \<and> length bs \<le> unat len \<or> r < 0 \<and> bs = []"
proof -
  obtain q t where g: "get_socket fd s = (q, t)"
    by fastforce
  show ?thesis
  proof (cases q)
    case None
    with assms g show ?thesis by (simp add: lwip_recvfrom_def)
  next
    case (Some i)
    show ?thesis
    proof (cases "NETCONNTYPE_GROUP (conn_type api (conn_of t i) (stack t)) = NETCONN_TCP")
      case True
      with assms g Some obtain t' where "lwip_recv_tcp api i len flags t = returns ((r, bs), t')"
        by (auto simp: lwip_recvfrom_def then_run_eq_returns_iff split: if_splits prod.splits)
      then show ?thesis
        by (rule recv_tcp_bounds)
    next
      case False
      with assms g Some obtain err got dlen a' t' where
          u: "lwip_recvfrom_udp_raw api i flags [len] t = Some ((err, got, dlen, a'), t')"
        by (cases "lwip_recvfrom_udp_raw api i flags [len] t") (auto simp: lwip_recvfrom_def)
      with assms g Some False have
          res: "if err \<noteq> ERR_OK then r = -1 \<and> bs = [] else bs = got \<and> r = int (datagram_size len dlen)"
        by (simp add: lwip_recvfrom_def split: if_splits)
      show ?thesis
      proof (cases "err = ERR_OK")
        case False
        with res show ?thesis by simp
      next
        case True
        from udp_raw_result [OF u [unfolded True]] obtain b :: netbuf where
            "got = copy_iovs [len] (nb_data b) 0" "dlen = of_nat (length (nb_data b))"
          by metis
        then have got: "got = take (min (unat len) (unat dlen)) (nb_data b)"
            and r: "r = int (length got)"
          using res True datagram_length [of len "nb_data b"] by (simp_all only: copy_datagram if_False not_True_eq_False simp_thms)
        from got have "length got \<le> unat len"
          by simp
        with r res True show ?thesis
          by (simp only: simp_thms if_False)
      qed
    qed
  qed
qed

lemma recv_bounds:
  assumes "lwip_recv api fd len flags s = returns ((r, bs), s')"
  shows "r = int (length bs) \<and> length bs \<le> unat len \<or> r < 0 \<and> bs = []"
  using assms recvfrom_bounds [of api fd len flags False s r bs]
  by (auto simp: lwip_recv_def then_run_eq_returns_iff)

section \<open>Descriptors in use\<close>

text \<open>Which descriptors are in use depends on the netconns of the sockets only.\<close>

definition in_use :: "'n socket_state \<Rightarrow> nat ptr list" where
  "in_use s = map sock_conn (sockets s)"

lemma tryget_in_use:
  "tryget_socket fd s = (if 0 \<le> fd \<and> nat fd < length (in_use s) \<and> in_use s ! nat fd \<noteq> NULL then Some (nat fd) else NULL)"
  by (auto simp: tryget_socket_def tryget_socket_unconn_nouse_def in_use_def sock_at_def)

lemma get_socket_in_use:
  "0 \<le> fd \<Longrightarrow> nat fd < length (in_use s) \<Longrightarrow> in_use s ! nat fd \<noteq> NULL \<Longrightarrow> get_socket fd s = (Some (nat fd), s)"
  by (simp add: get_socket_def tryget_in_use)

lemma in_use_frame [simp]: "in_use (s\<lparr>stack := n\<rparr>) = in_use s" "in_use (set_errno e s) = in_use s"
  by (simp_all add: in_use_def)

lemma in_use_set_sock: "(\<And>k. sock_conn (f k) = sock_conn k) \<Longrightarrow> in_use (set_sock i f s) = in_use s"
  by (simp add: in_use_def set_sock_def map_update) (metis list_update_id map_update)

lemma in_use_event_callback [simp]: "in_use (event_callback api conn evt s) = in_use s"
proof (cases conn)
  case (Some c)
  have "in_use (set_sock i (\<lambda>k. case evt of
                     NETCONN_EVT_RCVPLUS \<Rightarrow> k\<lparr>rcvevent := rcvevent k + 1\<rparr>
                   | NETCONN_EVT_RCVMINUS \<Rightarrow> k\<lparr>rcvevent := rcvevent k - 1\<rparr>
                   | NETCONN_EVT_SENDPLUS \<Rightarrow> k\<lparr>sendevent := 1\<rparr>
                   | NETCONN_EVT_SENDMINUS \<Rightarrow> k\<lparr>sendevent := 0\<rparr>
                   | NETCONN_EVT_ERROR \<Rightarrow> k\<lparr>errevent := 1\<rparr>) s) = in_use s" for i
    by (rule in_use_set_sock) (simp split: netconn_evt.splits)
  then show ?thesis
    using Some by (auto simp: event_callback_def get_socket_def in_use_def split: option.splits)
qed (simp add: event_callback_def)

lemma in_use_replay [simp]: "in_use (replay_events api c k s) = in_use s"
proof -
  have "in_use ((event_callback api (Some c) NETCONN_EVT_RCVPLUS ^^ n) s) = in_use s" for n
    by (induction n) simp_all
  then show ?thesis
    by (simp add: replay_events_def)
qed

lemma first_free_Some: "first_free is ss = Some i \<Longrightarrow> i \<in> set is \<and> sock_conn (ss ! i) = NULL"
  by (induction "is") (auto split: if_splits)

lemma alloc_socket_ok:
  assumes "alloc_socket api c accepted s = (fd, s')" and "fd \<noteq> -1"
  shows "0 \<le> fd \<and> nat fd < length (in_use s) \<and> in_use s ! nat fd = NULL \<and> in_use s' = (in_use s)[nat fd := Some c]
    \<and> stack s' = stack s"
  using assms first_free_Some [of "[0..<length (sockets s)]" "sockets s"]
  by (auto simp: alloc_socket_def in_use_def set_sock_def map_update split: option.splits)

lemma accept_opens_socket:
  assumes "lwip_accept api fd s = ((sock, a), s')" and "0 \<le> sock"
  shows "nat sock < length (in_use s') \<and> in_use s' ! nat sock \<noteq> NULL"
proof -
  obtain i where g: "get_socket fd s = (Some i, s)"
    using assms by (auto simp: lwip_accept_def get_socket_def split: option.splits)
  obtain err newconn n where acc: "netconn_accept api (conn_of s i) (stack s) = ((err, newconn), n)"
    by (metis prod.exhaust)
  obtain sk t where al: "alloc_socket api (the newconn) True (s\<lparr>stack := n\<rparr>) = (sk, t)"
    by fastforce
  have ok: "err = ERR_OK" "sk \<noteq> -1"
    using assms g acc al by (auto simp: lwip_accept_def Let_def split: if_splits)
  have "sock = sk" "in_use s' = in_use t"
    using assms g acc al ok by (auto simp: lwip_accept_def Let_def  split: prod.splits if_splits) 
  with alloc_socket_ok [OF al ok(2)] show ?thesis
    by (simp add: in_use_def)
qed

end
