(* ===== verification/Lwip_Api_Msg.thy ===== *)
theory Lwip_Api_Msg
  imports Lwip_Sockets
begin

text \<open>
  The core side of lwIP's netconn layer, \<^verbatim>\<open>api/api_msg.c\<close>: the life of a netconn (allocation, control
  block, mailboxes, draining, closing), the functions \<open>lwip_netconn_do_...\<close> that run under the core lock
  on behalf of an application task, and the callbacks through which TCP and UDP deliver data,
  connections and errors.

  A netconn is an object of a static pool, so the state has one for every handle, and one set of
  callback pointers for the control block it owns. The protocols themselves (\<^verbatim>\<open>tcp.c\<close>, \<^verbatim>\<open>udp.c\<close>, \<^verbatim>\<open>raw.c\<close>),
  the memory pools and the operating system are records of operations on a state of type \<open>'k\<close>,
  parameters of the model: they cannot touch a netconn. A wait for another task is an operation
  on the whole state, since other tasks run meanwhile.

  The options are the defaults of \<^verbatim>\<open>opt.h\<close>, as for the sockets: no full-duplex, no timeouts and no
  linger, core locking. Event callbacks only count for \<open>select\<close> and \<open>poll\<close>, which nobody uses, and are left
  out. So is \<open>current_msg\<close>: it is set and cleared inside one call, or while its task waits.
\<close>

section \<open>Data\<close>

text \<open>A mailbox of the FreeRTOS port: a queue of fixed size. Its messages are error codes
  (\<open>netconn_aborted\<close>, \<open>netconn_reset\<close>, \<open>netconn_closed\<close>), null, packet buffers and netbufs; those of the
  accept mailbox are errors, null, or new connections.\<close>

datatype recv_msg = Recv_err err_t | Recv_null | Recv_pbuf bytes | Recv_netbuf netbuf
datatype accept_msg = Accept_err err_t | Accept_null | Accept_conn nat

record 'a mbox =
  mb_size :: nat
  mb_msgs :: "'a list"

datatype netconn_state = NETCONN_NONE | NETCONN_WRITE | NETCONN_LISTEN | NETCONN_CONNECT | NETCONN_CLOSE

record netconn =
  nc_type :: netconn_type
  nc_state :: netconn_state
  nc_pcb :: bool
  pending_err :: err_t
  recvmbox :: "recv_msg mbox ptr"
  acceptmbox :: "accept_msg mbox ptr"
  nc_socket :: int
  nc_flags :: u8

text \<open>The callback pointers of a TCP control block that point to this file's functions, and its argument.\<close>

record pcb_callbacks =
  cb_arg :: bool
  cb_recv :: bool
  cb_accept :: bool
  cb_sent :: bool
  cb_poll :: bool
  cb_err :: bool

record 'k netconn_world =
  conns :: "nat \<Rightarrow> netconn"
  callbacks :: "nat \<Rightarrow> pcb_callbacks"
  core :: 'k

abbreviation (input) "NETCONN_FLAG_MBOXCLOSED \<equiv> (0x01 :: u8)"
abbreviation (input) "NETCONN_FLAG_NON_BLOCKING \<equiv> (0x02 :: u8)"
abbreviation (input) "NETCONN_FLAG_IN_NONBLOCKING_CONNECT \<equiv> (0x04 :: u8)"
abbreviation (input) "NETCONN_FLAG_CHECK_WRITESPACE \<equiv> (0x10 :: u8)"
abbreviation (input) "NETCONN_FIN_RX_PENDING \<equiv> (0x80 :: u8)"
abbreviation (input) "NETCONN_SHUT_RD \<equiv> (0x01 :: u8)"
abbreviation (input) "NETCONN_SHUT_WR \<equiv> (0x02 :: u8)"
abbreviation (input) "NETCONN_SHUT_RDWR \<equiv> (0x03 :: u8)"
abbreviation (input) "TCP_WRITE_FLAG_MORE \<equiv> (0x02 :: u8)"

datatype tcp_state =
  TCP_CLOSED | TCP_LISTEN | SYN_SENT | SYN_RCVD | ESTABLISHED | FIN_WAIT_1 | FIN_WAIT_2 | CLOSE_WAIT
  | CLOSING | LAST_ACK | TIME_WAIT

section \<open>What lies below\<close>

text \<open>The operations of \<^verbatim>\<open>tcp.c\<close>, named by the netconn whose control block they work on; \<open>tcp_adopt\<close> makes a
  control block that has just been connected the one of a netconn, not yet counted as accepted.\<close>

record 'k tcp_api =
  tcp_new :: "nat \<Rightarrow> 'k \<Rightarrow> bool \<times> 'k"
  tcp_bind :: "nat \<Rightarrow> u32 \<Rightarrow> u16 \<Rightarrow> 'k \<Rightarrow> err_t \<times> 'k"
  pcb_tcp_connect :: "nat \<Rightarrow> u32 \<Rightarrow> u16 \<Rightarrow> 'k \<Rightarrow> err_t \<times> 'k"
  tcp_listen_with_backlog :: "nat \<Rightarrow> u8 \<Rightarrow> 'k \<Rightarrow> (bool \<times> err_t) \<times> 'k"
  tcp_backlog_set :: "nat \<Rightarrow> u8 \<Rightarrow> 'k \<Rightarrow> 'k"
  tcp_backlog_accepted :: "nat \<Rightarrow> 'k \<Rightarrow> 'k"
  tcp_adopt :: "nat \<Rightarrow> 'k \<Rightarrow> 'k"
  pcb_state :: "nat \<Rightarrow> 'k \<Rightarrow> tcp_state"
  pcb_rxclosed :: "nat \<Rightarrow> 'k \<Rightarrow> bool"
  pcb_fin :: "nat \<Rightarrow> 'k \<Rightarrow> bool"
  tcp_recved :: "nat \<Rightarrow> u16 \<Rightarrow> 'k \<Rightarrow> 'k"
  tcp_sndbuf :: "nat \<Rightarrow> 'k \<Rightarrow> u16"
  tcp_write :: "nat \<Rightarrow> bytes \<Rightarrow> u16 \<Rightarrow> u8 \<Rightarrow> 'k \<Rightarrow> err_t \<times> 'k"
  tcp_output :: "nat \<Rightarrow> 'k \<Rightarrow> err_t \<times> 'k"
  tcp_shutdown :: "nat \<Rightarrow> bool \<Rightarrow> bool \<Rightarrow> 'k \<Rightarrow> err_t \<times> 'k"
  tcp_close :: "nat \<Rightarrow> 'k \<Rightarrow> err_t \<times> 'k"
  tcp_abort :: "nat \<Rightarrow> 'k \<Rightarrow> 'k"

text \<open>Those of \<^verbatim>\<open>udp.c\<close> and \<^verbatim>\<open>raw.c\<close>, and the address fields common to all control blocks.\<close>

record 'k dgram_api =
  udp_new :: "nat \<Rightarrow> 'k \<Rightarrow> bool \<times> 'k"
  pcb_udp_bind :: "nat \<Rightarrow> u32 \<Rightarrow> u16 \<Rightarrow> 'k \<Rightarrow> err_t \<times> 'k"
  udp_connect :: "nat \<Rightarrow> u32 \<Rightarrow> u16 \<Rightarrow> 'k \<Rightarrow> err_t \<times> 'k"
  udp_disconnect :: "nat \<Rightarrow> 'k \<Rightarrow> 'k"
  udp_connected :: "nat \<Rightarrow> 'k \<Rightarrow> bool"
  udp_send :: "nat \<Rightarrow> bytes \<Rightarrow> 'k \<Rightarrow> err_t \<times> 'k"
  pcb_udp_sendto :: "nat \<Rightarrow> bytes \<Rightarrow> u32 \<Rightarrow> u16 \<Rightarrow> 'k \<Rightarrow> err_t \<times> 'k"
  udp_remove :: "nat \<Rightarrow> 'k \<Rightarrow> 'k"
  raw_new :: "nat \<Rightarrow> u8 \<Rightarrow> 'k \<Rightarrow> bool \<times> 'k"
  raw_bind :: "nat \<Rightarrow> u32 \<Rightarrow> 'k \<Rightarrow> err_t \<times> 'k"
  raw_connect :: "nat \<Rightarrow> u32 \<Rightarrow> 'k \<Rightarrow> err_t \<times> 'k"
  raw_send :: "nat \<Rightarrow> bytes \<Rightarrow> 'k \<Rightarrow> err_t \<times> 'k"
  raw_sendto :: "nat \<Rightarrow> bytes \<Rightarrow> u32 \<Rightarrow> 'k \<Rightarrow> err_t \<times> 'k"
  raw_remove :: "nat \<Rightarrow> 'k \<Rightarrow> 'k"
  pcb_ip :: "nat \<Rightarrow> bool \<Rightarrow> 'k \<Rightarrow> u32"
  pcb_port :: "nat \<Rightarrow> bool \<Rightarrow> 'k \<Rightarrow> u16"
  set_sof_broadcast :: "nat \<Rightarrow> bool \<Rightarrow> 'k \<Rightarrow> 'k"

text \<open>The memory pools and the operating system: a netconn, a netbuf, a mailbox, a semaphore; the wait
  of a task for a message, and for the end of a connect, a write or a close that is under way.\<close>

record 'k sys_api =
  memp_malloc_netconn :: "'k \<Rightarrow> nat ptr \<times> 'k"
  memp_free_netconn :: "nat \<Rightarrow> 'k \<Rightarrow> 'k"
  memp_malloc_netbuf :: "'k \<Rightarrow> bool \<times> 'k"
  netbuf_delete :: "'k \<Rightarrow> 'k"
  mbox_create :: "nat \<Rightarrow> 'k \<Rightarrow> bool \<times> 'k"
  mbox_release :: "'k \<Rightarrow> 'k"
  sem_create :: "'k \<Rightarrow> bool \<times> 'k"
  sem_release :: "'k \<Rightarrow> 'k"
  recvmbox_size :: "netconn_type \<Rightarrow> nat"
  acceptmbox_size :: nat
  pbuf_ref_alloc :: "bytes \<Rightarrow> u16 \<Rightarrow> 'k \<Rightarrow> err_t \<times> 'k"
  wait_recvmbox :: "nat \<Rightarrow> 'k netconn_world \<Rightarrow> recv_msg \<times> 'k netconn_world"
  wait_acceptmbox :: "nat \<Rightarrow> 'k netconn_world \<Rightarrow> accept_msg \<times> 'k netconn_world"
  wait_connected :: "nat \<Rightarrow> 'k netconn_world \<Rightarrow> err_t \<times> 'k netconn_world"
  wait_written :: "nat \<Rightarrow> 'k netconn_world \<Rightarrow> (err_t \<times> u32) \<times> 'k netconn_world"
  wait_closed :: "nat \<Rightarrow> 'k netconn_world \<Rightarrow> err_t \<times> 'k netconn_world"

record 'k core_ops =
  tcp :: "'k tcp_api"
  dgram :: "'k dgram_api"
  sys :: "'k sys_api"

definition upd_conn :: "nat \<Rightarrow> (netconn \<Rightarrow> netconn) \<Rightarrow> 'k netconn_world \<Rightarrow> 'k netconn_world" where
  "upd_conn c f w = w\<lparr>conns := (conns w)(c := f (conns w c))\<rparr>"

definition set_callbacks :: "nat \<Rightarrow> (pcb_callbacks \<Rightarrow> pcb_callbacks) \<Rightarrow> 'k netconn_world \<Rightarrow> 'k netconn_world" where
  "set_callbacks c f w = w\<lparr>callbacks := (callbacks w)(c := f (callbacks w c))\<rparr>"

text \<open>A call into the layers below: without and with a result.\<close>

definition in_core :: "('k \<Rightarrow> 'k) \<Rightarrow> 'k netconn_world \<Rightarrow> 'k netconn_world" where
  "in_core f w = w\<lparr>core := f (core w)\<rparr>"

definition call_core :: "('k \<Rightarrow> 'a \<times> 'k) \<Rightarrow> 'k netconn_world \<Rightarrow> 'a \<times> 'k netconn_world" where
  "call_core f w = (let (r, k) = f (core w) in (r, w\<lparr>core := k\<rparr>))"

section \<open>Mailboxes and flags\<close>

text \<open>The port of the mailboxes to FreeRTOS queues, called from a task. A try to post waits a long but
  bounded time for room in the queue, here with no other task taking messages meanwhile.\<close>

definition sys_mbox_trypost :: "'a \<Rightarrow> 'a mbox \<Rightarrow> err_t \<times> 'a mbox" where
  "sys_mbox_trypost msg m =
     (if length (mb_msgs m) < mb_size m then (ERR_OK, m\<lparr>mb_msgs := mb_msgs m @ [msg]\<rparr>) else (ERR_MEM, m))"

definition sys_arch_mbox_tryfetch :: "'a mbox \<Rightarrow> 'a ptr \<times> 'a mbox" where
  "sys_arch_mbox_tryfetch m =
     (case mb_msgs m of [] \<Rightarrow> (NULL, m) | x # xs \<Rightarrow> (Some x, m\<lparr>mb_msgs := xs\<rparr>))"

definition netconn_is_flag_set :: "u8 \<Rightarrow> netconn \<Rightarrow> bool" where
  "netconn_is_flag_set flag k \<longleftrightarrow> nc_flags k AND flag \<noteq> 0"

definition netconn_set_flags :: "u8 \<Rightarrow> netconn \<Rightarrow> netconn" where
  "netconn_set_flags fl k = k\<lparr>nc_flags := nc_flags k OR fl\<rparr>"

definition netconn_clear_flags :: "u8 \<Rightarrow> netconn \<Rightarrow> netconn" where
  "netconn_clear_flags fl k = k\<lparr>nc_flags := nc_flags k AND NOT fl\<rparr>"

definition conn_is_nonblocking :: "nat \<Rightarrow> 'k netconn_world \<Rightarrow> bool" where
  "conn_is_nonblocking c w = netconn_is_flag_set NETCONN_FLAG_NON_BLOCKING (conns w c)"

definition conn_set_nonblocking :: "nat \<Rightarrow> bool \<Rightarrow> 'k netconn_world \<Rightarrow> 'k netconn_world" where
  "conn_set_nonblocking c val w =
     upd_conn c (if val then netconn_set_flags NETCONN_FLAG_NON_BLOCKING
                 else netconn_clear_flags NETCONN_FLAG_NON_BLOCKING) w"

definition netconn_err :: "nat \<Rightarrow> 'k netconn_world \<Rightarrow> err_t \<times> 'k netconn_world" where
  "netconn_err c w = (pending_err (conns w c), upd_conn c (\<lambda>k. k\<lparr>pending_err := ERR_OK\<rparr>) w)"

definition lwip_netconn_err_to_msg :: "err_t \<Rightarrow> err_t ptr" where
  "lwip_netconn_err_to_msg err = (if err = ERR_ABRT \<or> err = ERR_RST \<or> err = ERR_CLSD then Some err else NULL)"

section \<open>Callbacks of the protocols\<close>

text \<open>\<open>recv_udp\<close> is called with a datagram, its source address and its port; \<open>recv_tcp\<close> with the data of one
  or more segments in order, or with a null pointer when the peer has closed.\<close>

definition recv_udp :: "'k core_ops \<Rightarrow> nat \<Rightarrow> bytes \<Rightarrow> u32 \<Rightarrow> u16 \<Rightarrow> 'k netconn_world \<Rightarrow> 'k netconn_world" where
  "recv_udp ops c p addr port w =
     (case recvmbox (conns w c) of
        None \<Rightarrow> w
      | Some m \<Rightarrow>
          let (ok, w) = call_core (memp_malloc_netbuf (sys ops)) w in
          if \<not> ok then w
          else
            let (err, m) = sys_mbox_trypost (Recv_netbuf \<lparr>nb_data = p, nb_addr = addr, nb_port = port\<rparr>) m
            in if err \<noteq> ERR_OK then in_core (netbuf_delete (sys ops)) w
               else upd_conn c (\<lambda>k. k\<lparr>recvmbox := Some m\<rparr>) w)"

definition recv_tcp :: "'k core_ops \<Rightarrow> nat \<Rightarrow> bytes ptr \<Rightarrow> 'k netconn_world \<Rightarrow> err_t \<times> 'k netconn_world" where
  "recv_tcp ops c p w =
     (case recvmbox (conns w c) of
        None \<Rightarrow> (ERR_OK, case p of None \<Rightarrow> w | Some b \<Rightarrow> in_core (tcp_recved (tcp ops) c (of_nat (length b))) w)
      | Some m \<Rightarrow>
          let (err, m) = sys_mbox_trypost (case p of Some b \<Rightarrow> Recv_pbuf b | None \<Rightarrow> Recv_err ERR_CLSD) m
          in if err \<noteq> ERR_OK then (ERR_MEM, w)
             else (ERR_OK, upd_conn c (\<lambda>k. k\<lparr>recvmbox := Some m\<rparr>) w))"

definition setup_tcp :: "nat \<Rightarrow> 'k netconn_world \<Rightarrow> 'k netconn_world" where
  "setup_tcp c = set_callbacks c (\<lambda>b. b\<lparr>cb_arg := True, cb_recv := True, cb_sent := True, cb_poll := True, cb_err := True\<rparr>)"

section \<open>Allocating and freeing\<close>

definition netconn_alloc :: "'k core_ops \<Rightarrow> netconn_type \<Rightarrow> 'k netconn_world \<Rightarrow> nat ptr \<times> 'k netconn_world" where
  "netconn_alloc ops t w =
     (case call_core (memp_malloc_netconn (sys ops)) w of
        (None, w) \<Rightarrow> (NULL, w)
      | (Some c, w) \<Rightarrow>
          let n = recvmbox_size (sys ops) (NETCONNTYPE_GROUP t);
              (ok, w) = call_core (mbox_create (sys ops) n) w
          in if \<not> ok then (NULL, in_core (memp_free_netconn (sys ops) c) w)
             else
               let (ok, w) = call_core (sem_create (sys ops)) w in
               if \<not> ok then (NULL, in_core (\<lambda>k. memp_free_netconn (sys ops) c (mbox_release (sys ops) k)) w)
               else (Some c, upd_conn c (\<lambda>_. \<lparr>nc_type = t, nc_state = NETCONN_NONE, nc_pcb = False, pending_err = ERR_OK,
                       recvmbox = Some \<lparr>mb_size = n, mb_msgs = []\<rparr>, acceptmbox = NULL, nc_socket = -1, nc_flags = 0\<rparr>) w))"

definition netconn_free :: "'k core_ops \<Rightarrow> nat \<Rightarrow> 'k netconn_world \<Rightarrow> 'k netconn_world" where
  "netconn_free ops c w = in_core (\<lambda>k. memp_free_netconn (sys ops) c (sem_release (sys ops) k)) w"

text \<open>Deleting the mailboxes of a netconn with what is left in them. A connection that was never
  accepted has no accept mailbox of its own, so the recursion of the code is one level deep.\<close>

definition drain_recvmbox :: "'k core_ops \<Rightarrow> nat \<Rightarrow> 'k netconn_world \<Rightarrow> 'k netconn_world" where
  "drain_recvmbox ops c w =
     (if recvmbox (conns w c) = NULL then w
      else in_core (mbox_release (sys ops)) (upd_conn c (\<lambda>k. k\<lparr>recvmbox := NULL\<rparr>) w))"

definition drain_accepted :: "'k core_ops \<Rightarrow> accept_msg \<Rightarrow> 'k netconn_world \<Rightarrow> 'k netconn_world" where
  "drain_accepted ops msg w =
     (case msg of
        Accept_conn n \<Rightarrow>
          let w = drain_recvmbox ops n w;
              w = (if nc_pcb (conns w n)
                   then upd_conn n (\<lambda>k. k\<lparr>nc_pcb := False\<rparr>) (in_core (tcp_abort (tcp ops) n) w) else w)
          in netconn_free ops n w
      | _ \<Rightarrow> w)"

definition netconn_drain :: "'k core_ops \<Rightarrow> nat \<Rightarrow> 'k netconn_world \<Rightarrow> 'k netconn_world" where
  "netconn_drain ops c w =
     (let w = drain_recvmbox ops c w in
      case acceptmbox (conns w c) of
        None \<Rightarrow> w
      | Some m \<Rightarrow>
          let w = fold (drain_accepted ops) (mb_msgs m) w
          in in_core (mbox_release (sys ops)) (upd_conn c (\<lambda>k. k\<lparr>acceptmbox := NULL\<rparr>) w))"

section \<open>Errors and new connections\<close>

definition err_tcp :: "nat \<Rightarrow> err_t \<Rightarrow> 'k netconn_world \<Rightarrow> 'k netconn_world" where
  "err_tcp c err w =
     (let old_state = nc_state (conns w c);
          w = upd_conn c (\<lambda>k. netconn_set_flags NETCONN_FLAG_MBOXCLOSED
                k\<lparr>nc_pcb := False, pending_err := err, nc_state := NETCONN_NONE\<rparr>) w;
          post_recv = (\<lambda>k. case recvmbox k of
                None \<Rightarrow> k
              | Some m \<Rightarrow> k\<lparr>recvmbox := Some (snd (sys_mbox_trypost
                  (case lwip_netconn_err_to_msg err of None \<Rightarrow> Recv_null | Some e \<Rightarrow> Recv_err e) m))\<rparr>);
          post_accept = (\<lambda>k. case acceptmbox k of
                None \<Rightarrow> k
              | Some m \<Rightarrow> k\<lparr>acceptmbox := Some (snd (sys_mbox_trypost
                  (case lwip_netconn_err_to_msg err of None \<Rightarrow> Accept_null | Some e \<Rightarrow> Accept_err e) m))\<rparr>);
          w = upd_conn c (post_accept \<circ> post_recv) w
      in if old_state = NETCONN_WRITE \<or> old_state = NETCONN_CLOSE \<or> old_state = NETCONN_CONNECT
         then upd_conn c (netconn_clear_flags NETCONN_FLAG_IN_NONBLOCKING_CONNECT) w else w)"

text \<open>\<open>accept_function\<close>, with a new control block or, when there was none left, without.\<close>

definition accept_function :: "'k core_ops \<Rightarrow> nat \<Rightarrow> bool \<Rightarrow> 'k netconn_world \<Rightarrow> err_t \<times> 'k netconn_world" where
  "accept_function ops c newpcb w =
     (case acceptmbox (conns w c) of
        None \<Rightarrow> (ERR_VAL, w)
      | Some m \<Rightarrow>
          let abort = (\<lambda>w. upd_conn c (\<lambda>k. k\<lparr>acceptmbox := Some (snd (sys_mbox_trypost (Accept_err ERR_ABRT) m))\<rparr>) w) in
          if \<not> newpcb then (ERR_VAL, abort w)
          else
            (case netconn_alloc ops (nc_type (conns w c)) w of
               (None, w) \<Rightarrow> (ERR_MEM, abort w)
             | (Some n, w) \<Rightarrow>
                 let w = setup_tcp n (upd_conn n (\<lambda>k. k\<lparr>nc_pcb := True\<rparr>) (in_core (tcp_adopt (tcp ops) n) w));
                     (err, m) = sys_mbox_trypost (Accept_conn n) m
                 in if err \<noteq> ERR_OK then
                      let w = set_callbacks n (\<lambda>b. b\<lparr>cb_arg := False, cb_recv := False, cb_sent := False, cb_poll := False, cb_err := False\<rparr>) w;
                          w = upd_conn n (\<lambda>k. k\<lparr>nc_pcb := False, recvmbox := NULL\<rparr>) (in_core (mbox_release (sys ops)) w)
                      in (ERR_MEM, netconn_free ops n w)
                    else (ERR_OK, upd_conn c (\<lambda>k. k\<lparr>acceptmbox := Some m\<rparr>) w)))"

section \<open>Creating, binding, connecting\<close>

definition pcb_new :: "'k core_ops \<Rightarrow> nat \<Rightarrow> u8 \<Rightarrow> 'k netconn_world \<Rightarrow> err_t \<times> 'k netconn_world" where
  "pcb_new ops c proto w =
     (let (ok, w) = (case NETCONNTYPE_GROUP (nc_type (conns w c)) of
                       NETCONN_RAW \<Rightarrow> call_core (raw_new (dgram ops) c proto) w
                     | NETCONN_TCP \<Rightarrow>
                         (let (ok, w) = call_core (tcp_new (tcp ops) c) w
                          in (ok, if ok then setup_tcp c w else w))
                     | _ \<Rightarrow> call_core (udp_new (dgram ops) c) w);
          w = upd_conn c (\<lambda>k. k\<lparr>nc_pcb := ok\<rparr>) w
      in (if ok then ERR_OK else ERR_MEM, w))"

definition lwip_netconn_do_newconn :: "'k core_ops \<Rightarrow> nat \<Rightarrow> u8 \<Rightarrow> 'k netconn_world \<Rightarrow> err_t \<times> 'k netconn_world" where
  "lwip_netconn_do_newconn ops c proto w = (if \<not> nc_pcb (conns w c) then pcb_new ops c proto w else (ERR_OK, w))"

definition lwip_netconn_do_bind ::
    "'k core_ops \<Rightarrow> nat \<Rightarrow> u32 \<Rightarrow> u16 \<Rightarrow> 'k netconn_world \<Rightarrow> err_t \<times> 'k netconn_world" where
  "lwip_netconn_do_bind ops c addr port w =
     (if nc_pcb (conns w c) then
        (case NETCONNTYPE_GROUP (nc_type (conns w c)) of
           NETCONN_RAW \<Rightarrow> call_core (raw_bind (dgram ops) c addr) w
         | NETCONN_TCP \<Rightarrow> call_core (tcp_bind (tcp ops) c addr port) w
         | _ \<Rightarrow> call_core (pcb_udp_bind (dgram ops) c addr port) w)
      else (ERR_VAL, w))"

text \<open>A connect of a blocking TCP netconn waits for \<open>lwip_netconn_do_connected\<close> or \<open>err_tcp\<close>.\<close>

definition lwip_netconn_do_connected :: "nat \<Rightarrow> err_t \<Rightarrow> 'k netconn_world \<Rightarrow> err_t \<times> 'k netconn_world" where
  "lwip_netconn_do_connected c err w =
     (let w = (if NETCONNTYPE_GROUP (nc_type (conns w c)) = NETCONN_TCP \<and> err = ERR_OK then setup_tcp c w else w)
      in (ERR_OK, upd_conn c (\<lambda>k. netconn_clear_flags NETCONN_FLAG_IN_NONBLOCKING_CONNECT k\<lparr>nc_state := NETCONN_NONE\<rparr>) w))"

definition lwip_netconn_do_connect ::
    "'k core_ops \<Rightarrow> nat \<Rightarrow> u32 \<Rightarrow> u16 \<Rightarrow> 'k netconn_world \<Rightarrow> err_t \<times> 'k netconn_world" where
  "lwip_netconn_do_connect ops c addr port w =
     (if \<not> nc_pcb (conns w c) then (ERR_CLSD, w)
      else
        (case NETCONNTYPE_GROUP (nc_type (conns w c)) of
           NETCONN_RAW \<Rightarrow> call_core (raw_connect (dgram ops) c addr) w
         | NETCONN_TCP \<Rightarrow>
             if nc_state (conns w c) = NETCONN_CONNECT then (ERR_ALREADY, w)
             else if nc_state (conns w c) \<noteq> NETCONN_NONE then (ERR_ISCONN, w)
             else
               let (err, w) = call_core (pcb_tcp_connect (tcp ops) c addr port) (setup_tcp c w) in
               if err \<noteq> ERR_OK then (err, w)
               else if conn_is_nonblocking c w then
                 (ERR_INPROGRESS, upd_conn c (\<lambda>k. netconn_set_flags NETCONN_FLAG_IN_NONBLOCKING_CONNECT k\<lparr>nc_state := NETCONN_CONNECT\<rparr>) w)
               else
                 wait_connected (sys ops) c
                   (upd_conn c (\<lambda>k. netconn_clear_flags NETCONN_FLAG_IN_NONBLOCKING_CONNECT k\<lparr>nc_state := NETCONN_CONNECT\<rparr>) w)
         | _ \<Rightarrow> call_core (udp_connect (dgram ops) c addr port) w))"

definition lwip_netconn_do_disconnect :: "'k core_ops \<Rightarrow> nat \<Rightarrow> 'k netconn_world \<Rightarrow> err_t \<times> 'k netconn_world" where
  "lwip_netconn_do_disconnect ops c w =
     (if NETCONNTYPE_GROUP (nc_type (conns w c)) = NETCONN_UDP
      then (ERR_OK, in_core (udp_disconnect (dgram ops) c) w) else (ERR_VAL, w))"

definition lwip_netconn_do_listen :: "'k core_ops \<Rightarrow> nat \<Rightarrow> u8 \<Rightarrow> 'k netconn_world \<Rightarrow> err_t \<times> 'k netconn_world" where
  "lwip_netconn_do_listen ops c backlog w =
     (if \<not> nc_pcb (conns w c) then (ERR_CONN, w)
      else if NETCONNTYPE_GROUP (nc_type (conns w c)) \<noteq> NETCONN_TCP then (ERR_ARG, w)
      else
        (case nc_state (conns w c) of
           NETCONN_NONE \<Rightarrow>
             if pcb_state (tcp ops) c (core w) \<noteq> TCP_CLOSED then (ERR_VAL, w)
             else
               let ((lpcb, err), w) = call_core (tcp_listen_with_backlog (tcp ops) c backlog) w in
               if \<not> lpcb then (err, w)
               else
                 let w = drain_recvmbox ops c w;
                     (ok, w) = (if acceptmbox (conns w c) = NULL
                                then let (ok, w) = call_core (mbox_create (sys ops) (acceptmbox_size (sys ops))) w
                                     in (ok, if ok then upd_conn c (\<lambda>k. k\<lparr>acceptmbox := Some \<lparr>mb_size = acceptmbox_size (sys ops), mb_msgs = []\<rparr>\<rparr>) w
                                             else w)
                                else (True, w))
                 in if ok then
                      (ERR_OK, set_callbacks c (\<lambda>b. b\<lparr>cb_arg := True, cb_accept := True\<rparr>)
                                 (upd_conn c (\<lambda>k. k\<lparr>nc_state := NETCONN_LISTEN\<rparr>) w))
                    else
                      (ERR_MEM, upd_conn c (\<lambda>k. k\<lparr>nc_pcb := False\<rparr>) (snd (call_core (tcp_close (tcp ops) c) w)))
         | NETCONN_LISTEN \<Rightarrow> (ERR_OK, in_core (tcp_backlog_set (tcp ops) c backlog) w)
         | _ \<Rightarrow> (ERR_CONN, w)))"

definition lwip_netconn_do_accepted :: "'k core_ops \<Rightarrow> nat \<Rightarrow> 'k netconn_world \<Rightarrow> err_t \<times> 'k netconn_world" where
  "lwip_netconn_do_accepted ops c w =
     (ERR_OK, if nc_pcb (conns w c) \<and> NETCONNTYPE_GROUP (nc_type (conns w c)) = NETCONN_TCP
              then in_core (tcp_backlog_accepted (tcp ops) c) w else w)"

definition lwip_netconn_do_getaddr ::
    "'k core_ops \<Rightarrow> nat \<Rightarrow> bool \<Rightarrow> 'k netconn_world \<Rightarrow> (err_t \<times> u32 \<times> u16) \<times> 'k netconn_world" where
  "lwip_netconn_do_getaddr ops c local w =
     (if \<not> nc_pcb (conns w c) then ((ERR_CONN, 0, 0), w)
      else
        let ip = pcb_ip (dgram ops) c local (core w); port = pcb_port (dgram ops) c local (core w);
            connected = (case NETCONNTYPE_GROUP (nc_type (conns w c)) of
                NETCONN_RAW \<Rightarrow> False
              | NETCONN_TCP \<Rightarrow> pcb_state (tcp ops) c (core w) \<noteq> TCP_CLOSED \<and> pcb_state (tcp ops) c (core w) \<noteq> TCP_LISTEN
              | _ \<Rightarrow> udp_connected (dgram ops) c (core w))
        in (if local \<or> connected then (ERR_OK, ip, port) else (ERR_CONN, ip, 0), w))"

section \<open>Data\<close>

definition lwip_netconn_do_send :: "'k core_ops \<Rightarrow> nat \<Rightarrow> netbuf \<Rightarrow> 'k netconn_world \<Rightarrow> err_t \<times> 'k netconn_world" where
  "lwip_netconn_do_send ops c b w =
     (let (err, w) = netconn_err c w in
      if err \<noteq> ERR_OK then (err, w)
      else if \<not> nc_pcb (conns w c) then (ERR_CONN, w)
      else
        (case NETCONNTYPE_GROUP (nc_type (conns w c)) of
           NETCONN_RAW \<Rightarrow>
             if nb_addr b = 0 then call_core (raw_send (dgram ops) c (nb_data b)) w
             else call_core (raw_sendto (dgram ops) c (nb_data b) (nb_addr b)) w
         | NETCONN_TCP \<Rightarrow> (ERR_CONN, w)
         | _ \<Rightarrow>
             if nb_addr b = 0 then call_core (udp_send (dgram ops) c (nb_data b)) w
             else call_core (pcb_udp_sendto (dgram ops) c (nb_data b) (nb_addr b) (nb_port b)) w))"

lemma unat_sub_ffff: "(0xffff :: u32) < d \<Longrightarrow> unat (d - 0xffff) < unat d"
  by (simp add: unat_sub_word word_less_nat_alt word_le_nat_alt)

lemma ucast_ucast_small: "\<not> (0xffff :: u32) < d \<Longrightarrow> ucast (ucast d :: u16) = d"
  by (simp add: word_less_nat_alt word_unat_eq_iff unat_ucast_u32)

text \<open>The window update after data has been taken: at most 65535 bytes in one call.\<close>

function recved_loop :: "'k tcp_api \<Rightarrow> nat \<Rightarrow> u32 \<Rightarrow> 'k \<Rightarrow> 'k" where
  "recved_loop api c remaining k =
     (let recved = (if remaining > 0xffff then 0xffff else ucast remaining) :: u16;
          k = tcp_recved api c recved k;
          remaining' = remaining - ucast recved
      in if remaining' \<noteq> 0 then recved_loop api c remaining' k else k)"
  by pat_completeness auto
termination
  by (relation "measure (\<lambda>(api, c, remaining, k). unat remaining)")
    (auto simp: unat_sub_ffff ucast_ucast_small split: if_splits)

definition lwip_netconn_do_recv :: "'k core_ops \<Rightarrow> nat \<Rightarrow> u32 \<Rightarrow> 'k netconn_world \<Rightarrow> err_t \<times> 'k netconn_world" where
  "lwip_netconn_do_recv ops c len w =
     (ERR_OK, if nc_pcb (conns w c) \<and> NETCONNTYPE_GROUP (nc_type (conns w c)) = NETCONN_TCP
              then in_core (recved_loop (tcp ops) c len) w else w)"

text \<open>The loop of \<open>lwip_netconn_do_writemore\<close>, for the one vector (\<open>data\<close>, \<open>len\<close>) that \<open>netconn_write_partly\<close>
  passes: with one vector there is more to write only when 65535 bytes were not all. It returns
  the error, whether the loop was left through \<open>goto err_mem\<close>, and the offset reached.\<close>

function writemore_loop ::
    "'k tcp_api \<Rightarrow> nat \<Rightarrow> bytes \<Rightarrow> u32 \<Rightarrow> bool \<Rightarrow> u8 \<Rightarrow> u32 \<Rightarrow> 'k \<Rightarrow> (err_t \<times> bool \<times> u32) \<times> 'k" where
  "writemore_loop api c data len dontblock apiflags offset k =
     (let diff = len - offset;
          (n, apiflags) = (if diff > 0xffff then (0xffff :: u16, apiflags OR TCP_WRITE_FLAG_MORE) else (ucast diff, apiflags));
          available = tcp_sndbuf api c k;
          short = available < n;
          n = (if short then available else n);
          apiflags = (if short \<and> \<not> dontblock then apiflags OR TCP_WRITE_FLAG_MORE else apiflags)
      in if short \<and> dontblock \<and> n = 0
         then ((if offset = 0 then ERR_WOULDBLOCK else ERR_OK, True, offset), k)
         else
           let write_more = (n = 0xffff \<and> diff > 0xffff);
               apiflags = (if write_more then apiflags OR TCP_WRITE_FLAG_MORE else apiflags);
               (err, k) = tcp_write api c (drop (unat offset) data) n apiflags k
           in if err \<noteq> ERR_OK then ((err, False, offset), k)
              else if write_more then writemore_loop api c data len dontblock apiflags (offset + ucast n) k
              else ((ERR_OK, False, offset + ucast n), k))"
  by pat_completeness auto
termination
proof (relation "measure (\<lambda>(api, c, data, len, dontblock, apiflags, offset, k). unat (len - offset))", simp, goal_cases)
  case (1 api c data len dontblock apiflags offset k diff)
  then have "0xffff < diff" "len - (offset + 0xffff) = diff - 0xffff"
    by (auto split: if_splits)
  with 1 unat_sub_ffff [of diff] show ?case
    by (simp add: diff_diff_eq [symmetric])
qed

declare recved_loop.simps [simp del] and writemore_loop.simps [simp del]

text \<open>The result is the error and the number of bytes written, or \<open>None\<close> when the write has to wait for
  more room. The message has the length to write (\<open>len\<close>) beside that of its vector (\<open>veclen\<close>).\<close>

definition lwip_netconn_do_writemore ::
    "'k core_ops \<Rightarrow> nat \<Rightarrow> bytes \<Rightarrow> u32 \<Rightarrow> u32 \<Rightarrow> u8 \<Rightarrow> 'k netconn_world \<Rightarrow> (err_t \<times> u32) option \<times> 'k netconn_world" where
  "lwip_netconn_do_writemore ops c data veclen len apiflags w =
     (let dontblock = conn_is_nonblocking c w \<or> apiflags AND NETCONN_DONTBLOCK \<noteq> 0;
          ((err, err_mem, offset), w) = call_core (writemore_loop (tcp ops) c data veclen dontblock apiflags 0) w;
          w = (if (err = ERR_OK \<or> err = ERR_MEM \<or> err_mem) \<and> dontblock \<and> offset < len
               then upd_conn c (netconn_set_flags NETCONN_FLAG_CHECK_WRITESPACE) w else w);
          (err, finished, w) =
            (if err = ERR_OK then
               let (out_err, w) = call_core (tcp_output (tcp ops) c) w
               in if out_err = ERR_RTE then (ERR_RTE, True, w) else (ERR_OK, offset = len \<or> dontblock, w)
             else if err = ERR_MEM then
               let (out_err, w) = call_core (tcp_output (tcp ops) c) w
               in if out_err = ERR_RTE then (ERR_RTE, True, w)
                  else if dontblock then (if offset = 0 then ERR_WOULDBLOCK else ERR_OK, True, w)
                  else (err, False, w)
             else (err, True, w))
      in if finished then (Some (err, offset), upd_conn c (\<lambda>k. k\<lparr>nc_state := NETCONN_NONE\<rparr>) w) else (None, w))"

definition lwip_netconn_do_write ::
    "'k core_ops \<Rightarrow> nat \<Rightarrow> bytes \<Rightarrow> u32 \<Rightarrow> u32 \<Rightarrow> u8 \<Rightarrow> 'k netconn_world \<Rightarrow> (err_t \<times> u32) \<times> 'k netconn_world" where
  "lwip_netconn_do_write ops c data veclen len apiflags w =
     (let (err, w) = netconn_err c w in
      if err \<noteq> ERR_OK then ((err, 0), w)
      else if NETCONNTYPE_GROUP (nc_type (conns w c)) \<noteq> NETCONN_TCP then ((ERR_VAL, 0), w)
      else if nc_state (conns w c) \<noteq> NETCONN_NONE then ((ERR_INPROGRESS, 0), w)
      else if \<not> nc_pcb (conns w c) then ((ERR_CONN, 0), w)
      else
        (case lwip_netconn_do_writemore ops c data veclen len apiflags (upd_conn c (\<lambda>k. k\<lparr>nc_state := NETCONN_WRITE\<rparr>) w) of
           (Some r, w) \<Rightarrow> (r, w)
         | (None, w) \<Rightarrow> wait_written (sys ops) c w))"

section \<open>Closing\<close>

text \<open>The first attempt to close: the result is the error code of the call, or \<open>None\<close> when there was no memory
  and the close is tried again later (up to \<open>polls_left\<close> times), while the task waits.\<close>

definition lwip_netconn_do_close_internal ::
    "'k core_ops \<Rightarrow> nat \<Rightarrow> u8 \<Rightarrow> 'k netconn_world \<Rightarrow> err_t option \<times> 'k netconn_world" where
  "lwip_netconn_do_close_internal ops c shut w =
     (let shut_rx = (shut AND NETCONN_SHUT_RD \<noteq> 0); shut_tx = (shut AND NETCONN_SHUT_WR \<noteq> 0);
          st = pcb_state (tcp ops) c (core w);
          shut_close = (if shut = NETCONN_SHUT_RDWR then True
                        else if shut_rx \<and> (st = FIN_WAIT_1 \<or> st = FIN_WAIT_2 \<or> st = CLOSING) then True
                        else shut_tx \<and> pcb_rxclosed (tcp ops) c (core w));
          w = (if shut_close then set_callbacks c (\<lambda>b. b\<lparr>cb_arg := False\<rparr>) w else w);
          w = (if st = TCP_LISTEN then set_callbacks c (\<lambda>b. b\<lparr>cb_accept := False\<rparr>) w
               else set_callbacks c (\<lambda>b.
                 let b = (if shut_rx then b\<lparr>cb_recv := False, cb_accept := False\<rparr> else b);
                     b = (if shut_tx then b\<lparr>cb_sent := False\<rparr> else b)
                 in if shut_close then b\<lparr>cb_poll := False, cb_err := False\<rparr> else b) w);
          (err, w) = (if shut_close then call_core (tcp_close (tcp ops) c) w
                      else call_core (tcp_shutdown (tcp ops) c shut_rx shut_tx) w)
      in if err = ERR_MEM then
           (None, set_callbacks c (\<lambda>b. (if shut_tx then b\<lparr>cb_sent := True\<rparr> else b)\<lparr>cb_poll := True, cb_err := True, cb_arg := True\<rparr>) w)
         else
           (Some err, upd_conn c (\<lambda>k. k\<lparr>nc_state := NETCONN_NONE, nc_pcb := nc_pcb k \<and> \<not> (err = ERR_OK \<and> shut_close)\<rparr>) w))"

definition close_or_wait :: "'k core_ops \<Rightarrow> nat \<Rightarrow> u8 \<Rightarrow> 'k netconn_world \<Rightarrow> err_t \<times> 'k netconn_world" where
  "close_or_wait ops c shut w =
     (case lwip_netconn_do_close_internal ops c shut (upd_conn c (\<lambda>k. k\<lparr>nc_state := NETCONN_CLOSE\<rparr>) w) of
        (Some err, w) \<Rightarrow> (err, w)
      | (None, w) \<Rightarrow> wait_closed (sys ops) c w)"

definition lwip_netconn_do_close :: "'k core_ops \<Rightarrow> nat \<Rightarrow> u8 \<Rightarrow> 'k netconn_world \<Rightarrow> err_t \<times> 'k netconn_world" where
  "lwip_netconn_do_close ops c shut w =
     (let state = nc_state (conns w c) in
      if nc_pcb (conns w c) \<and> NETCONNTYPE_GROUP (nc_type (conns w c)) = NETCONN_TCP
         \<and> (shut = NETCONN_SHUT_RDWR \<or> state \<noteq> NETCONN_LISTEN)
      then if state = NETCONN_CONNECT then (ERR_CONN, w)
           else if state = NETCONN_WRITE then (ERR_INPROGRESS, w)
           else close_or_wait ops c shut (if shut AND NETCONN_SHUT_RD \<noteq> 0 then netconn_drain ops c w else w)
      else (ERR_CONN, w))"

definition lwip_netconn_do_delconn :: "'k core_ops \<Rightarrow> nat \<Rightarrow> 'k netconn_world \<Rightarrow> err_t \<times> 'k netconn_world" where
  "lwip_netconn_do_delconn ops c w =
     (let state = nc_state (conns w c) in
      if state \<noteq> NETCONN_NONE \<and> state \<noteq> NETCONN_LISTEN \<and> state \<noteq> NETCONN_CONNECT
         \<or> state = NETCONN_CONNECT \<and> \<not> netconn_is_flag_set NETCONN_FLAG_IN_NONBLOCKING_CONNECT (conns w c)
      then (ERR_INPROGRESS, w)
      else
        let w = netconn_drain ops c w in
        if \<not> nc_pcb (conns w c) then (ERR_OK, w)
        else
          (case NETCONNTYPE_GROUP (nc_type (conns w c)) of
             NETCONN_RAW \<Rightarrow> (ERR_OK, upd_conn c (\<lambda>k. k\<lparr>nc_pcb := False\<rparr>) (in_core (raw_remove (dgram ops) c) w))
           | NETCONN_TCP \<Rightarrow> close_or_wait ops c NETCONN_SHUT_RDWR w
           | _ \<Rightarrow> (ERR_OK, upd_conn c (\<lambda>k. k\<lparr>nc_pcb := False\<rparr>) (in_core (udp_remove (dgram ops) c) w))))"

end
