(* ===== verification/Lwip_Netconn.thy ===== *)
theory Lwip_Netconn
  imports Lwip_Api_Msg
begin

text \<open>
  The application side of lwIP's netconn layer, \<^verbatim>\<open>api/api_lib.c\<close>, through which the socket layer talks to
  the stack. A call that needs the stack packs its arguments into a message and runs the function
  \<open>lwip_netconn_do_...\<close> for it under the core lock (\<open>netconn_apimsg\<close>); here it is the call of that function
  with the arguments. The layer is then packed into the record of operations that the socket layer takes.
\<close>

section \<open>Opening, connecting and closing\<close>

definition netconn_new_with_proto_and_callback ::
    "'k core_ops \<Rightarrow> netconn_type \<Rightarrow> u8 \<Rightarrow> 'k netconn_world \<Rightarrow> nat ptr \<times> 'k netconn_world" where
  "netconn_new_with_proto_and_callback ops t proto w =
     (case netconn_alloc ops t w of
        (None, w) \<Rightarrow> (NULL, w)
      | (Some c, w) \<Rightarrow>
          let (err, w) = lwip_netconn_do_newconn ops c proto w in
          if err \<noteq> ERR_OK then
            (NULL, in_core (\<lambda>k. memp_free_netconn (sys ops) c (mbox_release (sys ops) (sem_release (sys ops) k))) w)
          else (Some c, w))"

definition conn_prepare_delete :: "'k core_ops \<Rightarrow> nat \<Rightarrow> 'k netconn_world \<Rightarrow> err_t \<times> 'k netconn_world" where
  "conn_prepare_delete ops c w = lwip_netconn_do_delconn ops c w"

definition conn_delete :: "'k core_ops \<Rightarrow> nat \<Rightarrow> 'k netconn_world \<Rightarrow> err_t \<times> 'k netconn_world" where
  "conn_delete ops c w =
     (let (err, w) = conn_prepare_delete ops c w
      in (err, if err = ERR_OK then netconn_free ops c w else w))"

definition netconn_getaddr ::
    "'k core_ops \<Rightarrow> nat \<Rightarrow> bool \<Rightarrow> 'k netconn_world \<Rightarrow> (err_t \<times> u32 \<times> u16) \<times> 'k netconn_world" where
  "netconn_getaddr ops c local w = lwip_netconn_do_getaddr ops c local w"

definition netconn_close_shutdown :: "'k core_ops \<Rightarrow> nat \<Rightarrow> u8 \<Rightarrow> 'k netconn_world \<Rightarrow> err_t \<times> 'k netconn_world" where
  "netconn_close_shutdown ops c how w = lwip_netconn_do_close ops c how w"

section \<open>Accepting\<close>

definition conn_accept :: "'k core_ops \<Rightarrow> nat \<Rightarrow> 'k netconn_world \<Rightarrow> (err_t \<times> nat ptr) \<times> 'k netconn_world" where
  "conn_accept ops c w =
     (let (err, w) = netconn_err c w in
      if err \<noteq> ERR_OK then ((err, NULL), w)
      else
        case acceptmbox (conns w c) of
          None \<Rightarrow> ((ERR_CLSD, NULL), w)
        | Some m \<Rightarrow>
            if netconn_is_flag_set NETCONN_FLAG_MBOXCLOSED (conns w c) then ((ERR_CLSD, NULL), w)
            else
              let (got, w) =
                    (if conn_is_nonblocking c w then
                       let (got, m) = sys_arch_mbox_tryfetch m
                       in (got, upd_conn c (\<lambda>k. k\<lparr>acceptmbox := Some m\<rparr>) w)
                     else (let (x, w) = wait_acceptmbox (sys ops) c w in (Some x, w)))
              in case got of
                   None \<Rightarrow> ((ERR_WOULDBLOCK, NULL), w)
                 | Some (Accept_err err) \<Rightarrow> ((err, NULL), w)
                 | Some Accept_null \<Rightarrow> ((ERR_CLSD, NULL), w)
                 | Some (Accept_conn newconn) \<Rightarrow>
                     let (_, w) = lwip_netconn_do_accepted ops newconn w in ((ERR_OK, Some newconn), w))"

section \<open>Receiving\<close>

text \<open>Both kinds of netconn receive through \<open>netconn_recv_data\<close>; a closed connection is reported as
  success with no buffer.\<close>

definition netconn_recv_data ::
    "'k core_ops \<Rightarrow> nat \<Rightarrow> u8 \<Rightarrow> 'k netconn_world \<Rightarrow> (err_t \<times> recv_msg ptr) \<times> 'k netconn_world" where
  "netconn_recv_data ops c apiflags w =
     (case recvmbox (conns w c) of
        None \<Rightarrow>
          let (err, w) = netconn_err c w in ((if err \<noteq> ERR_OK then err else ERR_CONN, NULL), w)
      | Some m \<Rightarrow>
          let (got, w) =
                (if conn_is_nonblocking c w \<or> apiflags AND NETCONN_DONTBLOCK \<noteq> 0
                    \<or> netconn_is_flag_set NETCONN_FLAG_MBOXCLOSED (conns w c) \<or> pending_err (conns w c) \<noteq> ERR_OK
                 then
                   let (got, m) = sys_arch_mbox_tryfetch m
                   in (got, upd_conn c (\<lambda>k. k\<lparr>recvmbox := Some m\<rparr>) w)
                 else (let (x, w) = wait_recvmbox (sys ops) c w in (Some x, w)))
          in case got of
               None \<Rightarrow>
                 let (err, w) = netconn_err c w in
                 ((if err \<noteq> ERR_OK then err
                   else if netconn_is_flag_set NETCONN_FLAG_MBOXCLOSED (conns w c) then ERR_CONN
                   else ERR_WOULDBLOCK, NULL), w)
             | Some buf \<Rightarrow>
                 if NETCONNTYPE_GROUP (nc_type (conns w c)) = NETCONN_TCP then
                   (case buf of
                      Recv_err err \<Rightarrow> ((if err = ERR_CLSD then ERR_OK else err, NULL), w)
                    | _ \<Rightarrow> ((ERR_OK, Some buf), w))
                 else ((ERR_OK, Some buf), w))"

definition netconn_tcp_recvd_msg :: "'k core_ops \<Rightarrow> nat \<Rightarrow> u32 \<Rightarrow> 'k netconn_world \<Rightarrow> err_t \<times> 'k netconn_world" where
  "netconn_tcp_recvd_msg ops c len w =
     (if NETCONNTYPE_GROUP (nc_type (conns w c)) \<noteq> NETCONN_TCP then (ERR_ARG, w) else lwip_netconn_do_recv ops c len w)"

definition conn_tcp_recvd :: "'k core_ops \<Rightarrow> nat \<Rightarrow> u32 \<Rightarrow> 'k netconn_world \<Rightarrow> err_t \<times> 'k netconn_world" where
  "conn_tcp_recvd ops c len w =
     (if NETCONNTYPE_GROUP (nc_type (conns w c)) \<noteq> NETCONN_TCP then (ERR_ARG, w) else netconn_tcp_recvd_msg ops c len w)"

text \<open>The code at the label \<open>handle_fin\<close>.\<close>

definition handle_fin ::
    "'k core_ops \<Rightarrow> nat \<Rightarrow> 'k netconn_world \<Rightarrow> (err_t \<times> recv_msg ptr) \<times> 'k netconn_world" where
  "handle_fin ops c w =
     (if \<not> nc_pcb (conns w c) then
        let (err, w) = netconn_err c w in ((if err \<noteq> ERR_OK then err else ERR_RST, NULL), w)
      else
        let (_, w) = netconn_close_shutdown ops c NETCONN_SHUT_RD w in ((ERR_CLSD, NULL), w))"

definition msg_tot_len :: "recv_msg ptr \<Rightarrow> u32" where
  "msg_tot_len buf = (case buf of Some (Recv_pbuf b) \<Rightarrow> ucast (of_nat (length b) :: u16) | _ \<Rightarrow> 1)"

definition netconn_recv_data_tcp ::
    "'k core_ops \<Rightarrow> nat \<Rightarrow> u8 \<Rightarrow> 'k netconn_world \<Rightarrow> (err_t \<times> recv_msg ptr) \<times> 'k netconn_world" where
  "netconn_recv_data_tcp ops c apiflags w =
     (if recvmbox (conns w c) = NULL then ((ERR_CONN, NULL), w)
      else if netconn_is_flag_set NETCONN_FIN_RX_PENDING (conns w c) then
        handle_fin ops c (upd_conn c (netconn_clear_flags NETCONN_FIN_RX_PENDING) w)
      else
        let ((err, buf), w) = netconn_recv_data ops c apiflags w in
        if err \<noteq> ERR_OK then ((err, buf), w)
        else
          let w = (if apiflags AND NETCONN_NOAUTORCVD = 0 then snd (netconn_tcp_recvd_msg ops c (msg_tot_len buf) w) else w) in
          if buf = NULL then
            if apiflags AND NETCONN_NOFIN \<noteq> 0
            then ((ERR_WOULDBLOCK, NULL), upd_conn c (netconn_set_flags NETCONN_FIN_RX_PENDING) w)
            else handle_fin ops c w
          else ((err, buf), w))"

text \<open>The two entry points of the socket layer. They hand out the message as a packet buffer and as a
  netbuf; a message of the other kind is a pointer to an object of the wrong type.\<close>

definition as_pbuf :: "recv_msg ptr \<Rightarrow> bytes ptr" where
  "as_pbuf buf = (case buf of Some (Recv_pbuf b) \<Rightarrow> Some b | _ \<Rightarrow> NULL)"

definition as_netbuf :: "recv_msg ptr \<Rightarrow> netbuf ptr" where
  "as_netbuf buf = (case buf of Some (Recv_netbuf b) \<Rightarrow> Some b | _ \<Rightarrow> NULL)"

definition conn_recv_tcp_pbuf_flags ::
    "'k core_ops \<Rightarrow> nat \<Rightarrow> u8 \<Rightarrow> 'k netconn_world \<Rightarrow> (err_t \<times> bytes ptr) \<times> 'k netconn_world" where
  "conn_recv_tcp_pbuf_flags ops c apiflags w =
     (if NETCONNTYPE_GROUP (nc_type (conns w c)) \<noteq> NETCONN_TCP then ((ERR_ARG, NULL), w)
      else let ((err, buf), w) = netconn_recv_data_tcp ops c apiflags w in ((err, as_pbuf buf), w))"

definition conn_recv_udp_raw_netbuf_flags ::
    "'k core_ops \<Rightarrow> nat \<Rightarrow> u8 \<Rightarrow> 'k netconn_world \<Rightarrow> (err_t \<times> netbuf ptr) \<times> 'k netconn_world" where
  "conn_recv_udp_raw_netbuf_flags ops c apiflags w =
     (if NETCONNTYPE_GROUP (nc_type (conns w c)) = NETCONN_TCP then ((ERR_ARG, NULL), w)
      else let ((err, buf), w) = netconn_recv_data ops c apiflags w in ((err, as_netbuf buf), w))"

section \<open>Sending\<close>

text \<open>\<open>netconn_write_vectors_partly\<close> for the one vector (\<open>data\<close>, \<open>len\<close>) that \<open>netconn_write_partly\<close> builds, with a
  pointer for the number of bytes written. The size of one vector cannot overflow.\<close>

definition netconn_write_vectors_partly ::
    "'k core_ops \<Rightarrow> nat \<Rightarrow> bytes \<Rightarrow> u32 \<Rightarrow> u8 \<Rightarrow> 'k netconn_world \<Rightarrow> (err_t \<times> u32) \<times> 'k netconn_world" where
  "netconn_write_vectors_partly ops c data len apiflags w =
     (if NETCONNTYPE_GROUP (nc_type (conns w c)) \<noteq> NETCONN_TCP then ((ERR_VAL, 0), w)
      else if len = 0 then ((ERR_OK, 0), w)
      else
        let sz = (if len > SSIZE_MAX then SSIZE_MAX else len);
            ((err, offset), w) = lwip_netconn_do_write ops c data len sz apiflags w
        in ((err, if err = ERR_OK then offset else 0), w))"

definition conn_write_partly ::
    "'k core_ops \<Rightarrow> nat \<Rightarrow> bytes \<Rightarrow> u32 \<Rightarrow> u8 \<Rightarrow> 'k netconn_world \<Rightarrow> (err_t \<times> u32) \<times> 'k netconn_world" where
  "conn_write_partly ops c dataptr len apiflags w = netconn_write_vectors_partly ops c dataptr len apiflags w"

section \<open>The interface to the socket layer\<close>

definition netconn_layer :: "'k core_ops \<Rightarrow> 'k netconn_world netconn_api" where
  "netconn_layer ops =
     \<lparr>conn_type = (\<lambda>c w. nc_type (conns w c)),
      conn_socket = (\<lambda>c w. nc_socket (conns w c)),
      set_conn_socket = (\<lambda>c i. upd_conn c (\<lambda>k. k\<lparr>nc_socket := i\<rparr>)),
      netconn_is_nonblocking = conn_is_nonblocking,
      netconn_set_nonblocking = conn_set_nonblocking,
      pcb_rx_open = (\<lambda>c w. \<not> pcb_rxclosed (tcp ops) c (core w)),
      pcb_tx_open = (\<lambda>c w. \<not> pcb_fin (tcp ops) c (core w)),
      has_pcb = (\<lambda>c w. nc_pcb (conns w c)),
      ip_set_broadcast = (\<lambda>c on. in_core (set_sof_broadcast (dgram ops) c on)),
      netconn_new = netconn_new_with_proto_and_callback ops,
      netconn_delete = (\<lambda>c w. snd (conn_delete ops c w)),
      netconn_prepare_delete = conn_prepare_delete ops,
      netconn_bind = lwip_netconn_do_bind ops,
      netconn_connect = lwip_netconn_do_connect ops,
      netconn_disconnect = lwip_netconn_do_disconnect ops,
      netconn_listen_with_backlog = lwip_netconn_do_listen ops,
      netconn_accept = conn_accept ops,
      netconn_peer = (\<lambda>c. netconn_getaddr ops c False),
      netconn_recv_tcp_pbuf_flags = conn_recv_tcp_pbuf_flags ops,
      netconn_tcp_recvd = (\<lambda>c len w. snd (conn_tcp_recvd ops c len w)),
      netconn_recv_udp_raw_netbuf_flags = conn_recv_udp_raw_netbuf_flags ops,
      netconn_write_partly = conn_write_partly ops,
      netbuf_ref = (\<lambda>data len. call_core (pbuf_ref_alloc (sys ops) data len)),
      netconn_send = lwip_netconn_do_send ops,
      netbuf_free = in_core (netbuf_delete (sys ops))\<rparr>"

section \<open>The receive side as a byte stream\<close>

lemma conns_upd_conn [simp]: "conns (upd_conn c f w) d = (if d = c then f (conns w c) else conns w d)"
  by (simp add: upd_conn_def)

lemma in_core_frame [simp]: "conns (in_core f w) = conns w" "callbacks (in_core f w) = callbacks w"
  by (simp_all add: in_core_def)

lemma upd_conn_frame [simp]: "callbacks (upd_conn c f w) = callbacks w" "core (upd_conn c f w) = core w"
  by (simp_all add: upd_conn_def)

lemma tcp_recvd_frame [simp]:
  "conns (snd (netconn_tcp_recvd_msg ops c len w)) = conns w"
  "conns (snd (conn_tcp_recvd ops c len w)) = conns w"
  by (simp_all add: conn_tcp_recvd_def netconn_tcp_recvd_msg_def lwip_netconn_do_recv_def)

text \<open>A TCP netconn in non-blocking mode whose mailbox holds packet buffers that are not empty, and
  errors; and one whose connection is up: its mailbox exists, no error and no end of the stream
  has been reported to it.\<close>

definition good_msg :: "recv_msg \<Rightarrow> bool" where
  "good_msg msg = (case msg of Recv_err _ \<Rightarrow> True | Recv_pbuf b \<Rightarrow> good_pbuf b | _ \<Rightarrow> False)"

definition tcp_ready :: "nat \<Rightarrow> 'k netconn_world \<Rightarrow> bool" where
  "tcp_ready c w \<longleftrightarrow> NETCONNTYPE_GROUP (nc_type (conns w c)) = NETCONN_TCP \<and> conn_is_nonblocking c w
     \<and> pred_option (\<lambda>m. list_all good_msg (mb_msgs m)) (recvmbox (conns w c))"

definition msg_bytes :: "recv_msg \<Rightarrow> bytes" where
  "msg_bytes msg = (case msg of Recv_pbuf b \<Rightarrow> b | _ \<Rightarrow> [])"

definition is_data :: "recv_msg \<Rightarrow> bool" where
  "is_data msg = (case msg of Recv_pbuf b \<Rightarrow> good_pbuf b | _ \<Rightarrow> False)"

definition tcp_alive :: "nat \<Rightarrow> 'k netconn_world \<Rightarrow> bool" where
  "tcp_alive c w \<longleftrightarrow> NETCONNTYPE_GROUP (nc_type (conns w c)) = NETCONN_TCP \<and> conn_is_nonblocking c w
     \<and> \<not> netconn_is_flag_set NETCONN_FIN_RX_PENDING (conns w c) \<and> pending_err (conns w c) = ERR_OK
     \<and> (\<exists>m. recvmbox (conns w c) = Some m \<and> list_all is_data (mb_msgs m))"

definition tcp_queued :: "nat \<Rightarrow> 'k netconn_world \<Rightarrow> bytes" where
  "tcp_queued c w = (case recvmbox (conns w c) of None \<Rightarrow> [] | Some m \<Rightarrow> concat (map msg_bytes (mb_msgs m)))"

lemma tcp_state_cong:
  "conns w' c = conns w c \<Longrightarrow> tcp_ready c w' = tcp_ready c w \<and> tcp_alive c w' = tcp_alive c w \<and> tcp_queued c w' = tcp_queued c w"
  by (simp add: tcp_ready_def tcp_alive_def tcp_queued_def conn_is_nonblocking_def)

lemma list_all_is_data: "list_all is_data xs \<Longrightarrow> list_all good_msg xs"
  by (induction xs) (auto simp: is_data_def good_msg_def split: recv_msg.splits)

lemma tcp_alive_ready: "tcp_alive c w \<Longrightarrow> tcp_ready c w"
  by (auto simp: tcp_alive_def tcp_ready_def list_all_is_data)

text \<open>What a receive call on a non-blocking netconn does: nothing is taken when the mailbox is empty, and
  the first message otherwise.\<close>

lemma recv_data_empty:
  assumes "recvmbox (conns w c) = Some m" and "mb_msgs m = []" and "conn_is_nonblocking c w"
  shows "netconn_recv_data ops c f w =
     ((if pending_err (conns w c) \<noteq> ERR_OK then pending_err (conns w c)
       else if netconn_is_flag_set NETCONN_FLAG_MBOXCLOSED (conns w c) then ERR_CONN else ERR_WOULDBLOCK, NULL),
      upd_conn c (\<lambda>k. k\<lparr>recvmbox := Some m, pending_err := ERR_OK\<rparr>) w)"
proof -
  have "upd_conn c (\<lambda>k. k\<lparr>pending_err := ERR_OK\<rparr>) (upd_conn c (\<lambda>k. k\<lparr>recvmbox := Some m\<rparr>) w)
      = upd_conn c (\<lambda>k. k\<lparr>recvmbox := Some m, pending_err := ERR_OK\<rparr>) w"
    by (simp add: upd_conn_def)
  then show ?thesis
    using assms by (simp add: netconn_recv_data_def netconn_err_def sys_arch_mbox_tryfetch_def netconn_is_flag_set_def)
qed

lemma recv_data_message:
  assumes "recvmbox (conns w c) = Some m" and "mb_msgs m = x # xs" and "conn_is_nonblocking c w"
    and "NETCONNTYPE_GROUP (nc_type (conns w c)) = NETCONN_TCP"
  shows "netconn_recv_data ops c f w =
     (case x of Recv_err err \<Rightarrow> (if err = ERR_CLSD then ERR_OK else err, NULL) | _ \<Rightarrow> (ERR_OK, Some x),
      upd_conn c (\<lambda>k. k\<lparr>recvmbox := Some (m\<lparr>mb_msgs := xs\<rparr>)\<rparr>) w)"
  using assms by (auto simp: netconn_recv_data_def sys_arch_mbox_tryfetch_def split: recv_msg.splits)

lemma handle_fin_not_ok: "fst (fst (handle_fin ops c w)) \<noteq> ERR_OK"
  by (auto simp: handle_fin_def netconn_err_def Let_def split: prod.splits)

text \<open>A successful receive on a ready netconn took a packet buffer from the head of the mailbox.\<close>

lemma recv_pbuf_ok:
  assumes "conn_recv_tcp_pbuf_flags ops c f w = ((ERR_OK, p), w')" and "tcp_ready c w"
  obtains m b xs where "recvmbox (conns w c) = Some m" "mb_msgs m = Recv_pbuf b # xs" "p = Some b"
    "conns w' c = (conns w c)\<lparr>recvmbox := Some (m\<lparr>mb_msgs := xs\<rparr>)\<rparr>"
proof -
  have tcp: "NETCONNTYPE_GROUP (nc_type (conns w c)) = NETCONN_TCP" and nb: "conn_is_nonblocking c w"
    using assms(2) by (simp_all add: tcp_ready_def)
  obtain m where m: "recvmbox (conns w c) = Some m"
    using assms(1) tcp
    by (cases "recvmbox (conns w c)") (auto simp: conn_recv_tcp_pbuf_flags_def netconn_recv_data_tcp_def)
  have fin: "\<not> netconn_is_flag_set NETCONN_FIN_RX_PENDING (conns w c)"
    using assms(1) tcp m handle_fin_not_ok [of ops c "upd_conn c (netconn_clear_flags NETCONN_FIN_RX_PENDING) w"]
    by (auto simp: conn_recv_tcp_pbuf_flags_def netconn_recv_data_tcp_def split: prod.splits)
  obtain x xs where x: "mb_msgs m = x # xs"
    using assms(1) tcp m fin recv_data_empty [OF m _ nb, of ops f]
    by (cases "mb_msgs m") (auto simp: conn_recv_tcp_pbuf_flags_def netconn_recv_data_tcp_def split: if_splits)
  note rd = recv_data_message [OF m x nb tcp, of ops f]
  have good: "good_msg x"
    using assms(2) m x by (simp add: tcp_ready_def)
  show thesis
  proof (cases x)
    case (Recv_pbuf b)
    then have "p = Some b" "conns w' c = (conns w c)\<lparr>recvmbox := Some (m\<lparr>mb_msgs := xs\<rparr>)\<rparr>"
      using assms(1) tcp m fin rd
      by (auto simp: conn_recv_tcp_pbuf_flags_def netconn_recv_data_tcp_def as_pbuf_def split: if_splits)
    with m x Recv_pbuf that show thesis by blast
  next
    case (Recv_err e)
    have "fst (fst (conn_recv_tcp_pbuf_flags ops c f w)) \<noteq> ERR_OK"
      using tcp m fin rd Recv_err handle_fin_not_ok
      by (auto simp: conn_recv_tcp_pbuf_flags_def netconn_recv_data_tcp_def Let_def case_prod_beta)
    with assms(1) show thesis by simp
  qed (use good in \<open>simp_all add: good_msg_def\<close>)
qed

interpretation netconn_source: pbuf_source "netconn_layer ops" c "tcp_ready c"
proof (unfold_locales, goal_cases)
  case (1 n f p n')
  then have "conn_recv_tcp_pbuf_flags ops c f n = ((ERR_OK, p), n')"
    by (simp add: netconn_layer_def)
  from recv_pbuf_ok [OF this 1(1)] 1(1) show ?case
    by (fastforce simp: tcp_ready_def conn_is_nonblocking_def netconn_is_flag_set_def good_msg_def)
next
  case (2 n)
  then show ?case
    by (simp add: netconn_layer_def tcp_ready_def)
qed

lemma recv_alive:
  assumes "tcp_alive c w" and "recvmbox (conns w c) = Some m" and "mb_msgs m = []"
  obtains err w' where "conn_recv_tcp_pbuf_flags ops c f w = ((err, NULL), w')" "err \<in> {ERR_CONN, ERR_WOULDBLOCK}"
    "conns w' c = conns w c"
proof -
  have eq: "conn_recv_tcp_pbuf_flags ops c f w =
      ((if netconn_is_flag_set NETCONN_FLAG_MBOXCLOSED (conns w c) then ERR_CONN else ERR_WOULDBLOCK, NULL),
       upd_conn c (\<lambda>k. k\<lparr>recvmbox := Some m, pending_err := ERR_OK\<rparr>) w)"
    using assms recv_data_empty [OF assms(2,3), of ops f]
    by (auto simp: tcp_alive_def conn_recv_tcp_pbuf_flags_def netconn_recv_data_tcp_def as_pbuf_def)
  have same: "conns (upd_conn c (\<lambda>k. k\<lparr>recvmbox := Some m, pending_err := ERR_OK\<rparr>) w) c = conns w c"
    using assms by (simp add: tcp_alive_def)
  show thesis
    by (rule that [OF eq _ same]) simp
qed

lemma recv_alive_data:
  assumes "tcp_alive c w" and "recvmbox (conns w c) = Some m" and "mb_msgs m = x # xs"
  shows "fst (fst (conn_recv_tcp_pbuf_flags ops c f w)) = ERR_OK"
proof -
  obtain b where "x = Recv_pbuf b"
    using assms by (auto simp: tcp_alive_def is_data_def split: recv_msg.splits)
  with assms recv_data_message [OF assms(2,3), of ops f] show ?thesis
    by (simp add: tcp_alive_def conn_recv_tcp_pbuf_flags_def netconn_recv_data_tcp_def Let_def case_prod_beta)
qed

interpretation netconn_stream: pbuf_stream "netconn_layer ops" c "tcp_alive c" "tcp_queued c"
proof (unfold_locales, goal_cases)
  case (1 n f p n')
  then have "conn_recv_tcp_pbuf_flags ops c f n = ((ERR_OK, p), n')"
    by (simp add: netconn_layer_def)
  from recv_pbuf_ok [OF this tcp_alive_ready [OF 1(1)]] 1(1) show ?case
    by (fastforce simp: tcp_alive_def conn_is_nonblocking_def netconn_is_flag_set_def is_data_def)
next
  case (2 n)
  then show ?case
    by (simp add: netconn_layer_def tcp_alive_def)
next
  case (3 n f err p n')
  then have r: "conn_recv_tcp_pbuf_flags ops c f n = ((err, p), n')"
    by (simp add: netconn_layer_def)
  obtain m where m: "recvmbox (conns n c) = Some m"
    using 3(1) by (auto simp: tcp_alive_def)
  show ?case
  proof (cases "mb_msgs m")
    case Nil
    obtain e w' where "conn_recv_tcp_pbuf_flags ops c f n = ((e, NULL), w')" "e \<in> {ERR_CONN, ERR_WOULDBLOCK}"
        "conns w' c = conns n c"
      using recv_alive [OF 3(1) m Nil] by metis
    with r 3(1) m Nil tcp_state_cong [of n' c n] show ?thesis
      by (auto simp: tcp_queued_def)
  next
    case (Cons x xs)
    with recv_alive_data [OF 3(1) m, of x xs ops f] r have "err = ERR_OK"
      by simp
    with r recv_pbuf_ok [OF _ tcp_alive_ready [OF 3(1)], of ops f p n'] m show ?thesis
      by (fastforce simp: tcp_queued_def msg_bytes_def)
  qed
next
  case (4 n k)
  then show ?case
    using tcp_state_cong [of "snd (conn_tcp_recvd ops c k n)" c n] by (simp add: netconn_layer_def)
qed

text \<open>A segment that TCP delivers is added to the end of the stream, or refused when the mailbox is
  full, in which case TCP offers it again.\<close>

lemma recv_tcp_appends:
  assumes "tcp_alive c w" and "good_pbuf b" and "recv_tcp ops c (Some b) w = (err, w')"
  shows "tcp_alive c w' \<and> (err = ERR_OK \<and> tcp_queued c w' = tcp_queued c w @ b \<or> err = ERR_MEM \<and> w' = w)"
  using assms
  by (auto simp: tcp_alive_def recv_tcp_def sys_mbox_trypost_def tcp_queued_def msg_bytes_def is_data_def
      conn_is_nonblocking_def netconn_is_flag_set_def split: if_splits)

end
