(* ===== verification/Lwip_Adapter.thy ===== *)
theory Lwip_Adapter
  imports DoIP_Interface Lwip_Netconn
begin

text \<open>
  The adapter of the DoIP interface to lwIP, \<^verbatim>\<open>doip_lwip_adapter.c\<close>: the table of network operations that
  the interface calls, on the sockets of lwIP. Its network is the state of the socket layer, over any
  netconn layer; with the netconn layer of lwIP itself the stream of a connection reaches the
  interface complete and in order.
\<close>

section \<open>The operations\<close>

definition set_nonblocking :: "'n netconn_api \<Rightarrow> int \<Rightarrow> 'n socket_state \<Rightarrow> 'n socket_state" where
  "set_nonblocking api sock s =
     (let (flags, s) = lwip_fcntl api sock F_GETFL 0 s in snd (lwip_fcntl api sock F_SETFL (flags OR O_NONBLOCK) s))"

definition any_address :: "u16 \<Rightarrow> sockaddr_in" where
  "any_address port = \<lparr>sin_family = AF_INET, sin_port = lwip_htons port, sin_addr = 0\<rparr>"

text \<open>The address an IP text and a port stand for; it is null when the text is none.\<close>

definition text_address :: "string \<Rightarrow> u16 \<Rightarrow> 'n socket_state \<Rightarrow> sockaddr_in \<times> 'n socket_state" where
  "text_address ip port s =
     (let ((_, a), s) = lwip_inet_pton AF_INET ip s
      in (\<lparr>sin_family = AF_INET, sin_port = lwip_htons port, sin_addr = (case a of None \<Rightarrow> 0 | Some v \<Rightarrow> v)\<rparr>, s))"

definition lwip_udp_bind :: "'n netconn_api \<Rightarrow> u16 \<Rightarrow> 'n socket_state \<Rightarrow> int \<times> 'n socket_state" where
  "lwip_udp_bind api port s =
     (let (sock, s) = lwip_socket api SOCK_DGRAM 0 s in
      if sock < 0 then (-1, s)
      else
        let (_, s) = lwip_setsockopt api sock (Some 1) s;
            s = set_nonblocking api sock s;
            (r, s) = lwip_bind api sock (any_address port) sizeof_sockaddr_in s
        in if r < 0 then (-1, snd (lwip_close api sock s)) else (sock, s))"

definition lwip_udp_sendto ::
    "'n netconn_api \<Rightarrow> int \<Rightarrow> bytes \<Rightarrow> u32 \<Rightarrow> string \<Rightarrow> u16 \<Rightarrow> 'n socket_state \<Rightarrow> int \<times> 'n socket_state" where
  "lwip_udp_sendto api sock data len ip port s =
     (let (dest_addr, s) = text_address ip port s
      in lwip_sendto api sock data len 0 (Some dest_addr) sizeof_sockaddr_in s)"

text \<open>The text of the source address and its port are written when data has been received; otherwise the
  caller's variables keep what they had, and here the empty text and 0 stand for it.\<close>

definition lwip_udp_recvfrom ::
    "'n netconn_api \<Rightarrow> int \<Rightarrow> u32 \<Rightarrow> 'n socket_state \<Rightarrow> ((int \<times> bytes \<times> string \<times> u16) \<times> 'n socket_state) run" where
  "lwip_udp_recvfrom api sock len s =
     then_run (lwip_recvfrom api sock len 0 True s) (\<lambda>((ret, bs, src_addr), s).
       if ret > 0 then
         let (text, s) = lwip_inet_ntop AF_INET (sin_addr src_addr) 16 s
         in returns ((ret, bs, case text of None \<Rightarrow> '''' | Some t \<Rightarrow> t, lwip_htons (sin_port src_addr)), s)
       else returns ((ret, bs, '''', 0), s))"

definition lwip_tcp_listen :: "'n netconn_api \<Rightarrow> u16 \<Rightarrow> 'n socket_state \<Rightarrow> int \<times> 'n socket_state" where
  "lwip_tcp_listen api port s =
     (let (sock, s) = lwip_socket api SOCK_STREAM 0 s in
      if sock < 0 then (-1, s)
      else
        let s = set_nonblocking api sock s;
            (r, s) = lwip_bind api sock (any_address port) sizeof_sockaddr_in s
        in if r < 0 then (-1, snd (lwip_close api sock s))
           else
             let (r, s) = lwip_listen api sock 5 s
             in if r < 0 then (-1, snd (lwip_close api sock s)) else (sock, s))"

definition lwip_tcp_accept :: "'n netconn_api \<Rightarrow> int \<Rightarrow> 'n socket_state \<Rightarrow> int \<times> 'n socket_state" where
  "lwip_tcp_accept api listen_sock s =
     (let ((client_sock, _), s) = lwip_accept api listen_sock s
      in (client_sock, if client_sock \<ge> 0 then set_nonblocking api client_sock s else s))"

definition lwip_tcp_connect :: "'n netconn_api \<Rightarrow> string \<Rightarrow> u16 \<Rightarrow> 'n socket_state \<Rightarrow> int \<times> 'n socket_state" where
  "lwip_tcp_connect api ip port s =
     (let (sock, s) = lwip_socket api SOCK_STREAM 0 s in
      if sock < 0 then (-1, s)
      else
        let (addr, s) = text_address ip port s;
            (r, s) = lwip_connect api sock addr sizeof_sockaddr_in s
        in if r < 0 then (-1, snd (lwip_close api sock s)) else (sock, s))"

definition lwip_tcp_send :: "'n netconn_api \<Rightarrow> int \<Rightarrow> bytes \<Rightarrow> u32 \<Rightarrow> 'n socket_state \<Rightarrow> int \<times> 'n socket_state" where
  "lwip_tcp_send api sock data len s = lwip_send api sock data len 0 s"

definition lwip_tcp_recv ::
    "'n netconn_api \<Rightarrow> int \<Rightarrow> u32 \<Rightarrow> 'n socket_state \<Rightarrow> ((int \<times> bytes) \<times> 'n socket_state) run" where
  "lwip_tcp_recv api sock len s = lwip_recv api sock len 0 s"

definition lwip_close_socket :: "'n netconn_api \<Rightarrow> int \<Rightarrow> 'n socket_state \<Rightarrow> 'n socket_state" where
  "lwip_close_socket api sock s = snd (lwip_close api sock s)"

definition doip_lwip_adapter_init :: doip_result_t where
  "doip_lwip_adapter_init = DOIP_RESULT_OK"

text \<open>The table itself. Its receive operations are functions that return; the value for a call that does
  not is an error. Below it is shown that the calls on the adapter's own sockets do return.\<close>

definition or_error :: "'a \<Rightarrow> ('a \<times> 's) run \<Rightarrow> 's \<Rightarrow> 'a \<times> 's" where
  "or_error e r s = (case r of Some (Some v) \<Rightarrow> v | _ \<Rightarrow> (e, s))"

definition g_lwip_net_ops :: "'n netconn_api \<Rightarrow> 'n socket_state doip_network_ops_t" where
  "g_lwip_net_ops api =
     \<lparr>udp_bind = lwip_udp_bind api,
      udp_sendto = lwip_udp_sendto api,
      udp_recvfrom = (\<lambda>sock len s. or_error (-1, [], '''', 0) (lwip_udp_recvfrom api sock len s) s),
      tcp_listen = lwip_tcp_listen api,
      tcp_accept = lwip_tcp_accept api,
      tcp_connect = lwip_tcp_connect api,
      tcp_send = lwip_tcp_send api,
      tcp_recv = (\<lambda>sock len s. or_error (-1, []) (lwip_tcp_recv api sock len s) s),
      close_socket = lwip_close_socket api,
      socket_select = NULL\<rparr>"

section \<open>The laws of the interface\<close>

text \<open>The laws that the interface, and through it the entity and the tester, rely on hold for the adapter,
  whatever the netconn layer below does.\<close>

lemma udp_recvfrom_bounds:
  assumes "lwip_udp_recvfrom api sock len s = returns ((r, bs, ip, port), s')"
  shows "r = int (length bs) \<and> length bs \<le> unat len \<or> r < 0 \<and> bs = []"
proof -
  obtain r' bs' a t where r: "lwip_recvfrom api sock len 0 True s = returns ((r', bs', a), t)"
    using assms by (auto simp: lwip_udp_recvfrom_def then_run_eq_returns_iff)
  with assms have "r = r'" "bs = bs'"
    by (auto simp: lwip_udp_recvfrom_def split: if_splits prod.splits)
  then show ?thesis
    using recvfrom_bounds [OF r] by simp
qed

interpretation adapter: network "g_lwip_net_ops api"
proof (unfold_locales, goal_cases)
  case (1 fd n w r ys w')
  then show ?case
    using recv_bounds [of api fd n 0 w r ys]
    by (auto simp: g_lwip_net_ops_def or_error_def lwip_tcp_recv_def split: option.splits)
next
  case (2 fd m v q zs ip port v')
  then show ?case
    using udp_recvfrom_bounds [of api fd m v q zs ip port]
    by (auto simp: g_lwip_net_ops_def or_error_def split: option.splits)
qed

section \<open>The stream of a connection\<close>

text \<open>The netconn \<open>c\<close> is connected through the socket \<open>i\<close>: the socket is in use, and the connection is up.\<close>

definition connected_socket :: "nat \<Rightarrow> nat \<Rightarrow> 'k netconn_world socket_state \<Rightarrow> bool" where
  "connected_socket c i s \<longleftrightarrow> socket_of c i s \<and> tcp_alive c (stack s)"

abbreviation incoming_bytes :: "nat \<Rightarrow> nat \<Rightarrow> 'k netconn_world socket_state \<Rightarrow> bytes" where
  "incoming_bytes c i \<equiv> avail (tcp_queued c) i"

lemma tcp_recv_takes:
  assumes "connected_socket c i w" and "0 < n"
    and "tcp_recv (g_lwip_net_ops (netconn_layer kops)) (int i) n w = ((r, ys), w')"
  shows "connected_socket c i w' \<and> incoming_bytes c i w = ys @ incoming_bytes c i w'
    \<and> (if incoming_bytes c i w = [] then r = -1 \<and> ys = []
       else r = int (length ys) \<and> length ys \<le> unat n \<and> ys \<noteq> [])"
proof -
  define room where "room = unat (min n SSIZE_MAX)"
  have "0 < min n SSIZE_MAX"
    using assms(2) by (simp add: min_def)
  then have pos: "0 < room"
    by (simp only: room_def word_less_nat_alt unat_0)
  have le: "room \<le> unat n"
    by (simp only: room_def word_le_nat_alt [symmetric] min.cobounded1)
  obtain t where t: "lwip_recv (netconn_layer kops) (int i) n 0 w =
      returns ((if incoming_bytes c i w = [] then (-1, [])
                else (int (min room (length (incoming_bytes c i w))), take room (incoming_bytes c i w))), t)"
      "socket_of c i t" "tcp_alive c (stack t)" "incoming_bytes c i t = drop room (incoming_bytes c i w)"
    using netconn_stream.recv_takes [OF _ _ assms(2)] assms(1) unfolding connected_socket_def room_def by blast
  then have eqs: "w' = t" "(r, ys) = (if incoming_bytes c i w = [] then (-1, [])
      else (int (min room (length (incoming_bytes c i w))), take room (incoming_bytes c i w)))"
    using assms(3) by (simp_all add: g_lwip_net_ops_def or_error_def lwip_tcp_recv_def)
  show ?thesis
  proof (cases "incoming_bytes c i w = []")
    case True
    with eqs t show ?thesis by (simp add: connected_socket_def)
  next
    case False
    then have "ys = take room (incoming_bytes c i w)" "r = int (length ys)" "ys \<noteq> []" "length ys \<le> unat n"
      using eqs(2) pos le by (simp_all add: min.commute)
    with eqs(1) t False show ?thesis by (simp add: connected_socket_def)
  qed
qed

interpretation connection_stream:
  tcp_stream "g_lwip_net_ops (netconn_layer kops)" "int i" "incoming_bytes c i" "connected_socket c i"
proof (unfold_locales, goal_cases)
  case (1 w n r ys w')
  note takes = tcp_recv_takes [OF 1]
  show ?case
  proof (cases "incoming_bytes c i w = []")
    case True
    with takes have "connected_socket c i w'" "r < 0" "ys = []" "incoming_bytes c i w' = []"
      by (simp_all only: if_True append_Nil) simp_all
    with True show ?thesis by (simp only: simp_thms)
  next
    case False
    with takes show ?thesis by (simp only: if_False) blast
  qed
qed

text \<open>The connection as a state machine. Segments arrive from TCP and are appended to the mailbox of the
  netconn, and the DoIP task polls the connection, in any order.\<close>

inductive rx_steps ::
    "'k core_ops \<Rightarrow> nat \<Rightarrow> nat \<Rightarrow> 'k netconn_world socket_state recording
      \<Rightarrow> bytes \<Rightarrow> 'k netconn_world socket_state recording \<Rightarrow> bool"
  for kops c j s where
  start: "rx_steps kops c j s [] s"
| segment: "rx_steps kops c j s sent t \<Longrightarrow> good_pbuf b \<Longrightarrow> recv_tcp kops c (Some b) (stack (net t)) = (ERR_OK, n) \<Longrightarrow>
    rx_steps kops c j s (sent @ b) (t\<lparr>net := (net t)\<lparr>stack := n\<rparr>\<rparr>)"
| poll: "rx_steps kops c j s sent t \<Longrightarrow> process_connection (Some record_message) NULL j t = returns u \<Longrightarrow>
    rx_steps kops c j s sent u"

text \<open>The invariant of its reachable states: what was sent is what was delivered, followed by what waits in
  the buffer of the interface, in the socket and in the mailbox, and the messages delivered are the
  first messages of the stream.\<close>

definition rx_inv :: "'k core_ops \<Rightarrow> nat \<Rightarrow> nat \<Rightarrow> nat \<Rightarrow> bytes \<Rightarrow> 'k netconn_world socket_state recording \<Rightarrow> bool" where
  "rx_inv kops c i j sent s \<longleftrightarrow>
     (\<exists>k. conn s j = Some k \<and> wf_conn k \<and> socket_fd k = int i
        \<and> net_ops (iface s) = Some (g_lwip_net_ops (netconn_layer kops)) \<and> connected_socket c i (net s)
        \<and> fst (split_frames (pending k)) = []
        \<and> split_frames sent = (delivered s @ fst (split_frames (pending k @ incoming_bytes c i (net s))),
                               snd (split_frames (pending k @ incoming_bytes c i (net s)))))"

lemma rx_inv_segment:
  assumes "rx_inv kops c i j sent s" and "good_pbuf b" and "recv_tcp kops c (Some b) (stack (net s)) = (ERR_OK, n)"
  shows "rx_inv kops c i j (sent @ b) (s\<lparr>net := (net s)\<lparr>stack := n\<rparr>\<rparr>)"
proof -
  obtain k where k: "conn s j = Some k" "wf_conn k" "socket_fd k = int i"
      "net_ops (iface s) = Some (g_lwip_net_ops (netconn_layer kops))" "connected_socket c i (net s)"
      "fst (split_frames (pending k)) = []"
      "split_frames sent = (delivered s @ fst (split_frames (pending k @ incoming_bytes c i (net s))),
                            snd (split_frames (pending k @ incoming_bytes c i (net s))))"
    using assms(1) by (auto simp: rx_inv_def)
  have "tcp_alive c n" "tcp_queued c n = tcp_queued c (stack (net s)) @ b"
    using recv_tcp_appends [OF _ assms(2,3)] k(5) by (simp_all add: connected_socket_def)
  then have "connected_socket c i ((net s)\<lparr>stack := n\<rparr>)"
      "incoming_bytes c i ((net s)\<lparr>stack := n\<rparr>) = incoming_bytes c i (net s) @ b"
    using k(5) by (simp_all add: connected_socket_def avail_def)
  moreover have "split_frames (sent @ b) =
      (delivered s @ fst (split_frames ((pending k @ incoming_bytes c i (net s)) @ b)),
       snd (split_frames ((pending k @ incoming_bytes c i (net s)) @ b)))"
    using split_frames_append [of sent b] split_frames_append [of "pending k @ incoming_bytes c i (net s)" b] k(7)
    by simp
  ultimately show ?thesis
    using k by (auto simp: rx_inv_def conn_def)
qed

lemma rx_inv_stalls:
  assumes "rx_inv kops c i j sent s" and "\<not> stalls sent" and "conn s j = Some k"
  shows "\<not> stalls (pending k @ incoming_bytes c i (net s))"
  using assms by (auto simp: rx_inv_def stalls_def)

lemma rx_inv_poll:
  assumes "rx_inv kops c i j sent s" and "\<not> stalls sent" and "conn s j = Some k" and "length (pending k) < 4096"
  shows "\<exists>s'. process_connection (Some record_message) NULL j s = returns s' \<and> rx_inv kops c i j sent s'
    \<and> (incoming_bytes c i (net s') = [] \<or> length (incoming_bytes c i (net s')) < length (incoming_bytes c i (net s)))"
proof -
  have k: "wf_conn k" "socket_fd k = int i"
      "net_ops (iface s) = Some (g_lwip_net_ops (netconn_layer kops))" "connected_socket c i (net s)"
      "fst (split_frames (pending k)) = []"
      "split_frames sent = (delivered s @ fst (split_frames (pending k @ incoming_bytes c i (net s))),
                            snd (split_frames (pending k @ incoming_bytes c i (net s))))"
    using assms(1,3) by (auto simp: rx_inv_def)
  from connection_stream.poll_keeps_stream [OF assms(3) k(1,2) _ k(3) assms(4) rx_inv_stalls [OF assms(1-3)] k(4,5), of NULL]
  show ?thesis
    using k(6) by (fastforce simp: rx_inv_def)
qed

text \<open>The buffer of the interface never fills up when every message fits into it.\<close>

lemma partial_message_fits:
  assumes "list_all wf_msg ms" and "\<forall>m \<in> set ms. length (frame m) \<le> 4096"
    and "p @ q = concat (map frame ms)" and "fst (split_frames p) = []"
  shows "length p < 4096"
proof (rule ccontr)
  assume long: "\<not> length p < 4096"
  then obtain m ms' where ms: "ms = m # ms'"
    using assms(3) by (cases ms) auto
  have "take (length (frame m)) (p @ q) = frame m"
    using assms(3) ms by simp
  moreover have "length (frame m) \<le> length p"
    using assms(2) ms long by auto
  ultimately have "p = frame m @ drop (length (frame m)) p"
    by (metis append_take_drop_id diff_is_0_eq' take_0 take_append append_Nil2)
  then show False
    using assms(1,4) ms split_frames_frame [of m "drop (length (frame m)) p"] by auto
qed

lemma rx_inv_messages:
  assumes "rx_inv kops c i j sent s" and "conn s j = Some k"
    and "list_all wf_msg ms" and "sent @ q = concat (map frame ms)"
  obtains ms1 ms2 where "ms = ms1 @ ms2" "delivered s = map frame ms1"
    "pending k @ incoming_bytes c i (net s) @ q = concat (map frame ms2)"
proof -
  let ?rest = "pending k @ incoming_bytes c i (net s)"
  have sp: "split_frames sent = (delivered s @ fst (split_frames ?rest), snd (split_frames ?rest))"
    using assms(1,2) by (auto simp: rx_inv_def)
  have sent: "sent = concat (delivered s) @ ?rest"
    using concat_split_frames [of sent] concat_split_frames [of ?rest] sp by simp
  have "split_frames [] = ([], [])"
    by (rule split_frames_done) simp
  then have "map frame ms = fst (split_frames (sent @ q))"
    using split_frames_messages [OF assms(3), of "[]"] assms(4) by simp
  also have "\<dots> = delivered s @ fst (split_frames ?rest) @ fst (split_frames (snd (split_frames sent) @ q))"
    using split_frames_append [of sent q] sp by simp
  finally obtain ms1 ms2 where ms: "ms = ms1 @ ms2" "map frame ms1 = delivered s"
    by (auto simp: map_eq_append_conv)
  have "pending k @ incoming_bytes c i (net s) @ q = concat (map frame ms2)"
    using assms(4) sent ms by simp
  with ms that show thesis by metis
qed

lemma rx_inv_room:
  assumes "rx_inv kops c i j sent s" and "conn s j = Some k" and "list_all wf_msg ms"
    and "\<forall>m \<in> set ms. length (frame m) \<le> 4096" and "sent @ q = concat (map frame ms)"
  shows "length (pending k) < 4096"
proof -
  obtain ms1 ms2 where "ms = ms1 @ ms2" "pending k @ incoming_bytes c i (net s) @ q = concat (map frame ms2)"
    using rx_inv_messages [OF assms(1,2,3,5)] by metis
  then show ?thesis
    using partial_message_fits [of ms2 "pending k" "incoming_bytes c i (net s) @ q"] assms by (auto simp: rx_inv_def)
qed

text \<open>Every reachable state satisfies the invariant, and from every such state polling goes on until
  nothing is left to take.\<close>

lemma rx_steps_inv:
  assumes "rx_steps kops c j s sent t" and "rx_inv kops c i j [] s" and "list_all wf_msg ms"
    and "\<forall>m \<in> set ms. length (frame m) \<le> 4096" and "sent @ q = concat (map frame ms)"
  shows "rx_inv kops c i j sent t"
  using assms(1,2,5)
proof (induction arbitrary: q rule: rx_steps.induct)
  case (segment sent t b n)
  then show ?case
    using rx_inv_segment [of kops c i j sent t b n] by simp
next
  case (poll sent t u)
  then have inv: "rx_inv kops c i j sent t"
    by simp
  then obtain k where k: "conn t j = Some k"
    by (auto simp: rx_inv_def)
  have "\<not> stalls sent"
    using well_formed_stream_never_stalls [OF assms(3)] poll.prems(2) by metis
  with rx_inv_poll [OF inv _ k rx_inv_room [OF inv k assms(3,4) poll.prems(2)]] poll.hyps(2) show ?case
    by auto
qed

definition polls :: "nat \<Rightarrow> 'k netconn_world socket_state recording \<Rightarrow> 'k netconn_world socket_state recording \<Rightarrow> bool" where
  "polls j = (\<lambda>s t. process_connection (Some record_message) NULL j s = returns t)\<^sup>*\<^sup>*"

lemma polling_delivers_all:
  assumes "rx_inv kops c i j sent t" and "list_all wf_msg ms"
    and "\<forall>m \<in> set ms. length (frame m) \<le> 4096" and "sent @ q = concat (map frame ms)"
  shows "\<exists>u. polls j t u \<and> delivered u = fst (split_frames sent)"
  using assms(1)
proof (induction "length (incoming_bytes c i (net t))" arbitrary: t rule: less_induct)
  case less
  obtain k where k: "conn t j = Some k"
    using less.prems by (auto simp: rx_inv_def)
  have "\<not> stalls sent"
    using well_formed_stream_never_stalls [OF assms(2)] assms(4) by metis
  then obtain u where u: "process_connection (Some record_message) NULL j t = returns u" "rx_inv kops c i j sent u"
      "incoming_bytes c i (net u) = [] \<or> length (incoming_bytes c i (net u)) < length (incoming_bytes c i (net t))"
    using rx_inv_poll [OF less.prems _ k rx_inv_room [OF less.prems k assms(2,3,4)]] by blast
  have step: "polls j t u"
    using u(1) by (simp add: polls_def r_into_rtranclp)
  from u(3) show ?case
  proof
    assume "incoming_bytes c i (net u) = []"
    then have "delivered u = fst (split_frames sent)"
      using u(2) by (auto simp: rx_inv_def)
    with step show ?case by blast
  next
    assume "length (incoming_bytes c i (net u)) < length (incoming_bytes c i (net t))"
    from less.hyps [OF this u(2)] step show ?case
      by (auto simp: polls_def intro: rtranclp_trans)
  qed
qed

section \<open>Properties\<close>

text \<open>Concrete values for the witnesses: a stack whose protocols accept everything and do nothing, a
  connected netconn, and an interface with one connection on socket 0.\<close>

definition idle_tcp :: "unit tcp_api" where
  "idle_tcp =
     \<lparr>tcp_new = \<lambda>_ k. (True, k), tcp_bind = \<lambda>_ _ _ k. (ERR_OK, k), pcb_tcp_connect = \<lambda>_ _ _ k. (ERR_OK, k),
      tcp_listen_with_backlog = \<lambda>_ _ k. ((True, ERR_OK), k), tcp_backlog_set = \<lambda>_ _ k. k,
      tcp_backlog_accepted = \<lambda>_ k. k, tcp_adopt = \<lambda>_ k. k, pcb_state = \<lambda>_ _. ESTABLISHED,
      pcb_rxclosed = \<lambda>_ _. False, pcb_fin = \<lambda>_ _. False, tcp_recved = \<lambda>_ _ k. k, tcp_sndbuf = \<lambda>_ _. 4,
      tcp_write = \<lambda>_ _ _ _ k. (ERR_OK, k), tcp_output = \<lambda>_ k. (ERR_OK, k), tcp_shutdown = \<lambda>_ _ _ k. (ERR_OK, k),
      tcp_close = \<lambda>_ k. (ERR_OK, k), tcp_abort = \<lambda>_ k. k\<rparr>"

definition idle_dgram :: "unit dgram_api" where
  "idle_dgram =
     \<lparr>udp_new = \<lambda>_ k. (True, k), pcb_udp_bind = \<lambda>_ _ _ k. (ERR_OK, k), udp_connect = \<lambda>_ _ _ k. (ERR_OK, k),
      udp_disconnect = \<lambda>_ k. k, udp_connected = \<lambda>_ _. False, udp_send = \<lambda>_ _ k. (ERR_OK, k),
      pcb_udp_sendto = \<lambda>_ _ _ _ k. (ERR_OK, k), udp_remove = \<lambda>_ k. k, raw_new = \<lambda>_ _ k. (True, k),
      raw_bind = \<lambda>_ _ k. (ERR_OK, k), raw_connect = \<lambda>_ _ k. (ERR_OK, k), raw_send = \<lambda>_ _ k. (ERR_OK, k),
      raw_sendto = \<lambda>_ _ _ k. (ERR_OK, k), raw_remove = \<lambda>_ k. k, pcb_ip = \<lambda>_ _ _. 0, pcb_port = \<lambda>_ _ _. 0,
      set_sof_broadcast = \<lambda>_ _ k. k\<rparr>"

definition idle_sys :: "unit sys_api" where
  "idle_sys =
     \<lparr>memp_malloc_netconn = \<lambda>k. (Some 0, k), memp_free_netconn = \<lambda>_ k. k, memp_malloc_netbuf = \<lambda>k. (True, k),
      netbuf_delete = \<lambda>k. k, mbox_create = \<lambda>_ k. (True, k), mbox_release = \<lambda>k. k, sem_create = \<lambda>k. (True, k),
      sem_release = \<lambda>k. k, recvmbox_size = \<lambda>_. 6, acceptmbox_size = 6, pbuf_ref_alloc = \<lambda>_ _ k. (ERR_OK, k),
      wait_recvmbox = \<lambda>_ w. (Recv_err ERR_CLSD, w), wait_acceptmbox = \<lambda>_ w. (Accept_null, w),
      wait_connected = \<lambda>_ w. (ERR_OK, w), wait_written = \<lambda>_ w. ((ERR_OK, 0), w), wait_closed = \<lambda>_ w. (ERR_OK, w)\<rparr>"

definition idle_core :: "unit core_ops" where
  "idle_core = \<lparr>tcp = idle_tcp, dgram = idle_dgram, sys = idle_sys\<rparr>"

definition sample_netconn :: "recv_msg list \<Rightarrow> netconn" where
  "sample_netconn msgs =
     \<lparr>nc_type = NETCONN_TCP, nc_state = NETCONN_NONE, nc_pcb = True, pending_err = ERR_OK,
      recvmbox = Some \<lparr>mb_size = 6, mb_msgs = msgs\<rparr>, acceptmbox = NULL, nc_socket = 0, nc_flags = 2\<rparr>"

definition sample_sockets :: "recv_msg list \<Rightarrow> unit netconn_world socket_state" where
  "sample_sockets msgs =
     \<lparr>sockets = [\<lparr>sock_conn = Some 0, lastdata_pbuf = NULL, lastdata_netbuf = NULL, rcvevent = 0, sendevent = 1, errevent = 0\<rparr>],
      errno = ENONE,
      stack = \<lparr>conns = \<lambda>_. sample_netconn msgs,
               callbacks = \<lambda>_. \<lparr>cb_arg = True, cb_recv = True, cb_accept = False, cb_sent = True, cb_poll = True, cb_err = True\<rparr>,
               core = ()\<rparr>\<rparr>"

definition sample_connection :: "bytes \<Rightarrow> recv_msg list \<Rightarrow> unit netconn_world socket_state recording" where
  "sample_connection bs msgs =
     \<lparr>iface = \<lparr>net_ops = Some (g_lwip_net_ops (netconn_layer idle_core)), udp_socket = -1, tcp_listen_socket = -1,
               connections = [(open_connection bs)\<lparr>socket_fd := 0\<rparr>, closed_connection], udp_rx_buffer = replicate 4096 0\<rparr>,
      net = sample_sockets msgs, delivered = []\<rparr>"

lemma sample_connected:
  "list_all is_data msgs \<Longrightarrow> connected_socket 0 0 (sample_sockets msgs)
     \<and> incoming_bytes 0 0 (sample_sockets msgs) = concat (map msg_bytes msgs)"
  by (simp add: connected_socket_def socket_of_def sample_sockets_def sock_at_def tcp_alive_def sample_netconn_def
      NETCONNTYPE_GROUP_def conn_is_nonblocking_def netconn_is_flag_set_def avail_def left_over_def tcp_queued_def)

text \<open>C19. From the TCP segments to the DoIP messages: a connection of the interface on a connected lwIP
  socket, with nothing received yet; the peer sends well-formed messages that fit into the receive
  buffer, cut into segments in any way, and segments arrive and polls happen in any order. At every
  moment what was delivered to the callback are the first messages, in order, complete and unchanged;
  and polling on from there always comes to a state in which every message whose last byte has
  arrived is delivered.\<close>

theorem stream_reaches_interface:
  assumes "conn s j = Some k" and "wf_conn k" and "socket_fd k = int i" and "pending k = []" and "delivered s = []"
    and "net_ops (iface s) = Some (g_lwip_net_ops (netconn_layer kops))"
    and "connected_socket c i (net s)" and "incoming_bytes c i (net s) = []"
    and "rx_steps kops c j s sent t" and "sent @ q = concat (map frame ms)"
    and "list_all wf_msg ms" and "\<forall>m \<in> set ms. length (frame m) \<le> 4096"
  shows "(\<exists>fs. map frame ms = delivered t @ fs) \<and> (\<exists>u. polls j t u \<and> delivered u = fst (split_frames sent))"
proof -
  have "split_frames [] = ([], [])"
    by (rule split_frames_done) simp
  then have "rx_inv kops c i j [] s"
    using assms(1-8) by (auto simp: rx_inv_def)
  then have inv: "rx_inv kops c i j sent t"
    by (rule rx_steps_inv [OF assms(9) _ assms(11,12,10)])
  obtain k' where "conn t j = Some k'"
    using inv by (auto simp: rx_inv_def)
  then have "\<exists>fs. map frame ms = delivered t @ fs"
    using rx_inv_messages [OF inv _ assms(11,10)] by (metis map_append)
  with polling_delivers_all [OF inv assms(11,12,10)] show ?thesis
    by blast
qed

theorem stream_reaches_interface_witness:
  "\<exists>t u. rx_steps idle_core 0 0 (sample_connection [] []) (frame (GenericNack 4)) t
     \<and> polls 0 t u \<and> delivered u = [frame (GenericNack 4)]"
proof -
  let ?s = "sample_connection [] []" and ?b = "frame (GenericNack 4)"
  have good: "good_pbuf ?b"
    by (auto simp: good_pbuf_def length_frame frame_def header_2019_def)
  obtain n where "recv_tcp idle_core 0 (Some ?b) (stack (net ?s)) = (ERR_OK, n)"
    by (simp add: recv_tcp_def sample_connection_def sample_sockets_def sample_netconn_def sys_mbox_trypost_def)
  from rx_steps.segment [OF rx_steps.start good this]
  have steps: "rx_steps idle_core 0 0 ?s ?b (?s\<lparr>net := (net ?s)\<lparr>stack := n\<rparr>\<rparr>)"
    by simp
  have c: "conn ?s 0 = Some ((open_connection [])\<lparr>socket_fd := 0\<rparr>)"
    by (simp add: conn_def rd_def sample_connection_def)
  have sp: "split_frames ?b = ([?b], [])"
    using split_frames_frame [of "GenericNack 4" "[]"] by (simp add: split_frames_done)
  have "(\<exists>fs. map frame [GenericNack 4] = delivered (?s\<lparr>net := (net ?s)\<lparr>stack := n\<rparr>\<rparr>) @ fs)
      \<and> (\<exists>u. polls 0 (?s\<lparr>net := (net ?s)\<lparr>stack := n\<rparr>\<rparr>) u \<and> delivered u = fst (split_frames ?b))"
    by (rule stream_reaches_interface [OF c _ _ _ _ _ _ _ steps, where i = 0 and q = "[]"])
      (use sample_connected [of "[]"] in \<open>simp_all add: sample_connection_def wf_conn_def pending_def open_connection_def length_frame\<close>)
  with steps sp show ?thesis
    by auto
qed

text \<open>C20. A receive call on a socket whose netconn is a non-blocking TCP netconn always returns: the loop of
  \<open>lwip_recv_tcp\<close> ends, for every length and whatever the mailbox holds of data, errors and the end of
  the stream, and it does not touch memory it must not.\<close>

theorem receive_call_returns:
  assumes "socket_of c i s" and "tcp_ready c (stack s)"
  shows "\<exists>r bs s'. lwip_tcp_recv (netconn_layer kops) (int i) len s = returns ((r, bs), s')
    \<and> (r = int (length bs) \<and> length bs \<le> unat len \<or> r < 0 \<and> bs = [])"
proof -
  obtain r bs s' where "lwip_recv (netconn_layer kops) (int i) len 0 s = returns ((r, bs), s')"
    using netconn_source.recv_tcp_returns [OF assms] netconn_source.recv_is_tcp [OF assms] by metis
  then show ?thesis
    using recv_bounds by (fastforce simp: lwip_tcp_recv_def)
qed

theorem receive_call_returns_witness:
  "\<exists>r bs s'. lwip_tcp_recv (netconn_layer idle_core) 0 100 (sample_sockets [Recv_pbuf [1], Recv_err ERR_CLSD]) = returns ((r, bs), s')"
  using receive_call_returns [of 0 0 "sample_sockets [Recv_pbuf [1], Recv_err ERR_CLSD]" idle_core 100]
  by (force simp: socket_of_def sample_sockets_def sock_at_def tcp_ready_def sample_netconn_def NETCONNTYPE_GROUP_def
      conn_is_nonblocking_def netconn_is_flag_set_def good_msg_def good_pbuf_def)

section \<open>Short writes\<close>

lemma sint_ucast_u16: "sint (ucast (n :: u16) :: u32) = int (unat n)"
proof -
  have "uint (ucast n :: u32) = int (unat n)"
    by (simp only: uint_nat unat_ucast_u16)
  moreover have "- (2 ^ 31) \<le> int (unat n)"
    by (rule order_trans [OF _ of_nat_0_le_iff]) simp
  moreover have "int (unat n) < 65536"
    using unat_u16_bound [of n] by linarith
  then have "int (unat n) < 2 ^ 31"
    by (rule less_trans) simp
  ultimately have "uint (ucast n :: u32) = int (unat n)" "signed_take_bit 31 (int (unat n)) = int (unat n)"
    by (simp_all only: signed_take_bit_int_eq_self)
  then show ?thesis
    by (simp add: sint_uint)
qed

text \<open>When TCP has room for some of the bytes only, a non-blocking send writes as many as fit, once, and
  returns their number.\<close>

lemma short_write:
  assumes "tcp_sndbuf api c k = n" and "0 < n" and "unat n < unat len" and "len \<le> 0xffff"
    and "tcp_write api c data n f k = (ERR_OK, k')"
  shows "writemore_loop api c data len True f 0 k = ((ERR_OK, False, ucast n), k')"
proof -
  have "n \<noteq> 0"
    using assms(2) by auto
  have "\<not> 0xffff < len" "unat (ucast len :: u16) = unat len"
    using assms(4) by (simp_all add: unat_ucast_u32 word_le_nat_alt word_less_nat_alt not_less)
  with \<open>n \<noteq> 0\<close> show ?thesis
    using assms by (subst writemore_loop.simps) (simp add: Let_def word_less_nat_alt)
qed

definition sendable :: "nat \<Rightarrow> nat \<Rightarrow> 'k netconn_world socket_state \<Rightarrow> bool" where
  "sendable c i s \<longleftrightarrow> i < length (sockets s) \<and> sock_conn (sock_at s i) = Some c
     \<and> NETCONNTYPE_GROUP (nc_type (conns (stack s) c)) = NETCONN_TCP \<and> conn_is_nonblocking c (stack s)
     \<and> nc_pcb (conns (stack s) c) \<and> nc_state (conns (stack s) c) = NETCONN_NONE \<and> pending_err (conns (stack s) c) = ERR_OK"

lemma send_short_write:
  assumes "sendable c i s" and "tcp_sndbuf (tcp kops) c (core (stack s)) = n" and "0 < n"
    and "unat n < unat len" and "len \<le> 0xffff"
    and "tcp_write (tcp kops) c data n NETCONN_COPY (core (stack s)) = (ERR_OK, k)"
    and "tcp_output (tcp kops) c k = (e, k')" and "e \<noteq> ERR_RTE"
  shows "\<exists>s'. lwip_tcp_send (netconn_layer kops) (int i) data len s = (int (unat n), s') \<and> core (stack s') = k'"
proof -
  let ?w = "upd_conn c (\<lambda>k. k\<lparr>nc_state := NETCONN_WRITE\<rparr>) (upd_conn c (\<lambda>k. k\<lparr>pending_err := ERR_OK\<rparr>) (stack s))"
  have fd: "get_socket (int i) s = (Some i, s)" "conn_of s i = c"
    using assms(1)
    by (simp_all add: get_socket_def tryget_socket_def tryget_socket_unconn_nouse_def sendable_def conn_of_def)
  have len: "len \<noteq> 0" "\<not> SSIZE_MAX < len" "ucast n < len"
    using assms(3,4,5) by (auto simp: word_less_nat_alt word_le_nat_alt)
  have "writemore_loop (tcp kops) c data len True NETCONN_COPY 0 (core (stack s)) = ((ERR_OK, False, ucast n), k)"
    by (rule short_write [OF assms(2-6)])
  then have "\<exists>w. lwip_netconn_do_writemore kops c data len len NETCONN_COPY ?w = (Some (ERR_OK, ucast n), w) \<and> core w = k'"
    using assms(1,7,8) len(3)
    by (simp add: lwip_netconn_do_writemore_def call_core_def conn_is_nonblocking_def netconn_is_flag_set_def sendable_def)
  then obtain w where "lwip_netconn_do_writemore kops c data len len NETCONN_COPY ?w = (Some (ERR_OK, ucast n), w)" "core w = k'"
    by blast
  then have "conn_write_partly kops c data len NETCONN_COPY (stack s) = ((ERR_OK, ucast n), w)"
    using assms(1) len
    by (simp add: conn_write_partly_def netconn_write_vectors_partly_def lwip_netconn_do_write_def netconn_err_def sendable_def)
  moreover have "sint (ucast n :: u32) = int (unat n)"
    by (rule sint_ucast_u16)
  ultimately show ?thesis
    using fd assms(1) \<open>core w = k'\<close>
    by (simp add: lwip_tcp_send_def lwip_send_def send_stream_def netconn_layer_def sendable_def)
qed

text \<open>C21. A short write is reported as a success: when TCP has room for \<open>n\<close> bytes of a longer message,
  \<open>doip_interface_tcp_send\<close> on a non-blocking connection returns \<open>DOIP_RESULT_OK\<close>, although TCP was given
  the first \<open>n\<close> bytes only; the rest of the message is lost and the peer's framing with it.\<close>

theorem short_write_reported_ok:
  assumes "conn s j = Some k" and "j < 2" and "socket_fd k = int i"
    and "net_ops (iface s) = Some (g_lwip_net_ops (netconn_layer kops))" and "sendable c i (net s)"
    and "tcp_sndbuf (tcp kops) c (core (stack (net s))) = n" and "0 < n" and "unat n < unat len" and "len \<le> 0xffff"
    and "tcp_write (tcp kops) c data n NETCONN_COPY (core (stack (net s))) = (ERR_OK, k1)"
    and "tcp_output (tcp kops) c k1 = (e, k2)" and "e \<noteq> ERR_RTE"
  shows "\<exists>s'. doip_interface_tcp_send address_of_it (int j) (Some data) len s = Some (DOIP_RESULT_OK, s')
    \<and> core (stack (net s')) = k2"
proof -
  obtain w where "lwip_tcp_send (netconn_layer kops) (int i) data len (net s) = (int (unat n), w)" "core (stack w) = k2"
    using send_short_write [OF assms(5-12)] by blast
  then show ?thesis
    using assms(1-4) by (simp add: doip_interface_tcp_send_def ops_def g_lwip_net_ops_def)
qed

theorem short_write_reported_ok_witness:
  "\<exists>s'. doip_interface_tcp_send address_of_it 0 (Some (replicate 9 7)) 9 (sample_connection [] []) = Some (DOIP_RESULT_OK, s')
     \<and> core (stack (net s')) = ()"
proof -
  have c: "conn (sample_connection [] []) 0 = Some ((open_connection [])\<lparr>socket_fd := 0\<rparr>)"
    by (simp add: conn_def rd_def sample_connection_def)
  have "\<exists>s'. doip_interface_tcp_send address_of_it (int 0) (Some (replicate 9 7)) 9 (sample_connection [] []) = Some (DOIP_RESULT_OK, s')
     \<and> core (stack (net s')) = ()"
    by (rule short_write_reported_ok [OF c, where i = 0 and kops = idle_core and c = 0 and n = 4 and e = ERR_OK])
      (simp_all add: sample_connection_def sendable_def sample_sockets_def sock_at_def sample_netconn_def
        NETCONNTYPE_GROUP_def conn_is_nonblocking_def netconn_is_flag_set_def idle_core_def idle_tcp_def word_less_nat_alt)
  then show ?thesis by simp
qed

text \<open>A message that does not fit ends the connection: the header check accepts payloads of up to 4096
  bytes, but with the header a message of more than 4096 bytes never becomes complete in the receive
  buffer; once the buffer is full and more data waits, the next poll asks for 0 bytes, gets 0 and
  takes that for the end of the stream.\<close>

lemma full_buffer_disconnects:
  assumes "conn s j = Some k" and "wf_conn k" and "rx_buffer_used k = 4096" and "socket_fd k = int i"
    and "net_ops (iface s) = Some (g_lwip_net_ops (netconn_layer kops))"
    and "connected_socket c i (net s)" and "incoming_bytes c i (net s) \<noteq> []"
  shows "\<exists>w. process_connection tcb dcb j s = Some (process_disconnect dcb j (s\<lparr>net := w\<rparr>))"
proof -
  obtain w where w: "lwip_recv (netconn_layer kops) (int i) 0 0 (net s) = returns ((0, []), w)"
    using netconn_stream.recv_zero assms(6,7) unfolding connected_socket_def by blast
  have same: "(connections (iface s))[j := k] = connections (iface s)"
    using assms(1) by (auto simp: conn_def rd_def split: if_splits)
  have "receive_into j k s = Some (0, s\<lparr>net := w\<rparr>)"
    using w assms same
    by (auto simp: receive_into_def ops_def g_lwip_net_ops_def or_error_def lwip_tcp_recv_def wr_block_def wf_conn_def
        conn_update_def upd_at_def conn_def rd_def split: if_splits)
  then show ?thesis
    using assms(1,4) by (auto simp: process_connection_def)
qed

section \<open>Addresses\<close>

lemma htons_twice [simp]: "lwip_htons (lwip_htons p) = p"
proof -
  have masks: "(0x00FF :: u16) = mask 8" "(0xFF00 :: u16) = push_bit 8 (mask 8)"
    by (simp_all add: mask_eq_exp_minus_1 push_bit_eq_mult)
  show ?thesis
    unfolding lwip_htons_def masks by (rule bit_word_eqI) (auto simp: bit_simps)
qed

text \<open>An answer goes back to where the request came from: the text and the port that \<open>lwip_udp_recvfrom\<close>
  reports for a datagram, handed to \<open>lwip_udp_sendto\<close>, address the datagram's sender, for every address
  and port; and the data reported is the datagram, cut to the length of the buffer.\<close>

lemma udp_answer_goes_to_sender:
  assumes "get_socket sock s = (Some i, s)" and "NETCONNTYPE_GROUP (conn_type api (conn_of s i) (stack s)) \<noteq> NETCONN_TCP"
    and "lastdata_netbuf (sock_at s i) = NULL"
    and "netconn_recv_udp_raw_netbuf_flags api (conn_of s i) 0 (stack s) = ((ERR_OK, Some b), n)"
    and "0 < length (nb_data b)" and "length (nb_data b) < 65536" and "0 < len"
  shows "\<exists>ip port s'. lwip_udp_recvfrom api sock len s =
        returns ((int (length (take (unat len) (nb_data b))), take (unat len) (nb_data b), ip, port), s')
      \<and> (\<forall>data m t. lwip_udp_sendto api sock data m ip port t =
           lwip_sendto api sock data m 0 (Some (make_sockaddr (nb_addr b) (nb_port b))) sizeof_sockaddr_in t)"
proof -
  let ?got = "take (min (unat len) (unat (of_nat (length (nb_data b)) :: u16))) (nb_data b)"
  have dl: "datagram_size len (of_nat (length (nb_data b))) = length ?got"
    by (rule datagram_length)
  have got: "?got = take (unat len) (nb_data b)"
    using assms(6) by (simp add: unat_of_nat_u16 min_def)
  obtain s1 where s1: "lwip_recvfrom api sock len 0 True s =
      returns ((int (length ?got), ?got, make_sockaddr (nb_addr b) (nb_port b)), s1)"
    using assms(1-4) dl copy_datagram [of len "nb_data b"]
    by (simp add: lwip_recvfrom_def lwip_recvfrom_udp_raw_def Let_def del: copy_iovs.simps)
  have pos: "0 < int (length ?got)"
    using assms(5,7) by (simp add: got word_less_nat_alt)
  obtain ip where ip: "ip4addr_ntoa_r (nb_addr b) 16 = Some ip" "ip4addr_aton ip = Some (nb_addr b)"
    using printed_address_parses by blast
  have "lwip_udp_recvfrom api sock len s = returns ((int (length ?got), ?got, ip, nb_port b), s1)"
    using s1 pos ip(1) by (simp add: lwip_udp_recvfrom_def lwip_inet_ntop_def make_sockaddr_def)
  moreover have "lwip_udp_sendto api sock data m ip (nb_port b) t =
      lwip_sendto api sock data m 0 (Some (make_sockaddr (nb_addr b) (nb_port b))) sizeof_sockaddr_in t" for data m t
    using ip(2) by (simp add: lwip_udp_sendto_def text_address_def lwip_inet_pton_def make_sockaddr_def)
  ultimately show ?thesis
    unfolding got by blast
qed

definition sample_udp :: "netbuf \<Rightarrow> unit netconn_world socket_state" where
  "sample_udp b =
     (sample_sockets [])\<lparr>stack := (stack (sample_sockets []))\<lparr>conns := \<lambda>_. (sample_netconn [Recv_netbuf b])\<lparr>nc_type := NETCONN_UDP\<rparr>\<rparr>\<rparr>"

section \<open>Sockets of the adapter\<close>

lemma get_socket_frame [simp]:
  "fst (get_socket fd (s\<lparr>stack := n\<rparr>)) = fst (get_socket fd s)" "snd (get_socket fd s) = (if fst (get_socket fd s) = NULL then set_errno EBADF s else s)"
  by (simp_all add: get_socket_def tryget_socket_def tryget_socket_unconn_nouse_def sock_at_def split: option.splits)

text \<open>Whatever mode \<open>F_GETFL\<close> reports, \<open>F_SETFL\<close> with \<open>O_NONBLOCK\<close> added sets the non-blocking mode.\<close>

lemma set_nonblocking_sets:
  assumes "get_socket fd s = (Some i, s)"
  shows "conn_is_nonblocking (conn_of s i) (stack (set_nonblocking (netconn_layer kops) fd s))
    \<and> sockets (set_nonblocking (netconn_layer kops) fd s) = sockets s"
proof -
  obtain flags where g: "lwip_fcntl (netconn_layer kops) fd F_GETFL 0 s = (flags, set_errno ENONE s)" "flags \<in> {0, 1, 2, 3, 4, 5, 6, 7}"
    using assms by (auto simp: lwip_fcntl_def Let_def)
  have bits: "(flags OR O_NONBLOCK) AND NOT (O_RDONLY OR O_WRONLY OR O_RDWR) = 1"
    using g(2) by auto
  have "get_socket fd (set_errno ENONE s) = (Some i, set_errno ENONE s)"
    using assms by (simp add: get_socket_def tryget_socket_def tryget_socket_unconn_nouse_def sock_at_def split: option.splits if_splits)
  then show ?thesis
    using g(1) bits
    by (simp add: set_nonblocking_def lwip_fcntl_def Let_def netconn_layer_def conn_set_nonblocking_def conn_is_nonblocking_def
        netconn_is_flag_set_def netconn_set_flags_def conn_of_def sock_at_def)
qed

text \<open>Every connection the adapter hands to the interface is non-blocking, whatever mode the new netconn
  has and whatever \<open>fcntl\<close> reports of it, so that a poll of the interface cannot wait for a peer.\<close>

lemma accepted_connections_nonblocking:
  assumes "lwip_tcp_accept (netconn_layer kops) listen_sock s = (sock, s')" and "0 \<le> sock"
  shows "\<exists>c. sock_conn (sock_at s' (nat sock)) = Some c \<and> conn_is_nonblocking c (stack s')"
proof -
  obtain a t where t: "lwip_accept (netconn_layer kops) listen_sock s = ((sock, a), t)"
      "s' = set_nonblocking (netconn_layer kops) sock t"
    using assms by (auto simp: lwip_tcp_accept_def split: prod.splits)
  have u: "nat sock < length (in_use t)" "in_use t ! nat sock \<noteq> NULL"
    using accept_opens_socket [OF t(1) assms(2)] by auto
  obtain c where c: "sock_conn (sock_at t (nat sock)) = Some c"
    using u by (auto simp: in_use_def sock_at_def)
  have "conn_is_nonblocking (conn_of t (nat sock)) (stack s')" "sockets s' = sockets t"
    using set_nonblocking_sets [OF get_socket_in_use [OF assms(2) u], of kops] t(2) by auto
  then show ?thesis
    using c by (simp add: conn_of_def sock_at_def)
qed

text \<open>A listening socket with one connection waiting, which is in blocking mode.\<close>

definition sample_listener :: "unit netconn_world socket_state" where
  "sample_listener =
     (sample_sockets [])\<lparr>sockets := sockets (sample_sockets []) @ [\<lparr>sock_conn = NULL, lastdata_pbuf = NULL, lastdata_netbuf = NULL, rcvevent = 0, sendevent = 0, errevent = 0\<rparr>],
        stack := (stack (sample_sockets []))\<lparr>conns := (\<lambda>_. (sample_netconn [])\<lparr>nc_flags := 0, nc_socket := -1\<rparr>)
          (0 := (sample_netconn [])\<lparr>nc_state := NETCONN_LISTEN, recvmbox := NULL, acceptmbox := Some \<lparr>mb_size = 6, mb_msgs = [Accept_conn 1]\<rparr>\<rparr>)\<rparr>\<rparr>"

end
