(* ===== verification/Ip4_Net.thy ===== *)
theory Ip4_Net
  imports Ip4_Addr
begin

text \<open>
  The tests of \<^verbatim>\<open>core/ipv4/ip4_addr.c\<close> on IPv4 addresses: whether an address is a broadcast address on an
  interface, and whether a netmask consists of ones followed by zeros. Of the interface the record has the
  fields that the tests read. Addresses and netmasks are in network order.
\<close>

section \<open>Broadcast addresses and netmasks\<close>

record netif =
  flags :: u8
  ip_addr :: u32
  netmask :: u32

definition NETIF_FLAG_BROADCAST :: u8 where
  "NETIF_FLAG_BROADCAST = 0x02"

definition ip4_addr_netcmp :: "u32 \<Rightarrow> u32 \<Rightarrow> u32 \<Rightarrow> bool" where
  "ip4_addr_netcmp addr1 addr2 m \<longleftrightarrow> addr1 AND m = addr2 AND m"

definition ip4_addr_isbroadcast_u32 :: "u32 \<Rightarrow> netif \<Rightarrow> bool" where
  "ip4_addr_isbroadcast_u32 addr n =
     (if NOT addr = 0 \<or> addr = 0 then True
      else if flags n AND NETIF_FLAG_BROADCAST = 0 then False
      else if addr = ip_addr n then False
      else if ip4_addr_netcmp addr (ip_addr n) (netmask n) \<and>
              addr AND NOT (netmask n) = 0xFFFFFFFF AND NOT (netmask n) then True
      else False)"

text \<open>The two loops over the bits of a netmask: the search for the first zero, and the check that no one follows.\<close>

lemma shift_decreases: "m \<noteq> 0 \<Longrightarrow> unat (drop_bit 1 m) < unat (m :: u32)"
  using unat_gt_0 [of m] le_less_trans [OF div_le_mono [OF take_bit_nat_less_eq_self]]
  by (simp only: unsigned_drop_bit_eq) (simp add: drop_bit_eq_div)

function first_zero :: "u32 \<Rightarrow> u32 \<Rightarrow> u32" where
  "first_zero nm m = (if m = 0 \<or> nm AND m = 0 then m else first_zero nm (drop_bit 1 m))"
  by pat_completeness auto
termination
  by (relation "measure (\<lambda>(nm, m). unat m)") (use shift_decreases in auto)

function no_one_from :: "u32 \<Rightarrow> u32 \<Rightarrow> bool" where
  "no_one_from nm m = (if m = 0 then True else if nm AND m \<noteq> 0 then False else no_one_from nm (drop_bit 1 m))"
  by pat_completeness auto
termination
  by (relation "measure (\<lambda>(nm, m). unat m)") (use shift_decreases in auto)

declare first_zero.simps [simp del] no_one_from.simps [simp del]

definition ip4_addr_netmask_valid :: "u32 \<Rightarrow> bool" where
  "ip4_addr_netmask_valid m = (let nm_hostorder = lwip_htonl m in no_one_from nm_hostorder (first_zero nm_hostorder (push_bit 31 1)))"

definition ipaddr_addr :: "string \<Rightarrow> u32" where
  "ipaddr_addr cp = (case ip4addr_aton cp of Some val \<Rightarrow> val | None \<Rightarrow> 0xFFFFFFFF)"

definition ip4addr_ntoa :: "u32 \<Rightarrow> string ptr" where
  "ip4addr_ntoa addr = ip4addr_ntoa_r addr 16"

section \<open>Correctness\<close>

text \<open>The loops see the bits of the netmask from the highest on.\<close>

definition one_bit :: "nat \<Rightarrow> u32" where
  "one_bit k = push_bit k 1"

lemma one_bit:
  assumes "k < 32"
  shows "bit (one_bit k) i \<longleftrightarrow> i = k" "one_bit k \<noteq> 0" "nm AND one_bit k = 0 \<longleftrightarrow> \<not> bit nm k"
    "drop_bit 1 (one_bit k) = (if k = 0 then 0 else one_bit (k - 1))"
proof -
  show b: "bit (one_bit k) i \<longleftrightarrow> i = k" for i
    using assms by (auto simp: one_bit_def bit_simps)
  show "one_bit k \<noteq> 0" using b [of k] by auto
  have "nm AND one_bit k = (if bit nm k then one_bit k else 0)" by (rule bit_word_eqI) (auto simp: b bit_and_iff)
  then show "nm AND one_bit k = 0 \<longleftrightarrow> \<not> bit nm k" using \<open>one_bit k \<noteq> 0\<close> by simp
  show "drop_bit 1 (one_bit k) = (if k = 0 then 0 else one_bit (k - 1))"
    using assms by (intro bit_word_eqI) (auto simp: one_bit_def bit_simps)
qed

lemma no_one_from_bits: "k < 32 \<Longrightarrow> no_one_from nm (one_bit k) \<longleftrightarrow> (\<forall>i \<le> k. \<not> bit nm i)"
proof (induction k)
  case 0
  then show ?case using one_bit(2-4) [of 0] by (subst no_one_from.simps) (simp add: no_one_from.simps [of nm 0])
next
  case (Suc k)
  then have "no_one_from nm (one_bit (Suc k)) \<longleftrightarrow> \<not> bit nm (Suc k) \<and> (\<forall>i \<le> k. \<not> bit nm i)"
    using one_bit(2-4) [OF Suc.prems] by (subst no_one_from.simps) simp
  then show ?case by (auto simp: le_Suc_eq)
qed

lemma netmask_loops:
  "k < 32 \<Longrightarrow> no_one_from nm (first_zero nm (one_bit k)) \<longleftrightarrow> (\<exists>n \<le> Suc k. \<forall>i \<le> k. bit nm i \<longleftrightarrow> n \<le> i)"
proof (induction k)
  case 0
  have "first_zero nm (one_bit 0) = (if bit nm 0 then 0 else one_bit 0)"
    using one_bit(2-4) [of 0] by (subst first_zero.simps) (simp add: first_zero.simps [of nm 0])
  then show ?case using no_one_from_bits [of 0 nm] by (auto simp: no_one_from.simps [of nm 0])
next
  case (Suc k)
  have first: "first_zero nm (one_bit (Suc k)) = (if bit nm (Suc k) then first_zero nm (one_bit k) else one_bit (Suc k))"
    using one_bit(2-4) [OF Suc.prems] by (subst first_zero.simps) simp
  show ?case
  proof (cases "bit nm (Suc k)")
    case True
    then have "(\<exists>n \<le> Suc (Suc k). \<forall>i \<le> Suc k. bit nm i \<longleftrightarrow> n \<le> i) \<longleftrightarrow> (\<exists>n \<le> Suc k. \<forall>i \<le> k. bit nm i \<longleftrightarrow> n \<le> i)"
      by (metis le_SucE le_SucI order_refl)
    then show ?thesis using Suc True by (simp add: first)
  next
    case False
    then have "(\<exists>n \<le> Suc (Suc k). \<forall>i \<le> Suc k. bit nm i \<longleftrightarrow> n \<le> i) \<longleftrightarrow> (\<forall>i \<le> Suc k. \<not> bit nm i)"
      by (metis le_Suc_eq not_less_eq_eq order_refl)
    then show ?thesis using no_one_from_bits [OF Suc.prems] False by (simp add: first)
  qed
qed

lemma netmask_valid_iff: "ip4_addr_netmask_valid m \<longleftrightarrow> (\<exists>n \<le> 32. \<forall>i < 32. bit (lwip_htonl m) i \<longleftrightarrow> n \<le> i)"
  using netmask_loops [of 31 "lwip_htonl m"] by (simp add: ip4_addr_netmask_valid_def Let_def one_bit_def less_Suc_eq_le [of _ 31, simplified])

text \<open>The broadcast address of a network is recognised on its interfaces, unless it is the address of the interface itself.\<close>

lemma network_broadcast:
  assumes "flags n AND NETIF_FLAG_BROADCAST \<noteq> 0" and "addr \<noteq> 0" and "addr \<noteq> 0xFFFFFFFF"
  shows "ip4_addr_isbroadcast_u32 addr n \<longleftrightarrow> addr = ip_addr n OR NOT (netmask n) \<and> addr \<noteq> ip_addr n"
proof -
  have ones: "(0xFFFFFFFF :: u32) = - 1" by simp
  have "NOT addr \<noteq> 0"
  proof
    assume "NOT addr = 0"
    then have "addr = NOT 0" by (metis bit.double_compl)
    then show False using assms(3) by (simp add: ones)
  qed
  moreover have "ip4_addr_netcmp addr (ip_addr n) (netmask n) \<and> addr AND NOT (netmask n) = 0xFFFFFFFF AND NOT (netmask n)
      \<longleftrightarrow> addr = ip_addr n OR NOT (netmask n)"
    unfolding ones ip4_addr_netcmp_def bit_eq_iff by (simp add: bit_simps) blast
  ultimately show ?thesis using assms(1,2) by (auto simp: ip4_addr_isbroadcast_u32_def)
qed

text \<open>The address that \<^verbatim>\<open>ipaddr_addr\<close> reads from the text that \<^verbatim>\<open>ip4addr_ntoa\<close> prints is the one printed, also for
  the broadcast address, which is the value for an error.\<close>

lemma ipaddr_addr_ntoa: "\<exists>s. ip4addr_ntoa addr = Some s \<and> ipaddr_addr s = addr"
  using printed_address_parses [of addr] by (auto simp: ip4addr_ntoa_def ipaddr_addr_def)

end
