(* ===== verification/C_Text.thy ===== *)
theory C_Text
  imports Prelude
begin

text \<open>
  The text functions of the C library that the log and debug output use: \<^verbatim>\<open>strlen\<close>, \<^verbatim>\<open>snprintf\<close> and
  the number formats \<^verbatim>\<open>%X\<close> and \<^verbatim>\<open>%lu\<close>. A text is the list of its characters; an array
  of \<^verbatim>\<open>char\<close> is the list of all its elements, with the terminating zero among them. Formatting is
  split into the text that the format and its arguments stand for, which is an argument of
  \<open>snprintf\<close>, and the bounded copy of that text, which is where memory is written.
\<close>

section \<open>Strings\<close>

abbreviation NUL :: char where "NUL \<equiv> CHR 0x00"

definition c_string :: "string \<Rightarrow> string" where
  "c_string t = t @ [NUL]"

definition crlf :: string where
  "crlf = [CHR 0x0D, CHR 0x0A]"

fun strlen :: "string \<Rightarrow> nat exec" where
  "strlen [] = undefined_behaviour"
| "strlen (c # cs) = (if c = NUL then Some 0 else map_option Suc (strlen cs))"

text \<open>\<open>snprintf(&b[off], sz, ...)\<close> stores at most \<open>sz - 1\<close> characters of the text and a zero, nothing
  when \<open>sz\<close> is 0, and returns the length of the whole text.\<close>

definition snprintf :: "string \<Rightarrow> nat \<Rightarrow> u32 \<Rightarrow> string \<Rightarrow> (int \<times> string) exec" where
  "snprintf b off sz t =
     (if sz = 0 then Some (int (length t), b)
      else do { b \<leftarrow> wr_block b off (c_string (take (unat sz - 1) t)); Some (int (length t), b) })"

definition local_chars :: "nat \<Rightarrow> string" where
  "local_chars n = replicate n NUL"

section \<open>Numbers\<close>

definition hex_digit :: "nat \<Rightarrow> char" where
  "hex_digit n = ''0123456789ABCDEF'' ! n"

fun hex_digits :: "nat \<Rightarrow> string" where
  "hex_digits n = (if n < 16 then [hex_digit n] else hex_digits (n div 16) @ [hex_digit (n mod 16)])"

declare hex_digits.simps [simp del]

text \<open>The format \<^verbatim>\<open>%0wX\<close>.\<close>

definition hex_pad :: "nat \<Rightarrow> nat \<Rightarrow> string" where
  "hex_pad w n = replicate (w - length (hex_digits n)) (CHR ''0'') @ hex_digits n"

fun dec_digits :: "nat \<Rightarrow> string" where
  "dec_digits n =
     (if n < 10 then [char_of (48 + n)] else dec_digits (n div 10) @ [char_of (48 + n mod 10)])"

declare dec_digits.simps [simp del]

section \<open>Lemmas\<close>

lemma length_c_string [simp]: "length (c_string t) = Suc (length t)"
  by (simp add: c_string_def)

lemma NUL_crlf [simp]: "NUL \<notin> set crlf"
  by (simp add: crlf_def)

lemma length_crlf [simp]: "length crlf = 2"
  by (simp add: crlf_def)

lemma strlen_terminated [simp]: "NUL \<notin> set t \<Longrightarrow> strlen (t @ NUL # rest) = Some (length t)"
  by (induction t) auto

lemma strlen_c_string [simp]: "NUL \<notin> set t \<Longrightarrow> strlen (c_string t) = Some (length t)"
  by (simp add: c_string_def)

lemma hex_digit_printable: "n < 16 \<Longrightarrow> hex_digit n \<noteq> NUL"
  by (auto simp: hex_digit_def numeral_eq_Suc less_Suc_eq)

lemma NUL_hex_digits [simp]: "NUL \<notin> set (hex_digits n)"
proof (induction n rule: hex_digits.induct)
  case (1 n)
  then show ?case
    using hex_digit_printable [of n] hex_digit_printable [of "n mod 16"]
    by (subst hex_digits.simps) auto
qed

lemma length_hex_digits: "0 < k \<Longrightarrow> n < 16 ^ k \<Longrightarrow> length (hex_digits n) \<le> k"
proof (induction n arbitrary: k rule: hex_digits.induct)
  case (1 n)
  show ?case
  proof (cases "n < 16")
    case True
    with 1 show ?thesis by (simp add: hex_digits.simps [of n])
  next
    case False
    with "1.prems" have "1 < k"
      by (cases "k = 1") auto
    moreover have "n div 16 < 16 ^ (k - 1)"
      using "1.prems" by (simp add: div_less_iff_less_mult flip: power_Suc2)
    ultimately have "length (hex_digits (n div 16)) \<le> k - 1"
      using "1.IH" [OF False, of "k - 1"] by simp
    then show ?thesis
      using False \<open>1 < k\<close> by (simp add: hex_digits.simps [of n])
  qed
qed

lemma hex_digits_nonempty: "hex_digits n \<noteq> []"
  by (subst hex_digits.simps) simp

lemma NUL_hex_pad [simp]: "NUL \<notin> set (hex_pad w n)"
  by (auto simp: hex_pad_def)

lemma length_hex_pad: "0 < k \<Longrightarrow> n < 16 ^ k \<Longrightarrow> w \<le> k \<Longrightarrow> length (hex_pad w n) \<le> k"
  using length_hex_digits [of k n] by (simp add: hex_pad_def)

lemma length_hex_byte [simp]: "length (hex_pad 2 (unat (v :: u8))) = 2"
proof -
  have "unat v < 16 ^ 2" using unsigned_less [of v] by simp
  then show ?thesis
    using length_hex_digits [of 2 "unat v"] by (simp add: hex_pad_def)
qed

text \<open>Texts appended to a buffer one after the other: the buffer holds the text so far, cut to what
  fits before the zero.\<close>

definition holds_text :: "string \<Rightarrow> nat \<Rightarrow> string \<Rightarrow> bool" where
  "holds_text b n t \<longleftrightarrow> length b = n \<and> take (min (length t) (n - 1)) b = take (n - 1) t \<and>
     (t = [] \<or> b ! min (length t) (n - 1) = NUL)"

lemma holds_text_empty: "length b = n \<Longrightarrow> holds_text b n []"
  by (simp add: holds_text_def)

lemma snprintf_appends:
  assumes "holds_text b n t" and "length t \<le> n" and "0 < n" and "n < 2 ^ 31"
  shows "\<exists>b'. snprintf b (length t) (of_nat n - of_nat (length t)) u = Some (int (length u), b')
     \<and> holds_text b' n (t @ u)"
proof -
  have sz: "unat (of_nat n - of_nat (length t) :: u32) = n - length t"
    using assms(2,4) unat_of_nat_u32 [of "n - length t"] by (simp add: of_nat_diff)
  show ?thesis
  proof (cases "length t = n")
    case True
    then have "holds_text b n (t @ u)"
      using assms by (auto simp: holds_text_def)
    then show ?thesis
      using True by (simp add: snprintf_def)
  next
    case False
    then have lt: "length t < n" using assms(2) by simp
    then have nz: "of_nat n - of_nat (length t) \<noteq> (0 :: u32)"
      using sz by (metis unat_0 zero_less_diff less_numeral_extra(3))
    define p where "p = take (n - length t - 1) u"
    have fits: "length t + length (c_string p) \<le> n"
      using lt by (simp add: p_def)
    have len: "length b = n" and pre: "take (length t) b = t"
      using assms(1) lt by (auto simp: holds_text_def min_absorb1)
    let ?b = "t @ c_string p @ drop (length t + length (c_string p)) b"
    have "wr_block b (length t) (c_string p) = Some ?b"
      using fits len pre by (simp add: wr_block_def)
    then have "snprintf b (length t) (of_nat n - of_nat (length t)) u = Some (int (length u), ?b)"
      using nz by (simp add: snprintf_def sz p_def)
    moreover have "holds_text ?b n (t @ u)"
    proof -
      have "length ?b = n"
        using fits len by simp
      moreover have "min (length t + length u) (n - 1) = length t + length p"
        using lt unfolding p_def length_take min_def by auto
      moreover have "take (n - 1) (t @ u) = t @ p"
        using lt by (simp add: p_def)
      ultimately show ?thesis
        by (simp add: holds_text_def c_string_def nth_append)
    qed
    ultimately show ?thesis by blast
  qed
qed

lemma snprintf_past_end:
  assumes "length b = n" and "n < length t" and "length t < 2 ^ 31" and "n < 2 ^ 31"
  shows "snprintf b (length t) (of_nat n - of_nat (length t)) u = undefined_behaviour"
proof -
  have "unat (of_nat n :: u32) = n" "unat (of_nat (length t) :: u32) = length t"
    using assms(3,4) by (simp_all add: unat_of_nat_u32)
  then have "of_nat n \<noteq> (of_nat (length t) :: u32)"
    using assms(2) by (auto dest: arg_cong [where f = unat])
  then have "of_nat n - of_nat (length t) \<noteq> (0 :: u32)"
    by simp
  then show ?thesis
    using assms(1,2) by (simp add: snprintf_def wr_block_out_of_bounds)
qed

end
