(* ===== verification/Debug_Print.thy ===== *)
theory Debug_Print
  imports C_Text
begin

text \<open>
  The debug output over the serial port (\<^verbatim>\<open>src/src/debug_print.c\<close>). The UART driver is not part of
  the repository: its three operations are the record \<open>uart_driver\<close>, a parameter. \<open>debug_print\<close> takes
  the text that its format and arguments stand for. \<open>debug_print_string\<close> calls itself when a
  transmission does not complete, so that it is a partial function.
\<close>

section \<open>Data\<close>

datatype Std_ReturnType = E_OK | E_NOT_OK

datatype Uart_StatusType = UART_STATUS_NO_ERROR | UART_STATUS_OPERATION_ONGOING | UART_STATUS_OTHER

record 'u uart_driver =
  Uart_Init :: "'u \<Rightarrow> 'u"
  Uart_AsyncSend :: "string \<Rightarrow> 'u \<Rightarrow> Std_ReturnType \<times> 'u"
  Uart_GetStatus :: "'u \<Rightarrow> Uart_StatusType \<times> 'u"

record 'u debug_state =
  debug_print_buffer :: string
  debug_print_initialized :: bool
  uart :: 'u

definition DEBUG_PRINT_BUFFER_SIZE :: u32 where
  "DEBUG_PRINT_BUFFER_SIZE = 256"

section \<open>Operations\<close>

definition debug_print_init :: "'u uart_driver \<Rightarrow> ('u, 'z) debug_state_scheme \<Rightarrow> ('u, 'z) debug_state_scheme" where
  "debug_print_init d s =
     (if debug_print_initialized s then s
      else s\<lparr>uart := Uart_Init d (uart s), debug_print_initialized := True\<rparr>)"

text \<open>The wait for the end of a transmission: \<open>wait_count\<close> stays at most \<open>max_wait_cycles\<close>, so that
  the 32-bit counter of the code does not wrap.\<close>

function wait_loop :: "'u uart_driver \<Rightarrow> nat \<Rightarrow> nat \<Rightarrow> 'u \<Rightarrow> bool \<times> 'u" where
  "wait_loop d wait_count max_wait_cycles u =
     (let (status, u) = Uart_GetStatus d u in
      case status of
        UART_STATUS_NO_ERROR \<Rightarrow> (True, u)
      | UART_STATUS_OPERATION_ONGOING \<Rightarrow>
          let wait_count = wait_count + 1 in
          if wait_count < max_wait_cycles then wait_loop d wait_count max_wait_cycles u else (False, u)
      | UART_STATUS_OTHER \<Rightarrow> (False, u))"
  by pat_completeness auto
termination
  by (relation "measure (\<lambda>(d, k, m, u). m - k)") auto

declare wait_loop.simps [simp del]

definition debug_print_wait_transmit_complete ::
    "'u uart_driver \<Rightarrow> u32 \<Rightarrow> ('u, 'z) debug_state_scheme \<Rightarrow> bool \<times> ('u, 'z) debug_state_scheme" where
  "debug_print_wait_transmit_complete d timeout_us s =
     (let max_wait_cycles = timeout_us div 10;
          (complete, u) = wait_loop d 0 (unat max_wait_cycles) (uart s)
      in (complete, s\<lparr>uart := u\<rparr>))"

definition uart_send ::
    "'u uart_driver \<Rightarrow> string \<Rightarrow> ('u, 'z) debug_state_scheme \<Rightarrow> Std_ReturnType \<times> ('u, 'z) debug_state_scheme" where
  "uart_send d t s = (let (r, u) = Uart_AsyncSend d t (uart s) in (r, s\<lparr>uart := u\<rparr>))"

definition tx_timeout_text :: string where
  "tx_timeout_text = c_string (''DEBUG_PRINT: TX timeout'' @ crlf)"

definition format_error_text :: string where
  "format_error_text = c_string (''DEBUG_PRINT: Format error'' @ crlf)"

definition send_failed_text :: string where
  "send_failed_text = c_string (''DEBUG_PRINT: UART send failed'' @ crlf)"

partial_function (option) debug_print_string ::
    "'u uart_driver \<Rightarrow> string ptr \<Rightarrow> ('u, 'z) debug_state_scheme \<Rightarrow> ('u, 'z) debug_state_scheme run" where
  "debug_print_string d str s =
     (if \<not> debug_print_initialized s then returns s
      else (case str of
          None \<Rightarrow> returns s
        | Some p \<Rightarrow>
            (case strlen p of
               None \<Rightarrow> Some undefined_behaviour
             | Some str_length \<Rightarrow>
                 let (uart_result, s) = uart_send d (take str_length p) s in
                 if uart_result = E_OK then
                   let (complete, s) = debug_print_wait_transmit_complete d 100000 s in
                   if \<not> complete then debug_print_string d (Some tx_timeout_text) s else returns s
                 else returns s)))"

definition debug_print ::
    "'u uart_driver \<Rightarrow> string \<Rightarrow> ('u, 'z) debug_state_scheme \<Rightarrow> ('u, 'z) debug_state_scheme run" where
  "debug_print d text s =
     (if \<not> debug_print_initialized s then returns s
      else (case snprintf (debug_print_buffer s) 0 DEBUG_PRINT_BUFFER_SIZE text of
          None \<Rightarrow> Some undefined_behaviour
        | Some (formatted_length, b) \<Rightarrow>
            let s = s\<lparr>debug_print_buffer := b\<rparr> in
            if formatted_length < 0 \<or> formatted_length \<ge> int (unat DEBUG_PRINT_BUFFER_SIZE)
            then debug_print_string d (Some format_error_text) s
            else
              let (uart_result, s) = uart_send d (take (nat formatted_length) (debug_print_buffer s)) s in
              if uart_result = E_OK then
                let (complete, s) = debug_print_wait_transmit_complete d 100000 s in
                if \<not> complete then debug_print_string d (Some tx_timeout_text) s else returns s
              else debug_print_string d (Some send_failed_text) s))"

definition debug_print_char ::
    "'u uart_driver \<Rightarrow> char \<Rightarrow> ('u, 'z) debug_state_scheme \<Rightarrow> ('u, 'z) debug_state_scheme" where
  "debug_print_char d c s =
     (if \<not> debug_print_initialized s then s
      else
        let (uart_result, s) = uart_send d [c] s in
        if uart_result = E_OK then snd (debug_print_wait_transmit_complete d 10000 s) else s)"

definition debug_print_newline ::
    "'u uart_driver \<Rightarrow> ('u, 'z) debug_state_scheme \<Rightarrow> ('u, 'z) debug_state_scheme run" where
  "debug_print_newline d s = debug_print_string d (Some (c_string crlf)) s"

text \<open>One byte of \<open>debug_print_hex\<close>: the local buffer and its fill level are the loop's state. The
  result says whether the loop goes on.\<close>

definition hex_step ::
    "'u uart_driver \<Rightarrow> bytes \<Rightarrow> u32 \<Rightarrow> nat \<Rightarrow> u32 \<times> string \<times> ('u, 'z) debug_state_scheme
      \<Rightarrow> (bool \<times> u32 \<times> string \<times> ('u, 'z) debug_state_scheme) run" where
  "hex_step d buffer len i = (\<lambda>(buffer_index, hex_buffer, s).
     case do { v \<leftarrow> rd buffer i;
               (chars_written, hex_buffer) \<leftarrow>
                 snprintf hex_buffer (unat buffer_index) (64 - buffer_index) (hex_pad 2 (unat v) @ '' '');
               if chars_written < 0 then Some (False, False, buffer_index, hex_buffer)
               else do {
                 let buffer_index = buffer_index + of_int chars_written;
                 if buffer_index \<ge> 64 - 6 \<or> i mod 16 = 15 \<or> of_nat i = len - 1 then do {
                   let copy_index = unat buffer_index;
                   hex_buffer \<leftarrow> wr hex_buffer copy_index (CHR 0x0D);
                   hex_buffer \<leftarrow> wr hex_buffer (copy_index + 1) (CHR 0x0A);
                   hex_buffer \<leftarrow> wr hex_buffer (copy_index + 2) NUL;
                   Some (True, True, buffer_index, hex_buffer)
                 } else Some (True, False, buffer_index, hex_buffer)
               } } of
       None \<Rightarrow> Some undefined_behaviour
     | Some (again, full, buffer_index, hex_buffer) \<Rightarrow>
         if full then then_run (debug_print_string d (Some hex_buffer) s) (\<lambda>s. returns (again, 0, hex_buffer, s))
         else returns (again, buffer_index, hex_buffer, s))"

primrec hex_loop ::
    "'u uart_driver \<Rightarrow> bytes \<Rightarrow> u32 \<Rightarrow> nat list \<Rightarrow> u32 \<times> string \<times> ('u, 'z) debug_state_scheme
      \<Rightarrow> ('u, 'z) debug_state_scheme run" where
  "hex_loop d buffer len [] = (\<lambda>(k, b, s). returns s)"
| "hex_loop d buffer len (i # is) = (\<lambda>st.
     then_run (hex_step d buffer len i st)
       (\<lambda>(again, st). if again then hex_loop d buffer len is st else returns (snd (snd st))))"

definition debug_print_hex ::
    "'u uart_driver \<Rightarrow> bytes \<Rightarrow> u32 \<Rightarrow> string ptr \<Rightarrow> ('u, 'z) debug_state_scheme
      \<Rightarrow> ('u, 'z) debug_state_scheme run" where
  "debug_print_hex d buffer len prefix s =
     (if \<not> debug_print_initialized s then returns s
      else then_run (case prefix of None \<Rightarrow> returns s | Some p \<Rightarrow> debug_print_string d (Some p) s) (\<lambda>s.
        then_run (hex_loop d buffer len [0..<unat len] (0, local_chars 64, s)) (\<lambda>s.
          if len > 0 \<and> len mod 16 \<noteq> 0 then debug_print_string d (Some (c_string crlf)) s else returns s)))"

definition newlib_write ::
    "'u uart_driver \<Rightarrow> string ptr \<Rightarrow> int \<Rightarrow> ('u, 'z) debug_state_scheme
      \<Rightarrow> (int \<times> ('u, 'z) debug_state_scheme) exec" where
  "newlib_write d p len s =
     (if \<not> debug_print_initialized s then Some (-1, s)
      else if p = NULL \<or> len < 0 then Some (-1, s)
      else do {
        str \<leftarrow> p;
        s \<leftarrow> for_each [0..<nat len] (\<lambda>i s. do { c \<leftarrow> rd str i; Some (debug_print_char d c s) }) s;
        Some (len, s)
      })"

section \<open>Strings on the wire\<close>

definition print_all ::
    "'u uart_driver \<Rightarrow> string list \<Rightarrow> ('u, 'z) debug_state_scheme \<Rightarrow> ('u, 'z) debug_state_scheme run" where
  "print_all d ts s = for_each_run ts (\<lambda>t. debug_print_string d (Some (c_string t))) s"

lemma print_all_simps [simp]:
  "print_all d [] s = returns s"
  "print_all d (t # ts) s = then_run (debug_print_string d (Some (c_string t)) s) (print_all d ts)"
  by (simp_all add: print_all_def [abs_def])

lemma then_run_assoc: "then_run (then_run m f) g = then_run m (\<lambda>x. then_run (f x) g)"
  by (auto simp: then_run_def split: option.splits)

lemma print_all_append:
  fixes s :: "('u, 'z) debug_state_scheme"
  shows "print_all d (ts @ us) s = then_run (print_all d ts s) (print_all d us)"
proof (induction ts arbitrary: s)
  case (Cons t ts)
  then have "print_all d (ts @ us) = (\<lambda>x :: ('u, 'z) debug_state_scheme. then_run (print_all d ts x) (print_all d us))"
    by (simp add: fun_eq_iff)
  then show ?case
    by (simp add: then_run_assoc)
qed simp

lemma debug_print_string_off [simp]:
  "\<not> debug_print_initialized s \<Longrightarrow> debug_print_string d str s = returns s"
  by (subst debug_print_string.simps) simp

lemma print_all_off [simp]: "\<not> debug_print_initialized s \<Longrightarrow> print_all d ts s = returns s"
  by (induction ts) simp_all

text \<open>What lies behind the terminating zero does not matter.\<close>

lemma debug_print_string_terminated:
  "NUL \<notin> set t \<Longrightarrow> debug_print_string d (Some (t @ NUL # rest)) s = debug_print_string d (Some (c_string t)) s"
  by (subst (1 2) debug_print_string.simps) (simp add: c_string_def)

lemma uart_send_keeps:
  "uart_send d t s = (r, s') \<Longrightarrow>
     debug_print_initialized s' = debug_print_initialized s \<and> debug_print_buffer s' = debug_print_buffer s"
  by (auto simp: uart_send_def split: prod.splits)

lemma wait_keeps:
  "debug_print_wait_transmit_complete d n s = (r, s') \<Longrightarrow>
     debug_print_initialized s' = debug_print_initialized s \<and> debug_print_buffer s' = debug_print_buffer s"
  by (auto simp: debug_print_wait_transmit_complete_def Let_def split: prod.splits)

lemma debug_print_string_keeps:
  assumes "debug_print_string d str s = Some r" and "r = Some s'"
  shows "debug_print_initialized s' = debug_print_initialized s \<and> debug_print_buffer s' = debug_print_buffer s"
  using assms
proof (induction d str s r arbitrary: s' rule: debug_print_string.raw_induct [rotated 1, consumes 1])
  case (1 f d str s r)
  from "1.prems" "1.hyps" show ?case
    by (auto simp: Let_def dest!: uart_send_keeps wait_keeps "1.IH"
        split: if_splits option.splits prod.splits)
qed

section \<open>Hex lines\<close>

definition hex_text :: "bytes \<Rightarrow> string" where
  "hex_text vs = concat (map (\<lambda>v. hex_pad 2 (unat v) @ '' '') vs)"

fun hex_lines :: "bytes \<Rightarrow> bytes \<Rightarrow> bytes list" where
  "hex_lines l [] = (if l = [] then [] else [l])"
| "hex_lines l (v # vs) = (if length l = 15 then (l @ [v]) # hex_lines [] vs else hex_lines (l @ [v]) vs)"

lemma hex_text_simps [simp]:
  "hex_text [] = []" "hex_text (vs @ ws) = hex_text vs @ hex_text ws" "hex_text [v] = hex_pad 2 (unat v) @ '' ''"
  by (simp_all add: hex_text_def)

lemma length_hex_text [simp]: "length (hex_text vs) = 3 * length vs"
  by (induction vs) (simp_all add: hex_text_def)

lemma NUL_hex_text [simp]: "NUL \<notin> set (hex_text vs)"
  by (auto simp: hex_text_def)

text \<open>The line buffer while a line is filled: the text of the bytes of the line so far.\<close>

definition line_buffer :: "bytes \<Rightarrow> string \<Rightarrow> bool" where
  "line_buffer l b \<longleftrightarrow> length b = 64 \<and> take (3 * length l) b = hex_text l"

lemma hex_write:
  assumes "line_buffer l b" and "length l < 16"
  shows "\<exists>b'. snprintf b (3 * length l) (64 - of_nat (3 * length l)) (hex_pad 2 (unat v) @ '' '') = Some (3, b')
     \<and> line_buffer (l @ [v]) b'"
proof -
  have b: "length b = 64" "take (3 * length l) b = hex_text l"
    using assms(1) by (simp_all add: line_buffer_def)
  have sz: "unat (64 - of_nat (3 * length l) :: u32) = 64 - 3 * length l"
    using assms(2) unat_of_nat_u32 [of "64 - 3 * length l"] by (simp add: of_nat_diff)
  then have "0 < unat (64 - of_nat (3 * length l) :: u32)"
    using assms(2) by linarith
  then have nz: "64 - of_nat (3 * length l) \<noteq> (0 :: u32)"
    by (simp only: unat_gt_0 not_False_eq_True)
  let ?t = "hex_pad 2 (unat v) @ '' ''"
  have "take (unat (64 - of_nat (3 * length l) :: u32) - 1) ?t = ?t"
    using assms(2) by (simp only: sz) simp
  moreover have "wr_block b (3 * length l) (c_string ?t) = Some (hex_text l @ c_string ?t @ drop (3 * length l + 4) b)"
    using b assms(2) by (simp add: wr_block_def)
  ultimately have "snprintf b (3 * length l) (64 - of_nat (3 * length l)) ?t
      = Some (3, hex_text l @ c_string ?t @ drop (3 * length l + 4) b)"
    using nz by (simp only: snprintf_def) simp
  moreover have "line_buffer (l @ [v]) (hex_text l @ c_string ?t @ drop (3 * length l + 4) b)"
    using b assms(2) by (simp add: line_buffer_def c_string_def)
  ultimately show ?thesis by blast
qed


lemma hex_step_runs:
  assumes "line_buffer l b" and "length l = i mod 16" and "i < length data"
  shows "\<exists>b'. line_buffer (l @ [data ! i]) b' \<and>
    hex_step d data len i (of_nat (3 * length l), b, s) =
      (if length l = 15 \<or> of_nat i = len - 1
       then then_run (debug_print_string d (Some (c_string (hex_text (l @ [data ! i]) @ crlf))) s)
              (\<lambda>s. returns (True, 0, b', s))
       else returns (True, of_nat (3 * length (l @ [data ! i])), b', s))"
proof -
  have small: "length l < 16"
    using assms(2) by simp
  obtain b1 where b1:
    "snprintf b (3 * length l) (64 - of_nat (3 * length l)) (hex_pad 2 (unat (data ! i)) @ '' '') = Some (3, b1)"
    and line: "line_buffer (l @ [data ! i]) b1"
    using hex_write [OF assms(1) small] by blast
  define k where
    "k = 3 * length (l @ [data ! i])"
  have k: "k \<le> 48" "unat (of_nat k :: u32) = k" "unat (of_nat (3 * length l) :: u32) = 3 * length l"
    using small unat_of_nat_u32 [of k] unat_of_nat_u32 [of "3 * length l"] by (simp_all add: k_def)
  have step_k: "of_nat (3 * length l) + of_int 3 = (of_nat k :: u32)"
    by (simp add: k_def)
  have not_full: "\<not> of_nat k \<ge> (64 - 6 :: u32)"
    using k by (simp add: word_le_nat_alt)
  have len: "length b1 = 64" "take k b1 = hex_text (l @ [data ! i])"
    using line by (simp_all add: line_buffer_def k_def)
  let ?b = "hex_text (l @ [data ! i]) @ crlf @ NUL # drop (k + 3) b1"
  have stored: "(wr b1 k (CHR 0x0D) \<bind> (\<lambda>h. wr h (Suc k) (CHR 0x0A) \<bind> (\<lambda>h. wr h (Suc (Suc k)) NUL \<bind> K)))
      = K ?b" (is "?w = _") for K :: "string \<Rightarrow> (bool \<times> bool \<times> u32 \<times> string) exec"
  proof -
    have "?w = (wr_block b1 k (crlf @ [NUL]) \<bind> K)"
      by (simp add: wr_as_block wr_block_bind_merge wr_block_merge crlf_def)
    also have "\<dots> = K ?b"
      using len k(1) by (simp add: wr_block_def)
    finally show ?thesis .
  qed
  have full: "line_buffer (l @ [data ! i]) ?b"
    using len k by (simp add: line_buffer_def k_def crlf_def)
  have printed: "debug_print_string d (Some ?b) s = debug_print_string d (Some (c_string (hex_text (l @ [data ! i]) @ crlf))) s"
    using debug_print_string_terminated [of "hex_text (l @ [data ! i]) @ crlf"] by simp
  have run: "hex_step d data len i (of_nat (3 * length l), b, s) =
      (if length l = 15 \<or> of_nat i = len - 1
       then then_run (debug_print_string d (Some ?b) s) (\<lambda>s. returns (True, 0, ?b, s))
       else returns (True, of_nat k, b1, s))"
  proof -
    define j where "j = (of_nat (3 * length l) :: u32)"
    have j: "snprintf b (unat j) (64 - j) (hex_pad 2 (unat (data ! i)) @ '' '') = Some (3, b1)"
        "j + of_int 3 = of_nat k"
      using b1 step_k by (simp_all only: j_def k(3))
    have "(i mod 16 = 15) = (length l = 15)"
      using assms(2) by simp
    then show ?thesis
      unfolding hex_step_def prod.case j_def [symmetric] using assms(3) not_full stored
      by (simp add: rd_Some j [simplified] k(2))
  qed
  show ?thesis
  proof (cases "length l = 15 \<or> of_nat i = len - 1")
    case True
    then show ?thesis using full run printed by (intro exI [of _ ?b]) simp
  next
    case False
    then show ?thesis using line run by (intro exI [of _ b1]) (simp add: k_def)
  qed
qed


lemma last_index:
  assumes "i < unat len"
  shows "of_nat i = (len :: u32) - 1 \<longleftrightarrow> Suc i = unat len"
proof -
  have "unat (len - 1) = unat len - 1" "unat (of_nat i :: u32) = i"
    using assms unat_of_nat_u32 [of i] unat_u32_bound [of len] unat_pred_u32 [of "unat len"] by simp_all
  then have "of_nat i = len - 1 \<longleftrightarrow> i = unat len - 1"
    by (metis word_unat_eq_iff)
  then show ?thesis using assms by auto
qed

lemma hex_loop_prints:
  fixes s :: "('u, 'z) debug_state_scheme"
  assumes "line_buffer l b" and "i < unat len \<Longrightarrow> length l = i mod 16" and "i = unat len \<Longrightarrow> l = []"
    and "i \<le> unat len" and "unat len \<le> length data"
  shows "hex_loop d data len [i..<unat len] (of_nat (3 * length l), b, s) =
    print_all d (map (\<lambda>l. hex_text l @ crlf) (hex_lines l (drop i (take (unat len) data)))) s"
  using assms
proof (induction "unat len - i" arbitrary: i l b s)
  case 0
  then show ?case by simp
next
  case (Suc m)
  then have i: "i < unat len" "i < length data" "length l = i mod 16" by simp_all
  define v where "v = data ! i"
  have upt: "[i..<unat len] = i # [Suc i..<unat len]" and
    rest: "drop i (take (unat len) data) = v # drop (Suc i) (take (unat len) data)"
    using i by (simp_all add: upt_conv_Cons v_def Cons_nth_drop_Suc [symmetric])
  obtain b' where b': "line_buffer (l @ [v]) b'" and
    step: "hex_step d data len i (of_nat (3 * length l), b, s) =
      (if length l = 15 \<or> Suc i = unat len
       then then_run (debug_print_string d (Some (c_string (hex_text (l @ [v]) @ crlf))) s) (\<lambda>s. returns (True, 0, b', s))
       else returns (True, of_nat (3 * length (l @ [v])), b', s))"
    using hex_step_runs [OF Suc.prems(1) i(3) i(2)] last_index [OF i(1)] unfolding v_def by metis
  have empty: "line_buffer [] b'" using b' by (simp add: line_buffer_def)
  show ?case
  proof (cases "length l = 15 \<or> Suc i = unat len")
    case True
    have "hex_loop d data len [Suc i..<unat len] (of_nat (3 * length ([] :: bytes)), b', s') =
        print_all d (map (\<lambda>l. hex_text l @ crlf) (hex_lines [] (drop (Suc i) (take (unat len) data)))) s'"
      for s' :: "('u, 'z) debug_state_scheme"
    proof (rule Suc.hyps(1))
      show "Suc i < unat len \<Longrightarrow> length ([] :: bytes) = Suc i mod 16"
        using True i(3) by (auto simp: mod_Suc)
    qed (use Suc empty in simp_all)
    then have tail: "(\<lambda>s' :: ('u, 'z) debug_state_scheme. hex_loop d data len [Suc i..<unat len] (0, b', s')) =
        print_all d (map (\<lambda>l. hex_text l @ crlf) (hex_lines [] (drop (Suc i) (take (unat len) data))))"
      by (simp add: fun_eq_iff)
    have lines: "hex_lines l (v # drop (Suc i) (take (unat len) data)) =
        (l @ [v]) # hex_lines [] (drop (Suc i) (take (unat len) data))"
      using True by auto
    show ?thesis
      using True by (simp only: upt rest lines hex_loop.simps step) (simp add: then_run_assoc tail)
  next
    case False
    then have "hex_loop d data len [Suc i..<unat len] (of_nat (3 * length (l @ [v])), b', s) =
        print_all d (map (\<lambda>l. hex_text l @ crlf) (hex_lines (l @ [v]) (drop (Suc i) (take (unat len) data)))) s"
      using Suc b' i by (intro Suc.hyps(1)) (auto simp: mod_Suc)
    then show ?thesis
      using False by (simp only: upt rest hex_loop.simps step) simp
  qed
qed

text \<open>The texts of a dump: the prefix, a line for each 16 bytes, and an empty line when the last line is
  short.\<close>

fun chunks16 :: "bytes \<Rightarrow> bytes list" where
  "chunks16 vs = (if vs = [] then [] else take 16 vs # chunks16 (drop 16 vs))"

declare chunks16.simps [simp del]

definition dump_texts :: "string ptr \<Rightarrow> bytes \<Rightarrow> string list" where
  "dump_texts prefix vs =
     (case prefix of None \<Rightarrow> [] | Some p \<Rightarrow> [p]) @ map (\<lambda>l. hex_text l @ crlf) (chunks16 vs) @
     (if length vs mod 16 = 0 then [] else [crlf])"

lemma print_all_Nil [simp]: "print_all d [] = (\<lambda>s. returns s)"
  by (simp add: fun_eq_iff)

lemma hex_lines_chunks: "length l < 16 \<Longrightarrow> hex_lines l vs = chunks16 (l @ vs)"
proof (induction l vs rule: hex_lines.induct)
  case (1 l)
  then show ?case by (simp add: chunks16.simps [of l] chunks16.simps [of "[]"])
next
  case (2 l v vs)
  then show ?case
    by (cases "length l = 15") (simp_all add: chunks16.simps [of "l @ v # vs"])
qed

section \<open>Transmissions that do not complete\<close>

lemma wait_timeout:
  "wait_loop d k m u = (False, u') \<Longrightarrow> \<forall>u. fst (Uart_GetStatus d u) \<noteq> UART_STATUS_OTHER \<Longrightarrow>
     \<exists>u0. Uart_GetStatus d u0 = (UART_STATUS_OPERATION_ONGOING, u')"
proof (induction d k m u rule: wait_loop.induct)
  case (1 d k m u)
  obtain st v where st: "Uart_GetStatus d u = (st, v)" by fastforce
  have "st \<noteq> UART_STATUS_OTHER"
    using "1.prems"(2) st by (metis fst_conv)
  then show ?case
    using "1.prems" st "1.IH" [OF st [symmetric]]
    by (cases st) (auto simp: wait_loop.simps [of d k m u] split: if_splits)
qed

lemma wait_never_completes:
  "\<forall>u. fst (Uart_GetStatus d u) \<noteq> UART_STATUS_NO_ERROR \<Longrightarrow> \<not> fst (wait_loop d k m u)"
proof (induction d k m u rule: wait_loop.induct)
  case (1 d k m u)
  obtain st v where st: "Uart_GetStatus d u = (st, v)" by fastforce
  then have "st \<noteq> UART_STATUS_NO_ERROR"
    using "1.prems" by (metis fst_conv)
  then show ?case
    using "1.prems" st "1.IH" [OF st [symmetric]]
    by (cases st) (auto simp: wait_loop.simps [of d k m u] Let_def)
qed

section \<open>Properties\<close>

text \<open>Three drivers for the examples: one that records what it sends and is always ready, one that accepts a
  transmission and stays busy, and one that accepts everything and always fails.\<close>

definition idle_uart :: "string uart_driver" where
  "idle_uart = \<lparr>Uart_Init = id, Uart_AsyncSend = (\<lambda>t u. (E_OK, u @ t)), Uart_GetStatus = (\<lambda>u. (UART_STATUS_NO_ERROR, u))\<rparr>"

definition stuck_uart :: "bool uart_driver" where
  "stuck_uart =
     \<lparr>Uart_Init = id, Uart_AsyncSend = (\<lambda>t busy. (if busy then E_NOT_OK else E_OK, True)),
      Uart_GetStatus = (\<lambda>busy. (if busy then UART_STATUS_OPERATION_ONGOING else UART_STATUS_NO_ERROR, busy))\<rparr>"

definition failing_uart :: "unit uart_driver" where
  "failing_uart = \<lparr>Uart_Init = id, Uart_AsyncSend = (\<lambda>t u. (E_OK, u)), Uart_GetStatus = (\<lambda>u. (UART_STATUS_OTHER, u))\<rparr>"

definition sample_debug :: "'u \<Rightarrow> 'u debug_state" where
  "sample_debug u = \<lparr>debug_print_buffer = local_chars 256, debug_print_initialized = True, uart = u\<rparr>"

lemma strlen_total: "\<exists>n. strlen (t @ NUL # rest) = Some n"
  by (induction t) auto

text \<open>C40. \<open>debug_print_hex\<close> prints, for every driver, exactly the texts of the dump in order: the prefix,
  a line of hexadecimal values for each 16 bytes, and an empty line when the last line is short. It
  never writes outside its line buffer of 64 characters and reads the given bytes only.\<close>

theorem hex_dump_prints_lines:
  assumes "unat len \<le> length data"
  shows "debug_print_hex d data len (map_option c_string prefix) s
    = print_all d (dump_texts prefix (take (unat len) data)) s"
proof (cases "debug_print_initialized s")
  case True
  have short: "len mod 16 \<noteq> 0 \<longleftrightarrow> unat len mod 16 \<noteq> 0"
    by (simp add: word_unat_eq_iff unat_mod)
  have loop: "hex_loop d data len [0..<unat len] (0, local_chars 64, s') =
      print_all d (map (\<lambda>l. hex_text l @ crlf) (chunks16 (take (unat len) data))) s'" for s' :: "('a, 'b) debug_state_scheme"
    using hex_loop_prints [of "[]" "local_chars 64" 0 len data d s'] assms(1)
    by (simp add: line_buffer_def local_chars_def hex_lines_chunks)
  have last: "(if len > 0 \<and> len mod 16 \<noteq> 0 then debug_print_string d (Some (c_string crlf)) s' else returns s')
      = print_all d (if length (take (unat len) data) mod 16 = 0 then [] else [crlf]) s'" for s' :: "('a, 'b) debug_state_scheme"
    using assms(1) short by (auto simp: word_less_nat_alt)
  show ?thesis
    unfolding debug_print_hex_def dump_texts_def print_all_append loop last
    using True by (cases prefix) simp_all
next
  case False
  then show ?thesis by (simp add: debug_print_hex_def)
qed


theorem hex_dump_prints_lines_witness:
  "debug_print_hex idle_uart [0xDE, 0xAD] 2 (Some (c_string ''RX '')) (sample_debug []) =
     print_all idle_uart [''RX '', ''DE AD '' @ crlf, crlf] (sample_debug [])"
  using hex_dump_prints_lines [of 2 "[0xDE, 0xAD]" idle_uart "Some ''RX ''" "sample_debug []"]
  by (simp add: dump_texts_def chunks16.simps hex_text_def hex_pad_def hex_digits.simps hex_digit_def)

text \<open>With a driver that refuses a new transmission while one is in progress, and that reports no other
  error, \<open>debug_print_string\<close> returns: after a timeout it calls itself once, and that call finds the
  driver busy.\<close>

lemma debug_print_string_returns:
  assumes "\<forall>u. fst (Uart_GetStatus d u) \<noteq> UART_STATUS_OTHER"
    and "\<forall>u t. fst (Uart_GetStatus d u) = UART_STATUS_OPERATION_ONGOING \<longrightarrow>
           fst (Uart_AsyncSend d t (snd (Uart_GetStatus d u))) = E_NOT_OK"
  shows "\<exists>s'. debug_print_string d (Some (c_string t)) s = returns s'"
proof (cases "debug_print_initialized s")
  case True
  obtain n where n: "strlen (c_string t) = Some n"
    using strlen_total [of t "[]"] by (auto simp: c_string_def)
  obtain m where m: "strlen tx_timeout_text = Some m"
    using strlen_total [of "''DEBUG_PRINT: TX timeout'' @ crlf" "[]"] by (auto simp: tx_timeout_text_def c_string_def)
  obtain r s1 where s1: "uart_send d (take n (c_string t)) s = (r, s1)" by fastforce
  obtain complete s2 where s2: "debug_print_wait_transmit_complete d 100000 s1 = (complete, s2)" by fastforce
  have "\<exists>s'. debug_print_string d (Some tx_timeout_text) s2 = returns s'" if timeout: "\<not> complete"
  proof -
    obtain u where "wait_loop d 0 (unat (100000 div 10 :: u32)) (uart s1) = (False, u)" "uart s2 = u"
      using s2 timeout by (auto simp: debug_print_wait_transmit_complete_def Let_def split: prod.splits)
    then obtain u0 where "Uart_GetStatus d u0 = (UART_STATUS_OPERATION_ONGOING, uart s2)"
      using wait_timeout [OF _ assms(1)] by blast
    then have "fst (Uart_AsyncSend d (take m tx_timeout_text) (uart s2)) = E_NOT_OK"
      using assms(2) by (metis fst_conv snd_conv)
    then have "fst (uart_send d (take m tx_timeout_text) s2) = E_NOT_OK"
      by (simp add: uart_send_def case_prod_beta)
    then show ?thesis
      by (subst debug_print_string.simps) (auto simp: m split: prod.splits)
  qed
  then show ?thesis
    using True n s1 s2 by (subst debug_print_string.simps) auto
qed simp

lemma debug_print_string_no_completion:
  assumes "debug_print_string d str s = Some r"
    and "\<forall>u t. fst (Uart_AsyncSend d t u) = E_OK" and "\<forall>u. fst (Uart_GetStatus d u) \<noteq> UART_STATUS_NO_ERROR"
    and "debug_print_initialized s" and "str = Some (t @ NUL # rest)"
  shows False
  using assms
proof (induction d str s r arbitrary: t rest rule: debug_print_string.raw_induct [rotated 1, consumes 1])
  case (1 f d str s r)
  obtain n where n: "strlen (t @ NUL # rest) = Some n"
    using strlen_total by blast
  obtain s1 where s1: "uart_send d (take n (t @ NUL # rest)) s = (E_OK, s1)"
    using "1.prems"(1) by (metis (mono_tags, lifting) fst_conv uart_send_def case_prod_beta prod.collapse)
  obtain s2 where s2: "debug_print_wait_transmit_complete d 100000 s1 = (False, s2)"
    using wait_never_completes [OF "1.prems"(2), of 0 "unat (100000 div 10 :: u32)" "uart s1"]
    by (cases "wait_loop d 0 (unat (100000 div 10 :: u32)) (uart s1)")
      (simp add: debug_print_wait_transmit_complete_def Let_def)
  have "f d (Some tx_timeout_text) s2 = Some r"
    using "1.hyps" "1.prems"(3,4) n s1 s2 by simp
  moreover have "debug_print_initialized s2"
    using uart_send_keeps [OF s1] wait_keeps [OF s2] "1.prems"(3) by simp
  moreover have "Some tx_timeout_text = Some ((''DEBUG_PRINT: TX timeout'' @ crlf) @ NUL # [])"
    by (simp add: tx_timeout_text_def c_string_def)
  ultimately show ?case
    by (rule "1.IH" [OF _ "1.prems"(1,2)])
qed

text \<open>A driver that accepts every transmission and never reports one as complete makes
  \<open>debug_print_string\<close> call itself without end, on every call.\<close>

lemma debug_print_string_recurses_forever:
  assumes "\<forall>u t. fst (Uart_AsyncSend d t u) = E_OK" and "\<forall>u. fst (Uart_GetStatus d u) \<noteq> UART_STATUS_NO_ERROR"
    and "debug_print_initialized s"
  shows "debug_print_string d (Some (c_string t)) s = never_returns"
  using debug_print_string_no_completion [OF _ assms, of "Some (c_string t)" _ t "[]"]
  by (cases "debug_print_string d (Some (c_string t)) s") (auto simp: c_string_def)

end
