(* ===== verification/DoIP_Log.thy ===== *)
theory DoIP_Log
  imports Debug_Print
begin

text \<open>
  The log of the application (\<^verbatim>\<open>src/src/doip/doip_log.c\<close>). The macro \<^verbatim>\<open>USE_FREERTOS\<close> that selects the log
  mutex and the time stamps is defined nowhere in the repository, so that neither is compiled: the model
  is the code without them. An output function of the application acts on the state of the
  debug output. A message is the text its format and arguments stand for.
\<close>

section \<open>Data\<close>

datatype doip_log_level_t =
  DOIP_LOG_LEVEL_ERROR | DOIP_LOG_LEVEL_WARN | DOIP_LOG_LEVEL_INFO | DOIP_LOG_LEVEL_DEBUG | DOIP_LOG_LEVEL_TRACE

fun level_number :: "doip_log_level_t \<Rightarrow> nat" where
  "level_number DOIP_LOG_LEVEL_ERROR = 0"
| "level_number DOIP_LOG_LEVEL_WARN = 1"
| "level_number DOIP_LOG_LEVEL_INFO = 2"
| "level_number DOIP_LOG_LEVEL_DEBUG = 3"
| "level_number DOIP_LOG_LEVEL_TRACE = 4"

text \<open>The levels are ordered by their numbers, as the comparisons of the code read them.\<close>

instantiation doip_log_level_t :: linorder
begin

definition less_eq_doip_log_level_t :: "doip_log_level_t \<Rightarrow> doip_log_level_t \<Rightarrow> bool" where
  "a \<le> b \<longleftrightarrow> level_number a \<le> level_number b"

definition less_doip_log_level_t :: "doip_log_level_t \<Rightarrow> doip_log_level_t \<Rightarrow> bool" where
  "a < b \<longleftrightarrow> level_number a < level_number b"

instance
proof
  fix a b :: doip_log_level_t
  show "a \<le> b \<Longrightarrow> b \<le> a \<Longrightarrow> a = b"
    by (cases a; cases b) (simp_all add: less_eq_doip_log_level_t_def)
qed (auto simp: less_eq_doip_log_level_t_def less_doip_log_level_t_def)

end

record 'u doip_log_config_t =
  min_level :: doip_log_level_t
  output_func :: "(string \<Rightarrow> 'u debug_state \<Rightarrow> 'u debug_state run) ptr"
  timestamp_enabled :: bool
  color_enabled :: bool

record 'u log_state =
  g_log_config :: "'u doip_log_config_t"
  debug_out :: "'u debug_state"

fun level_string :: "doip_log_level_t \<Rightarrow> string" where
  "level_string DOIP_LOG_LEVEL_ERROR = ''ERROR''"
| "level_string DOIP_LOG_LEVEL_WARN = ''WARN ''"
| "level_string DOIP_LOG_LEVEL_INFO = ''INFO ''"
| "level_string DOIP_LOG_LEVEL_DEBUG = ''DEBUG''"
| "level_string DOIP_LOG_LEVEL_TRACE = ''TRACE''"

definition ansi :: "string \<Rightarrow> string" where
  "ansi code = CHR 0x1B # CHR 0x5B # code @ ''m''"

fun level_color :: "doip_log_level_t \<Rightarrow> string" where
  "level_color DOIP_LOG_LEVEL_ERROR = ansi ''31''"
| "level_color DOIP_LOG_LEVEL_WARN = ansi ''33''"
| "level_color DOIP_LOG_LEVEL_INFO = ansi ''32''"
| "level_color DOIP_LOG_LEVEL_DEBUG = ansi ''36''"
| "level_color DOIP_LOG_LEVEL_TRACE = ansi ''0''"

section \<open>Operations\<close>

definition doip_log_init :: "'u doip_log_config_t ptr \<Rightarrow> 'u log_state \<Rightarrow> 'u log_state" where
  "doip_log_init cfg s = (case cfg of None \<Rightarrow> s | Some c \<Rightarrow> s\<lparr>g_log_config := c\<rparr>)"

text \<open>\<open>%s\<close> of a character array: the text before its first zero.\<close>

definition text_of :: "string \<Rightarrow> string exec" where
  "text_of p = do { n \<leftarrow> strlen p; Some (take n p) }"

definition default_output :: "'u uart_driver \<Rightarrow> string \<Rightarrow> 'u debug_state \<Rightarrow> 'u debug_state run" where
  "default_output d message w =
     (case text_of message of None \<Rightarrow> Some undefined_behaviour | Some t \<Rightarrow> debug_print d t w)"

text \<open>\<open>offset += snprintf(&buffer[offset], sizeof(buffer) - (uint32_t)offset, ...)\<close>\<close>

definition put_text :: "string \<Rightarrow> int \<times> string \<Rightarrow> (int \<times> string) exec" where
  "put_text t = (\<lambda>(offset, buffer). do {
     i \<leftarrow> idx offset;
     (n, buffer) \<leftarrow> snprintf buffer i (256 - of_int offset) t;
     Some (offset + n, buffer)
   })"

definition doip_log_line :: "bool \<Rightarrow> doip_log_level_t \<Rightarrow> string \<Rightarrow> string \<Rightarrow> string exec" where
  "doip_log_line color level tag message = do {
     let st = (0, local_chars 256);
     st \<leftarrow> (if color then put_text (level_color level) st else Some st);
     st \<leftarrow> put_text (''['' @ level_string level @ ''] ['' @ tag @ ''] '') st;
     st \<leftarrow> put_text message st;
     st \<leftarrow> (if color then put_text (ansi ''0'') st else Some st);
     st \<leftarrow> put_text crlf st;
     Some (snd st)
   }"

definition doip_log_message ::
    "'u uart_driver \<Rightarrow> doip_log_level_t \<Rightarrow> string \<Rightarrow> string \<Rightarrow> 'u log_state \<Rightarrow> 'u log_state run" where
  "doip_log_message d level tag message s =
     (if level > min_level (g_log_config s) then returns s
      else (case doip_log_line (color_enabled (g_log_config s)) level tag message of
          None \<Rightarrow> Some undefined_behaviour
        | Some buffer \<Rightarrow>
            then_run (case output_func (g_log_config s) of
                        None \<Rightarrow> default_output d buffer (debug_out s)
                      | Some f \<Rightarrow> f buffer (debug_out s))
              (\<lambda>w. returns (s\<lparr>debug_out := w\<rparr>))))"

text \<open>One row of \<open>doip_log_hex_dump\<close>: the two local buffers are filled byte by byte.\<close>

definition hex_dump_byte ::
    "bytes \<Rightarrow> u32 \<Rightarrow> u32 \<Rightarrow> nat \<Rightarrow> int \<times> string \<times> int \<times> string \<Rightarrow> (int \<times> string \<times> int \<times> string) exec" where
  "hex_dump_byte data len i j = (\<lambda>(hex_offset, hex_buffer, ascii_offset, ascii_buffer).
     if i + of_nat j < len then do {
       v \<leftarrow> rd data (unat (i + of_nat j));
       at \<leftarrow> idx hex_offset;
       (n, hex_buffer) \<leftarrow> snprintf hex_buffer at (128 - of_int hex_offset) (hex_pad 2 (unat v) @ '' '');
       k \<leftarrow> idx ascii_offset;
       ascii_buffer \<leftarrow> wr ascii_buffer k (if 32 \<le> v \<and> v \<le> 126 then char_of (unat v) else CHR ''.'');
       Some (hex_offset + n, hex_buffer, ascii_offset + 1, ascii_buffer)
     } else do {
       at \<leftarrow> idx hex_offset;
       (n, hex_buffer) \<leftarrow> snprintf hex_buffer at (128 - of_int hex_offset) ''   '';
       Some (hex_offset + n, hex_buffer, ascii_offset, ascii_buffer)
     })"

definition hex_dump_row :: "bytes \<Rightarrow> u32 \<Rightarrow> u32 \<Rightarrow> string exec" where
  "hex_dump_row data len i = do {
     (hex_offset, hex_buffer) \<leftarrow> snprintf (local_chars 128) 0 128 (hex_pad 4 (unat i) @ '': '');
     (hex_offset, hex_buffer, ascii_offset, ascii_buffer) \<leftarrow>
       for_each [0..<16] (hex_dump_byte data len i) (hex_offset, hex_buffer, 0, local_chars 32);
     k \<leftarrow> idx ascii_offset;
     ascii_buffer \<leftarrow> wr ascii_buffer k NUL;
     h \<leftarrow> text_of hex_buffer;
     a \<leftarrow> text_of ascii_buffer;
     Some (h @ '' | '' @ a)
   }"

text \<open>The loop over the rows: \<open>i += 16\<close> wraps, so that the loop is a partial function.\<close>

partial_function (option) hex_dump_rows ::
    "'u uart_driver \<Rightarrow> doip_log_level_t \<Rightarrow> string \<Rightarrow> bytes \<Rightarrow> u32 \<Rightarrow> u32 \<Rightarrow> 'u log_state \<Rightarrow> 'u log_state run" where
  "hex_dump_rows d level tag data len i s =
     (if i < len then
        (case hex_dump_row data len i of
           None \<Rightarrow> Some undefined_behaviour
         | Some row \<Rightarrow>
             (case doip_log_message d level tag row s of
                None \<Rightarrow> never_returns
              | Some None \<Rightarrow> Some undefined_behaviour
              | Some (Some s) \<Rightarrow> hex_dump_rows d level tag data len (i + 16) s))
      else returns s)"

definition doip_log_hex_dump ::
    "'u uart_driver \<Rightarrow> doip_log_level_t \<Rightarrow> string \<Rightarrow> bytes ptr \<Rightarrow> u32 \<Rightarrow> 'u log_state \<Rightarrow> 'u log_state run" where
  "doip_log_hex_dump d level tag data len s =
     (if level > min_level (g_log_config s) then returns s
      else (case data of
          None \<Rightarrow> returns s
        | Some p \<Rightarrow>
            then_run (doip_log_message d level tag (''Hex dump ('' @ dec_digits (unat len) @ '' bytes):'') s)
              (hex_dump_rows d level tag p len 0)))"

section \<open>The line buffer\<close>

lemma put_text_appends:
  assumes "holds_text b 256 t" and "length t \<le> 256"
  shows "\<exists>b'. put_text u (int (length t), b) = Some (int (length (t @ u)), b') \<and> holds_text b' 256 (t @ u)"
  using snprintf_appends [OF assms, of u] by (auto simp: put_text_def)

lemma put_text_past_end:
  "length b = 256 \<Longrightarrow> 256 < length t \<Longrightarrow> length t < 2 ^ 31 \<Longrightarrow> put_text u (int (length t), b) = undefined_behaviour"
  using snprintf_past_end [of b 256 t u] by (simp add: put_text_def)

lemma put_texts:
  assumes "holds_text b 256 t" and "length t \<le> 256" and "length (t @ concat ts) < 2 ^ 31" and "ts \<noteq> []"
  shows "if length (t @ concat (butlast ts)) \<le> 256
    then \<exists>b'. for_each ts put_text (int (length t), b) = Some (int (length (t @ concat ts)), b') \<and> holds_text b' 256 (t @ concat ts)
    else for_each ts put_text (int (length t), b) = undefined_behaviour"
  using assms
proof (induction ts arbitrary: t b)
  case IH: (Cons u ts)
  obtain b' where b': "put_text u (int (length t), b) = Some (int (length (t @ u)), b')" "holds_text b' 256 (t @ u)"
    using put_text_appends [OF IH.prems(1,2)] by blast
  then have step: "for_each (u # ts) put_text (int (length t), b) = for_each ts put_text (int (length (t @ u)), b')"
    by simp
  show ?case
  proof (cases ts)
    case Nil
    then show ?thesis using b' IH.prems(2) by simp
  next
    case (Cons v vs)
    then have ne: "ts \<noteq> []" by simp
    show ?thesis
    proof (cases "length (t @ u) \<le> 256")
      case True
      then show ?thesis
        using IH.IH [OF b'(2) True] IH.prems(3) ne by (simp add: step del: for_each.simps split: if_splits)
    next
      case False
      then have "put_text v (int (length (t @ u)), b') = undefined_behaviour"
        using b'(2) IH.prems(3) by (intro put_text_past_end) (auto simp: holds_text_def)
      then show ?thesis
        using False Cons b'(1) by simp
    qed
  qed
qed simp

definition log_texts :: "bool \<Rightarrow> doip_log_level_t \<Rightarrow> string \<Rightarrow> string \<Rightarrow> string list" where
  "log_texts color level tag message =
     (if color then [level_color level] else []) @
     [''['' @ level_string level @ ''] ['' @ tag @ ''] '', message] @
     (if color then [ansi ''0''] else [])"

lemma doip_log_line_texts:
  "doip_log_line color level tag message
     = map_option snd (for_each (log_texts color level tag message @ [crlf]) put_text (0, local_chars 256))"
  by (auto simp: doip_log_line_def log_texts_def split: Option.bind_splits)

lemma text_of_holds:
  assumes "holds_text b n t" and "t \<noteq> []" and "NUL \<notin> set t" and "0 < n"
  shows "text_of b = Some (take (n - 1) t)"
proof -
  define k where "k = min (length t) (n - 1)"
  have k: "k < length b" "take k b = take (n - 1) t" "b ! k = NUL"
    using assms by (auto simp: holds_text_def k_def)
  then have b: "b = take (n - 1) t @ NUL # drop (Suc k) b"
    using id_take_nth_drop [OF k(1)] by metis
  have "NUL \<notin> set (take (n - 1) t)"
    using assms(3) by (meson in_set_takeD)
  then have "strlen b = Some (length (take (n - 1) t))"
    by (subst b) (rule strlen_terminated)
  then show ?thesis
    using k(2) by (simp add: text_of_def k_def)
qed

section \<open>Rows of a hex dump\<close>

definition ascii_text :: "bytes \<Rightarrow> string" where
  "ascii_text vs = map (\<lambda>v. if 32 \<le> v \<and> v \<le> 126 then char_of (unat v) else CHR ''.'') vs"

definition hex_columns :: "bytes \<Rightarrow> nat \<Rightarrow> string" where
  "hex_columns vs j = hex_text (take j vs) @ replicate (3 * (j - length vs)) CHR '' ''"

definition row_text :: "nat \<Rightarrow> bytes \<Rightarrow> string" where
  "row_text i vs = hex_pad 4 i @ '': '' @ hex_columns vs 16 @ '' | '' @ ascii_text vs"

lemma hex_columns_0 [simp]: "hex_columns vs 0 = []"
  by (simp add: hex_columns_def)

lemma hex_columns_Suc:
  "hex_columns vs (Suc j) = hex_columns vs j @ (if j < length vs then hex_pad 2 (unat (vs ! j)) @ '' '' else ''   '')"
  by (auto simp: hex_columns_def take_Suc_conv_app_nth Suc_diff_le replicate_add numeral_3_eq_3 replicate_app_Cons_same)

lemma length_hex_columns [simp]: "length (hex_columns vs j) = 3 * j"
  by (induction j) (simp_all add: hex_columns_Suc)

lemma NUL_hex_columns [simp]: "NUL \<notin> set (hex_columns vs j)"
  by (simp add: hex_columns_def)

lemma NUL_ascii_text [simp]: "NUL \<notin> set (ascii_text vs)"
proof -
  have "NUL \<noteq> char_of (unat v)" if "32 \<le> v" "v \<le> 126" for v :: u8
  proof
    assume eq: "NUL = char_of (unat v)"
    have "(of_char NUL :: nat) = of_char (char_of (unat v))" by (simp only: eq)
    then have "unat v mod 256 = 0" by simp
    moreover have "32 \<le> unat v" "unat v < 256"
      using that by (simp_all add: word_le_nat_alt)
    ultimately show False by simp
  qed
  then show ?thesis unfolding ascii_text_def set_map by (simp add: image_iff)
qed

lemma length_ascii_text [simp]: "length (ascii_text vs) = length vs"
  by (simp add: ascii_text_def)

text \<open>The state of the loop over the 16 columns, after \<open>j\<close> of them.\<close>

definition row_inv :: "nat \<Rightarrow> bytes \<Rightarrow> nat \<Rightarrow> int \<times> string \<times> int \<times> string \<Rightarrow> bool" where
  "row_inv i vs j = (\<lambda>(hex_offset, h, ascii_offset, a).
     let t = hex_pad 4 i @ '': '' @ hex_columns vs j; k = min j (length vs) in
     hex_offset = int (length t) \<and> holds_text h 128 t \<and>
     ascii_offset = int k \<and> length a = 32 \<and> take k a = ascii_text (take j vs))"

lemma hex_dump_byte_step:
  assumes "row_inv (unat i) vs j st" and "j < 16" and "unat i + 16 \<le> 2 ^ 32" and "i < len" and "unat len \<le> length data"
    and "vs = take 16 (drop (unat i) (take (unat len) data))"
  shows "\<exists>st'. hex_dump_byte data len i j st = Some st' \<and> row_inv (unat i) vs (Suc j) st'"
proof -
  obtain ho h ao a where st: "st = (ho, h, ao, a)" by (cases st) auto
  define t where "t = hex_pad 4 (unat i) @ '': '' @ hex_columns vs j"
  define k where "k = min j (length vs)"
  have inv: "ho = int (length t)" "holds_text h 128 t" "ao = int k" "length a = 32" "take k a = ascii_text (take j vs)"
    using assms(1) by (simp_all add: row_inv_def st t_def k_def Let_def)
  have "length (hex_pad 4 (unat i)) \<le> 8"
    using unat_u32_bound [of i] by (intro length_hex_pad) simp_all
  then have t: "length t \<le> 128"
    using assms(2) by (simp add: t_def)
  have pos: "unat (i + of_nat j) = unat i + j"
    using assms(2,3) by (simp add: unat_add_no_wrap unat_of_nat_u32)
  have in_row: "i + of_nat j < len \<longleftrightarrow> j < length vs"
    using assms(2,5,6) pos by (auto simp: word_less_nat_alt)
  obtain u where u: "u = (if j < length vs then hex_pad 2 (unat (vs ! j)) @ '' '' else ''   '')" by simp
  obtain h' where h': "snprintf h (length t) (128 - of_nat (length t)) u = Some (int (length u), h')" "holds_text h' 128 (t @ u)"
    using snprintf_appends [OF inv(2) t, of u] by auto
  have cols: "t @ u = hex_pad 4 (unat i) @ '': '' @ hex_columns vs (Suc j)"
    by (simp add: t_def u hex_columns_Suc)
  show ?thesis
  proof (cases "j < length vs")
    case True
    define c where "c = (if 32 \<le> vs ! j \<and> vs ! j \<le> 126 then char_of (unat (vs ! j)) else CHR ''.'')"
    have byte: "rd data (unat (i + of_nat j)) = Some (vs ! j)"
      using True assms(2,5,6) by (simp add: pos rd_def)
    have "hex_dump_byte data len i j st = Some (int (length (t @ u)), h', int (Suc k), a[k := c])"
      using True in_row byte h'(1) inv assms(2)
      by (simp add: hex_dump_byte_def st u c_def wr_def k_def)
    moreover have "row_inv (unat i) vs (Suc j) (int (length (t @ u)), h', int (Suc k), a[k := c])"
      using True h'(2) inv(4,5) assms(2)
      by (simp add: row_inv_def Let_def cols k_def take_Suc_conv_app_nth ascii_text_def c_def)
    ultimately show ?thesis by blast
  next
    case False
    then have "hex_dump_byte data len i j st = Some (int (length (t @ u)), h', int k, a)"
      using in_row h'(1) inv by (simp add: hex_dump_byte_def st u)
    moreover have "row_inv (unat i) vs (Suc j) (int (length (t @ u)), h', int k, a)"
      using False h'(2) inv(4,5) by (simp add: row_inv_def Let_def cols k_def)
    ultimately show ?thesis by blast
  qed
qed


lemma hex_dump_row_text:
  assumes "unat i + 16 \<le> 2 ^ 32" and "i < len" and "unat len \<le> length data"
  shows "hex_dump_row data len i = Some (row_text (unat i) (take 16 (drop (unat i) (take (unat len) data))))"
proof -
  define vs where "vs = take 16 (drop (unat i) (take (unat len) data))"
  define t where "t = hex_pad 4 (unat i) @ '': ''"
  obtain h where h: "snprintf (local_chars 128) 0 128 t = Some (int (length t), h)" "holds_text h 128 t"
    using snprintf_appends [of "local_chars 128" 128 "[]" t] by (auto simp: holds_text_empty local_chars_def)
  have start: "row_inv (unat i) vs 0 (int (length t), h, 0, local_chars 32)"
    using h(2) by (simp add: row_inv_def t_def ascii_text_def local_chars_def)
  have "\<exists>st. for_each [0..<j] (hex_dump_byte data len i) (int (length t), h, 0, local_chars 32) = Some st
      \<and> row_inv (unat i) vs j st" if "j \<le> 16" for j
    using that
  proof (induction j)
    case 0
    then show ?case using start by simp
  next
    case (Suc j)
    then obtain st where "for_each [0..<j] (hex_dump_byte data len i) (int (length t), h, 0, local_chars 32) = Some st"
        "row_inv (unat i) vs j st" by auto
    then show ?case
      using hex_dump_byte_step [OF _ _ assms vs_def, of j st] Suc.prems by (simp add: for_each_append)
  qed
  then obtain ho h' ao a where run: "for_each [0..<16] (hex_dump_byte data len i) (int (length t), h, 0, local_chars 32)
      = Some (ho, h', ao, a)" and inv: "row_inv (unat i) vs 16 (ho, h', ao, a)"
    by (metis order_refl prod_cases4)
  have vs: "length vs \<le> 16" by (simp add: vs_def)
  have "text_of h' = Some (hex_pad 4 (unat i) @ '': '' @ hex_columns vs 16)"
  proof -
    have "length (hex_pad 4 (unat i)) \<le> 8"
      using unat_u32_bound [of i] by (intro length_hex_pad) simp_all
    then show ?thesis
      using text_of_holds [of h' 128 "hex_pad 4 (unat i) @ '': '' @ hex_columns vs 16"] inv
      by (simp add: row_inv_def Let_def)
  qed
  moreover have "wr a (length vs) NUL = Some (ascii_text vs @ NUL # drop (Suc (length vs)) a)"
    using inv vs by (simp add: row_inv_def Let_def wr_def upd_conv_take_nth_drop)
  moreover have "text_of (ascii_text vs @ NUL # drop (Suc (length vs)) a) = Some (ascii_text vs)"
    by (simp add: text_of_def)
  ultimately show ?thesis
    using inv vs unfolding hex_dump_row_def t_def [symmetric] h(1) vs_def [symmetric]
    by (simp add: run row_text_def row_inv_def Let_def)
qed

fun dump_rows :: "nat \<Rightarrow> bytes \<Rightarrow> string list" where
  "dump_rows i vs = (if vs = [] then [] else row_text i (take 16 vs) # dump_rows (i + 16) (drop 16 vs))"

declare dump_rows.simps [simp del]

lemma hex_dump_rows_log:
  assumes "unat len \<le> length data" and "unat len + 16 \<le> 2 ^ 32"
  shows "hex_dump_rows d level tag data len i s =
    for_each_run (dump_rows (unat i) (drop (unat i) (take (unat len) data))) (doip_log_message d level tag) s"
proof (induction "unat len - unat i" arbitrary: i s rule: less_induct)
  case less
  show ?case
  proof (cases "i < len")
    case True
    then have lt: "unat i < unat len" by (simp add: word_less_nat_alt)
    have pos: "unat (i + 16) = unat i + 16"
      using lt assms(2) by (simp add: unat_add_no_wrap)
    define vs where "vs = drop (unat i) (take (unat len) data)"
    have "vs \<noteq> []" using lt assms(1) by (simp add: vs_def)
    then have rows: "dump_rows (unat i) vs = row_text (unat i) (take 16 vs) # dump_rows (unat (i + 16)) (drop 16 vs)"
      by (simp add: dump_rows.simps [of "unat i" vs] pos)
    have tail: "hex_dump_rows d level tag data len (i + 16) s' =
        for_each_run (dump_rows (unat (i + 16)) (drop 16 vs)) (doip_log_message d level tag) s'" for s'
      using less [of "i + 16" s'] lt pos by (simp add: vs_def add.commute)
    have row: "hex_dump_row data len i = Some (row_text (unat i) (take 16 vs))"
      unfolding vs_def using hex_dump_row_text [OF _ True assms(1)] lt assms(2) by simp
    show ?thesis
      unfolding vs_def [symmetric] rows
      by (subst hex_dump_rows.simps) (auto simp: True row tail then_run_def split: option.splits)
  next
    case False
    then show ?thesis
      by (subst hex_dump_rows.simps) (simp add: word_less_nat_alt dump_rows.simps [of "unat i" "[]"])
  qed
qed

section \<open>Properties\<close>

text \<open>A log message is written without leaving the line buffer of 256 characters exactly when
  prefix, message and colour codes together have at most 256 characters; then the output
  function receives the line, cut to 255 characters. For a longer message the offset, which counts the
  characters that would have been written, lies behind the buffer and the remaining size wraps: the next
  \<open>snprintf\<close> writes outside.\<close>

lemma log_line_fits_iff:
  assumes "length tag + length message < 2 ^ 30" and "NUL \<notin> set tag" and "NUL \<notin> set message"
  shows "if length (concat (log_texts color level tag message)) \<le> 256
    then \<exists>buffer. doip_log_line color level tag message = Some buffer \<and> length buffer = 256 \<and>
      text_of buffer = Some (take 255 (concat (log_texts color level tag message) @ crlf))
    else doip_log_line color level tag message = undefined_behaviour"
proof -
  let ?ts = "log_texts color level tag message"
  have "holds_text (local_chars 256) 256 []"
    by (simp add: holds_text_empty local_chars_def)
  moreover have "length (level_string level) = 5" "length (level_color level) \<le> 5" "length (ansi ''0'') = 4"
      "NUL \<notin> set (level_string level)" "NUL \<notin> set (level_color level)" "NUL \<notin> set (ansi ''0'')"
    by (cases level; simp add: ansi_def)+
  note level = this
  moreover have "length (concat (?ts @ [crlf])) < 2 ^ 31"
    using assms(1) level by (simp add: log_texts_def)
  ultimately have put: "if length (concat ?ts) \<le> 256
    then \<exists>b'. for_each (?ts @ [crlf]) put_text (0, local_chars 256) = Some (int (length (concat (?ts @ [crlf]))), b')
      \<and> holds_text b' 256 (concat (?ts @ [crlf]))
    else for_each (?ts @ [crlf]) put_text (0, local_chars 256) = undefined_behaviour"
    using put_texts [of "local_chars 256" "[]" "?ts @ [crlf]"] by (simp split: if_splits)
  have "NUL \<notin> set (concat (?ts @ [crlf]))"
    using assms(2,3) level by (auto simp: log_texts_def)
  then have shown: "text_of b = Some (take 255 (concat ?ts @ crlf))" if "holds_text b 256 (concat (?ts @ [crlf]))" for b
    using text_of_holds [OF that] by (simp add: crlf_def)
  show ?thesis
    using put shown by (auto simp: doip_log_line_texts holds_text_def split: if_splits)
qed

lemma length_row_text: "length vs \<le> 16 \<Longrightarrow> i < 2 ^ 32 \<Longrightarrow> length (row_text i vs) \<le> 77"
  using length_hex_pad [of 8 i 4] by (simp add: row_text_def)

lemma dump_rows_short:
  "row \<in> set (dump_rows i vs) \<Longrightarrow> i + length vs \<le> 2 ^ 32 \<Longrightarrow> length row \<le> 77"
proof (induction i vs rule: dump_rows.induct)
  case (1 i vs)
  show ?case
  proof (cases "row = row_text i (take 16 vs)")
    case True
    then show ?thesis
      using 1 length_row_text [of "take 16 vs" i] by (cases vs) (auto simp: dump_rows.simps [of i "[]"])
  next
    case False
    then have "vs \<noteq> []" "row \<in> set (dump_rows (i + 16) (drop 16 vs))"
      using "1.prems"(1) by (auto simp: dump_rows.simps [of i vs] split: if_splits)
    moreover have "i + 16 + length (drop 16 vs) \<le> 2 ^ 32 \<or> drop 16 vs = []"
      using "1.prems"(2) by auto
    ultimately show ?thesis
      using "1.IH" by (auto simp: dump_rows.simps [of _ "[]"])
  qed
qed

lemma level_lengths: "length (level_string level) = 5" "length (level_color level) \<le> 5"
  by (cases level; simp add: ansi_def)+

lemma for_each_run_skip: "(\<And>x. body x s = returns s) \<Longrightarrow> for_each_run xs body s = returns s"
  by (induction xs) simp_all

text \<open>\<open>doip_log_hex_dump\<close> logs a heading and then, for each 16 bytes, a row with the offset, the
  hexadecimal values in 16 columns and the printable characters. Its row buffers are never left,
  and for a tag of at most 159 characters each row fits the line buffer of the log.\<close>

lemma hex_dump_logs_rows:
  assumes "unat len \<le> length data" and "unat len + 16 \<le> 2 ^ 32" and "length tag \<le> 159"
  shows "doip_log_hex_dump d level tag (Some data) len s =
      for_each_run ((''Hex dump ('' @ dec_digits (unat len) @ '' bytes):'') # dump_rows 0 (take (unat len) data))
        (doip_log_message d level tag) s
    \<and> (\<forall>row \<in> set (dump_rows 0 (take (unat len) data)). length (concat (log_texts color level tag row)) \<le> 256)"
proof
  show "doip_log_hex_dump d level tag (Some data) len s =
      for_each_run ((''Hex dump ('' @ dec_digits (unat len) @ '' bytes):'') # dump_rows 0 (take (unat len) data))
        (doip_log_message d level tag) s"
  proof (cases "level > min_level (g_log_config s)")
    case True
    then show ?thesis
      by (simp add: doip_log_hex_dump_def doip_log_message_def for_each_run_skip)
  next
    case False
    have "hex_dump_rows d level tag data len 0 =
        for_each_run (dump_rows 0 (take (unat len) data)) (doip_log_message d level tag)"
      using hex_dump_rows_log [OF assms(1,2), of d level tag 0] by (simp add: fun_eq_iff)
    then show ?thesis
      using False by (simp add: doip_log_hex_dump_def)
  qed
  show "\<forall>row \<in> set (dump_rows 0 (take (unat len) data)). length (concat (log_texts color level tag row)) \<le> 256"
  proof
    fix row
    assume "row \<in> set (dump_rows 0 (take (unat len) data))"
    then have "length row \<le> 77"
      using assms(1,2) by (intro dump_rows_short [of row 0]) auto
    then show "length (concat (log_texts color level tag row)) \<le> 256"
      using assms(3) level_lengths [of level] by (auto simp: log_texts_def ansi_def)
  qed
qed

definition sample_log :: "string log_state" where
  "sample_log =
     \<lparr>g_log_config = \<lparr>min_level = DOIP_LOG_LEVEL_TRACE, output_func = NULL, timestamp_enabled = True, color_enabled = False\<rparr>,
      debug_out = sample_debug []\<rparr>"

lemma sample_chars: "char_of (50 :: nat) = CHR ''2''" "char_of (65 :: nat) = CHR ''A''" "replicate 3 c = [c, c, c]"
  by (code_simp, code_simp, simp add: numeral_3_eq_3)

end
