(* ===== verification/Board.thy ===== *)
theory Board
  imports DoIP_Log DoIP_Task
begin

text \<open>
  The board: the LED (\<^verbatim>\<open>src/src/led.c\<close>), the initialisation of the device (\<^verbatim>\<open>src/src/device.c\<close>) and
  \<^verbatim>\<open>main\<close>. The drivers of the microcontroller are a record of operations on a hardware
  state of type \<open>'b\<close>, a parameter. The wait for the PLL may last forever, so that it is a partial
  function. \<^verbatim>\<open>USING_OS_FREERTOS\<close> is defined for the firmware: the timer of the bare-metal build is not
  part of it.
\<close>

section \<open>Data\<close>

datatype Dio_LevelType = STD_LOW | STD_HIGH

record 'b mcal =
  set_dcm_rmii :: "'b \<Rightarrow> 'b"
  Port_Init :: "'b \<Rightarrow> 'b"
  Mcu_Init :: "'b \<Rightarrow> 'b"
  Mcu_InitClock :: "'b \<Rightarrow> 'b"
  Mcu_PllLocked :: "'b \<Rightarrow> bool \<times> 'b"
  Mcu_DistributePllClock :: "'b \<Rightarrow> 'b"
  Mcu_SetMode :: "'b \<Rightarrow> 'b"
  OsIf_Init :: "'b \<Rightarrow> 'b"
  Platform_Init :: "'b \<Rightarrow> 'b"
  Mcl_Init :: "'b \<Rightarrow> 'b"
  Eth_Init :: "'b \<Rightarrow> 'b"
  Dio_WriteLed :: "Dio_LevelType \<Rightarrow> 'b \<Rightarrow> 'b"
  LedTaskDelay :: "u32 \<Rightarrow> 'b \<Rightarrow> 'b"

record ('b, 'u) board =
  hardware :: 'b
  debug :: "'u debug_state"
  currentLevel :: Dio_LevelType

section \<open>The LED\<close>

definition LED_RED_On :: "'b mcal \<Rightarrow> ('b, 'u) board \<Rightarrow> ('b, 'u) board" where
  "LED_RED_On m s = s\<lparr>hardware := Dio_WriteLed m STD_HIGH (hardware s)\<rparr>"

definition LED_RED_Off :: "'b mcal \<Rightarrow> ('b, 'u) board \<Rightarrow> ('b, 'u) board" where
  "LED_RED_Off m s = s\<lparr>hardware := Dio_WriteLed m STD_LOW (hardware s)\<rparr>"

definition LED_RED_Toggle :: "'b mcal \<Rightarrow> ('b, 'u) board \<Rightarrow> ('b, 'u) board" where
  "LED_RED_Toggle m s =
     (if currentLevel s = STD_HIGH
      then s\<lparr>hardware := Dio_WriteLed m STD_LOW (hardware s), currentLevel := STD_LOW\<rparr>
      else s\<lparr>hardware := Dio_WriteLed m STD_HIGH (hardware s), currentLevel := STD_HIGH\<rparr>)"

text \<open>The task up to its \<open>n\<close>-th pass; \<open>ticks\<close> is the delay of 500 ms.\<close>

definition LED_RED_Blink_Task :: "'b mcal \<Rightarrow> u32 \<Rightarrow> nat \<Rightarrow> ('b, 'u) board \<Rightarrow> ('b, 'u) board" where
  "LED_RED_Blink_Task m ticks n s =
     ((\<lambda>s. let s = LED_RED_Toggle m s in s\<lparr>hardware := LedTaskDelay m ticks (hardware s)\<rparr>) ^^ n) s"

section \<open>Start-up\<close>

partial_function (option) wait_pll :: "'b mcal \<Rightarrow> 'b \<Rightarrow> 'b option" where
  "wait_pll m h = (let (locked, h) = Mcu_PllLocked m h in if locked then Some h else wait_pll m h)"

definition device_init :: "'b mcal \<Rightarrow> 'u uart_driver \<Rightarrow> ('b, 'u) board \<Rightarrow> ('b, 'u) board run" where
  "device_init m d s =
     (let h = Mcu_InitClock m (Mcu_Init m (Port_Init m (set_dcm_rmii m (hardware s)))) in
      case wait_pll m h of
        None \<Rightarrow> never_returns
      | Some h \<Rightarrow>
          let h = Mcl_Init m (Platform_Init m (OsIf_Init m (Mcu_SetMode m (Mcu_DistributePllClock m h))));
              w = debug_print_init d (debug s)
          in then_run (debug_print d (''System Startup...'' @ crlf) w)
               (\<lambda>w. returns (s\<lparr>hardware := Eth_Init m h, debug := w\<rparr>)))"

definition main ::
    "'b mcal \<Rightarrow> 'u uart_driver \<Rightarrow> 'k os_api \<Rightarrow> ('b, 'u) board \<Rightarrow> ('w, 'k, 'z) app_system_scheme
      \<Rightarrow> ((startup \<times> ('w, 'k, 'z) app_system_scheme) \<times> ('b, 'u) board) run" where
  "main m d os b s = then_run (device_init m d b) (\<lambda>b. returns (doip_application_init os s, b))"

section \<open>What they do\<close>

lemma toggle_alternates: "LED_RED_Toggle m (LED_RED_Toggle m s) =
    (let first = (if currentLevel s = STD_HIGH then STD_LOW else STD_HIGH);
         second = (if currentLevel s = STD_HIGH then STD_HIGH else STD_LOW)
     in s\<lparr>hardware := Dio_WriteLed m second (Dio_WriteLed m first (hardware s)), currentLevel := second\<rparr>)"
  by (simp add: LED_RED_Toggle_def)

lemma wait_pll_locks:
  assumes "fst (Mcu_PllLocked m (((\<lambda>h. snd (Mcu_PllLocked m h)) ^^ n) h))"
  shows "\<exists>h'. wait_pll m h = Some h'"
  using assms
proof (induction n arbitrary: h)
  case 0
  then show ?case by (subst wait_pll.simps) (simp add: case_prod_beta)
next
  case (Suc n)
  then have "\<exists>h'. wait_pll m (snd (Mcu_PllLocked m h)) = Some h'"
    by (simp only: funpow_Suc_right o_def)
  then show ?case
    by (subst wait_pll.simps) (simp add: case_prod_beta)
qed

lemma debug_print_short:
  assumes "debug_print_initialized s" and "length (debug_print_buffer s) = 256" and "length t < 256"
    and "Uart_AsyncSend d t (uart s) = (E_OK, u)" and "Uart_GetStatus d u = (UART_STATUS_NO_ERROR, u')"
  shows "debug_print d t s =
    returns (s\<lparr>debug_print_buffer := c_string t @ drop (Suc (length t)) (debug_print_buffer s), uart := u'\<rparr>)"
proof -
  have "snprintf (debug_print_buffer s) 0 DEBUG_PRINT_BUFFER_SIZE t
      = Some (int (length t), c_string t @ drop (Suc (length t)) (debug_print_buffer s))"
    using assms(2,3) by (simp add: snprintf_def DEBUG_PRINT_BUFFER_SIZE_def wr_block_0)
  moreover have "wait_loop d 0 10000 u = (True, u')"
    using assms(5) by (simp add: wait_loop.simps)
  ultimately show ?thesis
    using assms(1,3,4)
    by (simp add: debug_print_def DEBUG_PRINT_BUFFER_SIZE_def uart_send_def
        debug_print_wait_transmit_complete_def c_string_def)
qed

text \<open>The firmware reaches the start of its application: when the PLL locks after some number of polls
  and the serial port transmits the start message, \<open>main\<close> runs \<open>doip_application_init\<close> on the
  unchanged application state, with the debug output initialised.\<close>

lemma main_reaches_application:
  assumes "\<forall>h. \<exists>n. fst (Mcu_PllLocked m (((\<lambda>h. snd (Mcu_PllLocked m h)) ^^ n) h))"
    and "\<forall>t u. \<exists>u'. Uart_AsyncSend d t u = (E_OK, u') \<and> fst (Uart_GetStatus d u') = UART_STATUS_NO_ERROR"
    and "length (debug_print_buffer (debug b)) = 256"
  shows "\<exists>b'. main m d os b s = returns (doip_application_init os s, b') \<and> debug_print_initialized (debug b')"
proof -
  obtain h where h: "wait_pll m (Mcu_InitClock m (Mcu_Init m (Port_Init m (set_dcm_rmii m (hardware b))))) = Some h"
    using assms(1) wait_pll_locks by metis
  define w where "w = debug_print_init d (debug b)"
  have w: "debug_print_initialized w" "length (debug_print_buffer w) = 256"
    using assms(3) by (simp_all add: w_def debug_print_init_def)
  obtain u u' where "Uart_AsyncSend d (''System Startup...'' @ crlf) (uart w) = (E_OK, u)"
      "Uart_GetStatus d u = (UART_STATUS_NO_ERROR, u')"
    using assms(2) by (metis prod.collapse)
  from debug_print_short [OF w _ this] obtain w' where
    "debug_print d (''System Startup...'' @ crlf) w = returns w'" "debug_print_initialized w'"
    using w(1) by (simp add: crlf_def)
  then show ?thesis
    using h by (simp add: main_def device_init_def w_def [symmetric])
qed

end
