(* ===== verification/Heap_4.thy ===== *)
theory Heap_4
  imports Prelude
begin

text \<open>
  The allocator of the operating system (\<^verbatim>\<open>FreeRTOS/Source/portable/MemMang/heap_4.c\<close>), which serves every
  dynamic object of the firmware: tasks, the mutex, mailboxes. Memory is an explicit store of block
  headers by address; \<open>xStart\<close> lives in that store too, at an address outside of the heap. A read of
  an address that holds no header is undefined behaviour, and so is a failed \<^verbatim>\<open>configASSERT\<close>, so that a
  theorem that an operation returns also says that no assertion fails. The address of the heap, its size
  and the address of \<open>xStart\<close> are the parameter \<open>heap_config\<close>; the options of the kernel have
  their default values (no canary, memory not cleared on free). Suspending the scheduler makes each operation
  one step.
\<close>

section \<open>Data\<close>

record BlockLink_t =
  pxNextFreeBlock :: u32
  xBlockSize :: u32

record heap_config =
  ucHeap :: u32
  configTOTAL_HEAP_SIZE :: u32
  xStart_address :: u32

record heap_4 =
  headers :: "u32 \<Rightarrow> BlockLink_t option"
  pxEnd :: u32
  xFreeBytesRemaining :: u32
  xMinimumEverFreeBytesRemaining :: u32
  xNumberOfSuccessfulAllocations :: u32
  xNumberOfSuccessfulFrees :: u32

definition portBYTE_ALIGNMENT_MASK :: u32 where
  "portBYTE_ALIGNMENT_MASK = 7"

definition xHeapStructSize :: u32 where
  "xHeapStructSize = 8"

definition heapMINIMUM_BLOCK_SIZE :: u32 where
  "heapMINIMUM_BLOCK_SIZE = 16"

definition heapADD_WILL_OVERFLOW :: "u32 \<Rightarrow> u32 \<Rightarrow> bool" where
  "heapADD_WILL_OVERFLOW a b \<longleftrightarrow> a > -1 - b"

definition heapMULTIPLY_WILL_OVERFLOW :: "u32 \<Rightarrow> u32 \<Rightarrow> bool" where
  "heapMULTIPLY_WILL_OVERFLOW a b \<longleftrightarrow> a > 0 \<and> b > -1 div a"

definition heapBLOCK_ALLOCATED_BITMASK :: u32 where
  "heapBLOCK_ALLOCATED_BITMASK = 0x80000000"

definition heapBLOCK_SIZE_IS_VALID :: "u32 \<Rightarrow> bool" where
  "heapBLOCK_SIZE_IS_VALID n \<longleftrightarrow> n AND heapBLOCK_ALLOCATED_BITMASK = 0"

section \<open>Operations\<close>

definition get_header :: "u32 \<Rightarrow> heap_4 \<Rightarrow> BlockLink_t exec" where
  "get_header a h = headers h a"

definition put_header :: "u32 \<Rightarrow> (BlockLink_t \<Rightarrow> BlockLink_t) \<Rightarrow> heap_4 \<Rightarrow> heap_4 exec" where
  "put_header a f h = do { b \<leftarrow> headers h a; Some (h\<lparr>headers := (headers h)(a \<mapsto> f b)\<rparr>) }"

text \<open>A header at an address that held none before: the first writes of \<open>prvHeapInit\<close> and of a split.\<close>

definition new_header :: "u32 \<Rightarrow> BlockLink_t \<Rightarrow> heap_4 \<Rightarrow> heap_4" where
  "new_header a b h = h\<lparr>headers := (headers h)(a \<mapsto> b)\<rparr>"

definition config_assert :: "bool \<Rightarrow> unit exec" where
  "config_assert b = (if b then Some () else undefined_behaviour)"

definition validate_block_pointer :: "heap_config \<Rightarrow> u32 \<Rightarrow> unit exec" where
  "validate_block_pointer cfg p =
     config_assert (p \<ge> ucHeap cfg \<and> p \<le> ucHeap cfg + (configTOTAL_HEAP_SIZE cfg - 1))"

definition prvHeapInit :: "heap_config \<Rightarrow> heap_4 \<Rightarrow> heap_4" where
  "prvHeapInit cfg h =
     (let xTotalHeapSize = configTOTAL_HEAP_SIZE cfg;
          uxStartAddress = ucHeap cfg;
          (uxStartAddress, xTotalHeapSize) =
            (if uxStartAddress AND portBYTE_ALIGNMENT_MASK \<noteq> 0 then
               let a = (uxStartAddress + 7) AND NOT portBYTE_ALIGNMENT_MASK
               in (a, xTotalHeapSize - (a - ucHeap cfg))
             else (uxStartAddress, xTotalHeapSize));
          h = new_header (xStart_address cfg) \<lparr>pxNextFreeBlock = uxStartAddress, xBlockSize = 0\<rparr> h;
          uxEndAddress = uxStartAddress + xTotalHeapSize;
          uxEndAddress = uxEndAddress - xHeapStructSize;
          uxEndAddress = uxEndAddress AND NOT portBYTE_ALIGNMENT_MASK;
          h = h\<lparr>pxEnd := uxEndAddress\<rparr>;
          h = new_header uxEndAddress \<lparr>pxNextFreeBlock = 0, xBlockSize = 0\<rparr> h;
          first_size = uxEndAddress - uxStartAddress;
          h = new_header uxStartAddress \<lparr>pxNextFreeBlock = pxEnd h, xBlockSize = first_size\<rparr> h
      in h\<lparr>xMinimumEverFreeBytesRemaining := first_size, xFreeBytesRemaining := first_size\<rparr>)"

definition round_size :: "u32 \<Rightarrow> u32" where
  "round_size xWantedSize =
     (if xWantedSize > 0 then
        if \<not> heapADD_WILL_OVERFLOW xWantedSize xHeapStructSize then
          let xWantedSize = xWantedSize + xHeapStructSize in
          if xWantedSize AND portBYTE_ALIGNMENT_MASK \<noteq> 0 then
            let xAdditionalRequiredSize = 8 - (xWantedSize AND portBYTE_ALIGNMENT_MASK) in
            if \<not> heapADD_WILL_OVERFLOW xWantedSize xAdditionalRequiredSize
            then xWantedSize + xAdditionalRequiredSize else 0
          else xWantedSize
        else 0
      else xWantedSize)"

text \<open>The search for a block, from a block and its predecessor in the free list; it ends at a block that
  is large enough or at the last block.\<close>

partial_function (option) find_block ::
    "heap_config \<Rightarrow> u32 \<Rightarrow> heap_4 \<Rightarrow> u32 \<Rightarrow> u32 \<Rightarrow> (u32 \<times> u32) run" where
  "find_block cfg xWantedSize h pxPreviousBlock pxBlock =
     (case get_header pxBlock h of
        None \<Rightarrow> Some undefined_behaviour
      | Some b \<Rightarrow>
          if xBlockSize b < xWantedSize \<and> pxNextFreeBlock b \<noteq> 0 then
            (case validate_block_pointer cfg (pxNextFreeBlock b) of
               None \<Rightarrow> Some undefined_behaviour
             | Some _ \<Rightarrow> find_block cfg xWantedSize h pxBlock (pxNextFreeBlock b))
          else returns (pxPreviousBlock, pxBlock))"

text \<open>Taking a block out of the free list, splitting it when the rest is large enough.\<close>

definition take_block :: "heap_config \<Rightarrow> u32 \<Rightarrow> u32 \<Rightarrow> u32 \<Rightarrow> heap_4 \<Rightarrow> (u32 \<times> heap_4) exec" where
  "take_block cfg xWantedSize pxPreviousBlock pxBlock h = do {
     p \<leftarrow> get_header pxPreviousBlock h;
     let pvReturn = pxNextFreeBlock p + xHeapStructSize;
     _ \<leftarrow> validate_block_pointer cfg pvReturn;
     b \<leftarrow> get_header pxBlock h;
     h \<leftarrow> put_header pxPreviousBlock (\<lambda>p. p\<lparr>pxNextFreeBlock := pxNextFreeBlock b\<rparr>) h;
     _ \<leftarrow> config_assert (\<not> xBlockSize b < xWantedSize);
     h \<leftarrow> (if xBlockSize b - xWantedSize > heapMINIMUM_BLOCK_SIZE then do {
             let pxNewBlockLink = pxBlock + xWantedSize;
             _ \<leftarrow> config_assert (pxNewBlockLink AND portBYTE_ALIGNMENT_MASK = 0);
             p \<leftarrow> get_header pxPreviousBlock h;
             let h = new_header pxNewBlockLink
                       \<lparr>pxNextFreeBlock = pxNextFreeBlock p, xBlockSize = xBlockSize b - xWantedSize\<rparr> h;
             h \<leftarrow> put_header pxBlock (\<lambda>b. b\<lparr>xBlockSize := xWantedSize\<rparr>) h;
             put_header pxPreviousBlock (\<lambda>p. p\<lparr>pxNextFreeBlock := pxNewBlockLink\<rparr>) h
           } else Some h);
     b \<leftarrow> get_header pxBlock h;
     let h = h\<lparr>xFreeBytesRemaining := xFreeBytesRemaining h - xBlockSize b\<rparr>;
     let h = (if xFreeBytesRemaining h < xMinimumEverFreeBytesRemaining h
              then h\<lparr>xMinimumEverFreeBytesRemaining := xFreeBytesRemaining h\<rparr> else h);
     h \<leftarrow> put_header pxBlock
            (\<lambda>b. b\<lparr>xBlockSize := xBlockSize b OR heapBLOCK_ALLOCATED_BITMASK, pxNextFreeBlock := 0\<rparr>) h;
     Some (pvReturn, h\<lparr>xNumberOfSuccessfulAllocations := xNumberOfSuccessfulAllocations h + 1\<rparr>)
   }"

definition pvPortMalloc :: "heap_config \<Rightarrow> u32 \<Rightarrow> heap_4 \<Rightarrow> (u32 \<times> heap_4) run" where
  "pvPortMalloc cfg wanted h =
     (let xWantedSize = round_size wanted;
          h = (if pxEnd h = 0 then prvHeapInit cfg h else h)
      in if heapBLOCK_SIZE_IS_VALID xWantedSize \<and> xWantedSize > 0 \<and> xWantedSize \<le> xFreeBytesRemaining h then
           (case get_header (xStart_address cfg) h of
              None \<Rightarrow> Some undefined_behaviour
            | Some start \<Rightarrow>
                (case validate_block_pointer cfg (pxNextFreeBlock start) of
                   None \<Rightarrow> Some undefined_behaviour
                 | Some _ \<Rightarrow>
                     then_run (find_block cfg xWantedSize h (xStart_address cfg) (pxNextFreeBlock start))
                       (\<lambda>(pxPreviousBlock, pxBlock).
                          if pxBlock \<noteq> pxEnd h
                          then Some (do { (pvReturn, h) \<leftarrow> take_block cfg xWantedSize pxPreviousBlock pxBlock h;
                                          _ \<leftarrow> config_assert (pvReturn AND portBYTE_ALIGNMENT_MASK = 0);
                                          Some (pvReturn, h) })
                          else returns (0, h))))
         else returns (0, h))"

partial_function (option) find_position :: "heap_4 \<Rightarrow> u32 \<Rightarrow> u32 \<Rightarrow> u32 run" where
  "find_position h pxBlockToInsert pxIterator =
     (case get_header pxIterator h of
        None \<Rightarrow> Some undefined_behaviour
      | Some it \<Rightarrow>
          if pxNextFreeBlock it < pxBlockToInsert
          then find_position h pxBlockToInsert (pxNextFreeBlock it)
          else returns pxIterator)"

definition insert_at :: "heap_config \<Rightarrow> u32 \<Rightarrow> u32 \<Rightarrow> heap_4 \<Rightarrow> heap_4 exec" where
  "insert_at cfg pxIterator pxBlockToInsert h = do {
     _ \<leftarrow> (if pxIterator \<noteq> xStart_address cfg then validate_block_pointer cfg pxIterator else Some ());
     it \<leftarrow> get_header pxIterator h;
     b \<leftarrow> get_header pxBlockToInsert h;
     (pxBlockToInsert, h) \<leftarrow>
       (if pxIterator + xBlockSize it = pxBlockToInsert then do {
          h \<leftarrow> put_header pxIterator (\<lambda>it. it\<lparr>xBlockSize := xBlockSize it + xBlockSize b\<rparr>) h;
          Some (pxIterator, h)
        } else Some (pxBlockToInsert, h));
     b \<leftarrow> get_header pxBlockToInsert h;
     it \<leftarrow> get_header pxIterator h;
     h \<leftarrow> (if pxBlockToInsert + xBlockSize b = pxNextFreeBlock it then
             if pxNextFreeBlock it \<noteq> pxEnd h then do {
               n \<leftarrow> get_header (pxNextFreeBlock it) h;
               put_header pxBlockToInsert
                 (\<lambda>b. b\<lparr>xBlockSize := xBlockSize b + xBlockSize n, pxNextFreeBlock := pxNextFreeBlock n\<rparr>) h
             } else put_header pxBlockToInsert (\<lambda>b. b\<lparr>pxNextFreeBlock := pxEnd h\<rparr>) h
           else put_header pxBlockToInsert (\<lambda>b. b\<lparr>pxNextFreeBlock := pxNextFreeBlock it\<rparr>) h);
     if pxIterator \<noteq> pxBlockToInsert
     then put_header pxIterator (\<lambda>it. it\<lparr>pxNextFreeBlock := pxBlockToInsert\<rparr>) h
     else Some h
   }"

definition prvInsertBlockIntoFreeList :: "heap_config \<Rightarrow> u32 \<Rightarrow> heap_4 \<Rightarrow> heap_4 run" where
  "prvInsertBlockIntoFreeList cfg pxBlockToInsert h =
     then_run (find_position h pxBlockToInsert (xStart_address cfg))
       (\<lambda>pxIterator. Some (insert_at cfg pxIterator pxBlockToInsert h))"

definition vPortFree :: "heap_config \<Rightarrow> u32 \<Rightarrow> heap_4 \<Rightarrow> heap_4 run" where
  "vPortFree cfg pv h =
     (if pv = 0 then returns h
      else
        let pxLink = pv - xHeapStructSize in
        case do { _ \<leftarrow> validate_block_pointer cfg pxLink;
                  b \<leftarrow> get_header pxLink h;
                  _ \<leftarrow> config_assert (xBlockSize b AND heapBLOCK_ALLOCATED_BITMASK \<noteq> 0);
                  _ \<leftarrow> config_assert (pxNextFreeBlock b = 0);
                  h \<leftarrow> put_header pxLink (\<lambda>b. b\<lparr>xBlockSize := xBlockSize b AND NOT heapBLOCK_ALLOCATED_BITMASK\<rparr>) h;
                  b \<leftarrow> get_header pxLink h;
                  Some (h\<lparr>xFreeBytesRemaining := xFreeBytesRemaining h + xBlockSize b\<rparr>) } of
          None \<Rightarrow> Some undefined_behaviour
        | Some h \<Rightarrow>
            then_run (prvInsertBlockIntoFreeList cfg pxLink h)
              (\<lambda>h. returns (h\<lparr>xNumberOfSuccessfulFrees := xNumberOfSuccessfulFrees h + 1\<rparr>)))"

definition xPortGetFreeHeapSize :: "heap_4 \<Rightarrow> u32" where
  "xPortGetFreeHeapSize h = xFreeBytesRemaining h"

definition xPortGetMinimumEverFreeHeapSize :: "heap_4 \<Rightarrow> u32" where
  "xPortGetMinimumEverFreeHeapSize h = xMinimumEverFreeBytesRemaining h"

text \<open>\<open>pvPortCalloc\<close>: the number of bytes it clears at the address it returns is part of the result.\<close>

definition pvPortCalloc :: "heap_config \<Rightarrow> u32 \<Rightarrow> u32 \<Rightarrow> heap_4 \<Rightarrow> ((u32 \<times> u32) \<times> heap_4) run" where
  "pvPortCalloc cfg xNum xSize h =
     (if \<not> heapMULTIPLY_WILL_OVERFLOW xNum xSize then
        then_run (pvPortMalloc cfg (xNum * xSize) h)
          (\<lambda>(pv, h). returns ((pv, if pv \<noteq> 0 then xNum * xSize else 0), h))
      else returns ((0, 0), h))"

definition vPortHeapResetState :: "heap_4 \<Rightarrow> heap_4" where
  "vPortHeapResetState h =
     h\<lparr>pxEnd := 0, xFreeBytesRemaining := 0, xMinimumEverFreeBytesRemaining := 0,
       xNumberOfSuccessfulAllocations := 0, xNumberOfSuccessfulFrees := 0\<rparr>"

text \<open>Statistics: the walk through the free list, with the number of blocks seen and the sizes of the largest
  and of the smallest. \<^verbatim>\<open>portMAX_DELAY\<close> is the largest number of 32 bits.\<close>

record HeapStats_t =
  xAvailableHeapSpaceInBytes :: u32
  xSizeOfLargestFreeBlockInBytes :: u32
  xSizeOfSmallestFreeBlockInBytes :: u32
  xNumberOfFreeBlocks :: u32
  stats_xMinimumEverFreeBytesRemaining :: u32
  stats_xNumberOfSuccessfulAllocations :: u32
  stats_xNumberOfSuccessfulFrees :: u32

definition portMAX_DELAY :: u32 where
  "portMAX_DELAY = 0xffffffff"

partial_function (option) walk_free :: "heap_4 \<Rightarrow> u32 \<Rightarrow> u32 \<Rightarrow> u32 \<Rightarrow> u32 \<Rightarrow> (u32 \<times> u32 \<times> u32) run" where
  "walk_free h xBlocks xMaxSize xMinSize pxBlock =
     (if pxBlock \<noteq> pxEnd h then
        (case get_header pxBlock h of
           None \<Rightarrow> Some undefined_behaviour
         | Some b \<Rightarrow>
             walk_free h (xBlocks + 1)
               (if xBlockSize b > xMaxSize then xBlockSize b else xMaxSize)
               (if xBlockSize b < xMinSize then xBlockSize b else xMinSize)
               (pxNextFreeBlock b))
      else returns (xBlocks, xMaxSize, xMinSize))"

definition vPortGetHeapStats :: "heap_config \<Rightarrow> heap_4 \<Rightarrow> HeapStats_t run" where
  "vPortGetHeapStats cfg h =
     (case get_header (xStart_address cfg) h of
        None \<Rightarrow> Some undefined_behaviour
      | Some start \<Rightarrow>
          then_run
            (if pxNextFreeBlock start \<noteq> 0 then walk_free h 0 0 portMAX_DELAY (pxNextFreeBlock start)
             else returns (0, 0, portMAX_DELAY))
            (\<lambda>(xBlocks, xMaxSize, xMinSize).
               returns \<lparr>xAvailableHeapSpaceInBytes = xFreeBytesRemaining h,
                 xSizeOfLargestFreeBlockInBytes = xMaxSize,
                 xSizeOfSmallestFreeBlockInBytes = xMinSize,
                 xNumberOfFreeBlocks = xBlocks,
                 stats_xMinimumEverFreeBytesRemaining = xMinimumEverFreeBytesRemaining h,
                 stats_xNumberOfSuccessfulAllocations = xNumberOfSuccessfulAllocations h,
                 stats_xNumberOfSuccessfulFrees = xNumberOfSuccessfulFrees h\<rparr>))"

section \<open>The layout of the heap\<close>

text \<open>Abstractly the heap is the list of its blocks in the order of their addresses, free or in use.\<close>

datatype blk = Blk (blk_addr: nat) (blk_size: nat) (blk_free: bool)

fun tiles :: "nat \<Rightarrow> blk list \<Rightarrow> nat \<Rightarrow> bool" where
  "tiles a [] e \<longleftrightarrow> a = e"
| "tiles a (b # bs) e \<longleftrightarrow> blk_addr b = a \<and> 16 \<le> blk_size b \<and> 8 dvd blk_size b \<and> tiles (a + blk_size b) bs e"

fun separated :: "blk list \<Rightarrow> bool" where
  "separated (b # c # bs) \<longleftrightarrow> \<not> (blk_free b \<and> blk_free c) \<and> separated (c # bs)"
| "separated bs \<longleftrightarrow> True"

definition free_bytes :: "blk list \<Rightarrow> nat" where
  "free_bytes bs = sum_list (map blk_size (filter blk_free bs))"

definition fits :: "nat \<Rightarrow> blk \<Rightarrow> bool" where
  "fits w b \<longleftrightarrow> blk_free b \<and> w \<le> blk_size b"

text \<open>Allocation takes the first free block that is large enough and splits it when more than 16 bytes
  remain.\<close>

definition carve :: "nat \<Rightarrow> blk \<Rightarrow> blk list" where
  "carve w b =
     (if blk_size b - w > 16
      then [Blk (blk_addr b) w False, Blk (blk_addr b + w) (blk_size b - w) True]
      else [Blk (blk_addr b) (blk_size b) False])"

fun first_fit :: "nat \<Rightarrow> blk list \<Rightarrow> (nat \<times> blk list) option" where
  "first_fit w [] = None"
| "first_fit w (b # bs) =
     (if fits w b then Some (blk_addr b, carve w b @ bs)
      else map_option (\<lambda>(a, bs). (a, b # bs)) (first_fit w bs))"

text \<open>Release marks a block as free and joins adjacent free blocks.\<close>

definition mark_free :: "nat \<Rightarrow> blk list \<Rightarrow> blk list" where
  "mark_free a bs = map (\<lambda>b. if blk_addr b = a then Blk a (blk_size b) True else b) bs"

fun join :: "blk list \<Rightarrow> blk list" where
  "join (b # c # bs) =
     (if blk_free b \<and> blk_free c then join (Blk (blk_addr b) (blk_size b + blk_size c) True # bs)
      else b # join (c # bs))"
| "join bs = bs"

definition release :: "nat \<Rightarrow> blk list \<Rightarrow> blk list" where
  "release a bs = join (mark_free a bs)"

subsection \<open>Lemmas on layouts\<close>

lemma tiles_append: "tiles a (xs @ ys) e \<longleftrightarrow> (\<exists>m. tiles a xs m \<and> tiles m ys e)"
  by (induction xs arbitrary: a) auto

lemma tiles_le: "tiles a bs e \<Longrightarrow> a \<le> e"
  by (induction bs arbitrary: a) fastforce+

lemma tiles_in:
  "tiles a bs e \<Longrightarrow> b \<in> set bs \<Longrightarrow>
     a \<le> blk_addr b \<and> blk_addr b + blk_size b \<le> e \<and> 16 \<le> blk_size b \<and> 8 dvd blk_size b"
  by (induction bs arbitrary: a) (auto dest: tiles_le, fastforce)

lemma tiles_aligned: "tiles a bs e \<Longrightarrow> 8 dvd a \<Longrightarrow> b \<in> set bs \<Longrightarrow> 8 dvd blk_addr b"
proof (induction bs arbitrary: a)
  case (Cons c bs)
  then show ?case using dvd_add [of 8 a "blk_size c"] by auto
qed simp

lemma tiles_distinct: "tiles a bs e \<Longrightarrow> distinct (map blk_addr bs)"
proof (induction bs arbitrary: a)
  case (Cons b bs)
  then show ?case
    using tiles_in [of "a + blk_size b" bs e] by fastforce
qed simp

lemma tiles_disjoint:
  assumes "tiles a bs e" and "b \<in> set bs" and "c \<in> set bs" and "b \<noteq> c"
  shows "blk_addr b + blk_size b \<le> blk_addr c \<or> blk_addr c + blk_size c \<le> blk_addr b"
  using assms
proof (induction bs arbitrary: a)
  case (Cons x bs)
  then show ?case
    using tiles_in [of "a + blk_size x" bs e b] tiles_in [of "a + blk_size x" bs e c] by auto
qed simp

lemma tiles_size: "tiles a bs e \<Longrightarrow> a + sum_list (map blk_size bs) = e"
  by (induction bs arbitrary: a) fastforce+

lemma free_bytes_simps [simp]:
  "free_bytes [] = 0"
  "free_bytes (b # bs) = (if blk_free b then blk_size b else 0) + free_bytes bs"
  "free_bytes (xs @ ys) = free_bytes xs + free_bytes ys"
  by (simp_all add: free_bytes_def)

lemma free_bytes_le: "free_bytes bs \<le> sum_list (map blk_size bs)"
  by (induction bs) auto

lemma separated_append:
  "separated (xs @ ys) \<longleftrightarrow> separated xs \<and> separated ys \<and>
     (xs = [] \<or> ys = [] \<or> \<not> (blk_free (last xs) \<and> blk_free (hd ys)))"
proof (induction xs)
  case (Cons x xs)
  then show ?case by (cases xs; cases ys) auto
qed simp

lemma first_fit_append:
  "\<forall>x \<in> set r1. \<not> fits w x \<Longrightarrow> fits w b \<Longrightarrow> first_fit w (r1 @ b # r2) = Some (blk_addr b, r1 @ carve w b @ r2)"
  by (induction r1) auto

lemma first_fit_None_iff: "first_fit w bs = None \<longleftrightarrow> (\<forall>b \<in> set bs. \<not> fits w b)"
  by (induction bs) auto

lemma fits_free_bytes: "b \<in> set bs \<Longrightarrow> fits w b \<Longrightarrow> w \<le> free_bytes bs"
  by (induction bs) (auto simp: fits_def)

lemma carve_tiles:
  assumes "fits w b" and "16 \<le> w" and "8 dvd w" and "16 \<le> blk_size b" and "8 dvd blk_size b"
  shows "tiles (blk_addr b) (carve w b) (blk_addr b + blk_size b)"
  using assms by (auto simp: carve_def fits_def dvd_diff_nat)

lemma carve_separated: "separated (carve w b)"
  by (simp add: carve_def)

lemma carve_hd: "\<not> blk_free (hd (carve w b))" "carve w b \<noteq> []"
  by (simp_all add: carve_def)

lemma tiles_carve:
  assumes "tiles a (r1 @ b # r2) e" and "fits w b" and "16 \<le> w" and "8 dvd w"
  shows "tiles a (r1 @ carve w b @ r2) e"
  using assms carve_tiles [OF assms(2-4)] by (fastforce simp: tiles_append)

lemma separated_carve:
  assumes "separated (r1 @ b # r2)" and "blk_free b"
  shows "separated (r1 @ carve w b @ r2)"
proof -
  have "r2 = [] \<or> \<not> blk_free (hd r2)" and "separated r1" "separated r2"
    using assms by (cases r2; auto simp: separated_append)+
  then show ?thesis
    using carve_separated [of w b] carve_hd [of w b] by (auto simp: separated_append)
qed

lemma join_used [simp]: "\<not> blk_free x \<Longrightarrow> join (x # ys) = x # join ys"
  by (cases ys) auto

lemma join_append:
  "separated pre \<Longrightarrow> pre = [] \<or> \<not> blk_free (last pre) \<Longrightarrow> join (pre @ ys) = pre @ join ys"
proof (induction pre rule: separated.induct)
  case (1 b c bs)
  then show ?case by auto
qed auto

lemma join_separated [simp]: "separated bs \<Longrightarrow> join bs = bs"
  by (induction bs rule: separated.induct) auto

lemma separated_Cons: "separated (x # ys) \<longleftrightarrow> separated ys \<and> (ys = [] \<or> \<not> (blk_free x \<and> blk_free (hd ys)))"
  by (cases ys) auto

lemma join_hd: "bs \<noteq> [] \<Longrightarrow> join bs \<noteq> [] \<and> blk_free (hd (join bs)) = blk_free (hd bs)"
  by (induction bs rule: join.induct) auto

lemma separated_join: "separated (join bs)"
proof (induction bs rule: join.induct)
  case (1 b c bs)
  then show ?case
    using join_hd [of "c # bs"] by (auto simp: separated_Cons)
qed auto

lemma tiles_join: "tiles a bs e \<Longrightarrow> tiles a (join bs) e"
  by (induction bs arbitrary: a rule: join.induct) (auto simp: add.assoc)

lemma free_bytes_join [simp]: "free_bytes (join bs) = free_bytes bs"
  by (induction bs rule: join.induct) auto

lemma tiles_mark: "tiles a bs e \<Longrightarrow> tiles a (mark_free p bs) e"
  by (induction bs arbitrary: a) (auto simp: mark_free_def)

lemma mark_free_split:
  assumes "distinct (map blk_addr (pre @ b # post))"
  shows "mark_free (blk_addr b) (pre @ b # post) = pre @ Blk (blk_addr b) (blk_size b) True # post"
proof -
  have "\<forall>x \<in> set pre \<union> set post. blk_addr x \<noteq> blk_addr b"
    using assms by (force simp: image_iff)
  then show ?thesis by (simp add: mark_free_def map_idI)
qed

text \<open>The two neighbours of a released block.\<close>

definition join_next :: "blk \<Rightarrow> blk list \<Rightarrow> blk list" where
  "join_next c post =
     (case post of
        [] \<Rightarrow> [c]
      | d # ds \<Rightarrow> if blk_free d then Blk (blk_addr c) (blk_size c + blk_size d) True # ds else c # d # ds)"

lemma join_next_eq: "blk_free c \<Longrightarrow> separated post \<Longrightarrow> join (c # post) = join_next c post"
proof (cases post)
  case (Cons d ds)
  assume "blk_free c" and sep: "separated post"
  moreover have "join (Blk a n True # ds) = Blk a n True # ds" if "blk_free d" for a n
    using sep that Cons by (intro join_separated) (cases ds; auto)
  ultimately show ?thesis
    using Cons by (auto simp: join_next_def)
qed (simp add: join_next_def)

lemma release_split:
  assumes "separated (pre @ b # post)" and "distinct (map blk_addr (pre @ b # post))"
  shows "release (blk_addr b) (pre @ b # post) =
    (if pre \<noteq> [] \<and> blk_free (last pre)
     then butlast pre @ join_next (Blk (blk_addr (last pre)) (blk_size (last pre) + blk_size b) True) post
     else pre @ join_next (Blk (blk_addr b) (blk_size b) True) post)"
proof -
  have sep: "separated pre" "separated post"
    using assms(1) by (auto simp: separated_append separated_Cons)
  show ?thesis
  proof (cases "pre \<noteq> [] \<and> blk_free (last pre)")
    case True
    then obtain q p where pre: "pre = q @ [p]" "blk_free p"
      by (cases pre rule: rev_cases) auto
    have "separated q" "q = [] \<or> \<not> blk_free (last q)"
      using sep(1) pre by (auto simp: separated_append)
    then show ?thesis
      using True pre sep(2) unfolding release_def mark_free_split [OF assms(2)]
      by (simp add: join_append join_next_eq)
  next
    case False
    then show ?thesis
      using sep unfolding release_def mark_free_split [OF assms(2)]
      by (auto simp: join_append join_next_eq)
  qed
qed


section \<open>The layout in memory\<close>

definition first_free :: "u32 \<Rightarrow> blk list \<Rightarrow> u32" where
  "first_free nxt bs = (case filter blk_free bs of [] \<Rightarrow> nxt | b # _ \<Rightarrow> of_nat (blk_addr b))"

definition blk_header :: "u32 \<Rightarrow> blk \<Rightarrow> BlockLink_t" where
  "blk_header nxt b =
     (if blk_free b then \<lparr>pxNextFreeBlock = nxt, xBlockSize = of_nat (blk_size b)\<rparr>
      else \<lparr>pxNextFreeBlock = 0, xBlockSize = of_nat (blk_size b) OR heapBLOCK_ALLOCATED_BITMASK\<rparr>)"

fun stored :: "(u32 \<Rightarrow> BlockLink_t option) \<Rightarrow> u32 \<Rightarrow> blk list \<Rightarrow> bool" where
  "stored hs nxt [] \<longleftrightarrow> True"
| "stored hs nxt (b # bs) \<longleftrightarrow>
     hs (of_nat (blk_addr b)) = Some (blk_header (first_free nxt bs) b) \<and> stored hs nxt bs"

lemma first_free_simps [simp]:
  "first_free nxt [] = nxt"
  "first_free nxt (b # bs) = (if blk_free b then of_nat (blk_addr b) else first_free nxt bs)"
  by (simp_all add: first_free_def)

lemma first_free_append: "first_free nxt (xs @ ys) = first_free (first_free nxt ys) xs"
  by (induction xs) simp_all

lemma first_free_none [simp]: "\<forall>y \<in> set ys. \<not> blk_free y \<Longrightarrow> first_free nxt ys = nxt"
  by (induction ys) simp_all

lemma stored_append: "stored hs nxt (xs @ ys) \<longleftrightarrow> stored hs (first_free nxt ys) xs \<and> stored hs nxt ys"
  by (induction xs) (auto simp: first_free_append)

lemma stored_cong:
  "(\<And>b. b \<in> set bs \<Longrightarrow> hs' (of_nat (blk_addr b)) = hs (of_nat (blk_addr b))) \<Longrightarrow> stored hs' nxt bs = stored hs nxt bs"
  by (induction bs) auto

lemma stored_none:
  "\<forall>y \<in> set ys. \<not> blk_free y \<Longrightarrow> stored hs n ys = stored hs m ys"
  by (induction ys) (auto simp: blk_header_def)

lemma last_free_split:
  assumes "\<exists>b \<in> set bs. blk_free b"
  obtains xs p ys where "bs = xs @ p # ys" and "blk_free p" and "\<forall>y \<in> set ys. \<not> blk_free y"
  using split_list_last_prop [OF assms] by metis

text \<open>Pointing the last free block of a list somewhere else.\<close>

lemma stored_relink:
  assumes "stored hs n (xs @ p # ys)" and "blk_free p" and "\<forall>y \<in> set ys. \<not> blk_free y"
    and "\<forall>b \<in> set (xs @ p # ys). b = p \<or> hs' (of_nat (blk_addr b)) = hs (of_nat (blk_addr b))"
    and "hs' (of_nat (blk_addr p)) = Some \<lparr>pxNextFreeBlock = m, xBlockSize = of_nat (blk_size p)\<rparr>"
    and "p \<notin> set xs" and "p \<notin> set ys"
  shows "stored hs' m (xs @ p # ys)"
proof -
  have "stored hs' (of_nat (blk_addr p)) xs = stored hs (of_nat (blk_addr p)) xs"
    using assms(4,6) by (intro stored_cong) auto
  moreover have "stored hs' m ys = stored hs m ys"
    using assms(4,7) by (intro stored_cong) auto
  moreover have "stored hs m ys = stored hs n ys"
    using assms(3) by (rule stored_none)
  ultimately show ?thesis
    using assms(1,2,3,5) by (simp add: stored_append blk_header_def)
qed

end
