(* ===== verification/FreeRTOS_List.thy ===== *)
theory FreeRTOS_List
  imports Heap_4
begin

text \<open>
  The lists of the operating system (\<^verbatim>\<open>FreeRTOS/Source/list.c\<close> and the macros of \<^verbatim>\<open>list.h\<close>): circular, doubly
  linked lists with an end marker inside the list structure, from which the scheduler builds its ready, delayed and
  event lists. Items and lists are stores by address; the marker \<^verbatim>\<open>xListEnd\<close> is an item at its
  place in the structure. A read of an address that holds no item is undefined behaviour.
  A list in the store represents the sequence of its items; insertion, removal and the
  walk of \<^verbatim>\<open>listGET_OWNER_OF_NEXT_ENTRY\<close> are operations on that sequence.
\<close>

section \<open>Data\<close>

record ListItem_t =
  xItemValue :: u32
  pxNext :: u32
  pxPrevious :: u32
  pvOwner :: u32
  pxContainer :: u32

record List_t =
  uxNumberOfItems :: u32
  pxIndex :: u32

record list_mem =
  list_items :: "u32 \<Rightarrow> ListItem_t option"
  list_heads :: "u32 \<Rightarrow> List_t option"

text \<open>The address of the marker: it follows \<^verbatim>\<open>uxNumberOfItems\<close> and \<^verbatim>\<open>pxIndex\<close>. It is a \<^verbatim>\<open>MiniListItem_t\<close>, which has no
  owner and no container.\<close>

definition xListEnd :: "u32 \<Rightarrow> u32" where
  "xListEnd pxList = pxList + 8"

section \<open>Operations\<close>

definition upd_item :: "u32 \<Rightarrow> (ListItem_t \<Rightarrow> ListItem_t) \<Rightarrow> list_mem \<Rightarrow> list_mem exec" where
  "upd_item a f m = do { x \<leftarrow> list_items m a; Some (m\<lparr>list_items := (list_items m)(a \<mapsto> f x)\<rparr>) }"

definition upd_list :: "u32 \<Rightarrow> (List_t \<Rightarrow> List_t) \<Rightarrow> list_mem \<Rightarrow> list_mem exec" where
  "upd_list l f m = do { x \<leftarrow> list_heads m l; Some (m\<lparr>list_heads := (list_heads m)(l \<mapsto> f x)\<rparr>) }"

definition vListInitialise :: "u32 \<Rightarrow> list_mem \<Rightarrow> list_mem" where
  "vListInitialise pxList m =
     m\<lparr>list_heads := (list_heads m)(pxList \<mapsto> \<lparr>uxNumberOfItems = 0, pxIndex = xListEnd pxList\<rparr>),
       list_items := (list_items m)(xListEnd pxList \<mapsto>
         \<lparr>xItemValue = portMAX_DELAY, pxNext = xListEnd pxList, pxPrevious = xListEnd pxList, pvOwner = 0, pxContainer = 0\<rparr>)\<rparr>"

definition vListInitialiseItem :: "u32 \<Rightarrow> list_mem \<Rightarrow> list_mem exec" where
  "vListInitialiseItem pxItem m = upd_item pxItem (\<lambda>x. x\<lparr>pxContainer := 0\<rparr>) m"

definition vListInsertEnd :: "u32 \<Rightarrow> u32 \<Rightarrow> list_mem \<Rightarrow> list_mem exec" where
  "vListInsertEnd pxList pxNewListItem m = do {
     l \<leftarrow> list_heads m pxList;
     let index = pxIndex l;
     m \<leftarrow> upd_item pxNewListItem (\<lambda>x. x\<lparr>pxNext := index\<rparr>) m;
     i \<leftarrow> list_items m index;
     m \<leftarrow> upd_item pxNewListItem (\<lambda>x. x\<lparr>pxPrevious := pxPrevious i\<rparr>) m;
     i \<leftarrow> list_items m index;
     m \<leftarrow> upd_item (pxPrevious i) (\<lambda>x. x\<lparr>pxNext := pxNewListItem\<rparr>) m;
     m \<leftarrow> upd_item index (\<lambda>x. x\<lparr>pxPrevious := pxNewListItem\<rparr>) m;
     m \<leftarrow> upd_item pxNewListItem (\<lambda>x. x\<lparr>pxContainer := pxList\<rparr>) m;
     upd_list pxList (\<lambda>l. l\<lparr>uxNumberOfItems := uxNumberOfItems l + 1\<rparr>) m
   }"

partial_function (option) insert_position :: "list_mem \<Rightarrow> u32 \<Rightarrow> u32 \<Rightarrow> u32 run" where
  "insert_position m xValueOfInsertion pxIterator =
     (case do { x \<leftarrow> list_items m pxIterator; y \<leftarrow> list_items m (pxNext x); Some (pxNext x, xItemValue y) } of
        None \<Rightarrow> Some undefined_behaviour
      | Some (nxt, v) \<Rightarrow>
          if v \<le> xValueOfInsertion then insert_position m xValueOfInsertion nxt else returns pxIterator)"

definition insert_after :: "u32 \<Rightarrow> u32 \<Rightarrow> u32 \<Rightarrow> list_mem \<Rightarrow> list_mem exec" where
  "insert_after pxList pxIterator pxNewListItem m = do {
     it \<leftarrow> list_items m pxIterator;
     m \<leftarrow> upd_item pxNewListItem (\<lambda>x. x\<lparr>pxNext := pxNext it\<rparr>) m;
     x \<leftarrow> list_items m pxNewListItem;
     m \<leftarrow> upd_item (pxNext x) (\<lambda>y. y\<lparr>pxPrevious := pxNewListItem\<rparr>) m;
     m \<leftarrow> upd_item pxNewListItem (\<lambda>x. x\<lparr>pxPrevious := pxIterator\<rparr>) m;
     m \<leftarrow> upd_item pxIterator (\<lambda>y. y\<lparr>pxNext := pxNewListItem\<rparr>) m;
     m \<leftarrow> upd_item pxNewListItem (\<lambda>x. x\<lparr>pxContainer := pxList\<rparr>) m;
     upd_list pxList (\<lambda>l. l\<lparr>uxNumberOfItems := uxNumberOfItems l + 1\<rparr>) m
   }"

definition vListInsert :: "u32 \<Rightarrow> u32 \<Rightarrow> list_mem \<Rightarrow> list_mem run" where
  "vListInsert pxList pxNewListItem m =
     (case list_items m pxNewListItem of
        None \<Rightarrow> Some undefined_behaviour
      | Some new \<Rightarrow>
          then_run
            (if xItemValue new = portMAX_DELAY
             then Some (do { e \<leftarrow> list_items m (xListEnd pxList); Some (pxPrevious e) })
             else insert_position m (xItemValue new) (xListEnd pxList))
            (\<lambda>pxIterator. Some (insert_after pxList pxIterator pxNewListItem m)))"

definition uxListRemove :: "u32 \<Rightarrow> list_mem \<Rightarrow> (u32 \<times> list_mem) exec" where
  "uxListRemove pxItemToRemove m = do {
     x \<leftarrow> list_items m pxItemToRemove;
     let pxList = pxContainer x;
     m \<leftarrow> upd_item (pxNext x) (\<lambda>y. y\<lparr>pxPrevious := pxPrevious x\<rparr>) m;
     x \<leftarrow> list_items m pxItemToRemove;
     m \<leftarrow> upd_item (pxPrevious x) (\<lambda>y. y\<lparr>pxNext := pxNext x\<rparr>) m;
     l \<leftarrow> list_heads m pxList;
     x \<leftarrow> list_items m pxItemToRemove;
     m \<leftarrow> (if pxIndex l = pxItemToRemove then upd_list pxList (\<lambda>l. l\<lparr>pxIndex := pxPrevious x\<rparr>) m else Some m);
     m \<leftarrow> upd_item pxItemToRemove (\<lambda>x. x\<lparr>pxContainer := 0\<rparr>) m;
     m \<leftarrow> upd_list pxList (\<lambda>l. l\<lparr>uxNumberOfItems := uxNumberOfItems l - 1\<rparr>) m;
     l \<leftarrow> list_heads m pxList;
     Some (uxNumberOfItems l, m)
   }"

definition listGET_OWNER_OF_NEXT_ENTRY :: "u32 \<Rightarrow> list_mem \<Rightarrow> (u32 \<times> list_mem) exec" where
  "listGET_OWNER_OF_NEXT_ENTRY pxList m = do {
     l \<leftarrow> list_heads m pxList;
     i \<leftarrow> list_items m (pxIndex l);
     m \<leftarrow> upd_list pxList (\<lambda>l. l\<lparr>pxIndex := pxNext i\<rparr>) m;
     l \<leftarrow> list_heads m pxList;
     m \<leftarrow> (if pxIndex l = xListEnd pxList then do {
             e \<leftarrow> list_items m (xListEnd pxList);
             upd_list pxList (\<lambda>l. l\<lparr>pxIndex := pxNext e\<rparr>) m
           } else Some m);
     l \<leftarrow> list_heads m pxList;
     x \<leftarrow> list_items m (pxIndex l);
     Some (pvOwner x, m)
   }"

definition listGET_OWNER_OF_HEAD_ENTRY :: "u32 \<Rightarrow> list_mem \<Rightarrow> u32 exec" where
  "listGET_OWNER_OF_HEAD_ENTRY pxList m = do {
     e \<leftarrow> list_items m (xListEnd pxList);
     x \<leftarrow> list_items m (pxNext e);
     Some (pvOwner x)
   }"

definition listGET_ITEM_VALUE_OF_HEAD_ENTRY :: "u32 \<Rightarrow> list_mem \<Rightarrow> u32 exec" where
  "listGET_ITEM_VALUE_OF_HEAD_ENTRY pxList m = do {
     e \<leftarrow> list_items m (xListEnd pxList);
     x \<leftarrow> list_items m (pxNext e);
     Some (xItemValue x)
   }"

definition listLIST_IS_EMPTY :: "u32 \<Rightarrow> list_mem \<Rightarrow> bool exec" where
  "listLIST_IS_EMPTY pxList m = do { l \<leftarrow> list_heads m pxList; Some (uxNumberOfItems l = 0) }"

definition listCURRENT_LIST_LENGTH :: "u32 \<Rightarrow> list_mem \<Rightarrow> u32 exec" where
  "listCURRENT_LIST_LENGTH pxList m = do { l \<leftarrow> list_heads m pxList; Some (uxNumberOfItems l) }"

definition listSET_LIST_ITEM_VALUE :: "u32 \<Rightarrow> u32 \<Rightarrow> list_mem \<Rightarrow> list_mem exec" where
  "listSET_LIST_ITEM_VALUE pxListItem xValue m = upd_item pxListItem (\<lambda>x. x\<lparr>xItemValue := xValue\<rparr>) m"

definition listGET_LIST_ITEM_VALUE :: "u32 \<Rightarrow> list_mem \<Rightarrow> u32 exec" where
  "listGET_LIST_ITEM_VALUE pxListItem m = do { x \<leftarrow> list_items m pxListItem; Some (xItemValue x) }"

definition listLIST_ITEM_CONTAINER :: "u32 \<Rightarrow> list_mem \<Rightarrow> u32 exec" where
  "listLIST_ITEM_CONTAINER pxListItem m = do { x \<leftarrow> list_items m pxListItem; Some (pxContainer x) }"

definition listIS_CONTAINED_WITHIN :: "u32 \<Rightarrow> u32 \<Rightarrow> list_mem \<Rightarrow> bool exec" where
  "listIS_CONTAINED_WITHIN pxList pxListItem m = do { x \<leftarrow> list_items m pxListItem; Some (pxContainer x = pxList) }"

section \<open>Lists in the store\<close>

text \<open>The two links between neighbours, and a chain of items.\<close>

definition link :: "list_mem \<Rightarrow> u32 \<Rightarrow> u32 \<Rightarrow> bool" where
  "link m a b \<longleftrightarrow> map_option pxNext (list_items m a) = Some b \<and> map_option pxPrevious (list_items m b) = Some a"

fun chain :: "list_mem \<Rightarrow> u32 list \<Rightarrow> bool" where
  "chain m [] \<longleftrightarrow> True"
| "chain m [a] \<longleftrightarrow> True"
| "chain m (a # b # zs) \<longleftrightarrow> link m a b \<and> chain m (b # zs)"

definition list_rep :: "u32 \<Rightarrow> u32 list \<Rightarrow> list_mem \<Rightarrow> bool" where
  "list_rep l xs m \<longleftrightarrow> chain m (xListEnd l # xs @ [xListEnd l]) \<and> distinct (xListEnd l # xs) \<and>
     map_option xItemValue (list_items m (xListEnd l)) = Some portMAX_DELAY \<and>
     (\<forall>x \<in> set xs. map_option pxContainer (list_items m x) = Some l) \<and>
     (\<exists>i \<in> set (xListEnd l # xs). list_heads m l = Some \<lparr>uxNumberOfItems = of_nat (length xs), pxIndex = i\<rparr>)"

definition item_value :: "list_mem \<Rightarrow> u32 \<Rightarrow> u32" where
  "item_value m a = (case list_items m a of Some x \<Rightarrow> xItemValue x | None \<Rightarrow> 0)"

text \<open>Where an item of value \<open>v\<close> goes: behind the items in front that are not larger.\<close>

definition place :: "list_mem \<Rightarrow> u32 \<Rightarrow> u32 list \<Rightarrow> u32 list" where
  "place m i xs =
     takeWhile (\<lambda>x. item_value m x \<le> item_value m i) xs @ i # dropWhile (\<lambda>x. item_value m x \<le> item_value m i) xs"

lemma chain_append:
  "chain m (us @ vs) \<longleftrightarrow> chain m us \<and> chain m vs \<and> (us = [] \<or> vs = [] \<or> link m (last us) (hd vs))"
proof (induction us rule: chain.induct)
  case (2 m a)
  then show ?case by (cases vs) auto
qed auto

lemma chain_cong:
  "(\<And>a. a \<in> set (butlast zs) \<Longrightarrow> map_option pxNext (list_items m' a) = map_option pxNext (list_items m a)) \<Longrightarrow>
   (\<And>b. b \<in> set (tl zs) \<Longrightarrow> map_option pxPrevious (list_items m' b) = map_option pxPrevious (list_items m b)) \<Longrightarrow>
   chain m' zs = chain m zs"
  by (induction zs rule: chain.induct [of _ m]) (auto simp: link_def)

text \<open>A new item between two neighbours.\<close>

definition insert_between :: "u32 \<Rightarrow> u32 \<Rightarrow> u32 \<Rightarrow> u32 \<Rightarrow> list_mem \<Rightarrow> list_mem" where
  "insert_between l p i n m =
     m\<lparr>list_items := (\<lambda>a. map_option (\<lambda>y.
          if a = i then y\<lparr>pxNext := n, pxPrevious := p, pxContainer := l\<rparr>
          else y\<lparr>pxNext := (if a = p then i else pxNext y), pxPrevious := (if a = n then i else pxPrevious y)\<rparr>)
        (list_items m a)),
       list_heads := (\<lambda>k. map_option (\<lambda>x. if k = l then x\<lparr>uxNumberOfItems := uxNumberOfItems x + 1\<rparr> else x) (list_heads m k))\<rparr>"

lemma insert_after_eq:
  assumes "link m p n" and "list_items m i \<noteq> None" and "i \<noteq> p" and "i \<noteq> n" and "list_heads m l \<noteq> None"
  shows "insert_after l p i m = Some (insert_between l p i n m)"
proof -
  obtain x y z h where "list_items m p = Some x" "list_items m n = Some y" "list_items m i = Some z" "list_heads m l = Some h"
      "pxNext x = n" "pxPrevious y = p"
    using assms by (auto simp: link_def)
  then show ?thesis
    using assms(3,4)
    by (cases "p = n")
      (auto simp: insert_after_def insert_between_def upd_item_def upd_list_def fun_eq_iff option.map_ident
        intro!: list_mem.equality)
qed

lemma insert_end_eq:
  assumes "list_heads m l = Some h" and "pxIndex h = n" and "link m p n" and "list_items m i \<noteq> None" and "i \<noteq> p" and "i \<noteq> n"
  shows "vListInsertEnd l i m = Some (insert_between l p i n m)"
proof -
  obtain x y z where "list_items m p = Some x" "list_items m n = Some y" "list_items m i = Some z"
      "pxNext x = n" "pxPrevious y = p"
    using assms by (auto simp: link_def)
  then show ?thesis
    using assms(1,2,5,6)
    by (cases "p = n")
      (auto simp: vListInsertEnd_def insert_between_def upd_item_def upd_list_def fun_eq_iff option.map_ident
        intro!: list_mem.equality)
qed

lemma insert_between_fields:
  "map_option pxNext (list_items (insert_between l p i n m) a) =
     (if a = i then map_option (\<lambda>_. n) (list_items m a)
      else if a = p then map_option (\<lambda>_. i) (list_items m a) else map_option pxNext (list_items m a))"
  "map_option pxPrevious (list_items (insert_between l p i n m) a) =
     (if a = i then map_option (\<lambda>_. p) (list_items m a)
      else if a = n then map_option (\<lambda>_. i) (list_items m a) else map_option pxPrevious (list_items m a))"
  "map_option xItemValue (list_items (insert_between l p i n m) a) = map_option xItemValue (list_items m a)"
  "map_option pvOwner (list_items (insert_between l p i n m) a) = map_option pvOwner (list_items m a)"
  "map_option pxContainer (list_items (insert_between l p i n m) a) =
     (if a = i then map_option (\<lambda>_. l) (list_items m a) else map_option pxContainer (list_items m a))"
  by (auto simp: insert_between_def option.map_comp o_def intro!: option.map_cong)

lemma chain_insert:
  assumes "chain m (us @ vs)" and "us \<noteq> []" and "vs \<noteq> []" and "i \<notin> set us" and "i \<notin> set vs" and "list_items m i \<noteq> None"
    and "distinct us" and "distinct vs" and "hd vs \<notin> set (tl us)" and "last us \<notin> set (butlast vs)"
  shows "chain (insert_between l (last us) i (hd vs) m) (us @ i # vs)"
proof -
  let ?m = "insert_between l (last us) i (hd vs) m"
  have parts: "chain m us" "chain m vs" "link m (last us) (hd vs)"
    using assms(1-3) by (auto simp: chain_append)
  have out: "last us \<notin> set (butlast us)" "hd vs \<notin> set (tl vs)" "i \<notin> set (butlast us)" "i \<notin> set (tl us)"
      "i \<notin> set (butlast vs)" "i \<notin> set (tl vs)"
    using assms(2-5,7,8) by (cases us rule: rev_cases; cases vs; auto dest: in_set_butlastD list.set_sel(2) [rotated])+
  have "chain ?m us = chain m us" "chain ?m vs = chain m vs"
    using out assms(9,10) by (intro chain_cong; auto simp: insert_between_fields)+
  then have "chain ?m us" "chain ?m vs" using parts by simp_all
  moreover have "i \<noteq> last us" "i \<noteq> hd vs" using assms(2-5) by auto
  then have "link ?m (last us) i" "link ?m i (hd vs)"
    using parts(3) assms(6) by (auto simp: link_def insert_between_fields)
  ultimately show ?thesis
    using assms(2,3) chain_append [of ?m us "i # vs"] chain_append [of ?m "[i]" vs] by simp
qed

lemma list_rep_insert:
  assumes "list_rep l (us @ vs) m" and "list_items m i \<noteq> None" and "i \<notin> set (xListEnd l # us @ vs)"
  shows "list_rep l (us @ i # vs) (insert_between l (last (xListEnd l # us)) i (hd (vs @ [xListEnd l])) m)"
proof -
  let ?e = "xListEnd l" and ?m = "insert_between l (last (xListEnd l # us)) i (hd (vs @ [xListEnd l])) m"
  have d: "distinct (?e # us @ vs)" using assms(1) by (simp add: list_rep_def)
  have "hd (vs @ [?e]) \<notin> set us" using d by (cases vs) auto
  moreover have "last (?e # us) \<notin> set vs" using d by (cases us rule: rev_cases) auto
  ultimately have "chain ?m ((?e # us) @ i # (vs @ [?e]))"
    using assms d by (intro chain_insert) (auto simp: list_rep_def)
  moreover have "\<exists>k \<in> set (?e # us @ i # vs). list_heads ?m l = Some \<lparr>uxNumberOfItems = of_nat (length (us @ i # vs)), pxIndex = k\<rparr>"
    using assms(1) by (auto simp: list_rep_def insert_between_def)
  moreover have "map_option pxContainer (list_items ?m i) = Some l"
    using assms(2) by (auto simp: insert_between_fields)
  ultimately show ?thesis
    using assms(1,3) d unfolding list_rep_def by (auto simp: insert_between_fields simp del: map_option_eq_Some)
qed

lemma list_rep_link:
  assumes "list_rep l (us @ vs) m"
  shows "link m (last (xListEnd l # us)) (hd (vs @ [xListEnd l]))"
  using assms chain_append [of m "xListEnd l # us" "vs @ [xListEnd l]"] by (simp add: list_rep_def)

lemma list_rep_head: "list_rep l xs m \<Longrightarrow> list_heads m l \<noteq> None"
  by (auto simp: list_rep_def)

text \<open>The search for the place of a value.\<close>

lemma list_rep_end:
  "list_rep l xs m \<Longrightarrow> \<exists>e. list_items m (xListEnd l) = Some e \<and> xItemValue e = portMAX_DELAY"
  by (auto simp: list_rep_def)

lemma max_delay [simp]: "v \<le> portMAX_DELAY"
proof -
  have "unat v \<le> 4294967295" using unat_u32_bound [of v] by linarith
  then show ?thesis by (simp add: portMAX_DELAY_def word_le_nat_alt)
qed

lemma insert_position_runs:
  assumes "list_rep l (us @ vs) m" and "v \<noteq> portMAX_DELAY"
  shows "insert_position m v (last (xListEnd l # us)) =
    returns (last (xListEnd l # us @ takeWhile (\<lambda>x. item_value m x \<le> v) vs))"
  using assms(1)
proof (induction vs arbitrary: us)
  case Nil
  obtain x where "list_items m (last (xListEnd l # us)) = Some x" "pxNext x = xListEnd l"
    using list_rep_link [OF Nil] by (auto simp: link_def)
  moreover have "\<not> portMAX_DELAY \<le> v"
    using assms(2) max_delay [of v] by (metis order_antisym)
  ultimately show ?case
    using list_rep_end [OF Nil] by (subst insert_position.simps) auto
next
  case (Cons x vs)
  obtain p y where p: "list_items m (last (xListEnd l # us)) = Some p" "pxNext p = x" "list_items m x = Some y"
    using list_rep_link [OF Cons.prems] by (auto simp: link_def)
  then have v: "item_value m x = xItemValue y" by (simp add: item_value_def)
  show ?case
  proof (cases "item_value m x \<le> v")
    case True
    then have "insert_position m v (last (xListEnd l # us)) = insert_position m v (last (xListEnd l # us @ [x]))"
      using p v by (subst insert_position.simps) simp
    then show ?thesis using Cons.IH [of "us @ [x]"] Cons.prems True by simp
  next
    case False
    then show ?thesis using p v by (subst insert_position.simps) simp
  qed
qed

lemma insert_runs:
  assumes "list_rep l xs m" and "list_items m i = Some new" and "i \<notin> set (xListEnd l # xs)"
  shows "\<exists>p n. vListInsert l i m = returns (insert_between l p i n m) \<and> p \<in> set (xListEnd l # xs) \<and> n \<in> set (xListEnd l # xs)
    \<and> list_rep l (place m i xs) (insert_between l p i n m)"
proof -
  let ?P = "\<lambda>x. item_value m x \<le> item_value m i" and ?e = "xListEnd l"
  let ?p = "last (?e # takeWhile ?P xs)" and ?n = "hd (dropWhile ?P xs @ [?e])"
  have v: "item_value m i = xItemValue new" using assms(2) by (simp add: item_value_def)
  have split: "list_rep l (takeWhile ?P xs @ dropWhile ?P xs) m" using assms(1) by simp
  have pn: "?p \<in> set (?e # xs)" "?n \<in> set (?e # xs)"
    by (metis last_in_set list.discI set_ConsD list.set_intros set_takeWhileD,
      metis append_Nil hd_append2 hd_in_set list.sel(1) list.set_intros set_dropWhileD)
  have "vListInsert l i m = Some (insert_after l ?p i m)"
  proof (cases "xItemValue new = portMAX_DELAY")
    case True
    then have all: "takeWhile ?P xs = xs"
      using v by (simp add: takeWhile_eq_all_conv)
    obtain e where "list_items m ?e = Some e" "pxPrevious e = last (?e # xs)"
      using list_rep_link [of l xs "[]" m] assms(1) by (auto simp: link_def)
    then show ?thesis unfolding vListInsert_def all using True assms(2) by simp
  next
    case False
    then show ?thesis
      using insert_position_runs [of l "[]" xs m "xItemValue new"] assms(1,2) v by (simp add: vListInsert_def)
  qed
  moreover have "insert_after l ?p i m = Some (insert_between l ?p i ?n m)"
    using list_rep_link [OF split] assms pn list_rep_head by (intro insert_after_eq) auto
  moreover have "list_rep l (place m i xs) (insert_between l ?p i ?n m)"
    unfolding place_def using assms by (intro list_rep_insert) (auto dest: set_takeWhileD set_dropWhileD)
  ultimately show ?thesis using pn by (intro exI [of _ ?p] exI [of _ ?n]) simp
qed

section \<open>Removal\<close>

definition remove_between :: "u32 \<Rightarrow> u32 \<Rightarrow> u32 \<Rightarrow> u32 \<Rightarrow> list_mem \<Rightarrow> list_mem" where
  "remove_between l p i n m =
     m\<lparr>list_items := (\<lambda>a. map_option (\<lambda>y.
          if a = i then y\<lparr>pxContainer := 0\<rparr>
          else y\<lparr>pxNext := (if a = p then n else pxNext y), pxPrevious := (if a = n then p else pxPrevious y)\<rparr>)
        (list_items m a)),
       list_heads := (\<lambda>k. map_option (\<lambda>x. if k = l then
           x\<lparr>uxNumberOfItems := uxNumberOfItems x - 1, pxIndex := (if pxIndex x = i then p else pxIndex x)\<rparr> else x) (list_heads m k))\<rparr>"

lemma remove_eq:
  assumes "link m p i" and "link m i n" and "map_option pxContainer (list_items m i) = Some l" and "list_heads m l = Some h"
    and "i \<noteq> p" and "i \<noteq> n"
  shows "uxListRemove i m = Some (uxNumberOfItems h - 1, remove_between l p i n m)"
proof -
  obtain x y z where "list_items m p = Some x" "list_items m n = Some y" "list_items m i = Some z"
      "pxNext z = n" "pxPrevious z = p" "pxContainer z = l"
    using assms(1-3) by (auto simp: link_def)
  then show ?thesis
    using assms(4-)
    by (cases "p = n"; cases "pxIndex h = i")
      (auto simp: uxListRemove_def remove_between_def upd_item_def upd_list_def fun_eq_iff option.map_ident
        intro!: list_mem.equality)
qed

lemma remove_between_fields:
  "map_option pxNext (list_items (remove_between l p i n m) a) =
     (if a \<noteq> i \<and> a = p then map_option (\<lambda>_. n) (list_items m a) else map_option pxNext (list_items m a))"
  "map_option pxPrevious (list_items (remove_between l p i n m) a) =
     (if a \<noteq> i \<and> a = n then map_option (\<lambda>_. p) (list_items m a) else map_option pxPrevious (list_items m a))"
  "map_option xItemValue (list_items (remove_between l p i n m) a) = map_option xItemValue (list_items m a)"
  "map_option pvOwner (list_items (remove_between l p i n m) a) = map_option pvOwner (list_items m a)"
  "map_option pxContainer (list_items (remove_between l p i n m) a) =
     (if a = i then map_option (\<lambda>_. 0) (list_items m a) else map_option pxContainer (list_items m a))"
  by (auto simp: remove_between_def option.map_comp o_def intro!: option.map_cong)

lemma chain_remove:
  assumes "chain m (us @ i # vs)" and "us \<noteq> []" and "vs \<noteq> []" and "i \<notin> set us" and "i \<notin> set vs"
    and "distinct us" and "distinct vs" and "hd vs \<notin> set (tl us)" and "last us \<notin> set (butlast vs)"
  shows "chain (remove_between l (last us) i (hd vs) m) (us @ vs)"
proof -
  let ?m = "remove_between l (last us) i (hd vs) m"
  have parts: "chain m us" "chain m vs" "link m (last us) i" "link m i (hd vs)"
    using assms(1-3) chain_append [of m us "i # vs"] chain_append [of m "[i]" vs] by auto
  have out: "last us \<notin> set (butlast us)" "hd vs \<notin> set (tl vs)"
    using assms(2,3,6,7) by (cases us rule: rev_cases; cases vs; auto)+
  have "chain ?m us = chain m us" "chain ?m vs = chain m vs"
    using out assms(8,9) by (intro chain_cong; auto simp: remove_between_fields)+
  moreover have "i \<noteq> last us" "i \<noteq> hd vs" using assms(2-5) by auto
  then have "link ?m (last us) (hd vs)"
    using parts(3,4) by (auto simp: link_def remove_between_fields)
  ultimately show ?thesis using parts(1,2) by (simp add: chain_append)
qed

lemma list_rep_remove:
  assumes "list_rep l (us @ i # vs) m"
  shows "uxListRemove i m = Some (of_nat (length (us @ vs)), remove_between l (last (xListEnd l # us)) i (hd (vs @ [xListEnd l])) m)"
    and "list_rep l (us @ vs) (remove_between l (last (xListEnd l # us)) i (hd (vs @ [xListEnd l])) m)"
proof -
  let ?e = "xListEnd l" and ?m = "remove_between l (last (xListEnd l # us)) i (hd (vs @ [xListEnd l])) m"
  let ?p = "last (?e # us)" and ?n = "hd (vs @ [?e])"
  have d: "distinct (?e # us @ i # vs)" using assms(1) by (simp add: list_rep_def)
  obtain h where h: "list_heads m l = Some h" "uxNumberOfItems h = of_nat (length (us @ i # vs))" "pxIndex h \<in> set (?e # us @ i # vs)"
    using assms by (auto simp: list_rep_def)
  have np: "?n \<notin> set us" "?p \<notin> set vs" "i \<noteq> ?p" "i \<noteq> ?n"
  proof -
    show "?n \<notin> set us" "i \<noteq> ?n" using d by (cases vs; auto)+
    show "?p \<notin> set vs" "i \<noteq> ?p" using d by (cases us rule: rev_cases; auto)+
  qed
  have "link m ?p i" using list_rep_link [of l us "i # vs" m] assms by simp
  moreover have "link m i ?n" using list_rep_link [of l "us @ [i]" vs m] assms by simp
  ultimately show "uxListRemove i m = Some (of_nat (length (us @ vs)), ?m)"
    using remove_eq [of m ?p i ?n l h] assms h np by (simp add: list_rep_def)
  have "chain ?m ((?e # us) @ (vs @ [?e]))"
    using assms d np by (intro chain_remove) (auto simp: list_rep_def)
  moreover have "\<exists>k \<in> set (?e # us @ vs). list_heads ?m l = Some \<lparr>uxNumberOfItems = of_nat (length (us @ vs)), pxIndex = k\<rparr>"
    using h by (cases h) (auto simp: remove_between_def)
  ultimately show "list_rep l (us @ vs) ?m"
    using assms d unfolding list_rep_def by (auto simp: remove_between_fields simp del: map_option_eq_Some)
qed

section \<open>Other lists\<close>

text \<open>The items and the head that an operation on a list does not touch, and what a list depends on.\<close>

lemma between_frame:
  "a \<notin> {i, p, n} \<Longrightarrow> list_items (insert_between l p i n m) a = list_items m a"
  "a \<notin> {i, p, n} \<Longrightarrow> list_items (remove_between l p i n m) a = list_items m a"
  "k \<noteq> l \<Longrightarrow> list_heads (insert_between l p i n m) k = list_heads m k"
  "k \<noteq> l \<Longrightarrow> list_heads (remove_between l p i n m) k = list_heads m k"
  by (simp_all add: insert_between_def remove_between_def option.map_ident)

lemma list_rep_cong:
  assumes "\<And>a. a \<in> set (xListEnd k # ys) \<Longrightarrow> list_items m' a = list_items m a" and "list_heads m' k = list_heads m k"
  shows "list_rep k ys m' = list_rep k ys m"
proof -
  have "chain m' (xListEnd k # ys @ [xListEnd k]) = chain m (xListEnd k # ys @ [xListEnd k])"
    by (rule chain_cong) (use assms(1) in \<open>auto simp: butlast_append\<close>)
  then show ?thesis using assms by (simp add: list_rep_def)
qed

section \<open>Walking\<close>

definition list_index :: "u32 \<Rightarrow> list_mem \<Rightarrow> u32" where
  "list_index l m = (case list_heads m l of Some h \<Rightarrow> pxIndex h | None \<Rightarrow> 0)"

definition owner :: "list_mem \<Rightarrow> u32 \<Rightarrow> u32" where
  "owner m a = (case list_items m a of Some x \<Rightarrow> pvOwner x | None \<Rightarrow> 0)"

definition set_index :: "u32 \<Rightarrow> u32 \<Rightarrow> list_mem \<Rightarrow> list_mem" where
  "set_index l i m = m\<lparr>list_heads := (\<lambda>k. map_option (\<lambda>h. if k = l then h\<lparr>pxIndex := i\<rparr> else h) (list_heads m k))\<rparr>"

lemma list_rep_index: "list_rep l xs m \<Longrightarrow> list_index l m \<in> set (xListEnd l # xs)"
  by (auto simp: list_rep_def list_index_def)

lemma list_rep_set_index:
  assumes "list_rep l xs m" and "i \<in> set (xListEnd l # xs)"
  shows "list_rep l xs (set_index l i m)" and "list_index l (set_index l i m) = i" and "owner (set_index l i m) = owner m"
proof -
  have "chain (set_index l i m) zs = chain m zs" for zs
    by (rule chain_cong) (simp_all add: set_index_def)
  then show "list_rep l xs (set_index l i m)"
    using assms by (auto simp: list_rep_def set_index_def)
  show "list_index l (set_index l i m) = i" "owner (set_index l i m) = owner m"
    using assms by (auto simp: list_rep_def list_index_def set_index_def owner_def fun_eq_iff)
qed

text \<open>The item after the current one, around the marker.\<close>

lemma walk_step:
  assumes "list_rep l (us @ x # vs) m" and "list_index l m = last (xListEnd l # us) \<or> us = [] \<and> list_index l m = last (x # vs)"
  shows "listGET_OWNER_OF_NEXT_ENTRY l m = Some (owner m x, set_index l x m)"
proof -
  let ?e = "xListEnd l" and ?i = "list_index l m"
  obtain h where h: "list_heads m l = Some h" "pxIndex h = ?i"
    using assms(1) by (auto simp: list_rep_def list_index_def)
  have d: "distinct (?e # us @ x # vs)" using assms(1) by (simp add: list_rep_def)
  obtain p y where p: "list_items m (last (?e # us)) = Some p" "pxNext p = x" "list_items m x = Some y"
    using list_rep_link [OF assms(1)] by (auto simp: link_def)
  have o: "owner m x = pvOwner y" using p by (simp add: owner_def)
  consider (after) "?i = last (?e # us)" | (wrap) "us = []" "?i = last (x # vs)" "?i \<noteq> ?e"
    using assms(2) d by fastforce
  then show ?thesis
  proof cases
    case after
    then show ?thesis
      using h p o d
      by (auto simp: listGET_OWNER_OF_NEXT_ENTRY_def upd_list_def set_index_def fun_eq_iff option.map_ident intro!: list_mem.equality)
  next
    case wrap
    obtain q where "list_items m ?i = Some q" "pxNext q = ?e"
      using list_rep_link [of l "us @ x # vs" "[]" m] assms(1) wrap by (auto simp: link_def)
    then show ?thesis
      using h p o wrap
      by (auto simp: listGET_OWNER_OF_NEXT_ENTRY_def upd_list_def set_index_def fun_eq_iff option.map_ident intro!: list_mem.equality)
  qed
qed

text \<open>Several calls in a row, with the owners they return.\<close>

fun next_owners :: "nat \<Rightarrow> u32 \<Rightarrow> list_mem \<Rightarrow> (u32 list \<times> list_mem) exec" where
  "next_owners 0 l m = Some ([], m)"
| "next_owners (Suc k) l m = do {
     (x, m) \<leftarrow> listGET_OWNER_OF_NEXT_ENTRY l m;
     (xs, m) \<leftarrow> next_owners k l m;
     Some (x # xs, m)
   }"

lemma next_owners_add:
  "next_owners j l m = Some (xs, m') \<Longrightarrow> next_owners k l m' = Some (ys, m'') \<Longrightarrow> next_owners (j + k) l m = Some (xs @ ys, m'')"
proof (induction j arbitrary: m xs)
  case (Suc j)
  then show ?case by (auto split: bind_splits)
qed simp

lemma walk_forward:
  assumes "list_rep l (us @ vs @ ws) m" and "list_index l m = last (xListEnd l # us)"
  shows "\<exists>m'. next_owners (length vs) l m = Some (map (owner m) vs, m') \<and> list_rep l (us @ vs @ ws) m'
    \<and> list_index l m' = last (xListEnd l # us @ vs) \<and> owner m' = owner m"
  using assms
proof (induction vs arbitrary: us m)
  case (Cons x vs)
  let ?m = "set_index l x m"
  have step: "listGET_OWNER_OF_NEXT_ENTRY l m = Some (owner m x, ?m)"
    using Cons.prems by (intro walk_step [of l us x "vs @ ws"]) auto
  have rep: "list_rep l ((us @ [x]) @ vs @ ws) ?m" "list_index l ?m = x" "owner ?m = owner m"
    using list_rep_set_index [of l "us @ x # vs @ ws" m x] Cons.prems by auto
  then show ?case
    using Cons.IH [of "us @ [x]" ?m] step by auto
qed auto

lemma walk_round:
  assumes "list_rep l (us @ vs) m" and "list_index l m = last (xListEnd l # us)"
  shows "\<exists>m'. next_owners (length (us @ vs)) l m = Some (map (owner m) (vs @ us), m') \<and> list_rep l (us @ vs) m'"
proof -
  obtain m1 where m1: "next_owners (length vs) l m = Some (map (owner m) vs, m1)" "list_rep l (us @ vs) m1"
      "list_index l m1 = last (xListEnd l # us @ vs)" "owner m1 = owner m"
    using walk_forward [of l us vs "[]" m] assms by auto
  show ?thesis
  proof (cases us)
    case Nil
    then show ?thesis using m1 by auto
  next
    case (Cons u us')
    let ?m = "set_index l u m1"
    have step: "listGET_OWNER_OF_NEXT_ENTRY l m1 = Some (owner m u, ?m)"
      using m1 Cons walk_step [of l "[]" u "us' @ vs" m1] by simp
    have "list_rep l ([u] @ us' @ vs) ?m" "list_index l ?m = u" "owner ?m = owner m"
      using list_rep_set_index [of l "us @ vs" m1 u] m1 Cons by auto
    then obtain m2 where m2: "next_owners (length us') l ?m = Some (map (owner m) us', m2)" "list_rep l (us @ vs) m2"
      using walk_forward [of l "[u]" us' vs ?m] Cons by auto
    then have "next_owners (length us) l m1 = Some (map (owner m) us, m2)"
      using step Cons by simp
    then show ?thesis
      using next_owners_add [OF m1(1)] m2(2) by (auto simp: add.commute)
  qed
qed

lemma insert_end_runs:
  assumes "list_rep l (us @ vs) m" and "list_index l m = hd (vs @ [xListEnd l])" and "list_items m i \<noteq> None"
    and "i \<notin> set (xListEnd l # us @ vs)"
  defines "m' \<equiv> insert_between l (last (xListEnd l # us)) i (hd (vs @ [xListEnd l])) m"
  shows "vListInsertEnd l i m = Some m'" and "list_rep l (us @ i # vs) m'" and "list_index l m' = list_index l m"
    and "owner m' = owner m"
proof -
  obtain h where h: "list_heads m l = Some h" "pxIndex h = list_index l m"
    using assms(1) by (auto simp: list_rep_def list_index_def)
  have "i \<noteq> last (xListEnd l # us)" using assms(4) by (cases us rule: rev_cases) auto
  moreover have "i \<noteq> hd (vs @ [xListEnd l])" using assms(4) by (cases vs) auto
  ultimately show "vListInsertEnd l i m = Some m'"
    unfolding m'_def using h assms(2,3) list_rep_link [OF assms(1)] by (intro insert_end_eq) auto
  show "list_rep l (us @ i # vs) m'" unfolding m'_def by (rule list_rep_insert [OF assms(1,3,4)])
  show "list_index l m' = list_index l m" "owner m' = owner m"
    unfolding m'_def using h by (auto simp: list_index_def owner_def insert_between_def fun_eq_iff split: option.splits)
qed

section \<open>Properties\<close>

lemma item_value_between [simp]: "item_value (insert_between l p i n m) = item_value m"
  by (auto simp: item_value_def insert_between_def fun_eq_iff split: option.splits)

lemma place_sorted:
  assumes "sorted (map (item_value m) xs)"
  shows "sorted (map (item_value m) (place m i xs))"
proof -
  let ?P = "\<lambda>x. item_value m x \<le> item_value m i"
  have "item_value m i \<le> item_value m y" if "y \<in> set (dropWhile ?P xs)" for y
    using assms that by (induction xs) (auto split: if_splits)
  moreover have "sorted (map (item_value m) (takeWhile ?P xs)) \<and> sorted (map (item_value m) (dropWhile ?P xs))"
    using assms sorted_append [of "map (item_value m) (takeWhile ?P xs)" "map (item_value m) (dropWhile ?P xs)"]
    by (metis map_append takeWhile_dropWhile_id)
  ultimately show ?thesis
    by (auto simp: place_def sorted_append dest: set_takeWhileD order_trans)
qed

text \<open>\<open>vListInsert\<close> returns and keeps a list sorted: the search for the place ends, for every value including the
  largest, the item stands behind the items whose value is not larger (so that equal values keep the
  order of their insertion), the order by value is kept, and every other list is untouched.\<close>

lemma list_insert_sorted:
  assumes "list_rep l xs m" and "sorted (map (item_value m) xs)" and "list_items m i \<noteq> None" and "i \<notin> set (xListEnd l # xs)"
  shows "\<exists>m'. vListInsert l i m = returns m' \<and> list_rep l (place m i xs) m' \<and> sorted (map (item_value m') (place m i xs))
    \<and> (\<forall>k ys. k \<noteq> l \<longrightarrow> list_rep k ys m \<longrightarrow> set (xListEnd k # ys) \<inter> set (i # xListEnd l # xs) = {} \<longrightarrow> list_rep k ys m')"
proof -
  obtain new where "list_items m i = Some new" using assms(3) by auto
  then obtain p n where pn: "vListInsert l i m = returns (insert_between l p i n m)" "p \<in> set (xListEnd l # xs)" "n \<in> set (xListEnd l # xs)"
      "list_rep l (place m i xs) (insert_between l p i n m)"
    using insert_runs [OF assms(1) _ assms(4)] by blast
  have "list_rep k ys (insert_between l p i n m)"
    if "k \<noteq> l" "list_rep k ys m" "set (xListEnd k # ys) \<inter> set (i # xListEnd l # xs) = {}" for k ys
  proof -
    have "list_items (insert_between l p i n m) a = list_items m a" if "a \<in> set (xListEnd k # ys)" for a
      using that pn(2,3) \<open>set (xListEnd k # ys) \<inter> set (i # xListEnd l # xs) = {}\<close> by (intro between_frame) auto
    then show ?thesis using list_rep_cong [of k ys _ m] between_frame(3) [OF that(1)] that(2) by blast
  qed
  then show ?thesis using pn(1,4) place_sorted [OF assms(2)] by auto
qed

text \<open>Two items in memory and an empty list at address 64.\<close>

definition sample_items :: list_mem where
  "sample_items = vListInitialise 64
     \<lparr>list_items = [128 \<mapsto> \<lparr>xItemValue = 5, pxNext = 0, pxPrevious = 0, pvOwner = 1000, pxContainer = 0\<rparr>,
                    160 \<mapsto> \<lparr>xItemValue = 3, pxNext = 0, pxPrevious = 0, pvOwner = 2000, pxContainer = 0\<rparr>],
      list_heads = (\<lambda>_. None)\<rparr>"

lemma initialise_rep: "list_rep l [] (vListInitialise l m)"
  by (simp add: list_rep_def vListInitialise_def link_def)

lemma sample_list:
  "list_rep 64 [] sample_items" "list_items sample_items 128 \<noteq> None" "xListEnd 64 = 72"
  "list_index 64 sample_items = 72" "owner sample_items 128 = 1000"
proof -
  show "list_rep 64 [] sample_items" unfolding sample_items_def by (rule initialise_rep)
qed (simp_all add: sample_items_def vListInitialise_def xListEnd_def list_index_def owner_def)

text \<open>Round robin: after \<open>vListInsertEnd\<close>, as many calls of \<open>listGET_OWNER_OF_NEXT_ENTRY\<close> as the list has items return the
  owner of every item exactly once, in the order of the list from behind the current item on; the new item
  comes after all others except the current one, which was returned just before the insertion.\<close>

lemma insert_end_round_robin:
  assumes "list_rep l (us @ vs) m" and "list_index l m = hd (vs @ [xListEnd l])" and "list_items m i \<noteq> None"
    and "i \<notin> set (xListEnd l # us @ vs)"
  shows "\<exists>m1 m2. vListInsertEnd l i m = Some m1
    \<and> next_owners (Suc (length (us @ vs))) l m1 = Some (map (owner m) (tl vs @ us @ [i] @ take 1 vs), m2) \<and> list_rep l (us @ i # vs) m2"
proof -
  obtain m1 where m1: "vListInsertEnd l i m = Some m1" "list_rep l (us @ i # vs) m1" "list_index l m1 = list_index l m" "owner m1 = owner m"
    using insert_end_runs [OF assms] by blast
  show ?thesis
  proof (cases vs)
    case Nil
    then show ?thesis using walk_round [of l "[]" "us @ [i]" m1] m1 assms(2) by auto
  next
    case (Cons k ks)
    then show ?thesis using walk_round [of l "us @ [i, k]" ks m1] m1 assms(2) by (auto simp: add.commute)
  qed
qed

text \<open>Removing the item that was inserted restores the list, and the result is the number of items left.\<close>

lemma insert_remove_roundtrip:
  assumes "list_rep l xs m" and "list_items m i \<noteq> None" and "i \<notin> set (xListEnd l # xs)"
  shows "\<exists>m1 m2. vListInsert l i m = returns m1 \<and> uxListRemove i m1 = Some (of_nat (length xs), m2) \<and> list_rep l xs m2"
proof -
  obtain m1 where m1: "vListInsert l i m = returns m1" "list_rep l (place m i xs) m1"
    using insert_runs [OF assms(1) _ assms(3)] assms(2) by blast
  then show ?thesis
    using list_rep_remove [of l _ i _ m1] unfolding place_def
    by (metis (no_types, lifting) takeWhile_dropWhile_id)
qed

end
