(* ===== verification/FreeRTOS_Queue.thy ===== *)
theory FreeRTOS_Queue
  imports FreeRTOS_List
begin

text \<open>
  The queues of the operating system (\<^verbatim>\<open>FreeRTOS/Source/queue.c\<close>), which carry the messages of the
  mailboxes of lwIP: a ring of items in a byte array, addressed by pointers that wrap around, two event lists with the
  waiting tasks, and lock counters for interrupts. The clock part of the blocking calls
  (\<^verbatim>\<open>vTaskInternalSetTimeOutState\<close>, \<^verbatim>\<open>xTaskCheckForTimeOut\<close> of \<^verbatim>\<open>tasks.c\<close>) is modelled with its wrap-around; the
  other operations of the scheduler that the queue calls are the parameter \<open>task_api\<close>. Other tasks and interrupts run where the code
  leaves a critical section, resumes the scheduler or yields outside of one: these operations of the parameter may change
  the whole state, the queue included. A yield inside a critical section (\<open>queueYIELD_IF_USING_PREEMPTION\<close>) is a request that is
  served when the section is left.

  The storage area is the list of the bytes from \<^verbatim>\<open>pcHead\<close> on; a copy to or from an address outside of it is
  undefined behaviour. The union of \<^verbatim>\<open>xQUEUE\<close> holds the pointers of a queue in one use and the data of a mutex in the other,
  and each has its own field. Queue sets and the trace facility are off, as in the default
  configuration.
\<close>

section \<open>Data\<close>

record Queue_t =
  pcHead :: u32
  pcWriteTo :: u32
  pcTail :: u32
  pcReadFrom :: u32
  xMutexHolder :: u32
  uxRecursiveCallCount :: u32
  uxMessagesWaiting :: u32
  uxLength :: u32
  uxItemSize :: u32
  cRxLock :: u8
  cTxLock :: u8
  q_storage :: bytes

record TimeOut_t =
  xOverflowCount :: u32
  xTimeOnEntering :: u32

datatype queue_position = queueSEND_TO_BACK | queueSEND_TO_FRONT | queueOVERWRITE

definition queueUNLOCKED :: u8 where
  "queueUNLOCKED = -1"

definition queueLOCKED_UNMODIFIED :: u8 where
  "queueLOCKED_UNMODIFIED = 0"

definition queueINT8_MAX :: u8 where
  "queueINT8_MAX = 127"

text \<open>A queue at its address with the lists, the clock and the rest of the scheduler.\<close>

record 'k world =
  queue_address :: u32
  the_queue :: Queue_t
  event_lists :: list_mem
  xTickCount :: u32
  xNumOfOverflows :: u32
  tasks :: 'k

record 'k task_api =
  xTaskRemoveFromEventList :: "u32 \<Rightarrow> 'k world \<Rightarrow> bool \<times> 'k world"
  vTaskPlaceOnEventList :: "u32 \<Rightarrow> u32 \<Rightarrow> 'k world \<Rightarrow> 'k world"
  xTaskPriorityDisinherit :: "u32 \<Rightarrow> 'k world \<Rightarrow> bool \<times> 'k world"
  uxTaskGetNumberOfTasks :: "'k world \<Rightarrow> u32"
  vTaskMissedYield :: "'k world \<Rightarrow> 'k world"
  vTaskSuspendAll :: "'k world \<Rightarrow> 'k world"
  xTaskResumeAll :: "'k world \<Rightarrow> bool \<times> 'k world"
  queueYIELD_IF_USING_PREEMPTION :: "'k world \<Rightarrow> 'k world"
  taskYIELD_WITHIN_API :: "'k world \<Rightarrow> 'k world"
  taskEXIT_CRITICAL :: "'k world \<Rightarrow> 'k world"
  scheduler_suspended :: "'k world \<Rightarrow> bool"
  INCLUDE_vTaskSuspend :: bool

text \<open>The two lists inside the queue structure.\<close>

definition xTasksWaitingToSend :: "'k world \<Rightarrow> u32" where
  "xTasksWaitingToSend w = queue_address w + 16"

definition xTasksWaitingToReceive :: "'k world \<Rightarrow> u32" where
  "xTasksWaitingToReceive w = queue_address w + 36"

definition upd_queue :: "(Queue_t \<Rightarrow> Queue_t) \<Rightarrow> 'k world \<Rightarrow> 'k world" where
  "upd_queue f w = w\<lparr>the_queue := f (the_queue w)\<rparr>"

section \<open>Creation\<close>

definition xQueueGenericReset :: "'k task_api \<Rightarrow> bool \<Rightarrow> 'k world \<Rightarrow> 'k world exec" where
  "xQueueGenericReset api xNewQueue w =
     (let q = the_queue w in
      if uxLength q \<ge> 1 \<and> (-1) div uxLength q \<ge> uxItemSize q then do {
        let w = upd_queue (\<lambda>q. q\<lparr>pcTail := pcHead q + uxLength q * uxItemSize q, uxMessagesWaiting := 0, pcWriteTo := pcHead q,
          pcReadFrom := pcHead q + (uxLength q - 1) * uxItemSize q, cRxLock := queueUNLOCKED, cTxLock := queueUNLOCKED\<rparr>) w;
        w \<leftarrow> (if \<not> xNewQueue then do {
                empty \<leftarrow> listLIST_IS_EMPTY (xTasksWaitingToSend w) (event_lists w);
                Some (if \<not> empty then
                        let (yield, w) = xTaskRemoveFromEventList api (xTasksWaitingToSend w) w
                        in if yield then queueYIELD_IF_USING_PREEMPTION api w else w
                      else w)
              } else
                Some (w\<lparr>event_lists := vListInitialise (xTasksWaitingToReceive w)
                                          (vListInitialise (xTasksWaitingToSend w) (event_lists w))\<rparr>));
        Some (taskEXIT_CRITICAL api w)
      } else undefined_behaviour)"

definition prvInitialiseNewQueue :: "'k task_api \<Rightarrow> u32 \<Rightarrow> u32 \<Rightarrow> u32 \<Rightarrow> 'k world \<Rightarrow> 'k world exec" where
  "prvInitialiseNewQueue api uxQueueLength uxSize pucQueueStorage w =
     (let w = upd_queue (\<lambda>q. q\<lparr>pcHead := (if uxSize = 0 then queue_address w else pucQueueStorage)\<rparr>) w;
          w = upd_queue (\<lambda>q. q\<lparr>uxLength := uxQueueLength, uxItemSize := uxSize\<rparr>) w
      in xQueueGenericReset api True w)"

text \<open>A new queue on the heap. \<open>sizeof_queue\<close> is the size of the structure, which depends on the configuration; \<open>raw\<close> are the
  contents of the memory; the fields hold what was there until they are initialised.\<close>

definition xQueueGenericCreate ::
    "heap_config \<Rightarrow> u32 \<Rightarrow> (u32 \<Rightarrow> u8) \<Rightarrow> 'k task_api \<Rightarrow> u32 \<Rightarrow> u32 \<Rightarrow> heap_4 \<Rightarrow> 'k world \<Rightarrow> ((u32 \<times> 'k world) \<times> heap_4) run" where
  "xQueueGenericCreate cfg sizeof_queue raw api uxQueueLength uxSize h w =
     (if uxQueueLength > 0 \<and> (-1) div uxQueueLength \<ge> uxSize \<and> -1 - sizeof_queue \<ge> uxQueueLength * uxSize then
        (let xQueueSizeInBytes = uxQueueLength * uxSize in
         then_run (pvPortMalloc cfg (sizeof_queue + xQueueSizeInBytes) h)
           (\<lambda>(pxNewQueue, h).
              if pxNewQueue \<noteq> 0 then
                (let pucQueueStorage = pxNewQueue + sizeof_queue;
                     w = w\<lparr>queue_address := pxNewQueue\<rparr>;
                     w = upd_queue (\<lambda>q. q\<lparr>q_storage := map (\<lambda>k. raw (pucQueueStorage + of_nat k)) [0..<unat xQueueSizeInBytes]\<rparr>) w
                 in Some (do { w \<leftarrow> prvInitialiseNewQueue api uxQueueLength uxSize pucQueueStorage w; Some ((pxNewQueue, w), h) }))
              else returns ((0, w), h)))
      else Some undefined_behaviour)"

definition vQueueDelete :: "heap_config \<Rightarrow> 'k world \<Rightarrow> heap_4 \<Rightarrow> heap_4 run" where
  "vQueueDelete cfg w h = vPortFree cfg (queue_address w) h"

section \<open>Copying\<close>

definition write_storage :: "u32 \<Rightarrow> bytes \<Rightarrow> Queue_t \<Rightarrow> Queue_t exec" where
  "write_storage a src q = do {
     b \<leftarrow> memcpy (q_storage q) (unat (a - pcHead q)) src (unat (uxItemSize q));
     Some (q\<lparr>q_storage := b\<rparr>)
   }"

definition prvCopyDataToQueue :: "'k task_api \<Rightarrow> bytes \<Rightarrow> queue_position \<Rightarrow> 'k world \<Rightarrow> (bool \<times> 'k world) exec" where
  "prvCopyDataToQueue api pvItemToQueue xPosition w =
     (let q = the_queue w; waiting = uxMessagesWaiting q in
      if uxItemSize q = 0 then
        (let (xReturn, w) =
           (if pcHead q = 0 then
              let (r, w) = xTaskPriorityDisinherit api (xMutexHolder q) w in (r, upd_queue (\<lambda>q. q\<lparr>xMutexHolder := 0\<rparr>) w)
            else (False, w))
         in Some (xReturn, upd_queue (\<lambda>q. q\<lparr>uxMessagesWaiting := waiting + 1\<rparr>) w))
      else if xPosition = queueSEND_TO_BACK then do {
        q \<leftarrow> write_storage (pcWriteTo q) pvItemToQueue q;
        let q = q\<lparr>pcWriteTo := pcWriteTo q + uxItemSize q\<rparr>;
        let q = (if pcWriteTo q \<ge> pcTail q then q\<lparr>pcWriteTo := pcHead q\<rparr> else q);
        Some (False, w\<lparr>the_queue := q\<lparr>uxMessagesWaiting := waiting + 1\<rparr>\<rparr>)
      } else do {
        q \<leftarrow> write_storage (pcReadFrom q) pvItemToQueue q;
        let q = q\<lparr>pcReadFrom := pcReadFrom q - uxItemSize q\<rparr>;
        let q = (if pcReadFrom q < pcHead q then q\<lparr>pcReadFrom := pcTail q - uxItemSize q\<rparr> else q);
        let waiting = (if xPosition = queueOVERWRITE \<and> waiting > 0 then waiting - 1 else waiting);
        Some (False, w\<lparr>the_queue := q\<lparr>uxMessagesWaiting := waiting + 1\<rparr>\<rparr>)
      })"

text \<open>The result is what is written to \<^verbatim>\<open>pvBuffer\<close>: nothing when the items have no bytes.\<close>

definition prvCopyDataFromQueue :: "Queue_t \<Rightarrow> (bytes \<times> Queue_t) exec" where
  "prvCopyDataFromQueue q =
     (if uxItemSize q \<noteq> 0 then do {
        let q = q\<lparr>pcReadFrom := pcReadFrom q + uxItemSize q\<rparr>;
        let q = (if pcReadFrom q \<ge> pcTail q then q\<lparr>pcReadFrom := pcHead q\<rparr> else q);
        b \<leftarrow> rd_block (q_storage q) (unat (pcReadFrom q - pcHead q)) (unat (uxItemSize q));
        Some (b, q)
      } else Some ([], q))"

section \<open>Locking\<close>

definition prvLockQueue :: "'k task_api \<Rightarrow> 'k world \<Rightarrow> 'k world" where
  "prvLockQueue api w =
     taskEXIT_CRITICAL api (upd_queue (\<lambda>q.
       let q = (if cRxLock q = queueUNLOCKED then q\<lparr>cRxLock := queueLOCKED_UNMODIFIED\<rparr> else q)
       in if cTxLock q = queueUNLOCKED then q\<lparr>cTxLock := queueLOCKED_UNMODIFIED\<rparr> else q) w)"

definition prvIncrementQueueTxLock :: "'k task_api \<Rightarrow> u8 \<Rightarrow> 'k world \<Rightarrow> 'k world exec" where
  "prvIncrementQueueTxLock api lock w =
     (if scast lock < uxTaskGetNumberOfTasks api w then do {
        _ \<leftarrow> config_assert (lock \<noteq> queueINT8_MAX);
        Some (upd_queue (\<lambda>q. q\<lparr>cTxLock := lock + 1\<rparr>) w)
      } else Some w)"

definition prvIncrementQueueRxLock :: "'k task_api \<Rightarrow> u8 \<Rightarrow> 'k world \<Rightarrow> 'k world exec" where
  "prvIncrementQueueRxLock api lock w =
     (if scast lock < uxTaskGetNumberOfTasks api w then do {
        _ \<leftarrow> config_assert (lock \<noteq> queueINT8_MAX);
        Some (upd_queue (\<lambda>q. q\<lparr>cRxLock := lock + 1\<rparr>) w)
      } else Some w)"

text \<open>One task is unblocked for every item that interrupts added or removed, as long as there are waiting tasks.\<close>

fun unblock_tasks :: "'k task_api \<Rightarrow> ('k world \<Rightarrow> u32) \<Rightarrow> nat \<Rightarrow> 'k world \<Rightarrow> 'k world exec" where
  "unblock_tasks api waiting 0 w = Some w"
| "unblock_tasks api waiting (Suc n) w = do {
     empty \<leftarrow> listLIST_IS_EMPTY (waiting w) (event_lists w);
     if \<not> empty then
       let (yield, w) = xTaskRemoveFromEventList api (waiting w) w
       in unblock_tasks api waiting n (if yield then vTaskMissedYield api w else w)
     else Some w
   }"

definition prvUnlockQueue :: "'k task_api \<Rightarrow> 'k world \<Rightarrow> 'k world exec" where
  "prvUnlockQueue api w = do {
     w \<leftarrow> unblock_tasks api xTasksWaitingToReceive (nat (sint (cTxLock (the_queue w)))) w;
     let w = taskEXIT_CRITICAL api (upd_queue (\<lambda>q. q\<lparr>cTxLock := queueUNLOCKED\<rparr>) w);
     w \<leftarrow> unblock_tasks api xTasksWaitingToSend (nat (sint (cRxLock (the_queue w)))) w;
     Some (taskEXIT_CRITICAL api (upd_queue (\<lambda>q. q\<lparr>cRxLock := queueUNLOCKED\<rparr>) w))
   }"

definition prvIsQueueEmpty :: "'k task_api \<Rightarrow> 'k world \<Rightarrow> bool \<times> 'k world" where
  "prvIsQueueEmpty api w = (uxMessagesWaiting (the_queue w) = 0, taskEXIT_CRITICAL api w)"

definition prvIsQueueFull :: "'k task_api \<Rightarrow> 'k world \<Rightarrow> bool \<times> 'k world" where
  "prvIsQueueFull api w = (uxMessagesWaiting (the_queue w) = uxLength (the_queue w), taskEXIT_CRITICAL api w)"

section \<open>Time-outs\<close>

definition vTaskInternalSetTimeOutState :: "'k world \<Rightarrow> TimeOut_t" where
  "vTaskInternalSetTimeOutState w = \<lparr>xOverflowCount = xNumOfOverflows w, xTimeOnEntering = xTickCount w\<rparr>"

definition check_timeout :: "'k task_api \<Rightarrow> TimeOut_t \<Rightarrow> u32 \<Rightarrow> 'k world \<Rightarrow> bool \<times> TimeOut_t \<times> u32" where
  "check_timeout api pxTimeOut pxTicksToWait w =
     (let xConstTickCount = xTickCount w;
          xElapsedTime = xConstTickCount - xTimeOnEntering pxTimeOut
      in if INCLUDE_vTaskSuspend api \<and> pxTicksToWait = portMAX_DELAY then (False, pxTimeOut, pxTicksToWait)
         else if xNumOfOverflows w \<noteq> xOverflowCount pxTimeOut \<and> xConstTickCount \<ge> xTimeOnEntering pxTimeOut
         then (True, pxTimeOut, 0)
         else if xElapsedTime < pxTicksToWait
         then (False, vTaskInternalSetTimeOutState w, pxTicksToWait - xElapsedTime)
         else (True, pxTimeOut, 0))"

definition xTaskCheckForTimeOut ::
    "'k task_api \<Rightarrow> TimeOut_t \<Rightarrow> u32 \<Rightarrow> 'k world \<Rightarrow> (bool \<times> TimeOut_t \<times> u32) \<times> 'k world" where
  "xTaskCheckForTimeOut api pxTimeOut pxTicksToWait w =
     (check_timeout api pxTimeOut pxTicksToWait w, taskEXIT_CRITICAL api w)"

section \<open>Sending\<close>

text \<open>The part of \<^verbatim>\<open>xQueueGenericSend\<close> inside the critical section when there is room.\<close>

definition unblock_one :: "'k task_api \<Rightarrow> ('k world \<Rightarrow> u32) \<Rightarrow> bool \<Rightarrow> 'k world \<Rightarrow> 'k world exec" where
  "unblock_one api waiting xYieldRequired w = do {
     empty \<leftarrow> listLIST_IS_EMPTY (waiting w) (event_lists w);
     Some (if \<not> empty then
             let (yield, w) = xTaskRemoveFromEventList api (waiting w) w
             in if yield then queueYIELD_IF_USING_PREEMPTION api w else w
           else if xYieldRequired then queueYIELD_IF_USING_PREEMPTION api w else w)
   }"

definition send_item :: "'k task_api \<Rightarrow> bytes \<Rightarrow> queue_position \<Rightarrow> 'k world \<Rightarrow> 'k world exec" where
  "send_item api pvItemToQueue xCopyPosition w = do {
     (xYieldRequired, w) \<leftarrow> prvCopyDataToQueue api pvItemToQueue xCopyPosition w;
     unblock_one api xTasksWaitingToReceive xYieldRequired w
   }"

text \<open>What follows when there is none: the wait, which ends with the result or with another round.\<close>

definition wait_to_send ::
    "'k task_api \<Rightarrow> u32 \<Rightarrow> TimeOut_t option \<Rightarrow> 'k world \<Rightarrow> ((u32 \<times> TimeOut_t) option \<times> 'k world) exec" where
  "wait_to_send api xTicksToWait xTimeOut w =
     (let xTimeOut = (case xTimeOut of None \<Rightarrow> vTaskInternalSetTimeOutState w | Some t \<Rightarrow> t);
          w = taskEXIT_CRITICAL api w;
          w = vTaskSuspendAll api w;
          w = prvLockQueue api w;
          ((expired, xTimeOut, xTicksToWait), w) = xTaskCheckForTimeOut api xTimeOut xTicksToWait w
      in if \<not> expired then
           (let (full, w) = prvIsQueueFull api w in
            if full then do {
              let w = vTaskPlaceOnEventList api (xTasksWaitingToSend w) xTicksToWait w;
              w \<leftarrow> prvUnlockQueue api w;
              let (yielded, w) = xTaskResumeAll api w;
              Some (Some (xTicksToWait, xTimeOut), if \<not> yielded then taskYIELD_WITHIN_API api w else w)
            } else do {
              w \<leftarrow> prvUnlockQueue api w;
              Some (Some (xTicksToWait, xTimeOut), snd (xTaskResumeAll api w))
            })
         else do {
           w \<leftarrow> prvUnlockQueue api w;
           Some (None, snd (xTaskResumeAll api w))
         })"

partial_function (option) send_loop ::
    "'k task_api \<Rightarrow> bytes \<Rightarrow> queue_position \<Rightarrow> u32 \<Rightarrow> TimeOut_t option \<Rightarrow> 'k world \<Rightarrow> (bool \<times> 'k world) run" where
  "send_loop api pvItemToQueue xCopyPosition xTicksToWait xTimeOut w =
     (if uxMessagesWaiting (the_queue w) < uxLength (the_queue w) \<or> xCopyPosition = queueOVERWRITE
      then Some (do { w \<leftarrow> send_item api pvItemToQueue xCopyPosition w; Some (True, taskEXIT_CRITICAL api w) })
      else if xTicksToWait = 0 then returns (False, taskEXIT_CRITICAL api w)
      else (case wait_to_send api xTicksToWait xTimeOut w of
              None \<Rightarrow> Some undefined_behaviour
            | Some (None, w) \<Rightarrow> returns (False, w)
            | Some (Some (ticks, t), w) \<Rightarrow> send_loop api pvItemToQueue xCopyPosition ticks (Some t) w))"

definition xQueueGenericSend ::
    "'k task_api \<Rightarrow> bytes ptr \<Rightarrow> u32 \<Rightarrow> queue_position \<Rightarrow> 'k world \<Rightarrow> (bool \<times> 'k world) run" where
  "xQueueGenericSend api pvItemToQueue xTicksToWait xCopyPosition w =
     (if \<not> (pvItemToQueue = NULL \<and> uxItemSize (the_queue w) \<noteq> 0) \<and>
         \<not> (xCopyPosition = queueOVERWRITE \<and> uxLength (the_queue w) \<noteq> 1) \<and>
         \<not> (scheduler_suspended api w \<and> xTicksToWait \<noteq> 0)
      then send_loop api (case pvItemToQueue of None \<Rightarrow> [] | Some b \<Rightarrow> b) xCopyPosition xTicksToWait None w
      else Some undefined_behaviour)"

text \<open>The result has the flag \<^verbatim>\<open>*pxHigherPriorityTaskWoken\<close>: whether the call sets it.\<close>

definition xQueueGenericSendFromISR ::
    "'k task_api \<Rightarrow> bytes ptr \<Rightarrow> queue_position \<Rightarrow> 'k world \<Rightarrow> ((bool \<times> bool) \<times> 'k world) exec" where
  "xQueueGenericSendFromISR api pvItemToQueue xCopyPosition w = do {
     _ \<leftarrow> config_assert (\<not> (pvItemToQueue = NULL \<and> uxItemSize (the_queue w) \<noteq> 0));
     _ \<leftarrow> config_assert (\<not> (xCopyPosition = queueOVERWRITE \<and> uxLength (the_queue w) \<noteq> 1));
     if uxMessagesWaiting (the_queue w) < uxLength (the_queue w) \<or> xCopyPosition = queueOVERWRITE then do {
       let lock = cTxLock (the_queue w);
       (_, w) \<leftarrow> prvCopyDataToQueue api (case pvItemToQueue of None \<Rightarrow> [] | Some b \<Rightarrow> b) xCopyPosition w;
       if lock = queueUNLOCKED then do {
         empty \<leftarrow> listLIST_IS_EMPTY (xTasksWaitingToReceive w) (event_lists w);
         let (woken, w) = (if \<not> empty then xTaskRemoveFromEventList api (xTasksWaitingToReceive w) w else (False, w));
         Some ((True, woken), w)
       } else do {
         w \<leftarrow> prvIncrementQueueTxLock api lock w;
         Some ((True, False), w)
       }
     } else Some ((False, False), w)
   }"

section \<open>Receiving\<close>

definition receive_item :: "'k task_api \<Rightarrow> 'k world \<Rightarrow> (bytes \<times> 'k world) exec" where
  "receive_item api w = do {
     let waiting = uxMessagesWaiting (the_queue w);
     (b, q) \<leftarrow> prvCopyDataFromQueue (the_queue w);
     w \<leftarrow> unblock_one api xTasksWaitingToSend False (w\<lparr>the_queue := q\<lparr>uxMessagesWaiting := waiting - 1\<rparr>\<rparr>);
     Some (b, w)
   }"

definition peek_item :: "'k task_api \<Rightarrow> 'k world \<Rightarrow> (bytes \<times> 'k world) exec" where
  "peek_item api w = do {
     let pcOriginalReadPosition = pcReadFrom (the_queue w);
     (b, q) \<leftarrow> prvCopyDataFromQueue (the_queue w);
     w \<leftarrow> unblock_one api xTasksWaitingToReceive False (w\<lparr>the_queue := q\<lparr>pcReadFrom := pcOriginalReadPosition\<rparr>\<rparr>);
     Some (b, w)
   }"

definition wait_to_receive ::
    "'k task_api \<Rightarrow> u32 \<Rightarrow> TimeOut_t option \<Rightarrow> 'k world \<Rightarrow> ((u32 \<times> TimeOut_t) option \<times> 'k world) exec" where
  "wait_to_receive api xTicksToWait xTimeOut w =
     (let xTimeOut = (case xTimeOut of None \<Rightarrow> vTaskInternalSetTimeOutState w | Some t \<Rightarrow> t);
          w = taskEXIT_CRITICAL api w;
          w = vTaskSuspendAll api w;
          w = prvLockQueue api w;
          ((expired, xTimeOut, xTicksToWait), w) = xTaskCheckForTimeOut api xTimeOut xTicksToWait w
      in if \<not> expired then
           (let (empty, w) = prvIsQueueEmpty api w in
            if empty then do {
              let w = vTaskPlaceOnEventList api (xTasksWaitingToReceive w) xTicksToWait w;
              w \<leftarrow> prvUnlockQueue api w;
              let (yielded, w) = xTaskResumeAll api w;
              Some (Some (xTicksToWait, xTimeOut), if \<not> yielded then taskYIELD_WITHIN_API api w else w)
            } else do {
              w \<leftarrow> prvUnlockQueue api w;
              Some (Some (xTicksToWait, xTimeOut), snd (xTaskResumeAll api w))
            })
         else do {
           w \<leftarrow> prvUnlockQueue api w;
           let w = snd (xTaskResumeAll api w);
           let (empty, w) = prvIsQueueEmpty api w;
           Some (if empty then None else Some (xTicksToWait, xTimeOut), w)
         })"

text \<open>\<^verbatim>\<open>xQueueReceive\<close> and \<^verbatim>\<open>xQueuePeek\<close> differ in what they do with the item only.\<close>

partial_function (option) receive_loop ::
    "'k task_api \<Rightarrow> ('k world \<Rightarrow> (bytes \<times> 'k world) exec) \<Rightarrow> u32 \<Rightarrow> TimeOut_t option \<Rightarrow> 'k world \<Rightarrow> (bytes option \<times> 'k world) run" where
  "receive_loop api take_item xTicksToWait xTimeOut w =
     (if uxMessagesWaiting (the_queue w) > 0
      then Some (do { (b, w) \<leftarrow> take_item w; Some (Some b, taskEXIT_CRITICAL api w) })
      else if xTicksToWait = 0 then returns (None, taskEXIT_CRITICAL api w)
      else (case wait_to_receive api xTicksToWait xTimeOut w of
              None \<Rightarrow> Some undefined_behaviour
            | Some (None, w) \<Rightarrow> returns (None, w)
            | Some (Some (ticks, t), w) \<Rightarrow> receive_loop api take_item ticks (Some t) w))"

definition xQueueReceive :: "'k task_api \<Rightarrow> bool \<Rightarrow> u32 \<Rightarrow> 'k world \<Rightarrow> (bytes option \<times> 'k world) run" where
  "xQueueReceive api buffer_null xTicksToWait w =
     (if \<not> (buffer_null \<and> uxItemSize (the_queue w) \<noteq> 0) \<and> \<not> (scheduler_suspended api w \<and> xTicksToWait \<noteq> 0)
      then receive_loop api (receive_item api) xTicksToWait None w
      else Some undefined_behaviour)"

definition xQueuePeek :: "'k task_api \<Rightarrow> bool \<Rightarrow> u32 \<Rightarrow> 'k world \<Rightarrow> (bytes option \<times> 'k world) run" where
  "xQueuePeek api buffer_null xTicksToWait w =
     (if \<not> (buffer_null \<and> uxItemSize (the_queue w) \<noteq> 0) \<and> \<not> (scheduler_suspended api w \<and> xTicksToWait \<noteq> 0)
      then receive_loop api (peek_item api) xTicksToWait None w
      else Some undefined_behaviour)"

definition xQueueReceiveFromISR :: "'k task_api \<Rightarrow> bool \<Rightarrow> 'k world \<Rightarrow> ((bytes option \<times> bool) \<times> 'k world) exec" where
  "xQueueReceiveFromISR api buffer_null w = do {
     _ \<leftarrow> config_assert (\<not> (buffer_null \<and> uxItemSize (the_queue w) \<noteq> 0));
     let waiting = uxMessagesWaiting (the_queue w);
     if waiting > 0 then do {
       let lock = cRxLock (the_queue w);
       (b, q) \<leftarrow> prvCopyDataFromQueue (the_queue w);
       let w = w\<lparr>the_queue := q\<lparr>uxMessagesWaiting := waiting - 1\<rparr>\<rparr>;
       if lock = queueUNLOCKED then do {
         empty \<leftarrow> listLIST_IS_EMPTY (xTasksWaitingToSend w) (event_lists w);
         let (woken, w) = (if \<not> empty then xTaskRemoveFromEventList api (xTasksWaitingToSend w) w else (False, w));
         Some ((Some b, woken), w)
       } else do {
         w \<leftarrow> prvIncrementQueueRxLock api lock w;
         Some ((Some b, False), w)
       }
     } else Some ((None, False), w)
   }"

definition xQueuePeekFromISR :: "bool \<Rightarrow> Queue_t \<Rightarrow> (bytes option \<times> Queue_t) exec" where
  "xQueuePeekFromISR buffer_null q = do {
     _ \<leftarrow> config_assert (\<not> (buffer_null \<and> uxItemSize q \<noteq> 0));
     _ \<leftarrow> config_assert (uxItemSize q \<noteq> 0);
     if uxMessagesWaiting q > 0 then do {
       let pcOriginalReadPosition = pcReadFrom q;
       (b, q) \<leftarrow> prvCopyDataFromQueue q;
       Some (Some b, q\<lparr>pcReadFrom := pcOriginalReadPosition\<rparr>)
     } else Some (None, q)
   }"

definition uxQueueMessagesWaiting :: "'k task_api \<Rightarrow> 'k world \<Rightarrow> u32 \<times> 'k world" where
  "uxQueueMessagesWaiting api w = (uxMessagesWaiting (the_queue w), taskEXIT_CRITICAL api w)"

definition uxQueueSpacesAvailable :: "'k task_api \<Rightarrow> 'k world \<Rightarrow> u32 \<times> 'k world" where
  "uxQueueSpacesAvailable api w = (uxLength (the_queue w) - uxMessagesWaiting (the_queue w), taskEXIT_CRITICAL api w)"

definition uxQueueMessagesWaitingFromISR :: "Queue_t \<Rightarrow> u32" where
  "uxQueueMessagesWaitingFromISR q = uxMessagesWaiting q"

definition xQueueIsQueueEmptyFromISR :: "Queue_t \<Rightarrow> bool" where
  "xQueueIsQueueEmptyFromISR q \<longleftrightarrow> uxMessagesWaiting q = 0"

definition xQueueIsQueueFullFromISR :: "Queue_t \<Rightarrow> bool" where
  "xQueueIsQueueFullFromISR q \<longleftrightarrow> uxMessagesWaiting q = uxLength q"

section \<open>The ring as a list\<close>

definition slot :: "Queue_t \<Rightarrow> nat \<Rightarrow> bytes" where
  "slot q k = take (unat (uxItemSize q)) (drop (k * unat (uxItemSize q)) (q_storage q))"

definition slot_addr :: "Queue_t \<Rightarrow> nat \<Rightarrow> u32" where
  "slot_addr q k = pcHead q + of_nat (k * unat (uxItemSize q))"

text \<open>The geometry of a queue with items: the storage area lies in the address space, above the first item
  size so that the pointer one item before it does not wrap.\<close>

definition ring_geometry :: "Queue_t \<Rightarrow> bool" where
  "ring_geometry q \<longleftrightarrow> 0 < unat (uxItemSize q) \<and> 0 < unat (uxLength q) \<and> unat (uxItemSize q) \<le> unat (pcHead q) \<and>
     unat (pcHead q) + unat (uxLength q) * unat (uxItemSize q) < 2 ^ 32 \<and>
     length (q_storage q) = unat (uxLength q) * unat (uxItemSize q) \<and>
     pcTail q = slot_addr q (unat (uxLength q))"

definition ring_at :: "Queue_t \<Rightarrow> nat \<Rightarrow> bytes list \<Rightarrow> bool" where
  "ring_at q r xs \<longleftrightarrow> ring_geometry q \<and> r < unat (uxLength q) \<and> length xs \<le> unat (uxLength q) \<and>
     pcReadFrom q = slot_addr q r \<and> pcWriteTo q = slot_addr q ((r + 1 + length xs) mod unat (uxLength q)) \<and>
     uxMessagesWaiting q = of_nat (length xs) \<and>
     (\<forall>i < length xs. slot q ((r + 1 + i) mod unat (uxLength q)) = xs ! i)"

definition queue_rep :: "Queue_t \<Rightarrow> bytes list \<Rightarrow> bool" where
  "queue_rep q xs \<longleftrightarrow> (\<exists>r. ring_at q r xs)"

end
