(* ===== verification/Heap_Correct.thy ===== *)
theory Heap_Correct
  imports Heap_4
begin

text \<open>
  Correctness of the allocator: its linked list of free blocks represents a layout of the heap
  (\<open>heap_rep\<close>), \<open>pvPortMalloc\<close> performs first-fit allocation on that layout and \<open>vPortFree\<close> release with
  joining of neighbours, and both return without a failed assertion. The interface of an
  allocator is the locale \<open>allocator\<close>, which the two operations provide.
\<close>

section \<open>Representation\<close>

definition heap_first :: "heap_config \<Rightarrow> nat" where
  "heap_first cfg = (unat (ucHeap cfg) + 7) div 8 * 8"

definition heap_last :: "heap_config \<Rightarrow> nat" where
  "heap_last cfg = (unat (ucHeap cfg) + unat (configTOTAL_HEAP_SIZE cfg) - 8) div 8 * 8"

text \<open>The heap is an array of at least 48 bytes that does not reach the end of the address space and is smaller
  than the bit that marks used blocks; \<open>xStart\<close> is another object.\<close>

definition wf_config :: "heap_config \<Rightarrow> bool" where
  "wf_config cfg \<longleftrightarrow> 0 < ucHeap cfg \<and> 48 \<le> unat (configTOTAL_HEAP_SIZE cfg) \<and>
     unat (configTOTAL_HEAP_SIZE cfg) < 2 ^ 31 \<and>
     unat (ucHeap cfg) + unat (configTOTAL_HEAP_SIZE cfg) < 2 ^ 32 \<and> xStart_address cfg \<noteq> 0 \<and>
     (xStart_address cfg < ucHeap cfg \<or>
      unat (ucHeap cfg) + unat (configTOTAL_HEAP_SIZE cfg) \<le> unat (xStart_address cfg))"

definition start_blk :: "heap_config \<Rightarrow> blk" where
  "start_blk cfg = Blk (unat (xStart_address cfg)) 0 True"

definition heap_rep :: "heap_config \<Rightarrow> blk list \<Rightarrow> heap_4 \<Rightarrow> bool" where
  "heap_rep cfg bs h \<longleftrightarrow> pxEnd h = of_nat (heap_last cfg) \<and>
     stored (headers h) (pxEnd h) (start_blk cfg # bs) \<and>
     headers h (pxEnd h) = Some \<lparr>pxNextFreeBlock = 0, xBlockSize = 0\<rparr> \<and>
     tiles (heap_first cfg) bs (heap_last cfg) \<and> separated bs \<and>
     xFreeBytesRemaining h = of_nat (free_bytes bs)"

text \<open>Addresses of the heap as numbers and as words.\<close>

lemma heap_bounds:
  assumes "wf_config cfg"
  shows "0 < heap_first cfg" and "unat (ucHeap cfg) \<le> heap_first cfg"
    and "heap_last cfg + 8 \<le> unat (ucHeap cfg) + unat (configTOTAL_HEAP_SIZE cfg)"
    and "heap_first cfg + 16 \<le> heap_last cfg" and "heap_last cfg < 2 ^ 32"
    and "heap_last cfg - heap_first cfg < 2 ^ 31" and "8 dvd heap_first cfg" and "8 dvd heap_last cfg"
proof -
  have u: "0 < unat (ucHeap cfg)" "48 \<le> unat (configTOTAL_HEAP_SIZE cfg)"
      "unat (configTOTAL_HEAP_SIZE cfg) < 2 ^ 31"
      "unat (ucHeap cfg) + unat (configTOTAL_HEAP_SIZE cfg) < 2 ^ 32"
    using assms by (auto simp: wf_config_def word_less_nat_alt)
  show "0 < heap_first cfg" "unat (ucHeap cfg) \<le> heap_first cfg"
      "heap_last cfg + 8 \<le> unat (ucHeap cfg) + unat (configTOTAL_HEAP_SIZE cfg)"
      "heap_first cfg + 16 \<le> heap_last cfg" "heap_last cfg < 2 ^ 32" "heap_last cfg - heap_first cfg < 2 ^ 31"
    using u unfolding heap_first_def heap_last_def by linarith+
qed (simp_all add: heap_first_def heap_last_def)

lemma word_addr:
  assumes "wf_config cfg" and "a \<le> heap_last cfg"
  shows "unat (of_nat a :: u32) = a"
  using heap_bounds(5) [OF assms(1)] assms(2) by (simp add: unat_of_nat_u32)

lemma word_addr_nz:
  assumes "wf_config cfg" and "heap_first cfg \<le> a" and "a \<le> heap_last cfg"
  shows "of_nat a \<noteq> (0 :: u32)"
  using word_addr [OF assms(1,3)] heap_bounds(1) [OF assms(1)] assms(2) by (metis unat_0 not_less)

lemma valid_pointer:
  assumes "wf_config cfg" and "heap_first cfg \<le> a" and "a \<le> heap_last cfg"
  shows "validate_block_pointer cfg (of_nat a) = Some ()"
proof -
  have top: "unat (ucHeap cfg + (configTOTAL_HEAP_SIZE cfg - 1)) = unat (ucHeap cfg) + unat (configTOTAL_HEAP_SIZE cfg) - 1"
  proof -
    have "unat (configTOTAL_HEAP_SIZE cfg - 1) = unat (configTOTAL_HEAP_SIZE cfg) - 1"
      using assms(1) unat_pred_u32 [of "unat (configTOTAL_HEAP_SIZE cfg)"] by (simp add: wf_config_def)
    moreover have "48 \<le> unat (configTOTAL_HEAP_SIZE cfg)" "unat (ucHeap cfg) + unat (configTOTAL_HEAP_SIZE cfg) < 2 ^ 32"
      using assms(1) by (simp_all add: wf_config_def)
    ultimately show ?thesis
      by (subst unat_add_no_wrap) simp_all
  qed
  then show ?thesis
    using word_addr [OF assms(1,3)] heap_bounds [OF assms(1)] assms(2,3)
    by (simp add: validate_block_pointer_def config_assert_def word_le_nat_alt)
qed

lemma start_outside:
  assumes "wf_config cfg" and "heap_first cfg \<le> a" and "a \<le> heap_last cfg"
  shows "of_nat a \<noteq> xStart_address cfg"
proof
  assume "of_nat a = xStart_address cfg"
  then have "unat (xStart_address cfg) = a"
    using word_addr [OF assms(1,3)] by simp
  then show False
    using assms heap_bounds [OF assms(1)] by (auto simp: wf_config_def word_less_nat_alt)
qed


lemma start_blk_simps [simp]:
  "of_nat (blk_addr (start_blk cfg)) = xStart_address cfg" "blk_free (start_blk cfg)" "blk_size (start_blk cfg) = 0"
  by (simp_all add: start_blk_def)

text \<open>The facts about the blocks of a represented heap that the operations need.\<close>

lemma rep_blocks:
  assumes "wf_config cfg" and "tiles (heap_first cfg) bs (heap_last cfg)" and "b \<in> set bs"
  shows "unat (of_nat (blk_addr b) :: u32) = blk_addr b" and "unat (of_nat (blk_size b) :: u32) = blk_size b"
    and "of_nat (blk_addr b) \<noteq> (0 :: u32)" and "of_nat (blk_addr b) \<noteq> xStart_address cfg"
    and "of_nat (blk_addr b) \<noteq> (of_nat (heap_last cfg) :: u32)"
    and "validate_block_pointer cfg (of_nat (blk_addr b)) = Some ()"
    and "heap_first cfg \<le> blk_addr b" and "blk_addr b + blk_size b \<le> heap_last cfg" and "blk_size b < 2 ^ 31"
    and "16 \<le> blk_size b" and "8 dvd blk_size b" and "8 dvd blk_addr b"
proof -
  have b: "heap_first cfg \<le> blk_addr b" "blk_addr b + blk_size b \<le> heap_last cfg" "16 \<le> blk_size b" "8 dvd blk_size b"
    using tiles_in [OF assms(2,3)] by auto
  then show "heap_first cfg \<le> blk_addr b" "blk_addr b + blk_size b \<le> heap_last cfg" "16 \<le> blk_size b" "8 dvd blk_size b"
    by auto
  have a: "blk_addr b \<le> heap_last cfg" "blk_size b \<le> heap_last cfg" using b by auto
  show u: "unat (of_nat (blk_addr b) :: u32) = blk_addr b" "unat (of_nat (blk_size b) :: u32) = blk_size b"
    using a by (auto intro: word_addr [OF assms(1)])
  show "of_nat (blk_addr b) \<noteq> (0 :: u32)" "of_nat (blk_addr b) \<noteq> xStart_address cfg"
      "validate_block_pointer cfg (of_nat (blk_addr b)) = Some ()"
    using word_addr_nz [OF assms(1) b(1) a(1)] start_outside [OF assms(1) b(1) a(1)] valid_pointer [OF assms(1) b(1) a(1)]
    by auto
  show "of_nat (blk_addr b) \<noteq> (of_nat (heap_last cfg) :: u32)"
    using u(1) word_addr [OF assms(1) order_refl] b by (metis add_leE le_antisym le_zero_eq not_numeral_le_zero add_le_same_cancel1)
  show "blk_size b < 2 ^ 31" using b heap_bounds(6) [OF assms(1)] by linarith
  show "8 dvd blk_addr b" using tiles_aligned [OF assms(2) heap_bounds(7) [OF assms(1)] assms(3)] .
qed

lemma rep_distinct:
  assumes "wf_config cfg" and "tiles (heap_first cfg) bs (heap_last cfg)" and "b \<in> set bs" and "c \<in> set bs"
  shows "of_nat (blk_addr b) = (of_nat (blk_addr c) :: u32) \<longleftrightarrow> b = c"
proof
  assume "of_nat (blk_addr b) = (of_nat (blk_addr c) :: u32)"
  then have "blk_addr b = blk_addr c"
    using rep_blocks(1) [OF assms(1,2,3)] rep_blocks(1) [OF assms(1,2,4)] by metis
  then show "b = c"
    using tiles_distinct [OF assms(2)] assms(3,4) by (simp add: distinct_map inj_on_def)
qed simp

lemma rep_end:
  assumes "wf_config cfg"
  shows "of_nat (heap_last cfg) \<noteq> (0 :: u32)" and "of_nat (heap_last cfg) \<noteq> xStart_address cfg"
    and "validate_block_pointer cfg (of_nat (heap_last cfg)) = Some ()"
  using heap_bounds(4) [OF assms] word_addr_nz [OF assms] start_outside [OF assms] valid_pointer [OF assms] by auto

section \<open>Finding a block\<close>

lemma first_free_valid:
  assumes "wf_config cfg" and "tiles (heap_first cfg) bs (heap_last cfg)" and "set rest \<subseteq> set bs"
  shows "first_free (of_nat (heap_last cfg)) rest \<noteq> 0"
    and "validate_block_pointer cfg (first_free (of_nat (heap_last cfg)) rest) = Some ()"
  using assms(3) rep_end [OF assms(1)] rep_blocks(3,6) [OF assms(1,2)] by (induction rest) auto

text \<open>The result of the search through \<open>rest\<close> behind the blocks \<open>front\<close>: the first block that fits with the
  last free block before it, or the end marker.\<close>

definition finds :: "nat \<Rightarrow> blk list \<Rightarrow> blk list \<Rightarrow> u32 \<Rightarrow> u32 \<times> u32 \<Rightarrow> bool" where
  "finds w front rest e r \<longleftrightarrow>
     (\<exists>r1 b r2 pre p ys. rest = r1 @ b # r2 \<and> (\<forall>x \<in> set r1. \<not> fits w x) \<and> fits w b \<and>
        front @ r1 = pre @ p # ys \<and> blk_free p \<and> (\<forall>y \<in> set ys. \<not> blk_free y) \<and>
        r = (of_nat (blk_addr p), of_nat (blk_addr b)))
     \<or> (\<forall>x \<in> set rest. \<not> fits w x) \<and> snd r = e"

lemma finds_Cons:
  assumes "finds w (front @ [b]) rest e r" and "\<not> fits w b"
  shows "finds w front (b # rest) e r"
  using assms(1) unfolding finds_def
proof (elim disjE exE conjE)
  fix r1 c r2 pre p ys
  assume "rest = r1 @ c # r2" "\<forall>x \<in> set r1. \<not> fits w x" "fits w c" "(front @ [b]) @ r1 = pre @ p # ys"
    "blk_free p" "\<forall>y \<in> set ys. \<not> blk_free y" "r = (of_nat (blk_addr p), of_nat (blk_addr c))"
  then show "(\<exists>r1 c r2 pre p ys. b # rest = r1 @ c # r2 \<and> (\<forall>x \<in> set r1. \<not> fits w x) \<and> fits w c \<and>
        front @ r1 = pre @ p # ys \<and> blk_free p \<and> (\<forall>y \<in> set ys. \<not> blk_free y) \<and>
        r = (of_nat (blk_addr p), of_nat (blk_addr c))) \<or> (\<forall>x \<in> set (b # rest). \<not> fits w x) \<and> snd r = e"
    using assms(2)
    by (intro disjI1 exI [of _ "b # r1"] exI [of _ c] exI [of _ r2] exI [of _ pre] exI [of _ p] exI [of _ ys]) simp
qed (use assms(2) in auto)

lemma find_block_runs:
  assumes "wf_config cfg" and "tiles (heap_first cfg) bs (heap_last cfg)" and "pxEnd h = of_nat (heap_last cfg)"
    and "headers h (pxEnd h) = Some \<lparr>pxNextFreeBlock = 0, xBlockSize = 0\<rparr>"
    and "stored (headers h) (pxEnd h) (pre @ p # ys @ rest)" and "set rest \<subseteq> set bs"
    and "blk_free p" and "\<forall>y \<in> set ys. \<not> blk_free y"
  shows "\<exists>r. find_block cfg w h (of_nat (blk_addr p)) (first_free (pxEnd h) rest) = returns r \<and>
    finds (unat w) (pre @ p # ys) rest (pxEnd h) r"
  using assms(5-)
proof (induction rest arbitrary: pre p ys)
  case Nil
  then show ?case
    using assms(4) by (subst find_block.simps) (simp add: get_header_def finds_def)
next
  case (Cons b rest)
  have b: "unat (of_nat (blk_size b) :: u32) = blk_size b"
    using rep_blocks(2) [OF assms(1,2), of b] Cons.prems(2) by simp
  have hb: "headers h (of_nat (blk_addr b)) = Some (blk_header (first_free (pxEnd h) rest) b)"
    using Cons.prems(1) by (simp add: stored_append)
  consider (used) "\<not> blk_free b" | (small) "blk_free b" "\<not> fits (unat w) b" | (found) "blk_free b" "fits (unat w) b"
    by blast
  then show ?case
  proof cases
    case used
    then have "\<not> fits (unat w) b" by (simp add: fits_def)
    then show ?thesis
      using used Cons.IH [of pre p "ys @ [b]"] Cons.prems finds_Cons [of "unat w" "pre @ p # ys" b rest] by fastforce
  next
    case small
    have "find_block cfg w h (of_nat (blk_addr p)) (of_nat (blk_addr b))
        = find_block cfg w h (of_nat (blk_addr b)) (first_free (pxEnd h) rest)"
      using small hb b first_free_valid [OF assms(1,2), of rest] Cons.prems(2) assms(3)
      by (subst find_block.simps)
        (simp add: get_header_def blk_header_def fits_def word_less_nat_alt)
    moreover obtain r where "find_block cfg w h (of_nat (blk_addr b)) (first_free (pxEnd h) rest) = returns r"
        "finds (unat w) ((pre @ p # ys) @ [b]) rest (pxEnd h) r"
      using Cons.IH [of "pre @ p # ys" b "[]"] Cons.prems small by auto
    ultimately show ?thesis
      using small finds_Cons [of "unat w" "pre @ p # ys" b rest] by auto
  next
    case found
    have "find_block cfg w h (of_nat (blk_addr p)) (of_nat (blk_addr b)) = returns (of_nat (blk_addr p), of_nat (blk_addr b))"
      using found hb b
      by (subst find_block.simps)
        (simp add: get_header_def blk_header_def fits_def word_less_nat_alt)
    moreover have "finds (unat w) (pre @ p # ys) (b # rest) (pxEnd h) (of_nat (blk_addr p), of_nat (blk_addr b))"
      using found Cons.prems unfolding finds_def
      by (intro disjI1 exI [of _ "[]"] exI [of _ b] exI [of _ rest] exI [of _ pre] exI [of _ p] exI [of _ ys]) simp
    ultimately show ?thesis
      using found by auto
  qed
qed

section \<open>Allocation\<close>

lemma start_not_in:
  assumes "wf_config cfg" and "tiles (heap_first cfg) bs (heap_last cfg)"
  shows "start_blk cfg \<notin> set bs" and "distinct (start_blk cfg # bs)"
proof -
  show "start_blk cfg \<notin> set bs"
    using rep_blocks(4) [OF assms, of "start_blk cfg"] by auto
  then show "distinct (start_blk cfg # bs)"
    using tiles_distinct [OF assms(2)] by (simp add: distinct_map)
qed

lemma all_distinct:
  assumes "wf_config cfg" and "tiles (heap_first cfg) bs (heap_last cfg)"
    and "x \<in> set (start_blk cfg # bs)" and "y \<in> set (start_blk cfg # bs)"
  shows "of_nat (blk_addr x) = (of_nat (blk_addr y) :: u32) \<longleftrightarrow> x = y"
  using rep_distinct [OF assms(1,2), of x y] rep_blocks(4) [OF assms(1,2), of x] rep_blocks(4) [OF assms(1,2), of y]
    assms(3,4) start_not_in [OF assms(1,2)]
  by auto

lemma inside_block_fresh:
  assumes "wf_config cfg" and "tiles (heap_first cfg) bs (heap_last cfg)" and "b \<in> set bs" and "0 < k" and "k < blk_size b"
    and "x \<in> set (start_blk cfg # bs)"
  shows "of_nat (blk_addr x) \<noteq> (of_nat (blk_addr b + k) :: u32)"
proof -
  note b = rep_blocks [OF assms(1,2,3)]
  have k: "unat (of_nat (blk_addr b + k) :: u32) = blk_addr b + k"
    using b(8) assms(5) by (intro word_addr [OF assms(1)]) simp
  show ?thesis
  proof (cases "x \<in> set bs")
    case True
    then have "blk_addr x \<noteq> blk_addr b + k"
      using tiles_disjoint [OF assms(2) True assms(3)] assms(4,5) by (cases "x = b") auto
    then show ?thesis
      using k rep_blocks(1) [OF assms(1,2) True] by metis
  next
    case False
    then have "x = start_blk cfg" using assms(6) by simp
    then show ?thesis
      using start_outside [OF assms(1), of "blk_addr b + k"] b(7,8) assms(4,5) by simp
  qed
qed

lemma end_outside:
  assumes "wf_config cfg" and "tiles (heap_first cfg) bs (heap_last cfg)" and "b \<in> set bs" and "k < blk_size b"
  shows "of_nat (heap_last cfg) \<noteq> (of_nat (blk_addr b + k) :: u32)"
  using rep_blocks(8) [OF assms(1-3)] assms(4) word_addr [OF assms(1), of "blk_addr b + k"]
    word_addr [OF assms(1) order_refl] by (metis add_less_cancel_left leD less_imp_le less_le_trans)

lemma aligned_word: "8 dvd a \<Longrightarrow> of_nat a AND portBYTE_ALIGNMENT_MASK = 0"
proof -
  assume "8 dvd a"
  then obtain k where "a = 8 * k" by blast
  then have "of_nat a = push_bit 3 (of_nat k :: u32)"
    by (simp add: push_bit_eq_mult)
  moreover have "portBYTE_ALIGNMENT_MASK = mask 3"
    by (simp add: portBYTE_ALIGNMENT_MASK_def mask_eq_exp_minus_1)
  ultimately show ?thesis
    by (simp add: bit_eq_iff bit_simps)
qed

text \<open>The header writes of \<open>take_block\<close>, on any store.\<close>

lemma take_block_headers:
  assumes "headers h p = Some \<lparr>pxNextFreeBlock = b, xBlockSize = sp\<rparr>"
    and "headers h b = Some \<lparr>pxNextFreeBlock = n, xBlockSize = sb\<rparr>"
    and "p \<noteq> b" and "validate_block_pointer cfg (b + xHeapStructSize) = Some ()" and "\<not> sb < w"
    and "sb - w > heapMINIMUM_BLOCK_SIZE \<Longrightarrow> b + w \<noteq> p \<and> b + w \<noteq> b \<and> (b + w) AND portBYTE_ALIGNMENT_MASK = 0"
  shows "\<exists>h'. take_block cfg w p b h = Some (b + xHeapStructSize, h') \<and> pxEnd h' = pxEnd h \<and>
    (if sb - w > heapMINIMUM_BLOCK_SIZE
     then xFreeBytesRemaining h' = xFreeBytesRemaining h - w \<and>
       headers h' = (headers h)(p \<mapsto> \<lparr>pxNextFreeBlock = b + w, xBlockSize = sp\<rparr>,
         b + w \<mapsto> \<lparr>pxNextFreeBlock = n, xBlockSize = sb - w\<rparr>,
         b \<mapsto> \<lparr>pxNextFreeBlock = 0, xBlockSize = w OR heapBLOCK_ALLOCATED_BITMASK\<rparr>)
     else xFreeBytesRemaining h' = xFreeBytesRemaining h - sb \<and>
       headers h' = (headers h)(p \<mapsto> \<lparr>pxNextFreeBlock = n, xBlockSize = sp\<rparr>,
         b \<mapsto> \<lparr>pxNextFreeBlock = 0, xBlockSize = sb OR heapBLOCK_ALLOCATED_BITMASK\<rparr>))"
proof (cases "sb - w > heapMINIMUM_BLOCK_SIZE")
  case True
  then have "b + w \<noteq> p" "p \<noteq> b + w" "b + w \<noteq> b" "(b + w) AND portBYTE_ALIGNMENT_MASK = 0"
    using assms(6) by auto
  then show ?thesis
    using True assms(1-5)
    by (simp add: take_block_def get_header_def put_header_def new_header_def config_assert_def Let_def fun_eq_iff)
next
  case False
  then show ?thesis
    using assms(1-5)
    by (simp add: take_block_def get_header_def put_header_def new_header_def config_assert_def Let_def fun_eq_iff)
qed


lemma rep_facts:
  assumes "heap_rep cfg bs h"
  shows "pxEnd h = of_nat (heap_last cfg)" and "tiles (heap_first cfg) bs (heap_last cfg)" and "separated bs"
    and "xFreeBytesRemaining h = of_nat (free_bytes bs)"
    and "headers h (of_nat (heap_last cfg)) = Some \<lparr>pxNextFreeBlock = 0, xBlockSize = 0\<rparr>"
    and "stored (headers h) (of_nat (heap_last cfg)) (start_blk cfg # bs)"
  using assms by (auto simp: heap_rep_def simp del: stored.simps)

lemma rep_stored:
  assumes "heap_rep cfg (r1 @ rest) h" and "start_blk cfg # r1 = pre @ p # ys"
  shows "stored (headers h) (of_nat (heap_last cfg)) (pre @ p # ys @ rest)"
proof -
  have "pre @ p # ys @ rest = start_blk cfg # r1 @ rest"
    using assms(2) by simp
  then show ?thesis
    using rep_facts(6) [OF assms(1)] by (simp only:)
qed

text \<open>Replacing a segment of the layout: the last free block before it gets a new successor, the headers of the
  segment are written, and the others stay.\<close>

lemma rep_replace:
  assumes "wf_config cfg" and rep: "heap_rep cfg (r1 @ mid @ r2) h"
    and split: "start_blk cfg # r1 = pre @ p # ys" and "blk_free p" and "\<forall>y \<in> set ys. \<not> blk_free y"
    and tiles': "tiles (heap_first cfg) (r1 @ cs @ r2) (heap_last cfg)" and "separated (r1 @ cs @ r2)"
    and same: "\<And>x. x \<in> set (pre @ ys @ r2) \<Longrightarrow> headers h' (of_nat (blk_addr x)) = headers h (of_nat (blk_addr x))"
    and "headers h' (of_nat (blk_addr p)) =
      Some \<lparr>pxNextFreeBlock = first_free (of_nat (heap_last cfg)) (cs @ r2), xBlockSize = of_nat (blk_size p)\<rparr>"
    and "stored (headers h') (first_free (of_nat (heap_last cfg)) r2) cs"
    and "headers h' (of_nat (heap_last cfg)) = headers h (of_nat (heap_last cfg))" and "pxEnd h' = pxEnd h"
    and "xFreeBytesRemaining h' = of_nat (free_bytes (r1 @ cs @ r2))"
  shows "heap_rep cfg (r1 @ cs @ r2) h'"
proof -
  let ?e = "of_nat (heap_last cfg) :: u32"
  note stored = rep_stored [OF rep split] and tiles = rep_facts(2) [OF rep]
  have "distinct (start_blk cfg # r1)"
    using start_not_in(2) [OF assms(1) tiles] by auto
  then have notin: "p \<notin> set pre" "p \<notin> set ys"
    using split by auto
  have front: "stored (headers h) (first_free ?e (mid @ r2)) (pre @ p # ys)"
    using stored stored_append [of "headers h" ?e "pre @ p # ys" "mid @ r2"] by simp
  have others: "\<forall>x \<in> set (pre @ p # ys). x = p \<or> headers h' (of_nat (blk_addr x)) = headers h (of_nat (blk_addr x))"
    using same by auto
  have "stored (headers h') (first_free ?e (cs @ r2)) (pre @ p # ys)"
    by (rule stored_relink [OF front assms(4,5) others assms(9) notin])
  moreover have "stored (headers h') ?e r2"
  proof -
    have "stored (headers h') ?e r2 = stored (headers h) ?e r2"
      using same by (intro stored_cong) auto
    then show ?thesis using stored by (simp add: stored_append)
  qed
  ultimately have "stored (headers h') ?e ((pre @ p # ys) @ cs @ r2)"
    using assms(10) unfolding stored_append [of "headers h'" ?e "pre @ p # ys" "cs @ r2"]
      stored_append [of "headers h'" ?e cs r2] by blast
  then have "stored (headers h') ?e (start_blk cfg # r1 @ cs @ r2)"
    using split by (metis append_Cons)
  then show ?thesis
    using assms(6,7,11-) rep_facts(1,5) [OF rep] by (simp add: heap_rep_def del: stored.simps free_bytes_simps)
qed

lemma take_block_rep:
  assumes "wf_config cfg" and rep: "heap_rep cfg (r1 @ b # r2) h" and "fits (unat w) b"
    and split: "start_blk cfg # r1 = pre @ p # ys" and "blk_free p" and "\<forall>y \<in> set ys. \<not> blk_free y"
    and "16 \<le> unat w" and "8 dvd unat w"
  shows "\<exists>h'. take_block cfg w (of_nat (blk_addr p)) (of_nat (blk_addr b)) h
      = Some (of_nat (blk_addr b + 8), h') \<and> heap_rep cfg (r1 @ carve (unat w) b @ r2) h'"
proof -
  let ?bs = "r1 @ b # r2" and ?e = "of_nat (heap_last cfg) :: u32"
  let ?p = "of_nat (blk_addr p) :: u32" and ?b = "of_nat (blk_addr b) :: u32"
  define n where "n = first_free ?e r2"
  note stored = rep_stored [OF rep split] and tiles = rep_facts(2) [OF rep] and sep = rep_facts(3) [OF rep]
  note b = rep_blocks [OF assms(1) tiles, of b, simplified]
  have bfree: "blk_free b" "unat w \<le> blk_size b" using assms(3) by (simp_all add: fits_def)
  have all: "set (pre @ p # ys @ b # r2) = set (start_blk cfg # ?bs)" using arg_cong [OF split, of set] by auto
  have dist: "distinct (pre @ p # ys @ b # r2)"
    using start_not_in(2) [OF assms(1) tiles] split by (metis append_Cons append_assoc)
  have neq: "of_nat (blk_addr x) = (of_nat (blk_addr y) :: u32) \<longleftrightarrow> x = y"
    if "x \<in> set (pre @ p # ys @ b # r2)" "y \<in> set (pre @ p # ys @ b # r2)" for x y
    using all_distinct [OF assms(1) tiles] that unfolding all by blast
  have hp: "headers h ?p = Some \<lparr>pxNextFreeBlock = ?b, xBlockSize = of_nat (blk_size p)\<rparr>"
    and hb: "headers h ?b = Some \<lparr>pxNextFreeBlock = n, xBlockSize = of_nat (blk_size b)\<rparr>"
    using stored assms(5,6) bfree by (simp_all add: stored_append first_free_append blk_header_def n_def)
  have mem: "p \<in> set (start_blk cfg # ?bs)" "b \<in> set (start_blk cfg # ?bs)"
    using all by auto
  have pb: "?p \<noteq> ?b" using neq [of p b] dist by auto
  have sum: "?b + w = of_nat (blk_addr b + unat w)" "?b + xHeapStructSize = of_nat (blk_addr b + 8)"
    by (simp_all add: xHeapStructSize_def)
  have size: "\<not> of_nat (blk_size b) < w" "unat (of_nat (blk_size b) - w) = blk_size b - unat w"
    using bfree(2) b(2) by (simp_all add: word_less_nat_alt unat_sub_word word_le_nat_alt)
  have big: "of_nat (blk_size b) - w > heapMINIMUM_BLOCK_SIZE \<longleftrightarrow> blk_size b - unat w > 16"
    using size(2) by (simp add: word_less_nat_alt heapMINIMUM_BLOCK_SIZE_def)
  have valid: "validate_block_pointer cfg (?b + xHeapStructSize) = Some ()"
    unfolding sum using b(7,8,10) by (intro valid_pointer [OF assms(1)]) auto
  have align: "(?b + w) AND portBYTE_ALIGNMENT_MASK = 0"
    unfolding sum using b(12) assms(8) by (intro aligned_word) simp
  have fresh: "?b + w \<noteq> of_nat (blk_addr x)" if "x \<in> set (start_blk cfg # ?bs)" "blk_size b - unat w > 16" for x
  proof -
    have "0 < unat w" "unat w < blk_size b" using that(2) assms(7) by linarith+
    then show ?thesis
      using inside_block_fresh [OF assms(1) tiles _ _ _ that(1), of b "unat w"] unfolding sum by force
  qed
  have end_fresh: "?e \<noteq> ?p" "?e \<noteq> ?b" "blk_size b - unat w > 16 \<Longrightarrow> ?e \<noteq> ?b + w"
    using mem(1) rep_blocks(5) [OF assms(1) tiles, of p] rep_end(2) [OF assms(1)]
      end_outside [OF assms(1) tiles, of b 0] end_outside [OF assms(1) tiles, of b "unat w"] b(10) unfolding sum by auto
  have "of_nat (blk_size b) - w > heapMINIMUM_BLOCK_SIZE \<Longrightarrow>
      ?b + w \<noteq> ?p \<and> ?b + w \<noteq> ?b \<and> (?b + w) AND portBYTE_ALIGNMENT_MASK = 0"
    using fresh [OF mem(1)] fresh [OF mem(2)] align unfolding big by auto
  from take_block_headers [OF hp hb pb valid size(1) this]
  obtain h' where run: "take_block cfg w ?p ?b h = Some (of_nat (blk_addr b + 8), h')" and "pxEnd h' = pxEnd h" and
    h': "if blk_size b - unat w > 16
     then xFreeBytesRemaining h' = xFreeBytesRemaining h - w \<and>
       headers h' = (headers h)(?p \<mapsto> \<lparr>pxNextFreeBlock = ?b + w, xBlockSize = of_nat (blk_size p)\<rparr>,
         ?b + w \<mapsto> \<lparr>pxNextFreeBlock = n, xBlockSize = of_nat (blk_size b) - w\<rparr>,
         ?b \<mapsto> \<lparr>pxNextFreeBlock = 0, xBlockSize = w OR heapBLOCK_ALLOCATED_BITMASK\<rparr>)
     else xFreeBytesRemaining h' = xFreeBytesRemaining h - of_nat (blk_size b) \<and>
       headers h' = (headers h)(?p \<mapsto> \<lparr>pxNextFreeBlock = n, xBlockSize = of_nat (blk_size p)\<rparr>,
         ?b \<mapsto> \<lparr>pxNextFreeBlock = 0, xBlockSize = of_nat (blk_size b) OR heapBLOCK_ALLOCATED_BITMASK\<rparr>)"
    unfolding big sum(2) by blast
  have "heap_rep cfg (r1 @ carve (unat w) b @ r2) h'"
  proof (rule rep_replace [of cfg r1 "[b]" r2 h, OF assms(1) _ split assms(5,6)])
    show "heap_rep cfg (r1 @ [b] @ r2) h" using rep by simp
    show "tiles (heap_first cfg) (r1 @ carve (unat w) b @ r2) (heap_last cfg)"
      by (rule tiles_carve [OF tiles assms(3,7,8)])
    show "separated (r1 @ carve (unat w) b @ r2)"
      by (rule separated_carve [OF sep bfree(1)])
    show "headers h' (of_nat (blk_addr x)) = headers h (of_nat (blk_addr x))" if "x \<in> set (pre @ ys @ r2)" for x
    proof -
      have "x \<noteq> p" "x \<noteq> b" "x \<in> set (pre @ p # ys @ b # r2)" using that dist by auto
      then have "of_nat (blk_addr x) \<noteq> ?p" "of_nat (blk_addr x) \<noteq> ?b" "x \<in> set (start_blk cfg # ?bs)"
        using neq [of x p] neq [of x b] all by auto
      then show ?thesis using h' fresh [of x] by (auto split: if_splits)
    qed
    show "headers h' ?p = Some \<lparr>pxNextFreeBlock = first_free ?e (carve (unat w) b @ r2), xBlockSize = of_nat (blk_size p)\<rparr>"
      using h' pb fresh [OF mem(1)] by (auto simp: carve_def n_def split: if_splits)
    show "stored (headers h') (first_free ?e r2) (carve (unat w) b)"
      using h' pb fresh [OF mem(2)] bfree(2) by (auto simp: carve_def n_def blk_header_def of_nat_diff split: if_splits)
    show "headers h' ?e = headers h ?e"
      using h' end_fresh by (auto split: if_splits)
    show "pxEnd h' = pxEnd h" by fact
    show "xFreeBytesRemaining h' = of_nat (free_bytes (r1 @ carve (unat w) b @ r2))"
      using h' rep_facts(4) [OF rep] bfree by (auto simp: carve_def of_nat_diff split: if_splits)
  qed
  then show ?thesis using run by blast
qed


lemma add_overflow: "heapADD_WILL_OVERFLOW a b \<longleftrightarrow> unat a + unat b \<ge> 2 ^ 32"
proof -
  have "unat (- 1 - b) = 2 ^ 32 - 1 - unat b"
    using unat_sub_word [of b "- 1"] by (simp add: unsigned_minus_1_eq_mask mask_eq_exp_minus_1)
  moreover have "unat b \<le> 4294967295"
    using unat_u32_bound [of b] by linarith
  ultimately show ?thesis
    by (auto simp: heapADD_WILL_OVERFLOW_def word_less_nat_alt)
qed

lemma and_alignment: "unat (x AND portBYTE_ALIGNMENT_MASK) = unat x mod 8"
proof -
  have "portBYTE_ALIGNMENT_MASK = mask 3"
    by (simp add: portBYTE_ALIGNMENT_MASK_def mask_eq_exp_minus_1)
  then have "x AND portBYTE_ALIGNMENT_MASK = take_bit 3 x"
    by (simp add: take_bit_eq_mask)
  then show ?thesis
    by (simp add: take_bit_eq_mod unat_mod)
qed

lemma round_up_8: "(k + 7) div 8 * 8 = (if k mod 8 = 0 then k else k + (8 - k mod 8))" for k :: nat
proof -
  define q r where "q = k div 8" and "r = k mod 8"
  have k: "k = 8 * q + r" "r < 8" by (simp_all add: q_def r_def)
  then have "(k + 7) div 8 = q + (r + 7) div 8" by (simp add: add.assoc)
  moreover have "(r + 7) div 8 = (if r = 0 then 0 else 1)"
  proof (cases "r = 0")
    case False
    then have "(r + 7) div 8 = Suc ((r - 1) div 8)" by (simp add: div_eq_dividend_iff flip: add_Suc_right)
    then show ?thesis using k(2) False by simp
  qed simp
  ultimately show ?thesis using k by (simp flip: r_def)
qed

lemma round_size_spec:
  fixes n :: u32
  assumes "0 < n"
  defines "m \<equiv> (unat n + 15) div 8 * 8"
  shows "unat (round_size n) = (if m < 2 ^ 32 then m else 0)"
proof (cases "unat n + 8 < 2 ^ 32")
  case False
  then show ?thesis
    using assms(1) by (simp add: round_size_def add_overflow xHeapStructSize_def m_def)
next
  case True
  define x where "x = n + xHeapStructSize"
  have x: "unat x = unat n + 8"
    using True by (simp add: x_def xHeapStructSize_def unat_add_no_wrap)
  have no: "\<not> heapADD_WILL_OVERFLOW n xHeapStructSize"
    using True by (simp add: add_overflow xHeapStructSize_def)
  show ?thesis
  proof (cases "unat x mod 8 = 0")
    case True
    then have "round_size n = x"
      using assms(1) no and_alignment [of x] by (simp add: round_size_def x_def [symmetric] word_unat_eq_iff)
    moreover have "m = unat x"
      using True x round_up_8 [of "unat x"] by (simp add: m_def add.commute)
    ultimately show ?thesis
      using \<open>unat n + 8 < 2 ^ 32\<close> x by simp
  next
    case False
    define r where "r = 8 - (x AND portBYTE_ALIGNMENT_MASK)"
    have r: "unat r = 8 - unat x mod 8"
      using and_alignment [of x] unat_sub_word [of "x AND portBYTE_ALIGNMENT_MASK" 8]
      by (simp add: r_def word_le_nat_alt)
    have m: "m = unat x + unat r"
      using False x r round_up_8 [of "unat x"] by (simp add: m_def add.commute)
    have "round_size n = (if \<not> heapADD_WILL_OVERFLOW x r then x + r else 0)"
      using assms(1) no False and_alignment [of x]
      by (auto simp: round_size_def x_def [symmetric] r_def [symmetric])
    then show ?thesis
      by (simp add: add_overflow m unat_add_no_wrap)
  qed
qed


lemma size_valid: "heapBLOCK_SIZE_IS_VALID x \<longleftrightarrow> unat x < 2 ^ 31"
proof -
  have top: "heapBLOCK_ALLOCATED_BITMASK = 2 ^ 31"
    by (simp add: heapBLOCK_ALLOCATED_BITMASK_def)
  have "heapBLOCK_SIZE_IS_VALID x \<longleftrightarrow> \<not> bit x 31"
    unfolding heapBLOCK_SIZE_IS_VALID_def top by (rule and_exp_eq_0_iff_not_bit)
  also have "\<dots> \<longleftrightarrow> even (unat x div 2 ^ 31)"
    using bit_unsigned_iff [where ?'b = 32 and ?'a = nat, of x 31] by (simp add: bit_iff_odd [of "unat x"]) blast
  also have "\<dots> \<longleftrightarrow> unat x < 2 ^ 31"
  proof -
    have "unat x div 2 ^ 31 < 2"
      using unat_u32_bound [of x] by (simp add: div_less_iff_less_mult)
    then have "unat x div 2 ^ 31 = 0 \<or> unat x div 2 ^ 31 = 1" by linarith
    then show ?thesis by (auto simp: div_eq_0_iff)
  qed
  finally show ?thesis .
qed

text \<open>The size of the block that serves a request: header and alignment included; 0 when there is none.\<close>

definition block_size :: "u32 \<Rightarrow> nat" where
  "block_size n =
     (let m = (unat n + 15) div 8 * 8 in if n = 0 \<or> 2 ^ 31 \<le> m then 0 else m)"

definition allocate :: "u32 \<Rightarrow> blk list \<Rightarrow> (nat \<times> blk list) option" where
  "allocate n bs = (if block_size n = 0 then None else first_fit (block_size n) bs)"

lemma round_size_block:
  "heapBLOCK_SIZE_IS_VALID (round_size n) \<and> round_size n > 0 \<longleftrightarrow> block_size n \<noteq> 0"
  "block_size n \<noteq> 0 \<Longrightarrow> unat (round_size n) = block_size n"
  "block_size n \<noteq> 0 \<Longrightarrow> 16 \<le> block_size n \<and> 8 dvd block_size n"
proof -
  show "heapBLOCK_SIZE_IS_VALID (round_size n) \<and> round_size n > 0 \<longleftrightarrow> block_size n \<noteq> 0"
    "block_size n \<noteq> 0 \<Longrightarrow> unat (round_size n) = block_size n"
    using round_size_spec [of n]
    by (cases "n = 0"; auto simp: size_valid block_size_def Let_def word_less_nat_alt round_size_def word_neq_0_conv split: if_splits)+
  show "block_size n \<noteq> 0 \<Longrightarrow> 16 \<le> block_size n \<and> 8 dvd block_size n"
    using unat_gt_0 [of n] by (auto simp: block_size_def Let_def split: if_splits)
qed

lemma malloc_rep:
  assumes "wf_config cfg" and rep: "heap_rep cfg bs h"
  shows "case allocate n bs of
      None \<Rightarrow> pvPortMalloc cfg n h = returns (0, h)
    | Some (a, bs') \<Rightarrow> \<exists>h'. pvPortMalloc cfg n h = returns (of_nat (a + 8), h') \<and> heap_rep cfg bs' h'"
proof -
  note rf = rep_facts [OF rep]
  let ?W = "round_size n" and ?w = "block_size n" and ?e = "of_nat (heap_last cfg) :: u32"
  have "free_bytes bs < 2 ^ 32"
    using free_bytes_le [of bs] tiles_size [OF rf(2)] heap_bounds(5) [OF assms(1)] by linarith
  then have bytes: "unat (xFreeBytesRemaining h) = free_bytes bs"
    using rf(4) by (simp add: unat_of_nat_u32)
  have end_nz: "pxEnd h \<noteq> 0" using rf(1) rep_end(1) [OF assms(1)] by simp
  have start: "headers h (xStart_address cfg) = Some \<lparr>pxNextFreeBlock = first_free ?e bs, xBlockSize = 0\<rparr>"
    using rf(6) by (simp add: blk_header_def)
  show ?thesis
  proof (cases "?w \<noteq> 0 \<and> ?w \<le> free_bytes bs")
    case False
    then have "first_fit ?w bs = None" if "?w \<noteq> 0"
      using that fits_free_bytes [of _ bs ?w] unfolding first_fit_None_iff by blast
    then have "allocate n bs = None" by (simp add: allocate_def)
    moreover have "\<not> (heapBLOCK_SIZE_IS_VALID ?W \<and> ?W > 0 \<and> ?W \<le> xFreeBytesRemaining h)"
      using False round_size_block(1,2) [of n] bytes by (auto simp: word_le_nat_alt)
    ultimately show ?thesis
      using end_nz by (auto simp: pvPortMalloc_def Let_def)
  next
    case True
    then have go: "heapBLOCK_SIZE_IS_VALID ?W \<and> ?W > 0 \<and> ?W \<le> xFreeBytesRemaining h" and W: "unat ?W = ?w"
      using round_size_block(1,2) [of n] bytes by (auto simp: word_le_nat_alt)
    obtain r where r: "find_block cfg ?W h (xStart_address cfg) (first_free ?e bs) = returns r"
        "finds ?w [start_blk cfg] bs ?e r"
      using find_block_runs [OF assms(1) rf(2,1), of "[]" "start_blk cfg" "[]" bs ?W] rf(1,5,6) W by auto
    have run: "pvPortMalloc cfg n h = (if snd r \<noteq> pxEnd h
        then Some (do { (pvReturn, h) \<leftarrow> take_block cfg ?W (fst r) (snd r) h;
                        _ \<leftarrow> config_assert (pvReturn AND portBYTE_ALIGNMENT_MASK = 0);
                        Some (pvReturn, h) })
        else returns (0, h))"
      using end_nz go start first_free_valid(2) [OF assms(1) rf(2), of bs] r(1)
      by (simp add: pvPortMalloc_def get_header_def case_prod_beta)
    from r(2) show ?thesis
      unfolding finds_def
    proof (elim disjE exE conjE)
      fix r1 b r2 pre p ys
      assume found: "bs = r1 @ b # r2" "\<forall>x \<in> set r1. \<not> fits ?w x" "fits ?w b" "[start_blk cfg] @ r1 = pre @ p # ys"
        "blk_free p" "\<forall>y \<in> set ys. \<not> blk_free y" "r = (of_nat (blk_addr p), of_nat (blk_addr b))"
      have alloc: "allocate n bs = Some (blk_addr b, r1 @ carve ?w b @ r2)"
        using True first_fit_append [OF found(2,3), of r2] found(1) by (simp add: allocate_def)
      obtain h' where h': "take_block cfg ?W (of_nat (blk_addr p)) (of_nat (blk_addr b)) h = Some (of_nat (blk_addr b + 8), h')"
          "heap_rep cfg (r1 @ carve ?w b @ r2) h'"
        using take_block_rep [OF assms(1) _ _ _ found(5,6), of r1 b r2 h ?W pre] rep found W round_size_block(3) [of n] True
        by auto
      have b: "b \<in> set bs" using found(1) by simp
      have "of_nat (blk_addr b + 8) AND portBYTE_ALIGNMENT_MASK = 0"
        using rep_blocks(12) [OF assms(1) rf(2) b] by (intro aligned_word) simp
      then show ?thesis
        using alloc h' run found(7) rep_blocks(5) [OF assms(1) rf(2) b] rf(1) by (simp add: config_assert_def)
    next
      assume none: "\<forall>x \<in> set bs. \<not> fits ?w x" "snd r = ?e"
      then have "allocate n bs = None" by (simp add: allocate_def first_fit_None_iff)
      then show ?thesis using run none(2) rf(1) by simp
    qed
  qed
qed

section \<open>Release\<close>

lemma find_position_runs:
  assumes "stored (headers h) nxt (pre @ p # ys @ rest)" and "blk_free p" and "\<forall>y \<in> set ys. \<not> blk_free y"
    and "\<forall>y \<in> set rest. blk_free y \<longrightarrow> of_nat (blk_addr y) < x" and "\<not> nxt < x"
  shows "\<exists>pre' q ys'. pre @ p # ys @ rest = pre' @ q # ys' \<and> blk_free q \<and> (\<forall>y \<in> set ys'. \<not> blk_free y) \<and>
    find_position h x (of_nat (blk_addr p)) = returns (of_nat (blk_addr q))"
  using assms
proof (induction rest arbitrary: pre p ys)
  case Nil
  then have "find_position h x (of_nat (blk_addr p)) = returns (of_nat (blk_addr p))"
    by (subst find_position.simps) (simp add: get_header_def stored_append blk_header_def)
  then show ?case using Nil.prems by auto
next
  case (Cons b rest)
  show ?case
  proof (cases "blk_free b")
    case True
    then have "find_position h x (of_nat (blk_addr p)) = find_position h x (of_nat (blk_addr b))"
      using Cons.prems
      by (subst find_position.simps) (simp add: get_header_def stored_append first_free_append blk_header_def)
    then show ?thesis
      using Cons.IH [of "pre @ p # ys" b "[]"] Cons.prems True by simp
  next
    case False
    then show ?thesis
      using Cons.IH [of pre p "ys @ [b]"] Cons.prems by simp
  qed
qed

text \<open>The header writes of \<open>insert_at\<close>, on any store.\<close>

lemma insert_at_headers:
  assumes "headers h q = Some \<lparr>pxNextFreeBlock = n, xBlockSize = sq\<rparr>"
    and "headers h b = Some \<lparr>pxNextFreeBlock = 0, xBlockSize = sb\<rparr>" and "q \<noteq> b"
    and "q \<noteq> xStart_address cfg \<Longrightarrow> validate_block_pointer cfg q = Some ()"
    and "b + sb = n \<Longrightarrow> n \<noteq> pxEnd h \<Longrightarrow> headers h n = Some \<lparr>pxNextFreeBlock = nd, xBlockSize = sd\<rparr> \<and> n \<noteq> q \<and> n \<noteq> b"
    and next_size: "(nn, extra) = (if b + sb = n \<and> n \<noteq> pxEnd h then (nd, sd) else (n, 0))"
  shows "insert_at cfg q b h = Some (h\<lparr>headers :=
    if q + sq = b then (headers h)(q \<mapsto> \<lparr>pxNextFreeBlock = nn, xBlockSize = sq + sb + extra\<rparr>)
    else (headers h)(b \<mapsto> \<lparr>pxNextFreeBlock = nn, xBlockSize = sb + extra\<rparr>, q \<mapsto> \<lparr>pxNextFreeBlock = b, xBlockSize = sq\<rparr>)\<rparr>)"
proof -
  have valid: "(if q \<noteq> xStart_address cfg then validate_block_pointer cfg q else Some ()) = Some ()"
    using assms(4) by simp
  have sum: "q + (sq + sb) = n \<longleftrightarrow> b + sb = n" if "q + sq = b"
    using that by (simp add: add.assoc [symmetric])
  show ?thesis
  proof (cases "b + sb = n \<and> n \<noteq> pxEnd h")
    case True
    then have n: "headers h n = Some \<lparr>pxNextFreeBlock = nd, xBlockSize = sd\<rparr>" "n \<noteq> q" "n \<noteq> b" "nn = nd" "extra = sd"
      using assms(5) next_size by auto
    then show ?thesis
      using True assms(1-3) sum
      by (cases "q + sq = b")
        (simp_all add: insert_at_def valid get_header_def put_header_def fun_eq_iff add.assoc)
  next
    case False
    then have "nn = n" "extra = 0"
      using next_size by auto
    then show ?thesis
      using False assms(1-3) sum
      by (cases "q + sq = b"; cases "b + sb = n")
        (simp_all add: insert_at_def valid get_header_def put_header_def fun_eq_iff add.assoc)
  qed
qed

lemma tiles_before:
  assumes "tiles a (xs @ b # ys) e" and "y \<in> set xs"
  shows "blk_addr y + blk_size y \<le> blk_addr b"
  using assms tiles_in [of a xs _ y] by (auto simp: tiles_append)

lemma tiles_after:
  assumes "tiles a (xs @ b # ys) e" and "y \<in> set ys"
  shows "blk_addr b + blk_size b \<le> blk_addr y"
  using assms tiles_in [of "blk_addr b + blk_size b" ys e y] by (auto simp: tiles_append)

lemma tiles_adjacent: "tiles a (xs @ b # c # ys) e \<Longrightarrow> blk_addr b + blk_size b = blk_addr c"
  by (auto simp: tiles_append)

lemma tiles_end: "tiles a (xs @ [b]) e \<Longrightarrow> blk_addr b + blk_size b = e"
  by (auto simp: tiles_append)


lemma free_bytes_release:
  assumes "distinct (map blk_addr (r1 @ b # r2))" and "\<not> blk_free b"
  shows "free_bytes (release (blk_addr b) (r1 @ b # r2)) = free_bytes (r1 @ b # r2) + blk_size b"
  using assms unfolding release_def mark_free_split [OF assms(1)] by simp

lemma release_invariants:
  assumes "tiles a bs e"
  shows "tiles a (release p bs) e" and "separated (release p bs)"
  using tiles_join [OF tiles_mark [OF assms]] separated_join by (auto simp: release_def)

lemma first_free_in: "\<exists>y \<in> set cs. blk_free y \<Longrightarrow> \<exists>y \<in> set cs. first_free e cs = of_nat (blk_addr y)"
  by (induction cs) auto

text \<open>The right neighbour: what the list of free blocks continues with behind the released block.\<close>

lemma right_neighbour:
  assumes "wf_config cfg" and "tiles (heap_first cfg) (r1 @ b # r2) (heap_last cfg)"
  obtains ds rest where "r2 = ds @ rest" and "\<And>c. blk_free c \<Longrightarrow> join_next c r2 = Blk (blk_addr c) (blk_size c + sum_list (map blk_size ds)) True # rest"
    and "if of_nat (blk_addr b) + of_nat (blk_size b) = first_free (of_nat (heap_last cfg)) r2
           \<and> first_free (of_nat (heap_last cfg)) r2 \<noteq> (of_nat (heap_last cfg) :: u32)
         then \<exists>d. ds = [d] \<and> blk_free d else ds = []"
proof -
  let ?e = "of_nat (heap_last cfg) :: u32"
  note blocks = rep_blocks [OF assms]
  have sum: "of_nat (blk_addr b) + of_nat (blk_size b) = (of_nat (blk_addr b + blk_size b) :: u32)" by simp
  have u: "unat (of_nat (blk_addr b + blk_size b) :: u32) = blk_addr b + blk_size b"
    using blocks(8) [of b] by (intro word_addr [OF assms(1)]) simp
  show ?thesis
  proof (cases "r2 \<noteq> [] \<and> blk_free (hd r2)")
    case True
    then obtain d rest where r2: "r2 = d # rest" "blk_free d" by (cases r2) auto
    moreover have "of_nat (blk_addr d) \<noteq> ?e" using blocks(5) [of d] r2 by simp
    moreover have "blk_addr b + blk_size b = blk_addr d"
      using tiles_adjacent [of _ r1 b d rest] assms(2) r2 by simp
    ultimately show ?thesis
      using that [of "[d]" rest] unfolding sum by (simp add: join_next_def)
  next
    case False
    have "\<not> (of_nat (blk_addr b + blk_size b) = first_free ?e r2 \<and> first_free ?e r2 \<noteq> ?e)"
    proof (cases "\<exists>y \<in> set r2. blk_free y")
      case True
      with False obtain c cs where r2: "r2 = c # cs" "\<not> blk_free c" by (cases r2) auto
      obtain y where y: "y \<in> set cs" "first_free ?e r2 = of_nat (blk_addr y)"
        using first_free_in [of cs ?e] True r2 by auto
      have "blk_addr b + blk_size b < blk_addr y"
        using tiles_adjacent [of "heap_first cfg" r1 b c cs "heap_last cfg"]
          tiles_after [of "heap_first cfg" "r1 @ [b]" c cs "heap_last cfg" y] assms(2) r2 y(1) blocks(10) [of c] by simp
      then show ?thesis
        using u y(2) blocks(1) [of y] r2 y(1) by (metis Un_iff list.set_intros(2) nat_neq_iff set_append)
    qed simp
    moreover have "c = Blk (blk_addr c) (blk_size c) True" if "blk_free c" for c
      using that by (cases c) simp
    ultimately show ?thesis
      using that [of "[]" r2] False unfolding sum by (cases r2) (auto simp: join_next_def)
  qed
qed


lemma clear_mark:
  assumes "unat x < 2 ^ 31"
  shows "(x OR heapBLOCK_ALLOCATED_BITMASK) AND NOT heapBLOCK_ALLOCATED_BITMASK = x"
    and "(x OR heapBLOCK_ALLOCATED_BITMASK) AND heapBLOCK_ALLOCATED_BITMASK \<noteq> 0"
proof -
  have "x AND heapBLOCK_ALLOCATED_BITMASK = 0"
    using assms size_valid [of x] by (simp add: heapBLOCK_SIZE_IS_VALID_def)
  then have "bit x n \<Longrightarrow> \<not> bit heapBLOCK_ALLOCATED_BITMASK n" for n
    by (metis bit_and_iff bit_0_eq bot_apply bot_bool_def)
  then show "(x OR heapBLOCK_ALLOCATED_BITMASK) AND NOT heapBLOCK_ALLOCATED_BITMASK = x"
    by (intro bit_word_eqI) (auto simp: bit_simps)
  have "(x OR heapBLOCK_ALLOCATED_BITMASK) AND heapBLOCK_ALLOCATED_BITMASK = heapBLOCK_ALLOCATED_BITMASK"
    by (intro bit_word_eqI) (auto simp: bit_simps)
  then show "(x OR heapBLOCK_ALLOCATED_BITMASK) AND heapBLOCK_ALLOCATED_BITMASK \<noteq> 0"
    by (simp add: heapBLOCK_ALLOCATED_BITMASK_def)
qed

text \<open>The left neighbour: the block at which the search stops ends where the released block begins exactly when it
  is the block before it.\<close>

lemma left_neighbour:
  assumes "wf_config cfg" and "tiles (heap_first cfg) (r1 @ b # r2) (heap_last cfg)"
    and "start_blk cfg # r1 = pre @ q # ys" and "\<forall>y \<in> set ys. \<not> blk_free y" and "blk_free q"
  shows "of_nat (blk_addr q) + of_nat (blk_size q) = (of_nat (blk_addr b) :: u32)
    \<longleftrightarrow> r1 \<noteq> [] \<and> blk_free (last r1)"
    and "r1 \<noteq> [] \<Longrightarrow> blk_free (last r1) \<Longrightarrow> ys = [] \<and> q = last r1 \<and> pre = start_blk cfg # butlast r1"
proof -
  show left: "ys = [] \<and> q = last r1 \<and> pre = start_blk cfg # butlast r1" if "r1 \<noteq> []" "blk_free (last r1)"
  proof (cases ys rule: rev_cases)
    case Nil
    then have "r1 = tl pre @ [q]" "pre \<noteq> []"
      using assms(3) that(1) by (cases pre; auto)+
    then show ?thesis using Nil assms(3) by (cases pre) auto
  next
    case (snoc zs z)
    then have "last (start_blk cfg # r1) = z" using assms(3) by simp
    then show ?thesis using snoc assms(4) that by simp
  qed
  note blocks = rep_blocks [OF assms(1,2)]
  have sum: "of_nat (blk_addr q) + of_nat (blk_size q) = (of_nat (blk_addr q + blk_size q) :: u32)" by simp
  show "of_nat (blk_addr q) + of_nat (blk_size q) = (of_nat (blk_addr b) :: u32)
    \<longleftrightarrow> r1 \<noteq> [] \<and> blk_free (last r1)"
  proof (cases "r1 \<noteq> [] \<and> blk_free (last r1)")
    case True
    then have "r1 = butlast r1 @ [q]" using left by simp
    then have "blk_addr q + blk_size q = blk_addr b"
      using assms(2) tiles_adjacent [of _ "butlast r1" q b r2] by (metis append.assoc append_Cons append_Nil)
    then show ?thesis using True unfolding sum by simp
  next
    case False
    show ?thesis
    proof (cases pre)
      case Nil
      then have "q = start_blk cfg" using assms(3) by simp
      then show ?thesis using False blocks(4) [of b] by auto
    next
      case (Cons z zs)
      then have r1: "r1 = zs @ q # ys" using assms(3) by simp
      then have "ys \<noteq> []" using False assms(5) by auto
      then obtain y ys' where ys: "ys = y # ys'" by (cases ys) auto
      have "blk_addr q + blk_size q = blk_addr y" "blk_addr y + blk_size y \<le> blk_addr b"
        using assms(2) r1 ys tiles_adjacent [of _ zs q y "ys' @ b # r2"] tiles_before [of _ "zs @ q # y # ys'" b r2 _ y] by auto
      then have "blk_addr q + blk_size q < blk_addr b" using blocks(10) [of y] r1 ys by simp
      moreover have "unat (of_nat (blk_addr q + blk_size q) :: u32) = blk_addr q + blk_size q"
        using blocks(8) [of q] r1 by (intro word_addr [OF assms(1)]) simp
      ultimately show ?thesis
        using False blocks(1) [of b] unfolding sum by (metis in_set_conv_decomp nat_neq_iff)
    qed
  qed
qed


text \<open>The layouts after the two kinds of header writes.\<close>

lemma joined_left_rep:
  assumes "wf_config cfg" and rep: "heap_rep cfg (r1 @ q # b # ds @ rest) h" and "blk_free q"
    and "headers h2 = (headers h)(of_nat (blk_addr b) \<mapsto> \<lparr>pxNextFreeBlock = 0, xBlockSize = of_nat (blk_size b)\<rparr>,
      of_nat (blk_addr q) \<mapsto> \<lparr>pxNextFreeBlock = first_free (of_nat (heap_last cfg)) rest, xBlockSize = of_nat m\<rparr>)"
    and "pxEnd h2 = pxEnd h" and "tiles (heap_first cfg) (r1 @ Blk (blk_addr q) m True # rest) (heap_last cfg)"
    and "separated (r1 @ Blk (blk_addr q) m True # rest)"
    and "xFreeBytesRemaining h2 = of_nat (free_bytes (r1 @ Blk (blk_addr q) m True # rest))"
  shows "heap_rep cfg (r1 @ Blk (blk_addr q) m True # rest) h2"
proof -
  let ?bs = "r1 @ q # b # ds @ rest" and ?e = "of_nat (heap_last cfg) :: u32"
  note tiles = rep_facts(2) [OF rep]
  obtain pre p ys where p: "start_blk cfg # r1 = pre @ p # ys" "blk_free p" "\<forall>y \<in> set ys. \<not> blk_free y"
    by (rule last_free_split [of "start_blk cfg # r1"]) auto
  have dist: "distinct (start_blk cfg # ?bs)" by (rule start_not_in(2) [OF assms(1) tiles])
  have same: "headers h2 (of_nat (blk_addr x)) = headers h (of_nat (blk_addr x))" if "x \<in> set (start_blk cfg # r1 @ rest)" for x
    using that all_distinct [OF assms(1) tiles, of x q] all_distinct [OF assms(1) tiles, of x b] dist assms(4) by auto
  have hp: "headers h (of_nat (blk_addr p)) = Some \<lparr>pxNextFreeBlock = of_nat (blk_addr q), xBlockSize = of_nat (blk_size p)\<rparr>"
    using rep_stored [OF rep p(1)] p(2,3) assms(3) by (simp add: stored_append first_free_append blk_header_def)
  have mem: "p \<in> set (start_blk cfg # r1)" "set pre \<union> set ys \<subseteq> set (start_blk cfg # r1)"
    unfolding p(1) by auto
  have "heap_rep cfg (r1 @ [Blk (blk_addr q) m True] @ rest) h2"
  proof (rule rep_replace [of cfg r1 "q # b # ds" rest h, OF assms(1) _ p])
    show "headers h2 (of_nat (blk_addr x)) = headers h (of_nat (blk_addr x))" if "x \<in> set (pre @ ys @ rest)" for x
      using that mem(2) by (intro same) auto
    show "headers h2 (of_nat (blk_addr p)) = Some \<lparr>pxNextFreeBlock = first_free ?e ([Blk (blk_addr q) m True] @ rest),
        xBlockSize = of_nat (blk_size p)\<rparr>"
      using hp same [of p] mem(1) by auto
    show "headers h2 ?e = headers h ?e"
      using assms(4) rep_blocks(5) [OF assms(1) tiles, of q] rep_blocks(5) [OF assms(1) tiles, of b] by auto
  qed (use assms in \<open>simp_all add: blk_header_def\<close>)
  then show ?thesis by simp
qed

lemma joined_right_rep:
  assumes "wf_config cfg" and rep: "heap_rep cfg (r1 @ b # ds @ rest) h"
    and q: "start_blk cfg # r1 = pre @ q # ys" "blk_free q" "\<forall>y \<in> set ys. \<not> blk_free y"
    and "headers h2 = (headers h)(of_nat (blk_addr b) \<mapsto>
        \<lparr>pxNextFreeBlock = first_free (of_nat (heap_last cfg)) rest, xBlockSize = of_nat m\<rparr>,
      of_nat (blk_addr q) \<mapsto> \<lparr>pxNextFreeBlock = of_nat (blk_addr b), xBlockSize = of_nat (blk_size q)\<rparr>)"
    and "pxEnd h2 = pxEnd h" and "tiles (heap_first cfg) (r1 @ Blk (blk_addr b) m True # rest) (heap_last cfg)"
    and "separated (r1 @ Blk (blk_addr b) m True # rest)"
    and "xFreeBytesRemaining h2 = of_nat (free_bytes (r1 @ Blk (blk_addr b) m True # rest))"
  shows "heap_rep cfg (r1 @ Blk (blk_addr b) m True # rest) h2"
proof -
  let ?bs = "r1 @ b # ds @ rest" and ?e = "of_nat (heap_last cfg) :: u32"
  note tiles = rep_facts(2) [OF rep]
  have dist: "distinct (start_blk cfg # ?bs)" by (rule start_not_in(2) [OF assms(1) tiles])
  have mem: "q \<in> set (start_blk cfg # r1)" "set pre \<union> set ys \<subseteq> set (start_blk cfg # r1)"
    unfolding q(1) by auto
  have "distinct ((pre @ q # ys) @ b # ds @ rest)"
    using dist q(1) by (metis append_Cons)
  then have out: "q \<notin> set pre" "q \<notin> set ys" "q \<notin> set rest" "q \<noteq> b"
    by auto
  have "heap_rep cfg (r1 @ [Blk (blk_addr b) m True] @ rest) h2"
  proof (rule rep_replace [of cfg r1 "b # ds" rest h, OF assms(1) _ q])
    show "headers h2 (of_nat (blk_addr x)) = headers h (of_nat (blk_addr x))" if "x \<in> set (pre @ ys @ rest)" for x
    proof -
      have "x \<in> set (start_blk cfg # r1 @ rest)" "x \<noteq> q" using that mem(2) out by auto
      then show ?thesis
        using all_distinct [OF assms(1) tiles, of x q] all_distinct [OF assms(1) tiles, of x b] dist mem(1) assms(6) by auto
    qed
    show "headers h2 ?e = headers h ?e"
      using assms(6) mem(1) rep_blocks(5) [OF assms(1) tiles, of q] rep_blocks(5) [OF assms(1) tiles, of b]
        rep_end(2) [OF assms(1)] by auto
    show "stored (headers h2) (first_free ?e rest) [Blk (blk_addr b) m True]"
      using all_distinct [OF assms(1) tiles, of b q] mem(1) out(4) assms(6) by (auto simp: blk_header_def)
  qed (use assms in simp_all)
  then show ?thesis by simp
qed

lemma insert_rep:
  assumes "wf_config cfg" and rep: "heap_rep cfg (r1 @ b # r2) h" and "\<not> blk_free b"
    and h1: "headers h1 = (headers h)(of_nat (blk_addr b) \<mapsto> \<lparr>pxNextFreeBlock = 0, xBlockSize = of_nat (blk_size b)\<rparr>)"
      "pxEnd h1 = pxEnd h" "xFreeBytesRemaining h1 = xFreeBytesRemaining h + of_nat (blk_size b)"
  shows "\<exists>h'. prvInsertBlockIntoFreeList cfg (of_nat (blk_addr b)) h1 = returns h'
    \<and> heap_rep cfg (release (blk_addr b) (r1 @ b # r2)) h'"
proof -
  let ?bs = "r1 @ b # r2" and ?e = "of_nat (heap_last cfg) :: u32" and ?b = "of_nat (blk_addr b) :: u32"
  note rf = rep_facts [OF rep] and tiles = rep_facts(2) [OF rep]
  note blocks = rep_blocks [OF assms(1) tiles]
  define n where "n = first_free ?e r2"
  have distinct: "distinct (map blk_addr ?bs)" by (rule tiles_distinct [OF tiles])
  have neq: "of_nat (blk_addr x) = (of_nat (blk_addr y) :: u32) \<longleftrightarrow> x = y"
    if "x \<in> set (start_blk cfg # ?bs)" "y \<in> set (start_blk cfg # ?bs)" for x y
    using all_distinct [OF assms(1) tiles that] .
  have dist: "distinct (start_blk cfg # ?bs)" by (rule start_not_in(2) [OF assms(1) tiles])
  have h1_same: "headers h1 (of_nat (blk_addr x)) = headers h (of_nat (blk_addr x))"
    if "x \<in> set (start_blk cfg # r1 @ r2)" for x
    using that neq [of x b] dist h1(1) by auto
  have "stored (headers h) n (start_blk cfg # r1)" and post: "stored (headers h) ?e r2"
    using rf(6) assms(3) stored_append [of "headers h" ?e "start_blk cfg # r1" "b # r2"] by (simp_all add: n_def)
  then have front: "stored (headers h1) n (start_blk cfg # r1)"
    using stored_cong [of "start_blk cfg # r1" "headers h1" "headers h" n] h1_same by auto
  have below: "\<forall>y \<in> set r1. blk_free y \<longrightarrow> of_nat (blk_addr y) < ?b"
  proof (intro ballI impI)
    fix y assume "y \<in> set r1"
    then show "of_nat (blk_addr y) < ?b"
      using tiles_before [OF tiles, of y] blocks(1) [of y] blocks(1) [of b] blocks(10) [of y] by (simp add: word_less_nat_alt)
  qed
  have above: "\<not> n < ?b"
  proof (cases "\<exists>y \<in> set r2. blk_free y")
    case True
    then obtain y where "y \<in> set r2" "n = of_nat (blk_addr y)"
      using first_free_in [of r2 ?e] by (auto simp: n_def)
    then show ?thesis
      using tiles_after [OF tiles, of y] blocks(1) [of y] blocks(1) [of b] by (simp add: word_less_nat_alt)
  next
    case False
    then show ?thesis
      using blocks(1,8) [of b] word_addr [OF assms(1) order_refl] by (simp add: n_def word_less_nat_alt)
  qed
  obtain pre q ys where q: "start_blk cfg # r1 = pre @ q # ys" "blk_free q" "\<forall>y \<in> set ys. \<not> blk_free y"
      "find_position h1 ?b (xStart_address cfg) = returns (of_nat (blk_addr q))"
    using find_position_runs [of h1 n "[]" "start_blk cfg" "[]" r1 ?b] front below above by auto
  obtain ds rest where ds: "r2 = ds @ rest"
      "\<And>c. blk_free c \<Longrightarrow> join_next c r2 = Blk (blk_addr c) (blk_size c + sum_list (map blk_size ds)) True # rest"
      "if ?b + of_nat (blk_size b) = n \<and> n \<noteq> ?e then \<exists>d. ds = [d] \<and> blk_free d else ds = []"
    using right_neighbour [OF assms(1) tiles] unfolding n_def by metis
  have q_in: "q \<in> set (start_blk cfg # r1)" using q(1) by simp
  then have qb: "of_nat (blk_addr q) \<noteq> ?b" using neq [of q b] dist by auto
  have hq: "headers h1 (of_nat (blk_addr q)) = Some \<lparr>pxNextFreeBlock = n, xBlockSize = of_nat (blk_size q)\<rparr>"
    using front q(2,3) unfolding q(1) by (simp add: stored_append blk_header_def)
  have valid: "of_nat (blk_addr q) \<noteq> xStart_address cfg \<Longrightarrow> validate_block_pointer cfg (of_nat (blk_addr q)) = Some ()"
    using q_in blocks(6) [of q] by auto
  obtain nd sd where nd: "?b + of_nat (blk_size b) = n \<Longrightarrow> n \<noteq> pxEnd h1 \<Longrightarrow>
      headers h1 n = Some \<lparr>pxNextFreeBlock = nd, xBlockSize = sd\<rparr> \<and> n \<noteq> of_nat (blk_addr q) \<and> n \<noteq> ?b"
    and step: "(first_free ?e rest, of_nat (sum_list (map blk_size ds))) =
      (if ?b + of_nat (blk_size b) = n \<and> n \<noteq> pxEnd h1 then (nd, sd) else (n, 0))"
  proof (cases "?b + of_nat (blk_size b) = n \<and> n \<noteq> ?e")
    case True
    then obtain d where d: "ds = [d]" "blk_free d" using ds(3) by auto
    then have "d \<in> set r2" "n = of_nat (blk_addr d)" using ds(1) by (simp_all add: n_def)
    moreover have "headers h1 (of_nat (blk_addr d)) = Some \<lparr>pxNextFreeBlock = first_free ?e rest, xBlockSize = of_nat (blk_size d)\<rparr>"
      using post d h1_same [of d] ds(1) by (simp add: blk_header_def)
    moreover have "of_nat (blk_addr d) \<noteq> (of_nat (blk_addr q) :: u32)" "of_nat (blk_addr d) \<noteq> ?b"
      using neq [of d q] neq [of d b] dist q_in \<open>d \<in> set r2\<close> by auto
    ultimately show ?thesis
      using that [of "first_free ?e rest" "of_nat (blk_size d)"] True d h1(2) rf(1) by simp
  next
    case False
    have "ds = []" using ds(3) unfolding if_not_P [OF False] .
    moreover from this have "first_free ?e rest = n" using ds(1) by (simp add: n_def)
    ultimately show ?thesis using False h1(2) rf(1) by (intro that [of 0 0]) (simp_all, blast)
  qed
  have hb: "headers h1 ?b = Some \<lparr>pxNextFreeBlock = 0, xBlockSize = of_nat (blk_size b)\<rparr>" using h1(1) by simp
  note run = insert_at_headers [OF hq hb qb valid nd step]
  have bytes: "xFreeBytesRemaining h1 = of_nat (free_bytes (release (blk_addr b) ?bs))"
    using h1(3) rf(4) free_bytes_release [OF distinct assms(3)] by simp
  define h2 where "h2 = the (insert_at cfg (of_nat (blk_addr q)) ?b h1)"
  have "prvInsertBlockIntoFreeList cfg ?b h1 = returns h2"
    using q(4) run by (simp add: prvInsertBlockIntoFreeList_def h2_def)
  moreover have "heap_rep cfg (release (blk_addr b) ?bs) h2"
  proof (cases "r1 \<noteq> [] \<and> blk_free (last r1)")
    case True
    define r where "r = butlast r1"
    have r: "r1 = r @ [q]" and q_last: "q = last r1"
      using left_neighbour(2) [OF assms(1) tiles q(1,3,2)] True by (simp_all add: r_def)
    have new: "release (blk_addr b) ?bs = r @ Blk (blk_addr q) (blk_size q + blk_size b + sum_list (map blk_size ds)) True # rest"
      using release_split [OF rf(3) distinct] True ds(2) [of "Blk (blk_addr q) (blk_size q + blk_size b) True"] q_last
      by (simp add: r_def)
    show ?thesis
      unfolding new
    proof (rule joined_left_rep [OF assms(1) _ q(2)])
      show "heap_rep cfg (r @ q # b # ds @ rest) h" using rep r ds(1) by simp
      show "headers h2 = (headers h)(?b \<mapsto> \<lparr>pxNextFreeBlock = 0, xBlockSize = of_nat (blk_size b)\<rparr>,
          of_nat (blk_addr q) \<mapsto> \<lparr>pxNextFreeBlock = first_free ?e rest,
            xBlockSize = of_nat (blk_size q + blk_size b + sum_list (map blk_size ds))\<rparr>)"
        using run left_neighbour(1) [OF assms(1) tiles q(1,3,2)] True h1(1) by (simp add: h2_def)
      show "pxEnd h2 = pxEnd h" using run h1(2) by (simp add: h2_def)
      show "xFreeBytesRemaining h2 =
          of_nat (free_bytes (r @ Blk (blk_addr q) (blk_size q + blk_size b + sum_list (map blk_size ds)) True # rest))"
        using bytes run unfolding new by (simp add: h2_def)
    qed (use release_invariants [OF tiles, of "blk_addr b"] in \<open>simp_all only: new\<close>)
  next
    case False
    have new: "release (blk_addr b) ?bs = r1 @ Blk (blk_addr b) (blk_size b + sum_list (map blk_size ds)) True # rest"
      using release_split [OF rf(3) distinct] False ds(2) [of "Blk (blk_addr b) (blk_size b) True"] by auto
    show ?thesis
      unfolding new
    proof (rule joined_right_rep [OF assms(1) _ q(1-3)])
      show "heap_rep cfg (r1 @ b # ds @ rest) h" using rep ds(1) by simp
      show "headers h2 = (headers h)(?b \<mapsto> \<lparr>pxNextFreeBlock = first_free ?e rest,
            xBlockSize = of_nat (blk_size b + sum_list (map blk_size ds))\<rparr>,
          of_nat (blk_addr q) \<mapsto> \<lparr>pxNextFreeBlock = ?b, xBlockSize = of_nat (blk_size q)\<rparr>)"
        using run left_neighbour(1) [OF assms(1) tiles q(1,3,2)] False h1(1) by (auto simp: h2_def)
      show "pxEnd h2 = pxEnd h" using run h1(2) by (simp add: h2_def)
      show "xFreeBytesRemaining h2 = of_nat (free_bytes (r1 @ Blk (blk_addr b) (blk_size b + sum_list (map blk_size ds)) True # rest))"
        using bytes run unfolding new by (simp add: h2_def)
    qed (use release_invariants [OF tiles, of "blk_addr b"] in \<open>simp_all only: new\<close>)
  qed
  ultimately show ?thesis by blast
qed


lemma free_rep:
  assumes "wf_config cfg" and rep: "heap_rep cfg (r1 @ b # r2) h" and "\<not> blk_free b"
  shows "\<exists>h'. vPortFree cfg (of_nat (blk_addr b + 8)) h = returns h'
    \<and> heap_rep cfg (release (blk_addr b) (r1 @ b # r2)) h'"
proof -
  let ?b = "of_nat (blk_addr b) :: u32"
  note tiles = rep_facts(2) [OF rep]
  note b = rep_blocks [OF assms(1) tiles, of b, simplified]
  have pv: "of_nat (blk_addr b + 8) \<noteq> (0 :: u32)"
    using b(7,8,10) by (intro word_addr_nz [OF assms(1)]) auto
  have link: "of_nat (blk_addr b + 8) - xHeapStructSize = ?b"
    by (simp add: xHeapStructSize_def)
  have hb: "headers h ?b = Some \<lparr>pxNextFreeBlock = 0, xBlockSize = of_nat (blk_size b) OR heapBLOCK_ALLOCATED_BITMASK\<rparr>"
    using rep_facts(6) [OF rep] assms(3) by (simp add: stored_append blk_header_def)
  have "unat (of_nat (blk_size b) :: u32) < 2 ^ 31" using b(2,9) by simp
  note clear = clear_mark [OF this]
  define h1 where "h1 = h\<lparr>headers := (headers h)(?b \<mapsto> \<lparr>pxNextFreeBlock = 0, xBlockSize = of_nat (blk_size b)\<rparr>),
    xFreeBytesRemaining := xFreeBytesRemaining h + of_nat (blk_size b)\<rparr>"
  obtain h2 where h2: "prvInsertBlockIntoFreeList cfg ?b h1 = returns h2"
      "heap_rep cfg (release (blk_addr b) (r1 @ b # r2)) h2"
    using insert_rep [OF assms(1) rep assms(3), of h1] by (auto simp: h1_def)
  have "vPortFree cfg (of_nat (blk_addr b + 8)) h =
      returns (h2\<lparr>xNumberOfSuccessfulFrees := xNumberOfSuccessfulFrees h2 + 1\<rparr>)"
    using pv hb b(6) clear h2(1)
    by (simp only: vPortFree_def link Let_def if_False)
      (simp add: get_header_def put_header_def config_assert_def h1_def)
  moreover have "heap_rep cfg (release (blk_addr b) (r1 @ b # r2)) (h2\<lparr>xNumberOfSuccessfulFrees := k\<rparr>)" for k
    using h2(2) by (auto simp: heap_rep_def)
  ultimately show ?thesis by blast
qed

section \<open>The first allocation\<close>

definition initial_layout :: "heap_config \<Rightarrow> blk list" where
  "initial_layout cfg = [Blk (heap_first cfg) (heap_last cfg - heap_first cfg) True]"

lemma and_not_alignment: "unat (x AND NOT portBYTE_ALIGNMENT_MASK) = unat x div 8 * 8"
proof -
  have "portBYTE_ALIGNMENT_MASK = mask 3"
    by (simp add: portBYTE_ALIGNMENT_MASK_def mask_eq_exp_minus_1)
  then have "x AND NOT portBYTE_ALIGNMENT_MASK = push_bit 3 (drop_bit 3 x)"
    by (auto simp: bit_eq_iff bit_simps)
  then have "x AND NOT portBYTE_ALIGNMENT_MASK = x div 8 * 8"
    by (simp add: push_bit_eq_mult drop_bit_eq_div)
  moreover have "unat x div 8 * 8 < 4294967296"
    using unat_u32_bound [of x] div_times_less_eq_dividend [of "unat x" 8] by linarith
  ultimately show ?thesis
    by (simp add: unat_word_ariths unat_div)
qed


lemma heap_init_rep:
  assumes "wf_config cfg"
  shows "heap_rep cfg (initial_layout cfg) (prvHeapInit cfg h)"
proof -
  let ?u = "ucHeap cfg" and ?t = "configTOTAL_HEAP_SIZE cfg"
  note hb = heap_bounds [OF assms]
  have wf: "unat ?u + unat ?t < 2 ^ 32" "48 \<le> unat ?t" using assms by (simp_all add: wf_config_def)
  define a where "a = (if ?u AND portBYTE_ALIGNMENT_MASK \<noteq> 0 then (?u + 7) AND NOT portBYTE_ALIGNMENT_MASK else ?u)"
  define total where "total = (if ?u AND portBYTE_ALIGNMENT_MASK \<noteq> 0 then ?t - (a - ?u) else ?t)"
  define e where "e = (a + total - xHeapStructSize) AND NOT portBYTE_ALIGNMENT_MASK"
  have u7: "unat (?u + 7) = unat ?u + 7" using wf by (simp add: unat_add_no_wrap)
  have "unat a = heap_first cfg"
    using and_alignment [of ?u] u7 unfolding a_def heap_first_def
    by (auto simp: and_not_alignment word_unat_eq_iff)
  then have a: "a = of_nat (heap_first cfg)" by (simp flip: \<open>unat a = heap_first cfg\<close>)
  have "a + total = ?u + ?t" by (simp add: total_def a_def)
  then have "unat (a + total - xHeapStructSize) = unat ?u + unat ?t - 8"
    using wf unat_sub_word [of 8 "?u + ?t"] by (simp add: xHeapStructSize_def word_le_nat_alt unat_add_no_wrap)
  then have "unat e = heap_last cfg" by (simp add: e_def and_not_alignment heap_last_def)
  then have e: "e = of_nat (heap_last cfg)" by (simp flip: \<open>unat e = heap_last cfg\<close>)
  have init: "prvHeapInit cfg h = h\<lparr>headers := (headers h)(xStart_address cfg \<mapsto> \<lparr>pxNextFreeBlock = a, xBlockSize = 0\<rparr>,
      e \<mapsto> \<lparr>pxNextFreeBlock = 0, xBlockSize = 0\<rparr>, a \<mapsto> \<lparr>pxNextFreeBlock = e, xBlockSize = e - a\<rparr>),
      pxEnd := e, xMinimumEverFreeBytesRemaining := e - a, xFreeBytesRemaining := e - a\<rparr>"
    by (cases "?u AND portBYTE_ALIGNMENT_MASK = 0")
      (simp_all add: prvHeapInit_def Let_def new_header_def a_def total_def e_def)
  have diff: "e - a = of_nat (heap_last cfg - heap_first cfg)"
    using hb(4) unfolding a e by (simp add: of_nat_diff)
  have tiles: "tiles (heap_first cfg) (initial_layout cfg) (heap_last cfg)"
    using hb(4,7,8) by (simp add: initial_layout_def dvd_diff_nat)
  have "a \<noteq> xStart_address cfg" "e \<noteq> xStart_address cfg" "e \<noteq> a"
    using rep_blocks(4,5) [OF assms tiles] rep_end(2) [OF assms] unfolding a e by (auto simp: initial_layout_def)
  then show ?thesis
    using tiles unfolding heap_rep_def init diff [symmetric]
    by (simp add: initial_layout_def blk_header_def a [symmetric] e [symmetric] diff [symmetric])
qed

end
