(* ===== verification/Allocator.thy ===== *)
theory Allocator
  imports Prelude
begin

text \<open>
  The interface of a memory allocator: what every client of \<^verbatim>\<open>pvPortMalloc\<close> and \<^verbatim>\<open>vPortFree\<close> relies on,
  whatever the layout of the heap behind them. A history of calls is the relation \<open>served\<close>; the lemmas
  of the locale \<open>allocator\<close> say that the objects of a history never overlap, are aligned and can be given
  back.
\<close>

text \<open>An object is an address with a number of bytes.\<close>

definition apart :: "nat \<times> nat \<Rightarrow> nat \<times> nat \<Rightarrow> bool" where
  "apart x y \<longleftrightarrow> fst x + snd x \<le> fst y \<or> fst y + snd y \<le> fst x"

text \<open>A history of an allocator: the objects that are in use, as pointer and requested size.\<close>

inductive served ::
    "(u32 \<Rightarrow> 's \<Rightarrow> (u32 \<times> 's) run) \<Rightarrow> (u32 \<Rightarrow> 's \<Rightarrow> 's run) \<Rightarrow> 's \<Rightarrow> 's \<Rightarrow> (u32 \<times> u32) list \<Rightarrow> bool"
    for malloc free s0 where
  start: "served malloc free s0 s0 []"
| alloc: "served malloc free s0 s ps \<Longrightarrow> malloc n s = returns (p, s') \<Longrightarrow> p \<noteq> 0 \<Longrightarrow> served malloc free s0 s' ((p, n) # ps)"
| refuse: "served malloc free s0 s ps \<Longrightarrow> malloc n s = returns (0, s') \<Longrightarrow> served malloc free s0 s' ps"
| release: "served malloc free s0 s ps \<Longrightarrow> (p, n) \<in> set ps \<Longrightarrow> free p s = returns s' \<Longrightarrow> served malloc free s0 s' (remove1 (p, n) ps)"

text \<open>The objects lie in the blocks that are in use.\<close>

definition holds :: "(nat \<times> nat) set \<Rightarrow> (u32 \<times> u32) list \<Rightarrow> bool" where
  "holds us ps \<longleftrightarrow> distinct (map fst ps) \<and> (\<forall>x \<in> set ps. \<exists>k. unat (snd x) \<le> k \<and> (unat (fst x), k) \<in> us)"

lemma holdsD: "holds us ps \<Longrightarrow> (p, n) \<in> set ps \<Longrightarrow> \<exists>k. unat n \<le> k \<and> (unat p, k) \<in> us"
  by (fastforce simp: holds_def)

text \<open>What an allocator promises: both operations return; an allocation refuses or adds one object that is
  large enough and apart from the others; a release of an object removes that object and no other.\<close>

locale allocator =
  fixes rep :: "'l \<Rightarrow> 's \<Rightarrow> bool" and used :: "'l \<Rightarrow> (nat \<times> nat) set"
    and malloc :: "u32 \<Rightarrow> 's \<Rightarrow> (u32 \<times> 's) run" and free :: "u32 \<Rightarrow> 's \<Rightarrow> 's run"
  assumes malloc_law: "rep l s \<Longrightarrow> \<exists>p s' l'. malloc n s = returns (p, s') \<and> rep l' s' \<and>
      (if p = 0 then used l' = used l
       else \<exists>k. unat n \<le> k \<and> 0 < k \<and> used l' = insert (unat p, k) (used l) \<and> (\<forall>x \<in> used l. apart (unat p, k) x))"
    and free_law: "rep l s \<Longrightarrow> (unat p, k) \<in> used l \<Longrightarrow>
      \<exists>s' l'. free p s = returns s' \<and> rep l' s' \<and> used l' = used l - {(unat p, k)}"
    and used_law: "rep l s \<Longrightarrow> x \<in> used l \<Longrightarrow> y \<in> used l \<Longrightarrow> x \<noteq> y \<Longrightarrow> apart x y"
    and size_law: "rep l s \<Longrightarrow> (a, k) \<in> used l \<Longrightarrow> 0 < k \<and> 8 dvd a"
begin

lemma served_rep:
  assumes "served malloc free s0 s ps" and "rep l0 s0"
  shows "\<exists>l. rep l s \<and> holds (used l) ps"
  using assms
proof (induction rule: served.induct)
  case start
  then show ?case by (auto simp: holds_def)
next
  case (alloc s ps n p s')
  then obtain l l' k where l: "rep l s" "holds (used l) ps" "rep l' s'" "unat n \<le> k" "0 < k"
      "used l' = insert (unat p, k) (used l)" "\<forall>x \<in> used l. apart (unat p, k) x"
    using malloc_law [of _ s n] by (fastforce split: if_splits)
  have "p \<notin> fst ` set ps"
  proof
    assume "p \<in> fst ` set ps"
    then obtain m where "(unat p, m) \<in> used l" using holdsD [OF l(2)] by force
    then show False using l(5,7) size_law [OF l(1)] by (fastforce simp: apart_def)
  qed
  then have "holds (used l') ((p, n) # ps)"
    using l(2,4,6) by (fastforce simp: holds_def)
  then show ?case using l(3) by blast
next
  case (refuse s ps n s')
  then obtain l l' where l: "rep l s" "holds (used l) ps" "rep l' s'" "used l' = used l"
    using malloc_law [of _ s n] by (fastforce split: if_splits)
  then show ?case by metis
next
  case (release s ps p n s')
  then obtain l where l: "rep l s" "holds (used l) ps" by blast
  with release.hyps obtain k where k: "(unat p, k) \<in> used l" using holdsD by blast
  obtain l' where l': "rep l' s'" "used l' = used l - {(unat p, k)}"
    using free_law [OF l(1) k] release.hyps(3) by auto
  have dist: "distinct ps" "inj_on fst (set ps)"
    using l(2) by (simp_all add: holds_def distinct_map)
  then have ps: "distinct ps" "\<forall>m. (p, m) \<in> set ps \<longrightarrow> m = n"
    using release.hyps(2) inj_onD [OF dist(2)] by fastforce+
  then have "distinct (map fst (remove1 (p, n) ps))"
    using l(2) by (metis holds_def distinct_map distinct_remove1 inj_on_subset set_remove1_subset)
  moreover have "\<exists>j. unat m \<le> j \<and> (unat q, j) \<in> used l'" if "(q, m) \<in> set (remove1 (p, n) ps)" for q m
  proof -
    have qm: "(q, m) \<in> set ps" "unat q \<noteq> unat p" using that ps by (auto simp: word_unat_eq_iff [symmetric])
    show ?thesis using holdsD [OF l(2) qm(1)] qm(2) unfolding l'(2) by blast
  qed
  ultimately have "holds (used l') (remove1 (p, n) ps)" by (auto simp: holds_def)
  then show ?case using l'(1) by blast
qed

lemma served_apart:
  assumes "served malloc free s0 s ps" and "rep l0 s0" and "(p, n) \<in> set ps" and "(q, m) \<in> set ps" and "p \<noteq> q"
  shows "apart (unat p, unat n) (unat q, unat m)"
proof -
  obtain l where l: "rep l s" "holds (used l) ps" using served_rep [OF assms(1,2)] by blast
  obtain j k where "unat n \<le> j" "(unat p, j) \<in> used l" "unat m \<le> k" "(unat q, k) \<in> used l"
    using holdsD [OF l(2) assms(3)] holdsD [OF l(2) assms(4)] by blast
  moreover from this have "apart (unat p, j) (unat q, k)"
    using assms(5) word_unat_eq_iff [of p q] by (intro used_law [OF l(1)]) auto
  ultimately show ?thesis by (auto simp: apart_def)
qed

lemma served_aligned:
  assumes "served malloc free s0 s ps" and "rep l0 s0" and "(p, n) \<in> set ps"
  shows "8 dvd unat p"
proof -
  obtain l where l: "rep l s" "holds (used l) ps" using served_rep [OF assms(1,2)] by blast
  then show ?thesis using holdsD [OF l(2) assms(3)] size_law [OF l(1)] by blast
qed

lemma served_progress:
  assumes "served malloc free s0 s ps" and "rep l0 s0"
  shows "\<exists>p s'. malloc n s = returns (p, s')" and "(p, m) \<in> set ps \<Longrightarrow> \<exists>s'. free p s = returns s'"
proof -
  obtain l where l: "rep l s" "holds (used l) ps" using served_rep [OF assms] by blast
  show "\<exists>p s'. malloc n s = returns (p, s')" using malloc_law [OF l(1)] by blast
  show "\<exists>s'. free p s = returns s'" if "(p, m) \<in> set ps"
    using holdsD [OF l(2) that] free_law [OF l(1)] by blast
qed

end

end
