(* ===== verification/Heap_Allocator.thy ===== *)
theory Heap_Allocator
  imports Heap_Correct Allocator
begin

text \<open>
  The allocator as its clients see it: \<open>pvPortMalloc\<close> and \<open>vPortFree\<close> provide the locale \<open>allocator\<close> from the
  state before the first call on, in which the heap is not laid out yet.
\<close>

section \<open>The objects of a layout\<close>

definition used_objects :: "blk list \<Rightarrow> (nat \<times> nat) set" where
  "used_objects bs = (\<lambda>b. (blk_addr b + 8, blk_size b - 8)) ` {b \<in> set bs. \<not> blk_free b}"

lemma used_objects_simps [simp]:
  "used_objects [] = {}"
  "used_objects (b # bs) = (if blk_free b then {} else {(blk_addr b + 8, blk_size b - 8)}) \<union> used_objects bs"
  "used_objects (xs @ ys) = used_objects xs \<union> used_objects ys"
  by (auto simp: used_objects_def)

lemma used_objects_join [simp]: "used_objects (join bs) = used_objects bs"
proof (induction bs rule: join.induct)
  case (1 b c bs)
  then show ?case by (cases "blk_free b"; cases "blk_free c") simp_all
qed simp_all

lemma used_objects_apart:
  assumes "tiles a bs e" and "x \<in> used_objects bs" and "y \<in> used_objects bs" and "x \<noteq> y"
  shows "apart x y"
proof -
  obtain b c where bc: "b \<in> set bs" "c \<in> set bs" "x = (blk_addr b + 8, blk_size b - 8)" "y = (blk_addr c + 8, blk_size c - 8)"
    using assms(2,3) by (auto simp: used_objects_def)
  moreover from this have "b \<noteq> c" using assms(4) by auto
  ultimately show ?thesis
    using tiles_disjoint [OF assms(1) bc(1,2)] tiles_in [OF assms(1) bc(1)] tiles_in [OF assms(1) bc(2)]
    by (auto simp: apart_def)
qed

lemma release_objects:
  assumes "tiles a (r1 @ b # r2) e" and "\<not> blk_free b"
  shows "used_objects (release (blk_addr b) (r1 @ b # r2)) = used_objects (r1 @ b # r2) - {(blk_addr b + 8, blk_size b - 8)}"
proof -
  have d: "distinct (map blk_addr (r1 @ b # r2))" by (rule tiles_distinct [OF assms(1)])
  then have "(blk_addr b + 8, blk_size b - 8) \<notin> used_objects r1 \<union> used_objects r2"
    by (auto simp: used_objects_def image_iff)
  then show ?thesis
    using assms(2) unfolding release_def used_objects_join mark_free_split [OF d] by auto
qed

lemma first_fit_objects:
  "first_fit w bs = Some (a, bs') \<Longrightarrow> \<exists>k. w \<le> k \<and> used_objects bs' = insert (a + 8, k - 8) (used_objects bs)"
proof (induction bs arbitrary: bs')
  case (Cons b bs)
  show ?case
  proof (cases "fits w b")
    case True
    then show ?thesis
      using Cons.prems by (auto simp: fits_def carve_def intro: exI [of _ w] exI [of _ "blk_size b"])
  next
    case False
    then obtain cs where "first_fit w bs = Some (a, cs)" "bs' = b # cs"
      using Cons.prems by auto
    then show ?thesis using Cons.IH [of cs] by auto
  qed
qed simp

lemma first_fit_in:
  "first_fit w bs = Some (a, bs') \<Longrightarrow> \<exists>r1 b r2. bs = r1 @ b # r2 \<and> fits w b \<and> a = blk_addr b \<and> bs' = r1 @ carve w b @ r2"
proof (induction bs arbitrary: bs')
  case (Cons b bs)
  show ?case
  proof (cases "fits w b")
    case True
    then show ?thesis using Cons.prems by (intro exI [of _ "[]"]) auto
  next
    case False
    then obtain cs where cs: "first_fit w bs = Some (a, cs)" "bs' = b # cs"
      using Cons.prems by auto
    then obtain r1 c r2 where "bs = r1 @ c # r2" "fits w c" "a = blk_addr c" "cs = r1 @ carve w c @ r2"
      using Cons.IH by blast
    then show ?thesis using cs(2) by (intro exI [of _ "b # r1"]) auto
  qed
qed simp

lemma block_size_ge: "block_size n \<noteq> 0 \<Longrightarrow> unat n + 8 \<le> block_size n"
  by (auto simp: block_size_def Let_def split: if_splits)

lemma fits_not_used:
  assumes "tiles a (r1 @ b # r2) e" and "blk_free b"
  shows "(blk_addr b + 8, k) \<notin> used_objects (r1 @ b # r2)"
  using tiles_distinct [OF assms(1)] assms(2) by (auto simp: used_objects_def image_iff)

section \<open>The heap before and after its first use\<close>

definition heap_state :: "heap_config \<Rightarrow> blk list \<Rightarrow> heap_4 \<Rightarrow> bool" where
  "heap_state cfg bs h \<longleftrightarrow> wf_config cfg \<and>
     (if pxEnd h = 0 then bs = initial_layout cfg else heap_rep cfg bs h)"

lemma heap_state_rep:
  assumes "heap_state cfg bs h"
  shows "heap_rep cfg bs (if pxEnd h = 0 then prvHeapInit cfg h else h)"
  using assms heap_init_rep [of cfg h] by (auto simp: heap_state_def)

lemma heap_rep_state: "wf_config cfg \<Longrightarrow> heap_rep cfg bs h \<Longrightarrow> heap_state cfg bs h"
  using rep_facts(1) [of cfg bs h] rep_end(1) [of cfg] by (simp add: heap_state_def)

lemma malloc_initialises:
  assumes "wf_config cfg" and "pxEnd h = 0"
  shows "pvPortMalloc cfg n h = pvPortMalloc cfg n (prvHeapInit cfg h)"
proof -
  have "pxEnd (prvHeapInit cfg h) \<noteq> 0"
    using rep_facts(1) [OF heap_init_rep [OF assms(1)]] rep_end(1) [OF assms(1)] by simp
  then show ?thesis using assms(2) by (simp add: pvPortMalloc_def)
qed

lemma malloc_state:
  assumes "heap_state cfg bs h"
  shows "case allocate n bs of
      None \<Rightarrow> \<exists>h'. pvPortMalloc cfg n h = returns (0, h') \<and> heap_state cfg bs h'
    | Some (a, bs') \<Rightarrow> \<exists>h'. pvPortMalloc cfg n h = returns (of_nat (a + 8), h') \<and> heap_state cfg bs' h'"
proof -
  define h1 where "h1 = (if pxEnd h = 0 then prvHeapInit cfg h else h)"
  have wf: "wf_config cfg" using assms by (simp add: heap_state_def)
  have rep: "heap_rep cfg bs h1" unfolding h1_def by (rule heap_state_rep [OF assms])
  have "pvPortMalloc cfg n h = pvPortMalloc cfg n h1"
    using malloc_initialises [OF wf] by (simp add: h1_def)
  then show ?thesis
    using malloc_rep [OF wf rep, of n] rep heap_rep_state [OF wf] by (auto split: option.splits)
qed

lemma heap_state_tiles:
  assumes "heap_state cfg bs h"
  shows "wf_config cfg" and "tiles (heap_first cfg) bs (heap_last cfg)" and "separated bs"
  using assms rep_facts(2,3) [OF heap_state_rep [OF assms]] by (simp_all add: heap_state_def)

lemma used_in:
  assumes "heap_state cfg bs h" and "(a, k) \<in> used_objects bs"
  obtains r1 b r2 where "bs = r1 @ b # r2" and "\<not> blk_free b" and "a = blk_addr b + 8" and "k = blk_size b - 8"
    and "heap_rep cfg bs h"
proof -
  obtain b where b: "b \<in> set bs" "\<not> blk_free b" "a = blk_addr b + 8" "k = blk_size b - 8"
    using assms(2) by (auto simp: used_objects_def)
  moreover obtain r1 r2 where "bs = r1 @ b # r2" using split_list [OF b(1)] by blast
  moreover have "heap_rep cfg bs h"
    using assms(1) b by (auto simp: heap_state_def initial_layout_def split: if_splits)
  ultimately show thesis using that by blast
qed

lemma free_state:
  assumes "heap_state cfg bs h" and "(unat p, k) \<in> used_objects bs"
  shows "\<exists>h'. vPortFree cfg p h = returns h' \<and> heap_rep cfg (release (unat p - 8) bs) h' \<and> heap_state cfg (release (unat p - 8) bs) h'
    \<and> used_objects (release (unat p - 8) bs) = used_objects bs - {(unat p, k)}"
proof -
  note tiles = heap_state_tiles [OF assms(1)]
  obtain r1 b r2 where b: "bs = r1 @ b # r2" "\<not> blk_free b" "unat p = blk_addr b + 8" "k = blk_size b - 8" "heap_rep cfg bs h"
    using used_in [OF assms] .
  have p: "p = of_nat (blk_addr b + 8)" by (simp flip: b(3))
  have "\<exists>h'. vPortFree cfg p h = returns h' \<and> heap_rep cfg (release (blk_addr b) bs) h'"
    using free_rep [OF tiles(1), of r1 b r2 h] b unfolding p by blast
  then show ?thesis
    using release_objects [of "heap_first cfg" r1 b r2] tiles(2) b heap_rep_state [OF tiles(1)] by auto
qed

lemma allocate_objects:
  assumes "heap_state cfg bs h" and "allocate n bs = Some (a, bs')"
  shows "unat (of_nat (a + 8) :: u32) = a + 8"
    and "\<exists>k. unat n \<le> k \<and> 0 < k \<and> used_objects bs' = insert (a + 8, k) (used_objects bs) \<and> (a + 8, k) \<notin> used_objects bs"
proof -
  note tiles = heap_state_tiles [OF assms(1)]
  have w: "block_size n \<noteq> 0" "first_fit (block_size n) bs = Some (a, bs')"
    using assms(2) by (auto simp: allocate_def split: if_splits)
  obtain r1 b r2 where b: "bs = r1 @ b # r2" "fits (block_size n) b" "a = blk_addr b" "bs' = r1 @ carve (block_size n) b @ r2"
    using first_fit_in [OF w(2)] by blast
  note blocks = rep_blocks [OF tiles(1,2), of b]
  show "unat (of_nat (a + 8) :: u32) = a + 8"
    using blocks(7,8,10) b by (intro word_addr [OF tiles(1)]) auto
  obtain k where k: "block_size n \<le> k" "used_objects bs' = insert (a + 8, k - 8) (used_objects bs)"
    using first_fit_objects [OF w(2)] by blast
  moreover have "(a + 8, k - 8) \<notin> used_objects bs"
    using fits_not_used [of "heap_first cfg" r1 b r2 "heap_last cfg"] tiles(2) b by (simp add: fits_def)
  ultimately show "\<exists>k. unat n \<le> k \<and> 0 < k \<and> used_objects bs' = insert (a + 8, k) (used_objects bs) \<and> (a + 8, k) \<notin> used_objects bs"
    using block_size_ge [OF w(1)] round_size_block(3) [OF w(1)] by (intro exI [of _ "k - 8"]) auto
qed

interpretation heap4: allocator "heap_state cfg" used_objects "pvPortMalloc cfg" "vPortFree cfg" for cfg
proof
  fix bs h n
  assume st: "heap_state cfg bs h"
  show "\<exists>p s' l'. pvPortMalloc cfg n h = returns (p, s') \<and> heap_state cfg l' s' \<and>
      (if p = 0 then used_objects l' = used_objects bs
       else \<exists>k. unat n \<le> k \<and> 0 < k \<and> used_objects l' = insert (unat p, k) (used_objects bs) \<and>
         (\<forall>x \<in> used_objects bs. apart (unat p, k) x))"
  proof (cases "allocate n bs")
    case None
    then show ?thesis using malloc_state [OF st, of n] by auto
  next
    case (Some r)
    then obtain a bs' where r: "allocate n bs = Some (a, bs')" by (cases r) auto
    obtain h' where h': "pvPortMalloc cfg n h = returns (of_nat (a + 8), h')" "heap_state cfg bs' h'"
      using malloc_state [OF st, of n] r by auto
    note a = allocate_objects [OF st r]
    obtain k where k: "unat n \<le> k" "0 < k" "used_objects bs' = insert (a + 8, k) (used_objects bs)"
        "(a + 8, k) \<notin> used_objects bs" using a(2) by blast
    have nz: "of_nat (a + 8) \<noteq> (0 :: u32)" using a(1) by (metis unat_0 add_is_0 zero_neq_numeral)
    have "apart (a + 8, k) x" if "x \<in> used_objects bs" for x
      using used_objects_apart [OF heap_state_tiles(2) [OF h'(2)], of "(a + 8, k)" x] that k(3,4) by auto
    then show ?thesis using h' nz a(1) k by (intro exI [of _ "of_nat (a + 8)"] exI [of _ h'] exI [of _ bs']) auto
  qed
next
  fix bs h k and p :: u32
  assume "heap_state cfg bs h" "(unat p, k) \<in> used_objects bs"
  then show "\<exists>s' l'. vPortFree cfg p h = returns s' \<and> heap_state cfg l' s' \<and> used_objects l' = used_objects bs - {(unat p, k)}"
    using free_state by blast
next
  fix bs h x y
  assume "heap_state cfg bs h" "x \<in> used_objects bs" "y \<in> used_objects bs" "x \<noteq> y"
  then show "apart x y" using used_objects_apart [OF heap_state_tiles(2)] by blast
next
  fix bs h a k
  assume st: "heap_state cfg bs h" and "(a, k) \<in> used_objects bs"
  then obtain b where "b \<in> set bs" "a = blk_addr b + 8" "k = blk_size b - 8" by (auto simp: used_objects_def)
  then show "0 < k \<and> 8 dvd a"
    using rep_blocks(10,12) [OF heap_state_tiles(1,2) [OF st], of b] by simp
qed

section \<open>Statistics\<close>

definition free_sizes :: "blk list \<Rightarrow> nat list" where
  "free_sizes bs = map blk_size (filter blk_free bs)"

lemma free_sizes_simps [simp]:
  "free_sizes [] = []"
  "free_sizes (b # bs) = (if blk_free b then blk_size b # free_sizes bs else free_sizes bs)"
  by (simp_all add: free_sizes_def)

lemma walk_free_runs:
  assumes "wf_config cfg" and "tiles (heap_first cfg) bs (heap_last cfg)" and "set rest \<subseteq> set bs"
    and "pxEnd h = of_nat (heap_last cfg)" and "stored (headers h) (pxEnd h) rest"
    and "big < 2 ^ 32" and "small < 2 ^ 32"
  shows "walk_free h (of_nat k) (of_nat big) (of_nat small) (first_free (pxEnd h) rest) =
    returns (of_nat (k + length (free_sizes rest)), of_nat (fold max (free_sizes rest) big), of_nat (fold min (free_sizes rest) small))"
  using assms(3,5-)
proof (induction rest arbitrary: k big small)
  case Nil
  then show ?case by (simp add: walk_free.simps)
next
  case (Cons b rest)
  show ?case
  proof (cases "blk_free b")
    case False
    then show ?thesis using Cons by simp
  next
    case True
    note b = rep_blocks [OF assms(1,2), of b]
    have size: "unat (of_nat (blk_size b) :: u32) = blk_size b" "blk_size b < 2 ^ 32"
        "of_nat (blk_addr b) \<noteq> pxEnd h"
      using b(2,5,9) Cons.prems(1) assms(4) by auto
    have u: "unat (of_nat big :: u32) = big" "unat (of_nat small :: u32) = small"
      using Cons.prems(3,4) by (simp_all add: unat_of_nat_u32)
    have hb: "headers h (of_nat (blk_addr b)) = Some \<lparr>pxNextFreeBlock = first_free (pxEnd h) rest, xBlockSize = of_nat (blk_size b)\<rparr>"
      using Cons.prems(2) True by (simp add: blk_header_def)
    have pick: "(if of_nat (blk_size b) > (of_nat big :: u32) then of_nat (blk_size b) else of_nat big) = (of_nat (max (blk_size b) big) :: u32)"
        "(if of_nat (blk_size b) < (of_nat small :: u32) then of_nat (blk_size b) else of_nat small) = (of_nat (min (blk_size b) small) :: u32)"
      using size(1) u by (auto simp: word_less_nat_alt max_def min_def)
    have "walk_free h (of_nat k) (of_nat big) (of_nat small) (of_nat (blk_addr b)) =
        walk_free h (of_nat (Suc k)) (of_nat (max (blk_size b) big)) (of_nat (min (blk_size b) small)) (first_free (pxEnd h) rest)"
      using hb size(3) unfolding pick [symmetric] by (subst walk_free.simps) (simp add: get_header_def add.commute)
    then show ?thesis
      using True Cons.IH [of "max (blk_size b) big" "min (blk_size b) small" "Suc k"] Cons.prems size(2) by simp
  qed
qed

text \<open>The statistics are those of the layout: the walk through the free list ends and counts the free blocks, their
  largest and their smallest size, and the counter of free bytes is the sum of their sizes.\<close>

lemma stats_state:
  assumes "heap_rep cfg bs h" and "wf_config cfg"
  shows "vPortGetHeapStats cfg h = returns
    \<lparr>xAvailableHeapSpaceInBytes = of_nat (sum_list (free_sizes bs)),
     xSizeOfLargestFreeBlockInBytes = of_nat (fold max (free_sizes bs) 0),
     xSizeOfSmallestFreeBlockInBytes = of_nat (fold min (free_sizes bs) (2 ^ 32 - 1)),
     xNumberOfFreeBlocks = of_nat (length (free_sizes bs)),
     stats_xMinimumEverFreeBytesRemaining = xMinimumEverFreeBytesRemaining h,
     stats_xNumberOfSuccessfulAllocations = xNumberOfSuccessfulAllocations h,
     stats_xNumberOfSuccessfulFrees = xNumberOfSuccessfulFrees h\<rparr>"
proof -
  note rf = rep_facts [OF assms(1)]
  have st: "stored (headers h) (pxEnd h) bs"
      "headers h (xStart_address cfg) = Some \<lparr>pxNextFreeBlock = first_free (pxEnd h) bs, xBlockSize = 0\<rparr>"
    using rf(6) rf(1) by (simp_all add: blk_header_def)
  have "first_free (pxEnd h) bs \<noteq> 0"
    using first_free_valid(1) [OF assms(2) rf(2), of bs] rf(1) by simp
  then show ?thesis
    using st rf(4) walk_free_runs [OF assms(2) rf(2) order_refl rf(1) st(1), of 0 "2 ^ 32 - 1" 0]
    by (simp add: vPortGetHeapStats_def get_header_def portMAX_DELAY_def free_sizes_def free_bytes_def)
qed

section \<open>Round trip\<close>

lemma release_carve:
  assumes "tiles s (r1 @ b # r2) e" and "separated (r1 @ b # r2)" and "fits w b" and "16 \<le> w" and "8 dvd w"
  shows "release (blk_addr b) (r1 @ carve w b @ r2) = r1 @ b # r2"
proof -
  have b: "b = Blk (blk_addr b) (blk_size b) True" "w \<le> blk_size b"
    using assms(3) by (cases b; simp add: fits_def)+
  have nb: "r1 = [] \<or> \<not> blk_free (last r1)" "r2 = [] \<or> \<not> blk_free (hd r2)"
    using assms(2,3) by (auto simp: separated_append separated_Cons fits_def)
  obtain c post where c: "carve w b @ r2 = c # post" "blk_addr c = blk_addr b"
      "join_next (Blk (blk_addr b) (blk_size c) True) post = b # r2"
  proof (cases "blk_size b - w > 16")
    case True
    have "join_next (Blk (blk_addr b) w True) (Blk (blk_addr b + w) (blk_size b - w) True # r2) = b # r2"
      using b by (simp add: join_next_def)
    then show ?thesis using True that [of "Blk (blk_addr b) w False"] by (simp add: carve_def)
  next
    case False
    have "join_next b r2 = b # r2" using nb(2) by (cases r2) (auto simp: join_next_def)
    then show ?thesis using False b(1) that [of "Blk (blk_addr b) (blk_size b) False" r2] by (simp add: carve_def)
  qed
  have "tiles s (r1 @ c # post) e" "separated (r1 @ c # post)"
    using tiles_carve [OF assms(1,3,4,5)] separated_carve [OF assms(2), of w] assms(3) unfolding c(1) by (auto simp: fits_def)
  then show ?thesis
    using release_split [OF _ tiles_distinct, of r1 c post s e] nb(1) c by auto
qed

lemma allocate_release:
  assumes "heap_state cfg bs h" and "allocate n bs = Some (a, bs')"
  shows "release a bs' = bs"
proof -
  have w: "block_size n \<noteq> 0" "first_fit (block_size n) bs = Some (a, bs')"
    using assms(2) by (auto simp: allocate_def split: if_splits)
  obtain r1 b r2 where "bs = r1 @ b # r2" "fits (block_size n) b" "a = blk_addr b" "bs' = r1 @ carve (block_size n) b @ r2"
    using first_fit_in [OF w(2)] by blast
  then show ?thesis
    using release_carve [of "heap_first cfg" r1 b r2] heap_state_tiles(2,3) [OF assms(1)] round_size_block(3) [OF w(1)] by simp
qed

section \<open>What the allocator guarantees\<close>

text \<open>C22. Allocation refines first fit on the layout of the heap: on a heap that was never used or that
  represents a layout, \<open>pvPortMalloc\<close> always returns and fails no assertion. If no free block is large enough for
  the request with its header, rounded up to the alignment, it returns a null pointer and leaves the layout; otherwise it
  returns the address behind the header of the first such block, and the new heap represents the layout in
  which this block is in use and its rest, when more than 16 bytes, is a free block.\<close>

theorem malloc_refines_first_fit:
  assumes "heap_state cfg bs h"
  shows "case allocate n bs of
      None \<Rightarrow> \<exists>h'. pvPortMalloc cfg n h = returns (0, h') \<and> heap_state cfg bs h'
    | Some (a, bs') \<Rightarrow> \<exists>h'. pvPortMalloc cfg n h = returns (of_nat (a + 8), h') \<and> heap_state cfg bs' h'"
  by (rule malloc_state [OF assms])

text \<open>A small heap whose array is not aligned, before its first use.\<close>

definition sample_config :: heap_config where
  "sample_config = \<lparr>ucHeap = 0x20400004, configTOTAL_HEAP_SIZE = 256, xStart_address = 0x20500000\<rparr>"

definition unused_heap :: heap_4 where
  "unused_heap = \<lparr>headers = (\<lambda>_. None), pxEnd = 0, xFreeBytesRemaining = 0, xMinimumEverFreeBytesRemaining = 0,
     xNumberOfSuccessfulAllocations = 0, xNumberOfSuccessfulFrees = 0\<rparr>"

lemma sample_wf: "wf_config sample_config"
  by (simp add: wf_config_def sample_config_def)

lemma sample_layout: "initial_layout sample_config = [Blk 0x20400008 240 True]"
  by (simp add: initial_layout_def sample_config_def heap_first_def heap_last_def)

lemma sample_state: "heap_state sample_config [Blk 0x20400008 240 True] unused_heap"
  using sample_wf sample_layout by (simp add: heap_state_def unused_heap_def)

lemma sample_allocate:
  "allocate 10 [Blk 0x20400008 240 True] = Some (0x20400008, [Blk 0x20400008 24 False, Blk 0x20400020 216 True])"
  by (simp add: allocate_def block_size_def fits_def carve_def)

theorem malloc_refines_first_fit_witness:
  "\<exists>h. pvPortMalloc sample_config 10 unused_heap = returns (0x20400010, h)
     \<and> heap_state sample_config [Blk 0x20400008 24 False, Blk 0x20400020 216 True] h"
  using malloc_refines_first_fit [OF sample_state, of 10] by (simp add: sample_allocate)

text \<open>C23. Release refines marking and joining on the layout: for the address of an object in use, \<open>vPortFree\<close>
  returns without a failed assertion, and the new heap represents the layout in which its block is free and
  joined with its free neighbours. Exactly that object is no longer in use.\<close>

theorem free_refines_release:
  assumes "heap_state cfg bs h" and "(unat p, k) \<in> used_objects bs"
  shows "\<exists>h'. vPortFree cfg p h = returns h' \<and> heap_state cfg (release (unat p - 8) bs) h'
    \<and> used_objects (release (unat p - 8) bs) = used_objects bs - {(unat p, k)}"
  using free_state [OF assms] by blast

theorem free_refines_release_witness:
  "\<exists>h h'. pvPortMalloc sample_config 10 unused_heap = returns (0x20400010, h)
     \<and> vPortFree sample_config 0x20400010 h = returns h' \<and> heap_state sample_config [Blk 0x20400008 240 True] h'"
proof -
  obtain h where h: "pvPortMalloc sample_config 10 unused_heap = returns (0x20400010, h)"
      "heap_state sample_config [Blk 0x20400008 24 False, Blk 0x20400020 216 True] h"
    using malloc_state [OF sample_state, of 10] by (auto simp: sample_allocate)
  then show ?thesis
    using free_refines_release [OF h(2), of "0x20400010" 16] by (auto simp: release_def mark_free_def)
qed

text \<open>Giving an object back right after its allocation restores the layout of the heap and the number of free
  bytes, whether the block was split or not.\<close>

lemma malloc_free_roundtrip:
  assumes "heap_state cfg bs h" and "allocate n bs = Some (a, bs')"
  shows "\<exists>h1 h2. pvPortMalloc cfg n h = returns (of_nat (a + 8), h1) \<and> vPortFree cfg (of_nat (a + 8)) h1 = returns h2
    \<and> heap_state cfg bs h2 \<and> xPortGetFreeHeapSize h2 = of_nat (free_bytes bs)"
proof -
  obtain h1 where h1: "pvPortMalloc cfg n h = returns (of_nat (a + 8), h1)" "heap_state cfg bs' h1"
    using malloc_state [OF assms(1), of n] assms(2) by auto
  note a = allocate_objects [OF assms]
  obtain k where "(a + 8, k) \<in> used_objects bs'" using a(2) by blast
  then obtain h2 where h2: "vPortFree cfg (of_nat (a + 8)) h1 = returns h2" "heap_state cfg bs h2"
      "heap_rep cfg bs h2"
    using free_state [OF h1(2), of "of_nat (a + 8)" k] a(1) allocate_release [OF assms] by auto
  then show ?thesis
    using h1(1) rep_facts(4) by (auto simp: xPortGetFreeHeapSize_def)
qed

lemma unused_state: "wf_config cfg \<Longrightarrow> pxEnd h = 0 \<Longrightarrow> heap_state cfg (initial_layout cfg) h"
  by (simp add: heap_state_def)

lemma object_inside:
  assumes "heap_state cfg bs h" and "(a, k) \<in> used_objects bs"
  shows "unat (ucHeap cfg) + 8 \<le> a" and "a + k + 8 \<le> unat (ucHeap cfg) + unat (configTOTAL_HEAP_SIZE cfg)"
proof -
  obtain b where b: "b \<in> set bs" "a = blk_addr b + 8" "k = blk_size b - 8"
    using assms(2) by (auto simp: used_objects_def)
  note t = heap_state_tiles [OF assms(1)]
  show "unat (ucHeap cfg) + 8 \<le> a" "a + k + 8 \<le> unat (ucHeap cfg) + unat (configTOTAL_HEAP_SIZE cfg)"
    using rep_blocks(7,8,10) [OF t(1,2) b(1)] heap_bounds(2,3) [OF t(1)] b(2,3) by linarith+
qed

text \<open>C24. Memory safety of the heap: after any sequence of allocations and of releases of objects in use, from the
  first call on, the objects in use have different addresses, each is aligned to 8 bytes and lies with all its
  requested bytes inside the heap array, behind the first header and before the end marker, and no two objects
  overlap.\<close>

theorem heap_objects_sound:
  assumes "wf_config cfg" and "pxEnd h0 = 0" and "served (pvPortMalloc cfg) (vPortFree cfg) h0 h ps"
  shows "distinct (map fst ps)
    \<and> (\<forall>x \<in> set ps. 8 dvd unat (fst x) \<and> unat (ucHeap cfg) + 8 \<le> unat (fst x)
        \<and> unat (fst x) + unat (snd x) + 8 \<le> unat (ucHeap cfg) + unat (configTOTAL_HEAP_SIZE cfg))
    \<and> (\<forall>x \<in> set ps. \<forall>y \<in> set ps. x \<noteq> y \<longrightarrow> apart (map_prod unat unat x) (map_prod unat unat y))"
proof (intro conjI ballI impI)
  note st = unused_state [OF assms(1,2)]
  obtain bs where bs: "heap_state cfg bs h" "holds (used_objects bs) ps"
    using heap4.served_rep [OF assms(3) st] by blast
  show d: "distinct (map fst ps)" using bs(2) by (simp add: holds_def)
  fix x assume x: "x \<in> set ps"
  obtain k where k: "unat (snd x) \<le> k" "(unat (fst x), k) \<in> used_objects bs"
    using bs(2) x by (auto simp: holds_def)
  show "8 dvd unat (fst x)"
    using heap4.served_aligned [OF assms(3) st, of "fst x" "snd x"] x by simp
  show "unat (ucHeap cfg) + 8 \<le> unat (fst x)"
      "unat (fst x) + unat (snd x) + 8 \<le> unat (ucHeap cfg) + unat (configTOTAL_HEAP_SIZE cfg)"
    using object_inside [OF bs(1) k(2)] k(1) by linarith+
  fix y assume y: "y \<in> set ps" "x \<noteq> y"
  then have "fst x \<noteq> fst y" using d x by (auto simp: distinct_map dest: inj_onD)
  then show "apart (map_prod unat unat x) (map_prod unat unat y)"
    using heap4.served_apart [OF assms(3) st, of "fst x" "snd x" "fst y" "snd y"] x y by (simp add: map_prod_def split_beta)
qed

lemma sample_served:
  "\<exists>h. served (pvPortMalloc sample_config) (vPortFree sample_config) unused_heap h [(0x20400028, 20), (0x20400010, 10)]"
proof -
  obtain h1 where h1: "pvPortMalloc sample_config 10 unused_heap = returns (0x20400010, h1)"
      "heap_state sample_config [Blk 0x20400008 24 False, Blk 0x20400020 216 True] h1"
    using malloc_state [OF sample_state, of 10] by (auto simp: sample_allocate)
  have "allocate 20 [Blk 0x20400008 24 False, Blk 0x20400020 216 True] =
      Some (0x20400020, [Blk 0x20400008 24 False, Blk 0x20400020 32 False, Blk 0x20400040 184 True])"
    by (simp add: allocate_def block_size_def fits_def carve_def)
  then obtain h2 where h2: "pvPortMalloc sample_config 20 h1 = returns (0x20400028, h2)"
    using malloc_state [OF h1(2), of 20] by auto
  have "served (pvPortMalloc sample_config) (vPortFree sample_config) unused_heap h1 [(0x20400010, 10)]"
    by (rule served.alloc [of _ _ _ unused_heap]) (simp_all add: h1(1) served.start)
  then have "served (pvPortMalloc sample_config) (vPortFree sample_config) unused_heap h2 [(0x20400028, 20), (0x20400010, 10)]"
    by (rule served.alloc) (simp_all add: h2)
  then show ?thesis by blast
qed

theorem heap_objects_sound_witness:
  "\<exists>h. served (pvPortMalloc sample_config) (vPortFree sample_config) unused_heap h [(0x20400028, 20), (0x20400010, 10)]
     \<and> apart (0x20400028, 20) (0x20400010, 10)"
proof -
  obtain h where h: "served (pvPortMalloc sample_config) (vPortFree sample_config) unused_heap h [(0x20400028, 20), (0x20400010, 10)]"
    using sample_served by blast
  then show ?thesis
    using heap_objects_sound [OF sample_wf _ h] by (auto simp: unused_heap_def)
qed

text \<open>The allocator never gets stuck: in every state that a sequence of allocations and releases reaches, a request
  of any size returns, and so does the release of any object in use; the searches through the free
  list end, no assertion fails and only headers that were written are read.\<close>

lemma heap_calls_return:
  assumes "wf_config cfg" and "pxEnd h0 = 0" and "served (pvPortMalloc cfg) (vPortFree cfg) h0 h ps"
  shows "(\<forall>n. \<exists>p h'. pvPortMalloc cfg n h = returns (p, h'))
    \<and> (\<forall>x \<in> set ps. \<exists>h'. vPortFree cfg (fst x) h = returns h')"
  using heap4.served_progress [OF assms(3) unused_state [OF assms(1,2)]] by (metis prod.collapse)

end
