(* ===== verification/Fifo.thy ===== *)
theory Fifo
  imports Prelude
begin

text \<open>
  The interface of a bounded first-in-first-out queue as its clients see it: relations for the steps that put an item
  in, that take one out and that do neither, in any order and from any number of
  callers. The lemmas of the locale \<open>fifo\<close> say that the items come out in the order in which they went in, that
  none is lost or made up, and that a step is possible whenever there is room or an item. What else a step needs of the state
  (the size of the item, the task that runs) are the predicates \<open>valid\<close> and \<open>ready\<close>.
\<close>

inductive traffic ::
    "('a \<Rightarrow> 'q \<Rightarrow> 'q \<Rightarrow> bool) \<Rightarrow> ('q \<Rightarrow> 'a \<Rightarrow> 'q \<Rightarrow> bool) \<Rightarrow> ('q \<Rightarrow> 'q \<Rightarrow> bool) \<Rightarrow> 'q \<Rightarrow> 'q \<Rightarrow> 'a list \<Rightarrow> 'a list \<Rightarrow> bool"
    for send receive other q0 where
  start: "traffic send receive other q0 q0 [] []"
| put: "traffic send receive other q0 q sent got \<Longrightarrow> send x q q' \<Longrightarrow> traffic send receive other q0 q' (sent @ [x]) got"
| get: "traffic send receive other q0 q sent got \<Longrightarrow> receive q x q' \<Longrightarrow> traffic send receive other q0 q' sent (got @ [x])"
| pass: "traffic send receive other q0 q sent got \<Longrightarrow> other q q' \<Longrightarrow> traffic send receive other q0 q' sent got"

locale fifo =
  fixes rep :: "'q \<Rightarrow> 'a list \<Rightarrow> bool" and valid ready :: "'q \<Rightarrow> 'a \<Rightarrow> bool" and capacity :: nat
    and send :: "'a \<Rightarrow> 'q \<Rightarrow> 'q \<Rightarrow> bool" and receive :: "'q \<Rightarrow> 'a \<Rightarrow> 'q \<Rightarrow> bool" and other :: "'q \<Rightarrow> 'q \<Rightarrow> bool"
  assumes send_law: "rep q xs \<Longrightarrow> send x q q' \<Longrightarrow> rep q' (xs @ [x])"
    and receive_law: "rep q xs \<Longrightarrow> receive q x q' \<Longrightarrow> xs \<noteq> [] \<and> x = hd xs \<and> rep q' (tl xs)"
    and other_law: "rep q xs \<Longrightarrow> other q q' \<Longrightarrow> rep q' xs"
    and room_law: "rep q xs \<Longrightarrow> valid q x \<Longrightarrow> length xs < capacity \<Longrightarrow> \<exists>q'. send x q q'"
    and item_law: "rep q xs \<Longrightarrow> xs \<noteq> [] \<Longrightarrow> ready q (hd xs) \<Longrightarrow> \<exists>q'. receive q (hd xs) q'"
    and bound_law: "rep q xs \<Longrightarrow> length xs \<le> capacity"
begin

lemma traffic_order:
  "traffic send receive other q0 q sent got \<Longrightarrow> rep q0 xs0 \<Longrightarrow> \<exists>xs. rep q xs \<and> xs0 @ sent = got @ xs"
proof (induction rule: traffic.induct)
  case (put q sent got x q')
  then obtain xs where "rep q xs" "xs0 @ sent = got @ xs" by blast
  then show ?case using send_law [OF _ put.hyps(2)] by (metis append_assoc)
next
  case (get q sent got x q')
  then obtain xs where xs: "rep q xs" "xs0 @ sent = got @ xs" by blast
  then have "xs \<noteq> []" "x = hd xs" "rep q' (tl xs)" using receive_law [OF _ get.hyps(2)] by auto
  then show ?case using xs(2) by (intro exI [of _ "tl xs"]) simp
next
  case (pass q sent got q')
  then show ?case using other_law by blast
qed auto

lemma traffic_progress:
  assumes "traffic send receive other q0 q sent got" and "rep q0 xs0"
  shows "valid q x \<Longrightarrow> length xs0 + length sent < length got + capacity \<Longrightarrow> \<exists>q'. send x q q'"
    and "length got < length xs0 + length sent \<Longrightarrow> ready q ((xs0 @ sent) ! length got) \<Longrightarrow> \<exists>q'. receive q ((xs0 @ sent) ! length got) q'"
    and "length xs0 + length sent \<le> length got + capacity"
proof -
  obtain xs where xs: "rep q xs" "xs0 @ sent = got @ xs" using traffic_order [OF assms] by auto
  then have len: "length xs0 + length sent = length got + length xs" by (metis length_append)
  then show "valid q x \<Longrightarrow> length xs0 + length sent < length got + capacity \<Longrightarrow> \<exists>q'. send x q q'"
    "length xs0 + length sent \<le> length got + capacity"
    using room_law [OF xs(1)] bound_law [OF xs(1)] by auto
  have "length got < length xs0 + length sent \<Longrightarrow> xs \<noteq> [] \<and> (xs0 @ sent) ! length got = hd xs"
    using len xs(2) by (cases xs) auto
  then show "length got < length xs0 + length sent \<Longrightarrow> ready q ((xs0 @ sent) ! length got) \<Longrightarrow> \<exists>q'. receive q ((xs0 @ sent) ! length got) q'"
    using item_law [OF xs(1)] by auto
qed

end

end
