(* ===== verification/Queue_Correct.thy ===== *)
theory Queue_Correct
  imports FreeRTOS_Queue Heap_Allocator Fifo
begin

text \<open>
  Correctness of the queues: the ring of bytes with its wrapping pointers represents the list of the items in the queue
  (\<open>queue_rep\<close>), the operations of tasks and of interrupts are the operations of a bounded first-in-first-out list, the
  time-out of a blocking call is exact across the wrap of the clock, and a queue created on the heap lies inside
  the object that the allocator returned.
\<close>

section \<open>Slots\<close>

lemma slot_addr_unat:
  assumes "ring_geometry q" and "k \<le> unat (uxLength q)"
  shows "unat (slot_addr q k) = unat (pcHead q) + k * unat (uxItemSize q)"
    and "unat (slot_addr q k - pcHead q) = k * unat (uxItemSize q)"
proof -
  let ?s = "unat (uxItemSize q)" and ?n = "unat (uxLength q)"
  have "k * ?s \<le> ?n * ?s" using assms(2) by simp
  then have b: "unat (pcHead q) + k * ?s < 2 ^ 32" using assms(1) unfolding ring_geometry_def by linarith
  then have u: "unat (of_nat (k * ?s) :: u32) = k * ?s" by (intro unat_of_nat_u32) simp
  then show "unat (slot_addr q k) = unat (pcHead q) + k * ?s"
    using b by (simp add: slot_addr_def unat_add_no_wrap)
  show "unat (slot_addr q k - pcHead q) = k * ?s"
    using u by (simp add: slot_addr_def)
qed

lemma slot_addr_less:
  assumes "ring_geometry q" and "j \<le> unat (uxLength q)" and "k \<le> unat (uxLength q)"
  shows "slot_addr q j < slot_addr q k \<longleftrightarrow> j < k"
  using slot_addr_unat(1) [OF assms(1,2)] slot_addr_unat(1) [OF assms(1,3)] assms(1)
  by (simp add: word_less_nat_alt ring_geometry_def)

lemma slot_addr_step [simp]: "slot_addr q k + uxItemSize q = slot_addr q (Suc k)"
  by (simp add: slot_addr_def algebra_simps)

lemma slot_addr_back: "slot_addr q (Suc k) - uxItemSize q = slot_addr q k"
  by (simp add: slot_addr_def algebra_simps)

lemma slot_addr_0 [simp]: "slot_addr q 0 = pcHead q"
  by (simp add: slot_addr_def)

text \<open>Advancing a pointer to the next slot, around the end.\<close>

lemma next_slot:
  assumes "ring_geometry q" and "k < unat (uxLength q)"
  shows "(if slot_addr q (Suc k) \<ge> pcTail q then pcHead q else slot_addr q (Suc k)) = slot_addr q (Suc k mod unat (uxLength q))"
proof (cases "Suc k = unat (uxLength q)")
  case True
  then show ?thesis using assms(1) by (simp add: ring_geometry_def)
next
  case False
  then have "Suc k < unat (uxLength q)" using assms(2) by simp
  then show ?thesis
    using slot_addr_less [OF assms(1), of "Suc k" "unat (uxLength q)"] assms(1) by (auto simp: ring_geometry_def)
qed

lemma previous_slot:
  assumes "ring_geometry q" and "k < unat (uxLength q)"
  shows "(if slot_addr q k - uxItemSize q < pcHead q then pcTail q - uxItemSize q else slot_addr q k - uxItemSize q)
    = slot_addr q ((k + unat (uxLength q) - 1) mod unat (uxLength q))"
proof (cases k)
  case 0
  obtain n where n: "unat (uxLength q) = Suc n" using assms(2) by (cases "unat (uxLength q)") auto
  have "uxItemSize q \<le> pcHead q" "0 < uxItemSize q"
    using assms(1) by (auto simp: ring_geometry_def word_le_nat_alt word_less_nat_alt)
  then have "unat (pcHead q - uxItemSize q) < unat (pcHead q)"
    using unat_sub_word [of "uxItemSize q" "pcHead q"] by (simp add: word_le_nat_alt word_less_nat_alt)
  moreover have "pcTail q - uxItemSize q = slot_addr q n"
    using assms(1) n slot_addr_back [of q n] by (simp add: ring_geometry_def)
  ultimately show ?thesis using 0 n by (simp add: word_less_nat_alt)
next
  case (Suc j)
  then have "\<not> slot_addr q j < pcHead q"
    using slot_addr_less [OF assms(1), of j 0] assms(2) by simp
  moreover have "(k + unat (uxLength q) - 1) mod unat (uxLength q) = j" using Suc assms(2) by simp
  ultimately show ?thesis using Suc slot_addr_back [of q j] by simp
qed

text \<open>Reading and writing a slot.\<close>

lemma slot_range:
  assumes "ring_geometry q" and "k < unat (uxLength q)"
  shows "k * unat (uxItemSize q) + unat (uxItemSize q) \<le> length (q_storage q)"
proof -
  have "Suc k * unat (uxItemSize q) \<le> unat (uxLength q) * unat (uxItemSize q)"
    using assms(2) by (intro mult_le_mono1) simp
  then show ?thesis using assms(1) by (simp add: ring_geometry_def add.commute)
qed

lemma block_before: "j + s \<le> k \<Longrightarrow> k \<le> length xs \<Longrightarrow> take s (drop j (take k xs @ ys)) = take s (drop j xs)"
  by (auto simp: drop_take min_def)

lemma write_slot:
  assumes "ring_geometry q" and "k < unat (uxLength q)" and "length x = unat (uxItemSize q)"
  obtains b where "write_storage (slot_addr q k) x q = Some (q\<lparr>q_storage := b\<rparr>)" and "length b = length (q_storage q)"
    and "\<And>j. j < unat (uxLength q) \<Longrightarrow> slot (q\<lparr>q_storage := b\<rparr>) j = (if j = k then x else slot q j)"
proof -
  let ?s = "unat (uxItemSize q)"
  note range = slot_range [OF assms(1)]
  define b where "b = take (k * ?s) (q_storage q) @ x @ drop (k * ?s + ?s) (q_storage q)"
  have "write_storage (slot_addr q k) x q = Some (q\<lparr>q_storage := b\<rparr>)"
    using range [OF assms(2)] assms(3) slot_addr_unat(2) [OF assms(1), of k] assms(2)
    by (simp add: write_storage_def memcpy_def rd_block_def wr_block_def b_def)
  moreover have "length b = length (q_storage q)" using range [OF assms(2)] assms(3) by (simp add: b_def)
  moreover have "slot (q\<lparr>q_storage := b\<rparr>) j = (if j = k then x else slot q j)" if "j < unat (uxLength q)" for j
  proof (cases j k rule: linorder_cases)
    case less
    then have "Suc j * ?s \<le> k * ?s" by (intro mult_le_mono1) simp
    then have "j * ?s + ?s \<le> k * ?s" by simp
    then show ?thesis using less range [OF assms(2)] block_before [of "j * ?s" ?s "k * ?s" "q_storage q"] by (simp add: slot_def b_def)
  next
    case equal
    then show ?thesis using range [OF assms(2)] assms(3) by (simp add: slot_def b_def)
  next
    case greater
    then have "Suc k * ?s \<le> j * ?s" by (intro mult_le_mono1) simp
    then obtain d where d: "j * ?s = k * ?s + ?s + d" using le_Suc_ex by (metis add.commute mult_Suc)
    show ?thesis using greater range [OF assms(2)] assms(3) d by (simp add: slot_def b_def add.commute add.left_commute)
  qed
  ultimately show thesis using that by blast
qed

section \<open>Items in the ring\<close>

lemma ring_index_neq:
  assumes "i < m" and "m < n"
  shows "(a + i) mod n \<noteq> (a + m) mod (n :: nat)"
proof
  assume "(a + i) mod n = (a + m) mod n"
  then have "n dvd (a + m) - (a + i)" using assms(1) by (metis mod_eq_dvd_iff_nat nat_add_left_cancel_le less_imp_le)
  then show False using assms by (auto dest: dvd_imp_le)
qed

lemma slot_cong:
  "pcHead q' = pcHead q \<Longrightarrow> uxItemSize q' = uxItemSize q \<Longrightarrow> slot_addr q' = slot_addr q"
  "q_storage q' = q_storage q \<Longrightarrow> uxItemSize q' = uxItemSize q \<Longrightarrow> slot q' = slot q"
  by (simp_all add: slot_addr_def slot_def fun_eq_iff)

text \<open>The parts of a queue that its data operations leave alone.\<close>

definition same_frame :: "Queue_t \<Rightarrow> Queue_t \<Rightarrow> bool" where
  "same_frame q q' \<longleftrightarrow> pcHead q' = pcHead q \<and> pcTail q' = pcTail q \<and> uxLength q' = uxLength q \<and> uxItemSize q' = uxItemSize q \<and>
     cRxLock q' = cRxLock q \<and> cTxLock q' = cTxLock q \<and> length (q_storage q') = length (q_storage q)"

lemma geometry_frame: "ring_geometry q \<Longrightarrow> same_frame q q' \<Longrightarrow> ring_geometry q'"
  by (simp add: ring_geometry_def same_frame_def slot_addr_def)

lemma waiting_count:
  assumes "ring_at q r xs"
  shows "unat (uxMessagesWaiting q) = length xs"
proof -
  have "length xs \<le> unat (uxLength q)" using assms by (simp add: ring_at_def)
  then have "length xs < 4294967296" using unat_u32_bound [of "uxLength q"] by linarith
  then show ?thesis using assms by (simp add: ring_at_def unat_of_nat_u32)
qed

lemma copy_back:
  assumes "ring_at (the_queue w) r xs" and "length xs < unat (uxLength (the_queue w))" and "length x = unat (uxItemSize (the_queue w))"
  shows "\<exists>q'. prvCopyDataToQueue api x queueSEND_TO_BACK w = Some (False, w\<lparr>the_queue := q'\<rparr>)
    \<and> ring_at q' r (xs @ [x]) \<and> same_frame (the_queue w) q'"
proof -
  let ?q = "the_queue w"
  let ?n = "unat (uxLength ?q)" and ?k = "(r + 1 + length xs) mod unat (uxLength (the_queue w))"
  note ra = assms(1) [unfolded ring_at_def]
  have g: "ring_geometry ?q" and k: "?k < ?n" using ra by auto
  obtain b where b: "write_storage (slot_addr ?q ?k) x ?q = Some (?q\<lparr>q_storage := b\<rparr>)" "length b = length (q_storage ?q)"
      "\<And>j. j < ?n \<Longrightarrow> slot (?q\<lparr>q_storage := b\<rparr>) j = (if j = ?k then x else slot ?q j)"
    using write_slot [OF g k assms(3)] by blast
  define q' where "q' = ?q\<lparr>q_storage := b, pcWriteTo := slot_addr ?q (Suc ?k mod ?n), uxMessagesWaiting := uxMessagesWaiting ?q + 1\<rparr>"
  have sz: "uxItemSize ?q \<noteq> 0" using g by (auto simp: ring_geometry_def)
  have "prvCopyDataToQueue api x queueSEND_TO_BACK w = Some (False, w\<lparr>the_queue := q'\<rparr>)"
    using sz b(1) ra next_slot [OF g k]
    by (cases "slot_addr ?q (Suc ?k) \<ge> pcTail ?q") (simp_all add: prvCopyDataToQueue_def Let_def q'_def)
  moreover have frame: "same_frame ?q q'" using b(2) by (simp add: same_frame_def q'_def)
  moreover have "slot q' ((r + 1 + i) mod ?n) = (xs @ [x]) ! i" if "i < length (xs @ [x])" for i
  proof -
    have eq: "slot q' = slot (?q\<lparr>q_storage := b\<rparr>)" by (rule slot_cong) (simp_all add: q'_def)
    have lt: "(r + 1 + i) mod ?n < ?n" using k by simp
    show ?thesis
    proof (cases "i < length xs")
      case True
      then show ?thesis
        using ring_index_neq [OF True assms(2), of "r + 1"] b(3) [OF lt] ra eq by (simp add: nth_append)
    next
      case False
      then have "i = length xs" using that by simp
      then show ?thesis using b(3) [OF k] eq by simp
    qed
  qed
  moreover have "slot_addr q' = slot_addr ?q" by (rule slot_cong) (simp_all add: q'_def)
  moreover have "Suc ?k mod ?n = (r + 1 + length (xs @ [x])) mod ?n" by (simp add: mod_Suc_eq)
  ultimately have "ring_at q' r (xs @ [x])"
    using ra geometry_frame [OF g frame] assms(2) unfolding ring_at_def by (simp add: q'_def)
  then show ?thesis using \<open>prvCopyDataToQueue api x queueSEND_TO_BACK w = _\<close> frame by blast
qed

lemma copy_front:
  assumes "ring_at (the_queue w) r xs" and "length x = unat (uxItemSize (the_queue w))" and "pos \<noteq> queueSEND_TO_BACK"
    and "pos = queueSEND_TO_FRONT \<and> length xs < unat (uxLength (the_queue w)) \<and> ys = xs
      \<or> pos = queueOVERWRITE \<and> unat (uxLength (the_queue w)) = 1 \<and> ys = []"
  shows "\<exists>q'. prvCopyDataToQueue api x pos w = Some (False, w\<lparr>the_queue := q'\<rparr>)
    \<and> queue_rep q' (x # ys) \<and> same_frame (the_queue w) q'"
proof -
  let ?q = "the_queue w"
  let ?n = "unat (uxLength ?q)"
  let ?r = "(r + ?n - 1) mod ?n"
  note ra = assms(1) [unfolded ring_at_def]
  have g: "ring_geometry ?q" and r: "r < ?n" using ra by auto
  obtain b where b: "write_storage (slot_addr ?q r) x ?q = Some (?q\<lparr>q_storage := b\<rparr>)" "length b = length (q_storage ?q)"
      "\<And>j. j < ?n \<Longrightarrow> slot (?q\<lparr>q_storage := b\<rparr>) j = (if j = r then x else slot ?q j)"
    using write_slot [OF g r assms(2)] by blast
  have ys: "length ys < ?n" "length ys \<le> length xs" "ys = take (length ys) xs" "?n = 1 \<or> ys = xs" using assms(4) r by auto
  define q' where "q' = ?q\<lparr>q_storage := b, pcReadFrom := slot_addr ?q ?r, uxMessagesWaiting := of_nat (length (x # ys))\<rparr>"
  have sz: "uxItemSize ?q \<noteq> 0" using g by (auto simp: ring_geometry_def)
  have "(if pos = queueOVERWRITE \<and> uxMessagesWaiting ?q > 0 then uxMessagesWaiting ?q - 1 else uxMessagesWaiting ?q) = of_nat (length ys)"
    using assms(4) ra by (cases xs) auto
  then have "prvCopyDataToQueue api x pos w = Some (False, w\<lparr>the_queue := q'\<rparr>)"
    using sz b(1) ra previous_slot [OF g r] assms(3)
    by (cases "slot_addr ?q r - uxItemSize ?q < pcHead ?q") (simp_all add: prvCopyDataToQueue_def Let_def q'_def add.commute)
  moreover have frame: "same_frame ?q q'" using b(2) by (simp add: same_frame_def q'_def)
  moreover have suc: "(?r + 1 + i) mod ?n = (r + i) mod ?n" for i
  proof -
    have "r + ?n - 1 + (1 + i) = r + i + ?n" using r by simp
    then show ?thesis
      using mod_add_left_eq [of "r + ?n - 1" ?n "1 + i"] by (metis add.assoc mod_add_self2)
  qed
  moreover have "slot q' ((?r + 1 + i) mod ?n) = (x # ys) ! i" if "i < length (x # ys)" for i
  proof -
    have eq: "slot q' = slot (?q\<lparr>q_storage := b\<rparr>)" by (rule slot_cong) (simp_all add: q'_def)
    show ?thesis
    proof (cases i)
      case 0
      then show ?thesis unfolding suc using b(3) [OF r] eq r by simp
    next
      case (Suc j)
      then have j: "j < length ys" using that by simp
      then have neq: "(r + i) mod ?n \<noteq> r" using ring_index_neq [of 0 i ?n r] Suc ys(1) r by simp
      have "slot ?q ((r + 1 + j) mod ?n) = xs ! j" using ra j ys(2) by simp
      then show ?thesis unfolding suc using b(3) [of "(r + i) mod ?n"] neq eq r Suc j ys(3) by (simp, metis nth_take)
    qed
  qed
  moreover have "slot_addr q' = slot_addr ?q" by (rule slot_cong) (simp_all add: q'_def)
  moreover have "(r + 1 + length xs) mod ?n = (?r + 1 + length (x # ys)) mod ?n"
    unfolding suc using ys(4) by auto
  ultimately have "ring_at q' ?r (x # ys)"
    using ra geometry_frame [OF g frame] ys(1) r unfolding ring_at_def by (simp add: q'_def)
  then show ?thesis using \<open>prvCopyDataToQueue api x pos w = _\<close> frame unfolding queue_rep_def by blast
qed

lemma copy_from:
  assumes "ring_at q r (x # xs)"
  shows "\<exists>q'. prvCopyDataFromQueue q = Some (x, q') \<and> q' = q\<lparr>pcReadFrom := pcReadFrom q'\<rparr>
    \<and> queue_rep (q'\<lparr>uxMessagesWaiting := uxMessagesWaiting q - 1\<rparr>) xs"
proof -
  let ?n = "unat (uxLength q)"
  let ?r = "Suc r mod ?n"
  note ra = assms [unfolded ring_at_def]
  have g: "ring_geometry q" and r: "r < ?n" and k: "?r < ?n" using ra by auto
  define q' where "q' = q\<lparr>pcReadFrom := slot_addr q ?r\<rparr>"
  have sz: "uxItemSize q \<noteq> 0" using g by (auto simp: ring_geometry_def)
  have "slot q ?r = x" using ra by (metis (no_types, lifting) Suc_eq_plus1 add_0_right length_greater_0_conv list.distinct(1) nth_Cons_0)
  then have "rd_block (q_storage q) (unat (slot_addr q ?r - pcHead q)) (unat (uxItemSize q)) = Some x"
    using slot_range [OF g k] slot_addr_unat(2) [OF g, of ?r] k by (simp add: rd_block_def slot_def)
  then have "prvCopyDataFromQueue q = Some (x, q')"
    using sz ra next_slot [OF g r]
    by (cases "slot_addr q (Suc r) \<ge> pcTail q") (simp_all add: prvCopyDataFromQueue_def Let_def q'_def)
  moreover have "ring_at (q'\<lparr>uxMessagesWaiting := uxMessagesWaiting q - 1\<rparr>) ?r xs"
  proof -
    let ?q = "q'\<lparr>uxMessagesWaiting := uxMessagesWaiting q - 1\<rparr>"
    have "slot_addr ?q = slot_addr q" "slot ?q = slot q" by (rule slot_cong; simp add: q'_def)+
    moreover have "ring_geometry ?q"
      using g by (rule geometry_frame) (simp add: same_frame_def q'_def)
    moreover have idx: "(?r + 1 + i) mod ?n = (r + 1 + Suc i) mod ?n" for i
      using mod_add_left_eq [of "Suc r" ?n "1 + i"] by (simp add: add.assoc)
    moreover have "slot q ((r + 1 + Suc i) mod ?n) = xs ! i" if "i < length xs" for i
      using ra that by (metis (no_types, lifting) Suc_less_eq length_Cons nth_Cons_Suc)
    moreover have "(?r + 1 + length xs) mod ?n = (r + 1 + length (x # xs)) mod ?n"
      using idx [of "length xs"] by simp
    ultimately show ?thesis
      using ra k unfolding ring_at_def by (simp add: q'_def)
  qed
  ultimately show ?thesis unfolding queue_rep_def by (auto simp: q'_def)
qed

section \<open>The steps of tasks and interrupts\<close>

definition lists_ok :: "'k world \<Rightarrow> bool" where
  "lists_ok w \<longleftrightarrow> list_heads (event_lists w) (xTasksWaitingToSend w) \<noteq> None \<and> list_heads (event_lists w) (xTasksWaitingToReceive w) \<noteq> None"

text \<open>What is relied on of the scheduler inside a critical section: waking a task and requesting a yield do not touch the data of the
  queue, and the counters of interrupts cannot overflow because there are at most 127 tasks.\<close>

definition kernel_ok :: "'k task_api \<Rightarrow> bool" where
  "kernel_ok api \<longleftrightarrow>
     (\<forall>l w. lists_ok w \<longrightarrow> the_queue (snd (xTaskRemoveFromEventList api l w)) = the_queue w \<and> lists_ok (snd (xTaskRemoveFromEventList api l w))) \<and>
     (\<forall>w. lists_ok w \<longrightarrow> the_queue (queueYIELD_IF_USING_PREEMPTION api w) = the_queue w \<and> lists_ok (queueYIELD_IF_USING_PREEMPTION api w)) \<and>
     (\<forall>w. uxTaskGetNumberOfTasks api w \<le> 127)"

definition queue_ok :: "'k task_api \<Rightarrow> nat \<Rightarrow> nat \<Rightarrow> 'k world \<Rightarrow> bytes list \<Rightarrow> bool" where
  "queue_ok api n s w xs \<longleftrightarrow> kernel_ok api \<and> lists_ok w \<and> queue_rep (the_queue w) xs \<and>
     unat (uxLength (the_queue w)) = n \<and> unat (uxItemSize (the_queue w)) = s"

lemma queue_ok_counts:
  assumes "queue_ok api n s w xs"
  shows "length xs \<le> n" and "unat (uxMessagesWaiting (the_queue w)) = length xs" and "unat (uxLength (the_queue w)) = n"
  using assms waiting_count by (auto simp: queue_ok_def queue_rep_def ring_at_def)

lemma rep_locks [simp]:
  "queue_rep (q\<lparr>cTxLock := a\<rparr>) xs = queue_rep q xs" "queue_rep (q\<lparr>cRxLock := a\<rparr>) xs = queue_rep q xs"
  by (simp_all add: queue_rep_def ring_at_def ring_geometry_def slot_def slot_addr_def)

lemma lists_ok_queue [simp]: "lists_ok (w\<lparr>the_queue := q\<rparr>) = lists_ok w"
  by (simp add: lists_ok_def xTasksWaitingToSend_def xTasksWaitingToReceive_def)

lemma is_empty_returns:
  assumes "lists_ok w" and "waiting = xTasksWaitingToSend \<or> waiting = xTasksWaitingToReceive"
  shows "\<exists>b. listLIST_IS_EMPTY (waiting w) (event_lists w) = Some b"
  using assms by (auto simp: lists_ok_def listLIST_IS_EMPTY_def)

lemma unblock_one_ok:
  assumes "kernel_ok api" and "lists_ok w" and "waiting = xTasksWaitingToSend \<or> waiting = xTasksWaitingToReceive"
  shows "\<exists>w'. unblock_one api waiting y w = Some w' \<and> the_queue w' = the_queue w \<and> lists_ok w'"
  using is_empty_returns [OF assms(2,3)] assms(1,2)
  by (auto simp: unblock_one_def kernel_ok_def split_beta Let_def)

lemma send_item_ok:
  assumes "queue_ok api n s w xs" and "length xs < n" and "length x = s"
  shows "\<exists>w'. send_item api x queueSEND_TO_BACK w = Some w' \<and> queue_ok api n s w' (xs @ [x])"
proof -
  obtain r where r: "ring_at (the_queue w) r xs" using assms(1) by (auto simp: queue_ok_def queue_rep_def)
  obtain q where q: "prvCopyDataToQueue api x queueSEND_TO_BACK w = Some (False, w\<lparr>the_queue := q\<rparr>)" "ring_at q r (xs @ [x])" "same_frame (the_queue w) q"
    using copy_back [OF r] assms by (auto simp: queue_ok_def)
  obtain w' where "unblock_one api xTasksWaitingToReceive False (w\<lparr>the_queue := q\<rparr>) = Some w'" "the_queue w' = q" "lists_ok w'"
    using unblock_one_ok [of api "w\<lparr>the_queue := q\<rparr>"] assms(1) by (auto simp: queue_ok_def)
  then show ?thesis
    using q assms(1) by (auto simp: send_item_def queue_ok_def queue_rep_def same_frame_def)
qed

lemma receive_item_ok:
  assumes "queue_ok api n s w (x # xs)"
  shows "\<exists>w'. receive_item api w = Some (x, w') \<and> queue_ok api n s w' xs"
proof -
  obtain r where r: "ring_at (the_queue w) r (x # xs)" using assms(1) by (auto simp: queue_ok_def queue_rep_def)
  obtain q where q: "prvCopyDataFromQueue (the_queue w) = Some (x, q)" "q = (the_queue w)\<lparr>pcReadFrom := pcReadFrom q\<rparr>"
      "queue_rep (q\<lparr>uxMessagesWaiting := uxMessagesWaiting (the_queue w) - 1\<rparr>) xs"
    using copy_from [OF r] by blast
  let ?w = "w\<lparr>the_queue := q\<lparr>uxMessagesWaiting := uxMessagesWaiting (the_queue w) - 1\<rparr>\<rparr>"
  obtain w' where "unblock_one api xTasksWaitingToSend False ?w = Some w'" "the_queue w' = the_queue ?w" "lists_ok w'"
    using unblock_one_ok [of api ?w] assms(1) by (auto simp: queue_ok_def)
  moreover have "uxLength q = uxLength (the_queue w)" "uxItemSize q = uxItemSize (the_queue w)"
    by (subst q(2), simp)+
  ultimately show ?thesis
    using q(1,3) assms(1) by (auto simp: receive_item_def queue_ok_def Let_def)
qed

lemma peek_item_ok:
  assumes "queue_ok api n s w (x # xs)"
  shows "\<exists>w'. peek_item api w = Some (x, w') \<and> queue_ok api n s w' (x # xs)"
proof -
  obtain r where r: "ring_at (the_queue w) r (x # xs)" using assms(1) by (auto simp: queue_ok_def queue_rep_def)
  obtain q where q: "prvCopyDataFromQueue (the_queue w) = Some (x, q)" "q = (the_queue w)\<lparr>pcReadFrom := pcReadFrom q\<rparr>"
    using copy_from [OF r] by blast
  have same: "q\<lparr>pcReadFrom := pcReadFrom (the_queue w)\<rparr> = the_queue w" by (subst q(2)) simp
  obtain w' where "unblock_one api xTasksWaitingToReceive False (w\<lparr>the_queue := the_queue w\<rparr>) = Some w'" "the_queue w' = the_queue w" "lists_ok w'"
    using unblock_one_ok [of api "w\<lparr>the_queue := the_queue w\<rparr>"] assms(1) by (auto simp: queue_ok_def)
  then show ?thesis
    using q(1) assms(1) by (auto simp: peek_item_def queue_ok_def Let_def same)
qed

lemma lock_below:
  assumes "kernel_ok api" and "scast lock < uxTaskGetNumberOfTasks api w"
  shows "lock \<noteq> queueINT8_MAX"
proof
  assume "lock = queueINT8_MAX"
  moreover have "(scast (127 :: u8) :: u32) = 127" by simp
  ultimately have "127 < uxTaskGetNumberOfTasks api w" using assms(2) by (simp add: queueINT8_MAX_def)
  then show False using assms(1) by (auto simp: kernel_ok_def not_less [symmetric])
qed

lemma increment_locks_ok:
  assumes "queue_ok api n s w xs"
  shows "\<exists>w'. prvIncrementQueueTxLock api lock w = Some w' \<and> queue_ok api n s w' xs"
    and "\<exists>w'. prvIncrementQueueRxLock api lock w = Some w' \<and> queue_ok api n s w' xs"
  using assms lock_below [of api lock w]
  by (auto simp: prvIncrementQueueTxLock_def prvIncrementQueueRxLock_def config_assert_def queue_ok_def upd_queue_def)

lemma isr_send_ok:
  assumes "queue_ok api n s w xs" and "length xs < n" and "length x = s"
  shows "\<exists>woken w'. xQueueGenericSendFromISR api (Some x) queueSEND_TO_BACK w = Some ((True, woken), w') \<and> queue_ok api n s w' (xs @ [x])"
proof -
  obtain r where r: "ring_at (the_queue w) r xs" using assms(1) by (auto simp: queue_ok_def queue_rep_def)
  obtain q where q: "prvCopyDataToQueue api x queueSEND_TO_BACK w = Some (False, w\<lparr>the_queue := q\<rparr>)" "ring_at q r (xs @ [x])" "same_frame (the_queue w) q"
    using copy_back [OF r] assms by (auto simp: queue_ok_def)
  let ?w = "w\<lparr>the_queue := q\<rparr>"
  have ok: "queue_ok api n s ?w (xs @ [x])" using q(2,3) assms(1) by (auto simp: queue_ok_def queue_rep_def same_frame_def)
  have room: "uxMessagesWaiting (the_queue w) < uxLength (the_queue w)"
    using queue_ok_counts [OF assms(1)] assms(2) by (simp add: word_less_nat_alt)
  obtain b where b: "listLIST_IS_EMPTY (xTasksWaitingToReceive ?w) (event_lists ?w) = Some b"
    using is_empty_returns [of ?w xTasksWaitingToReceive] ok by (auto simp: queue_ok_def)
  have wake: "queue_ok api n s (snd (if \<not> b then xTaskRemoveFromEventList api (xTasksWaitingToReceive ?w) ?w else (False, ?w))) (xs @ [x])"
    using ok by (auto simp: queue_ok_def kernel_ok_def)
  show ?thesis
    using q(1) b room wake increment_locks_ok(1) [OF ok, of "cTxLock (the_queue w)"]
    by (cases "cTxLock (the_queue w) = queueUNLOCKED") (auto simp: xQueueGenericSendFromISR_def config_assert_def Let_def split_beta)
qed

lemma isr_receive_ok:
  assumes "queue_ok api n s w (x # xs)"
  shows "\<exists>woken w'. xQueueReceiveFromISR api False w = Some ((Some x, woken), w') \<and> queue_ok api n s w' xs"
proof -
  obtain r where r: "ring_at (the_queue w) r (x # xs)" using assms(1) by (auto simp: queue_ok_def queue_rep_def)
  obtain q where q: "prvCopyDataFromQueue (the_queue w) = Some (x, q)" "q = (the_queue w)\<lparr>pcReadFrom := pcReadFrom q\<rparr>"
      "queue_rep (q\<lparr>uxMessagesWaiting := uxMessagesWaiting (the_queue w) - 1\<rparr>) xs"
    using copy_from [OF r] by blast
  let ?w = "w\<lparr>the_queue := q\<lparr>uxMessagesWaiting := uxMessagesWaiting (the_queue w) - 1\<rparr>\<rparr>"
  have "uxLength q = uxLength (the_queue w)" "uxItemSize q = uxItemSize (the_queue w)" by (subst q(2), simp)+
  then have ok: "queue_ok api n s ?w xs" using q(3) assms(1) by (auto simp: queue_ok_def)
  have some: "uxMessagesWaiting (the_queue w) > 0"
    using queue_ok_counts(2) [OF assms(1)] by (simp add: word_less_nat_alt)
  obtain b where b: "listLIST_IS_EMPTY (xTasksWaitingToSend ?w) (event_lists ?w) = Some b"
    using is_empty_returns [of ?w xTasksWaitingToSend] ok by (auto simp: queue_ok_def)
  have wake: "queue_ok api n s (snd (if \<not> b then xTaskRemoveFromEventList api (xTasksWaitingToSend ?w) ?w else (False, ?w))) xs"
    using ok by (auto simp: queue_ok_def kernel_ok_def)
  show ?thesis
    using q(1) b some wake increment_locks_ok(2) [OF ok, of "cRxLock (the_queue w)"]
    by (cases "cRxLock (the_queue w) = queueUNLOCKED") (auto simp: xQueueReceiveFromISR_def config_assert_def Let_def split_beta)
qed

text \<open>The steps: the critical sections of a task that sends, receives or peeks, and the calls of interrupts.\<close>

definition queue_send :: "'k task_api \<Rightarrow> bytes \<Rightarrow> 'k world \<Rightarrow> 'k world \<Rightarrow> bool" where
  "queue_send api x w w' \<longleftrightarrow> length x = unat (uxItemSize (the_queue w)) \<and>
     (uxMessagesWaiting (the_queue w) < uxLength (the_queue w) \<and> send_item api x queueSEND_TO_BACK w = Some w' \<or>
      (\<exists>woken. xQueueGenericSendFromISR api (Some x) queueSEND_TO_BACK w = Some ((True, woken), w')))"

definition queue_receive :: "'k task_api \<Rightarrow> 'k world \<Rightarrow> bytes \<Rightarrow> 'k world \<Rightarrow> bool" where
  "queue_receive api w x w' \<longleftrightarrow>
     uxMessagesWaiting (the_queue w) > 0 \<and> receive_item api w = Some (x, w') \<or>
     (\<exists>woken. xQueueReceiveFromISR api False w = Some ((Some x, woken), w'))"

definition queue_other :: "'k task_api \<Rightarrow> 'k world \<Rightarrow> 'k world \<Rightarrow> bool" where
  "queue_other api w w' \<longleftrightarrow>
     (\<exists>x. uxMessagesWaiting (the_queue w) > 0 \<and> peek_item api w = Some (x, w')) \<or>
     (\<exists>woken. xQueueReceiveFromISR api False w = Some ((None, woken), w')) \<or>
     (\<exists>x woken. xQueueGenericSendFromISR api (Some x) queueSEND_TO_BACK w = Some ((False, woken), w')) \<or>
     (\<exists>lock. w' = upd_queue (\<lambda>q. q\<lparr>cTxLock := lock\<rparr>) w \<or> w' = upd_queue (\<lambda>q. q\<lparr>cRxLock := lock\<rparr>) w)"

lemma room_iff:
  assumes "queue_ok api n s w xs"
  shows "uxMessagesWaiting (the_queue w) < uxLength (the_queue w) \<longleftrightarrow> length xs < n"
    and "uxMessagesWaiting (the_queue w) > 0 \<longleftrightarrow> xs \<noteq> []"
  using queue_ok_counts [OF assms] by (auto simp: word_less_nat_alt)

lemma isr_send_full:
  "\<not> uxMessagesWaiting (the_queue w) < uxLength (the_queue w) \<Longrightarrow>
     xQueueGenericSendFromISR api (Some x) queueSEND_TO_BACK w = Some ((False, False), w)"
  by (simp add: xQueueGenericSendFromISR_def config_assert_def)

lemma isr_receive_empty:
  "\<not> uxMessagesWaiting (the_queue w) > 0 \<Longrightarrow> xQueueReceiveFromISR api False w = Some ((None, False), w)"
  by (simp add: xQueueReceiveFromISR_def config_assert_def Let_def)

lemma queue_send_ok:
  assumes "queue_ok api n s w xs" and "queue_send api x w w'"
  shows "queue_ok api n s w' (xs @ [x])"
proof -
  have x: "length x = s" using assms by (simp add: queue_send_def queue_ok_def)
  show ?thesis
  proof (cases "length xs < n")
    case True
    then show ?thesis
      using assms(2) send_item_ok [OF assms(1) True x] isr_send_ok [OF assms(1) True x] by (auto simp: queue_send_def)
  next
    case False
    then show ?thesis
      using assms(2) isr_send_full [of w api x] room_iff(1) [OF assms(1)] by (auto simp: queue_send_def)
  qed
qed

lemma queue_receive_ok:
  assumes "queue_ok api n s w xs" and "queue_receive api w x w'"
  shows "xs \<noteq> [] \<and> x = hd xs \<and> queue_ok api n s w' (tl xs)"
proof (cases xs)
  case Nil
  then show ?thesis using assms(2) isr_receive_empty [of w api] room_iff(2) [OF assms(1)] by (auto simp: queue_receive_def)
next
  case (Cons y ys)
  then show ?thesis
    using assms receive_item_ok [of api n s w y ys] isr_receive_ok [of api n s w y ys] by (auto simp: queue_receive_def)
qed

lemma queue_other_ok:
  assumes "queue_ok api n s w xs" and "queue_other api w w'"
  shows "queue_ok api n s w' xs"
  using assms(2) unfolding queue_other_def
proof (elim disjE exE conjE)
  fix x assume "uxMessagesWaiting (the_queue w) > 0" "peek_item api w = Some (x, w')"
  then show ?thesis
    using assms(1) room_iff(2) [OF assms(1)] peek_item_ok [of api n s w "hd xs" "tl xs"] by auto
next
  fix woken assume "xQueueReceiveFromISR api False w = Some ((None, woken), w')"
  then show ?thesis
    using assms(1) isr_receive_empty [of w api] isr_receive_ok [of api n s w "hd xs" "tl xs"] room_iff(2) [OF assms(1)] by (cases xs) auto
next
  fix x woken assume send: "xQueueGenericSendFromISR api (Some x) queueSEND_TO_BACK w = Some ((False, woken), w')"
  show ?thesis
  proof (cases "length xs < n")
    case True
    then have "uxMessagesWaiting (the_queue w) < uxLength (the_queue w)" using room_iff(1) [OF assms(1)] by simp
    then show ?thesis
      using send by (auto simp: xQueueGenericSendFromISR_def config_assert_def Let_def split_beta split: bind_splits if_splits)
  next
    case False
    then show ?thesis using send assms(1) isr_send_full [of w api x] room_iff(1) [OF assms(1)] by auto
  qed
qed (use assms(1) in \<open>auto simp: queue_ok_def upd_queue_def\<close>)

interpretation queue: fifo "queue_ok api n s" "\<lambda>_ x. length x = s" "\<lambda>_ _. True" n "queue_send api" "queue_receive api" "queue_other api" for api n s
proof (unfold_locales, erule (1) queue_send_ok, erule (1) queue_receive_ok, erule (1) queue_other_ok)
  fix w xs and x :: bytes
  assume ok: "queue_ok api n s w xs" and "length x = s" "length xs < n"
  then show "\<exists>q'. queue_send api x w q'"
    using send_item_ok [of api n s w xs x] room_iff(1) [OF ok] by (auto simp: queue_send_def queue_ok_def)
next
  fix w xs
  assume ok: "queue_ok api n s w xs" and "xs \<noteq> []"
  then show "\<exists>q'. queue_receive api w (hd xs) q'"
    using receive_item_ok [of api n s w "hd xs" "tl xs"] room_iff(2) [OF ok] by (auto simp: queue_receive_def)
qed (rule queue_ok_counts(1))

section \<open>A new queue\<close>

text \<open>The state of a queue after its initialisation, before the critical section is left.\<close>

definition initialised :: "u32 \<Rightarrow> u32 \<Rightarrow> u32 \<Rightarrow> 'k world \<Rightarrow> 'k world" where
  "initialised n s base w =
     w\<lparr>the_queue := (the_queue w)\<lparr>pcHead := base, uxLength := n, uxItemSize := s, pcTail := base + n * s, uxMessagesWaiting := 0, pcWriteTo := base,
         pcReadFrom := base + (n - 1) * s, cRxLock := queueUNLOCKED, cTxLock := queueUNLOCKED\<rparr>,
       event_lists := vListInitialise (xTasksWaitingToReceive w) (vListInitialise (xTasksWaitingToSend w) (event_lists w))\<rparr>"

lemma initialise_eq:
  assumes "0 < n" and "s \<noteq> 0" and "(-1) div n \<ge> s"
  shows "prvInitialiseNewQueue api n s base w = Some (taskEXIT_CRITICAL api (initialised n s base w))"
proof -
  have "1 \<le> n" using assms(1) by (simp add: word_le_nat_alt word_less_nat_alt)
  then show ?thesis
    using assms(2,3)
    by (simp add: prvInitialiseNewQueue_def xQueueGenericReset_def upd_queue_def initialised_def xTasksWaitingToSend_def xTasksWaitingToReceive_def Let_def)
qed

lemma initialised_ok:
  assumes "kernel_ok api" and "0 < unat n" and "0 < unat s" and "unat base + unat n * unat s < 2 ^ 32" and "unat s \<le> unat base"
    and "length (q_storage (the_queue w)) = unat n * unat s"
  shows "queue_ok api (unat n) (unat s) (initialised n s base w) []"
proof -
  let ?q = "the_queue (initialised n s base w)"
  obtain m where m: "unat n = Suc m" using assms(2) by (cases "unat n") auto
  have n: "n = of_nat (Suc m)" by (simp flip: m)
  have addr: "slot_addr ?q k = base + of_nat k * s" for k by (simp add: slot_addr_def initialised_def)
  have "ring_at ?q m []"
    using assms m addr [of m] addr [of "Suc m"] addr [of 0] unfolding ring_at_def ring_geometry_def
    by (simp add: initialised_def n)
  moreover have "lists_ok (initialised n s base w)"
    by (simp add: lists_ok_def initialised_def vListInitialise_def xTasksWaitingToSend_def xTasksWaitingToReceive_def)
  ultimately show ?thesis
    using assms(1) by (auto simp: queue_ok_def queue_rep_def) (auto simp: initialised_def)
qed

section \<open>Blocking calls\<close>

text \<open>While a call waits, others use the queue: what is relied on is that they leave it a queue of the same shape.\<close>

definition alive :: "'k task_api \<Rightarrow> nat \<Rightarrow> nat \<Rightarrow> 'k world \<Rightarrow> bool" where
  "alive api n s w \<longleftrightarrow> (\<exists>xs. queue_ok api n s w xs)"

definition others_ok :: "'k task_api \<Rightarrow> nat \<Rightarrow> nat \<Rightarrow> bool" where
  "others_ok api n s \<longleftrightarrow> (\<forall>w. alive api n s w \<longrightarrow>
     alive api n s (taskEXIT_CRITICAL api w) \<and> alive api n s (vTaskSuspendAll api w) \<and> alive api n s (snd (xTaskResumeAll api w)) \<and>
     alive api n s (taskYIELD_WITHIN_API api w) \<and> alive api n s (vTaskMissedYield api w) \<and>
     (\<forall>l t. alive api n s (vTaskPlaceOnEventList api l t w)))"

text \<open>The same for any property of the state that other tasks and interrupts, the scheduler and the lock counters do not change: the steps of the wait
  keep it.\<close>

definition stable :: "'k task_api \<Rightarrow> ('k world \<Rightarrow> bool) \<Rightarrow> bool" where
  "stable api P \<longleftrightarrow> (\<forall>w. P w \<longrightarrow> lists_ok w \<and>
     P (taskEXIT_CRITICAL api w) \<and> P (vTaskSuspendAll api w) \<and> P (snd (xTaskResumeAll api w)) \<and>
     P (taskYIELD_WITHIN_API api w) \<and> P (vTaskMissedYield api w) \<and>
     (\<forall>l \<in> {xTasksWaitingToSend w, xTasksWaitingToReceive w}. P (snd (xTaskRemoveFromEventList api l w)) \<and> (\<forall>t. P (vTaskPlaceOnEventList api l t w))) \<and>
     (\<forall>a. P (upd_queue (\<lambda>q. q\<lparr>cTxLock := a\<rparr>) w) \<and> P (upd_queue (\<lambda>q. q\<lparr>cRxLock := a\<rparr>) w)))"

lemma stableD:
  assumes "stable api P" and "P w"
  shows "lists_ok w" and "P (taskEXIT_CRITICAL api w)" and "P (vTaskSuspendAll api w)" and "P (snd (xTaskResumeAll api w))"
    and "P (taskYIELD_WITHIN_API api w)" and "P (vTaskMissedYield api w)"
    and "P (vTaskPlaceOnEventList api (xTasksWaitingToSend w) t w)" and "P (vTaskPlaceOnEventList api (xTasksWaitingToReceive w) t w)"
    and "waiting = xTasksWaitingToSend \<or> waiting = xTasksWaitingToReceive \<Longrightarrow> P (snd (xTaskRemoveFromEventList api (waiting w) w))"
    and "P (upd_queue (\<lambda>q. q\<lparr>cTxLock := a\<rparr>) w)" and "P (upd_queue (\<lambda>q. q\<lparr>cRxLock := a\<rparr>) w)"
  using assms by (auto simp: stable_def)

lemma stable_lock:
  assumes "stable api P" and "P w"
  shows "P (prvLockQueue api w)"
proof -
  define rx where "rx = (if cRxLock (the_queue w) = queueUNLOCKED then upd_queue (\<lambda>q. q\<lparr>cRxLock := queueLOCKED_UNMODIFIED\<rparr>) w else w)"
  define tx where "tx = (if cTxLock (the_queue rx) = queueUNLOCKED then upd_queue (\<lambda>q. q\<lparr>cTxLock := queueLOCKED_UNMODIFIED\<rparr>) rx else rx)"
  have "P rx" unfolding rx_def using assms stableD(11) [OF assms] by simp
  then have "P tx" unfolding tx_def using stableD(10) [OF assms(1)] by simp
  moreover have "prvLockQueue api w = taskEXIT_CRITICAL api tx"
    by (simp add: prvLockQueue_def rx_def tx_def upd_queue_def Let_def)
  ultimately show ?thesis using stableD(2) [OF assms(1)] by simp
qed

lemma stable_unblock_tasks:
  assumes "stable api P" and "P w" and "waiting = xTasksWaitingToSend \<or> waiting = xTasksWaitingToReceive"
  shows "\<exists>w'. unblock_tasks api waiting k w = Some w' \<and> P w'"
  using assms(2)
proof (induction k arbitrary: w)
  case (Suc k)
  obtain b where b: "listLIST_IS_EMPTY (waiting w) (event_lists w) = Some b"
    using is_empty_returns [OF stableD(1) [OF assms(1) Suc.prems] assms(3)] by blast
  define w1 where "w1 = snd (xTaskRemoveFromEventList api (waiting w) w)"
  have "P w1" unfolding w1_def by (rule stableD(9) [OF assms(1) Suc.prems assms(3)])
  then have "P (if fst (xTaskRemoveFromEventList api (waiting w) w) then vTaskMissedYield api w1 else w1)"
    using stableD(6) [OF assms(1)] by simp
  then show ?case
    using b Suc.IH Suc.prems by (auto simp: split_beta w1_def Let_def)
qed simp

lemma stable_unlock:
  assumes "stable api P" and "P w"
  shows "\<exists>w'. prvUnlockQueue api w = Some w' \<and> P w'"
proof -
  obtain w1 where w1: "unblock_tasks api xTasksWaitingToReceive (nat (sint (cTxLock (the_queue w)))) w = Some w1" "P w1"
    using stable_unblock_tasks [OF assms] by blast
  define w2 where "w2 = taskEXIT_CRITICAL api (upd_queue (\<lambda>q. q\<lparr>cTxLock := queueUNLOCKED\<rparr>) w1)"
  have "P w2" unfolding w2_def by (intro stableD(2,10) [OF assms(1)] w1(2))
  then obtain w3 where w3: "unblock_tasks api xTasksWaitingToSend (nat (sint (cRxLock (the_queue w2)))) w2 = Some w3" "P w3"
    using stable_unblock_tasks [OF assms(1)] by blast
  then show ?thesis
    using w1(1) stableD(2) [OF assms(1) stableD(11) [OF assms(1) w3(2)]]
    by (simp add: prvUnlockQueue_def w2_def)
qed

lemma stable_wake_up:
  assumes "stable api P" and "P v"
  shows "\<exists>w. prvUnlockQueue api v = Some w \<and> P (snd (xTaskResumeAll api w)) \<and>
    P (taskYIELD_WITHIN_API api (snd (xTaskResumeAll api w))) \<and> P (taskEXIT_CRITICAL api (snd (xTaskResumeAll api w)))"
  using stable_unlock [OF assms] stableD(2,4,5) [OF assms(1)] by blast

lemma stable_wait:
  assumes "stable api P" and "P w"
  shows "\<exists>r w'. wait_to_send api ticks t w = Some (r, w') \<and> P w'"
    and "\<exists>r w'. wait_to_receive api ticks t w = Some (r, w') \<and> P w'"
proof -
  note al = stableD [OF assms(1)] and lock = stable_lock [OF assms(1)] and wake = stable_wake_up [OF assms(1)]
  define pre where "pre = prvLockQueue api (vTaskSuspendAll api (taskEXIT_CRITICAL api w))"
  define v where "v = taskEXIT_CRITICAL api pre"
  define v1 where "v1 = taskEXIT_CRITICAL api v"
  define c where "c = check_timeout api (case t of None \<Rightarrow> vTaskInternalSetTimeOutState w | Some t \<Rightarrow> t) ticks pre"
  have v: "P v" unfolding v_def pre_def using assms(2) by (intro al lock)
  then have v1: "P v1" "P (vTaskPlaceOnEventList api (xTasksWaitingToSend v1) (snd (snd c)) v1)"
      "P (vTaskPlaceOnEventList api (xTasksWaitingToReceive v1) (snd (snd c)) v1)"
    unfolding v1_def by (intro al; simp)+
  show "\<exists>r w'. wait_to_send api ticks t w = Some (r, w') \<and> P w'"
    using wake [OF v] wake [OF v1(1)] wake [OF v1(2)]
    by (cases "fst c"; cases "uxMessagesWaiting (the_queue v) = uxLength (the_queue v)")
      (auto simp: wait_to_send_def xTaskCheckForTimeOut_def prvIsQueueFull_def split_beta Let_def
        pre_def [symmetric] v_def [symmetric] v1_def [symmetric] c_def [symmetric])
  show "\<exists>r w'. wait_to_receive api ticks t w = Some (r, w') \<and> P w'"
    using wake [OF v] wake [OF v1(1)] wake [OF v1(3)]
    by (cases "fst c"; cases "uxMessagesWaiting (the_queue v) = 0")
      (auto simp: wait_to_receive_def xTaskCheckForTimeOut_def prvIsQueueEmpty_def split_beta Let_def
        pre_def [symmetric] v_def [symmetric] v1_def [symmetric] c_def [symmetric])
qed

lemma alive_stable: "others_ok api n s \<Longrightarrow> stable api (alive api n s)"
  by (auto simp: stable_def others_ok_def alive_def queue_ok_def kernel_ok_def upd_queue_def)

lemmas wait_alive = stable_wait [OF alive_stable]

definition sent_to :: "'k task_api \<Rightarrow> nat \<Rightarrow> nat \<Rightarrow> bytes \<Rightarrow> bool \<Rightarrow> 'k world \<Rightarrow> bool" where
  "sent_to api n s x ok w' \<longleftrightarrow>
     (if ok then \<exists>w ys. queue_ok api n s w (ys @ [x]) \<and> w' = taskEXIT_CRITICAL api w else alive api n s w')"

definition received_from :: "'k task_api \<Rightarrow> nat \<Rightarrow> nat \<Rightarrow> bytes option \<Rightarrow> 'k world \<Rightarrow> bool" where
  "received_from api n s r w' \<longleftrightarrow>
     (case r of
        Some x \<Rightarrow> \<exists>w0 w ys. queue_ok api n s w0 (x # ys) \<and> queue_ok api n s w ys \<and> w' = taskEXIT_CRITICAL api w
      | None \<Rightarrow> alive api n s w')"

lemma send_loop_result:
  "send_loop api x pos ticks t w = Some r \<Longrightarrow> others_ok api n s \<longrightarrow> length x = s \<longrightarrow> pos = queueSEND_TO_BACK \<longrightarrow> alive api n s w \<longrightarrow>
     (\<exists>ok w'. r = Some (ok, w') \<and> sent_to api n s x ok w')"
proof (rule send_loop.raw_induct [where P = "\<lambda>api x pos ticks t w r. others_ok api n s \<longrightarrow> length x = s \<longrightarrow> pos = queueSEND_TO_BACK \<longrightarrow> alive api n s w \<longrightarrow>
     (\<exists>ok w'. r = Some (ok, w') \<and> sent_to api n s x ok w')"])
  fix loop :: "'k task_api \<Rightarrow> bytes \<Rightarrow> queue_position \<Rightarrow> u32 \<Rightarrow> TimeOut_t option \<Rightarrow> 'k world \<Rightarrow> (bool \<times> 'k world) run"
    and api x pos ticks t w r
  assume IH: "\<And>api x pos ticks t w r. loop api x pos ticks t w = Some r \<Longrightarrow> others_ok api n s \<longrightarrow> length x = s \<longrightarrow>
      pos = queueSEND_TO_BACK \<longrightarrow> alive api n s w \<longrightarrow> (\<exists>ok w'. r = Some (ok, w') \<and> sent_to api n s x ok w')"
    and body: "(if uxMessagesWaiting (the_queue w) < uxLength (the_queue w) \<or> pos = queueOVERWRITE
      then Some (do { w \<leftarrow> send_item api x pos w; Some (True, taskEXIT_CRITICAL api w) })
      else if ticks = 0 then returns (False, taskEXIT_CRITICAL api w)
      else (case wait_to_send api ticks t w of
              None \<Rightarrow> Some undefined_behaviour
            | Some (None, w) \<Rightarrow> returns (False, w)
            | Some (Some (ticks, t), w) \<Rightarrow> loop api x pos ticks (Some t) w)) = Some r"
  show "others_ok api n s \<longrightarrow> length x = s \<longrightarrow> pos = queueSEND_TO_BACK \<longrightarrow> alive api n s w \<longrightarrow>
      (\<exists>ok w'. r = Some (ok, w') \<and> sent_to api n s x ok w')"
  proof (intro impI)
    assume ok: "others_ok api n s" and x: "length x = s" and pos: "pos = queueSEND_TO_BACK" and al: "alive api n s w"
    obtain xs where xs: "queue_ok api n s w xs" using al by (auto simp: alive_def)
    show "\<exists>ok w'. r = Some (ok, w') \<and> sent_to api n s x ok w'"
    proof (cases "length xs < n")
      case True
      obtain w' where "send_item api x queueSEND_TO_BACK w = Some w'" "queue_ok api n s w' (xs @ [x])"
        using send_item_ok [OF xs True x] by blast
      then show ?thesis
        using body True pos room_iff(1) [OF xs] by (auto simp: sent_to_def)
    next
      case False
      then have full: "\<not> uxMessagesWaiting (the_queue w) < uxLength (the_queue w)" using room_iff(1) [OF xs] by simp
      obtain v w' where w': "wait_to_send api ticks t w = Some (v, w')" "alive api n s w'"
        using wait_alive(1) [OF ok al] by blast
      consider (now) "ticks = 0" | (late) "ticks \<noteq> 0" "v = None" | (again) k u where "ticks \<noteq> 0" "v = Some (k, u)"
        by (cases v) auto
      then show ?thesis
      proof cases
        case now
        then show ?thesis using body full pos stableD(2) [OF alive_stable [OF ok] al] by (auto simp: sent_to_def)
      next
        case late
        then show ?thesis using body full pos w' by (auto simp: sent_to_def)
      next
        case again
        then have "loop api x pos k (Some u) w' = Some r" using body full pos w'(1) by simp
        then show ?thesis using IH ok x pos w'(2) by blast
      qed
    qed
  qed
qed

lemma receive_loop_result:
  "receive_loop api take_item ticks t w = Some r \<Longrightarrow> others_ok api n s \<longrightarrow> take_item = receive_item api \<longrightarrow> alive api n s w \<longrightarrow>
     (\<exists>x w'. r = Some (x, w') \<and> received_from api n s x w')"
proof (rule receive_loop.raw_induct [where P = "\<lambda>api take_item ticks t w r. others_ok api n s \<longrightarrow> take_item = receive_item api \<longrightarrow> alive api n s w \<longrightarrow>
     (\<exists>x w'. r = Some (x, w') \<and> received_from api n s x w')"])
  fix loop :: "'k task_api \<Rightarrow> ('k world \<Rightarrow> (bytes \<times> 'k world) exec) \<Rightarrow> u32 \<Rightarrow> TimeOut_t option \<Rightarrow> 'k world \<Rightarrow> (bytes option \<times> 'k world) run"
    and api take_item ticks t w r
  assume IH: "\<And>api take_item ticks t w r. loop api take_item ticks t w = Some r \<Longrightarrow> others_ok api n s \<longrightarrow>
      take_item = receive_item api \<longrightarrow> alive api n s w \<longrightarrow> (\<exists>x w'. r = Some (x, w') \<and> received_from api n s x w')"
    and body: "(if uxMessagesWaiting (the_queue w) > 0
      then Some (do { (b, w) \<leftarrow> take_item w; Some (Some b, taskEXIT_CRITICAL api w) })
      else if ticks = 0 then returns (None, taskEXIT_CRITICAL api w)
      else (case wait_to_receive api ticks t w of
              None \<Rightarrow> Some undefined_behaviour
            | Some (None, w) \<Rightarrow> returns (None, w)
            | Some (Some (ticks, t), w) \<Rightarrow> loop api take_item ticks (Some t) w)) = Some r"
  show "others_ok api n s \<longrightarrow> take_item = receive_item api \<longrightarrow> alive api n s w \<longrightarrow>
      (\<exists>x w'. r = Some (x, w') \<and> received_from api n s x w')"
  proof (intro impI)
    assume ok: "others_ok api n s" and it: "take_item = receive_item api" and al: "alive api n s w"
    obtain xs where xs: "queue_ok api n s w xs" using al by (auto simp: alive_def)
    show "\<exists>x w'. r = Some (x, w') \<and> received_from api n s x w'"
    proof (cases xs)
      case (Cons y ys)
      obtain w' where "receive_item api w = Some (y, w')" "queue_ok api n s w' ys"
        using receive_item_ok [of api n s w y ys] xs Cons by blast
      then show ?thesis
        using body it Cons xs room_iff(2) [OF xs] unfolding received_from_def by auto blast
    next
      case Nil
      then have empty: "\<not> uxMessagesWaiting (the_queue w) > 0" using room_iff(2) [OF xs] by simp
      obtain v w' where w': "wait_to_receive api ticks t w = Some (v, w')" "alive api n s w'"
        using wait_alive(2) [OF ok al] by blast
      consider (now) "ticks = 0" | (late) "ticks \<noteq> 0" "v = None" | (again) k u where "ticks \<noteq> 0" "v = Some (k, u)"
        by (cases v) auto
      then show ?thesis
      proof cases
        case now
        then show ?thesis using body empty stableD(2) [OF alive_stable [OF ok] al] by (auto simp: received_from_def)
      next
        case late
        then show ?thesis using body empty w' by (auto simp: received_from_def)
      next
        case again
        then have "loop api take_item k (Some u) w' = Some r" using body empty w'(1) by simp
        then show ?thesis using IH ok it w'(2) by blast
      qed
    qed
  qed
qed

section \<open>The clock\<close>

definition clock :: "'k world \<Rightarrow> nat" where
  "clock w = unat (xNumOfOverflows w) * 2 ^ 32 + unat (xTickCount w)"

lemma clock_difference:
  fixes w w0 :: "'k world"
  assumes "clock w0 \<le> clock w" and "clock w < clock w0 + 2 ^ 32"
  shows "xTickCount w - xTickCount w0 = of_nat (clock w - clock w0)"
    and "\<not> (xNumOfOverflows w \<noteq> xNumOfOverflows w0 \<and> xTickCount w \<ge> xTickCount w0)"
proof -
  let ?a = "unat (xTickCount w0)" and ?b = "unat (xTickCount w)" and ?o = "unat (xNumOfOverflows w0)" and ?p = "unat (xNumOfOverflows w)"
  have wrap: "(of_nat (2 ^ 32) :: u32) = 0" by simp
  have tick: "of_nat (clock v) = xTickCount v" for v :: "'k world"
    by (simp only: clock_def of_nat_add of_nat_mult wrap mult_zero_right add_0_left) simp
  show "xTickCount w - xTickCount w0 = of_nat (clock w - clock w0)"
    using assms(1) by (simp add: of_nat_diff tick)
  show "\<not> (xNumOfOverflows w \<noteq> xNumOfOverflows w0 \<and> xTickCount w \<ge> xTickCount w0)"
  proof
    assume "xNumOfOverflows w \<noteq> xNumOfOverflows w0 \<and> xTickCount w \<ge> xTickCount w0"
    then have "?p \<noteq> ?o" "?a \<le> ?b" by (simp_all add: word_unat_eq_iff word_le_nat_alt)
    moreover have "?a < 4294967296" "?b < 4294967296" using unat_u32_bound [of "xTickCount w0"] unat_u32_bound [of "xTickCount w"] by simp_all
    moreover have "?o * 4294967296 + ?a \<le> ?p * 4294967296 + ?b" "?p * 4294967296 + ?b < ?o * 4294967296 + ?a + 4294967296"
      using assms by (simp_all add: clock_def)
    ultimately show False by linarith
  qed
qed

section \<open>What the queues guarantee\<close>

text \<open>C25. Messages are delivered in order: after any interleaving of successful sends and receives of tasks and of interrupts, peeks,
  failed calls and changes of the locks, on a queue that was empty, what was received followed by what is in the
  queue is exactly what was sent; the queue never holds more than its length, and a send with room and a receive with an
  item are possible.\<close>

theorem queue_delivers_in_order:
  assumes "queue_ok api n s w0 []" and "traffic (queue_send api) (queue_receive api) (queue_other api) w0 w sent got"
  shows "(\<exists>xs. queue_ok api n s w xs \<and> sent = got @ xs \<and> length xs \<le> n)
    \<and> (\<forall>x. length x = s \<and> length sent < length got + n \<longrightarrow> (\<exists>w'. queue_send api x w w'))
    \<and> (length got < length sent \<longrightarrow> (\<exists>x w'. queue_receive api w x w'))"
  using queue.traffic_order [OF assms(2,1)] queue.traffic_progress [OF assms(2,1)] queue_ok_counts(1)
  by (metis add_0 append_Nil list.size(3))

text \<open>A queue of two pointers and a scheduler in which no other task runs.\<close>

definition sample_api :: "unit task_api" where
  "sample_api = \<lparr>xTaskRemoveFromEventList = (\<lambda>_ w. (False, w)), vTaskPlaceOnEventList = (\<lambda>_ _ w. w), xTaskPriorityDisinherit = (\<lambda>_ w. (False, w)),
     uxTaskGetNumberOfTasks = (\<lambda>_. 3), vTaskMissedYield = id, vTaskSuspendAll = id, xTaskResumeAll = (\<lambda>w. (True, w)),
     queueYIELD_IF_USING_PREEMPTION = id, taskYIELD_WITHIN_API = id, taskEXIT_CRITICAL = id, scheduler_suspended = (\<lambda>_. False), INCLUDE_vTaskSuspend = True\<rparr>"

definition sample_world :: "unit world" where
  "sample_world = \<lparr>queue_address = 0x20400010,
     the_queue = \<lparr>pcHead = 0, pcWriteTo = 0, pcTail = 0, pcReadFrom = 0, xMutexHolder = 0, uxRecursiveCallCount = 0, uxMessagesWaiting = 0,
       uxLength = 0, uxItemSize = 0, cRxLock = 0, cTxLock = 0, q_storage = replicate 8 0\<rparr>,
     event_lists = \<lparr>list_items = (\<lambda>_. None), list_heads = (\<lambda>_. None)\<rparr>, xTickCount = 0xfffffff0, xNumOfOverflows = 0, tasks = ()\<rparr>"

lemma sample_kernel: "kernel_ok sample_api"
  by (simp add: kernel_ok_def sample_api_def)

lemma sample_queue: "queue_ok sample_api 2 4 (initialised 2 4 0x20400060 sample_world) []"
  using initialised_ok [OF sample_kernel, of 2 4 "0x20400060" sample_world] by (simp add: sample_world_def)

theorem queue_delivers_in_order_witness:
  "\<exists>w xs. queue_send sample_api [1, 2, 3, 4] (initialised 2 4 0x20400060 sample_world) w \<and> queue_ok sample_api 2 4 w xs \<and> xs = [[1, 2, 3, 4]]"
proof -
  let ?w = "initialised 2 4 0x20400060 sample_world"
  obtain w where w: "queue_send sample_api [1, 2, 3, 4] ?w w"
    using queue.room_law [OF sample_queue, of "[1, 2, 3, 4]"] by auto
  have "traffic (queue_send sample_api) (queue_receive sample_api) (queue_other sample_api) ?w w ([] @ [[1, 2, 3, 4]]) []"
    using w by (intro traffic.put [of _ _ _ _ ?w] traffic.start)
  then show ?thesis using queue_delivers_in_order [OF sample_queue] w by fastforce
qed

text \<open>C26. A blocking send does what it reports, whatever other tasks and interrupts do with the queue while it waits: it never runs into
  undefined behaviour or a failed assertion; it returns at once when there is room or no time to wait; when it
  returns success, the item was the last in the queue at the moment the call left its critical section; when it
  returns failure, the queue is still a queue.\<close>

theorem blocking_send_sound:
  assumes "queue_ok api n s w xs" and "others_ok api n s" and "length x = s" and "scheduler_suspended api w \<longrightarrow> ticks = 0"
  shows "(case xQueueGenericSend api (Some x) ticks queueSEND_TO_BACK w of
      None \<Rightarrow> length xs = n \<and> ticks \<noteq> 0
    | Some None \<Rightarrow> False
    | Some (Some (ok, w')) \<Rightarrow> sent_to api n s x ok w')"
proof -
  have eq: "xQueueGenericSend api (Some x) ticks queueSEND_TO_BACK w = send_loop api x queueSEND_TO_BACK ticks None w"
    using assms(4) by (auto simp: xQueueGenericSend_def)
  have al: "alive api n s w" using assms(1) by (auto simp: alive_def)
  show ?thesis
  proof (cases "send_loop api x queueSEND_TO_BACK ticks None w")
    case None
    then have "\<not> length xs < n \<and> ticks \<noteq> 0"
      using room_iff(1) [OF assms(1)] by (subst (asm) send_loop.simps) (auto split: if_splits)
    then show ?thesis using None eq queue_ok_counts(1) [OF assms(1)] by simp
  next
    case (Some r)
    then show ?thesis using send_loop_result [OF Some, of n s] assms(2,3) al eq by auto
  qed
qed

lemma sample_others: "others_ok sample_api 2 4"
  by (simp add: others_ok_def sample_api_def)

theorem blocking_send_sound_witness:
  "\<exists>w. xQueueGenericSend sample_api (Some [1, 2, 3, 4]) 10000 queueSEND_TO_BACK (initialised 2 4 0x20400060 sample_world) = returns (True, w)"
proof -
  let ?w = "initialised 2 4 0x20400060 sample_world"
  let ?r = "xQueueGenericSend sample_api (Some [1, 2, 3, 4]) 10000 queueSEND_TO_BACK ?w"
  obtain b w where r: "?r = returns (b, w)"
    using blocking_send_sound [OF sample_queue sample_others, of "[1, 2, 3, 4]" 10000]
    by (auto simp: sample_api_def split: option.splits)
  moreover have "uxMessagesWaiting (the_queue ?w) < uxLength (the_queue ?w)" by (simp add: initialised_def)
  then have "b" using r by (auto simp: xQueueGenericSend_def send_loop.simps split: if_splits bind_splits)
  ultimately show ?thesis by simp
qed

text \<open>A blocking receive in the same way: an item that it returns was the first in the queue and has been taken out.\<close>

lemma blocking_receive_sound:
  assumes "queue_ok api n s w xs" and "others_ok api n s" and "scheduler_suspended api w \<longrightarrow> ticks = 0"
  shows "(case xQueueReceive api False ticks w of
      None \<Rightarrow> xs = [] \<and> ticks \<noteq> 0
    | Some None \<Rightarrow> False
    | Some (Some (r, w')) \<Rightarrow> received_from api n s r w')"
proof -
  have eq: "xQueueReceive api False ticks w = receive_loop api (receive_item api) ticks None w"
    using assms(3) by (auto simp: xQueueReceive_def)
  have al: "alive api n s w" using assms(1) by (auto simp: alive_def)
  show ?thesis
  proof (cases "receive_loop api (receive_item api) ticks None w")
    case None
    then have "xs = [] \<and> ticks \<noteq> 0"
      using room_iff(2) [OF assms(1)] by (subst (asm) receive_loop.simps) (auto split: if_splits)
    then show ?thesis using None eq by simp
  next
    case (Some r)
    then show ?thesis using receive_loop_result [OF Some, of n s] assms(2) al eq by auto
  qed
qed

text \<open>C28. The time-out of a blocking call is exact across the wrap of the tick counter: as long as less than \<open>2 ^ 32\<close> ticks have
  passed since the time was taken, the check reports expiry exactly when the ticks to wait have passed, and otherwise
  restarts the time with the ticks that remain, so that the deadline stays the same.\<close>

theorem timeout_exact:
  fixes w w0 :: "'k world"
  assumes "clock w0 \<le> clock w" and "clock w < clock w0 + 2 ^ 32" and "INCLUDE_vTaskSuspend api \<longrightarrow> ticks \<noteq> portMAX_DELAY"
  defines "elapsed \<equiv> clock w - clock w0"
  shows "case check_timeout api (vTaskInternalSetTimeOutState w0) ticks w of (expired, t, left) \<Rightarrow>
    (if unat ticks \<le> elapsed then expired \<and> left = 0
     else \<not> expired \<and> t = vTaskInternalSetTimeOutState w \<and> clock w + unat left = clock w0 + unat ticks)"
proof -
  note d = clock_difference [OF assms(1,2)]
  have "elapsed < 2 ^ 32" using assms(1,2) by (simp add: elapsed_def)
  then have u: "unat (xTickCount w - xTickCount w0) = elapsed"
    unfolding d(1) elapsed_def by (intro unat_of_nat_u32) simp
  then have less: "xTickCount w - xTickCount w0 < ticks \<longleftrightarrow> elapsed < unat ticks" by (simp add: word_less_nat_alt)
  have left: "clock w + unat (ticks - (xTickCount w - xTickCount w0)) = clock w0 + unat ticks" if "elapsed < unat ticks"
    using unat_sub_word [of "xTickCount w - xTickCount w0" ticks] u that assms(1) by (simp add: word_le_nat_alt elapsed_def)
  show ?thesis
    using d(2) assms(3) less left
    by (cases "elapsed < unat ticks") (auto simp: check_timeout_def vTaskInternalSetTimeOutState_def Let_def)
qed

text \<open>The clock of the sample stands just before its wrap; after 32 ticks it has wrapped once.\<close>

theorem timeout_exact_witness:
  "case check_timeout sample_api (vTaskInternalSetTimeOutState sample_world) 40 (sample_world\<lparr>xTickCount := 0x10, xNumOfOverflows := 1\<rparr>) of
     (expired, t, left) \<Rightarrow> \<not> expired \<and> left = 8"
proof -
  let ?w = "sample_world\<lparr>xTickCount := 0x10, xNumOfOverflows := 1\<rparr>"
  have c: "clock sample_world = 0xfffffff0" "clock ?w = 0x100000010" by (simp_all add: clock_def sample_world_def)
  have "portMAX_DELAY \<noteq> 40" by (simp add: portMAX_DELAY_def)
  then show ?thesis
    using timeout_exact [of sample_world ?w sample_api 40]
    by (auto simp: c word_unat_eq_iff split: prod.splits)
qed

text \<open>A queue on the heap: for a request whose size does not overflow, \<open>xQueueGenericCreate\<close> returns; either there is no memory
  and it returns a null pointer, or structure and storage area lie inside one object of the heap that
  did not overlap any other, and the new queue is empty and well formed when its initialisation leaves its
  critical section.\<close>

lemma queue_created_on_heap:
  assumes "heap_state cfg bs h" and "kernel_ok api" and "unat (configTOTAL_HEAP_SIZE cfg) \<le> unat (ucHeap cfg)"
    and "0 < unat n" and "0 < unat s" and "unat size_of + unat n * unat s < 2 ^ 32"
  shows "\<exists>p w' h' bs'. xQueueGenericCreate cfg size_of raw api n s h w = returns ((p, w'), h') \<and> heap_state cfg bs' h' \<and>
    (if p = 0 then used_objects bs' = used_objects bs
     else \<exists>k w1. unat size_of + unat n * unat s \<le> k \<and> used_objects bs' = insert (unat p, k) (used_objects bs)
       \<and> (\<forall>x \<in> used_objects bs. apart (unat p, k) x)
       \<and> w' = taskEXIT_CRITICAL api w1 \<and> queue_ok api (unat n) (unat s) w1 [] \<and> pcHead (the_queue w1) = p + size_of)"
proof -
  let ?b = "size_of + n * s"
  have ns: "unat (n * s) = unat n * unat s" using assms(6) by (simp add: unat_word_ariths)
  then have b: "unat ?b = unat size_of + unat n * unat s" using assms(6) by (simp add: unat_add_no_wrap)
  have nz: "0 < n" "s \<noteq> 0" using assms(4,5) by (auto simp: word_less_nat_alt)
  have "(-1 :: u32) = 4294967295" by simp
  then have m1: "unat (-1 :: u32) = 2 ^ 32 - 1" by (simp only: unat_numeral) simp
  have div: "(-1) div n \<ge> s"
    using assms(4,6) m1 by (simp add: word_le_nat_alt unat_div less_eq_div_iff_mult_less_eq mult.commute)
  have add: "-1 - size_of \<ge> n * s"
    using unat_sub_word [of size_of "-1"] ns m1 assms(6) by (simp add: word_le_nat_alt)
  obtain p h' bs' where m: "pvPortMalloc cfg ?b h = returns (p, h')" "heap_state cfg bs' h'"
      "if p = 0 then used_objects bs' = used_objects bs
       else \<exists>k. unat ?b \<le> k \<and> 0 < k \<and> used_objects bs' = insert (unat p, k) (used_objects bs) \<and> (\<forall>x \<in> used_objects bs. apart (unat p, k) x)"
    using heap4.malloc_law [OF assms(1), of ?b] by blast
  show ?thesis
  proof (cases "p = 0")
    case True
    then show ?thesis using m nz div add by (auto simp: xQueueGenericCreate_def)
  next
    case False
    then obtain k where k: "unat ?b \<le> k" "used_objects bs' = insert (unat p, k) (used_objects bs)" "\<forall>x \<in> used_objects bs. apart (unat p, k) x"
      using m(3) by auto
    have inside: "unat (ucHeap cfg) + 8 \<le> unat p" "unat p + k + 8 \<le> unat (ucHeap cfg) + unat (configTOTAL_HEAP_SIZE cfg)"
      using object_inside [OF m(2), of "unat p" k] k(2) by auto
    have top: "unat (ucHeap cfg) + unat (configTOTAL_HEAP_SIZE cfg) < 2 ^ 32"
      using heap_state_tiles(1) [OF m(2)] by (simp add: wf_config_def)
    have base: "unat (p + size_of) = unat p + unat size_of"
      using inside top k(1) b by (intro unat_add_no_wrap) simp
    have room: "unat (p + size_of) + unat n * unat s < 2 ^ 32"
      using inside top k(1) b base by simp
    have "unat s \<le> unat n * unat s" using assms(4) by simp
    then have low: "unat s \<le> unat (p + size_of)"
      using inside k(1) b base assms(3) by linarith
    define w0 where "w0 = upd_queue (\<lambda>q. q\<lparr>q_storage := map (\<lambda>k. raw (p + size_of + of_nat k)) [0..<unat (n * s)]\<rparr>) (w\<lparr>queue_address := p\<rparr>)"
    define w1 where "w1 = initialised n s (p + size_of) w0"
    have q: "queue_ok api (unat n) (unat s) w1 []" "pcHead (the_queue w1) = p + size_of"
      unfolding w1_def using assms(2,4,5) room low ns
      by (intro initialised_ok; simp add: w0_def upd_queue_def) (simp add: initialised_def)
    have "xQueueGenericCreate cfg size_of raw api n s h w = returns ((p, taskEXIT_CRITICAL api w1), h')"
      using m(1) False nz div add initialise_eq [OF nz div, of api "p + size_of" w0]
      by (simp add: xQueueGenericCreate_def w0_def [symmetric] w1_def)
    moreover have "unat size_of + unat n * unat s \<le> k" using k(1) b by simp
    ultimately show ?thesis
      using m(2) False k(2,3) q
      by (intro exI [of _ p] exI [of _ "taskEXIT_CRITICAL api w1"] exI [of _ h'] exI [of _ bs']) (simp, blast)
  qed
qed

end
