(* ===== verification/FreeRTOS_Semaphore.thy ===== *)
theory FreeRTOS_Semaphore
  imports FreeRTOS_Queue
begin

text \<open>
  The semaphores and mutexes of the operating system (\<^verbatim>\<open>FreeRTOS/Source/queue.c\<close>): queues whose items have no bytes, so that the
  number of messages is the count of the semaphore. A mutex is marked by a null \<^verbatim>\<open>pcHead\<close> (\<^verbatim>\<open>uxQueueType\<close>), has its holder in the
  structure and, when it is recursive, the number of nested takes. The operations of the scheduler that mutexes need
  in addition (priority inheritance, the handle of the running task) are parameters, next to those of \<open>task_api\<close>. The
  locks of lwIP are recursive mutexes and its semaphores binary ones.
\<close>

section \<open>The scheduler of mutexes\<close>

record 'k mutex_api =
  task_ops :: "'k task_api"
  xTaskPriorityInherit :: "u32 \<Rightarrow> 'k world \<Rightarrow> bool \<times> 'k world"
  vTaskPriorityDisinheritAfterTimeout :: "u32 \<Rightarrow> u32 \<Rightarrow> 'k world \<Rightarrow> 'k world"
  pvTaskIncrementMutexHeldCount :: "'k world \<Rightarrow> u32 \<times> 'k world"
  xTaskGetCurrentTaskHandle :: "'k world \<Rightarrow> u32"
  configMAX_PRIORITIES :: u32

definition queueQUEUE_IS_MUTEX :: u32 where
  "queueQUEUE_IS_MUTEX = 0"

definition queueMUTEX_GIVE_BLOCK_TIME :: u32 where
  "queueMUTEX_GIVE_BLOCK_TIME = 0"

section \<open>Creation\<close>

definition prvInitialiseMutex :: "'k mutex_api \<Rightarrow> u32 \<Rightarrow> 'k world \<Rightarrow> 'k world run" where
  "prvInitialiseMutex mapi pxNewQueue w =
     (if pxNewQueue \<noteq> 0 then
        (let w = upd_queue (\<lambda>q. q\<lparr>xMutexHolder := 0, pcHead := queueQUEUE_IS_MUTEX, uxRecursiveCallCount := 0\<rparr>) w
         in then_run (xQueueGenericSend (task_ops mapi) NULL 0 queueSEND_TO_BACK w) (\<lambda>(_, w). returns w))
      else returns w)"

definition xQueueCreateMutex ::
    "heap_config \<Rightarrow> u32 \<Rightarrow> (u32 \<Rightarrow> u8) \<Rightarrow> 'k mutex_api \<Rightarrow> heap_4 \<Rightarrow> 'k world \<Rightarrow> ((u32 \<times> 'k world) \<times> heap_4) run" where
  "xQueueCreateMutex cfg sizeof_queue raw mapi h w =
     then_run (xQueueGenericCreate cfg sizeof_queue raw (task_ops mapi) 1 0 h w)
       (\<lambda>((xNewQueue, w), h). then_run (prvInitialiseMutex mapi xNewQueue w) (\<lambda>w. returns ((xNewQueue, w), h)))"

definition xQueueCreateCountingSemaphore ::
    "heap_config \<Rightarrow> u32 \<Rightarrow> (u32 \<Rightarrow> u8) \<Rightarrow> 'k task_api \<Rightarrow> u32 \<Rightarrow> u32 \<Rightarrow> heap_4 \<Rightarrow> 'k world \<Rightarrow> ((u32 \<times> 'k world) \<times> heap_4) run" where
  "xQueueCreateCountingSemaphore cfg sizeof_queue raw api uxMaxCount uxInitialCount h w =
     (if uxMaxCount \<noteq> 0 \<and> uxInitialCount \<le> uxMaxCount then
        then_run (xQueueGenericCreate cfg sizeof_queue raw api uxMaxCount 0 h w)
          (\<lambda>((xHandle, w), h).
             returns ((xHandle, if xHandle \<noteq> 0 then upd_queue (\<lambda>q. q\<lparr>uxMessagesWaiting := uxInitialCount\<rparr>) w else w), h))
      else Some undefined_behaviour)"

section \<open>The holder\<close>

definition xQueueGetMutexHolderFromISR :: "'k world \<Rightarrow> u32" where
  "xQueueGetMutexHolderFromISR w = (if pcHead (the_queue w) = queueQUEUE_IS_MUTEX then xMutexHolder (the_queue w) else 0)"

definition xQueueGetMutexHolder :: "'k task_api \<Rightarrow> 'k world \<Rightarrow> u32 \<times> 'k world" where
  "xQueueGetMutexHolder api w =
     (if pcHead (the_queue w) = queueQUEUE_IS_MUTEX then xMutexHolder (the_queue w) else 0, taskEXIT_CRITICAL api w)"

section \<open>Taking\<close>

text \<open>The highest priority of the tasks that wait for the mutex, from the value of the first item of the event list.\<close>

definition prvGetDisinheritPriorityAfterTimeout :: "'k mutex_api \<Rightarrow> 'k world \<Rightarrow> u32 exec" where
  "prvGetDisinheritPriorityAfterTimeout mapi w = do {
     l \<leftarrow> list_heads (event_lists w) (xTasksWaitingToReceive w);
     if uxNumberOfItems l > 0 then do {
       v \<leftarrow> listGET_ITEM_VALUE_OF_HEAD_ENTRY (xTasksWaitingToReceive w) (event_lists w);
       Some (configMAX_PRIORITIES mapi - v)
     } else Some 0
   }"

text \<open>The critical section of \<^verbatim>\<open>xQueueSemaphoreTake\<close> when the count is not zero.\<close>

definition take_semaphore :: "'k mutex_api \<Rightarrow> 'k world \<Rightarrow> 'k world exec" where
  "take_semaphore mapi w =
     (let w = upd_queue (\<lambda>q. q\<lparr>uxMessagesWaiting := uxMessagesWaiting q - 1\<rparr>) w;
          w = (if pcHead (the_queue w) = queueQUEUE_IS_MUTEX then
                 let (holder, w) = pvTaskIncrementMutexHeldCount mapi w in upd_queue (\<lambda>q. q\<lparr>xMutexHolder := holder\<rparr>) w
               else w)
      in unblock_one (task_ops mapi) xTasksWaitingToSend False w)"

text \<open>The wait. The last component says whether the holder has inherited the priority of the caller.\<close>

definition wait_to_take ::
    "'k mutex_api \<Rightarrow> u32 \<Rightarrow> TimeOut_t option \<Rightarrow> bool \<Rightarrow> 'k world \<Rightarrow> ((u32 \<times> TimeOut_t \<times> bool) option \<times> 'k world) exec" where
  "wait_to_take mapi xTicksToWait xTimeOut xInheritanceOccurred w =
     (let api = task_ops mapi;
          xTimeOut = (case xTimeOut of None \<Rightarrow> vTaskInternalSetTimeOutState w | Some t \<Rightarrow> t);
          w = taskEXIT_CRITICAL api w;
          w = vTaskSuspendAll api w;
          w = prvLockQueue api w;
          ((expired, xTimeOut, xTicksToWait), w) = xTaskCheckForTimeOut api xTimeOut xTicksToWait w
      in if \<not> expired then
           (let (empty, w) = prvIsQueueEmpty api w in
            if empty then do {
              let (xInheritanceOccurred, w) =
                (if pcHead (the_queue w) = queueQUEUE_IS_MUTEX then
                   let (occurred, w) = xTaskPriorityInherit mapi (xMutexHolder (the_queue w)) w in (occurred, taskEXIT_CRITICAL api w)
                 else (xInheritanceOccurred, w));
              let w = vTaskPlaceOnEventList api (xTasksWaitingToReceive w) xTicksToWait w;
              w \<leftarrow> prvUnlockQueue api w;
              let (yielded, w) = xTaskResumeAll api w;
              Some (Some (xTicksToWait, xTimeOut, xInheritanceOccurred), if \<not> yielded then taskYIELD_WITHIN_API api w else w)
            } else do {
              w \<leftarrow> prvUnlockQueue api w;
              Some (Some (xTicksToWait, xTimeOut, xInheritanceOccurred), snd (xTaskResumeAll api w))
            })
         else do {
           w \<leftarrow> prvUnlockQueue api w;
           let w = snd (xTaskResumeAll api w);
           let (empty, w) = prvIsQueueEmpty api w;
           if empty then do {
             w \<leftarrow> (if xInheritanceOccurred then do {
                     uxHighestWaitingPriority \<leftarrow> prvGetDisinheritPriorityAfterTimeout mapi w;
                     Some (taskEXIT_CRITICAL api
                       (vTaskPriorityDisinheritAfterTimeout mapi (xMutexHolder (the_queue w)) uxHighestWaitingPriority w))
                   } else Some w);
             Some (None, w)
           } else Some (Some (xTicksToWait, xTimeOut, xInheritanceOccurred), w)
         })"

partial_function (option) take_loop ::
    "'k mutex_api \<Rightarrow> u32 \<Rightarrow> TimeOut_t option \<Rightarrow> bool \<Rightarrow> 'k world \<Rightarrow> (bool \<times> 'k world) run" where
  "take_loop mapi xTicksToWait xTimeOut xInheritanceOccurred w =
     (if uxMessagesWaiting (the_queue w) > 0
      then Some (do { w \<leftarrow> take_semaphore mapi w; Some (True, taskEXIT_CRITICAL (task_ops mapi) w) })
      else if xTicksToWait = 0 then returns (False, taskEXIT_CRITICAL (task_ops mapi) w)
      else (case wait_to_take mapi xTicksToWait xTimeOut xInheritanceOccurred w of
              None \<Rightarrow> Some undefined_behaviour
            | Some (None, w) \<Rightarrow> returns (False, w)
            | Some (Some (ticks, t, inherited), w) \<Rightarrow> take_loop mapi ticks (Some t) inherited w))"

definition xQueueSemaphoreTake :: "'k mutex_api \<Rightarrow> u32 \<Rightarrow> 'k world \<Rightarrow> (bool \<times> 'k world) run" where
  "xQueueSemaphoreTake mapi xTicksToWait w =
     (if uxItemSize (the_queue w) = 0 \<and> \<not> (scheduler_suspended (task_ops mapi) w \<and> xTicksToWait \<noteq> 0)
      then take_loop mapi xTicksToWait None False w
      else Some undefined_behaviour)"

section \<open>Giving from an interrupt\<close>

definition xQueueGiveFromISR :: "'k task_api \<Rightarrow> 'k world \<Rightarrow> ((bool \<times> bool) \<times> 'k world) exec" where
  "xQueueGiveFromISR api w = do {
     _ \<leftarrow> config_assert (uxItemSize (the_queue w) = 0);
     _ \<leftarrow> config_assert (\<not> (pcHead (the_queue w) = queueQUEUE_IS_MUTEX \<and> xMutexHolder (the_queue w) \<noteq> 0));
     let waiting = uxMessagesWaiting (the_queue w);
     if waiting < uxLength (the_queue w) then do {
       let lock = cTxLock (the_queue w);
       let w = upd_queue (\<lambda>q. q\<lparr>uxMessagesWaiting := waiting + 1\<rparr>) w;
       if lock = queueUNLOCKED then do {
         empty \<leftarrow> listLIST_IS_EMPTY (xTasksWaitingToReceive w) (event_lists w);
         let (woken, w) = (if \<not> empty then xTaskRemoveFromEventList api (xTasksWaitingToReceive w) w else (False, w));
         Some ((True, woken), w)
       } else do {
         w \<leftarrow> prvIncrementQueueTxLock api lock w;
         Some ((True, False), w)
       }
     } else Some ((False, False), w)
   }"

section \<open>Recursive mutexes\<close>

definition xQueueGiveMutexRecursive :: "'k mutex_api \<Rightarrow> 'k world \<Rightarrow> (bool \<times> 'k world) run" where
  "xQueueGiveMutexRecursive mapi w =
     (if xMutexHolder (the_queue w) = xTaskGetCurrentTaskHandle mapi w then
        (let w = upd_queue (\<lambda>q. q\<lparr>uxRecursiveCallCount := uxRecursiveCallCount q - 1\<rparr>) w in
         if uxRecursiveCallCount (the_queue w) = 0
         then then_run (xQueueGenericSend (task_ops mapi) NULL queueMUTEX_GIVE_BLOCK_TIME queueSEND_TO_BACK w) (\<lambda>(_, w). returns (True, w))
         else returns (True, w))
      else returns (False, w))"

definition xQueueTakeMutexRecursive :: "'k mutex_api \<Rightarrow> u32 \<Rightarrow> 'k world \<Rightarrow> (bool \<times> 'k world) run" where
  "xQueueTakeMutexRecursive mapi xTicksToWait w =
     (if xMutexHolder (the_queue w) = xTaskGetCurrentTaskHandle mapi w then
        returns (True, upd_queue (\<lambda>q. q\<lparr>uxRecursiveCallCount := uxRecursiveCallCount q + 1\<rparr>) w)
      else
        then_run (xQueueSemaphoreTake mapi xTicksToWait w)
          (\<lambda>(xReturn, w).
             returns (xReturn, if xReturn then upd_queue (\<lambda>q. q\<lparr>uxRecursiveCallCount := uxRecursiveCallCount q + 1\<rparr>) w else w)))"

section \<open>The macros of the interface\<close>

definition xSemaphoreCreateBinary ::
    "heap_config \<Rightarrow> u32 \<Rightarrow> (u32 \<Rightarrow> u8) \<Rightarrow> 'k task_api \<Rightarrow> heap_4 \<Rightarrow> 'k world \<Rightarrow> ((u32 \<times> 'k world) \<times> heap_4) run" where
  "xSemaphoreCreateBinary cfg sizeof_queue raw api h w = xQueueGenericCreate cfg sizeof_queue raw api 1 0 h w"

definition xSemaphoreGive :: "'k task_api \<Rightarrow> 'k world \<Rightarrow> (bool \<times> 'k world) run" where
  "xSemaphoreGive api w = xQueueGenericSend api NULL 0 queueSEND_TO_BACK w"

end
