(* ===== verification/Semaphore_Correct.thy ===== *)
theory Semaphore_Correct
  imports Queue_Correct FreeRTOS_Semaphore
begin

text \<open>
  What semaphores and mutexes guarantee. A counting semaphore is a bounded queue of tokens and a mutex a queue of at
  most one holder: both are interpretations of the locale \<open>fifo\<close>. The steps of a semaphore are the critical sections of the tasks and the calls of interrupts, those of
  a mutex the calls of tasks that do not wait, with switches of the running task in between; so the count is always what was given less what was taken, and every task that takes a mutex is the
  one that gives it back before the next. Recursive takes and gives are followed through their waits, with what is relied on of the other tasks as
  a hypothesis that their own steps are shown to fulfil.
\<close>

section \<open>Semaphores\<close>

definition semaphore_rep :: "'k mutex_api \<Rightarrow> nat \<Rightarrow> 'k world \<Rightarrow> unit list \<Rightarrow> bool" where
  "semaphore_rep mapi n w xs \<longleftrightarrow> kernel_ok (task_ops mapi) \<and> lists_ok w \<and> uxItemSize (the_queue w) = 0 \<and> pcHead (the_queue w) \<noteq> queueQUEUE_IS_MUTEX \<and>
     unat (uxLength (the_queue w)) = n \<and> unat (uxMessagesWaiting (the_queue w)) = length xs \<and> length xs \<le> n"

text \<open>The steps: a give of a task or an interrupt, a take of a task or an interrupt, and calls that fail and
  changes of the lock counters.\<close>

definition semaphore_give :: "'k mutex_api \<Rightarrow> unit \<Rightarrow> 'k world \<Rightarrow> 'k world \<Rightarrow> bool" where
  "semaphore_give mapi x w w' \<longleftrightarrow>
     uxMessagesWaiting (the_queue w) < uxLength (the_queue w) \<and> send_item (task_ops mapi) [] queueSEND_TO_BACK w = Some w' \<or>
     (\<exists>woken. xQueueGiveFromISR (task_ops mapi) w = Some ((True, woken), w'))"

definition semaphore_take :: "'k mutex_api \<Rightarrow> 'k world \<Rightarrow> unit \<Rightarrow> 'k world \<Rightarrow> bool" where
  "semaphore_take mapi w x w' \<longleftrightarrow>
     uxMessagesWaiting (the_queue w) > 0 \<and> take_semaphore mapi w = Some w' \<or>
     (\<exists>b woken. xQueueReceiveFromISR (task_ops mapi) True w = Some ((Some b, woken), w'))"

definition semaphore_other :: "'k mutex_api \<Rightarrow> 'k world \<Rightarrow> 'k world \<Rightarrow> bool" where
  "semaphore_other mapi w w' \<longleftrightarrow>
     (\<exists>woken. xQueueReceiveFromISR (task_ops mapi) True w = Some ((None, woken), w')) \<or>
     (\<exists>woken. xQueueGiveFromISR (task_ops mapi) w = Some ((False, woken), w')) \<or>
     (\<exists>lock. w' = upd_queue (\<lambda>q. q\<lparr>cTxLock := lock\<rparr>) w \<or> w' = upd_queue (\<lambda>q. q\<lparr>cRxLock := lock\<rparr>) w)"

text \<open>What a change of the state leaves of the queue: everything but the lock counters.\<close>

definition same_semaphore :: "'k world \<Rightarrow> 'k world \<Rightarrow> bool" where
  "same_semaphore w w' \<longleftrightarrow> lists_ok w' \<and> (the_queue w')\<lparr>cTxLock := 0, cRxLock := 0\<rparr> = (the_queue w)\<lparr>cTxLock := 0, cRxLock := 0\<rparr>"

lemma same_semaphore_intros [simp, intro]:
  "lists_ok w \<Longrightarrow> same_semaphore w w"
  "lists_ok w' \<Longrightarrow> the_queue w' = the_queue w \<Longrightarrow> same_semaphore w w'"
  "lists_ok w \<Longrightarrow> same_semaphore w (upd_queue (\<lambda>q. q\<lparr>cTxLock := a\<rparr>) w)"
  "lists_ok w \<Longrightarrow> same_semaphore w (upd_queue (\<lambda>q. q\<lparr>cRxLock := a\<rparr>) w)"
  by (simp_all add: same_semaphore_def upd_queue_def)

lemma same_semaphoreD:
  assumes "same_semaphore w w'"
  shows "lists_ok w'" and "uxItemSize (the_queue w') = uxItemSize (the_queue w)" and "uxLength (the_queue w') = uxLength (the_queue w)"
    and "uxMessagesWaiting (the_queue w') = uxMessagesWaiting (the_queue w)" and "pcHead (the_queue w') = pcHead (the_queue w)"
    and "xMutexHolder (the_queue w') = xMutexHolder (the_queue w)" and "uxRecursiveCallCount (the_queue w') = uxRecursiveCallCount (the_queue w)"
proof -
  have eq: "(the_queue w')\<lparr>cTxLock := 0, cRxLock := 0\<rparr> = (the_queue w)\<lparr>cTxLock := 0, cRxLock := 0\<rparr>" using assms by (simp add: same_semaphore_def)
  show "lists_ok w'" using assms by (simp add: same_semaphore_def)
  show "uxItemSize (the_queue w') = uxItemSize (the_queue w)" "uxLength (the_queue w') = uxLength (the_queue w)"
    "uxMessagesWaiting (the_queue w') = uxMessagesWaiting (the_queue w)" "pcHead (the_queue w') = pcHead (the_queue w)"
    "xMutexHolder (the_queue w') = xMutexHolder (the_queue w)" "uxRecursiveCallCount (the_queue w') = uxRecursiveCallCount (the_queue w)"
    using arg_cong [OF eq, of uxItemSize] arg_cong [OF eq, of uxLength] arg_cong [OF eq, of uxMessagesWaiting] arg_cong [OF eq, of pcHead]
      arg_cong [OF eq, of xMutexHolder] arg_cong [OF eq, of uxRecursiveCallCount] by simp_all
qed

lemma lists_ok_upd [simp]: "lists_ok (upd_queue f w) = lists_ok w"
  by (simp add: upd_queue_def)

lemma wake_step:
  assumes "kernel_ok api" and "lists_ok w" and "waiting = xTasksWaitingToSend \<or> waiting = xTasksWaitingToReceive"
  shows "\<exists>b. listLIST_IS_EMPTY (waiting w) (event_lists w) = Some b \<and>
    same_semaphore w (snd (if \<not> b then xTaskRemoveFromEventList api (waiting w) w else (False, w)))"
  using is_empty_returns [OF assms(2,3)] assms by (auto simp: kernel_ok_def)

lemma unblock_step:
  assumes "kernel_ok api" and "lists_ok w" and "waiting = xTasksWaitingToSend \<or> waiting = xTasksWaitingToReceive"
  shows "\<exists>w'. unblock_one api waiting y w = Some w' \<and> same_semaphore w w'"
  using unblock_one_ok [OF assms] by auto

lemma increment_steps:
  assumes "kernel_ok api" and "lists_ok w"
  shows "\<exists>w'. prvIncrementQueueTxLock api lock w = Some w' \<and> same_semaphore w w'"
    and "\<exists>w'. prvIncrementQueueRxLock api lock w = Some w' \<and> same_semaphore w w'"
  using assms lock_below [OF assms(1), of lock w]
  by (auto simp: prvIncrementQueueTxLock_def prvIncrementQueueRxLock_def config_assert_def)

text \<open>One call of an interrupt.\<close>

lemma give_isr:
  assumes "kernel_ok api" and "lists_ok w" and "uxItemSize (the_queue w) = 0" and "pcHead (the_queue w) \<noteq> queueQUEUE_IS_MUTEX"
  shows "if uxMessagesWaiting (the_queue w) < uxLength (the_queue w)
    then \<exists>woken w'. xQueueGiveFromISR api w = Some ((True, woken), w') \<and>
      same_semaphore (upd_queue (\<lambda>q. q\<lparr>uxMessagesWaiting := uxMessagesWaiting q + 1\<rparr>) w) w'
    else xQueueGiveFromISR api w = Some ((False, False), w)"
proof -
  let ?w = "upd_queue (\<lambda>q. q\<lparr>uxMessagesWaiting := uxMessagesWaiting (the_queue w) + 1\<rparr>) w"
  have eq: "?w = upd_queue (\<lambda>q. q\<lparr>uxMessagesWaiting := uxMessagesWaiting q + 1\<rparr>) w" by (simp add: upd_queue_def)
  have ok: "lists_ok ?w" using assms(2) by simp
  show ?thesis
    using assms(3,4) wake_step [OF assms(1) ok, of xTasksWaitingToReceive] increment_steps(1) [OF assms(1) ok, of "cTxLock (the_queue w)"]
    by (cases "cTxLock (the_queue w) = queueUNLOCKED") (auto simp: xQueueGiveFromISR_def config_assert_def Let_def eq split_beta)
qed

lemma take_isr:
  assumes "kernel_ok api" and "lists_ok w" and "uxItemSize (the_queue w) = 0"
  shows "if uxMessagesWaiting (the_queue w) > 0
    then \<exists>woken w'. xQueueReceiveFromISR api True w = Some ((Some [], woken), w') \<and>
      same_semaphore (upd_queue (\<lambda>q. q\<lparr>uxMessagesWaiting := uxMessagesWaiting q - 1\<rparr>) w) w'
    else xQueueReceiveFromISR api True w = Some ((None, False), w)"
proof -
  let ?w = "w\<lparr>the_queue := (the_queue w)\<lparr>uxMessagesWaiting := uxMessagesWaiting (the_queue w) - 1\<rparr>\<rparr>"
  have eq: "?w = upd_queue (\<lambda>q. q\<lparr>uxMessagesWaiting := uxMessagesWaiting q - 1\<rparr>) w" by (simp add: upd_queue_def)
  have ok: "lists_ok ?w" using assms(2) by simp
  show ?thesis
    using assms(3) wake_step [OF assms(1) ok, of xTasksWaitingToSend] increment_steps(2) [OF assms(1) ok, of "cRxLock (the_queue w)"]
    by (cases "cRxLock (the_queue w) = queueUNLOCKED") (auto simp: xQueueReceiveFromISR_def prvCopyDataFromQueue_def config_assert_def Let_def eq [symmetric] split_beta)
qed

text \<open>One critical section of a task.\<close>

lemma give_task:
  assumes "kernel_ok api" and "lists_ok w" and "uxItemSize (the_queue w) = 0" and "pcHead (the_queue w) \<noteq> queueQUEUE_IS_MUTEX"
  shows "\<exists>w'. send_item api [] queueSEND_TO_BACK w = Some w' \<and>
    same_semaphore (upd_queue (\<lambda>q. q\<lparr>uxMessagesWaiting := uxMessagesWaiting q + 1\<rparr>) w) w'"
proof -
  have "upd_queue (\<lambda>q. q\<lparr>uxMessagesWaiting := uxMessagesWaiting (the_queue w) + 1\<rparr>) w = upd_queue (\<lambda>q. q\<lparr>uxMessagesWaiting := uxMessagesWaiting q + 1\<rparr>) w"
    by (simp add: upd_queue_def)
  then show ?thesis
    using assms unblock_step [OF assms(1), of "upd_queue (\<lambda>q. q\<lparr>uxMessagesWaiting := uxMessagesWaiting q + 1\<rparr>) w" xTasksWaitingToReceive False]
    by (simp add: send_item_def prvCopyDataToQueue_def queueQUEUE_IS_MUTEX_def)
qed

lemma take_task:
  assumes "kernel_ok (task_ops mapi)" and "lists_ok w" and "pcHead (the_queue w) \<noteq> queueQUEUE_IS_MUTEX"
  shows "\<exists>w'. take_semaphore mapi w = Some w' \<and>
    same_semaphore (upd_queue (\<lambda>q. q\<lparr>uxMessagesWaiting := uxMessagesWaiting q - 1\<rparr>) w) w'"
  using assms unblock_step [OF assms(1), of "upd_queue (\<lambda>q. q\<lparr>uxMessagesWaiting := uxMessagesWaiting q - 1\<rparr>) w" xTasksWaitingToSend False]
  by (simp add: take_semaphore_def upd_queue_def)

lemma semaphore_repD:
  assumes "semaphore_rep mapi n w xs"
  shows "kernel_ok (task_ops mapi)" and "lists_ok w" and "uxItemSize (the_queue w) = 0" and "pcHead (the_queue w) \<noteq> queueQUEUE_IS_MUTEX"
    and "uxMessagesWaiting (the_queue w) < uxLength (the_queue w) \<longleftrightarrow> length xs < n" and "uxMessagesWaiting (the_queue w) > 0 \<longleftrightarrow> xs \<noteq> []"
  using assms by (auto simp: semaphore_rep_def word_less_nat_alt)

lemma semaphore_rep_same:
  assumes "semaphore_rep mapi n w xs" and "same_semaphore w w'"
  shows "semaphore_rep mapi n w' xs"
  using assms(1) same_semaphoreD [OF assms(2)] by (simp add: semaphore_rep_def)

lemma semaphore_rep_up:
  assumes "semaphore_rep mapi n w xs" and "length xs < n"
  shows "semaphore_rep mapi n (upd_queue (\<lambda>q. q\<lparr>uxMessagesWaiting := uxMessagesWaiting q + 1\<rparr>) w) (xs @ [x])"
proof -
  have "unat (uxMessagesWaiting (the_queue w) + 1) = length xs + 1"
    using assms unat_u32_bound [of "uxLength (the_queue w)"] unat_add_no_wrap [of "uxMessagesWaiting (the_queue w)" 1]
    by (simp add: semaphore_rep_def)
  then show ?thesis using assms by (simp add: semaphore_rep_def upd_queue_def)
qed

lemma semaphore_rep_down:
  assumes "semaphore_rep mapi n w xs" and "xs \<noteq> []"
  shows "semaphore_rep mapi n (upd_queue (\<lambda>q. q\<lparr>uxMessagesWaiting := uxMessagesWaiting q - 1\<rparr>) w) (tl xs)"
proof -
  have "uxMessagesWaiting (the_queue w) \<noteq> 0" using semaphore_repD(6) [OF assms(1)] assms(2) by auto
  then have "unat (uxMessagesWaiting (the_queue w) - 1) = length xs - 1"
    using assms(1) by (simp add: semaphore_rep_def unat_minus_one)
  then show ?thesis using assms by (simp add: semaphore_rep_def upd_queue_def less_imp_diff_less le_diff_conv)
qed

lemma semaphore_give_ok:
  assumes "semaphore_rep mapi n w xs" and "semaphore_give mapi x w w'"
  shows "semaphore_rep mapi n w' (xs @ [x])"
proof -
  note r = semaphore_repD [OF assms(1)]
  have "length xs < n \<and> same_semaphore (upd_queue (\<lambda>q. q\<lparr>uxMessagesWaiting := uxMessagesWaiting q + 1\<rparr>) w) w'"
    using assms(2) r(5) give_isr [OF r(1-4)] give_task [OF r(1-4)] by (auto simp: semaphore_give_def split: if_splits)
  then show ?thesis using semaphore_rep_same [OF semaphore_rep_up [OF assms(1)]] by blast
qed

lemma semaphore_take_ok:
  assumes "semaphore_rep mapi n w xs" and "semaphore_take mapi w x w'"
  shows "xs \<noteq> [] \<and> x = hd xs \<and> semaphore_rep mapi n w' (tl xs)"
proof -
  note r = semaphore_repD [OF assms(1)]
  have "xs \<noteq> [] \<and> same_semaphore (upd_queue (\<lambda>q. q\<lparr>uxMessagesWaiting := uxMessagesWaiting q - 1\<rparr>) w) w'"
    using assms(2) r(6) take_isr [OF r(1-3)] take_task [OF r(1,2,4)] by (auto simp: semaphore_take_def split: if_splits)
  then show ?thesis using semaphore_rep_same [OF semaphore_rep_down [OF assms(1)]] by auto
qed

lemma semaphore_other_ok:
  assumes "semaphore_rep mapi n w xs" and "semaphore_other mapi w w'"
  shows "semaphore_rep mapi n w' xs"
proof -
  note r = semaphore_repD [OF assms(1)]
  have "same_semaphore w w'"
    using assms(2) r(2) give_isr [OF r(1-4)] take_isr [OF r(1-3)] by (auto simp: semaphore_other_def split: if_splits)
  then show ?thesis by (rule semaphore_rep_same [OF assms(1)])
qed

interpretation semaphore: fifo "semaphore_rep mapi n" "\<lambda>_ _. True" "\<lambda>_ _. True" n "semaphore_give mapi" "semaphore_take mapi" "semaphore_other mapi"
  for mapi n
proof (unfold_locales, erule (1) semaphore_give_ok, erule (1) semaphore_take_ok, erule (1) semaphore_other_ok)
  fix w xs and x :: unit
  assume ok: "semaphore_rep mapi n w xs" and "length xs < n"
  then show "\<exists>q'. semaphore_give mapi x w q'"
    using give_task [OF semaphore_repD(1-4) [OF ok]] semaphore_repD(5) [OF ok] by (auto simp: semaphore_give_def)
next
  fix w xs
  assume ok: "semaphore_rep mapi n w xs" and "xs \<noteq> []"
  then show "\<exists>q'. semaphore_take mapi w (hd xs) q'"
    using take_task [OF semaphore_repD(1,2,4) [OF ok]] semaphore_repD(6) [OF ok] by (auto simp: semaphore_take_def)
qed (simp add: semaphore_rep_def)

section \<open>Mutexes\<close>

text \<open>A mutex and its holder, 0 when it is free.\<close>

definition mutex_rep :: "u32 \<Rightarrow> 'k world \<Rightarrow> bool" where
  "mutex_rep t w \<longleftrightarrow> lists_ok w \<and> uxItemSize (the_queue w) = 0 \<and> pcHead (the_queue w) = queueQUEUE_IS_MUTEX \<and>
     uxLength (the_queue w) = 1 \<and> uxMessagesWaiting (the_queue w) = (if t = 0 then 1 else 0) \<and>
     xMutexHolder (the_queue w) = t \<and> (t = 0 \<longrightarrow> uxRecursiveCallCount (the_queue w) = 0)"

text \<open>The waiting tasks are a list in the store, so that its first item can be read.\<close>

definition waiters_ok :: "'k world \<Rightarrow> bool" where
  "waiters_ok w \<longleftrightarrow> (\<exists>xs. list_rep (xTasksWaitingToReceive w) xs (event_lists w))"

text \<open>What is relied on of the scheduler inside a critical section: the handle that the count of held mutexes returns is the one of the running task, which is
  not null, and neither the count, the change of a priority, a task that is woken nor a request to yield touches the data of
  the mutex or changes the running task.\<close>

definition same_task :: "'k mutex_api \<Rightarrow> 'k world \<Rightarrow> 'k world \<Rightarrow> bool" where
  "same_task mapi w w' \<longleftrightarrow> the_queue w' = the_queue w \<and> (lists_ok w \<longrightarrow> lists_ok w') \<and> (waiters_ok w \<longrightarrow> waiters_ok w') \<and>
     xTaskGetCurrentTaskHandle mapi w' = xTaskGetCurrentTaskHandle mapi w"

definition mutex_kernel_ok :: "'k mutex_api \<Rightarrow> bool" where
  "mutex_kernel_ok mapi \<longleftrightarrow> kernel_ok (task_ops mapi) \<and>
     (\<forall>w. lists_ok w \<longrightarrow> fst (pvTaskIncrementMutexHeldCount mapi w) = xTaskGetCurrentTaskHandle mapi w \<and> xTaskGetCurrentTaskHandle mapi w \<noteq> 0 \<and>
        same_task mapi w (snd (pvTaskIncrementMutexHeldCount mapi w)) \<and> same_task mapi w (queueYIELD_IF_USING_PREEMPTION (task_ops mapi) w) \<and>
        (\<forall>t. same_task mapi w (snd (xTaskPriorityDisinherit (task_ops mapi) t w))) \<and>
        (\<forall>l \<in> {xTasksWaitingToSend w, xTasksWaitingToReceive w}. same_task mapi w (snd (xTaskRemoveFromEventList (task_ops mapi) l w)))) \<and>
     (\<forall>f w. xTaskGetCurrentTaskHandle mapi (upd_queue f w) = xTaskGetCurrentTaskHandle mapi w)"

lemma waiters_ok_upd [simp]: "waiters_ok (upd_queue f w) = waiters_ok w"
  by (simp add: waiters_ok_def upd_queue_def xTasksWaitingToReceive_def)

lemma same_task_trans: "same_task mapi w w' \<Longrightarrow> same_task mapi w' w'' \<Longrightarrow> same_task mapi w w''"
  by (simp add: same_task_def)

lemma unblock_same_task:
  assumes "mutex_kernel_ok mapi" and "lists_ok w" and "waiting = xTasksWaitingToSend \<or> waiting = xTasksWaitingToReceive"
  shows "\<exists>w'. unblock_one (task_ops mapi) waiting y w = Some w' \<and> same_task mapi w w'"
proof -
  obtain b where b: "listLIST_IS_EMPTY (waiting w) (event_lists w) = Some b" using is_empty_returns [OF assms(2,3)] by blast
  define w1 where "w1 = snd (xTaskRemoveFromEventList (task_ops mapi) (waiting w) w)"
  have "same_task mapi w w1" using assms by (auto simp: mutex_kernel_ok_def w1_def)
  moreover have "same_task mapi w1 (queueYIELD_IF_USING_PREEMPTION (task_ops mapi) w1)"
    using assms(1,2) calculation by (simp add: mutex_kernel_ok_def same_task_def)
  moreover have "same_task mapi w (queueYIELD_IF_USING_PREEMPTION (task_ops mapi) w)" "same_task mapi w w"
    using assms(1,2) by (simp_all add: mutex_kernel_ok_def same_task_def)
  ultimately show ?thesis
    using b same_task_trans [of mapi w w1] by (auto simp: unblock_one_def split_beta Let_def w1_def [symmetric])
qed

lemma mutex_rep_task: "mutex_rep t w \<Longrightarrow> same_task mapi w w' \<Longrightarrow> mutex_rep t w'"
  by (simp add: mutex_rep_def same_task_def)

lemma mutex_take:
  assumes "mutex_kernel_ok mapi" and "mutex_rep 0 w"
  shows "\<exists>w'. take_semaphore mapi w = Some w' \<and> mutex_rep (xTaskGetCurrentTaskHandle mapi w) w' \<and> uxRecursiveCallCount (the_queue w') = 0 \<and>
    xTaskGetCurrentTaskHandle mapi w' = xTaskGetCurrentTaskHandle mapi w \<and> (waiters_ok w \<longrightarrow> waiters_ok w')"
proof -
  let ?t = "xTaskGetCurrentTaskHandle mapi w"
  define w0 where "w0 = upd_queue (\<lambda>q. q\<lparr>uxMessagesWaiting := uxMessagesWaiting q - 1\<rparr>) w"
  define w1 where "w1 = upd_queue (\<lambda>q. q\<lparr>xMutexHolder := ?t\<rparr>) (snd (pvTaskIncrementMutexHeldCount mapi w0))"
  have cur: "xTaskGetCurrentTaskHandle mapi w0 = ?t" "lists_ok w0" "waiters_ok w0 = waiters_ok w"
    using assms by (simp_all add: mutex_kernel_ok_def mutex_rep_def w0_def)
  have k: "fst (pvTaskIncrementMutexHeldCount mapi w0) = ?t" "?t \<noteq> 0" "same_task mapi w0 (snd (pvTaskIncrementMutexHeldCount mapi w0))"
    using assms cur by (simp_all add: mutex_kernel_ok_def mutex_rep_def)
  have rep: "mutex_rep ?t w1" "uxRecursiveCallCount (the_queue w1) = 0"
    using k cur assms(2) by (simp_all add: w1_def mutex_rep_def same_task_def upd_queue_def w0_def)
  obtain w' where w': "unblock_one (task_ops mapi) xTasksWaitingToSend False w1 = Some w'" "same_task mapi w1 w'"
    using unblock_same_task [OF assms(1), of w1 xTasksWaitingToSend False] rep(1) unfolding mutex_rep_def by blast
  have "pcHead (the_queue w0) = queueQUEUE_IS_MUTEX" using assms(2) by (simp add: w0_def upd_queue_def mutex_rep_def)
  then have "take_semaphore mapi w = unblock_one (task_ops mapi) xTasksWaitingToSend False w1"
    by (simp add: take_semaphore_def w0_def [symmetric] w1_def split_beta k(1))
  moreover have "xTaskGetCurrentTaskHandle mapi w' = ?t" "waiters_ok w \<longrightarrow> waiters_ok w'"
    using w'(2) k(3) cur assms(1) by (simp_all add: same_task_def w1_def mutex_kernel_ok_def)
  ultimately show ?thesis using w' rep mutex_rep_task [OF rep(1) w'(2)] by (auto simp: same_task_def)
qed

lemma mutex_give:
  assumes "mutex_kernel_ok mapi" and "mutex_rep t w" and "t \<noteq> 0" and "uxRecursiveCallCount (the_queue w) = 0"
  shows "\<exists>w'. send_item (task_ops mapi) [] queueSEND_TO_BACK w = Some w' \<and> mutex_rep 0 w' \<and>
    xTaskGetCurrentTaskHandle mapi w' = xTaskGetCurrentTaskHandle mapi w \<and> (waiters_ok w \<longrightarrow> waiters_ok w')"
proof -
  define d where "d = xTaskPriorityDisinherit (task_ops mapi) t w"
  define w1 where "w1 = upd_queue (\<lambda>q. q\<lparr>uxMessagesWaiting := uxMessagesWaiting (the_queue w) + 1\<rparr>) (upd_queue (\<lambda>q. q\<lparr>xMutexHolder := 0\<rparr>) (snd d))"
  have k: "same_task mapi w (snd d)" using assms(1,2) by (simp add: mutex_kernel_ok_def mutex_rep_def d_def)
  have rep: "mutex_rep 0 w1" using k assms(2-4) by (simp add: w1_def mutex_rep_def upd_queue_def same_task_def)
  obtain w' where w': "unblock_one (task_ops mapi) xTasksWaitingToReceive (fst d) w1 = Some w'" "same_task mapi w1 w'"
    using unblock_same_task [OF assms(1), of w1 xTasksWaitingToReceive "fst d"] rep unfolding mutex_rep_def by blast
  have "send_item (task_ops mapi) [] queueSEND_TO_BACK w = unblock_one (task_ops mapi) xTasksWaitingToReceive (fst d) w1"
    using assms(2,3) by (simp add: send_item_def prvCopyDataToQueue_def mutex_rep_def queueQUEUE_IS_MUTEX_def d_def w1_def split_beta Let_def)
  moreover have "xTaskGetCurrentTaskHandle mapi w' = xTaskGetCurrentTaskHandle mapi w" "waiters_ok w \<longrightarrow> waiters_ok w'"
    using w'(2) k assms(1) by (simp_all add: same_task_def w1_def mutex_kernel_ok_def)
  ultimately show ?thesis using w' rep mutex_rep_task [OF rep w'(2)] by auto
qed

text \<open>The steps of the tasks are calls that do not wait, where what others do when a critical section is left is a step of its own. A
  call that waits consists of such an attempt in every round, of which all but the last fail, and of what others do in between. The running task takes
  the mutex, or it gives it back as its holder; a plain give is for a holder without nested takes, which the code asserts when
  the priority is restored. Everything else leaves the holder: nested calls, calls that fail, changes of the lock
  counters, and whatever the kernel and the other tasks do without touching the data of the mutex, a switch to another
  task above all.\<close>

definition alone :: "'k mutex_api \<Rightarrow> 'k mutex_api" where
  "alone mapi = mapi\<lparr>task_ops := (task_ops mapi)\<lparr>taskEXIT_CRITICAL := \<lambda>w. w\<rparr>\<rparr>"

definition mutex_acquire :: "'k mutex_api \<Rightarrow> u32 \<Rightarrow> 'k world \<Rightarrow> 'k world \<Rightarrow> bool" where
  "mutex_acquire mapi t w w' \<longleftrightarrow> t = xTaskGetCurrentTaskHandle mapi w \<and>
     (xQueueSemaphoreTake (alone mapi) 0 w = returns (True, w') \<or>
      xMutexHolder (the_queue w) \<noteq> t \<and> xQueueTakeMutexRecursive (alone mapi) 0 w = returns (True, w'))"

definition mutex_release :: "'k mutex_api \<Rightarrow> 'k world \<Rightarrow> u32 \<Rightarrow> 'k world \<Rightarrow> bool" where
  "mutex_release mapi w t w' \<longleftrightarrow> t = xTaskGetCurrentTaskHandle mapi w \<and>
     (xMutexHolder (the_queue w) = t \<and> uxRecursiveCallCount (the_queue w) = 0 \<and> xSemaphoreGive (task_ops (alone mapi)) w = returns (True, w') \<or>
      xQueueGiveMutexRecursive (alone mapi) w = returns (True, w') \<and> xMutexHolder (the_queue w') \<noteq> t)"

definition mutex_other :: "'k mutex_api \<Rightarrow> 'k world \<Rightarrow> 'k world \<Rightarrow> bool" where
  "mutex_other mapi w w' \<longleftrightarrow>
     xMutexHolder (the_queue w) = xTaskGetCurrentTaskHandle mapi w \<and> xQueueTakeMutexRecursive (alone mapi) 0 w = returns (True, w') \<or>
     xQueueGiveMutexRecursive (alone mapi) w = returns (True, w') \<and> xMutexHolder (the_queue w') = xTaskGetCurrentTaskHandle mapi w \<or>
     xQueueSemaphoreTake (alone mapi) 0 w = returns (False, w') \<or> xQueueTakeMutexRecursive (alone mapi) 0 w = returns (False, w') \<or>
     xSemaphoreGive (task_ops (alone mapi)) w = returns (False, w') \<or> xQueueGiveMutexRecursive (alone mapi) w = returns (False, w') \<or>
     (\<exists>lock. w' = upd_queue (\<lambda>q. q\<lparr>cTxLock := lock\<rparr>) w \<or> w' = upd_queue (\<lambda>q. q\<lparr>cRxLock := lock\<rparr>) w) \<or>
     the_queue w' = the_queue w \<and> lists_ok w'"

definition holders :: "'k mutex_api \<Rightarrow> 'k world \<Rightarrow> u32 list \<Rightarrow> bool" where
  "holders mapi w xs \<longleftrightarrow> mutex_kernel_ok mapi \<and> (\<exists>t. mutex_rep t w \<and> xs = (if t = 0 then [] else [t]))"

lemma alone_simps [simp]:
  "xTaskGetCurrentTaskHandle (alone mapi) = xTaskGetCurrentTaskHandle mapi" "taskEXIT_CRITICAL (task_ops (alone mapi)) = (\<lambda>w. w)"
  "scheduler_suspended (task_ops (alone mapi)) = scheduler_suspended (task_ops mapi)" "mutex_kernel_ok (alone mapi) = mutex_kernel_ok mapi"
  by (simp_all add: alone_def mutex_kernel_ok_def kernel_ok_def same_task_def)

lemma mutex_rep_locks [simp]:
  "mutex_rep t (upd_queue (\<lambda>q. q\<lparr>cTxLock := a\<rparr>) w) = mutex_rep t w" "mutex_rep t (upd_queue (\<lambda>q. q\<lparr>cRxLock := a\<rparr>) w) = mutex_rep t w"
  by (simp_all add: mutex_rep_def upd_queue_def)

text \<open>A take that does not wait.\<close>

lemma take_now:
  assumes "mutex_kernel_ok mapi" and "mutex_rep h w"
  shows "\<exists>w'. xQueueSemaphoreTake (alone mapi) 0 w = returns (h = 0, w') \<and> mutex_rep (if h = 0 then xTaskGetCurrentTaskHandle mapi w else h) w' \<and>
    (h = 0 \<longrightarrow> uxRecursiveCallCount (the_queue w') = 0 \<and> xTaskGetCurrentTaskHandle mapi w' = xTaskGetCurrentTaskHandle mapi w)"
proof (cases "h = 0")
  case True
  obtain w' where "take_semaphore (alone mapi) w = Some w'" "mutex_rep (xTaskGetCurrentTaskHandle mapi w) w'" "uxRecursiveCallCount (the_queue w') = 0"
      "xTaskGetCurrentTaskHandle mapi w' = xTaskGetCurrentTaskHandle mapi w"
    using mutex_take [of "alone mapi" w] assms True by auto
  then show ?thesis
    using assms(2) True by (simp add: xQueueSemaphoreTake_def take_loop.simps mutex_rep_def)
next
  case False
  then show ?thesis
    using assms(2) by (simp add: xQueueSemaphoreTake_def take_loop.simps mutex_rep_def)
qed

lemma nesting_rep:
  assumes "t \<noteq> 0" and "mutex_rep t w"
  shows "mutex_rep t (upd_queue (\<lambda>q. q\<lparr>uxRecursiveCallCount := uxRecursiveCallCount q + 1\<rparr>) w)"
    and "mutex_rep t (upd_queue (\<lambda>q. q\<lparr>uxRecursiveCallCount := uxRecursiveCallCount q - 1\<rparr>) w)"
  using assms by (simp_all add: mutex_rep_def) (simp_all add: upd_queue_def)

lemma take_recursive_now:
  assumes "mutex_kernel_ok mapi" and "mutex_rep h w"
  shows "\<exists>w' ok. xQueueTakeMutexRecursive (alone mapi) 0 w = returns (ok, w') \<and> (ok \<longleftrightarrow> h = 0 \<or> h = xTaskGetCurrentTaskHandle mapi w) \<and>
    mutex_rep (if ok then xTaskGetCurrentTaskHandle mapi w else h) w'"
proof -
  have cur: "xTaskGetCurrentTaskHandle mapi w \<noteq> 0" "xMutexHolder (the_queue w) = h" using assms by (auto simp: mutex_kernel_ok_def mutex_rep_def)
  then show ?thesis
    using take_now [OF assms] assms(2) nesting_rep(1) [OF cur(1)] by (auto simp: xQueueTakeMutexRecursive_def)
qed

text \<open>A give, which never waits for a mutex.\<close>

lemma give_now:
  assumes "mutex_kernel_ok mapi" and "mutex_rep h w" and "h \<noteq> 0 \<longrightarrow> uxRecursiveCallCount (the_queue w) = 0"
  shows "\<exists>w'. xSemaphoreGive (task_ops (alone mapi)) w = returns (h \<noteq> 0, w') \<and> mutex_rep 0 w'"
proof (cases "h = 0")
  case True
  then show ?thesis
    using assms(2) by (simp add: xSemaphoreGive_def xQueueGenericSend_def send_loop.simps mutex_rep_def)
next
  case False
  obtain w' where "send_item (task_ops (alone mapi)) [] queueSEND_TO_BACK w = Some w'" "mutex_rep 0 w'"
    using mutex_give [of "alone mapi" h w] assms False by auto
  then show ?thesis
    using assms(2) False by (simp add: xSemaphoreGive_def xQueueGenericSend_def send_loop.simps mutex_rep_def)
qed

lemma give_recursive_now:
  assumes "mutex_kernel_ok mapi" and "mutex_rep h w"
  shows "\<exists>w'. xQueueGiveMutexRecursive (alone mapi) w = returns (h = xTaskGetCurrentTaskHandle mapi w, w') \<and>
    mutex_rep (if h = xTaskGetCurrentTaskHandle mapi w \<and> uxRecursiveCallCount (the_queue w) = 1 then 0 else h) w'"
proof (cases "h = xTaskGetCurrentTaskHandle mapi w")
  case True
  have h: "h \<noteq> 0" "xMutexHolder (the_queue w) = h" using True assms by (auto simp: mutex_kernel_ok_def mutex_rep_def)
  define v where "v = upd_queue (\<lambda>q. q\<lparr>uxRecursiveCallCount := uxRecursiveCallCount q - 1\<rparr>) w"
  have v: "mutex_rep h v" "uxRecursiveCallCount (the_queue v) = uxRecursiveCallCount (the_queue w) - 1"
    using nesting_rep(2) [OF h(1) assms(2)] by (simp_all add: v_def) (simp add: upd_queue_def)
  show ?thesis
    using True h v give_now [OF assms(1) v(1)]
    by (auto simp: xQueueGiveMutexRecursive_def v_def [symmetric] xSemaphoreGive_def queueMUTEX_GIVE_BLOCK_TIME_def)
next
  case False
  then show ?thesis using assms(2) by (simp add: xQueueGiveMutexRecursive_def mutex_rep_def)
qed

interpretation mutex: fifo "holders mapi" "\<lambda>w t. t = xTaskGetCurrentTaskHandle mapi w"
    "\<lambda>w t. t = xTaskGetCurrentTaskHandle mapi w \<and> uxRecursiveCallCount (the_queue w) \<in> {0, 1}" 1 "mutex_acquire mapi" "mutex_release mapi" "mutex_other mapi"
  for mapi
proof
  fix w xs x w'
  assume h: "holders mapi w xs" and a: "mutex_acquire mapi x w w'"
  then obtain t where t: "mutex_kernel_ok mapi" "mutex_rep t w" "xs = (if t = 0 then [] else [t])" by (auto simp: holders_def)
  have "x \<noteq> 0" "xMutexHolder (the_queue w) = t" using a t by (auto simp: mutex_acquire_def mutex_kernel_ok_def mutex_rep_def)
  moreover have "t = 0 \<and> mutex_rep x w'"
    using a t take_now [OF t(1,2)] take_recursive_now [OF t(1,2)] calculation by (auto simp: mutex_acquire_def)
  ultimately show "holders mapi w' (xs @ [x])" using t by (auto simp: holders_def)
next
  fix w xs x w'
  assume h: "holders mapi w xs" and r: "mutex_release mapi w x w'"
  then obtain t where t: "mutex_kernel_ok mapi" "mutex_rep t w" "xs = (if t = 0 then [] else [t])" by (auto simp: holders_def)
  have x: "x \<noteq> 0" "xMutexHolder (the_queue w) = t" using r t by (auto simp: mutex_release_def mutex_kernel_ok_def mutex_rep_def)
  have "t = x \<and> mutex_rep 0 w'"
    using r t x give_now [OF t(1,2)] give_recursive_now [OF t(1,2)] by (auto simp: mutex_release_def mutex_rep_def split: if_splits)
  then show "xs \<noteq> [] \<and> x = hd xs \<and> holders mapi w' (tl xs)" using t x by (auto simp: holders_def)
next
  fix w xs w'
  assume h: "holders mapi w xs" and o: "mutex_other mapi w w'"
  then obtain t where t: "mutex_kernel_ok mapi" "mutex_rep t w" "xs = (if t = 0 then [] else [t])" by (auto simp: holders_def)
  have cur: "xTaskGetCurrentTaskHandle mapi w \<noteq> 0" "xMutexHolder (the_queue w) = t" using t by (auto simp: mutex_kernel_ok_def mutex_rep_def)
  from o [unfolded mutex_other_def] have "mutex_rep t w'"
  proof (elim disjE conjE exE)
    assume "xSemaphoreGive (task_ops (alone mapi)) w = returns (False, w')"
    then show ?thesis
      using t(2) give_now [OF t(1,2)]
      by (cases "t = 0") (auto simp: xSemaphoreGive_def xQueueGenericSend_def send_loop.simps mutex_rep_def split: bind_splits if_splits)
  next
    assume "xQueueGiveMutexRecursive (alone mapi) w = returns (True, w')" "xMutexHolder (the_queue w') = xTaskGetCurrentTaskHandle mapi w"
    then show ?thesis
      using give_recursive_now [OF t(1,2)] cur(1) by (auto split: if_splits) (simp add: mutex_rep_def)
  next
    assume "the_queue w' = the_queue w" "lists_ok w'"
    then show ?thesis using t(2) by (simp add: mutex_rep_def)
  qed (use t(2) cur take_now [OF t(1,2)] take_recursive_now [OF t(1,2)] give_recursive_now [OF t(1,2)] in auto)
  then show "holders mapi w' xs" using t by (auto simp: holders_def)
next
  fix w xs x
  assume "holders mapi w xs" "x = xTaskGetCurrentTaskHandle mapi w" "length xs < 1"
  then show "\<exists>w'. mutex_acquire mapi x w w'"
    using take_now [of mapi 0 w] by (auto simp: holders_def mutex_acquire_def split: if_splits)
next
  fix w xs
  assume h: "holders mapi w xs" "xs \<noteq> []" "hd xs = xTaskGetCurrentTaskHandle mapi w \<and> uxRecursiveCallCount (the_queue w) \<in> {0, 1}"
  then have t: "mutex_kernel_ok mapi" "mutex_rep (hd xs) w" "hd xs \<noteq> 0" "xMutexHolder (the_queue w) = hd xs"
    by (auto simp: holders_def mutex_rep_def split: if_splits)
  show "\<exists>w'. mutex_release mapi w (hd xs) w'"
    using h(3) t give_now [OF t(1,2)] give_recursive_now [OF t(1,2)] by (auto simp: mutex_release_def) (auto simp: mutex_rep_def)
qed (auto simp: holders_def)

section \<open>Waiting for a mutex\<close>

lemma disinherit_priority:
  assumes "list_rep (xTasksWaitingToReceive w) xs (event_lists w)" and "length xs < 2 ^ 32"
  shows "prvGetDisinheritPriorityAfterTimeout mapi w =
    Some (case xs of [] \<Rightarrow> 0 | x # _ \<Rightarrow> configMAX_PRIORITIES mapi - item_value (event_lists w) x)"
proof -
  obtain i where head: "list_heads (event_lists w) (xTasksWaitingToReceive w) = Some \<lparr>uxNumberOfItems = of_nat (length xs), pxIndex = i\<rparr>"
    using assms(1) by (auto simp: list_rep_def)
  show ?thesis
  proof (cases xs)
    case Nil
    then show ?thesis using head by (simp add: prvGetDisinheritPriorityAfterTimeout_def)
  next
    case (Cons x ys)
    then have "(of_nat (length xs) :: u32) > 0"
      using assms(2) unat_of_nat_u32 [of "length xs"] by (simp add: word_less_nat_alt del: of_nat_Suc)
    moreover have "link (event_lists w) (xListEnd (xTasksWaitingToReceive w)) x"
      using assms(1) Cons by (cases ys) (auto simp: list_rep_def)
    ultimately show ?thesis
      using head Cons
      by (auto simp: prvGetDisinheritPriorityAfterTimeout_def listGET_ITEM_VALUE_OF_HEAD_ENTRY_def link_def item_value_def
          map_option_case split: option.splits)
  qed
qed

lemma disinherit_runs:
  assumes "waiters_ok w"
  shows "\<exists>p. prvGetDisinheritPriorityAfterTimeout mapi w = Some p"
proof -
  obtain xs i where rep: "list_rep (xTasksWaitingToReceive w) xs (event_lists w)"
    and head: "list_heads (event_lists w) (xTasksWaitingToReceive w) = Some \<lparr>uxNumberOfItems = of_nat (length xs), pxIndex = i\<rparr>"
    using assms by (auto simp: waiters_ok_def list_rep_def)
  have "\<exists>y. link (event_lists w) (xListEnd (xTasksWaitingToReceive w)) y"
    using rep by (cases xs; cases "tl xs") (auto simp: list_rep_def)
  then show ?thesis
    using head
    by (auto simp: prvGetDisinheritPriorityAfterTimeout_def listGET_ITEM_VALUE_OF_HEAD_ENTRY_def link_def map_option_case split: option.splits)
qed

text \<open>What a wait relies on: the property of \<open>stable\<close>, which the changes of priorities keep as well.\<close>

definition mutex_stable :: "'k mutex_api \<Rightarrow> ('k world \<Rightarrow> bool) \<Rightarrow> bool" where
  "mutex_stable mapi P \<longleftrightarrow> stable (task_ops mapi) P \<and> (\<forall>w. P w \<longrightarrow> waiters_ok w \<and>
     (\<forall>t. P (snd (xTaskPriorityInherit mapi t w)) \<and> (\<forall>p. P (vTaskPriorityDisinheritAfterTimeout mapi t p w))))"

lemma wait_to_take_stable:
  assumes "mutex_stable mapi P" and "P w"
  shows "\<exists>r w'. wait_to_take mapi ticks t b w = Some (r, w') \<and> P w'"
proof -
  let ?api = "task_ops mapi"
  have st: "stable ?api P" using assms(1) by (simp add: mutex_stable_def)
  note al = stableD [OF st] and lock = stable_lock [OF st] and wake = stable_wake_up [OF st]
  have inh: "P (snd (xTaskPriorityInherit mapi h v))" "P (vTaskPriorityDisinheritAfterTimeout mapi h p v)"
      "\<exists>p. prvGetDisinheritPriorityAfterTimeout mapi v = Some p" if "P v" for v h p
    using assms(1) that disinherit_runs by (auto simp: mutex_stable_def)
  define pre where "pre = prvLockQueue ?api (vTaskSuspendAll ?api (taskEXIT_CRITICAL ?api w))"
  define v where "v = taskEXIT_CRITICAL ?api pre"
  define v1 where "v1 = taskEXIT_CRITICAL ?api v"
  define v2 where "v2 = (if pcHead (the_queue v1) = queueQUEUE_IS_MUTEX
    then taskEXIT_CRITICAL ?api (snd (xTaskPriorityInherit mapi (xMutexHolder (the_queue v1)) v1)) else v1)"
  define c where "c = check_timeout ?api (case t of None \<Rightarrow> vTaskInternalSetTimeOutState w | Some t \<Rightarrow> t) ticks pre"
  have v: "P v" unfolding v_def pre_def using assms(2) by (intro al lock)
  then have v1: "P v1" unfolding v1_def by (rule al)
  then have v2: "P (vTaskPlaceOnEventList ?api (xTasksWaitingToReceive v2) (snd (snd c)) v2)"
    unfolding v2_def by (intro al) (simp add: al inh)
  show ?thesis
  proof (cases "fst c")
    case True
    obtain u where u: "prvUnlockQueue ?api v = Some u" "P (taskEXIT_CRITICAL ?api (snd (xTaskResumeAll ?api u)))" using wake [OF v] by blast
    obtain p where p: "prvGetDisinheritPriorityAfterTimeout mapi (taskEXIT_CRITICAL ?api (snd (xTaskResumeAll ?api u))) = Some p"
      using inh(3) [OF u(2)] by blast
    show ?thesis
      using True u p al(2) [OF inh(2) [OF u(2)]]
      by (simp add: wait_to_take_def xTaskCheckForTimeOut_def prvIsQueueEmpty_def split_beta Let_def
          pre_def [symmetric] v_def [symmetric] c_def [symmetric])
  next
    case False
    then show ?thesis
      using wake [OF v1] wake [OF v2]
      by (cases "uxMessagesWaiting (the_queue v) = 0"; cases "pcHead (the_queue v1) = queueQUEUE_IS_MUTEX")
        (auto simp: wait_to_take_def xTaskCheckForTimeOut_def prvIsQueueEmpty_def split_beta Let_def v2_def
          pre_def [symmetric] v_def [symmetric] v1_def [symmetric] c_def [symmetric])
  qed
qed

text \<open>Without a limit, which is \<^verbatim>\<open>portMAX_DELAY\<close> when tasks can be suspended, a wait never gives up.\<close>

definition unlimited :: "'k mutex_api \<Rightarrow> u32 \<Rightarrow> bool" where
  "unlimited mapi ticks \<longleftrightarrow> INCLUDE_vTaskSuspend (task_ops mapi) \<and> ticks = portMAX_DELAY"

lemma wait_unlimited:
  assumes "unlimited mapi ticks" and "wait_to_take mapi ticks t b w = Some (r, w')"
  shows "\<exists>u c. r = Some (ticks, u, c)"
  using assms
  by (auto simp: unlimited_def wait_to_take_def xTaskCheckForTimeOut_def check_timeout_def split_beta Let_def split: if_splits bind_splits)

lemma take_loop_result:
  assumes "mutex_stable mapi P" and "\<And>w. P w \<Longrightarrow> uxMessagesWaiting (the_queue w) > 0 \<Longrightarrow> \<exists>w'. take_semaphore mapi w = Some w' \<and> Q w'"
  shows "take_loop mapi' ticks t b w = Some r \<Longrightarrow> mapi' = mapi \<longrightarrow> P w \<longrightarrow>
    (\<exists>ok w'. r = Some (ok, w') \<and> (unlimited mapi ticks \<longrightarrow> ok) \<and>
      (if ok then \<exists>w1. Q w1 \<and> w' = taskEXIT_CRITICAL (task_ops mapi) w1 else P w'))"
proof (rule take_loop.raw_induct [where P = "\<lambda>mapi' ticks t b w r. mapi' = mapi \<longrightarrow> P w \<longrightarrow>
    (\<exists>ok w'. r = Some (ok, w') \<and> (unlimited mapi ticks \<longrightarrow> ok) \<and>
      (if ok then \<exists>w1. Q w1 \<and> w' = taskEXIT_CRITICAL (task_ops mapi) w1 else P w'))"], goal_cases)
  case (1 loop mapi' ticks t b w r)
  show ?case
  proof (intro impI)
    assume m: "mapi' = mapi" and w: "P w"
    obtain v w' where w': "wait_to_take mapi ticks t b w = Some (v, w')" "P w'" using wait_to_take_stable [OF assms(1) w] by blast
    have st: "P (taskEXIT_CRITICAL (task_ops mapi) w)" using stableD(2) [of "task_ops mapi" P w] assms(1) w by (simp add: mutex_stable_def)
    consider (free) "uxMessagesWaiting (the_queue w) > 0" | (now) "uxMessagesWaiting (the_queue w) = 0" "ticks = 0"
      | (late) "uxMessagesWaiting (the_queue w) = 0" "ticks \<noteq> 0" "v = None"
      | (again) k u c where "uxMessagesWaiting (the_queue w) = 0" "ticks \<noteq> 0" "v = Some (k, u, c)"
      by (cases "uxMessagesWaiting (the_queue w) = 0"; cases "ticks = 0"; cases v) (auto simp: word_neq_0_conv)
    then show "\<exists>ok w'. r = Some (ok, w') \<and> (unlimited mapi ticks \<longrightarrow> ok) \<and>
        (if ok then \<exists>w1. Q w1 \<and> w' = taskEXIT_CRITICAL (task_ops mapi) w1 else P w')"
    proof cases
      case free
      obtain w1 where w1: "take_semaphore mapi w = Some w1" "Q w1" using assms(2) [OF w free] by blast
      then have "r = Some (True, taskEXIT_CRITICAL (task_ops mapi) w1)" using 1(3) free m by simp
      then show ?thesis using w1(2) by auto
    next
      case now
      then have "r = Some (False, taskEXIT_CRITICAL (task_ops mapi) w)" using 1(3) m by simp
      then show ?thesis using st now by (auto simp: unlimited_def portMAX_DELAY_def)
    next
      case late
      then have "r = Some (False, w')" using 1(3) w'(1) m by simp
      then show ?thesis using w' late(3) wait_unlimited [OF _ w'(1)] by auto
    next
      case again
      then have "loop mapi k (Some u) c w' = Some r" using 1(3) w'(1) m by simp
      moreover have "unlimited mapi ticks \<Longrightarrow> k = ticks" using wait_unlimited [OF _ w'(1)] again by auto
      ultimately show ?thesis using 1(2) w'(2) by blast
    qed
  qed
qed

section \<open>Recursive mutexes\<close>

text \<open>The view of one running task: it holds the mutex with some nesting, or it does not hold it.\<close>

definition held :: "'k mutex_api \<Rightarrow> u32 \<Rightarrow> u32 \<Rightarrow> 'k world \<Rightarrow> bool" where
  "held mapi t c w \<longleftrightarrow> mutex_rep t w \<and> t \<noteq> 0 \<and> uxRecursiveCallCount (the_queue w) = c \<and> xTaskGetCurrentTaskHandle mapi w = t \<and> waiters_ok w"

definition not_held :: "'k mutex_api \<Rightarrow> u32 \<Rightarrow> 'k world \<Rightarrow> bool" where
  "not_held mapi t w \<longleftrightarrow> (\<exists>h. h \<noteq> t \<and> mutex_rep h w) \<and> t \<noteq> 0 \<and> xTaskGetCurrentTaskHandle mapi w = t \<and> waiters_ok w"

text \<open>What a task relies on of the others: while they run, they neither give back the mutex that it holds nor take it in its name.\<close>

definition mutex_others_ok :: "'k mutex_api \<Rightarrow> u32 \<Rightarrow> bool" where
  "mutex_others_ok mapi t \<longleftrightarrow> mutex_kernel_ok mapi \<and> mutex_stable mapi (not_held mapi t) \<and> (\<forall>c. stable (task_ops mapi) (held mapi t c))"

lemma not_held_take:
  assumes "mutex_kernel_ok mapi" and "not_held mapi t w" and "uxMessagesWaiting (the_queue w) > 0"
  shows "\<exists>w'. take_semaphore mapi w = Some w' \<and> held mapi t 0 w'"
proof -
  have "mutex_rep 0 w" using assms(2,3) by (auto simp: not_held_def mutex_rep_def split: if_splits)
  then show ?thesis using mutex_take [OF assms(1), of w] assms(2) by (auto simp: not_held_def held_def)
qed

lemma held_nesting: "held mapi t c w \<Longrightarrow> mutex_kernel_ok mapi \<Longrightarrow> held mapi t d (upd_queue (\<lambda>q. q\<lparr>uxRecursiveCallCount := d\<rparr>) w)"
  by (simp add: held_def mutex_kernel_ok_def) (simp add: mutex_rep_def upd_queue_def)

lemma give_mutex:
  assumes "mutex_others_ok mapi t" and "held mapi t 0 w"
  shows "\<exists>w'. xQueueGenericSend (task_ops mapi) NULL 0 queueSEND_TO_BACK w = returns (True, w') \<and> not_held mapi t w'"
proof -
  have rep: "mutex_rep t w" "t \<noteq> 0" "uxRecursiveCallCount (the_queue w) = 0" and kernel: "mutex_kernel_ok mapi"
    using assms by (simp_all add: held_def mutex_others_ok_def)
  obtain w' where w': "send_item (task_ops mapi) [] queueSEND_TO_BACK w = Some w'" "mutex_rep 0 w'"
      "xTaskGetCurrentTaskHandle mapi w' = xTaskGetCurrentTaskHandle mapi w" "waiters_ok w \<longrightarrow> waiters_ok w'"
    using mutex_give [OF kernel rep] by blast
  have "not_held mapi t w'" using w'(2-4) assms(2) by (auto simp: not_held_def held_def intro!: exI [of _ 0])
  then have "not_held mapi t (taskEXIT_CRITICAL (task_ops mapi) w')"
    using assms(1) stableD(2) by (auto simp: mutex_others_ok_def mutex_stable_def)
  then show ?thesis
    using w'(1) rep by (simp add: xQueueGenericSend_def send_loop.simps mutex_rep_def)
qed

section \<open>What semaphores and mutexes guarantee\<close>

text \<open>C31. The count of a semaphore is exact: after any interleaving of gives and takes of tasks and of interrupts, failed calls and changes of
  the locks, the count is the initial count plus the gives less the takes and never exceeds the limit; a give is possible below the
  limit and a take above zero.\<close>

theorem semaphore_count_exact:
  assumes "semaphore_rep mapi n w0 (replicate k ())"
    and "traffic (semaphore_give mapi) (semaphore_take mapi) (semaphore_other mapi) w0 w given taken"
  shows "unat (uxMessagesWaiting (the_queue w)) + length taken = k + length given \<and> unat (uxMessagesWaiting (the_queue w)) \<le> n \<and>
    (unat (uxMessagesWaiting (the_queue w)) < n \<longrightarrow> (\<exists>w'. semaphore_give mapi () w w')) \<and>
    (0 < unat (uxMessagesWaiting (the_queue w)) \<longrightarrow> (\<exists>w'. semaphore_take mapi w () w'))"
proof -
  obtain xs where xs: "semaphore_rep mapi n w xs" "replicate k () @ given = taken @ xs"
    using semaphore.traffic_order [OF assms(2,1)] by blast
  moreover have "k + length given = length taken + length xs" using arg_cong [OF xs(2), of length] by simp
  ultimately show ?thesis
    using semaphore.room_law [OF xs(1)] semaphore.item_law [OF xs(1)] by (auto simp: semaphore_rep_def)
qed

definition sample_mutex_api :: "u32 \<Rightarrow> unit mutex_api" where
  "sample_mutex_api t = \<lparr>task_ops = sample_api, xTaskPriorityInherit = (\<lambda>_ w. (True, w)), vTaskPriorityDisinheritAfterTimeout = (\<lambda>_ _ w. w),
     pvTaskIncrementMutexHeldCount = (\<lambda>w. (t, w)), xTaskGetCurrentTaskHandle = (\<lambda>_. t), configMAX_PRIORITIES = 8\<rparr>"

definition sample_semaphore :: "u32 \<Rightarrow> u32 \<Rightarrow> u32 \<Rightarrow> unit world" where
  "sample_semaphore head len count =
     upd_queue (\<lambda>q. q\<lparr>pcHead := head, uxLength := len, uxItemSize := 0, uxMessagesWaiting := count\<rparr>)
       (sample_world\<lparr>event_lists := vListInitialise 0x20400034 (vListInitialise 0x20400020 (event_lists sample_world))\<rparr>)"

lemma sample_semaphore_lists: "lists_ok (sample_semaphore head len count)" "waiters_ok (sample_semaphore head len count)"
proof -
  show "lists_ok (sample_semaphore head len count)"
    by (simp add: sample_semaphore_def lists_ok_def xTasksWaitingToSend_def xTasksWaitingToReceive_def upd_queue_def sample_world_def vListInitialise_def)
  show "waiters_ok (sample_semaphore head len count)"
    using initialise_rep [of "0x20400034" "vListInitialise 0x20400020 (event_lists sample_world)"]
    by (auto simp: sample_semaphore_def waiters_ok_def xTasksWaitingToReceive_def upd_queue_def sample_world_def)
qed

theorem semaphore_count_exact_witness:
  "\<exists>w. semaphore_give (sample_mutex_api 7) () (sample_semaphore 0x20400010 3 1) w \<and> unat (uxMessagesWaiting (the_queue w)) = 2"
proof -
  let ?w = "sample_semaphore 0x20400010 3 1" and ?m = "sample_mutex_api 7"
  have rep: "semaphore_rep ?m 3 ?w (replicate 1 ())"
    using sample_semaphore_lists(1) sample_kernel
    by (simp add: semaphore_rep_def sample_mutex_api_def) (simp add: sample_semaphore_def upd_queue_def queueQUEUE_IS_MUTEX_def)
  obtain w where w: "semaphore_give ?m () ?w w" using semaphore.room_law [OF rep, of "()"] by auto
  have "traffic (semaphore_give ?m) (semaphore_take ?m) (semaphore_other ?m) ?w w ([] @ [()]) []"
    using w by (intro traffic.put [of _ _ _ _ ?w] traffic.start)
  then show ?thesis using semaphore_count_exact [OF rep] w by fastforce
qed

text \<open>C29. A mutex is exclusive, however the scheduler switches between the tasks: after any interleaving of takes and gives of any number of
  tasks, plain and recursive, successful and not, of nested calls, changes of the lock counters and switches of the running task, the
  tasks that took a mutex that was free are, in order, the tasks that gave it back, followed by at most one
  more, and that one is the holder. While there is a holder no task can take the mutex. The
  running task can take it whenever it is free, and the holder, when it runs, can give it back from the outermost level.\<close>

theorem mutex_exclusive:
  assumes "mutex_kernel_ok mapi" and "mutex_rep 0 w0"
    and "traffic (mutex_acquire mapi) (mutex_release mapi) (mutex_other mapi) w0 w acquired released"
  shows "acquired = released @ (if xMutexHolder (the_queue w) = 0 then [] else [xMutexHolder (the_queue w)]) \<and>
    (xMutexHolder (the_queue w) \<noteq> 0 \<longrightarrow> \<not> (\<exists>t w'. mutex_acquire mapi t w w')) \<and>
    (xMutexHolder (the_queue w) = 0 \<longrightarrow> (\<exists>w'. mutex_acquire mapi (xTaskGetCurrentTaskHandle mapi w) w w')) \<and>
    (xMutexHolder (the_queue w) = xTaskGetCurrentTaskHandle mapi w \<and> uxRecursiveCallCount (the_queue w) \<in> {0, 1} \<longrightarrow>
      (\<exists>w'. mutex_release mapi w (xTaskGetCurrentTaskHandle mapi w) w'))"
proof -
  have "holders mapi w0 []" using assms(1,2) by (auto simp: holders_def)
  then obtain xs where xs: "holders mapi w xs" "acquired = released @ xs" using mutex.traffic_order [OF assms(3)] by fastforce
  then obtain t where t: "mutex_rep t w" "xs = (if t = 0 then [] else [t])" by (auto simp: holders_def)
  then have "xMutexHolder (the_queue w) = t" "xTaskGetCurrentTaskHandle mapi w \<noteq> 0"
    using assms(1) by (simp_all add: mutex_rep_def mutex_kernel_ok_def)
  moreover have "\<not> mutex_acquire mapi u w w'" if "t \<noteq> 0" for u w'
    using that t(2) mutex.send_law [OF xs(1), of u w'] mutex.bound_law [of mapi w' "xs @ [u]"] by auto
  ultimately show ?thesis
    using t xs mutex.room_law [OF xs(1), of "xTaskGetCurrentTaskHandle mapi w"] mutex.item_law [OF xs(1)] by auto
qed

lemma sample_mutex_kernel: "t \<noteq> 0 \<Longrightarrow> mutex_kernel_ok (sample_mutex_api t)"
  using sample_kernel by (simp add: mutex_kernel_ok_def sample_mutex_api_def same_task_def) (simp add: sample_api_def)

lemma sample_mutex: "mutex_rep 0 (sample_semaphore 0 1 1)"
  using sample_semaphore_lists(1) [of 0 1 1] by (simp add: mutex_rep_def) (simp add: sample_semaphore_def upd_queue_def queueQUEUE_IS_MUTEX_def sample_world_def)

text \<open>A kernel whose state is the running task.\<close>

definition switching_api :: "u32 mutex_api" where
  "switching_api = \<lparr>task_ops = \<lparr>xTaskRemoveFromEventList = (\<lambda>_ w. (False, w)), vTaskPlaceOnEventList = (\<lambda>_ _ w. w),
       xTaskPriorityDisinherit = (\<lambda>_ w. (False, w)), uxTaskGetNumberOfTasks = (\<lambda>_. 3), vTaskMissedYield = id, vTaskSuspendAll = id,
       xTaskResumeAll = (\<lambda>w. (True, w)), queueYIELD_IF_USING_PREEMPTION = id, taskYIELD_WITHIN_API = id, taskEXIT_CRITICAL = id,
       scheduler_suspended = (\<lambda>_. False), INCLUDE_vTaskSuspend = True\<rparr>,
     xTaskPriorityInherit = (\<lambda>_ w. (True, w)), vTaskPriorityDisinheritAfterTimeout = (\<lambda>_ _ w. w),
     pvTaskIncrementMutexHeldCount = (\<lambda>w. (max 1 (tasks w), w)), xTaskGetCurrentTaskHandle = (\<lambda>w. max 1 (tasks w)), configMAX_PRIORITIES = 8\<rparr>"

definition switching_mutex :: "u32 \<Rightarrow> u32 world" where
  "switching_mutex t = \<lparr>queue_address = 0x20400010, the_queue = the_queue (sample_semaphore 0 1 1),
     event_lists = event_lists (sample_semaphore 0 1 1), xTickCount = 0, xNumOfOverflows = 0, tasks = t\<rparr>"

lemma switching_ok: "mutex_kernel_ok switching_api" "mutex_rep 0 (switching_mutex t)"
proof -
  show "mutex_kernel_ok switching_api"
    by (simp add: mutex_kernel_ok_def kernel_ok_def switching_api_def same_task_def upd_queue_def) (auto simp: max_def)
  show "mutex_rep 0 (switching_mutex t)"
    using sample_mutex
    by (simp add: mutex_rep_def switching_mutex_def lists_ok_def xTasksWaitingToSend_def xTasksWaitingToReceive_def)
      (simp add: sample_semaphore_def upd_queue_def sample_world_def)
qed

theorem mutex_exclusive_witness:
  "\<exists>w. traffic (mutex_acquire switching_api) (mutex_release switching_api) (mutex_other switching_api) (switching_mutex 7) w [7, 9] [7] \<and>
     xMutexHolder (the_queue w) = 9"
proof -
  let ?m = switching_api
  let ?run = "traffic (mutex_acquire ?m) (mutex_release ?m) (mutex_other ?m) (switching_mutex 7)"
  note ok = switching_ok
  have cur: "xTaskGetCurrentTaskHandle ?m w = max 1 (tasks w)" for w by (simp add: switching_api_def)
  have switch: "mutex_other ?m w (w\<lparr>tasks := t\<rparr>)" and switch_rep: "mutex_rep h (w\<lparr>tasks := t\<rparr>)" if "mutex_rep h w" for w t h
    using that by (simp_all add: mutex_other_def mutex_rep_def lists_ok_def xTasksWaitingToSend_def xTasksWaitingToReceive_def)
  obtain w1 where w1: "xQueueSemaphoreTake (alone ?m) 0 (switching_mutex 7) = returns (True, w1)" "mutex_rep 7 w1"
      "uxRecursiveCallCount (the_queue w1) = 0" "xTaskGetCurrentTaskHandle ?m w1 = 7"
    using take_now [OF ok(1) ok(2) [of 7]] by (auto simp: cur switching_mutex_def)
  have "?run w1 ([] @ [7]) []" using w1(1) by (intro traffic.put [OF traffic.start]) (simp add: mutex_acquire_def cur switching_mutex_def)
  then have r2: "?run (w1\<lparr>tasks := 9\<rparr>) [7] []" using switch [OF w1(2)] by (auto intro: traffic.pass)
  define w3 where "w3 = w1\<lparr>tasks := 9\<rparr>\<lparr>tasks := 7\<rparr>"
  have w3: "mutex_rep 7 w3" "uxRecursiveCallCount (the_queue w3) = 0" "xTaskGetCurrentTaskHandle ?m w3 = 7"
    unfolding w3_def using switch_rep [OF switch_rep [OF w1(2)]] w1(3) by (simp_all add: cur)
  obtain w4 where w4: "mutex_release ?m w3 7 w4" "mutex_rep 0 w4"
    using give_now [OF ok(1) w3(1)] w3 by (auto simp: mutex_release_def mutex_rep_def)
  have "?run w3 [7] []" unfolding w3_def using r2 switch [OF switch_rep [OF w1(2)]] by (rule traffic.pass)
  then have "?run w4 [7] ([] @ [7])" using w4(1) by (rule traffic.get)
  then have r5: "?run (w4\<lparr>tasks := 9\<rparr>) [7] [7]" using switch [OF w4(2)] by (auto intro: traffic.pass)
  have "xMutexHolder (the_queue (w4\<lparr>tasks := 9\<rparr>)) = 0" "xTaskGetCurrentTaskHandle ?m (w4\<lparr>tasks := 9\<rparr>) = 9"
    using w4(2) by (simp_all add: mutex_rep_def cur)
  then obtain w6 where "mutex_acquire ?m 9 (w4\<lparr>tasks := 9\<rparr>) w6"
    using mutex_exclusive [OF ok(1) ok(2) r5] by auto
  then have r6: "?run w6 ([7] @ [9]) [7]" by (rule traffic.put [OF r5])
  then show ?thesis using mutex_exclusive [OF ok(1) ok(2) r6] by (auto split: if_splits)
qed

text \<open>One call of a task.\<close>

lemma nesting_cong:
  "held mapi t c w \<Longrightarrow> upd_queue (\<lambda>q. q\<lparr>uxRecursiveCallCount := f (uxRecursiveCallCount q)\<rparr>) w = upd_queue (\<lambda>q. q\<lparr>uxRecursiveCallCount := f c\<rparr>) w"
  by (simp add: upd_queue_def held_def)

lemma take_again:
  assumes "mutex_others_ok mapi t" and "held mapi t c w"
  shows "\<exists>w'. xQueueTakeMutexRecursive mapi ticks w = returns (True, w') \<and> held mapi t (c + 1) w'"
  using assms(2) held_nesting [OF assms(2), of "c + 1"] nesting_cong [OF assms(2), of "\<lambda>x. x + 1"] assms(1)
  by (simp add: xQueueTakeMutexRecursive_def held_def mutex_rep_def mutex_others_ok_def)

lemma take_first:
  assumes "mutex_others_ok mapi t" and "scheduler_suspended (task_ops mapi) w \<longrightarrow> ticks = 0" and "not_held mapi t w"
  shows "case xQueueTakeMutexRecursive mapi ticks w of
      None \<Rightarrow> xMutexHolder (the_queue w) \<noteq> 0 \<and> ticks \<noteq> 0
    | Some None \<Rightarrow> False
    | Some (Some (ok, w')) \<Rightarrow> (if ok then held mapi t 1 w' else not_held mapi t w' \<and> \<not> unlimited mapi ticks)"
proof -
  have kernel: "mutex_kernel_ok mapi" using assms(1) by (simp add: mutex_others_ok_def)
  have "xMutexHolder (the_queue w) \<noteq> xTaskGetCurrentTaskHandle mapi w" and "uxItemSize (the_queue w) = 0"
    using assms(3) by (auto simp: not_held_def mutex_rep_def)
  then have take: "xQueueTakeMutexRecursive mapi ticks w = then_run (take_loop mapi ticks None False w) (\<lambda>(ok, w).
      returns (ok, if ok then upd_queue (\<lambda>q. q\<lparr>uxRecursiveCallCount := uxRecursiveCallCount q + 1\<rparr>) w else w))"
    using assms(2) by (auto simp: xQueueTakeMutexRecursive_def xQueueSemaphoreTake_def)
  show ?thesis
  proof (cases "take_loop mapi ticks None False w")
    case None
    then have "uxMessagesWaiting (the_queue w) = 0 \<and> ticks \<noteq> 0" by (subst (asm) take_loop.simps) (auto simp: not_less split: if_splits)
    then show ?thesis using None take assms(3) by (auto simp: not_held_def mutex_rep_def)
  next
    case (Some r)
    obtain ok w' where r: "r = Some (ok, w')" "unlimited mapi ticks \<longrightarrow> ok"
      "if ok then \<exists>w1. held mapi t 0 w1 \<and> w' = taskEXIT_CRITICAL (task_ops mapi) w1 else not_held mapi t w'"
      using take_loop_result [where P = "not_held mapi t" and Q = "held mapi t 0", OF _ not_held_take [OF kernel] Some] assms(1,3)
      by (auto simp: mutex_others_ok_def)
    have "held mapi t 0 w'" if ok
      using that r(3) assms(1) stableD(2) by (auto simp: mutex_others_ok_def)
    then show ?thesis
      using Some take r held_nesting [OF _ kernel, of t 0 w' 1] nesting_cong [of mapi t 0 w' "\<lambda>x. x + 1"] by auto
  qed
qed

lemma give_level:
  assumes "mutex_others_ok mapi t" and "held mapi t c w"
  shows "\<exists>w'. xQueueGiveMutexRecursive mapi w = returns (True, w') \<and> (if c = 1 then not_held mapi t w' else held mapi t (c - 1) w')"
proof -
  define v where "v = upd_queue (\<lambda>q. q\<lparr>uxRecursiveCallCount := uxRecursiveCallCount q - 1\<rparr>) w"
  have "held mapi t (c - 1) v"
    using held_nesting [OF assms(2), of "c - 1"] nesting_cong [OF assms(2), of "\<lambda>x. x - 1"] assms(1) by (simp add: v_def mutex_others_ok_def)
  then show ?thesis
    using assms(2) give_mutex [OF assms(1), of v]
    by (cases "c = 1") (auto simp: xQueueGiveMutexRecursive_def held_def mutex_rep_def queueMUTEX_GIVE_BLOCK_TIME_def v_def [symmetric])
qed

lemma give_refused: "not_held mapi t w \<Longrightarrow> xQueueGiveMutexRecursive mapi w = returns (False, w)"
  by (auto simp: not_held_def mutex_rep_def xQueueGiveMutexRecursive_def)

text \<open>C30. A recursive mutex nests, whatever other tasks do in between: a take by a task that holds the mutex returns at once with
  one more level; a take by another task returns success only with the mutex, at the first level, and otherwise leaves it to the others, and without a
  limit on the time it never fails; it runs into no undefined behaviour and returns at once when the mutex is free or there is
  no time to wait. A give undoes one level, and the last one frees the mutex; a give by a task that does not hold it
  fails and changes nothing.\<close>

theorem recursive_mutex_sound:
  assumes "mutex_others_ok mapi t" and "scheduler_suspended (task_ops mapi) w \<longrightarrow> ticks = 0"
  shows "(held mapi t c w \<longrightarrow> (\<exists>w'. xQueueTakeMutexRecursive mapi ticks w = returns (True, w') \<and> held mapi t (c + 1) w'))
    \<and> (not_held mapi t w \<longrightarrow> (case xQueueTakeMutexRecursive mapi ticks w of
        None \<Rightarrow> xMutexHolder (the_queue w) \<noteq> 0 \<and> ticks \<noteq> 0
      | Some None \<Rightarrow> False
      | Some (Some (ok, w')) \<Rightarrow> (if ok then held mapi t 1 w' else not_held mapi t w' \<and> \<not> unlimited mapi ticks)))
    \<and> (held mapi t c w \<longrightarrow> (\<exists>w'. xQueueGiveMutexRecursive mapi w = returns (True, w') \<and> (if c = 1 then not_held mapi t w' else held mapi t (c - 1) w')))
    \<and> (not_held mapi t w \<longrightarrow> xQueueGiveMutexRecursive mapi w = returns (False, w))"
  using take_again [OF assms(1)] take_first [OF assms] give_level [OF assms(1)] give_refused by blast

lemma sample_stable:
  assumes "\<And>w. P w \<Longrightarrow> lists_ok w" and "\<And>w a. P w \<Longrightarrow> P (upd_queue (\<lambda>q. q\<lparr>cTxLock := a\<rparr>) w) \<and> P (upd_queue (\<lambda>q. q\<lparr>cRxLock := a\<rparr>) w)"
  shows "stable sample_api P"
  using assms by (simp add: stable_def sample_api_def)

lemma sample_mutex_others:
  assumes "t \<noteq> 0"
  shows "mutex_others_ok (sample_mutex_api t) t"
proof -
  have ops: "task_ops (sample_mutex_api t) = sample_api" "xTaskGetCurrentTaskHandle (sample_mutex_api t) w = t" for w
    by (simp_all add: sample_mutex_api_def)
  have "stable sample_api (held (sample_mutex_api t) t c)" for c
    by (rule sample_stable) (simp_all add: held_def ops, simp_all add: mutex_rep_def upd_queue_def)
  moreover have "stable sample_api (not_held (sample_mutex_api t) t)"
    by (rule sample_stable) (simp_all add: not_held_def ops, auto simp: mutex_rep_def)
  moreover have "waiters_ok w" if "not_held (sample_mutex_api t) t w" for w
    using that by (simp add: not_held_def)
  ultimately show ?thesis
    using sample_mutex_kernel [OF assms] by (simp add: mutex_others_ok_def mutex_stable_def ops) (simp add: sample_mutex_api_def)
qed

theorem recursive_mutex_sound_witness:
  "\<exists>w. xQueueTakeMutexRecursive (sample_mutex_api 7) portMAX_DELAY (sample_semaphore 0 1 1) = returns (True, w) \<and> held (sample_mutex_api 7) 7 1 w"
proof -
  let ?m = "sample_mutex_api 7" and ?w = "sample_semaphore 0 1 1"
  have others: "mutex_others_ok ?m 7" by (rule sample_mutex_others) simp
  have free: "not_held ?m 7 ?w"
    using sample_mutex sample_semaphore_lists(2) [of 0 1 1] by (auto simp: not_held_def sample_mutex_api_def intro!: exI [of _ 0])
  then have "xMutexHolder (the_queue ?w) = 0" by (simp add: sample_semaphore_def upd_queue_def sample_world_def)
  moreover have "unlimited ?m portMAX_DELAY" by (simp add: unlimited_def sample_mutex_api_def sample_api_def)
  moreover have "scheduler_suspended (task_ops ?m) ?w \<longrightarrow> portMAX_DELAY = 0" by (simp add: sample_mutex_api_def sample_api_def)
  ultimately show ?thesis
    using recursive_mutex_sound [OF others, of ?w portMAX_DELAY 0] free
    by (auto split: option.splits if_splits)
qed

end
