(* ===== verification/Sys_Mbox.thy ===== *)
theory Sys_Mbox
  imports Queue_Correct Lwip_Api_Msg
begin

text \<open>
  The mailboxes of the operating-system port of lwIP (\<^verbatim>\<open>sys_arch.c\<close>) on the queues of FreeRTOS, and the proof that they
  implement the mailboxes that the netconn layer is modelled with: lists of messages with a bounded
  length. A message is a pointer, stored in the queue as four bytes, least significant first. Whether the caller is an interrupt and the
  rate of the tick are parameters. An \<^verbatim>\<open>LWIP_ASSERT\<close> that fails loops for ever, since \<^verbatim>\<open>LWIP_NOASSERT\<close> is not defined and
  \<^verbatim>\<open>cc.h\<close> defines \<^verbatim>\<open>LWIP_PLATFORM_ASSERT\<close> as an endless loop; so a post from an interrupt to a full queue does not return. The assertions that the pointers to a
  mailbox are not null have no counterpart, since the model has the mailbox itself.
\<close>

section \<open>Operations\<close>

definition lwip_assert :: "bool \<Rightarrow> 'a run \<Rightarrow> 'a run" where
  "lwip_assert assertion rest = (if assertion then rest else never_returns)"

lemma lwip_assert_simps [simp]: "lwip_assert True r = r" "lwip_assert False r = never_returns"
  by (simp_all add: lwip_assert_def)

definition ptr_bytes :: "u32 \<Rightarrow> bytes" where
  "ptr_bytes p = rev (be32 p)"

definition bytes_ptr :: "bytes \<Rightarrow> u32" where
  "bytes_ptr b = of_be32 (b ! 3) (b ! 2) (b ! 1) (b ! 0)"

partial_function (option) port_mbox_post_task :: "'k task_api \<Rightarrow> queue_position \<Rightarrow> u32 \<Rightarrow> 'k world \<Rightarrow> 'k world run" where
  "port_mbox_post_task api pos msg w =
     (case xQueueGenericSend api (Some (ptr_bytes msg)) 10000 pos w of
        None \<Rightarrow> None
      | Some None \<Rightarrow> Some undefined_behaviour
      | Some (Some (sent, w)) \<Rightarrow> if sent then returns w else port_mbox_post_task api pos msg w)"

definition port_mbox_post :: "'k task_api \<Rightarrow> bool \<Rightarrow> u32 \<Rightarrow> 'k world \<Rightarrow> (bool \<times> 'k world) run" where
  "port_mbox_post api in_interrupt msg w =
     (if \<not> in_interrupt then then_run (port_mbox_post_task api queueSEND_TO_BACK msg w) (\<lambda>w. returns (False, w))
      else then_run (Some (xQueueGenericSendFromISR api (Some (ptr_bytes msg)) queueSEND_TO_BACK w))
             (\<lambda>((ret, woken), w). lwip_assert ret (returns (woken, w))))"

definition port_mbox_post_to_front :: "'k task_api \<Rightarrow> bool \<Rightarrow> u32 \<Rightarrow> 'k world \<Rightarrow> 'k world run" where
  "port_mbox_post_to_front api in_interrupt msg w =
     (if \<not> in_interrupt then port_mbox_post_task api queueSEND_TO_FRONT msg w
      else then_run (Some (xQueueGenericSendFromISR api (Some (ptr_bytes msg)) queueSEND_TO_FRONT w))
             (\<lambda>((ret, _), w). lwip_assert ret (returns w)))"

definition port_mbox_trypost :: "'k task_api \<Rightarrow> bool \<Rightarrow> u32 \<Rightarrow> 'k world \<Rightarrow> (err_t \<times> 'k world) run" where
  "port_mbox_trypost api in_interrupt msg w =
     (if \<not> in_interrupt then
        then_run (xQueueGenericSend api (Some (ptr_bytes msg)) 10000 queueSEND_TO_BACK w)
          (\<lambda>(sent, w). returns (if sent then ERR_OK else ERR_MEM, w))
      else then_run (Some (xQueueGenericSendFromISR api (Some (ptr_bytes msg)) queueSEND_TO_BACK w))
             (\<lambda>((ret, _), w). lwip_assert ret (returns (ERR_OK, w))))"

text \<open>The result \<^verbatim>\<open>ERR_NEED_SCHED\<close>, which is not an error of lwIP, is \<open>None\<close>.\<close>

definition port_mbox_trypost_fromisr :: "'k task_api \<Rightarrow> u32 \<Rightarrow> 'k world \<Rightarrow> (err_t option \<times> 'k world) exec" where
  "port_mbox_trypost_fromisr api msg w = do {
     ((ret, woken), w) \<leftarrow> xQueueGenericSendFromISR api (Some (ptr_bytes msg)) queueSEND_TO_BACK w;
     Some (if ret then (if woken then None else Some ERR_OK) else Some ERR_MEM, w)
   }"

text \<open>A fetch returns the message, or nothing after the time in milliseconds; 0 waits without limit. The number of ticks is computed
  in 32 bits.\<close>

definition port_mbox_fetch :: "'k task_api \<Rightarrow> u32 \<Rightarrow> u32 \<Rightarrow> 'k world \<Rightarrow> (u32 option \<times> 'k world) run" where
  "port_mbox_fetch api tick_rate timeout_ms w =
     (if timeout_ms = 0 then
        then_run (xQueueReceive api False portMAX_DELAY w) (\<lambda>(b, w). lwip_assert (b \<noteq> None) (returns (map_option bytes_ptr b, w)))
      else
        then_run (xQueueReceive api False (timeout_ms * tick_rate div 1000) w) (\<lambda>(b, w). returns (map_option bytes_ptr b, w)))"

definition port_mbox_tryfetch :: "'k task_api \<Rightarrow> 'k world \<Rightarrow> (u32 option \<times> 'k world) run" where
  "port_mbox_tryfetch api w =
     then_run (xQueueReceive api False 0 w) (\<lambda>(b, w). returns (map_option bytes_ptr b, w))"

definition port_mbox_new ::
    "heap_config \<Rightarrow> u32 \<Rightarrow> (u32 \<Rightarrow> u8) \<Rightarrow> 'k task_api \<Rightarrow> u32 \<Rightarrow> heap_4 \<Rightarrow> 'k world \<Rightarrow> ((err_t \<times> 'k world) \<times> heap_4) run" where
  "port_mbox_new cfg sizeof_queue raw api mbox_size h w =
     lwip_assert (0 < sint mbox_size)
       (then_run (xQueueGenericCreate cfg sizeof_queue raw api mbox_size 4 h w)
         (\<lambda>((mbx, w), h). returns ((if mbx = 0 then ERR_MEM else ERR_OK, w), h)))"

definition port_mbox_free :: "heap_config \<Rightarrow> 'k world \<Rightarrow> heap_4 \<Rightarrow> heap_4 run" where
  "port_mbox_free cfg w h = vQueueDelete cfg w h"

section \<open>Refinement\<close>

lemma ptr_roundtrip [simp]: "bytes_ptr (ptr_bytes p) = p" "length (ptr_bytes p) = 4"
proof -
  show "length (ptr_bytes p) = 4" by (simp add: ptr_bytes_def)
  show "bytes_ptr (ptr_bytes p) = p"
    using of_be32_be32 [of p] by (simp add: bytes_ptr_def ptr_bytes_def rev_nth)
qed

definition mbox_rep :: "'k task_api \<Rightarrow> ('a \<Rightarrow> u32) \<Rightarrow> 'a mbox \<Rightarrow> 'k world \<Rightarrow> bool" where
  "mbox_rep api enc m w \<longleftrightarrow> queue_ok api (mb_size m) 4 w (map (ptr_bytes \<circ> enc) (mb_msgs m))"

text \<open>C27. The mailboxes of the port implement those of the netconn layer: with room, a try to post from a task or from an interrupt returns
  \<open>ERR_OK\<close> and the queue then represents the mailbox with the message at its end; a try to fetch returns the first
  message, or nothing when there is none, and the queue represents what remains. Neither waits.\<close>

theorem mailbox_port_refines:
  assumes "mbox_rep api enc m w" and "\<not> scheduler_suspended api w"
  shows "(length (mb_msgs m) < mb_size m \<longrightarrow>
      (\<exists>w1. port_mbox_trypost api False (enc x) w = returns (fst (sys_mbox_trypost x m), taskEXIT_CRITICAL api w1)
        \<and> mbox_rep api enc (snd (sys_mbox_trypost x m)) w1)
      \<and> (\<exists>w1. port_mbox_trypost api True (enc x) w = returns (fst (sys_mbox_trypost x m), w1)
        \<and> mbox_rep api enc (snd (sys_mbox_trypost x m)) w1))
    \<and> (\<exists>w1. port_mbox_tryfetch api w = returns (map_option enc (fst (sys_arch_mbox_tryfetch m)), taskEXIT_CRITICAL api w1)
        \<and> mbox_rep api enc (snd (sys_arch_mbox_tryfetch m)) w1)"
proof (intro conjI impI)
  let ?xs = "map (ptr_bytes \<circ> enc) (mb_msgs m)"
  have ok: "queue_ok api (mb_size m) 4 w ?xs" using assms(1) by (simp add: mbox_rep_def)
  show "\<exists>w1. port_mbox_trypost api False (enc x) w = returns (fst (sys_mbox_trypost x m), taskEXIT_CRITICAL api w1)
      \<and> mbox_rep api enc (snd (sys_mbox_trypost x m)) w1" if room: "length (mb_msgs m) < mb_size m"
  proof -
    obtain w1 where "send_item api (ptr_bytes (enc x)) queueSEND_TO_BACK w = Some w1" "queue_ok api (mb_size m) 4 w1 (?xs @ [ptr_bytes (enc x)])"
      using send_item_ok [OF ok, of "ptr_bytes (enc x)"] room by auto
    then show ?thesis
      using room_iff(1) [OF ok] room assms(2)
      by (auto simp: port_mbox_trypost_def xQueueGenericSend_def send_loop.simps sys_mbox_trypost_def mbox_rep_def)
  qed
  show "\<exists>w1. port_mbox_trypost api True (enc x) w = returns (fst (sys_mbox_trypost x m), w1)
      \<and> mbox_rep api enc (snd (sys_mbox_trypost x m)) w1" if room: "length (mb_msgs m) < mb_size m"
    using isr_send_ok [OF ok, of "ptr_bytes (enc x)"] room
    by (auto simp: port_mbox_trypost_def sys_mbox_trypost_def mbox_rep_def)
  show "\<exists>w1. port_mbox_tryfetch api w = returns (map_option enc (fst (sys_arch_mbox_tryfetch m)), taskEXIT_CRITICAL api w1)
      \<and> mbox_rep api enc (snd (sys_arch_mbox_tryfetch m)) w1"
  proof (cases "mb_msgs m")
    case Nil
    then show ?thesis
      using ok room_iff(2) [OF ok] assms(2)
      by (auto simp: port_mbox_tryfetch_def xQueueReceive_def receive_loop.simps sys_arch_mbox_tryfetch_def mbox_rep_def)
  next
    case (Cons y ys)
    then obtain w1 where "receive_item api w = Some (ptr_bytes (enc y), w1)" "queue_ok api (mb_size m) 4 w1 (map (ptr_bytes \<circ> enc) ys)"
      using receive_item_ok [of api "mb_size m" 4 w "ptr_bytes (enc y)"] ok by auto
    then show ?thesis
      using Cons room_iff(2) [OF ok] assms(2)
      by (auto simp: port_mbox_tryfetch_def xQueueReceive_def receive_loop.simps sys_arch_mbox_tryfetch_def mbox_rep_def)
  qed
qed

theorem mailbox_port_refines_witness:
  "\<exists>w1. port_mbox_trypost sample_api False 0x20401000 (initialised 2 4 0x20400060 sample_world) = returns (ERR_OK, w1)"
proof -
  have "mbox_rep sample_api id \<lparr>mb_size = 2, mb_msgs = []\<rparr> (initialised 2 4 0x20400060 sample_world)"
    using sample_queue by (simp add: mbox_rep_def)
  then show ?thesis
    using mailbox_port_refines [of sample_api id "\<lparr>mb_size = 2, mb_msgs = []\<rparr>" _ "0x20401000"]
    by (auto simp: sample_api_def sys_mbox_trypost_def)
qed

text \<open>A post from an interrupt to a full mailbox does not return.\<close>

lemma interrupt_post_hangs:
  assumes "mbox_rep api enc m w" and "length (mb_msgs m) = mb_size m"
  shows "port_mbox_trypost api True p w = never_returns"
proof -
  have ok: "queue_ok api (mb_size m) 4 w (map (ptr_bytes \<circ> enc) (mb_msgs m))" using assms(1) by (simp add: mbox_rep_def)
  have "xQueueGenericSendFromISR api (Some (ptr_bytes p)) queueSEND_TO_BACK w = Some ((False, False), w)"
    using isr_send_full room_iff(1) [OF ok] assms(2) by simp
  then show ?thesis by (simp add: port_mbox_trypost_def)
qed

text \<open>With a tick of one millisecond, a fetch with a time-out of 4294968 ms does not wait at all: the product wraps.\<close>

lemma fetch_timeout_wraps: "port_mbox_fetch api 1000 4294968 w = port_mbox_tryfetch api w"
  by (simp add: port_mbox_fetch_def port_mbox_tryfetch_def)

end
