(* ===== verification/Sys_Sem.thy ===== *)
theory Sys_Sem
  imports Semaphore_Correct Sys_Mbox
begin

text \<open>
  The locks, semaphores and clock of the operating-system port of lwIP (\<^verbatim>\<open>sys_arch.c\<close>) on the semaphores and recursive mutexes of
  FreeRTOS. The port looks at the result of a take only in an \<^verbatim>\<open>LWIP_ASSERT\<close>, which loops for ever when it
  fails: that it never does, and that a lock is held when \<^verbatim>\<open>sys_mutex_lock\<close> returns, are theorems about the waits of the kernel.
\<close>

section \<open>Mutexes\<close>

definition sys_mutex_new ::
    "heap_config \<Rightarrow> u32 \<Rightarrow> (u32 \<Rightarrow> u8) \<Rightarrow> 'k mutex_api \<Rightarrow> heap_4 \<Rightarrow> 'k world \<Rightarrow> ((err_t \<times> 'k world) \<times> heap_4) run" where
  "sys_mutex_new cfg sizeof_queue raw mapi h w =
     then_run (xQueueCreateMutex cfg sizeof_queue raw mapi h w)
       (\<lambda>((mut, w), h). returns ((if mut = 0 then ERR_MEM else ERR_OK, w), h))"

definition sys_mutex_lock :: "'k mutex_api \<Rightarrow> 'k world \<Rightarrow> 'k world run" where
  "sys_mutex_lock mapi w = then_run (xQueueTakeMutexRecursive mapi portMAX_DELAY w) (\<lambda>(ret, w). lwip_assert ret (returns w))"

definition sys_mutex_unlock :: "'k mutex_api \<Rightarrow> 'k world \<Rightarrow> 'k world run" where
  "sys_mutex_unlock mapi w = then_run (xQueueGiveMutexRecursive mapi w) (\<lambda>(ret, w). lwip_assert ret (returns w))"

definition sys_mutex_free :: "heap_config \<Rightarrow> 'k world \<Rightarrow> heap_4 \<Rightarrow> heap_4 run" where
  "sys_mutex_free cfg w h = vQueueDelete cfg w h"

section \<open>Semaphores\<close>

definition SYS_ARCH_TIMEOUT :: u32 where
  "SYS_ARCH_TIMEOUT = 0xffffffff"

definition sys_sem_new ::
    "heap_config \<Rightarrow> u32 \<Rightarrow> (u32 \<Rightarrow> u8) \<Rightarrow> 'k task_api \<Rightarrow> u8 \<Rightarrow> heap_4 \<Rightarrow> 'k world \<Rightarrow> ((err_t \<times> 'k world) \<times> heap_4) run" where
  "sys_sem_new cfg sizeof_queue raw api initial_count h w =
     lwip_assert (initial_count = 0 \<or> initial_count = 1)
       (then_run (xSemaphoreCreateBinary cfg sizeof_queue raw api h w)
         (\<lambda>((sem, w), h).
            if sem = 0 then returns ((ERR_MEM, w), h)
            else if initial_count = 1 then then_run (xSemaphoreGive api w) (\<lambda>(ret, w). lwip_assert ret (returns ((ERR_OK, w), h)))
            else returns ((ERR_OK, w), h)))"

definition sys_sem_signal :: "'k task_api \<Rightarrow> 'k world \<Rightarrow> 'k world run" where
  "sys_sem_signal api w = then_run (xSemaphoreGive api w) (\<lambda>(_, w). returns w)"

definition sys_arch_sem_wait :: "'k mutex_api \<Rightarrow> u32 \<Rightarrow> u32 \<Rightarrow> 'k world \<Rightarrow> (u32 \<times> 'k world) run" where
  "sys_arch_sem_wait mapi tick_rate timeout_ms w =
     (if timeout_ms = 0 then then_run (xQueueSemaphoreTake mapi portMAX_DELAY w) (\<lambda>(ret, w). lwip_assert ret (returns (1, w)))
      else then_run (xQueueSemaphoreTake mapi (timeout_ms * tick_rate div 1000) w)
             (\<lambda>(ret, w). returns (if ret then 1 else SYS_ARCH_TIMEOUT, w)))"

definition sys_sem_free :: "heap_config \<Rightarrow> 'k world \<Rightarrow> heap_4 \<Rightarrow> heap_4 run" where
  "sys_sem_free cfg w h = vQueueDelete cfg w h"

section \<open>The clock\<close>

definition sys_now :: "u32 \<Rightarrow> 'k world \<Rightarrow> u32" where
  "sys_now portTICK_PERIOD_MS w = xTickCount w * portTICK_PERIOD_MS"

definition sys_jiffies :: "'k world \<Rightarrow> u32" where
  "sys_jiffies w = xTickCount w"

section \<open>What lwIP relies on\<close>

definition semaphore_alive :: "'k mutex_api \<Rightarrow> nat \<Rightarrow> 'k world \<Rightarrow> bool" where
  "semaphore_alive mapi n w \<longleftrightarrow> (\<exists>xs. semaphore_rep mapi n w xs) \<and> waiters_ok w"

text \<open>What a signal leaves when it leaves its critical section: a semaphore that is not empty, whether it was full before or not. What a
  wait took: one token.\<close>

definition signalled :: "'k mutex_api \<Rightarrow> 'k world \<Rightarrow> bool" where
  "signalled mapi w' \<longleftrightarrow> (\<exists>w. semaphore_rep mapi 1 w [()] \<and> w' = taskEXIT_CRITICAL (task_ops mapi) w)"

definition token_taken :: "'k mutex_api \<Rightarrow> 'k world \<Rightarrow> bool" where
  "token_taken mapi w \<longleftrightarrow> (\<exists>w0. semaphore_rep mapi 1 w0 [()] \<and> uxMessagesWaiting (the_queue w0) = 1 \<and> take_semaphore mapi w0 = Some w) \<and>
     semaphore_rep mapi 1 w []"

lemma give_when_room:
  assumes "semaphore_rep mapi 1 w []"
  shows "\<exists>w'. xSemaphoreGive (task_ops mapi) w = returns (True, taskEXIT_CRITICAL (task_ops mapi) w') \<and> semaphore_rep mapi 1 w' [()]"
proof -
  note r = semaphore_repD [OF assms]
  obtain w' where w': "send_item (task_ops mapi) [] queueSEND_TO_BACK w = Some w'"
    using give_task [OF r(1-4)] by blast
  then have "semaphore_give mapi () w w'" using r(5) by (simp add: semaphore_give_def)
  then have "semaphore_rep mapi 1 w' [()]" using semaphore.send_law [OF assms] by simp
  then show ?thesis using w' r by (auto simp: xSemaphoreGive_def xQueueGenericSend_def send_loop.simps)
qed

lemma give_when_full:
  assumes "semaphore_rep mapi 1 w [()]"
  shows "xSemaphoreGive (task_ops mapi) w = returns (False, taskEXIT_CRITICAL (task_ops mapi) w)"
  using semaphore_repD [OF assms] by (simp add: xSemaphoreGive_def xQueueGenericSend_def send_loop.simps)

lemma one_token:
  assumes "semaphore_alive mapi 1 w"
  shows "semaphore_rep mapi 1 w [] \<and> uxMessagesWaiting (the_queue w) = 0 \<or> semaphore_rep mapi 1 w [()] \<and> uxMessagesWaiting (the_queue w) = 1"
proof -
  obtain xs where xs: "semaphore_rep mapi 1 w xs" using assms by (auto simp: semaphore_alive_def)
  then have "xs = [] \<or> xs = [()]" by (cases xs) (auto simp: semaphore_rep_def)
  then show ?thesis using xs by (auto simp: semaphore_rep_def word_unat_eq_iff)
qed

lemma alive_take:
  assumes "semaphore_alive mapi 1 w" and "uxMessagesWaiting (the_queue w) > 0"
  shows "\<exists>w'. take_semaphore mapi w = Some w' \<and> token_taken mapi w'"
proof -
  have rep: "semaphore_rep mapi 1 w [()]" "uxMessagesWaiting (the_queue w) = 1" using one_token [OF assms(1)] assms(2) by auto
  note r = semaphore_repD [OF rep(1)]
  obtain w' where w': "take_semaphore mapi w = Some w'" using take_task [OF r(1,2,4)] by blast
  then have "semaphore_take mapi w () w'" using assms(2) by (simp add: semaphore_take_def)
  then have "semaphore_rep mapi 1 w' []" using semaphore.receive_law [OF rep(1)] by simp
  then show ?thesis using w' rep by (auto simp: token_taken_def)
qed

text \<open>C32. The binary semaphores of lwIP do not lose a signal and do not make one up, whatever the other tasks do in between: a signal
  leaves the semaphore set, also when it was set before; a wait that returns without \<open>SYS_ARCH_TIMEOUT\<close> has taken the one token out of a
  semaphore that was set, and a wait without a time limit returns in no other way. Neither runs into undefined behaviour, and a
  wait on a semaphore that is set returns.\<close>

theorem lwip_semaphore_sound:
  assumes "mutex_stable mapi (semaphore_alive mapi 1)" and "semaphore_alive mapi 1 w" and "\<not> scheduler_suspended (task_ops mapi) w"
    and "INCLUDE_vTaskSuspend (task_ops mapi)"
  shows "(\<exists>w'. sys_sem_signal (task_ops mapi) w = returns w' \<and> signalled mapi w')
    \<and> (case sys_arch_sem_wait mapi tick_rate timeout_ms w of
        None \<Rightarrow> uxMessagesWaiting (the_queue w) = 0
      | Some None \<Rightarrow> False
      | Some (Some (r, w')) \<Rightarrow> (r = 1 \<and> (\<exists>w1. token_taken mapi w1 \<and> w' = taskEXIT_CRITICAL (task_ops mapi) w1)
          \<or> r = SYS_ARCH_TIMEOUT \<and> timeout_ms \<noteq> 0 \<and> semaphore_alive mapi 1 w'))"
proof (intro conjI)
  show "\<exists>w'. sys_sem_signal (task_ops mapi) w = returns w' \<and> signalled mapi w'"
    using one_token [OF assms(2)] give_when_room [of mapi w] give_when_full [of mapi w] by (fastforce simp: sys_sem_signal_def signalled_def)
  define ticks where "ticks = (if timeout_ms = 0 then portMAX_DELAY else timeout_ms * tick_rate div 1000)"
  have size: "uxItemSize (the_queue w) = 0" using assms(2) by (auto simp: semaphore_alive_def semaphore_rep_def)
  have take: "xQueueSemaphoreTake mapi ticks w = take_loop mapi ticks None False w"
    using size assms(3) by (simp add: xQueueSemaphoreTake_def)
  have wait: "sys_arch_sem_wait mapi tick_rate timeout_ms w =
      then_run (take_loop mapi ticks None False w) (\<lambda>(ok, w).
        lwip_assert (ok \<or> timeout_ms \<noteq> 0) (returns (if ok then 1 else SYS_ARCH_TIMEOUT, w)))"
    by (cases "timeout_ms = 0") (simp_all add: sys_arch_sem_wait_def take [symmetric], simp_all add: ticks_def lwip_assert_def cong: if_cong)
  show "case sys_arch_sem_wait mapi tick_rate timeout_ms w of
        None \<Rightarrow> uxMessagesWaiting (the_queue w) = 0
      | Some None \<Rightarrow> False
      | Some (Some (r, w')) \<Rightarrow> (r = 1 \<and> (\<exists>w1. token_taken mapi w1 \<and> w' = taskEXIT_CRITICAL (task_ops mapi) w1)
          \<or> r = SYS_ARCH_TIMEOUT \<and> timeout_ms \<noteq> 0 \<and> semaphore_alive mapi 1 w')"
  proof (cases "take_loop mapi ticks None False w")
    case None
    then have "uxMessagesWaiting (the_queue w) = 0" by (subst (asm) take_loop.simps) (auto simp: not_less split: if_splits)
    then show ?thesis using None wait by simp
  next
    case (Some r)
    obtain ok w' where r: "r = Some (ok, w')" "unlimited mapi ticks \<longrightarrow> ok"
      "if ok then \<exists>w1. token_taken mapi w1 \<and> w' = taskEXIT_CRITICAL (task_ops mapi) w1 else semaphore_alive mapi 1 w'"
      using take_loop_result [where P = "semaphore_alive mapi 1" and Q = "token_taken mapi", OF assms(1) alive_take Some] assms(2) by blast
    moreover have "timeout_ms = 0 \<Longrightarrow> ok" using r(2) assms(4) by (simp add: unlimited_def ticks_def)
    ultimately show ?thesis using Some wait by (cases ok; cases "timeout_ms = 0") auto
  qed
qed

lemma sample_semaphore_alive: "semaphore_alive (sample_mutex_api 7) 1 (sample_semaphore 0x20400010 1 1)"
  using sample_semaphore_lists [of "0x20400010" 1 1] sample_kernel
  by (simp add: semaphore_alive_def semaphore_rep_def sample_mutex_api_def)
    (auto simp: sample_semaphore_def upd_queue_def queueQUEUE_IS_MUTEX_def intro!: exI [of _ "[()]"])

lemma sample_semaphore_stable: "mutex_stable (sample_mutex_api t) (semaphore_alive (sample_mutex_api t) 1)"
proof -
  have "stable sample_api (semaphore_alive (sample_mutex_api t) 1)"
    by (rule sample_stable) (auto simp: semaphore_alive_def semaphore_rep_def, auto simp: upd_queue_def)
  then show ?thesis by (simp add: mutex_stable_def sample_mutex_api_def semaphore_alive_def)
qed

theorem lwip_semaphore_sound_witness:
  "\<exists>w. sys_arch_sem_wait (sample_mutex_api 7) 1000 0 (sample_semaphore 0x20400010 1 1) = returns (1, w)"
proof -
  let ?m = "sample_mutex_api 7" and ?w = "sample_semaphore 0x20400010 1 1"
  have "uxMessagesWaiting (the_queue ?w) \<noteq> 0" by (simp add: sample_semaphore_def upd_queue_def)
  moreover have "\<not> scheduler_suspended (task_ops ?m) ?w" "INCLUDE_vTaskSuspend (task_ops ?m)"
    by (simp_all add: sample_mutex_api_def sample_api_def)
  ultimately show ?thesis
    using lwip_semaphore_sound [OF sample_semaphore_stable sample_semaphore_alive, of 0 1000]
    by (auto split: option.splits)
qed

text \<open>A lock of lwIP is held when the call returns, and given back by the matching unlock.\<close>

lemma lwip_lock_sound:
  assumes "mutex_others_ok mapi t" and "\<not> scheduler_suspended (task_ops mapi) w" and "INCLUDE_vTaskSuspend (task_ops mapi)"
  shows "held mapi t c w \<Longrightarrow> \<exists>w'. sys_mutex_lock mapi w = returns w' \<and> held mapi t (c + 1) w'"
    and "not_held mapi t w \<Longrightarrow> (case sys_mutex_lock mapi w of
        None \<Rightarrow> xMutexHolder (the_queue w) \<noteq> 0 | Some None \<Rightarrow> False | Some (Some w') \<Rightarrow> held mapi t 1 w')"
    and "held mapi t c w \<Longrightarrow> \<exists>w'. sys_mutex_unlock mapi w = returns w' \<and> (if c = 1 then not_held mapi t w' else held mapi t (c - 1) w')"
  using take_again [OF assms(1), of c w portMAX_DELAY] take_first [OF assms(1), of w portMAX_DELAY] give_level [OF assms(1), of c w] assms(2,3)
  by (auto simp: sys_mutex_lock_def sys_mutex_unlock_def unlimited_def then_run_def split: option.splits if_splits)

end
