(* ===== verification/FreeRTOS_Tasks.thy ===== *)
theory FreeRTOS_Tasks
  imports FreeRTOS_List
begin

text \<open>
  The scheduler of the operating system for one core (\<^verbatim>\<open>FreeRTOS/Source/tasks.c\<close>): the ready lists by priority, the two lists of
  delayed tasks between which the tick switches when its counter wraps, the list of tasks that became ready while the scheduler was suspended,
  and the suspended tasks. A task is the address of its control block, which holds two list items, one for
  its state and one for the event it waits for.

  The state is the one of the kernel. A yield outside of a critical section is the context switch; one inside of a critical section is
  made when the section is left. What an interrupted task does afterwards is not part of it: an operation that gives
  up the processor ends with the kernel in the state in which the next task runs. The repository holds no \<^verbatim>\<open>FreeRTOSConfig.h\<close>: the number of
  priorities, preemption, time slicing and the suspended list are parameters; the task is selected by the generic code, mutexes and the deletion of tasks are on, and notifications, hooks, tickless idle,
  thread-local storage, statistics and the counters for debuggers are off.
\<close>

section \<open>Data\<close>

record TCB_t =
  uxPriority :: u32
  uxBasePriority :: u32
  uxMutexesHeld :: u32

record sched_config =
  configMAX_PRIORITIES :: u32
  configUSE_PREEMPTION :: bool
  configUSE_TIME_SLICING :: bool
  INCLUDE_vTaskSuspend :: bool
  pxReadyTasksLists :: u32
  xDelayedTaskList1 :: u32
  xDelayedTaskList2 :: u32
  xPendingReadyList :: u32
  xTasksWaitingTermination :: u32
  xSuspendedTaskList :: u32

record kernel =
  tcbs :: "u32 \<Rightarrow> TCB_t option"
  task_lists :: list_mem
  pxCurrentTCB :: u32
  pxDelayedTaskList :: u32
  pxOverflowDelayedTaskList :: u32
  uxCurrentNumberOfTasks :: u32
  xTickCount :: u32
  uxTopReadyPriority :: u32
  xSchedulerRunning :: bool
  xPendedTicks :: u32
  xYieldPending :: bool
  xNumOfOverflows :: u32
  xNextTaskUnblockTime :: u32
  uxSchedulerSuspended :: u32

datatype eTaskState = eRunning | eReady | eBlocked | eSuspended | eDeleted | eInvalid

text \<open>The items inside a control block, behind the pointer to the stack, and a list of the array of ready lists.\<close>

definition xStateListItem :: "u32 \<Rightarrow> u32" where
  "xStateListItem pxTCB = pxTCB + 4"

definition xEventListItem :: "u32 \<Rightarrow> u32" where
  "xEventListItem pxTCB = pxTCB + 24"

definition ready_list :: "sched_config \<Rightarrow> u32 \<Rightarrow> u32" where
  "ready_list cfg p = pxReadyTasksLists cfg + 20 * p"

definition taskEVENT_LIST_ITEM_VALUE_IN_USE :: u32 where
  "taskEVENT_LIST_ITEM_VALUE_IN_USE = 0x80000000"

text \<open>Operations on the lists as operations on the kernel.\<close>

definition with_lists :: "(list_mem \<Rightarrow> list_mem exec) \<Rightarrow> kernel \<Rightarrow> kernel exec" where
  "with_lists f k = do { m \<leftarrow> f (task_lists k); Some (k\<lparr>task_lists := m\<rparr>) }"

definition remove_item :: "u32 \<Rightarrow> kernel \<Rightarrow> kernel exec" where
  "remove_item i = with_lists (\<lambda>m. do { (_, m) \<leftarrow> uxListRemove i m; Some m })"

definition upd_tcb :: "u32 \<Rightarrow> (TCB_t \<Rightarrow> TCB_t) \<Rightarrow> kernel \<Rightarrow> kernel exec" where
  "upd_tcb t f k = do { x \<leftarrow> tcbs k t; Some (k\<lparr>tcbs := (tcbs k)(t \<mapsto> f x)\<rparr>) }"

definition prvGetTCBFromHandle :: "u32 \<Rightarrow> kernel \<Rightarrow> u32" where
  "prvGetTCBFromHandle pxHandle k = (if pxHandle = 0 then pxCurrentTCB k else pxHandle)"

section \<open>Ready tasks\<close>

definition taskRECORD_READY_PRIORITY :: "u32 \<Rightarrow> kernel \<Rightarrow> kernel" where
  "taskRECORD_READY_PRIORITY p k = (if p > uxTopReadyPriority k then k\<lparr>uxTopReadyPriority := p\<rparr> else k)"

definition prvAddTaskToReadyList :: "sched_config \<Rightarrow> u32 \<Rightarrow> kernel \<Rightarrow> kernel exec" where
  "prvAddTaskToReadyList cfg pxTCB k = do {
     x \<leftarrow> tcbs k pxTCB;
     with_lists (vListInsertEnd (ready_list cfg (uxPriority x)) (xStateListItem pxTCB)) (taskRECORD_READY_PRIORITY (uxPriority x) k)
   }"

text \<open>The search for the highest priority with a ready task; the assertion fails when there is none.\<close>

fun find_ready :: "sched_config \<Rightarrow> list_mem \<Rightarrow> nat \<Rightarrow> nat exec" where
  "find_ready cfg m 0 = do {
     empty \<leftarrow> listLIST_IS_EMPTY (ready_list cfg 0) m;
     if empty then undefined_behaviour else Some 0
   }"
| "find_ready cfg m (Suc p) = do {
     empty \<leftarrow> listLIST_IS_EMPTY (ready_list cfg (of_nat (Suc p))) m;
     if empty then find_ready cfg m p else Some (Suc p)
   }"

definition taskSELECT_HIGHEST_PRIORITY_TASK :: "sched_config \<Rightarrow> kernel \<Rightarrow> kernel exec" where
  "taskSELECT_HIGHEST_PRIORITY_TASK cfg k = do {
     p \<leftarrow> find_ready cfg (task_lists k) (unat (uxTopReadyPriority k));
     (t, m) \<leftarrow> listGET_OWNER_OF_NEXT_ENTRY (ready_list cfg (of_nat p)) (task_lists k);
     Some (k\<lparr>task_lists := m, pxCurrentTCB := t, uxTopReadyPriority := of_nat p\<rparr>)
   }"

definition vTaskSwitchContext :: "sched_config \<Rightarrow> kernel \<Rightarrow> kernel exec" where
  "vTaskSwitchContext cfg k =
     (if uxSchedulerSuspended k \<noteq> 0 then Some (k\<lparr>xYieldPending := True\<rparr>)
      else taskSELECT_HIGHEST_PRIORITY_TASK cfg (k\<lparr>xYieldPending := False\<rparr>))"

definition higher_priority :: "u32 \<Rightarrow> kernel \<Rightarrow> bool exec" where
  "higher_priority t k = do { x \<leftarrow> tcbs k t; c \<leftarrow> tcbs k (pxCurrentTCB k); Some (uxPriority x > uxPriority c) }"

definition taskYIELD_ANY_CORE_IF_USING_PREEMPTION :: "sched_config \<Rightarrow> u32 \<Rightarrow> kernel \<Rightarrow> kernel exec" where
  "taskYIELD_ANY_CORE_IF_USING_PREEMPTION cfg pxTCB k =
     (if configUSE_PREEMPTION cfg then do {
        higher \<leftarrow> higher_priority pxTCB k;
        if higher then vTaskSwitchContext cfg k else Some k
      } else Some k)"

section \<open>Delayed tasks and the tick\<close>

definition prvResetNextTaskUnblockTime :: "kernel \<Rightarrow> kernel exec" where
  "prvResetNextTaskUnblockTime k = do {
     empty \<leftarrow> listLIST_IS_EMPTY (pxDelayedTaskList k) (task_lists k);
     t \<leftarrow> (if empty then Some portMAX_DELAY else listGET_ITEM_VALUE_OF_HEAD_ENTRY (pxDelayedTaskList k) (task_lists k));
     Some (k\<lparr>xNextTaskUnblockTime := t\<rparr>)
   }"

definition taskSWITCH_DELAYED_LISTS :: "kernel \<Rightarrow> kernel exec" where
  "taskSWITCH_DELAYED_LISTS k = do {
     empty \<leftarrow> listLIST_IS_EMPTY (pxDelayedTaskList k) (task_lists k);
     _ \<leftarrow> config_assert empty;
     prvResetNextTaskUnblockTime (k\<lparr>pxDelayedTaskList := pxOverflowDelayedTaskList k,
       pxOverflowDelayedTaskList := pxDelayedTaskList k, xNumOfOverflows := xNumOfOverflows k + 1\<rparr>)
   }"

definition prvAddCurrentTaskToDelayedList :: "sched_config \<Rightarrow> u32 \<Rightarrow> bool \<Rightarrow> kernel \<Rightarrow> kernel run" where
  "prvAddCurrentTaskToDelayedList cfg xTicksToWait xCanBlockIndefinitely k =
     (let item = xStateListItem (pxCurrentTCB k); xTimeToWake = xTickCount k + xTicksToWait in
      case remove_item item k of
        None \<Rightarrow> Some undefined_behaviour
      | Some k1 \<Rightarrow>
          if INCLUDE_vTaskSuspend cfg \<and> xTicksToWait = portMAX_DELAY \<and> xCanBlockIndefinitely
          then Some (with_lists (vListInsertEnd (xSuspendedTaskList cfg) item) k1)
          else (case with_lists (listSET_LIST_ITEM_VALUE item xTimeToWake) k1 of
              None \<Rightarrow> Some undefined_behaviour
            | Some k2 \<Rightarrow>
                if xTimeToWake < xTickCount k
                then then_run (vListInsert (pxOverflowDelayedTaskList k) item (task_lists k2)) (\<lambda>m. returns (k2\<lparr>task_lists := m\<rparr>))
                else then_run (vListInsert (pxDelayedTaskList k) item (task_lists k2))
                       (\<lambda>m. returns (k2\<lparr>task_lists := m,
                          xNextTaskUnblockTime := (if xTimeToWake < xNextTaskUnblockTime k2 then xTimeToWake else xNextTaskUnblockTime k2)\<rparr>))))"

text \<open>A task leaves the list of its state and, when it waits for an event, the list of the event.\<close>

definition leave_lists :: "u32 \<Rightarrow> kernel \<Rightarrow> kernel exec" where
  "leave_lists pxTCB k = do {
     k \<leftarrow> remove_item (xStateListItem pxTCB) k;
     c \<leftarrow> listLIST_ITEM_CONTAINER (xEventListItem pxTCB) (task_lists k);
     if c \<noteq> 0 then remove_item (xEventListItem pxTCB) k else Some k
   }"

text \<open>A delayed task becomes ready. The result says whether it
  has a higher priority than the running task.\<close>

definition unblock_task :: "sched_config \<Rightarrow> u32 \<Rightarrow> kernel \<Rightarrow> (bool \<times> kernel) exec" where
  "unblock_task cfg pxTCB k = do {
     k \<leftarrow> leave_lists pxTCB k;
     k \<leftarrow> prvAddTaskToReadyList cfg pxTCB k;
     higher \<leftarrow> higher_priority pxTCB k;
     Some (configUSE_PREEMPTION cfg \<and> higher, k)
   }"

text \<open>One round of the loop of the tick: whether it was the last, and whether a switch is required.\<close>

definition delayed_step :: "sched_config \<Rightarrow> kernel \<Rightarrow> (bool \<times> bool \<times> kernel) exec" where
  "delayed_step cfg k = do {
     empty \<leftarrow> listLIST_IS_EMPTY (pxDelayedTaskList k) (task_lists k);
     if empty then Some (True, False, k\<lparr>xNextTaskUnblockTime := portMAX_DELAY\<rparr>)
     else do {
       pxTCB \<leftarrow> listGET_OWNER_OF_HEAD_ENTRY (pxDelayedTaskList k) (task_lists k);
       v \<leftarrow> listGET_LIST_ITEM_VALUE (xStateListItem pxTCB) (task_lists k);
       if xTickCount k < v then Some (True, False, k\<lparr>xNextTaskUnblockTime := v\<rparr>)
       else do { (switch, k) \<leftarrow> unblock_task cfg pxTCB k; Some (False, switch, k) }
     }
   }"

partial_function (option) unblock_delayed :: "sched_config \<Rightarrow> bool \<Rightarrow> kernel \<Rightarrow> (bool \<times> kernel) run" where
  "unblock_delayed cfg xSwitchRequired k =
     (case delayed_step cfg k of
        None \<Rightarrow> Some undefined_behaviour
      | Some (last_round, switch, k) \<Rightarrow>
          if last_round then returns (xSwitchRequired, k) else unblock_delayed cfg (xSwitchRequired \<or> switch) k)"

definition tick_switch :: "sched_config \<Rightarrow> bool \<Rightarrow> kernel \<Rightarrow> bool exec" where
  "tick_switch cfg xSwitchRequired k = do {
     share \<leftarrow> (if configUSE_PREEMPTION cfg \<and> configUSE_TIME_SLICING cfg then do {
                 c \<leftarrow> tcbs k (pxCurrentTCB k);
                 n \<leftarrow> listCURRENT_LIST_LENGTH (ready_list cfg (uxPriority c)) (task_lists k);
                 Some (n > 1)
               } else Some False);
     Some (xSwitchRequired \<or> share \<or> configUSE_PREEMPTION cfg \<and> xYieldPending k)
   }"

definition xTaskIncrementTick :: "sched_config \<Rightarrow> kernel \<Rightarrow> (bool \<times> kernel) run" where
  "xTaskIncrementTick cfg k =
     (if uxSchedulerSuspended k = 0 then
        (let k = k\<lparr>xTickCount := xTickCount k + 1\<rparr> in
         case (if xTickCount k = 0 then taskSWITCH_DELAYED_LISTS k else Some k) of
           None \<Rightarrow> Some undefined_behaviour
         | Some k \<Rightarrow>
             then_run (if xTickCount k \<ge> xNextTaskUnblockTime k then unblock_delayed cfg False k else returns (False, k))
               (\<lambda>(switch, k). Some (do { s \<leftarrow> tick_switch cfg switch k; Some (s, k) })))
      else returns (False, k\<lparr>xPendedTicks := xPendedTicks k + 1\<rparr>))"

section \<open>Suspending the scheduler\<close>

definition vTaskSuspendAll :: "kernel \<Rightarrow> kernel" where
  "vTaskSuspendAll k = k\<lparr>uxSchedulerSuspended := uxSchedulerSuspended k + 1\<rparr>"

text \<open>The tasks that became ready in the meantime. The flag says whether there was one.\<close>

definition move_pending :: "sched_config \<Rightarrow> kernel \<Rightarrow> kernel exec" where
  "move_pending cfg k = do {
     pxTCB \<leftarrow> listGET_OWNER_OF_HEAD_ENTRY (xPendingReadyList cfg) (task_lists k);
     k \<leftarrow> remove_item (xEventListItem pxTCB) k;
     k \<leftarrow> remove_item (xStateListItem pxTCB) k;
     k \<leftarrow> prvAddTaskToReadyList cfg pxTCB k;
     higher \<leftarrow> higher_priority pxTCB k;
     Some (if higher then k\<lparr>xYieldPending := True\<rparr> else k)
   }"

partial_function (option) resume_pending :: "sched_config \<Rightarrow> bool \<Rightarrow> kernel \<Rightarrow> (bool \<times> kernel) run" where
  "resume_pending cfg moved k =
     (case listLIST_IS_EMPTY (xPendingReadyList cfg) (task_lists k) of
        None \<Rightarrow> Some undefined_behaviour
      | Some none_left \<Rightarrow>
          if none_left then returns (moved, k)
          else (case move_pending cfg k of None \<Rightarrow> Some undefined_behaviour | Some k \<Rightarrow> resume_pending cfg True k))"

text \<open>The ticks that were counted in the meantime.\<close>

fun pended_ticks :: "sched_config \<Rightarrow> nat \<Rightarrow> kernel \<Rightarrow> kernel run" where
  "pended_ticks cfg 0 k = returns k"
| "pended_ticks cfg (Suc n) k =
     then_run (xTaskIncrementTick cfg k) (\<lambda>(switch, k). pended_ticks cfg n (if switch then k\<lparr>xYieldPending := True\<rparr> else k))"

definition xTaskResumeAll :: "sched_config \<Rightarrow> kernel \<Rightarrow> (bool \<times> kernel) run" where
  "xTaskResumeAll cfg k =
     (if uxSchedulerSuspended k = 0 then Some undefined_behaviour
      else
        (let k = k\<lparr>uxSchedulerSuspended := uxSchedulerSuspended k - 1\<rparr> in
         if uxSchedulerSuspended k = 0 \<and> uxCurrentNumberOfTasks k > 0 then
           then_run (resume_pending cfg False k) (\<lambda>(moved, k).
             case (if moved then prvResetNextTaskUnblockTime k else Some k) of
               None \<Rightarrow> Some undefined_behaviour
             | Some k \<Rightarrow>
                 then_run (pended_ticks cfg (unat (xPendedTicks k)) k) (\<lambda>k.
                   let k = k\<lparr>xPendedTicks := 0\<rparr> in
                   if xYieldPending k \<and> configUSE_PREEMPTION cfg
                   then Some (do { k \<leftarrow> vTaskSwitchContext cfg k; Some (True, k) })
                   else returns (False, k)))
         else returns (False, k)))"

definition xTaskCatchUpTicks :: "sched_config \<Rightarrow> u32 \<Rightarrow> kernel \<Rightarrow> (bool \<times> kernel) run" where
  "xTaskCatchUpTicks cfg xTicksToCatchUp k =
     (if uxSchedulerSuspended k = 0 then
        (let k = vTaskSuspendAll k in xTaskResumeAll cfg (k\<lparr>xPendedTicks := xPendedTicks k + xTicksToCatchUp\<rparr>))
      else Some undefined_behaviour)"

datatype scheduler_state = taskSCHEDULER_SUSPENDED | taskSCHEDULER_NOT_STARTED | taskSCHEDULER_RUNNING

definition xTaskGetSchedulerState :: "kernel \<Rightarrow> scheduler_state" where
  "xTaskGetSchedulerState k =
     (if \<not> xSchedulerRunning k then taskSCHEDULER_NOT_STARTED
      else if uxSchedulerSuspended k = 0 then taskSCHEDULER_RUNNING else taskSCHEDULER_SUSPENDED)"

section \<open>Delays\<close>

definition taskYIELD_WITHIN_API :: "sched_config \<Rightarrow> bool \<times> kernel \<Rightarrow> kernel exec" where
  "taskYIELD_WITHIN_API cfg r = (if fst r then Some (snd r) else vTaskSwitchContext cfg (snd r))"

definition vTaskDelay :: "sched_config \<Rightarrow> u32 \<Rightarrow> kernel \<Rightarrow> kernel run" where
  "vTaskDelay cfg xTicksToDelay k =
     then_run
       (if xTicksToDelay > 0 then
          (let k = vTaskSuspendAll k in
           if uxSchedulerSuspended k = 1
           then then_run (prvAddCurrentTaskToDelayedList cfg xTicksToDelay False k) (xTaskResumeAll cfg)
           else Some undefined_behaviour)
        else returns (False, k))
       (\<lambda>r. Some (taskYIELD_WITHIN_API cfg r))"

text \<open>The result has the new \<^verbatim>\<open>*pxPreviousWakeTime\<close>.\<close>

definition should_delay :: "u32 \<Rightarrow> u32 \<Rightarrow> u32 \<Rightarrow> bool" where
  "should_delay previous xTimeToWake now =
     (if now < previous then xTimeToWake < previous \<and> xTimeToWake > now else xTimeToWake < previous \<or> xTimeToWake > now)"

definition xTaskDelayUntil :: "sched_config \<Rightarrow> u32 \<Rightarrow> u32 \<Rightarrow> kernel \<Rightarrow> ((bool \<times> u32) \<times> kernel) run" where
  "xTaskDelayUntil cfg previous xTimeIncrement k =
     (let k = vTaskSuspendAll k; xTimeToWake = previous + xTimeIncrement; xShouldDelay = should_delay previous xTimeToWake (xTickCount k) in
      if xTimeIncrement > 0 \<and> uxSchedulerSuspended k = 1 then
        then_run (if xShouldDelay then prvAddCurrentTaskToDelayedList cfg (xTimeToWake - xTickCount k) False k else returns k) (\<lambda>k.
          then_run (xTaskResumeAll cfg k) (\<lambda>r.
            Some (do { k \<leftarrow> taskYIELD_WITHIN_API cfg r; Some ((xShouldDelay, xTimeToWake), k) })))
      else Some undefined_behaviour)"

section \<open>Event lists\<close>

definition vTaskPlaceOnEventList :: "sched_config \<Rightarrow> u32 \<Rightarrow> u32 \<Rightarrow> kernel \<Rightarrow> kernel run" where
  "vTaskPlaceOnEventList cfg pxEventList xTicksToWait k =
     then_run (vListInsert pxEventList (xEventListItem (pxCurrentTCB k)) (task_lists k))
       (\<lambda>m. prvAddCurrentTaskToDelayedList cfg xTicksToWait True (k\<lparr>task_lists := m\<rparr>))"

definition vTaskPlaceOnUnorderedEventList :: "sched_config \<Rightarrow> u32 \<Rightarrow> u32 \<Rightarrow> u32 \<Rightarrow> kernel \<Rightarrow> kernel run" where
  "vTaskPlaceOnUnorderedEventList cfg pxEventList value xTicksToWait k =
     (case do {
        _ \<leftarrow> config_assert (uxSchedulerSuspended k \<noteq> 0);
        k \<leftarrow> with_lists (listSET_LIST_ITEM_VALUE (xEventListItem (pxCurrentTCB k)) (value OR taskEVENT_LIST_ITEM_VALUE_IN_USE)) k;
        with_lists (vListInsertEnd pxEventList (xEventListItem (pxCurrentTCB k))) k
      } of
        None \<Rightarrow> Some undefined_behaviour
      | Some k \<Rightarrow> prvAddCurrentTaskToDelayedList cfg xTicksToWait True k)"

definition vTaskPlaceOnEventListRestricted :: "sched_config \<Rightarrow> u32 \<Rightarrow> u32 \<Rightarrow> bool \<Rightarrow> kernel \<Rightarrow> kernel run" where
  "vTaskPlaceOnEventListRestricted cfg pxEventList xTicksToWait xWaitIndefinitely k =
     (case with_lists (vListInsertEnd pxEventList (xEventListItem (pxCurrentTCB k))) k of
        None \<Rightarrow> Some undefined_behaviour
      | Some k \<Rightarrow> prvAddCurrentTaskToDelayedList cfg (if xWaitIndefinitely then portMAX_DELAY else xTicksToWait) xWaitIndefinitely k)"

definition xTaskRemoveFromEventList :: "sched_config \<Rightarrow> u32 \<Rightarrow> kernel \<Rightarrow> (bool \<times> kernel) exec" where
  "xTaskRemoveFromEventList cfg pxEventList k = do {
     pxUnblockedTCB \<leftarrow> listGET_OWNER_OF_HEAD_ENTRY pxEventList (task_lists k);
     _ \<leftarrow> config_assert (pxUnblockedTCB \<noteq> 0);
     k \<leftarrow> remove_item (xEventListItem pxUnblockedTCB) k;
     k \<leftarrow> (if uxSchedulerSuspended k = 0 then do {
             k \<leftarrow> remove_item (xStateListItem pxUnblockedTCB) k;
             prvAddTaskToReadyList cfg pxUnblockedTCB k
           } else with_lists (vListInsertEnd (xPendingReadyList cfg) (xEventListItem pxUnblockedTCB)) k);
     higher \<leftarrow> higher_priority pxUnblockedTCB k;
     Some (higher, if higher then k\<lparr>xYieldPending := True\<rparr> else k)
   }"

definition vTaskRemoveFromUnorderedEventList :: "sched_config \<Rightarrow> u32 \<Rightarrow> u32 \<Rightarrow> kernel \<Rightarrow> kernel exec" where
  "vTaskRemoveFromUnorderedEventList cfg pxEventListItem value k = do {
     _ \<leftarrow> config_assert (uxSchedulerSuspended k \<noteq> 0);
     k \<leftarrow> with_lists (listSET_LIST_ITEM_VALUE pxEventListItem (value OR taskEVENT_LIST_ITEM_VALUE_IN_USE)) k;
     x \<leftarrow> list_items (task_lists k) pxEventListItem;
     let pxUnblockedTCB = pvOwner x;
     _ \<leftarrow> config_assert (pxUnblockedTCB \<noteq> 0);
     k \<leftarrow> remove_item pxEventListItem k;
     k \<leftarrow> remove_item (xStateListItem pxUnblockedTCB) k;
     k \<leftarrow> prvAddTaskToReadyList cfg pxUnblockedTCB k;
     higher \<leftarrow> higher_priority pxUnblockedTCB k;
     Some (if higher then k\<lparr>xYieldPending := True\<rparr> else k)
   }"

definition vTaskMissedYield :: "kernel \<Rightarrow> kernel" where
  "vTaskMissedYield k = k\<lparr>xYieldPending := True\<rparr>"

section \<open>Suspending and resuming a task\<close>

definition vTaskSuspend :: "sched_config \<Rightarrow> u32 \<Rightarrow> kernel \<Rightarrow> kernel exec" where
  "vTaskSuspend cfg xTaskToSuspend k = do {
     let pxTCB = prvGetTCBFromHandle xTaskToSuspend k;
     k \<leftarrow> leave_lists pxTCB k;
     k \<leftarrow> with_lists (vListInsertEnd (xSuspendedTaskList cfg) (xStateListItem pxTCB)) k;
     k \<leftarrow> (if xSchedulerRunning k then prvResetNextTaskUnblockTime k else Some k);
     if pxTCB = pxCurrentTCB k then
       (if xSchedulerRunning k then do {
          _ \<leftarrow> config_assert (uxSchedulerSuspended k = 0);
          vTaskSwitchContext cfg k
        } else do {
          n \<leftarrow> listCURRENT_LIST_LENGTH (xSuspendedTaskList cfg) (task_lists k);
          if n = uxCurrentNumberOfTasks k then Some (k\<lparr>pxCurrentTCB := 0\<rparr>) else vTaskSwitchContext cfg k
        })
     else Some k
   }"

definition prvTaskIsTaskSuspended :: "sched_config \<Rightarrow> u32 \<Rightarrow> kernel \<Rightarrow> bool exec" where
  "prvTaskIsTaskSuspended cfg xTask k = do {
     _ \<leftarrow> config_assert (xTask \<noteq> 0);
     s \<leftarrow> listIS_CONTAINED_WITHIN (xSuspendedTaskList cfg) (xStateListItem xTask) (task_lists k);
     p \<leftarrow> listIS_CONTAINED_WITHIN (xPendingReadyList cfg) (xEventListItem xTask) (task_lists k);
     e \<leftarrow> listIS_CONTAINED_WITHIN 0 (xEventListItem xTask) (task_lists k);
     Some (s \<and> \<not> p \<and> e)
   }"

definition vTaskResume :: "sched_config \<Rightarrow> u32 \<Rightarrow> kernel \<Rightarrow> kernel exec" where
  "vTaskResume cfg xTaskToResume k = do {
     _ \<leftarrow> config_assert (xTaskToResume \<noteq> 0);
     if xTaskToResume \<noteq> pxCurrentTCB k then do {
       s \<leftarrow> prvTaskIsTaskSuspended cfg xTaskToResume k;
       if s then do {
         k \<leftarrow> remove_item (xStateListItem xTaskToResume) k;
         k \<leftarrow> prvAddTaskToReadyList cfg xTaskToResume k;
         taskYIELD_ANY_CORE_IF_USING_PREEMPTION cfg xTaskToResume k
       } else Some k
     } else Some k
   }"

definition xTaskResumeFromISR :: "sched_config \<Rightarrow> u32 \<Rightarrow> kernel \<Rightarrow> (bool \<times> kernel) exec" where
  "xTaskResumeFromISR cfg xTaskToResume k = do {
     _ \<leftarrow> config_assert (xTaskToResume \<noteq> 0);
     s \<leftarrow> prvTaskIsTaskSuspended cfg xTaskToResume k;
     if \<not> s then Some (False, k)
     else if uxSchedulerSuspended k = 0 then do {
       higher \<leftarrow> higher_priority xTaskToResume k;
       let k = (if higher then k\<lparr>xYieldPending := True\<rparr> else k);
       k \<leftarrow> remove_item (xStateListItem xTaskToResume) k;
       k \<leftarrow> prvAddTaskToReadyList cfg xTaskToResume k;
       Some (higher, k)
     } else do {
       k \<leftarrow> with_lists (vListInsertEnd (xPendingReadyList cfg) (xEventListItem xTaskToResume)) k;
       Some (False, k)
     }
   }"

text \<open>The state of a task. It reads the containers of both items inside one critical section.\<close>

definition eTaskGetState :: "sched_config \<Rightarrow> u32 \<Rightarrow> kernel \<Rightarrow> eTaskState exec" where
  "eTaskGetState cfg xTask k = do {
     _ \<leftarrow> config_assert (xTask \<noteq> 0);
     if xTask = pxCurrentTCB k then Some eRunning
     else do {
       pxStateList \<leftarrow> listLIST_ITEM_CONTAINER (xStateListItem xTask) (task_lists k);
       pxEventList \<leftarrow> listLIST_ITEM_CONTAINER (xEventListItem xTask) (task_lists k);
       Some (if pxEventList = xPendingReadyList cfg then eReady
             else if pxStateList = pxDelayedTaskList k \<or> pxStateList = pxOverflowDelayedTaskList k then eBlocked
             else if INCLUDE_vTaskSuspend cfg \<and> pxStateList = xSuspendedTaskList cfg then (if pxEventList = 0 then eSuspended else eBlocked)
             else if pxStateList = xTasksWaitingTermination cfg \<or> pxStateList = 0 then eDeleted
             else eReady)
     }
   }"

section \<open>Priorities\<close>

definition uxTaskPriorityGet :: "u32 \<Rightarrow> kernel \<Rightarrow> u32 exec" where
  "uxTaskPriorityGet xTask k = do { x \<leftarrow> tcbs k (prvGetTCBFromHandle xTask k); Some (uxPriority x) }"

definition uxTaskBasePriorityGet :: "u32 \<Rightarrow> kernel \<Rightarrow> u32 exec" where
  "uxTaskBasePriorityGet xTask k = do { x \<leftarrow> tcbs k (prvGetTCBFromHandle xTask k); Some (uxBasePriority x) }"

definition uxTaskResetEventItemValue :: "sched_config \<Rightarrow> kernel \<Rightarrow> (u32 \<times> kernel) exec" where
  "uxTaskResetEventItemValue cfg k = do {
     v \<leftarrow> listGET_LIST_ITEM_VALUE (xEventListItem (pxCurrentTCB k)) (task_lists k);
     c \<leftarrow> tcbs k (pxCurrentTCB k);
     k \<leftarrow> with_lists (listSET_LIST_ITEM_VALUE (xEventListItem (pxCurrentTCB k)) (configMAX_PRIORITIES cfg - uxPriority c)) k;
     Some (v, k)
   }"

text \<open>The value of the event item follows the priority unless the item is used for something else.\<close>

definition set_event_value :: "sched_config \<Rightarrow> u32 \<Rightarrow> u32 \<Rightarrow> kernel \<Rightarrow> kernel exec" where
  "set_event_value cfg pxTCB p k = do {
     v \<leftarrow> listGET_LIST_ITEM_VALUE (xEventListItem pxTCB) (task_lists k);
     if v AND taskEVENT_LIST_ITEM_VALUE_IN_USE = 0
     then with_lists (listSET_LIST_ITEM_VALUE (xEventListItem pxTCB) (configMAX_PRIORITIES cfg - p)) k
     else Some k
   }"

definition vTaskPrioritySet :: "sched_config \<Rightarrow> u32 \<Rightarrow> u32 \<Rightarrow> kernel \<Rightarrow> kernel exec" where
  "vTaskPrioritySet cfg xTask uxNewPriority k = do {
     _ \<leftarrow> config_assert (uxNewPriority < configMAX_PRIORITIES cfg);
     let pxTCB = prvGetTCBFromHandle xTask k;
     x \<leftarrow> tcbs k pxTCB;
     if uxBasePriority x \<noteq> uxNewPriority then do {
       xYieldRequired \<leftarrow>
         (if uxNewPriority > uxBasePriority x then
            (if pxTCB \<noteq> pxCurrentTCB k then do { c \<leftarrow> tcbs k (pxCurrentTCB k); Some (uxNewPriority > uxPriority c) } else Some False)
          else Some (pxTCB = pxCurrentTCB k));
       k \<leftarrow> upd_tcb pxTCB (\<lambda>x.
         (if uxBasePriority x = uxPriority x \<or> uxNewPriority > uxPriority x then x\<lparr>uxPriority := uxNewPriority\<rparr> else x)
           \<lparr>uxBasePriority := uxNewPriority\<rparr>) k;
       k \<leftarrow> set_event_value cfg pxTCB uxNewPriority k;
       r \<leftarrow> listIS_CONTAINED_WITHIN (ready_list cfg (uxPriority x)) (xStateListItem pxTCB) (task_lists k);
       k \<leftarrow> (if r then do { k \<leftarrow> remove_item (xStateListItem pxTCB) k; prvAddTaskToReadyList cfg pxTCB k } else Some k);
       if xYieldRequired \<and> configUSE_PREEMPTION cfg then vTaskSwitchContext cfg k else Some k
     } else Some k
   }"

definition xTaskPriorityInherit :: "sched_config \<Rightarrow> u32 \<Rightarrow> kernel \<Rightarrow> (bool \<times> kernel) exec" where
  "xTaskPriorityInherit cfg pxMutexHolder k =
     (if pxMutexHolder \<noteq> 0 then do {
        h \<leftarrow> tcbs k pxMutexHolder;
        c \<leftarrow> tcbs k (pxCurrentTCB k);
        if uxPriority h < uxPriority c then do {
          k \<leftarrow> set_event_value cfg pxMutexHolder (uxPriority c) k;
          r \<leftarrow> listIS_CONTAINED_WITHIN (ready_list cfg (uxPriority h)) (xStateListItem pxMutexHolder) (task_lists k);
          k \<leftarrow> (if r then do {
                  k \<leftarrow> remove_item (xStateListItem pxMutexHolder) k;
                  k \<leftarrow> upd_tcb pxMutexHolder (\<lambda>x. x\<lparr>uxPriority := uxPriority c\<rparr>) k;
                  prvAddTaskToReadyList cfg pxMutexHolder k
                } else upd_tcb pxMutexHolder (\<lambda>x. x\<lparr>uxPriority := uxPriority c\<rparr>) k);
          Some (True, k)
        } else Some (uxBasePriority h < uxPriority c, k)
      } else Some (False, k))"

definition xTaskPriorityDisinherit :: "sched_config \<Rightarrow> u32 \<Rightarrow> kernel \<Rightarrow> (bool \<times> kernel) exec" where
  "xTaskPriorityDisinherit cfg pxMutexHolder k =
     (if pxMutexHolder \<noteq> 0 then do {
        _ \<leftarrow> config_assert (pxMutexHolder = pxCurrentTCB k);
        x \<leftarrow> tcbs k pxMutexHolder;
        _ \<leftarrow> config_assert (uxMutexesHeld x \<noteq> 0);
        k \<leftarrow> upd_tcb pxMutexHolder (\<lambda>x. x\<lparr>uxMutexesHeld := uxMutexesHeld x - 1\<rparr>) k;
        if uxPriority x \<noteq> uxBasePriority x \<and> uxMutexesHeld x - 1 = 0 then do {
          k \<leftarrow> remove_item (xStateListItem pxMutexHolder) k;
          k \<leftarrow> upd_tcb pxMutexHolder (\<lambda>x. x\<lparr>uxPriority := uxBasePriority x\<rparr>) k;
          k \<leftarrow> with_lists (listSET_LIST_ITEM_VALUE (xEventListItem pxMutexHolder) (configMAX_PRIORITIES cfg - uxBasePriority x)) k;
          k \<leftarrow> prvAddTaskToReadyList cfg pxMutexHolder k;
          Some (True, k)
        } else Some (False, k)
      } else Some (False, k))"

definition vTaskPriorityDisinheritAfterTimeout :: "sched_config \<Rightarrow> u32 \<Rightarrow> u32 \<Rightarrow> kernel \<Rightarrow> kernel exec" where
  "vTaskPriorityDisinheritAfterTimeout cfg pxMutexHolder uxHighestPriorityWaitingTask k =
     (if pxMutexHolder \<noteq> 0 then do {
        x \<leftarrow> tcbs k pxMutexHolder;
        _ \<leftarrow> config_assert (uxMutexesHeld x \<noteq> 0);
        let uxPriorityToUse = (if uxBasePriority x < uxHighestPriorityWaitingTask then uxHighestPriorityWaitingTask else uxBasePriority x);
        if uxPriority x \<noteq> uxPriorityToUse \<and> uxMutexesHeld x = 1 then do {
          _ \<leftarrow> config_assert (pxMutexHolder \<noteq> pxCurrentTCB k);
          k \<leftarrow> upd_tcb pxMutexHolder (\<lambda>x. x\<lparr>uxPriority := uxPriorityToUse\<rparr>) k;
          k \<leftarrow> set_event_value cfg pxMutexHolder uxPriorityToUse k;
          r \<leftarrow> listIS_CONTAINED_WITHIN (ready_list cfg (uxPriority x)) (xStateListItem pxMutexHolder) (task_lists k);
          if r then do { k \<leftarrow> remove_item (xStateListItem pxMutexHolder) k; prvAddTaskToReadyList cfg pxMutexHolder k } else Some k
        } else Some k
      } else Some k)"

definition pvTaskIncrementMutexHeldCount :: "kernel \<Rightarrow> (u32 \<times> kernel) exec" where
  "pvTaskIncrementMutexHeldCount k =
     (if pxCurrentTCB k \<noteq> 0 then do {
        k \<leftarrow> upd_tcb (pxCurrentTCB k) (\<lambda>x. x\<lparr>uxMutexesHeld := uxMutexesHeld x + 1\<rparr>) k;
        Some (pxCurrentTCB k, k)
      } else Some (0, k))"

section \<open>Start\<close>

fun initialise_ready_lists :: "sched_config \<Rightarrow> nat \<Rightarrow> list_mem \<Rightarrow> list_mem" where
  "initialise_ready_lists cfg 0 m = m"
| "initialise_ready_lists cfg (Suc p) m = vListInitialise (ready_list cfg (of_nat p)) (initialise_ready_lists cfg p m)"

definition prvInitialiseTaskLists :: "sched_config \<Rightarrow> kernel \<Rightarrow> kernel" where
  "prvInitialiseTaskLists cfg k =
     (let m = initialise_ready_lists cfg (unat (configMAX_PRIORITIES cfg)) (task_lists k);
          m = vListInitialise (xDelayedTaskList1 cfg) m;
          m = vListInitialise (xDelayedTaskList2 cfg) m;
          m = vListInitialise (xPendingReadyList cfg) m;
          m = vListInitialise (xTasksWaitingTermination cfg) m;
          m = (if INCLUDE_vTaskSuspend cfg then vListInitialise (xSuspendedTaskList cfg) m else m)
      in k\<lparr>task_lists := m, pxDelayedTaskList := xDelayedTaskList1 cfg, pxOverflowDelayedTaskList := xDelayedTaskList2 cfg\<rparr>)"

definition prvAddNewTaskToReadyList :: "sched_config \<Rightarrow> u32 \<Rightarrow> kernel \<Rightarrow> kernel exec" where
  "prvAddNewTaskToReadyList cfg pxNewTCB k = do {
     let k = k\<lparr>uxCurrentNumberOfTasks := uxCurrentNumberOfTasks k + 1\<rparr>;
     k \<leftarrow> (if pxCurrentTCB k = 0 then
             Some ((if uxCurrentNumberOfTasks k = 1 then prvInitialiseTaskLists cfg else id) (k\<lparr>pxCurrentTCB := pxNewTCB\<rparr>))
           else if \<not> xSchedulerRunning k then do {
             c \<leftarrow> tcbs k (pxCurrentTCB k);
             x \<leftarrow> tcbs k pxNewTCB;
             Some (if uxPriority c \<le> uxPriority x then k\<lparr>pxCurrentTCB := pxNewTCB\<rparr> else k)
           } else Some k);
     k \<leftarrow> prvAddTaskToReadyList cfg pxNewTCB k;
     if xSchedulerRunning k then taskYIELD_ANY_CORE_IF_USING_PREEMPTION cfg pxNewTCB k else Some k
   }"

end
