(* ===== verification/List_Family.thy ===== *)
theory List_Family
  imports FreeRTOS_List
begin

text \<open>
  A family of lists that share one store, as the lists of the scheduler and of its queues do: the map \<open>L\<close> gives the items of every list, and no two
  lists have an item or a marker in common. The operations on one list are operations on its entry of the map, and leave the others, the
  values and the owners of all items alone.
\<close>

lemma marker_eq [simp]: "xListEnd l = xListEnd l' \<longleftrightarrow> l = l'"
  by (simp add: xListEnd_def)

definition list_family :: "(u32 \<rightharpoonup> u32 list) \<Rightarrow> list_mem \<Rightarrow> bool" where
  "list_family L m \<longleftrightarrow> (\<forall>l xs. L l = Some xs \<longrightarrow> list_rep l xs m) \<and>
     (\<forall>l xs l' ys. L l = Some xs \<longrightarrow> L l' = Some ys \<longrightarrow> l \<noteq> l' \<longrightarrow> set (xListEnd l # xs) \<inter> set (xListEnd l' # ys) = {})"

text \<open>An item that is in no list and is no marker.\<close>

definition unlisted :: "(u32 \<rightharpoonup> u32 list) \<Rightarrow> u32 \<Rightarrow> bool" where
  "unlisted L i \<longleftrightarrow> (\<forall>l xs. L l = Some xs \<longrightarrow> i \<notin> set (xListEnd l # xs))"

definition container :: "list_mem \<Rightarrow> u32 \<Rightarrow> u32" where
  "container m a = (case list_items m a of Some x \<Rightarrow> pxContainer x | None \<Rightarrow> 0)"

text \<open>What the operations do not change.\<close>

definition same_items :: "list_mem \<Rightarrow> list_mem \<Rightarrow> bool" where
  "same_items m m' \<longleftrightarrow> item_value m' = item_value m \<and> owner m' = owner m \<and> (\<forall>a. list_items m' a = None \<longleftrightarrow> list_items m a = None)"

lemma same_items_trans: "same_items m m' \<Longrightarrow> same_items m' m'' \<Longrightarrow> same_items m m''"
  by (simp add: same_items_def)

lemma between_items:
  "same_items m (insert_between l p i n m)" "same_items m (remove_between l p i n m)"
  "list_items m i \<noteq> None \<Longrightarrow> container (insert_between l p i n m) = (container m)(i := l)"
  "container (remove_between l p i n m) = (container m)(i := 0)"
  by (auto simp: same_items_def item_value_def owner_def container_def insert_between_def remove_between_def fun_eq_iff split: option.splits)

lemma family_rep: "list_family L m \<Longrightarrow> L l = Some xs \<Longrightarrow> list_rep l xs m"
  by (simp add: list_family_def)

lemma family_disjoint:
  "list_family L m \<Longrightarrow> L l = Some xs \<Longrightarrow> L k = Some zs \<Longrightarrow> k \<noteq> l \<Longrightarrow> set (xListEnd l # xs) \<inter> set (xListEnd k # zs) = {}"
  unfolding list_family_def by blast

lemma family_container:
  assumes "list_family L m" and "L l = Some xs" and "x \<in> set xs"
  shows "container m x = l"
  using family_rep [OF assms(1,2)] assms(3) by (auto simp: list_rep_def container_def)

lemma family_unique:
  assumes "list_family L m" and "L l = Some xs" and "x \<in> set xs" and "L l' = Some ys" and "x \<in> set ys"
  shows "l = l'"
  using family_container [OF assms(1-3)] family_container [OF assms(1,4,5)] by simp

text \<open>The other lists are left alone by a change between items of one list.\<close>

lemma family_update:
  assumes "list_family L m" and "L l = Some xs" and "list_rep l ys m'"
    and "\<And>a. a \<notin> set (xListEnd l # xs) \<Longrightarrow> a \<notin> set (xListEnd l # ys) \<Longrightarrow> list_items m' a = list_items m a"
    and "\<And>k. k \<noteq> l \<Longrightarrow> list_heads m' k = list_heads m k"
    and "\<And>a k zs. a \<in> set ys \<Longrightarrow> a \<notin> set xs \<Longrightarrow> L k = Some zs \<Longrightarrow> a \<notin> set (xListEnd k # zs)"
  shows "list_family (L(l \<mapsto> ys)) m'"
proof -
  have disjoint: "set (xListEnd l # ys) \<inter> set (xListEnd k # zs) = {}" if "L k = Some zs" "k \<noteq> l" for k zs
  proof -
    show ?thesis using family_disjoint [OF assms(1,2) that] assms(6) [OF _ _ that(1)] by auto
  qed
  have "list_rep k zs m'" if "L k = Some zs" "k \<noteq> l" for k zs
  proof -
    have "list_items m' a = list_items m a" if "a \<in> set (xListEnd k # zs)" for a
      using that disjoint [OF \<open>L k = Some zs\<close> \<open>k \<noteq> l\<close>] family_disjoint [OF assms(1,2) \<open>L k = Some zs\<close> \<open>k \<noteq> l\<close>]
      by (intro assms(4)) auto
    then show ?thesis using list_rep_cong [of k zs m' m] assms(5) [OF that(2)] family_rep [OF assms(1) that(1)] by blast
  qed
  then have reps: "list_rep k zs m'" if "(L(l \<mapsto> ys)) k = Some zs" for k zs
    using that assms(3) by (cases "k = l") auto
  have "set (xListEnd j # ws) \<inter> set (xListEnd k # zs) = {}"
    if "(L(l \<mapsto> ys)) j = Some ws" "(L(l \<mapsto> ys)) k = Some zs" "j \<noteq> k" for j ws k zs
    using that disjoint [of k zs] disjoint [of j ws] family_disjoint [OF assms(1), of j ws k zs] by (cases "j = l"; cases "k = l") auto
  then show ?thesis using reps unfolding list_family_def by blast
qed

lemma family_insert:
  assumes "list_family L m" and "L l = Some (us @ vs)" and "unlisted L i" and "list_items m i \<noteq> None"
  shows "list_family (L(l \<mapsto> us @ i # vs)) (insert_between l (last (xListEnd l # us)) i (hd (vs @ [xListEnd l])) m)"
proof (rule family_update [OF assms(1,2)])
  have out: "i \<notin> set (xListEnd l # us @ vs)" using assms(2,3) unfolding unlisted_def by blast
  show "list_rep l (us @ i # vs) (insert_between l (last (xListEnd l # us)) i (hd (vs @ [xListEnd l])) m)"
    by (rule list_rep_insert [OF family_rep [OF assms(1,2)] assms(4) out])
next
  fix a
  assume "a \<notin> set (xListEnd l # us @ vs)" "a \<notin> set (xListEnd l # us @ i # vs)"
  then show "list_items (insert_between l (last (xListEnd l # us)) i (hd (vs @ [xListEnd l])) m) a = list_items m a"
    by (intro between_frame) (cases us rule: rev_cases; cases vs; auto)
next
  fix k
  assume "k \<noteq> l"
  then show "list_heads (insert_between l (last (xListEnd l # us)) i (hd (vs @ [xListEnd l])) m) k = list_heads m k"
    by (rule between_frame)
next
  fix a k zs
  assume "a \<in> set (us @ i # vs)" "a \<notin> set (us @ vs)" "L k = Some zs"
  then show "a \<notin> set (xListEnd k # zs)" using assms(3) by (auto simp: unlisted_def)
qed

lemma family_insert_end:
  assumes "list_family L m" and "L l = Some xs" and "unlisted L i" and "list_items m i \<noteq> None"
  shows "\<exists>m' us vs. xs = us @ vs \<and> vListInsertEnd l i m = Some m' \<and> list_family (L(l \<mapsto> us @ i # vs)) m' \<and>
    same_items m m' \<and> container m' = (container m)(i := l)"
proof -
  have rep: "list_rep l xs m" by (rule family_rep [OF assms(1,2)])
  obtain us vs where split: "xs = us @ vs" "list_index l m = hd (vs @ [xListEnd l])"
  proof (cases "list_index l m = xListEnd l")
    case True
    then show ?thesis using that [of xs "[]"] by simp
  next
    case False
    then obtain us vs where "xs = us @ list_index l m # vs" using list_rep_index [OF rep] by (auto simp: in_set_conv_decomp)
    then show ?thesis using that [of us "list_index l m # vs"] by simp
  qed
  have "i \<notin> set (xListEnd l # us @ vs)" using assms(2,3) split(1) unfolding unlisted_def by blast
  then show ?thesis
    using insert_end_runs(1) [of l us vs m i] family_insert [of L m l us vs i] assms rep split between_items(1,3) [of m] by fastforce
qed

lemma set_place: "set (place m i xs) = insert i (set xs)"
  unfolding place_def by (metis Un_insert_right list.simps(15) set_append takeWhile_dropWhile_id)

lemma family_insert_sorted:
  assumes "list_family L m" and "L l = Some xs" and "unlisted L i" and "list_items m i \<noteq> None"
  shows "\<exists>m'. vListInsert l i m = returns m' \<and> list_family (L(l \<mapsto> place m i xs)) m' \<and> same_items m m' \<and> container m' = (container m)(i := l)"
proof -
  have rep: "list_rep l xs m" by (rule family_rep [OF assms(1,2)])
  have out: "i \<notin> set (xListEnd l # xs)" using assms(2,3) unfolding unlisted_def by blast
  obtain p n where pn: "vListInsert l i m = returns (insert_between l p i n m)" "p \<in> set (xListEnd l # xs)" "n \<in> set (xListEnd l # xs)"
      "list_rep l (place m i xs) (insert_between l p i n m)"
    using insert_runs [OF rep _ out] assms(4) by blast
  have "list_family (L(l \<mapsto> place m i xs)) (insert_between l p i n m)"
    using assms(3) pn(2,3) by (intro family_update [OF assms(1,2) pn(4)] between_frame) (auto simp: set_place unlisted_def)
  then show ?thesis using pn(1) between_items(1,3) [of m] assms(4) by auto
qed

lemma family_remove:
  assumes "list_family L m" and "L l = Some (us @ i # vs)"
  shows "\<exists>m'. uxListRemove i m = Some (of_nat (length (us @ vs)), m') \<and> list_family (L(l \<mapsto> us @ vs)) m' \<and> same_items m m' \<and>
    container m' = (container m)(i := 0) \<and> unlisted (L(l \<mapsto> us @ vs)) i"
proof -
  have rep: "list_rep l (us @ i # vs) m" by (rule family_rep [OF assms])
  let ?m = "remove_between l (last (xListEnd l # us)) i (hd (vs @ [xListEnd l])) m"
  note r = list_rep_remove [OF rep]
  have "list_family (L(l \<mapsto> us @ vs)) ?m"
    by (intro family_update [OF assms r(2)] between_frame) (cases us rule: rev_cases; cases vs; auto)+
  moreover have "unlisted (L(l \<mapsto> us @ vs)) i"
  proof -
    have "i \<notin> set (xListEnd k # zs)" if "L k = Some zs" "k \<noteq> l" for k zs
      using family_disjoint [OF assms that] by auto
    moreover have "i \<notin> set (xListEnd l # us @ vs)" using rep by (auto simp: list_rep_def)
    ultimately show ?thesis by (auto simp: unlisted_def)
  qed
  ultimately show ?thesis using r(1) between_items(2,4) by blast
qed

text \<open>Reading and writing single fields.\<close>

lemma family_empty:
  assumes "list_family L m" and "L l = Some xs" and "length xs < 2 ^ 32"
  shows "listLIST_IS_EMPTY l m = Some (xs = [])" and "listCURRENT_LIST_LENGTH l m = Some (of_nat (length xs))"
proof -
  obtain h where "list_heads m l = Some h" "uxNumberOfItems h = of_nat (length xs)"
    using family_rep [OF assms(1,2)] by (auto simp: list_rep_def)
  moreover have "(of_nat (length xs) :: u32) = 0 \<longleftrightarrow> xs = []"
    using unat_of_nat_u32 [of "length xs"] assms(3) by (cases "xs = []") (auto simp: word_unat_eq_iff simp del: of_nat_eq_0_iff)
  ultimately show "listLIST_IS_EMPTY l m = Some (xs = [])" "listCURRENT_LIST_LENGTH l m = Some (of_nat (length xs))"
    by (simp_all add: listLIST_IS_EMPTY_def listCURRENT_LIST_LENGTH_def)
qed

lemma family_head:
  assumes "list_family L m" and "L l = Some (x # xs)"
  shows "listGET_OWNER_OF_HEAD_ENTRY l m = Some (owner m x)" and "listGET_ITEM_VALUE_OF_HEAD_ENTRY l m = Some (item_value m x)"
proof -
  have "link m (xListEnd l) x" using list_rep_link [of l "[]" "x # xs" m] family_rep [OF assms] by simp
  then show "listGET_OWNER_OF_HEAD_ENTRY l m = Some (owner m x)" "listGET_ITEM_VALUE_OF_HEAD_ENTRY l m = Some (item_value m x)"
    by (auto simp: link_def listGET_OWNER_OF_HEAD_ENTRY_def listGET_ITEM_VALUE_OF_HEAD_ENTRY_def owner_def item_value_def)
qed

lemma item_reads:
  assumes "list_items m i \<noteq> None"
  shows "listGET_LIST_ITEM_VALUE i m = Some (item_value m i)" and "listLIST_ITEM_CONTAINER i m = Some (container m i)"
    and "listIS_CONTAINED_WITHIN l i m = Some (container m i = l)"
  using assms by (auto simp: listGET_LIST_ITEM_VALUE_def listLIST_ITEM_CONTAINER_def listIS_CONTAINED_WITHIN_def item_value_def container_def)

lemma family_set_value:
  assumes "list_family L m" and "list_items m i \<noteq> None" and "\<And>l xs. L l = Some xs \<Longrightarrow> i \<noteq> xListEnd l"
  shows "\<exists>m'. listSET_LIST_ITEM_VALUE i v m = Some m' \<and> list_family L m' \<and> item_value m' = (item_value m)(i := v) \<and> owner m' = owner m \<and>
    container m' = container m \<and> (\<forall>a. list_items m' a = None \<longleftrightarrow> list_items m a = None)"
proof -
  obtain x where x: "list_items m i = Some x" using assms(2) by auto
  define m' where "m' = m\<lparr>list_items := (list_items m)(i \<mapsto> x\<lparr>xItemValue := v\<rparr>)\<rparr>"
  have "chain m' zs = chain m zs" for zs
    by (rule chain_cong) (simp_all add: m'_def x)
  then have "list_rep l xs m'" if "L l = Some xs" for l xs
    using family_rep [OF assms(1) that] assms(3) [OF that] by (auto simp: list_rep_def m'_def x)
  then have "list_family L m'" using assms(1) by (simp add: list_family_def)
  then show ?thesis
    using x by (auto simp: listSET_LIST_ITEM_VALUE_def upd_item_def m'_def item_value_def owner_def container_def fun_eq_iff)
qed

lemma family_walk:
  assumes "list_family L m" and "L l = Some xs" and "xs \<noteq> []"
  shows "\<exists>x m'. x \<in> set xs \<and> listGET_OWNER_OF_NEXT_ENTRY l m = Some (owner m x, m') \<and> list_family L m' \<and> list_items m' = list_items m"
proof -
  have rep: "list_rep l xs m" by (rule family_rep [OF assms(1,2)])
  obtain us x vs where split: "xs = us @ x # vs" "list_index l m = last (xListEnd l # us) \<or> us = [] \<and> list_index l m = last (x # vs)"
  proof (cases "list_index l m = xListEnd l \<or> list_index l m = last xs")
    case True
    then show ?thesis using that [of "[]" "hd xs" "tl xs"] assms(3) by auto
  next
    case False
    then obtain us vs where uv: "xs = us @ list_index l m # vs" using list_rep_index [OF rep] by (auto simp: in_set_conv_decomp)
    then obtain y zs where "vs = y # zs" using False by (cases vs) auto
    then show ?thesis using that [of "us @ [list_index l m]" y zs] uv by simp
  qed
  have "listGET_OWNER_OF_NEXT_ENTRY l m = Some (owner m x, set_index l x m)" using walk_step [of l us x vs m] rep split by simp
  moreover have "list_rep k zs (set_index l x m)" if "L k = Some zs" for k zs
  proof (cases "k = l")
    case True
    then show ?thesis using list_rep_set_index(1) [OF rep, of x] that assms(2) split(1) by simp
  next
    case False
    then show ?thesis
      using list_rep_cong [of k zs "set_index l x m" m] family_rep [OF assms(1) that]
      by (simp add: set_index_def option.map_ident)
  qed
  then have "list_family L (set_index l x m)" using assms(1) by (simp add: list_family_def)
  ultimately show ?thesis using split(1) by (auto simp: set_index_def)
qed

end
