(* ===== verification/Sched_Structure.thy ===== *)
theory Sched_Structure
  imports FreeRTOS_Tasks List_Family
begin

text \<open>
  The arrangement of the scheduler's lists. The lists in the store are a family \<open>L\<close>; every task of the set \<open>T\<close> is in exactly one of the lists for
  its state, with the item at the right place, and its event item is in at most one other list. The predicate \<open>arranged\<close> has a
  set \<open>X\<close> of tasks that are on their way from one state to another, whose state item is in no list; between two
  operations it is empty. The lemmas follow the elementary moves from which the operations of the scheduler are composed.
\<close>

section \<open>The invariant\<close>

definition kernel_lists :: "sched_config \<Rightarrow> u32 set" where
  "kernel_lists cfg = ready_list cfg ` {p. p < configMAX_PRIORITIES cfg} \<union>
     {xDelayedTaskList1 cfg, xDelayedTaskList2 cfg, xPendingReadyList cfg, xTasksWaitingTermination cfg, xSuspendedTaskList cfg}"

definition sched_config_ok :: "sched_config \<Rightarrow> bool" where
  "sched_config_ok cfg \<longleftrightarrow> 0 < configMAX_PRIORITIES cfg \<and> inj_on (ready_list cfg) {p. p < configMAX_PRIORITIES cfg} \<and>
     distinct [xDelayedTaskList1 cfg, xDelayedTaskList2 cfg, xPendingReadyList cfg, xTasksWaitingTermination cfg, xSuspendedTaskList cfg] \<and>
     ready_list cfg ` {p. p < configMAX_PRIORITIES cfg} \<inter>
       {xDelayedTaskList1 cfg, xDelayedTaskList2 cfg, xPendingReadyList cfg, xTasksWaitingTermination cfg, xSuspendedTaskList cfg} = {} \<and>
     0 \<notin> kernel_lists cfg"

definition prio :: "kernel \<Rightarrow> u32 \<Rightarrow> u32" where
  "prio k t = (case tcbs k t of Some x \<Rightarrow> uxPriority x | None \<Rightarrow> 0)"

text \<open>An item is in the list that it names as its container, or in none.\<close>

definition placed :: "(u32 \<rightharpoonup> u32 list) \<Rightarrow> list_mem \<Rightarrow> u32 \<Rightarrow> bool" where
  "placed L m i \<longleftrightarrow> (if container m i = 0 then unlisted L i else \<exists>xs. L (container m i) = Some xs \<and> i \<in> set xs)"

definition state_lists :: "sched_config \<Rightarrow> u32 set" where
  "state_lists cfg = kernel_lists cfg - {xPendingReadyList cfg}"

definition home :: "sched_config \<Rightarrow> kernel \<Rightarrow> u32 \<Rightarrow> u32 \<Rightarrow> bool" where
  "home cfg k t l \<longleftrightarrow> l = ready_list cfg (prio k t) \<or>
     l \<in> {xDelayedTaskList1 cfg, xDelayedTaskList2 cfg, xTasksWaitingTermination cfg, xSuspendedTaskList cfg}"

definition task_ok :: "sched_config \<Rightarrow> u32 set \<Rightarrow> (u32 \<rightharpoonup> u32 list) \<Rightarrow> kernel \<Rightarrow> u32 \<Rightarrow> bool" where
  "task_ok cfg T L k t \<longleftrightarrow> t \<noteq> 0 \<and> tcbs k t \<noteq> None \<and> prio k t < configMAX_PRIORITIES cfg \<and>
     list_items (task_lists k) (xStateListItem t) \<noteq> None \<and> list_items (task_lists k) (xEventListItem t) \<noteq> None \<and>
     owner (task_lists k) (xStateListItem t) = t \<and> owner (task_lists k) (xEventListItem t) = t \<and>
     placed L (task_lists k) (xStateListItem t) \<and> placed L (task_lists k) (xEventListItem t) \<and>
     (\<forall>u \<in> T. xStateListItem t \<noteq> xEventListItem u) \<and>
     container (task_lists k) (xEventListItem t) \<notin> state_lists cfg"

definition arranged :: "sched_config \<Rightarrow> u32 set \<Rightarrow> u32 set \<Rightarrow> (u32 \<rightharpoonup> u32 list) \<Rightarrow> kernel \<Rightarrow> bool" where
  "arranged cfg T X L k \<longleftrightarrow> sched_config_ok cfg \<and> list_family L (task_lists k) \<and> kernel_lists cfg \<subseteq> dom L \<and> 0 \<notin> dom L \<and>
     (pxDelayedTaskList k, pxOverflowDelayedTaskList k) \<in>
       {(xDelayedTaskList1 cfg, xDelayedTaskList2 cfg), (xDelayedTaskList2 cfg, xDelayedTaskList1 cfg)} \<and>
     (\<forall>t \<in> T. task_ok cfg T L k t) \<and>
     (\<forall>t \<in> T. if t \<in> X then container (task_lists k) (xStateListItem t) = 0 else home cfg k t (container (task_lists k) (xStateListItem t))) \<and>
     (\<forall>l \<in> kernel_lists cfg. set (the (L l)) \<subseteq> xStateListItem ` T \<union> xEventListItem ` T)"

lemma state_item_eq [simp]: "xStateListItem t = xStateListItem u \<longleftrightarrow> t = u"
  by (simp add: xStateListItem_def)

lemma event_item_eq [simp]: "xEventListItem t = xEventListItem u \<longleftrightarrow> t = u"
  by (simp add: xEventListItem_def)

lemma arrangedD:
  assumes "arranged cfg T X L k"
  shows "sched_config_ok cfg" and "list_family L (task_lists k)" and "kernel_lists cfg \<subseteq> dom L" and "0 \<notin> dom L"
    and "(pxDelayedTaskList k, pxOverflowDelayedTaskList k) \<in>
       {(xDelayedTaskList1 cfg, xDelayedTaskList2 cfg), (xDelayedTaskList2 cfg, xDelayedTaskList1 cfg)}"
    and "t \<in> T \<Longrightarrow> task_ok cfg T L k t"
    and "t \<in> T \<Longrightarrow> t \<in> X \<Longrightarrow> container (task_lists k) (xStateListItem t) = 0"
    and "t \<in> T \<Longrightarrow> t \<notin> X \<Longrightarrow> home cfg k t (container (task_lists k) (xStateListItem t))"
    and "l \<in> kernel_lists cfg \<Longrightarrow> L l = Some xs \<Longrightarrow> set xs \<subseteq> xStateListItem ` T \<union> xEventListItem ` T"
proof -
  show "set xs \<subseteq> xStateListItem ` T \<union> xEventListItem ` T" if "l \<in> kernel_lists cfg" "L l = Some xs"
    using assms that unfolding arranged_def by (metis option.sel)
qed (use assms in \<open>auto simp: arranged_def\<close>)

lemma ready_in_kernel: "p < configMAX_PRIORITIES cfg \<Longrightarrow> ready_list cfg p \<in> kernel_lists cfg"
  by (simp add: kernel_lists_def)

lemma kernel_members [simp]:
  "xDelayedTaskList1 cfg \<in> kernel_lists cfg" "xDelayedTaskList2 cfg \<in> kernel_lists cfg" "xPendingReadyList cfg \<in> kernel_lists cfg"
  "xTasksWaitingTermination cfg \<in> kernel_lists cfg" "xSuspendedTaskList cfg \<in> kernel_lists cfg"
  by (simp_all add: kernel_lists_def)

lemma kernel_list_nonzero: "arranged cfg T X L k \<Longrightarrow> l \<in> kernel_lists cfg \<Longrightarrow> l \<noteq> 0"
  using arrangedD(1) unfolding sched_config_ok_def by blast

lemma home_in_state_lists:
  assumes "arranged cfg T X L k" and "t \<in> T" and "home cfg k t l"
  shows "l \<in> state_lists cfg" and "l \<in> kernel_lists cfg" and "l \<noteq> 0"
proof -
  have p: "prio k t < configMAX_PRIORITIES cfg" using arrangedD(6) [OF assms(1,2)] by (simp add: task_ok_def)
  have c: "sched_config_ok cfg" using arrangedD(1) [OF assms(1)] .
  have "ready_list cfg (prio k t) \<in> ready_list cfg ` {p. p < configMAX_PRIORITIES cfg}" using p by simp
  then have "ready_list cfg (prio k t) \<noteq> xPendingReadyList cfg" using c unfolding sched_config_ok_def by blast
  then show "l \<in> state_lists cfg" using assms(3) c ready_in_kernel [OF p] by (auto simp: home_def state_lists_def sched_config_ok_def)
  then show "l \<in> kernel_lists cfg" "l \<noteq> 0" using c by (auto simp: state_lists_def sched_config_ok_def)
qed

lemma delayed_in_state_lists:
  assumes "arranged cfg T X L k"
  shows "pxDelayedTaskList k \<in> state_lists cfg" and "pxOverflowDelayedTaskList k \<in> state_lists cfg" and "pxDelayedTaskList k \<noteq> pxOverflowDelayedTaskList k"
  using arrangedD(1,5) [OF assms] by (auto simp: state_lists_def sched_config_ok_def)

lemma state_lists_kernel: "l \<in> state_lists cfg \<Longrightarrow> l \<in> kernel_lists cfg"
  by (simp add: state_lists_def)

text \<open>The items of a list for states are the state items of its tasks.\<close>

lemma state_list_items:
  assumes "arranged cfg T X L k" and "l \<in> state_lists cfg" and "L l = Some xs" and "x \<in> set xs"
  shows "\<exists>t \<in> T - X. x = xStateListItem t \<and> container (task_lists k) x = l"
proof -
  have c: "container (task_lists k) x = l" by (rule family_container [OF arrangedD(2) [OF assms(1)] assms(3,4)])
  have "l \<noteq> 0" using arrangedD(4) [OF assms(1)] assms(3) by auto
  have "x \<in> xStateListItem ` T \<union> xEventListItem ` T"
    using arrangedD(9) [OF assms(1) state_lists_kernel [OF assms(2)] assms(3)] assms(4) by auto
  moreover have "x \<notin> xEventListItem ` T" using arrangedD(6) [OF assms(1)] c assms(2) by (auto simp: task_ok_def)
  ultimately show ?thesis using c arrangedD(7) [OF assms(1)] \<open>l \<noteq> 0\<close> by auto
qed

lemma state_item_listed:
  assumes "arranged cfg T X L k" and "t \<in> T" and "t \<notin> X"
  shows "\<exists>xs. L (container (task_lists k) (xStateListItem t)) = Some xs \<and> xStateListItem t \<in> set xs"
  using arrangedD(6) [OF assms(1,2)] home_in_state_lists(3) [OF assms(1,2) arrangedD(8) [OF assms]]
  by (auto simp: task_ok_def placed_def)

lemma listed_count: "list_family L m \<Longrightarrow> L l = Some xs \<Longrightarrow> length xs < 2 ^ 32"
proof -
  assume "list_family L m" "L l = Some xs"
  then have "distinct (xListEnd l # xs)" using family_rep by (auto simp: list_rep_def)
  then have "length (xListEnd l # xs) = card (set (xListEnd l # xs))" by (rule distinct_card [symmetric])
  also have "\<dots> \<le> card (UNIV :: u32 set)" by (rule card_mono) simp_all
  finally show ?thesis by (simp add: card_word)
qed

section \<open>Moves\<close>

lemma placed_remove:
  assumes "placed L m j" and "j \<noteq> i" and "L l = Some (us @ i # vs)" and "container m' = (container m)(i := 0)"
  shows "placed (L(l \<mapsto> us @ vs)) m' j"
proof (cases "container m j = 0")
  case True
  then have "unlisted (L(l \<mapsto> us @ vs)) j" using assms(1,3) by (fastforce simp: placed_def unlisted_def)
  then show ?thesis using True assms(2,4) by (simp add: placed_def)
next
  case False
  then show ?thesis using assms by (auto simp: placed_def)
qed

lemma placed_insert:
  assumes "placed L m j" and "j \<noteq> i" and "L l = Some (us @ vs)" and "container m' = (container m)(i := l)"
  shows "placed (L(l \<mapsto> us @ i # vs)) m' j"
proof (cases "container m j = 0")
  case True
  then have "unlisted (L(l \<mapsto> us @ i # vs)) j" using assms(1-3) by (fastforce simp: placed_def unlisted_def)
  then show ?thesis using True assms(2,4) by (simp add: placed_def)
next
  case False
  then show ?thesis using assms by (auto simp: placed_def)
qed

lemma lists_within:
  assumes "arranged cfg T X L k" and "l \<in> kernel_lists cfg \<Longrightarrow> set ys \<subseteq> xStateListItem ` T \<union> xEventListItem ` T" and "j \<in> kernel_lists cfg"
  shows "set (the ((L(l \<mapsto> ys)) j)) \<subseteq> xStateListItem ` T \<union> xEventListItem ` T"
proof -
  obtain zs where "L j = Some zs" using arrangedD(3) [OF assms(1)] assms(3) by blast
  then show ?thesis using assms arrangedD(9) [OF assms(1,3)] by (cases "j = l") auto
qed

lemma remove_item_eq: "uxListRemove i (task_lists k) = Some (n, m) \<Longrightarrow> remove_item i k = Some (k\<lparr>task_lists := m\<rparr>)"
  by (simp add: remove_item_def with_lists_def)

lemma prio_lists [simp]: "prio (k\<lparr>task_lists := m\<rparr>) = prio k"
  by (simp add: prio_def fun_eq_iff)

lemma home_lists [simp]: "home cfg (k\<lparr>task_lists := m\<rparr>) = home cfg k"
  by (simp add: home_def fun_eq_iff)

text \<open>A task leaves the list of its state.\<close>

lemma remove_state:
  assumes "arranged cfg T X L k" and "t \<in> T" and "t \<notin> X"
  defines "l \<equiv> container (task_lists k) (xStateListItem t)"
  shows "\<exists>us vs m. L l = Some (us @ xStateListItem t # vs) \<and> remove_item (xStateListItem t) k = Some (k\<lparr>task_lists := m\<rparr>) \<and>
    arranged cfg T (insert t X) (L(l \<mapsto> us @ vs)) (k\<lparr>task_lists := m\<rparr>) \<and> same_items (task_lists k) m \<and>
    container m = (container (task_lists k))(xStateListItem t := 0)"
proof -
  note s = arrangedD [OF assms(1)]
  let ?i = "xStateListItem t" and ?m = "task_lists k"
  obtain us vs where L: "L l = Some (us @ ?i # vs)"
    using state_item_listed [OF assms(1-3)] unfolding l_def by (auto simp: in_set_conv_decomp)
  obtain m where m: "uxListRemove ?i ?m = Some (of_nat (length (us @ vs)), m)" "list_family (L(l \<mapsto> us @ vs)) m" "same_items ?m m"
      "container m = (container ?m)(?i := 0)" "unlisted (L(l \<mapsto> us @ vs)) ?i"
    using family_remove [OF s(2) L] by blast
  have lk: "l \<in> kernel_lists cfg" unfolding l_def by (rule home_in_state_lists(2) [OF assms(1,2) s(8) [OF assms(2,3)]])
  have "task_ok cfg T (L(l \<mapsto> us @ vs)) (k\<lparr>task_lists := m\<rparr>) u" if u: "u \<in> T" for u
  proof -
    have ok: "task_ok cfg T L k u" "xEventListItem u \<noteq> ?i"
      using s(6) [OF u] s(6) [OF assms(2)] u by (auto simp: task_ok_def)
    moreover have "placed (L(l \<mapsto> us @ vs)) m (xStateListItem u)"
      using ok(1) placed_remove [of L ?m "xStateListItem u" ?i l us vs m] L m(4,5) by (cases "u = t") (auto simp: task_ok_def placed_def)
    moreover have "placed (L(l \<mapsto> us @ vs)) m (xEventListItem u)"
      using ok placed_remove [of L ?m "xEventListItem u" ?i l us vs m] L m(4) by (simp add: task_ok_def)
    ultimately show ?thesis using m(3,4) by (auto simp: task_ok_def same_items_def)
  qed
  moreover have "set (the ((L(l \<mapsto> us @ vs)) j)) \<subseteq> xStateListItem ` T \<union> xEventListItem ` T" if "j \<in> kernel_lists cfg" for j
    using lists_within [OF assms(1) _ that] s(9) [OF _ L] by auto
  ultimately have "arranged cfg T (insert t X) (L(l \<mapsto> us @ vs)) (k\<lparr>task_lists := m\<rparr>)"
    using s(1-5,7,8) m(2,4) lk by (auto simp: arranged_def)
  then show ?thesis using L m(1,3,4) remove_item_eq [OF m(1)] by blast
qed

text \<open>A task leaves the list of the event it waits for.\<close>

lemma remove_event:
  assumes "arranged cfg T X L k" and "t \<in> T"
  defines "l \<equiv> container (task_lists k) (xEventListItem t)"
  assumes "l \<noteq> 0"
  shows "\<exists>us vs m. L l = Some (us @ xEventListItem t # vs) \<and> remove_item (xEventListItem t) k = Some (k\<lparr>task_lists := m\<rparr>) \<and>
    arranged cfg T X (L(l \<mapsto> us @ vs)) (k\<lparr>task_lists := m\<rparr>) \<and> same_items (task_lists k) m \<and>
    container m = (container (task_lists k))(xEventListItem t := 0) \<and> l \<notin> state_lists cfg"
proof -
  note s = arrangedD [OF assms(1)]
  let ?i = "xEventListItem t" and ?m = "task_lists k"
  have t: "task_ok cfg T L k t" by (rule s(6) [OF assms(2)])
  then obtain us vs where L: "L l = Some (us @ ?i # vs)"
    using assms(4) unfolding l_def by (auto simp: task_ok_def placed_def in_set_conv_decomp)
  obtain m where m: "uxListRemove ?i ?m = Some (of_nat (length (us @ vs)), m)" "list_family (L(l \<mapsto> us @ vs)) m" "same_items ?m m"
      "container m = (container ?m)(?i := 0)" "unlisted (L(l \<mapsto> us @ vs)) ?i"
    using family_remove [OF s(2) L] by blast
  have zero: "0 \<notin> state_lists cfg" using s(1) by (simp add: sched_config_ok_def state_lists_def)
  have "task_ok cfg T (L(l \<mapsto> us @ vs)) (k\<lparr>task_lists := m\<rparr>) u" if u: "u \<in> T" for u
  proof -
    have ok: "task_ok cfg T L k u" "xStateListItem u \<noteq> ?i" using s(6) [OF u] assms(2) by (auto simp: task_ok_def)
    moreover have "placed (L(l \<mapsto> us @ vs)) m (xEventListItem u)"
      using ok(1) placed_remove [of L ?m "xEventListItem u" ?i l us vs m] L m(4,5) by (cases "u = t") (auto simp: task_ok_def placed_def)
    moreover have "placed (L(l \<mapsto> us @ vs)) m (xStateListItem u)"
      using ok placed_remove [of L ?m "xStateListItem u" ?i l us vs m] L m(4) by (simp add: task_ok_def)
    ultimately show ?thesis using m(3,4) zero by (auto simp: task_ok_def same_items_def)
  qed
  moreover have "set (the ((L(l \<mapsto> us @ vs)) j)) \<subseteq> xStateListItem ` T \<union> xEventListItem ` T" if "j \<in> kernel_lists cfg" for j
    using lists_within [OF assms(1) _ that] s(9) [OF _ L] by auto
  moreover have "xStateListItem u \<noteq> ?i" if "u \<in> T" for u using s(6) [OF that] assms(2) by (auto simp: task_ok_def)
  ultimately have "arranged cfg T X (L(l \<mapsto> us @ vs)) (k\<lparr>task_lists := m\<rparr>)"
    using s(1-5,7,8) m(2,4) L unfolding arranged_def by auto
  moreover have "l \<notin> state_lists cfg" using t by (simp add: task_ok_def l_def)
  ultimately show ?thesis using L m(1,3,4) remove_item_eq [OF m(1)] by blast
qed

text \<open>A task that is on its way arrives in a list.\<close>

lemma arrive:
  assumes "arranged cfg T X L k" and "t \<in> T" and "t \<in> X" and "home cfg k t l" and "L l = Some (us @ vs)"
    and "list_family (L(l \<mapsto> us @ xStateListItem t # vs)) m" and "same_items (task_lists k) m"
    and "container m = (container (task_lists k))(xStateListItem t := l)"
  shows "arranged cfg T (X - {t}) (L(l \<mapsto> us @ xStateListItem t # vs)) (k\<lparr>task_lists := m\<rparr>)"
proof -
  note s = arrangedD [OF assms(1)]
  let ?i = "xStateListItem t" and ?L = "L(l \<mapsto> us @ xStateListItem t # vs)"
  have l: "l \<in> kernel_lists cfg" "l \<noteq> 0" using home_in_state_lists [OF assms(1,2,4)] by simp_all
  have "task_ok cfg T ?L (k\<lparr>task_lists := m\<rparr>) u" if u: "u \<in> T" for u
  proof -
    have ok: "task_ok cfg T L k u" "xEventListItem u \<noteq> ?i" using s(6) [OF u] s(6) [OF assms(2)] u by (auto simp: task_ok_def)
    moreover have "placed ?L m (xStateListItem u)"
      using ok(1) placed_insert [of L "task_lists k" "xStateListItem u" ?i l us vs m] assms(5,8) l(2) by (cases "u = t") (auto simp: task_ok_def placed_def)
    moreover have "placed ?L m (xEventListItem u)"
      using ok placed_insert [of L "task_lists k" "xEventListItem u" ?i l us vs m] assms(5,8) by (simp add: task_ok_def)
    ultimately show ?thesis using assms(7,8) by (auto simp: task_ok_def same_items_def)
  qed
  moreover have "set (the (?L j)) \<subseteq> xStateListItem ` T \<union> xEventListItem ` T" if "j \<in> kernel_lists cfg" for j
    using lists_within [OF assms(1) _ that] s(9) [OF _ assms(5)] assms(2) by auto
  ultimately show ?thesis using s(1-5,7,8) assms(4-6,8) unfolding arranged_def by auto
qed

lemma not_listed:
  assumes "arranged cfg T X L k" and "t \<in> T" and "t \<in> X"
  shows "unlisted L (xStateListItem t)" and "list_items (task_lists k) (xStateListItem t) \<noteq> None"
  using arrangedD(6,7) [OF assms(1)] assms(2,3) by (auto simp: task_ok_def placed_def)

lemma insert_state:
  assumes "arranged cfg T X L k" and "t \<in> T" and "t \<in> X" and "home cfg k t l" and "L l = Some xs"
  shows "\<exists>us vs m. xs = us @ vs \<and> vListInsertEnd l (xStateListItem t) (task_lists k) = Some m \<and>
    arranged cfg T (X - {t}) (L(l \<mapsto> us @ xStateListItem t # vs)) (k\<lparr>task_lists := m\<rparr>) \<and> same_items (task_lists k) m \<and>
    container m = (container (task_lists k))(xStateListItem t := l)"
proof -
  obtain m us vs where m: "xs = us @ vs" "vListInsertEnd l (xStateListItem t) (task_lists k) = Some m"
      "list_family (L(l \<mapsto> us @ xStateListItem t # vs)) m" "same_items (task_lists k) m"
      "container m = (container (task_lists k))(xStateListItem t := l)"
    using family_insert_end [OF arrangedD(2) [OF assms(1)] assms(5) not_listed [OF assms(1-3)]] by blast
  then show ?thesis using arrive [OF assms(1-4) _ m(3-5)] assms(5) by blast
qed

lemma insert_state_sorted:
  assumes "arranged cfg T X L k" and "t \<in> T" and "t \<in> X" and "home cfg k t l" and "L l = Some xs"
  shows "\<exists>m. vListInsert l (xStateListItem t) (task_lists k) = returns m \<and>
    arranged cfg T (X - {t}) (L(l \<mapsto> place (task_lists k) (xStateListItem t) xs)) (k\<lparr>task_lists := m\<rparr>) \<and> same_items (task_lists k) m \<and>
    container m = (container (task_lists k))(xStateListItem t := l)"
proof -
  let ?P = "\<lambda>x. item_value (task_lists k) x \<le> item_value (task_lists k) (xStateListItem t)"
  obtain m where m: "vListInsert l (xStateListItem t) (task_lists k) = returns m"
      "list_family (L(l \<mapsto> place (task_lists k) (xStateListItem t) xs)) m" "same_items (task_lists k) m"
      "container m = (container (task_lists k))(xStateListItem t := l)"
    using family_insert_sorted [OF arrangedD(2) [OF assms(1)] assms(5) not_listed [OF assms(1-3)]] by blast
  have "L l = Some (takeWhile ?P xs @ dropWhile ?P xs)" using assms(5) by simp
  from arrive [OF assms(1-4) this] show ?thesis using m unfolding place_def by blast
qed

text \<open>An event item that is in no list enters the list of an event, or the list of the tasks that are about to be made ready.\<close>

lemma arrive_event:
  assumes "arranged cfg T X L k" and "t \<in> T" and "l \<notin> state_lists cfg" and "L l = Some (us @ vs)"
    and "list_family (L(l \<mapsto> us @ xEventListItem t # vs)) m" and "same_items (task_lists k) m"
    and "container m = (container (task_lists k))(xEventListItem t := l)"
  shows "arranged cfg T X (L(l \<mapsto> us @ xEventListItem t # vs)) (k\<lparr>task_lists := m\<rparr>)"
proof -
  note s = arrangedD [OF assms(1)]
  let ?i = "xEventListItem t" and ?L = "L(l \<mapsto> us @ xEventListItem t # vs)"
  have l: "l \<noteq> 0" using assms(4) s(4) by auto
  have other: "xStateListItem u \<noteq> ?i" if "u \<in> T" for u using s(6) [OF that] assms(2) by (auto simp: task_ok_def)
  have "task_ok cfg T ?L (k\<lparr>task_lists := m\<rparr>) u" if u: "u \<in> T" for u
  proof -
    have ok: "task_ok cfg T L k u" using s(6) [OF u] by simp
    moreover have "placed ?L m (xEventListItem u)"
      using ok placed_insert [of L "task_lists k" "xEventListItem u" ?i l us vs m] assms(4,7) l by (cases "u = t") (auto simp: task_ok_def placed_def)
    moreover have "placed ?L m (xStateListItem u)"
      using ok other [OF u] placed_insert [of L "task_lists k" "xStateListItem u" ?i l us vs m] assms(4,7) by (simp add: task_ok_def)
    ultimately show ?thesis using assms(3,6,7) by (auto simp: task_ok_def same_items_def)
  qed
  moreover have "set (the (?L j)) \<subseteq> xStateListItem ` T \<union> xEventListItem ` T" if "j \<in> kernel_lists cfg" for j
    using lists_within [OF assms(1) _ that] s(9) [OF _ assms(4)] assms(2) by auto
  ultimately show ?thesis using s(1-5,7,8) assms(4,5,7) other unfolding arranged_def by auto
qed

text \<open>An item of a task is not the marker of a list.\<close>

lemma placed_not_marker:
  assumes "list_family L m" and "placed L m i" and "L l = Some xs"
  shows "i \<noteq> xListEnd l"
proof (cases "container m i = 0")
  case True
  then show ?thesis using assms(2,3) by (auto simp: placed_def unlisted_def)
next
  case False
  then obtain ys where ys: "L (container m i) = Some ys" "i \<in> set ys" using assms(2) by (auto simp: placed_def)
  show ?thesis
  proof (cases "l = container m i")
    case True
    then show ?thesis using family_rep [OF assms(1) ys(1)] ys(2) by (auto simp: list_rep_def)
  next
    case False
    then show ?thesis using family_disjoint [OF assms(1,3) ys(1)] ys(2) by auto
  qed
qed

end
