(* ===== verification/Sched_Correct.thy ===== *)
theory Sched_Correct
  imports Sched_Structure
begin

text \<open>
  The scheduler keeps its lists, its clock and its choice of the running task right. The invariant \<open>sched_inv\<close> is stated over the tasks: where each task is, which
  priority the ready lists reach, and when the delayed tasks are due. The abstract view of a task is where it is and the number of ticks it
  still sleeps (\<open>sleeping\<close>); the properties follow this view through the operations, over the wrap of the tick counter.
\<close>

section \<open>The invariant of the scheduler\<close>

abbreviation state_of :: "kernel \<Rightarrow> u32 \<Rightarrow> u32" where
  "state_of k t \<equiv> container (task_lists k) (xStateListItem t)"

abbreviation event_of :: "kernel \<Rightarrow> u32 \<Rightarrow> u32" where
  "event_of k t \<equiv> container (task_lists k) (xEventListItem t)"

abbreviation wake_time :: "kernel \<Rightarrow> u32 \<Rightarrow> u32" where
  "wake_time k t \<equiv> item_value (task_lists k) (xStateListItem t)"

definition ordered :: "(u32 \<rightharpoonup> u32 list) \<Rightarrow> list_mem \<Rightarrow> u32 \<Rightarrow> bool" where
  "ordered L m l \<longleftrightarrow> sorted (map (item_value m) (the (L l)))"

definition ready :: "sched_config \<Rightarrow> kernel \<Rightarrow> u32 \<Rightarrow> bool" where
  "ready cfg k t \<longleftrightarrow> state_of k t = ready_list cfg (prio k t)"

definition sched_base :: "sched_config \<Rightarrow> u32 set \<Rightarrow> u32 set \<Rightarrow> (u32 \<rightharpoonup> u32 list) \<Rightarrow> kernel \<Rightarrow> bool" where
  "sched_base cfg T X L k \<longleftrightarrow> arranged cfg T X L k \<and> pxCurrentTCB k \<in> T \<and> uxTopReadyPriority k < configMAX_PRIORITIES cfg \<and>
     (\<forall>t \<in> T. ready cfg k t \<longrightarrow> prio k t \<le> uxTopReadyPriority k) \<and>
     (\<forall>t \<in> T. state_of k t = pxOverflowDelayedTaskList k \<longrightarrow> wake_time k t < xTickCount k) \<and>
     ordered L (task_lists k) (pxDelayedTaskList k) \<and> ordered L (task_lists k) (pxOverflowDelayedTaskList k)"

definition in_time :: "u32 set \<Rightarrow> kernel \<Rightarrow> bool" where
  "in_time T k \<longleftrightarrow> (\<forall>t \<in> T. state_of k t = pxDelayedTaskList k \<longrightarrow> xTickCount k < wake_time k t \<and> xNextTaskUnblockTime k \<le> wake_time k t)"

definition sched_inv :: "sched_config \<Rightarrow> u32 set \<Rightarrow> kernel \<Rightarrow> bool" where
  "sched_inv cfg T k \<longleftrightarrow> (\<exists>L. sched_base cfg T {} L k) \<and> in_time T k"

text \<open>How many ticks a task still sleeps; the difference wraps as the counter does.\<close>

definition delayed :: "kernel \<Rightarrow> u32 \<Rightarrow> bool" where
  "delayed k t \<longleftrightarrow> state_of k t = pxDelayedTaskList k \<or> state_of k t = pxOverflowDelayedTaskList k"

definition sleeping :: "kernel \<Rightarrow> u32 \<Rightarrow> nat option" where
  "sleeping k t = (if delayed k t then Some (unat (wake_time k t - xTickCount k)) else None)"

text \<open>What an operation leaves alone.\<close>

definition kept :: "kernel \<Rightarrow> kernel \<Rightarrow> bool" where
  "kept k k' \<longleftrightarrow> same_items (task_lists k) (task_lists k') \<and> tcbs k' = tcbs k \<and> pxDelayedTaskList k' = pxDelayedTaskList k \<and>
     pxOverflowDelayedTaskList k' = pxOverflowDelayedTaskList k \<and> uxCurrentNumberOfTasks k' = uxCurrentNumberOfTasks k \<and>
     xSchedulerRunning k' = xSchedulerRunning k \<and> xTickCount k' = xTickCount k \<and> xPendedTicks k' = xPendedTicks k \<and>
     uxSchedulerSuspended k' = uxSchedulerSuspended k"

lemma kept_trans: "kept a b \<Longrightarrow> kept b c \<Longrightarrow> kept a c"
  by (auto simp: kept_def intro: same_items_trans)

lemma kept_prio: "kept k k' \<Longrightarrow> prio k' = prio k"
  by (simp add: kept_def prio_def fun_eq_iff)

lemma arranged_cong:
  assumes "task_lists k' = task_lists k" and "tcbs k' = tcbs k" and "pxDelayedTaskList k' = pxDelayedTaskList k"
    and "pxOverflowDelayedTaskList k' = pxOverflowDelayedTaskList k"
  shows "arranged cfg T X L k' = arranged cfg T X L k"
proof -
  have "prio k' = prio k" using assms(2) by (simp add: prio_def fun_eq_iff)
  then show ?thesis using assms by (simp add: arranged_def task_ok_def home_def)
qed

lemma prio_fields [simp]:
  "prio (k\<lparr>pxCurrentTCB := a\<rparr>) = prio k" "prio (k\<lparr>uxTopReadyPriority := p\<rparr>) = prio k" "prio (k\<lparr>xNextTaskUnblockTime := a\<rparr>) = prio k"
  "prio (k\<lparr>xYieldPending := b\<rparr>) = prio k" "prio (k\<lparr>xTickCount := a\<rparr>) = prio k" "prio (k\<lparr>xPendedTicks := a\<rparr>) = prio k"
  "prio (k\<lparr>uxSchedulerSuspended := a\<rparr>) = prio k" "prio (k\<lparr>pxDelayedTaskList := a\<rparr>) = prio k"
  "prio (k\<lparr>pxOverflowDelayedTaskList := a\<rparr>) = prio k" "prio (k\<lparr>xNumOfOverflows := a\<rparr>) = prio k"
  by (simp_all add: prio_def fun_eq_iff)

lemma base_cong:
  assumes "task_lists k' = task_lists k" and "tcbs k' = tcbs k" and "pxDelayedTaskList k' = pxDelayedTaskList k"
    and "pxOverflowDelayedTaskList k' = pxOverflowDelayedTaskList k" and "uxTopReadyPriority k' = uxTopReadyPriority k"
    and "xTickCount k' = xTickCount k" and "pxCurrentTCB k' = pxCurrentTCB k"
  shows "sched_base cfg T X L k' = sched_base cfg T X L k"
proof -
  have "prio k' = prio k" using assms(2) by (simp add: prio_def fun_eq_iff)
  then show ?thesis using assms arranged_cong [OF assms(1-4)] by (simp add: sched_base_def ready_def)
qed

lemma base_fields [simp]:
  "sched_base cfg T X L (k\<lparr>xNextTaskUnblockTime := a\<rparr>) = sched_base cfg T X L k" "sched_base cfg T X L (k\<lparr>xYieldPending := b\<rparr>) = sched_base cfg T X L k"
  "sched_base cfg T X L (k\<lparr>xPendedTicks := a\<rparr>) = sched_base cfg T X L k"
  "sched_base cfg T X L (k\<lparr>uxSchedulerSuspended := a\<rparr>) = sched_base cfg T X L k"
  by (rule base_cong; simp)+

lemma ordered_sub: "ordered L m l \<Longrightarrow> L l = Some (us @ x # vs) \<Longrightarrow> same_items m m' \<Longrightarrow> ordered (L(l \<mapsto> us @ vs)) m' l"
  by (auto simp: ordered_def same_items_def sorted_append)

lemma ordered_other: "ordered L m l \<Longrightarrow> l \<noteq> j \<Longrightarrow> same_items m m' \<Longrightarrow> ordered (L(j \<mapsto> xs)) m' l"
  by (simp add: ordered_def same_items_def)

lemma baseD:
  assumes "sched_base cfg T X L k"
  shows "arranged cfg T X L k" and "pxCurrentTCB k \<in> T" and "uxTopReadyPriority k < configMAX_PRIORITIES cfg"
    and "t \<in> T \<Longrightarrow> ready cfg k t \<Longrightarrow> prio k t \<le> uxTopReadyPriority k"
    and "t \<in> T \<Longrightarrow> state_of k t = pxOverflowDelayedTaskList k \<Longrightarrow> wake_time k t < xTickCount k"
    and "ordered L (task_lists k) (pxDelayedTaskList k)" and "ordered L (task_lists k) (pxOverflowDelayedTaskList k)"
    and "t \<in> T \<Longrightarrow> tcbs k t \<noteq> None" and "t \<in> T \<Longrightarrow> prio k t < configMAX_PRIORITIES cfg"
    and "t \<in> T \<Longrightarrow> list_items (task_lists k) (xStateListItem t) \<noteq> None" and "t \<in> T \<Longrightarrow> list_items (task_lists k) (xEventListItem t) \<noteq> None"
    and "t \<in> T \<Longrightarrow> owner (task_lists k) (xStateListItem t) = t" and "t \<in> T \<Longrightarrow> owner (task_lists k) (xEventListItem t) = t"
    and "t \<in> T \<Longrightarrow> u \<in> T \<Longrightarrow> xStateListItem t \<noteq> xEventListItem u" and "t \<in> T \<Longrightarrow> t \<noteq> 0"
  using assms by (auto simp: sched_base_def arranged_def task_ok_def)

lemma prio_tcb: "tcbs k t = Some x \<Longrightarrow> uxPriority x = prio k t"
  by (simp add: prio_def)

lemma ready_not_delayed:
  assumes "arranged cfg T X L k" and "p < configMAX_PRIORITIES cfg"
  shows "ready_list cfg p \<noteq> pxDelayedTaskList k" and "ready_list cfg p \<noteq> pxOverflowDelayedTaskList k" and "ready_list cfg p \<noteq> 0"
    and "ready_list cfg p \<noteq> xSuspendedTaskList cfg" and "ready_list cfg p \<noteq> xPendingReadyList cfg"
    and "q < configMAX_PRIORITIES cfg \<Longrightarrow> ready_list cfg p = ready_list cfg q \<longleftrightarrow> p = q"
proof -
  have c: "sched_config_ok cfg" by (rule arrangedD(1) [OF assms(1)])
  have r: "ready_list cfg p \<in> ready_list cfg ` {p. p < configMAX_PRIORITIES cfg}" using assms(2) by simp
  have "ready_list cfg p \<notin> {xDelayedTaskList1 cfg, xDelayedTaskList2 cfg, xPendingReadyList cfg, xTasksWaitingTermination cfg, xSuspendedTaskList cfg}"
    using c r unfolding sched_config_ok_def by blast
  then show "ready_list cfg p \<noteq> pxDelayedTaskList k" "ready_list cfg p \<noteq> pxOverflowDelayedTaskList k"
      "ready_list cfg p \<noteq> xSuspendedTaskList cfg" "ready_list cfg p \<noteq> xPendingReadyList cfg"
    using arrangedD(5) [OF assms(1)] by auto
  show "ready_list cfg p \<noteq> 0" using c ready_in_kernel [OF assms(2)] by (auto simp: sched_config_ok_def)
  show "ready_list cfg p = ready_list cfg q \<longleftrightarrow> p = q" if "q < configMAX_PRIORITIES cfg"
    using c assms(2) that by (auto simp: sched_config_ok_def inj_on_def)
qed

section \<open>Moves\<close>

lemma base_remove_state:
  assumes "sched_base cfg T X L k" and "t \<in> T" and "t \<notin> X"
  shows "\<exists>m L'. remove_item (xStateListItem t) k = Some (k\<lparr>task_lists := m\<rparr>) \<and> sched_base cfg T (insert t X) L' (k\<lparr>task_lists := m\<rparr>) \<and>
    same_items (task_lists k) m \<and> container m = (container (task_lists k))(xStateListItem t := 0) \<and> (\<forall>l. l \<notin> state_lists cfg \<longrightarrow> L' l = L l)"
proof -
  note b = baseD [OF assms(1)]
  obtain us vs m where m: "L (state_of k t) = Some (us @ xStateListItem t # vs)" "remove_item (xStateListItem t) k = Some (k\<lparr>task_lists := m\<rparr>)"
      "arranged cfg T (insert t X) (L(state_of k t \<mapsto> us @ vs)) (k\<lparr>task_lists := m\<rparr>)" "same_items (task_lists k) m"
      "container m = (container (task_lists k))(xStateListItem t := 0)"
    using remove_state [OF b(1) assms(2,3)] by blast
  have "ordered (L(state_of k t \<mapsto> us @ vs)) m l" if "ordered L (task_lists k) l" for l
    using that ordered_sub [of L "task_lists k" l us "xStateListItem t" vs m] ordered_other [OF that _ m(4)] m(1,4) by (cases "l = state_of k t") auto
  moreover have "prio k u \<le> uxTopReadyPriority k" if "u \<in> T" "ready cfg (k\<lparr>task_lists := m\<rparr>) u" for u
    using b(4) [OF that(1)] that m(5) ready_not_delayed(3) [OF b(1) b(9)] by (auto simp: ready_def split: if_splits)
  moreover have "item_value m = item_value (task_lists k)" using m(4) by (simp add: same_items_def)
  moreover have "pxOverflowDelayedTaskList k \<noteq> 0"
    using delayed_in_state_lists(2) [OF b(1)] arrangedD(1) [OF b(1)] by (auto simp: state_lists_def sched_config_ok_def)
  ultimately have "sched_base cfg T (insert t X) (L(state_of k t \<mapsto> us @ vs)) (k\<lparr>task_lists := m\<rparr>)"
    using b(2,3,5,6,7) m(3,5) by (auto simp: sched_base_def)
  moreover have "state_of k t \<in> state_lists cfg" by (rule home_in_state_lists(1) [OF b(1) assms(2) arrangedD(8) [OF b(1) assms(2,3)]])
  ultimately show ?thesis using m(2,4,5) by (metis fun_upd_other)
qed

lemma base_remove_event:
  assumes "sched_base cfg T X L k" and "t \<in> T" and "event_of k t \<noteq> 0"
  shows "\<exists>m L' us vs. remove_item (xEventListItem t) k = Some (k\<lparr>task_lists := m\<rparr>) \<and> sched_base cfg T X L' (k\<lparr>task_lists := m\<rparr>) \<and>
    same_items (task_lists k) m \<and> container m = (container (task_lists k))(xEventListItem t := 0) \<and>
    L (event_of k t) = Some (us @ xEventListItem t # vs) \<and> L' = L(event_of k t \<mapsto> us @ vs)"
proof -
  note b = baseD [OF assms(1)]
  obtain us vs m where m: "remove_item (xEventListItem t) k = Some (k\<lparr>task_lists := m\<rparr>)"
      "arranged cfg T X (L(event_of k t \<mapsto> us @ vs)) (k\<lparr>task_lists := m\<rparr>)" "same_items (task_lists k) m"
      "container m = (container (task_lists k))(xEventListItem t := 0)" "event_of k t \<notin> state_lists cfg"
      "L (event_of k t) = Some (us @ xEventListItem t # vs)"
    using remove_event [OF b(1) assms(2,3)] by blast
  have "ordered (L(event_of k t \<mapsto> us @ vs)) m l" if "ordered L (task_lists k) l" "l \<in> state_lists cfg" for l
    by (rule ordered_other [OF that(1) _ m(3)]) (use m(5) that(2) in auto)
  moreover have "container m (xStateListItem u) = state_of k u" if "u \<in> T" for u using m(4) b(14) [OF that assms(2)] by simp
  moreover have "item_value m = item_value (task_lists k)" using m(3) by (simp add: same_items_def)
  ultimately have "sched_base cfg T X (L(event_of k t \<mapsto> us @ vs)) (k\<lparr>task_lists := m\<rparr>)"
    using b(2-7) m(2) delayed_in_state_lists [OF b(1)] by (auto simp: sched_base_def ready_def)
  then show ?thesis using m(1,3,4,6) by blast
qed

lemma base_ready:
  assumes "sched_base cfg T X L k" and "t \<in> T" and "t \<in> X"
  shows "\<exists>m L'. prvAddTaskToReadyList cfg t k = Some (k\<lparr>task_lists := m, uxTopReadyPriority := max (uxTopReadyPriority k) (prio k t)\<rparr>) \<and>
    sched_base cfg T (X - {t}) L' (k\<lparr>task_lists := m, uxTopReadyPriority := max (uxTopReadyPriority k) (prio k t)\<rparr>) \<and>
    same_items (task_lists k) m \<and> container m = (container (task_lists k))(xStateListItem t := ready_list cfg (prio k t)) \<and>
    (\<forall>l. l \<notin> state_lists cfg \<longrightarrow> L' l = L l)"
proof -
  note b = baseD [OF assms(1)]
  let ?l = "ready_list cfg (prio k t)"
  note p = b(9) [OF assms(2)]
  obtain x where x: "tcbs k t = Some x" using b(8) [OF assms(2)] by blast
  obtain xs where L: "L ?l = Some xs" using arrangedD(3) [OF b(1)] ready_in_kernel [OF p] by blast
  have "home cfg k t ?l" by (simp add: home_def)
  then obtain us vs m where m: "vListInsertEnd ?l (xStateListItem t) (task_lists k) = Some m"
      "arranged cfg T (X - {t}) (L(?l \<mapsto> us @ xStateListItem t # vs)) (k\<lparr>task_lists := m\<rparr>)" "same_items (task_lists k) m"
      "container m = (container (task_lists k))(xStateListItem t := ?l)"
    using insert_state [OF b(1) assms(2,3) _ L] by blast
  let ?k = "k\<lparr>task_lists := m, uxTopReadyPriority := max (uxTopReadyPriority k) (prio k t)\<rparr>"
  have "prvAddTaskToReadyList cfg t k = Some ?k"
    using m(1) x by (auto simp: prvAddTaskToReadyList_def with_lists_def taskRECORD_READY_PRIORITY_def prio_tcb max_def)
  moreover have "ordered (L(?l \<mapsto> us @ xStateListItem t # vs)) m l" if "ordered L (task_lists k) l" "l \<noteq> ?l" for l
    by (rule ordered_other [OF that m(3)])
  moreover have "arranged cfg T (X - {t}) (L(?l \<mapsto> us @ xStateListItem t # vs)) ?k" using m(2) by (subst arranged_cong [where k = "k\<lparr>task_lists := m\<rparr>"]) simp_all
  moreover have "prio k u \<le> max (uxTopReadyPriority k) (prio k t)" if "u \<in> T" "ready cfg ?k u" for u
    using b(4) [OF that(1)] that m(4) by (cases "u = t") (auto simp: ready_def le_max_iff_disj)
  moreover have "item_value m = item_value (task_lists k)" using m(3) by (simp add: same_items_def)
  ultimately have "sched_base cfg T (X - {t}) (L(?l \<mapsto> us @ xStateListItem t # vs)) ?k"
    using b(2,3,5,6,7) p m(4) ready_not_delayed(1,2) [OF b(1) p] by (simp add: sched_base_def)
  moreover have "?l \<in> state_lists cfg" using ready_in_kernel [OF p] ready_not_delayed(5) [OF b(1) p] by (simp add: state_lists_def)
  ultimately show ?thesis using \<open>prvAddTaskToReadyList cfg t k = Some ?k\<close> m(3,4) by (metis fun_upd_other)
qed

lemma higher_priority_eq: "tcbs k t \<noteq> None \<Longrightarrow> tcbs k (pxCurrentTCB k) \<noteq> None \<Longrightarrow> higher_priority t k = Some (prio k (pxCurrentTCB k) < prio k t)"
  by (auto simp: higher_priority_def prio_def)

text \<open>A task leaves the list of its state and the list of the event it waits for, if there is one.\<close>

lemma base_detach:
  assumes "sched_base cfg T {} L k" and "t \<in> T"
  shows "\<exists>m L'. leave_lists t k = Some (k\<lparr>task_lists := m\<rparr>) \<and>
    sched_base cfg T {t} L' (k\<lparr>task_lists := m\<rparr>) \<and> same_items (task_lists k) m \<and>
    container m = (container (task_lists k))(xStateListItem t := 0, xEventListItem t := 0)"
proof -
  obtain m1 L1 where m1: "remove_item (xStateListItem t) k = Some (k\<lparr>task_lists := m1\<rparr>)" "sched_base cfg T {t} L1 (k\<lparr>task_lists := m1\<rparr>)"
      "same_items (task_lists k) m1" "container m1 = (container (task_lists k))(xStateListItem t := 0)"
    using base_remove_state [OF assms] by auto
  have other: "xStateListItem t \<noteq> xEventListItem t" by (rule baseD(14) [OF assms(1,2,2)])
  have c: "listLIST_ITEM_CONTAINER (xEventListItem t) m1 = Some (event_of k t)"
    using item_reads(2) [OF baseD(11) [OF m1(2) assms(2)]] m1(4) other by simp
  show ?thesis
  proof (cases "event_of k t = 0")
    case True
    then have "container m1 = (container (task_lists k))(xStateListItem t := 0, xEventListItem t := 0)" using m1(4) other by (auto simp: fun_eq_iff)
    then show ?thesis using True m1(1-3) c by (auto simp: leave_lists_def)
  next
    case False
    then obtain m L' where "remove_item (xEventListItem t) (k\<lparr>task_lists := m1\<rparr>) = Some (k\<lparr>task_lists := m\<rparr>)" "sched_base cfg T {t} L' (k\<lparr>task_lists := m\<rparr>)"
        "same_items m1 m" "container m = (container m1)(xEventListItem t := 0)"
      using base_remove_event [OF m1(2) assms(2)] m1(4) other by auto
    then show ?thesis using False m1(1,4) c same_items_trans [OF m1(3)] by (auto simp: leave_lists_def)
  qed
qed

lemma base_unblock:
  assumes "sched_base cfg T {} L k" and "t \<in> T"
  shows "\<exists>m L'. unblock_task cfg t k = Some (configUSE_PREEMPTION cfg \<and> prio k (pxCurrentTCB k) < prio k t,
      k\<lparr>task_lists := m, uxTopReadyPriority := max (uxTopReadyPriority k) (prio k t)\<rparr>) \<and>
    sched_base cfg T {} L' (k\<lparr>task_lists := m, uxTopReadyPriority := max (uxTopReadyPriority k) (prio k t)\<rparr>) \<and>
    same_items (task_lists k) m \<and>
    container m = (container (task_lists k))(xStateListItem t := ready_list cfg (prio k t), xEventListItem t := 0)"
proof -
  obtain m2 L2 where m2: "leave_lists t k = Some (k\<lparr>task_lists := m2\<rparr>)" "sched_base cfg T {t} L2 (k\<lparr>task_lists := m2\<rparr>)" "same_items (task_lists k) m2"
      "container m2 = (container (task_lists k))(xStateListItem t := 0, xEventListItem t := 0)"
    using base_detach [OF assms] by blast
  let ?k = "\<lambda>m. k\<lparr>task_lists := m, uxTopReadyPriority := max (uxTopReadyPriority k) (prio k t)\<rparr>"
  obtain m L' where m: "prvAddTaskToReadyList cfg t (k\<lparr>task_lists := m2\<rparr>) = Some (?k m)" "sched_base cfg T {} L' (?k m)" "same_items m2 m"
      "container m = (container m2)(xStateListItem t := ready_list cfg (prio k t))"
    using base_ready [OF m2(2) assms(2)] by auto
  have "higher_priority t (?k m) = Some (prio k (pxCurrentTCB k) < prio k t)"
    using higher_priority_eq [of "?k m" t] baseD(2,8) [OF assms(1)] assms(2) by simp
  then have "unblock_task cfg t k = Some (configUSE_PREEMPTION cfg \<and> prio k (pxCurrentTCB k) < prio k t, ?k m)"
    using m2(1) m(1) by (simp add: unblock_task_def)
  moreover have "container m = (container (task_lists k))(xStateListItem t := ready_list cfg (prio k t), xEventListItem t := 0)"
    using m(4) m2(4) baseD(14) [OF assms(1,2,2)] by (auto simp: fun_eq_iff)
  ultimately show ?thesis using m(2) same_items_trans [OF m2(3) m(3)] by blast
qed

section \<open>Selecting the task to run\<close>

text \<open>A task is ready exactly if a ready list holds it.\<close>

lemma ready_task_of:
  assumes "sched_base cfg T {} L k" and "p < configMAX_PRIORITIES cfg" and "L (ready_list cfg p) = Some xs" and "x \<in> set xs"
  shows "\<exists>t \<in> T. x = xStateListItem t \<and> ready cfg k t \<and> prio k t = p"
proof -
  note b = baseD [OF assms(1)]
  have "ready_list cfg p \<in> state_lists cfg"
    using ready_in_kernel [OF assms(2)] ready_not_delayed(5) [OF b(1) assms(2)] by (simp add: state_lists_def)
  then obtain t where t: "t \<in> T" "x = xStateListItem t" "state_of k t = ready_list cfg p"
    using state_list_items [OF b(1) _ assms(3,4)] by auto
  have "home cfg k t (ready_list cfg p)" using arrangedD(8) [OF b(1) t(1)] t(3) by simp
  then have "ready_list cfg p = ready_list cfg (prio k t)"
    using arrangedD(1) [OF b(1)] assms(2) unfolding home_def sched_config_ok_def by blast
  then show ?thesis using t ready_not_delayed(6) [OF b(1) assms(2) b(9) [OF t(1)]] by (auto simp: ready_def)
qed

lemma ready_listed:
  assumes "sched_base cfg T {} L k" and "t \<in> T" and "ready cfg k t"
  shows "\<exists>xs. L (ready_list cfg (prio k t)) = Some xs \<and> xStateListItem t \<in> set xs"
  using state_item_listed [OF baseD(1) [OF assms(1)] assms(2)] assms(3) by (simp add: ready_def)

lemma find_ready_runs:
  assumes "sched_base cfg T {} L k" and "t \<in> T" and "ready cfg k t" and "unat (prio k t) \<le> n" and "n < unat (configMAX_PRIORITIES cfg)"
    and "\<And>u. u \<in> T \<Longrightarrow> ready cfg k u \<Longrightarrow> unat (prio k u) \<le> n"
  shows "\<exists>p u. find_ready cfg (task_lists k) n = Some (unat p) \<and> p < configMAX_PRIORITIES cfg \<and> u \<in> T \<and> ready cfg k u \<and> prio k u = p \<and>
    (\<forall>v \<in> T. ready cfg k v \<longrightarrow> prio k v \<le> p)"
  using assms(4-6)
proof (induction n)
  case 0
  then have p: "prio k t = 0" by (simp add: unat_eq_0)
  have "listLIST_IS_EMPTY (ready_list cfg 0) (task_lists k) = Some False"
    using ready_listed [OF assms(1-3)] family_empty(1) [OF arrangedD(2) [OF baseD(1) [OF assms(1)]]] listed_count [OF arrangedD(2) [OF baseD(1) [OF assms(1)]]] p
    by fastforce
  then show ?case using 0 p assms(2,3) by (intro exI [of _ 0] exI [of _ t]) (auto simp: unat_eq_0 word_less_nat_alt)
next
  case (Suc n)
  let ?p = "of_nat (Suc n) :: u32"
  have "unat (configMAX_PRIORITIES cfg) < 4294967296" using unsigned_less [of "configMAX_PRIORITIES cfg"] by simp
  then have "Suc n < 4294967296" by (rule less_trans [OF Suc.prems(2)])
  then have u: "unat ?p = Suc n" "?p < configMAX_PRIORITIES cfg"
    using Suc.prems(2) unat_of_nat_u32 [of "Suc n"] by (simp_all add: word_less_nat_alt del: of_nat_Suc)
  obtain xs where L: "L (ready_list cfg ?p) = Some xs" using arrangedD(3) [OF baseD(1) [OF assms(1)]] ready_in_kernel [OF u(2)] by blast
  note e = family_empty(1) [OF arrangedD(2) [OF baseD(1) [OF assms(1)]] L listed_count [OF arrangedD(2) [OF baseD(1) [OF assms(1)]] L]]
  show ?case
  proof (cases "xs = []")
    case True
    have "unat (prio k v) \<le> n" if "v \<in> T" "ready cfg k v" for v
    proof -
      have "prio k v \<noteq> ?p" using ready_listed [OF assms(1) that] L True by auto
      then have "unat (prio k v) \<noteq> Suc n" using u(1) by (metis word_unat_eq_iff)
      then show ?thesis using Suc.prems(3) [OF that] by simp
    qed
    then show ?thesis using Suc.IH Suc.prems(2) e True assms(2,3) by simp
  next
    case False
    then obtain v where "v \<in> T" "ready cfg k v" "prio k v = ?p" using ready_task_of [OF assms(1) u(2) L] by (metis list.set_intros(1) neq_Nil_conv)
    then show ?thesis
      using e False u Suc.prems(3) by (intro exI [of _ ?p] exI [of _ v]) (auto simp: word_le_nat_alt)
  qed
qed

lemma base_set_index:
  assumes "sched_base cfg T {} L k" and "list_family L m" and "list_items m = list_items (task_lists k)" and "t \<in> T" and "p < configMAX_PRIORITIES cfg"
    and "\<And>u. u \<in> T \<Longrightarrow> ready cfg k u \<Longrightarrow> prio k u \<le> p"
  shows "sched_base cfg T {} L (k\<lparr>task_lists := m, pxCurrentTCB := t, uxTopReadyPriority := p\<rparr>)"
proof -
  note b = baseD [OF assms(1)]
  have same: "container m = container (task_lists k)" "item_value m = item_value (task_lists k)" "owner m = owner (task_lists k)"
    using assms(3) by (auto simp: container_def item_value_def owner_def fun_eq_iff)
  have "task_ok cfg T L (k\<lparr>task_lists := m\<rparr>) u" if "task_ok cfg T L k u" for u
    using that same assms(3) by (simp add: task_ok_def placed_def)
  then have "arranged cfg T {} L (k\<lparr>task_lists := m\<rparr>)" using b(1) assms(2) same by (auto simp: arranged_def)
  then have "arranged cfg T {} L (k\<lparr>task_lists := m, pxCurrentTCB := t, uxTopReadyPriority := p\<rparr>)"
    by (subst arranged_cong [where k = "k\<lparr>task_lists := m\<rparr>"]) simp_all
  then show ?thesis using b(5-7) assms(4-6) same by (simp add: sched_base_def ready_def ordered_def)
qed

lemma switch_runs:
  assumes "sched_base cfg T {} L k" and "t \<in> T" and "ready cfg k t" and "uxSchedulerSuspended k = 0"
  shows "\<exists>m u. vTaskSwitchContext cfg k = Some (k\<lparr>xYieldPending := False, task_lists := m, pxCurrentTCB := u, uxTopReadyPriority := prio k u\<rparr>) \<and>
    sched_base cfg T {} L (k\<lparr>xYieldPending := False, task_lists := m, pxCurrentTCB := u, uxTopReadyPriority := prio k u\<rparr>) \<and>
    list_items m = list_items (task_lists k) \<and> u \<in> T \<and> ready cfg k u \<and> (\<forall>v \<in> T. ready cfg k v \<longrightarrow> prio k v \<le> prio k u)"
proof -
  note b = baseD [OF assms(1)]
  obtain p u where p: "find_ready cfg (task_lists k) (unat (uxTopReadyPriority k)) = Some (unat p)" "p < configMAX_PRIORITIES cfg"
      "u \<in> T" "ready cfg k u" "prio k u = p" "\<forall>v \<in> T. ready cfg k v \<longrightarrow> prio k v \<le> p"
    using find_ready_runs [OF assms(1-3), of "unat (uxTopReadyPriority k)"] b(3,4) assms(2,3)
    by (auto simp: word_le_nat_alt word_less_nat_alt)
  obtain xs where L: "L (ready_list cfg p) = Some xs" "xs \<noteq> []" using ready_listed [OF assms(1) p(3,4)] p(5) by (metis empty_iff list.set(1))
  obtain x m where m: "x \<in> set xs" "listGET_OWNER_OF_NEXT_ENTRY (ready_list cfg p) (task_lists k) = Some (owner (task_lists k) x, m)"
      "list_family L m" "list_items m = list_items (task_lists k)"
    using family_walk [OF arrangedD(2) [OF b(1)] L] by blast
  obtain w where w: "w \<in> T" "x = xStateListItem w" "ready cfg k w" "prio k w = p" using ready_task_of [OF assms(1) p(2) L(1) m(1)] by blast
  let ?k = "k\<lparr>xYieldPending := False, task_lists := m, pxCurrentTCB := w, uxTopReadyPriority := p\<rparr>"
  have "vTaskSwitchContext cfg k = Some ?k"
    using p(1) m(2) w(2) b(12) [OF w(1)] assms(4) by (simp add: vTaskSwitchContext_def taskSELECT_HIGHEST_PRIORITY_TASK_def)
  moreover have "sched_base cfg T {} L ?k"
    using base_set_index [of cfg T L "k\<lparr>xYieldPending := False\<rparr>" m w p] assms(1) m(3,4) w(1) p(2,6) by (simp add: ready_def)
  ultimately show ?thesis using m(4) w p(6) by blast
qed

end
