(* ===== verification/Sched_Time.thy ===== *)
theory Sched_Time
  imports Sched_Correct
begin

text \<open>
  The clock of the scheduler: the tick with the switch of the delayed lists when the counter wraps, the tasks it wakes, the ticks and the ready tasks
  that were held back while the scheduler was suspended, and the delay of the running task.
\<close>

section \<open>The tick\<close>

definition due :: "kernel \<Rightarrow> u32 \<Rightarrow> bool" where
  "due k t \<longleftrightarrow> state_of k t = pxDelayedTaskList k \<and> wake_time k t \<le> xTickCount k"

lemma timed_head:
  assumes "sched_base cfg T {} L k" and "l \<in> state_lists cfg" and "ordered L (task_lists k) l"
  obtains "listLIST_IS_EMPTY l (task_lists k) = Some True" and "\<And>t. t \<in> T \<Longrightarrow> state_of k t \<noteq> l"
  | t where "t \<in> T" and "state_of k t = l" and "listLIST_IS_EMPTY l (task_lists k) = Some False"
    and "listGET_OWNER_OF_HEAD_ENTRY l (task_lists k) = Some t" and "listGET_ITEM_VALUE_OF_HEAD_ENTRY l (task_lists k) = Some (wake_time k t)"
    and "\<And>u. u \<in> T \<Longrightarrow> state_of k u = l \<Longrightarrow> wake_time k t \<le> wake_time k u"
proof -
  note a = baseD(1) [OF assms(1)]
  note f = arrangedD(2) [OF a]
  obtain xs where L: "L l = Some xs" using arrangedD(3) [OF a] state_lists_kernel [OF assms(2)] by blast
  note e = family_empty(1) [OF f L listed_count [OF f L]]
  have listed: "xStateListItem u \<in> set xs" if "u \<in> T" "state_of k u = l" for u using state_item_listed [OF a that(1)] that(2) L by auto
  show thesis
  proof (cases xs)
    case Nil
    then show thesis using that(1) e listed by (metis empty_iff list.set(1))
  next
    case (Cons x ys)
    then obtain t where t: "t \<in> T" "x = xStateListItem t" "state_of k t = l" using state_list_items [OF a assms(2) L, of x] by auto
    have "wake_time k t \<le> wake_time k u" if "u \<in> T" "state_of k u = l" for u
      using assms(3) listed [OF that] L Cons t(2) by (auto simp: ordered_def)
    then show thesis using that(2) [OF t(1,3)] e Cons family_head [OF f, of l x ys] L t(2) baseD(12) [OF assms(1) t(1)] by simp
  qed
qed

text \<open>The tasks that are due are ready and wait for no event any more, and the others are where they were.\<close>

definition woken :: "sched_config \<Rightarrow> u32 set \<Rightarrow> kernel \<Rightarrow> bool \<Rightarrow> bool \<Rightarrow> kernel \<Rightarrow> bool" where
  "woken cfg T k sw s k' \<longleftrightarrow> (\<exists>L'. sched_base cfg T {} L' k') \<and> in_time T k' \<and> kept k k' \<and>
    pxCurrentTCB k' = pxCurrentTCB k \<and> xYieldPending k' = xYieldPending k \<and>
    (s \<longleftrightarrow> sw \<or> configUSE_PREEMPTION cfg \<and> (\<exists>t \<in> T. due k t \<and> prio k (pxCurrentTCB k) < prio k t)) \<and>
    (\<forall>t \<in> T. state_of k' t = (if due k t then ready_list cfg (prio k t) else state_of k t) \<and> event_of k' t = (if due k t then 0 else event_of k t))"

lemma unblock_delayed_runs:
  assumes "sched_base cfg T {} L k"
  shows "\<exists>s k'. unblock_delayed cfg sw k = returns (s, k') \<and> woken cfg T k sw s k'"
  using assms
proof (induction "card {t \<in> T. state_of k t = pxDelayedTaskList k}" arbitrary: k L sw rule: less_induct)
  case (less k)
  note b = baseD [OF less.prems]
  from less.prems delayed_in_state_lists(1) [OF b(1)] b(6) show ?case
  proof (cases rule: timed_head)
    case 1
    then have "delayed_step cfg k = Some (True, False, k\<lparr>xNextTaskUnblockTime := portMAX_DELAY\<rparr>)" by (simp add: delayed_step_def)
    then have "unblock_delayed cfg sw k = returns (sw, k\<lparr>xNextTaskUnblockTime := portMAX_DELAY\<rparr>)" by (subst unblock_delayed.simps) simp
    then show ?thesis using 1 less.prems by (auto simp: woken_def in_time_def kept_def same_items_def due_def)
  next
    case (2 t)
    note v = item_reads(1) [OF b(10) [OF 2(1)]]
    show ?thesis
    proof (cases "xTickCount k < wake_time k t")
      case True
      then have "delayed_step cfg k = Some (True, False, k\<lparr>xNextTaskUnblockTime := wake_time k t\<rparr>)" using 2 v by (simp add: delayed_step_def)
      then have "unblock_delayed cfg sw k = returns (sw, k\<lparr>xNextTaskUnblockTime := wake_time k t\<rparr>)" by (subst unblock_delayed.simps) simp
      moreover have "xTickCount k < wake_time k u" if "u \<in> T" "state_of k u = pxDelayedTaskList k" for u using True 2(6) [OF that] by simp
      ultimately show ?thesis using 2(6) less.prems by (fastforce simp: woken_def in_time_def kept_def same_items_def due_def)
    next
      case False
      let ?k = "\<lambda>m. k\<lparr>task_lists := m, uxTopReadyPriority := max (uxTopReadyPriority k) (prio k t)\<rparr>"
      let ?sw = "configUSE_PREEMPTION cfg \<and> prio k (pxCurrentTCB k) < prio k t"
      obtain m L1 where m: "unblock_task cfg t k = Some (?sw, ?k m)" "sched_base cfg T {} L1 (?k m)" "same_items (task_lists k) m"
          "container m = (container (task_lists k))(xStateListItem t := ready_list cfg (prio k t), xEventListItem t := 0)"
        using base_unblock [OF less.prems 2(1)] by blast
      have due: "due k t" using False 2(2) by (simp add: due_def not_less)
      have st: "container m (xStateListItem u) = (if u = t then ready_list cfg (prio k t) else state_of k u)"
          "container m (xEventListItem u) = (if u = t then 0 else event_of k u)" if "u \<in> T" for u
        using m(4) b(14) [OF 2(1) that] b(14) [OF that 2(1)] by auto
      have val: "item_value m = item_value (task_lists k)" using m(3) by (simp add: same_items_def)
      have away: "ready_list cfg (prio k t) \<noteq> pxDelayedTaskList k" by (rule ready_not_delayed(1) [OF b(1) b(9) [OF 2(1)]])
      have dues: "due (?k m) u \<longleftrightarrow> due k u \<and> u \<noteq> t" if "u \<in> T" for u using st(1) [OF that] val away by (simp add: due_def)
      have "{u \<in> T. state_of (?k m) u = pxDelayedTaskList (?k m)} = {u \<in> T. state_of k u = pxDelayedTaskList k} - {t}"
        using st(1) away by (auto split: if_splits)
      then have fewer: "{u \<in> T. state_of (?k m) u = pxDelayedTaskList (?k m)} \<subset> {u \<in> T. state_of k u = pxDelayedTaskList k}"
        using 2(1,2) by blast
      obtain s k' where k': "unblock_delayed cfg (sw \<or> ?sw) (?k m) = returns (s, k')" "woken cfg T (?k m) (sw \<or> ?sw) s k'"
        using less.hyps [OF psubset_card_mono [OF finite fewer] m(2), of "sw \<or> ?sw"] by blast
      have "delayed_step cfg k = Some (False, ?sw, ?k m)" using 2 v False m(1) by (simp add: delayed_step_def)
      then have "unblock_delayed cfg sw k = returns (s, k')" using k'(1) by (subst unblock_delayed.simps) simp
      moreover have "kept k k'" using k'(2) same_items_trans [OF m(3)] by (auto simp: woken_def kept_def)
      moreover have "s \<longleftrightarrow> sw \<or> configUSE_PREEMPTION cfg \<and> (\<exists>u \<in> T. due k u \<and> prio k (pxCurrentTCB k) < prio k u)"
        using k'(2) dues due 2(1) by (auto simp: woken_def)
      moreover have "state_of k' u = (if due k u then ready_list cfg (prio k u) else state_of k u) \<and> event_of k' u = (if due k u then 0 else event_of k u)"
        if "u \<in> T" for u using k'(2) dues [OF that] st [OF that] due that by (cases "u = t") (simp_all add: woken_def)
      ultimately show ?thesis using k'(2) by (simp add: woken_def)
    qed
  qed
qed

lemma reset_unblock_time:
  assumes "sched_base cfg T {} L k"
  shows "\<exists>n. prvResetNextTaskUnblockTime k = Some (k\<lparr>xNextTaskUnblockTime := n\<rparr>) \<and>
    (\<forall>t \<in> T. state_of k t = pxDelayedTaskList k \<longrightarrow> n \<le> wake_time k t)"
  using assms delayed_in_state_lists(1) [OF baseD(1) [OF assms]] baseD(6) [OF assms]
  by (cases rule: timed_head) (auto simp: prvResetNextTaskUnblockTime_def)

text \<open>The ticks that a sleeping task has left after \<open>n\<close> ticks.\<close>

definition slept :: "nat \<Rightarrow> nat option \<Rightarrow> nat option" where
  "slept n s = (case s of None \<Rightarrow> None | Some d \<Rightarrow> if d \<le> n then None else Some (d - n))"

lemma unat_minus_one: "(d :: u32) \<noteq> 0 \<Longrightarrow> unat (d - 1) = unat d - 1"
  by (metis unat_minus_one)

lemma next_word:
  assumes "(a :: u32) < b"
  shows "b \<le> a + 1 \<longleftrightarrow> b = a + 1" and "a + 1 \<noteq> 0"
proof -
  have "unat a < unat b" "unat b < 4294967296" using assms unsigned_less [of b] by (simp_all add: word_less_nat_alt)
  then have "Suc (unat a) < 4294967296" by linarith
  then have u: "unat (a + 1) = unat a + 1" by (simp add: unat_word_ariths)
  then show "a + 1 \<noteq> 0" by auto
  show "b \<le> a + 1 \<longleftrightarrow> b = a + 1" using u \<open>unat a < unat b\<close> by (auto simp: word_le_nat_alt word_unat_eq_iff)
qed

lemma word_less_next: "(a :: u32) + 1 \<noteq> 0 \<Longrightarrow> a < a + 1"
  by uint_arith

lemma count_tick:
  assumes "sched_base cfg T {} L k" and "in_time T k"
  defines "k0 \<equiv> k\<lparr>xTickCount := xTickCount k + 1\<rparr>"
  shows "\<exists>k1. (if xTickCount k0 = 0 then taskSWITCH_DELAYED_LISTS k0 else Some k0) = Some k1 \<and> sched_base cfg T {} L k1 \<and>
    (\<forall>t \<in> T. state_of k1 t = pxDelayedTaskList k1 \<longrightarrow> xNextTaskUnblockTime k1 \<le> wake_time k t) \<and>
    (\<forall>t \<in> T. due k1 t \<longleftrightarrow> delayed k t \<and> wake_time k t = xTickCount k + 1) \<and> delayed k1 = delayed k \<and>
    xTickCount k1 = xTickCount k + 1 \<and> task_lists k1 = task_lists k \<and> tcbs k1 = tcbs k \<and> pxCurrentTCB k1 = pxCurrentTCB k \<and>
    xYieldPending k1 = xYieldPending k \<and> uxSchedulerSuspended k1 = uxSchedulerSuspended k \<and> xPendedTicks k1 = xPendedTicks k \<and>
    uxCurrentNumberOfTasks k1 = uxCurrentNumberOfTasks k \<and> xSchedulerRunning k1 = xSchedulerRunning k"
proof (cases "xTickCount k + 1 = 0")
  case False
  note b = baseD [OF assms(1)]
  have step: "v < xTickCount k \<Longrightarrow> v < xTickCount k + 1" for v using less_trans [OF _ word_less_next [OF False]] .
  have "arranged cfg T {} L k0" using b(1) unfolding k0_def by (subst arranged_cong [where k = k]) simp_all
  then have "sched_base cfg T {} L k0" using assms(1) step unfolding sched_base_def by (auto simp: k0_def ready_def)
  moreover have "due k0 t \<longleftrightarrow> delayed k t \<and> wake_time k t = xTickCount k + 1" if "t \<in> T" for t
  proof -
    have "wake_time k t \<noteq> xTickCount k + 1" if "state_of k t = pxOverflowDelayedTaskList k"
      using b(5) [OF \<open>t \<in> T\<close> that] step [of "wake_time k t"] by auto
    then show ?thesis using assms(2) next_word(1) that delayed_in_state_lists(3) [OF b(1)] by (auto simp: due_def delayed_def in_time_def k0_def)
  qed
  ultimately show ?thesis using False assms(2) by (intro exI [of _ k0]) (auto simp: k0_def in_time_def delayed_def fun_eq_iff)
next
  case True
  note b = baseD [OF assms(1)]
  let ?d = "pxDelayedTaskList k" and ?o = "pxOverflowDelayedTaskList k"
  have none: "state_of k t \<noteq> ?d" if "t \<in> T" for t
    using assms(2) that next_word(2) True by (auto simp: in_time_def)
  define k1 where "k1 = k0\<lparr>pxDelayedTaskList := ?o, pxOverflowDelayedTaskList := ?d, xNumOfOverflows := xNumOfOverflows k + 1\<rparr>"
  have "arranged cfg T {} L k1"
    using b(1) unfolding arranged_def task_ok_def home_def by (auto simp: k1_def k0_def)
  then have base: "sched_base cfg T {} L k1" using assms(1) none unfolding sched_base_def by (auto simp: k1_def k0_def ready_def)
  obtain n where n: "prvResetNextTaskUnblockTime k1 = Some (k1\<lparr>xNextTaskUnblockTime := n\<rparr>)"
      "\<forall>t \<in> T. state_of k1 t = pxDelayedTaskList k1 \<longrightarrow> n \<le> wake_time k1 t" using reset_unblock_time [OF base] by blast
  from assms(1) delayed_in_state_lists(1) [OF b(1)] b(6) have "listLIST_IS_EMPTY ?d (task_lists k) = Some True"
    by (cases rule: timed_head) (use none in auto)
  then have "taskSWITCH_DELAYED_LISTS k0 = Some (k1\<lparr>xNextTaskUnblockTime := n\<rparr>)"
    using n(1) by (simp add: taskSWITCH_DELAYED_LISTS_def k0_def k1_def config_assert_def)
  moreover have "due k1 t \<longleftrightarrow> delayed k t \<and> wake_time k t = xTickCount k + 1" if "t \<in> T" for t
    using none [OF that] True by (simp add: due_def delayed_def k1_def k0_def)
  ultimately show ?thesis using True base n(2)
    by (intro exI [of _ "k1\<lparr>xNextTaskUnblockTime := n\<rparr>"]) (auto simp: k1_def k0_def delayed_def fun_eq_iff due_def)
qed

text \<open>What \<open>n\<close> ticks do: every sleeping task has \<open>n\<close> ticks less to sleep, and those that have slept enough are ready and wait for no event.\<close>

definition ticked :: "sched_config \<Rightarrow> u32 set \<Rightarrow> nat \<Rightarrow> kernel \<Rightarrow> kernel \<Rightarrow> bool" where
  "ticked cfg T n k k' \<longleftrightarrow> sched_inv cfg T k' \<and> xTickCount k' = xTickCount k + of_nat n \<and>
     (\<forall>t \<in> T. sleeping k' t = slept n (sleeping k t) \<and>
        (if sleeping k t \<noteq> None \<and> the (sleeping k t) \<le> n then ready cfg k' t \<and> event_of k' t = 0
         else ready cfg k' t = ready cfg k t \<and> event_of k' t = event_of k t)) \<and>
     tcbs k' = tcbs k \<and> pxCurrentTCB k' = pxCurrentTCB k \<and> uxSchedulerSuspended k' = uxSchedulerSuspended k \<and> xPendedTicks k' = xPendedTicks k \<and>
     uxCurrentNumberOfTasks k' = uxCurrentNumberOfTasks k \<and> xSchedulerRunning k' = xSchedulerRunning k"

lemma sleeping_pos:
  assumes "sched_inv cfg T k" and "t \<in> T" and "sleeping k t = Some d"
  shows "0 < d"
proof -
  obtain L where b: "sched_base cfg T {} L k" and i: "in_time T k" using assms(1) by (auto simp: sched_inv_def)
  have "wake_time k t \<noteq> xTickCount k"
    using assms(2,3) i baseD(5) [OF b assms(2)] by (auto simp: sleeping_def delayed_def in_time_def split: if_splits)
  then show ?thesis using assms(3) by (auto simp: sleeping_def unat_gt_0 split: if_splits)
qed

lemma switch_after_tick:
  assumes "sched_base cfg T {} L k"
  shows "\<exists>s. tick_switch cfg sw k = Some s \<and> (sw \<longrightarrow> s) \<and> (s \<longrightarrow> sw \<or> configUSE_PREEMPTION cfg)"
proof -
  note b = baseD [OF assms]
  obtain c where c: "tcbs k (pxCurrentTCB k) = Some c" using b(2,8) by blast
  then have p: "uxPriority c < configMAX_PRIORITIES cfg" using b(2,9) prio_tcb by metis
  obtain xs where L: "L (ready_list cfg (uxPriority c)) = Some xs" using arrangedD(3) [OF b(1)] ready_in_kernel [OF p] by blast
  show ?thesis
    using c family_empty(2) [OF arrangedD(2) [OF b(1)] L listed_count [OF arrangedD(2) [OF b(1)] L]] by (auto simp: tick_switch_def)
qed

lemma tick_wakes:
  assumes "sched_base cfg T {} L k" and "in_time T k"
  defines "k0 \<equiv> k\<lparr>xTickCount := xTickCount k + 1\<rparr>"
  shows "\<exists>k1 s k'. (if xTickCount k0 = 0 then taskSWITCH_DELAYED_LISTS k0 else Some k0) = Some k1 \<and>
    (if xTickCount k1 \<ge> xNextTaskUnblockTime k1 then unblock_delayed cfg False k1 else returns (False, k1)) = returns (s, k') \<and>
    woken cfg T k1 False s k' \<and>
    (\<forall>t \<in> T. due k1 t \<longleftrightarrow> delayed k t \<and> wake_time k t = xTickCount k + 1) \<and> delayed k1 = delayed k \<and>
    xTickCount k1 = xTickCount k + 1 \<and> task_lists k1 = task_lists k \<and> tcbs k1 = tcbs k \<and> pxCurrentTCB k1 = pxCurrentTCB k \<and>
    uxSchedulerSuspended k1 = uxSchedulerSuspended k \<and> xPendedTicks k1 = xPendedTicks k \<and>
    uxCurrentNumberOfTasks k1 = uxCurrentNumberOfTasks k \<and> xSchedulerRunning k1 = xSchedulerRunning k"
proof -
  obtain k1 where k1: "(if xTickCount k0 = 0 then taskSWITCH_DELAYED_LISTS k0 else Some k0) = Some k1" "sched_base cfg T {} L k1"
      "\<forall>t \<in> T. state_of k1 t = pxDelayedTaskList k1 \<longrightarrow> xNextTaskUnblockTime k1 \<le> wake_time k t"
      "\<forall>t \<in> T. due k1 t \<longleftrightarrow> delayed k t \<and> wake_time k t = xTickCount k + 1" "delayed k1 = delayed k"
      "xTickCount k1 = xTickCount k + 1" "task_lists k1 = task_lists k" "tcbs k1 = tcbs k" "pxCurrentTCB k1 = pxCurrentTCB k"
      "uxSchedulerSuspended k1 = uxSchedulerSuspended k" "xPendedTicks k1 = xPendedTicks k"
      "uxCurrentNumberOfTasks k1 = uxCurrentNumberOfTasks k" "xSchedulerRunning k1 = xSchedulerRunning k"
    using count_tick [OF assms(1,2)] unfolding k0_def by blast
  have "\<exists>s k'. (if xTickCount k1 \<ge> xNextTaskUnblockTime k1 then unblock_delayed cfg False k1 else returns (False, k1)) = returns (s, k') \<and>
    woken cfg T k1 False s k'"
  proof (cases "xTickCount k1 \<ge> xNextTaskUnblockTime k1")
    case True
    then show ?thesis using unblock_delayed_runs [OF k1(2)] by simp
  next
    case False
    then have early: "xTickCount k1 < wake_time k1 t" if "t \<in> T" "state_of k1 t = pxDelayedTaskList k1" for t
      using k1(3,7) that by (metis less_le_trans not_le)
    then have "\<not> due k1 t" if "t \<in> T" for t using that by (metis due_def not_le)
    then have "woken cfg T k1 False False k1"
      using k1(2,3,7) early by (auto simp: woken_def in_time_def kept_def same_items_def)
    then show ?thesis using False by auto
  qed
  then show ?thesis using k1(1,4-) by blast
qed

lemma sleeps_less:
  assumes "t \<in> T" and "woken cfg T k1 False s k'" and "due k1 t \<longleftrightarrow> delayed k t \<and> wake_time k t = xTickCount k + 1" and "delayed k1 = delayed k"
    and "xTickCount k1 = xTickCount k + 1" and "task_lists k1 = task_lists k" and "sched_inv cfg T k" and "tcbs k1 = tcbs k"
  shows "sleeping k' t = slept 1 (sleeping k t)"
    and "if sleeping k t \<noteq> None \<and> the (sleeping k t) \<le> 1 then ready cfg k' t \<and> event_of k' t = 0
         else ready cfg k' t = ready cfg k t \<and> event_of k' t = event_of k t"
proof -
  have p: "prio k1 = prio k" "prio k' = prio k" using assms(2,8) kept_prio by (auto simp: woken_def prio_def fun_eq_iff)
  have st: "state_of k' t = (if due k1 t then ready_list cfg (prio k t) else state_of k t)" "event_of k' t = (if due k1 t then 0 else event_of k t)"
    using assms(1,2,6) p by (simp_all add: woken_def)
  have kp: "kept k1 k'" using assms(2) by (simp add: woken_def)
  then have same: "wake_time k' t = wake_time k t" "xTickCount k' = xTickCount k + 1" using assms(5,6) by (simp_all add: kept_def same_items_def)
  have one: "due k1 t \<longleftrightarrow> sleeping k t \<noteq> None \<and> the (sleeping k t) \<le> 1"
  proof (cases "delayed k t")
    case True
    have "0 < unat (wake_time k t - xTickCount k)" using sleeping_pos [OF assms(7,1)] True by (simp add: sleeping_def)
    then have "unat (wake_time k t - xTickCount k) \<le> 1 \<longleftrightarrow> unat (wake_time k t - xTickCount k) = unat (1 :: u32)" by auto
    also have "\<dots> \<longleftrightarrow> wake_time k t = xTickCount k + 1" by (simp only: unsigned_word_eqI word_unat_eq_iff [symmetric]) (auto simp: algebra_simps)
    finally show ?thesis using True assms(3) by (simp add: sleeping_def)
  qed (use assms(3) in \<open>simp add: sleeping_def\<close>)
  then show "if sleeping k t \<noteq> None \<and> the (sleeping k t) \<le> 1 then ready cfg k' t \<and> event_of k' t = 0
         else ready cfg k' t = ready cfg k t \<and> event_of k' t = event_of k t" using st p by (simp add: ready_def)
  show "sleeping k' t = slept 1 (sleeping k t)"
  proof (cases "due k1 t")
    case True
    obtain L' where b': "sched_base cfg T {} L' k'" using assms(2) by (auto simp: woken_def)
    have "\<not> delayed k' t"
      using True st(1) p(2) ready_not_delayed(1,2) [OF baseD(1) [OF b'] baseD(9) [OF b' assms(1)]] by (simp add: delayed_def)
    then show ?thesis using True one by (auto simp: slept_def sleeping_def)
  next
    case False
    have "delayed k' t = delayed k t" using False st(1) kp assms(4,6) by (auto simp: delayed_def kept_def fun_eq_iff)
    moreover have "unat (wake_time k t - (xTickCount k + 1)) = unat (wake_time k t - xTickCount k) - 1" if "delayed k t"
      using unat_minus_one [of "wake_time k t - xTickCount k"] sleeping_pos [OF assms(7,1)] that
      by (fastforce simp: sleeping_def diff_diff_eq)
    ultimately show ?thesis using False one same by (auto simp: slept_def sleeping_def)
  qed
qed

lemma tick_runs:
  assumes "sched_inv cfg T k" and "uxSchedulerSuspended k = 0"
  shows "\<exists>s k'. xTaskIncrementTick cfg k = returns (s, k') \<and> ticked cfg T 1 k k' \<and> (s \<longrightarrow> configUSE_PREEMPTION cfg) \<and>
    (configUSE_PREEMPTION cfg \<and> (\<exists>t \<in> T. sleeping k t = Some 1 \<and> prio k (pxCurrentTCB k) < prio k t) \<longrightarrow> s)"
proof -
  obtain L where L: "sched_base cfg T {} L k" "in_time T k" using assms(1) by (auto simp: sched_inv_def)
  let ?k0 = "k\<lparr>xTickCount := xTickCount k + 1\<rparr>"
  obtain k1 s k' where k1: "(if xTickCount ?k0 = 0 then taskSWITCH_DELAYED_LISTS ?k0 else Some ?k0) = Some k1"
      "(if xTickCount k1 \<ge> xNextTaskUnblockTime k1 then unblock_delayed cfg False k1 else returns (False, k1)) = returns (s, k')"
      "woken cfg T k1 False s k'" "\<forall>t \<in> T. due k1 t \<longleftrightarrow> delayed k t \<and> wake_time k t = xTickCount k + 1" "delayed k1 = delayed k"
      "xTickCount k1 = xTickCount k + 1" "task_lists k1 = task_lists k" "tcbs k1 = tcbs k" "pxCurrentTCB k1 = pxCurrentTCB k"
      "uxSchedulerSuspended k1 = uxSchedulerSuspended k" "xPendedTicks k1 = xPendedTicks k"
      "uxCurrentNumberOfTasks k1 = uxCurrentNumberOfTasks k" "xSchedulerRunning k1 = xSchedulerRunning k"
    using tick_wakes [OF L] by blast
  have p: "prio k1 = prio k" using k1(8) by (simp add: prio_def fun_eq_iff)
  obtain L' where L': "sched_base cfg T {} L' k'" using k1(3) by (auto simp: woken_def)
  obtain s' where s': "tick_switch cfg s k' = Some s'" "s \<longrightarrow> s'" "s' \<longrightarrow> s \<or> configUSE_PREEMPTION cfg" using switch_after_tick [OF L'] by blast
  have "xTaskIncrementTick cfg k = returns (s', k')"
    using assms(2) k1(1,2) s'(1) by (simp add: xTaskIncrementTick_def Let_def)
  moreover have "ticked cfg T 1 k k'"
    using sleeps_less [OF _ k1(3) bspec [OF k1(4)] k1(5-7) assms(1) k1(8)] k1(3,6-) by (auto simp: ticked_def sched_inv_def woken_def kept_def)
  moreover have "due k1 t" if "t \<in> T" "sleeping k t = Some 1" for t
  proof -
    have "unat (wake_time k t - xTickCount k) = unat (1 :: u32)" "delayed k t" using that(2) by (auto simp: sleeping_def split: if_splits)
    then have "wake_time k t - xTickCount k = 1" by (simp only: word_unat_eq_iff)
    then show ?thesis using k1(4) that(1) \<open>delayed k t\<close> by (simp add: diff_eq_eq add.commute)
  qed
  then have "configUSE_PREEMPTION cfg \<and> (\<exists>t \<in> T. sleeping k t = Some 1 \<and> prio k (pxCurrentTCB k) < prio k t) \<longrightarrow> s'"
    using s'(2) k1(3,9) p by (auto simp: woken_def)
  moreover have "s' \<longrightarrow> configUSE_PREEMPTION cfg" using s'(3) k1(3) by (auto simp: woken_def)
  ultimately show ?thesis by blast
qed

lemma ticked_zero: "sched_inv cfg T k \<Longrightarrow> ticked cfg T 0 k k"
  using sleeping_pos [of cfg T k] by (auto simp: ticked_def slept_def split: option.splits)

lemma sched_inv_yield [simp]: "sched_inv cfg T (k\<lparr>xYieldPending := b\<rparr>) = sched_inv cfg T k"
  by (simp add: sched_inv_def in_time_def)

lemma ticked_yield [simp]: "ticked cfg T n k (k'\<lparr>xYieldPending := b\<rparr>) = ticked cfg T n k k'"
  by (simp add: ticked_def sleeping_def delayed_def ready_def)

lemma tickedD:
  assumes "ticked cfg T n k k'" and "t \<in> T"
  shows "sleeping k' t = slept n (sleeping k t)"
    and "if sleeping k t \<noteq> None \<and> the (sleeping k t) \<le> n then ready cfg k' t \<and> event_of k' t = 0
         else ready cfg k' t = ready cfg k t \<and> event_of k' t = event_of k t"
  using assms by (simp_all add: ticked_def)

lemma ticked_add:
  assumes "ticked cfg T m k k'" and "ticked cfg T n k' k''"
  shows "ticked cfg T (m + n) k k''"
proof -
  have "sleeping k'' t = slept (m + n) (sleeping k t) \<and>
      (if sleeping k t \<noteq> None \<and> the (sleeping k t) \<le> m + n then ready cfg k'' t \<and> event_of k'' t = 0
       else ready cfg k'' t = ready cfg k t \<and> event_of k'' t = event_of k t)" if "t \<in> T" for t
    using tickedD [OF assms(1) that] tickedD [OF assms(2) that] by (cases "sleeping k t") (auto simp: slept_def split: if_splits)
  then show ?thesis using assms by (simp add: ticked_def)
qed

lemma pended_ticks_run:
  assumes "sched_inv cfg T k" and "uxSchedulerSuspended k = 0"
  shows "\<exists>k'. pended_ticks cfg n k = returns k' \<and> ticked cfg T n k k'"
  using assms
proof (induction n arbitrary: k)
  case 0
  then show ?case using ticked_zero by auto
next
  case (Suc n)
  obtain s k1 where k1: "xTaskIncrementTick cfg k = returns (s, k1)" "ticked cfg T 1 k k1" using tick_runs [OF Suc.prems] by blast
  let ?k = "if s then k1\<lparr>xYieldPending := True\<rparr> else k1"
  have k: "ticked cfg T 1 k ?k" using k1(2) by simp
  then obtain k' where "pended_ticks cfg n ?k = returns k'" "ticked cfg T n ?k k'"
    using Suc.IH [of ?k] Suc.prems(2) unfolding ticked_def by metis
  then show ?case using k1(1) ticked_add [OF k] by auto
qed

end
