(* ===== verification/Sched_Resume.thy ===== *)
theory Sched_Resume
  imports Sched_Time
begin

text \<open>
  Resuming the scheduler: the tasks that became ready in the meantime are moved to their ready lists, the ticks that were held back are made up
  for, and the processor is given up if a task of higher priority is ready. The delay of the running task is built on it.
\<close>

section \<open>Tasks that became ready while the scheduler was suspended\<close>

definition pending :: "sched_config \<Rightarrow> kernel \<Rightarrow> u32 \<Rightarrow> bool" where
  "pending cfg k t \<longleftrightarrow> event_of k t = xPendingReadyList cfg"

lemma pending_head:
  assumes "sched_base cfg T {} L k"
  obtains "listLIST_IS_EMPTY (xPendingReadyList cfg) (task_lists k) = Some True" and "\<And>t. t \<in> T \<Longrightarrow> \<not> pending cfg k t"
  | t where "t \<in> T" and "pending cfg k t" and "listLIST_IS_EMPTY (xPendingReadyList cfg) (task_lists k) = Some False"
    and "listGET_OWNER_OF_HEAD_ENTRY (xPendingReadyList cfg) (task_lists k) = Some t"
proof -
  note b = baseD [OF assms]
  note a = b(1) and f = arrangedD(2) [OF b(1)]
  let ?l = "xPendingReadyList cfg"
  have l: "?l \<in> kernel_lists cfg" "?l \<noteq> 0" using kernel_list_nonzero [OF a kernel_members(3)] by simp_all
  obtain xs where L: "L ?l = Some xs" using arrangedD(3) [OF a] l(1) by blast
  note e = family_empty(1) [OF f L listed_count [OF f L]]
  have listed: "xEventListItem u \<in> set xs" if "u \<in> T" "pending cfg k u" for u
    using arrangedD(6) [OF a that(1)] that(2) L l(2) by (auto simp: task_ok_def placed_def pending_def)
  show thesis
  proof (cases xs)
    case Nil
    then show thesis using that(1) e listed by (metis empty_iff list.set(1))
  next
    case (Cons x ys)
    then have c: "container (task_lists k) x = ?l" using family_container [OF f L] by simp
    have "x \<notin> xStateListItem ` T"
      using c home_in_state_lists(1) [OF a] arrangedD(8) [OF a] by (force simp: state_lists_def)
    then obtain t where t: "t \<in> T" "x = xEventListItem t" using arrangedD(9) [OF a l(1) L] Cons by auto
    then show thesis using that(2) [OF t(1)] e Cons c family_head(1) [OF f, of ?l x ys] L b(13) [OF t(1)] by (simp add: pending_def)
  qed
qed

lemma base_move_pending:
  assumes "sched_base cfg T {} L k" and "t \<in> T" and "pending cfg k t" and "listGET_OWNER_OF_HEAD_ENTRY (xPendingReadyList cfg) (task_lists k) = Some t"
  shows "\<exists>m L' y. move_pending cfg k = Some (k\<lparr>task_lists := m, uxTopReadyPriority := max (uxTopReadyPriority k) (prio k t), xYieldPending := y\<rparr>) \<and>
    sched_base cfg T {} L' (k\<lparr>task_lists := m, uxTopReadyPriority := max (uxTopReadyPriority k) (prio k t), xYieldPending := y\<rparr>) \<and>
    same_items (task_lists k) m \<and> (y \<longleftrightarrow> xYieldPending k \<or> prio k (pxCurrentTCB k) < prio k t) \<and>
    container m = (container (task_lists k))(xStateListItem t := ready_list cfg (prio k t), xEventListItem t := 0)"
proof -
  have other: "xStateListItem t \<noteq> xEventListItem t" by (rule baseD(14) [OF assms(1,2,2)])
  have "event_of k t \<noteq> 0" using assms(3) kernel_list_nonzero [OF baseD(1) [OF assms(1)] kernel_members(3)] by (simp add: pending_def)
  then obtain m1 L1 where m1: "remove_item (xEventListItem t) k = Some (k\<lparr>task_lists := m1\<rparr>)" "sched_base cfg T {} L1 (k\<lparr>task_lists := m1\<rparr>)"
      "same_items (task_lists k) m1" "container m1 = (container (task_lists k))(xEventListItem t := 0)"
    using base_remove_event [OF assms(1,2)] by auto
  obtain m2 L2 where m2: "remove_item (xStateListItem t) (k\<lparr>task_lists := m1\<rparr>) = Some (k\<lparr>task_lists := m2\<rparr>)"
      "sched_base cfg T {t} L2 (k\<lparr>task_lists := m2\<rparr>)" "same_items m1 m2" "container m2 = (container m1)(xStateListItem t := 0)"
    using base_remove_state [OF m1(2) assms(2)] by auto
  let ?k = "\<lambda>m. k\<lparr>task_lists := m, uxTopReadyPriority := max (uxTopReadyPriority k) (prio k t)\<rparr>"
  obtain m L' where m: "prvAddTaskToReadyList cfg t (k\<lparr>task_lists := m2\<rparr>) = Some (?k m)" "sched_base cfg T {} L' (?k m)" "same_items m2 m"
      "container m = (container m2)(xStateListItem t := ready_list cfg (prio k t))"
    using base_ready [OF m2(2) assms(2)] by auto
  let ?y = "xYieldPending k \<or> prio k (pxCurrentTCB k) < prio k t"
  have "higher_priority t (?k m) = Some (prio k (pxCurrentTCB k) < prio k t)"
    using higher_priority_eq [of "?k m" t] baseD(2,8) [OF assms(1)] assms(2) by simp
  then have "move_pending cfg k = Some ((?k m)\<lparr>xYieldPending := ?y\<rparr>)"
    using assms(4) m1(1) m2(1) m(1) by (simp add: move_pending_def)
  moreover have "container m = (container (task_lists k))(xStateListItem t := ready_list cfg (prio k t), xEventListItem t := 0)"
    using m(4) m2(4) m1(4) other by (auto simp: fun_eq_iff)
  moreover have "sched_base cfg T {} L' ((?k m)\<lparr>xYieldPending := ?y\<rparr>)" using m(2) by simp
  ultimately show ?thesis using same_items_trans [OF same_items_trans [OF m1(3) m2(3)] m(3)] by blast
qed

definition moved_pending :: "sched_config \<Rightarrow> u32 set \<Rightarrow> kernel \<Rightarrow> bool \<Rightarrow> bool \<Rightarrow> kernel \<Rightarrow> bool" where
  "moved_pending cfg T k mv moved k' \<longleftrightarrow> (\<exists>L'. sched_base cfg T {} L' k') \<and> kept k k' \<and> pxCurrentTCB k' = pxCurrentTCB k \<and>
     xNextTaskUnblockTime k' = xNextTaskUnblockTime k \<and> (moved \<longleftrightarrow> mv \<or> (\<exists>t \<in> T. pending cfg k t)) \<and>
     (xYieldPending k' \<longleftrightarrow> xYieldPending k \<or> (\<exists>t \<in> T. pending cfg k t \<and> prio k (pxCurrentTCB k) < prio k t)) \<and>
     (\<forall>t \<in> T. state_of k' t = (if pending cfg k t then ready_list cfg (prio k t) else state_of k t) \<and>
        event_of k' t = (if pending cfg k t then 0 else event_of k t))"

lemma resume_pending_runs:
  assumes "sched_base cfg T {} L k"
  shows "\<exists>moved k'. resume_pending cfg mv k = returns (moved, k') \<and> moved_pending cfg T k mv moved k'"
  using assms
proof (induction "card {t \<in> T. pending cfg k t}" arbitrary: k L mv rule: less_induct)
  case (less k)
  note b = baseD [OF less.prems]
  from less.prems show ?case
  proof (cases rule: pending_head)
    case 1
    then have "resume_pending cfg mv k = returns (mv, k)" by (subst resume_pending.simps) simp
    then show ?thesis using 1 less.prems by (auto simp: moved_pending_def kept_def same_items_def)
  next
    case (2 t)
    let ?k = "\<lambda>m y. k\<lparr>task_lists := m, uxTopReadyPriority := max (uxTopReadyPriority k) (prio k t), xYieldPending := y\<rparr>"
    obtain m L1 y where m: "move_pending cfg k = Some (?k m y)" "sched_base cfg T {} L1 (?k m y)" "same_items (task_lists k) m"
        "y \<longleftrightarrow> xYieldPending k \<or> prio k (pxCurrentTCB k) < prio k t"
        "container m = (container (task_lists k))(xStateListItem t := ready_list cfg (prio k t), xEventListItem t := 0)"
      using base_move_pending [OF less.prems 2(1,2,4)] by blast
    have st: "container m (xStateListItem u) = (if u = t then ready_list cfg (prio k t) else state_of k u)"
        "container m (xEventListItem u) = (if u = t then 0 else event_of k u)" if "u \<in> T" for u
      using m(5) b(14) [OF 2(1) that] b(14) [OF that 2(1)] by auto
    have "xPendingReadyList cfg \<noteq> 0" by (rule kernel_list_nonzero [OF b(1) kernel_members(3)])
    then have left: "pending cfg (?k m y) u \<longleftrightarrow> pending cfg k u \<and> u \<noteq> t" if "u \<in> T" for u using st(2) [OF that] by (simp add: pending_def)
    have "{u \<in> T. pending cfg (?k m y) u} = {u \<in> T. pending cfg k u} - {t}" using left by auto
    then have fewer: "{u \<in> T. pending cfg (?k m y) u} \<subset> {u \<in> T. pending cfg k u}" using 2(1,2) by blast
    obtain moved k' where k': "resume_pending cfg True (?k m y) = returns (moved, k')" "moved_pending cfg T (?k m y) True moved k'"
      using less.hyps [OF psubset_card_mono [OF finite fewer] m(2), of True] by blast
    have "resume_pending cfg mv k = returns (moved, k')" using 2(3) m(1) k'(1) by (subst resume_pending.simps) simp
    moreover have "kept k k'" using k'(2) same_items_trans [OF m(3)] by (auto simp: moved_pending_def kept_def)
    moreover have "xYieldPending k' \<longleftrightarrow> xYieldPending k \<or> (\<exists>u \<in> T. pending cfg k u \<and> prio k (pxCurrentTCB k) < prio k u)"
      using k'(2) left m(4) 2(1,2) by (auto simp: moved_pending_def)
    moreover have "state_of k' u = (if pending cfg k u then ready_list cfg (prio k u) else state_of k u) \<and>
        event_of k' u = (if pending cfg k u then 0 else event_of k u)" if "u \<in> T" for u
      using k'(2) left [OF that] st [OF that] 2(2) that by (cases "u = t") (simp_all add: moved_pending_def)
    ultimately show ?thesis using k'(2) 2(1,2) by (auto simp: moved_pending_def)
  qed
qed

section \<open>Resuming the scheduler\<close>

text \<open>A context switch changes nothing but the running task.\<close>

lemma switch_keeps:
  assumes "sched_inv cfg T k" and "t \<in> T" and "ready cfg k t" and "uxSchedulerSuspended k = 0"
  shows "\<exists>k'. vTaskSwitchContext cfg k = Some k' \<and> sched_inv cfg T k' \<and> kept k k' \<and> state_of k' = state_of k \<and> event_of k' = event_of k \<and>
    pxCurrentTCB k' \<in> T \<and> ready cfg k (pxCurrentTCB k') \<and> (\<forall>u \<in> T. ready cfg k u \<longrightarrow> prio k u \<le> prio k (pxCurrentTCB k'))"
proof -
  obtain L where L: "sched_base cfg T {} L k" "in_time T k" using assms(1) by (auto simp: sched_inv_def)
  obtain m u where u: "vTaskSwitchContext cfg k = Some (k\<lparr>xYieldPending := False, task_lists := m, pxCurrentTCB := u, uxTopReadyPriority := prio k u\<rparr>)"
      "sched_base cfg T {} L (k\<lparr>xYieldPending := False, task_lists := m, pxCurrentTCB := u, uxTopReadyPriority := prio k u\<rparr>)"
      "list_items m = list_items (task_lists k)" "u \<in> T" "ready cfg k u" "\<forall>v \<in> T. ready cfg k v \<longrightarrow> prio k v \<le> prio k u"
    using switch_runs [OF L(1) assms(2-4)] by blast
  have "container m = container (task_lists k)" "item_value m = item_value (task_lists k)" "owner m = owner (task_lists k)"
    using u(3) by (auto simp: container_def item_value_def owner_def fun_eq_iff)
  then show ?thesis using u L(2) by (auto simp: sched_inv_def in_time_def kept_def same_items_def fun_eq_iff)
qed

lemma kept_view:
  assumes "kept k k'" and "state_of k' t = state_of k t"
  shows "sleeping k' t = sleeping k t" and "ready cfg k' t = ready cfg k t"
  using assms kept_prio [OF assms(1)] by (simp_all add: sleeping_def delayed_def ready_def kept_def same_items_def)

lemma view_fields [simp]:
  "sleeping (k\<lparr>xNextTaskUnblockTime := n\<rparr>) = sleeping k" "ready cfg (k\<lparr>xNextTaskUnblockTime := n\<rparr>) = ready cfg k"
  "sleeping (k\<lparr>xPendedTicks := a\<rparr>) = sleeping k" "ready cfg (k\<lparr>xPendedTicks := a\<rparr>) = ready cfg k"
  "sleeping (k\<lparr>uxSchedulerSuspended := a\<rparr>) = sleeping k" "ready cfg (k\<lparr>uxSchedulerSuspended := a\<rparr>) = ready cfg k"
  "pending cfg (k\<lparr>xNextTaskUnblockTime := n\<rparr>) = pending cfg k" "pending cfg (k\<lparr>xPendedTicks := a\<rparr>) = pending cfg k"
  "pending cfg (k\<lparr>uxSchedulerSuspended := a\<rparr>) = pending cfg k"
  "in_time T (k\<lparr>xPendedTicks := a\<rparr>) = in_time T k" "in_time T (k\<lparr>uxSchedulerSuspended := a\<rparr>) = in_time T k"
  by (simp_all add: sleeping_def delayed_def ready_def pending_def in_time_def fun_eq_iff)

lemma inv_fields [simp]:
  "sched_inv cfg T (k\<lparr>xPendedTicks := a\<rparr>) = sched_inv cfg T k" "sched_inv cfg T (k\<lparr>uxSchedulerSuspended := a\<rparr>) = sched_inv cfg T k"
  by (simp_all add: sched_inv_def)

lemma moved_view:
  assumes "moved_pending cfg T k mv moved k'" and "t \<in> T" and "sched_base cfg T {} L k"
  shows "\<not> pending cfg k' t" and "sleeping k' t = (if pending cfg k t then None else sleeping k t)" and "ready cfg k' t \<longleftrightarrow> pending cfg k t \<or> ready cfg k t"
proof -
  have kp: "kept k k'" using assms(1) by (simp add: moved_pending_def)
  have st: "state_of k' t = (if pending cfg k t then ready_list cfg (prio k t) else state_of k t)" "event_of k' t = (if pending cfg k t then 0 else event_of k t)"
    using assms(1,2) by (simp_all add: moved_pending_def)
  note a = baseD(1) [OF assms(3)]
  show "\<not> pending cfg k' t" using st(2) kernel_list_nonzero [OF a kernel_members(3)] by (auto simp: pending_def)
  have "sleeping k' t = None" if "pending cfg k t"
    using st(1) that kp ready_not_delayed(1,2) [OF a baseD(9) [OF assms(3,2)]] by (simp add: sleeping_def delayed_def kept_def)
  then show "sleeping k' t = (if pending cfg k t then None else sleeping k t)" using kept_view(1) [OF kp] st(1) by simp
  show "ready cfg k' t \<longleftrightarrow> pending cfg k t \<or> ready cfg k t" using st(1) kept_prio [OF kp] by (simp add: ready_def)
qed

text \<open>What resuming the scheduler does to a task.\<close>

definition resumed :: "sched_config \<Rightarrow> u32 set \<Rightarrow> kernel \<Rightarrow> kernel \<Rightarrow> bool" where
  "resumed cfg T k k' \<longleftrightarrow> sched_inv cfg T k' \<and> xTickCount k' = xTickCount k + xPendedTicks k \<and> xPendedTicks k' = 0 \<and>
     uxSchedulerSuspended k' = 0 \<and> tcbs k' = tcbs k \<and> uxCurrentNumberOfTasks k' = uxCurrentNumberOfTasks k \<and> xSchedulerRunning k' = xSchedulerRunning k \<and>
     (\<forall>t \<in> T. \<not> pending cfg k' t \<and> sleeping k' t = (if pending cfg k t then None else slept (unat (xPendedTicks k)) (sleeping k t)) \<and>
        (ready cfg k' t \<longleftrightarrow> pending cfg k t \<or> ready cfg k t \<or> (\<exists>d. sleeping k t = Some d \<and> d \<le> unat (xPendedTicks k))))"

lemma in_time_moved:
  assumes "in_time T k" and "moved_pending cfg T k mv moved k'" and "sched_base cfg T {} L k"
  shows "in_time T k'"
proof -
  have "\<not> pending cfg k t \<and> state_of k t = pxDelayedTaskList k" if "t \<in> T" "state_of k' t = pxDelayedTaskList k'" for t
    using assms(2) that ready_not_delayed(1) [OF baseD(1) [OF assms(3)] baseD(9) [OF assms(3) that(1)]]
    by (auto simp: moved_pending_def kept_def split: if_splits)
  then show ?thesis using assms(1,2) by (auto simp: in_time_def moved_pending_def kept_def same_items_def)
qed

lemma resume_all_prepares:
  assumes "sched_base cfg T {} L k" and "in_time T k" and "uxSchedulerSuspended k = 0"
  shows "\<exists>moved k1 k2 k3. resume_pending cfg False k = returns (moved, k1) \<and> (if moved then prvResetNextTaskUnblockTime k1 else Some k1) = Some k2 \<and>
    pended_ticks cfg (unat (xPendedTicks k2)) k2 = returns k3 \<and> resumed cfg T k (k3\<lparr>xPendedTicks := 0\<rparr>) \<and> pxCurrentTCB k3 = pxCurrentTCB k"
proof -
  obtain moved k1 where k1: "resume_pending cfg False k = returns (moved, k1)" "moved_pending cfg T k False moved k1"
    using resume_pending_runs [OF assms(1)] by blast
  obtain L1 where L1: "sched_base cfg T {} L1 k1" using k1(2) by (auto simp: moved_pending_def)
  note i1 = in_time_moved [OF assms(2) k1(2) assms(1)]
  obtain n where n: "(if moved then prvResetNextTaskUnblockTime k1 else Some k1) = Some (k1\<lparr>xNextTaskUnblockTime := n\<rparr>)"
      "\<forall>t \<in> T. state_of k1 t = pxDelayedTaskList k1 \<longrightarrow> n \<le> wake_time k1 t"
  proof (cases moved)
    case True
    then show ?thesis using that reset_unblock_time [OF L1] by auto
  next
    case False
    then show ?thesis using that [of "xNextTaskUnblockTime k1"] i1 by (simp add: in_time_def)
  qed
  let ?k2 = "k1\<lparr>xNextTaskUnblockTime := n\<rparr>"
  have inv: "sched_inv cfg T ?k2" using L1 i1 n(2) by (auto simp: sched_inv_def in_time_def)
  have kp: "kept k k1" using k1(2) by (simp add: moved_pending_def)
  obtain k3 where k3: "pended_ticks cfg (unat (xPendedTicks ?k2)) ?k2 = returns k3" "ticked cfg T (unat (xPendedTicks ?k2)) ?k2 k3"
    using pended_ticks_run [OF inv] kp assms(3) by (auto simp: kept_def)
  have pend: "xPendedTicks ?k2 = xPendedTicks k" using kp by (simp add: kept_def)
  have "\<not> pending cfg k3 t \<and> sleeping k3 t = (if pending cfg k t then None else slept (unat (xPendedTicks k)) (sleeping k t)) \<and>
      (ready cfg k3 t \<longleftrightarrow> pending cfg k t \<or> ready cfg k t \<or> (\<exists>d. sleeping k t = Some d \<and> d \<le> unat (xPendedTicks k)))" if t: "t \<in> T" for t
    using moved_view [OF k1(2) t assms(1)] tickedD [OF k3(2) t] pend kernel_list_nonzero [OF baseD(1) [OF assms(1)] kernel_members(3)]
    by (cases "sleeping k t") (auto simp: slept_def pending_def split: if_splits)
  then have "resumed cfg T k (k3\<lparr>xPendedTicks := 0\<rparr>)"
    using k3(2) kp pend assms(3) by (simp add: resumed_def ticked_def kept_def)
  moreover have "pxCurrentTCB k3 = pxCurrentTCB k" using k3(2) k1(2) by (simp add: ticked_def moved_pending_def)
  ultimately show ?thesis using k1(1) n(1) k3(1) by blast
qed

lemma resume_all_runs:
  assumes "sched_inv cfg T k" and "uxSchedulerSuspended k = 1" and "uxCurrentNumberOfTasks k > 0" and "\<exists>t \<in> T. ready cfg k t"
  shows "\<exists>y k'. xTaskResumeAll cfg k = returns (y, k') \<and> resumed cfg T k k' \<and>
    (if y then ready cfg k' (pxCurrentTCB k') \<and> (\<forall>t \<in> T. ready cfg k' t \<longrightarrow> prio k t \<le> prio k (pxCurrentTCB k')) else pxCurrentTCB k' = pxCurrentTCB k)"
proof -
  let ?k = "k\<lparr>uxSchedulerSuspended := 0\<rparr>"
  obtain L where L: "sched_base cfg T {} L ?k" "in_time T ?k" using assms(1) by (auto simp: sched_inv_def)
  obtain moved k1 k2 k3 where r: "resume_pending cfg False ?k = returns (moved, k1)" "(if moved then prvResetNextTaskUnblockTime k1 else Some k1) = Some k2"
      "pended_ticks cfg (unat (xPendedTicks k2)) k2 = returns k3" "resumed cfg T ?k (k3\<lparr>xPendedTicks := 0\<rparr>)" "pxCurrentTCB k3 = pxCurrentTCB k"
    using resume_all_prepares [OF L] by auto
  let ?k3 = "k3\<lparr>xPendedTicks := 0\<rparr>"
  have run: "xTaskResumeAll cfg k = (if xYieldPending k3 \<and> configUSE_PREEMPTION cfg then Some (do { k \<leftarrow> vTaskSwitchContext cfg ?k3; Some (True, k) })
      else returns (False, ?k3))"
    using r(1-3) assms(2,3) by (simp add: xTaskResumeAll_def Let_def)
  have res: "resumed cfg T k ?k3" using r(4) by (simp add: resumed_def)
  show ?thesis
  proof (cases "xYieldPending k3 \<and> configUSE_PREEMPTION cfg")
    case True
    obtain t where t: "t \<in> T" "ready cfg ?k3 t" using assms(4) res by (auto simp: resumed_def)
    have s: "sched_inv cfg T ?k3" "uxSchedulerSuspended ?k3 = 0" using res by (simp_all add: resumed_def)
    obtain k' where k': "vTaskSwitchContext cfg ?k3 = Some k'" "sched_inv cfg T k'" "kept ?k3 k'" "state_of k' = state_of ?k3" "event_of k' = event_of ?k3"
        "pxCurrentTCB k' \<in> T" "ready cfg ?k3 (pxCurrentTCB k')" "\<forall>u \<in> T. ready cfg ?k3 u \<longrightarrow> prio ?k3 u \<le> prio ?k3 (pxCurrentTCB k')"
      using switch_keeps [OF s(1) t s(2)] by blast
    have same: "sleeping k' u = sleeping ?k3 u" "ready cfg k' u = ready cfg ?k3 u" "pending cfg k' u = pending cfg ?k3 u" for u
      using kept_view [OF k'(3), of u] k'(4,5) by (simp_all add: fun_eq_iff pending_def)
    have "resumed cfg T k k'" using res k'(2,3) same by (simp add: resumed_def kept_def)
    moreover have "prio ?k3 = prio k" using res by (simp add: resumed_def prio_def fun_eq_iff)
    ultimately show ?thesis using run True k'(1,7,8) same by auto
  next
    case False
    then have "xTaskResumeAll cfg k = returns (False, ?k3)" using run by auto
    then show ?thesis using res r(5) by auto
  qed
qed

end
