(* ===== verification/Sched_Delay.thy ===== *)
theory Sched_Delay
  imports Sched_Resume
begin

text \<open>
  The delay of the running task: it is put in the list of delayed tasks of this or of the next round of the tick counter, by the time at which it is due, and another task
  runs. Together with the tick, a task that asks for a delay of a number of ticks is ready after exactly that number of ticks.
\<close>

section \<open>The running task is delayed\<close>

lemma base_set_value:
  assumes "sched_base cfg T X L k" and "t \<in> T" and "t \<in> X"
  shows "\<exists>m. with_lists (listSET_LIST_ITEM_VALUE (xStateListItem t) v) k = Some (k\<lparr>task_lists := m\<rparr>) \<and> sched_base cfg T X L (k\<lparr>task_lists := m\<rparr>) \<and>
    item_value m = (item_value (task_lists k))(xStateListItem t := v) \<and> owner m = owner (task_lists k) \<and> container m = container (task_lists k) \<and>
    (\<forall>a. list_items m a = None \<longleftrightarrow> list_items (task_lists k) a = None)"
proof -
  note b = baseD [OF assms(1)]
  let ?i = "xStateListItem t"
  note out = not_listed [OF b(1) assms(2,3)]
  obtain m where m: "listSET_LIST_ITEM_VALUE ?i v (task_lists k) = Some m" "list_family L m" "item_value m = (item_value (task_lists k))(?i := v)"
      "owner m = owner (task_lists k)" "container m = container (task_lists k)" "\<forall>a. list_items m a = None \<longleftrightarrow> list_items (task_lists k) a = None"
    using family_set_value [OF arrangedD(2) [OF b(1)] out(2), of v] out(1) by (fastforce simp: unlisted_def)
  have ord: "ordered L m l" if l: "ordered L (task_lists k) l" "l \<in> state_lists cfg" for l
  proof -
    obtain xs where "L l = Some xs" using arrangedD(3) [OF b(1)] state_lists_kernel [OF l(2)] by blast
    then have "L l = Some xs" "?i \<notin> set xs" using out(1) by (auto simp: unlisted_def)
    then show ?thesis using l(1) m(3) by (simp add: ordered_def map_fun_upd)
  qed
  have "task_ok cfg T L (k\<lparr>task_lists := m\<rparr>) u" if "task_ok cfg T L k u" for u
    using that m(4-6) by (simp add: task_ok_def placed_def)
  then have "arranged cfg T X L (k\<lparr>task_lists := m\<rparr>)" using b(1) m(2,5) by (auto simp: arranged_def)
  moreover have "state_of k t \<noteq> pxOverflowDelayedTaskList k"
    using arrangedD(7) [OF b(1) assms(2,3)] kernel_list_nonzero [OF b(1) state_lists_kernel [OF delayed_in_state_lists(2) [OF b(1)]]] by simp
  ultimately have "sched_base cfg T X L (k\<lparr>task_lists := m\<rparr>)"
    using b(2-7) ord delayed_in_state_lists [OF b(1)] m(3,5) by (auto simp: sched_base_def ready_def)
  then show ?thesis using m by (auto simp: with_lists_def)
qed

lemma base_insert_timed:
  assumes "sched_base cfg T X L k" and "t \<in> T" and "t \<in> X" and "l = pxDelayedTaskList k \<or> l = pxOverflowDelayedTaskList k \<and> wake_time k t < xTickCount k"
  shows "\<exists>m L'. vListInsert l (xStateListItem t) (task_lists k) = returns m \<and> sched_base cfg T (X - {t}) L' (k\<lparr>task_lists := m\<rparr>) \<and>
    same_items (task_lists k) m \<and> container m = (container (task_lists k))(xStateListItem t := l) \<and> (\<forall>j. j \<notin> state_lists cfg \<longrightarrow> L' j = L j)"
proof -
  note b = baseD [OF assms(1)]
  have l: "l \<in> state_lists cfg" using assms(4) delayed_in_state_lists [OF b(1)] by auto
  obtain xs where L: "L l = Some xs" using arrangedD(3) [OF b(1)] state_lists_kernel [OF l] by blast
  have "home cfg k t l" using assms(4) arrangedD(5) [OF b(1)] by (auto simp: home_def)
  then obtain m where m: "vListInsert l (xStateListItem t) (task_lists k) = returns m"
      "arranged cfg T (X - {t}) (L(l \<mapsto> place (task_lists k) (xStateListItem t) xs)) (k\<lparr>task_lists := m\<rparr>)" "same_items (task_lists k) m"
      "container m = (container (task_lists k))(xStateListItem t := l)"
    using insert_state_sorted [OF b(1) assms(2,3) _ L] by blast
  have val: "item_value m = item_value (task_lists k)" using m(3) by (simp add: same_items_def)
  have ord: "ordered (L(l \<mapsto> place (task_lists k) (xStateListItem t) xs)) m j" if "ordered L (task_lists k) j" for j
    using that place_sorted L val ordered_other [OF that _ m(3)] by (cases "j = l") (auto simp: ordered_def)
  have "prio k u \<le> uxTopReadyPriority k" if "u \<in> T" "ready cfg (k\<lparr>task_lists := m\<rparr>) u" for u
  proof -
    have "l \<noteq> ready_list cfg (prio k u)" using assms(4) ready_not_delayed(1,2) [OF b(1) b(9) [OF that(1)]] by metis
    then show ?thesis using that b(4) [OF that(1)] m(4) by (auto simp: ready_def split: if_splits)
  qed
  then have "sched_base cfg T (X - {t}) (L(l \<mapsto> place (task_lists k) (xStateListItem t) xs)) (k\<lparr>task_lists := m\<rparr>)"
    using b(2,3,5) m(2,4) val ord [OF b(6)] ord [OF b(7)] assms(4) delayed_in_state_lists(3) [OF b(1)] by (auto simp: sched_base_def)
  then show ?thesis using m(1,3,4) l by (metis fun_upd_other)
qed

lemma delay_current_lists:
  assumes "sched_base cfg T {} L k" and "in_time T k" and "0 < d" and "\<not> (INCLUDE_vTaskSuspend cfg \<and> d = portMAX_DELAY \<and> forever)"
  defines "c \<equiv> pxCurrentTCB k"
  shows "\<exists>k' L'. prvAddCurrentTaskToDelayedList cfg d forever k = returns k' \<and> sched_base cfg T {} L' k' \<and> in_time T k' \<and>
    (\<forall>l. l \<notin> state_lists cfg \<longrightarrow> L' l = L l) \<and> (\<forall>i. i \<noteq> xStateListItem c \<longrightarrow> item_value (task_lists k') i = item_value (task_lists k) i) \<and>
    pxCurrentTCB k' = c \<and> tcbs k' = tcbs k \<and>
    xTickCount k' = xTickCount k \<and> uxSchedulerSuspended k' = uxSchedulerSuspended k \<and> xPendedTicks k' = xPendedTicks k \<and>
    uxCurrentNumberOfTasks k' = uxCurrentNumberOfTasks k \<and> xSchedulerRunning k' = xSchedulerRunning k \<and>
    sleeping k' c = Some (unat d) \<and> \<not> ready cfg k' c \<and> (\<forall>t \<in> T. event_of k' t = event_of k t) \<and>
    (\<forall>t \<in> T - {c}. sleeping k' t = sleeping k t \<and> ready cfg k' t = ready cfg k t)"
proof -
  note L = assms(1,2)
  note b = baseD [OF L(1)]
  have c: "c \<in> T" using b(2) by (simp add: c_def)
  let ?i = "xStateListItem c" and ?w = "xTickCount k + d"
  obtain m1 L1 where m1: "remove_item ?i k = Some (k\<lparr>task_lists := m1\<rparr>)" "sched_base cfg T {c} L1 (k\<lparr>task_lists := m1\<rparr>)"
      "same_items (task_lists k) m1" "container m1 = (container (task_lists k))(?i := 0)" "\<And>l. l \<notin> state_lists cfg \<Longrightarrow> L1 l = L l"
    using base_remove_state [OF L(1) c] by auto
  obtain m2 where m2: "with_lists (listSET_LIST_ITEM_VALUE ?i ?w) (k\<lparr>task_lists := m1\<rparr>) = Some (k\<lparr>task_lists := m2\<rparr>)"
      "sched_base cfg T {c} L1 (k\<lparr>task_lists := m2\<rparr>)" "item_value m2 = (item_value m1)(?i := ?w)" "container m2 = container m1"
    using base_set_value [OF m1(2) c, of ?w] by auto
  define l where "l = (if ?w < xTickCount k then pxOverflowDelayedTaskList k else pxDelayedTaskList k)"
  have "l = pxDelayedTaskList k \<or> l = pxOverflowDelayedTaskList k \<and> item_value m2 ?i < xTickCount k" using m2(3) by (simp add: l_def)
  then obtain m3 L3 where m3: "vListInsert l ?i m2 = returns m3" "sched_base cfg T {} L3 (k\<lparr>task_lists := m3\<rparr>)" "same_items m2 m3"
      "container m3 = (container m2)(?i := l)" "\<And>l. l \<notin> state_lists cfg \<Longrightarrow> L3 l = L1 l"
    using base_insert_timed [OF m2(2) c, of l] by auto
  define n where "n = (if ?w < xTickCount k then xNextTaskUnblockTime k else min ?w (xNextTaskUnblockTime k))"
  let ?k = "k\<lparr>task_lists := m3, xNextTaskUnblockTime := n\<rparr>"
  have "prvAddCurrentTaskToDelayedList cfg d forever k = returns ?k"
    using assms(4) m1(1) m2(1) m3(1) by (auto simp: prvAddCurrentTaskToDelayedList_def Let_def c_def [symmetric] l_def n_def min_def split: if_splits)
  moreover have st: "container m3 (xStateListItem u) = (if u = c then l else state_of k u)" "item_value m3 (xStateListItem u) = (if u = c then ?w else wake_time k u)" for u
    using m1(3,4) m2(3,4) m3(3,4) by (auto simp: same_items_def)
  moreover have "event_of ?k u = event_of k u" if "u \<in> T" for u
    using m1(4) m2(4) m3(4) b(14) [OF c that] by simp
  moreover have "in_time T ?k"
  proof -
    have "xTickCount k < ?w" if "\<not> ?w < xTickCount k" using that assms(3) by (metis add_left_cancel add.right_neutral le_less not_le order_less_irrefl word_gt_0)
    then show ?thesis using L(2) st delayed_in_state_lists(3) [OF b(1)]
      by (auto simp: in_time_def l_def n_def min_def split: if_splits)
  qed
  moreover have "l \<noteq> ready_list cfg (prio k c)" using ready_not_delayed(1,2) [OF b(1) b(9) [OF c]] by (metis l_def)
  moreover have "sched_base cfg T {} L3 ?k" using m3(2) by simp
  moreover have "delayed ?k c" using st(1) [of c] by (auto simp: delayed_def l_def)
  moreover have "L3 j = L j" if "j \<notin> state_lists cfg" for j using m3(5) m1(5) that by simp
  moreover have "item_value m3 j = item_value (task_lists k) j" if "j \<noteq> ?i" for j using m1(3) m2(3) m3(3) that by (simp add: same_items_def)
  ultimately show ?thesis
    by (intro exI [of _ ?k] exI [of _ L3]) (auto simp: c_def sleeping_def delayed_def ready_def)
qed

lemma delay_current:
  assumes "sched_inv cfg T k" and "0 < d" and "\<not> (INCLUDE_vTaskSuspend cfg \<and> d = portMAX_DELAY \<and> forever)"
  defines "c \<equiv> pxCurrentTCB k"
  shows "\<exists>k'. prvAddCurrentTaskToDelayedList cfg d forever k = returns k' \<and> sched_inv cfg T k' \<and> pxCurrentTCB k' = c \<and> tcbs k' = tcbs k \<and>
    xTickCount k' = xTickCount k \<and> uxSchedulerSuspended k' = uxSchedulerSuspended k \<and> xPendedTicks k' = xPendedTicks k \<and>
    uxCurrentNumberOfTasks k' = uxCurrentNumberOfTasks k \<and> xSchedulerRunning k' = xSchedulerRunning k \<and>
    sleeping k' c = Some (unat d) \<and> \<not> ready cfg k' c \<and> (\<forall>t \<in> T. event_of k' t = event_of k t) \<and>
    (\<forall>t \<in> T - {c}. sleeping k' t = sleeping k t \<and> ready cfg k' t = ready cfg k t)"
proof -
  obtain L where "sched_base cfg T {} L k" "in_time T k" using assms(1) by (auto simp: sched_inv_def)
  from delay_current_lists [OF this assms(2,3)] show ?thesis unfolding sched_inv_def c_def by blast
qed

section \<open>Delays\<close>

text \<open>A task runs and the scheduler is not suspended; then no tick is held back and no task waits to be made ready.\<close>

definition running :: "sched_config \<Rightarrow> u32 set \<Rightarrow> kernel \<Rightarrow> bool" where
  "running cfg T k \<longleftrightarrow> sched_inv cfg T k \<and> uxSchedulerSuspended k = 0 \<and> xPendedTicks k = 0 \<and> uxCurrentNumberOfTasks k > 0 \<and> (\<forall>t \<in> T. \<not> pending cfg k t)"

text \<open>The task that runs is ready, and no ready task has a higher priority.\<close>

definition runs_highest :: "sched_config \<Rightarrow> u32 set \<Rightarrow> kernel \<Rightarrow> bool" where
  "runs_highest cfg T k \<longleftrightarrow> pxCurrentTCB k \<in> T \<and> ready cfg k (pxCurrentTCB k) \<and> (\<forall>t \<in> T. ready cfg k t \<longrightarrow> prio k t \<le> prio k (pxCurrentTCB k))"

definition same_view :: "sched_config \<Rightarrow> u32 set \<Rightarrow> kernel \<Rightarrow> kernel \<Rightarrow> bool" where
  "same_view cfg T k k' \<longleftrightarrow> xTickCount k' = xTickCount k \<and> tcbs k' = tcbs k \<and> (\<forall>t \<in> T. sleeping k' t = sleeping k t \<and> ready cfg k' t = ready cfg k t)"

lemma slept_0: "sched_inv cfg T k \<Longrightarrow> t \<in> T \<Longrightarrow> slept 0 (sleeping k t) = sleeping k t"
  using sleeping_pos by (fastforce simp: slept_def split: option.splits)

lemma yield_runs:
  assumes "running cfg T k" and "t \<in> T" and "ready cfg k t"
  shows "\<exists>k'. vTaskSwitchContext cfg k = Some k' \<and> running cfg T k' \<and> same_view cfg T k k' \<and> runs_highest cfg T k'"
proof -
  obtain k' where k': "vTaskSwitchContext cfg k = Some k'" "sched_inv cfg T k'" "kept k k'" "state_of k' = state_of k" "event_of k' = event_of k"
      "pxCurrentTCB k' \<in> T" "ready cfg k (pxCurrentTCB k')" "\<forall>u \<in> T. ready cfg k u \<longrightarrow> prio k u \<le> prio k (pxCurrentTCB k')"
    using switch_keeps [of cfg T k t] assms by (auto simp: running_def)
  have same: "sleeping k' u = sleeping k u" "ready cfg k' u = ready cfg k u" "pending cfg k' u = pending cfg k u" for u
    using kept_view [OF k'(3), of u] k'(4,5) by (simp_all add: fun_eq_iff pending_def)
  show ?thesis
    using k' same assms(1) kept_prio [OF k'(3)] by (auto simp: running_def same_view_def runs_highest_def kept_def)
qed

text \<open>Resuming the scheduler with nothing held back, and giving up the processor if that has not happened.\<close>

lemma resume_and_yield:
  assumes "sched_inv cfg T k" and "uxSchedulerSuspended k = 1" and "uxCurrentNumberOfTasks k > 0" and "xPendedTicks k = 0"
    and "\<And>t. t \<in> T \<Longrightarrow> \<not> pending cfg k t" and "t \<in> T" and "ready cfg k t"
  shows "\<exists>r k'. xTaskResumeAll cfg k = returns r \<and> taskYIELD_WITHIN_API cfg r = Some k' \<and> running cfg T k' \<and> same_view cfg T k k' \<and> runs_highest cfg T k'"
proof -
  obtain y k1 where k1: "xTaskResumeAll cfg k = returns (y, k1)" "resumed cfg T k k1"
      "if y then ready cfg k1 (pxCurrentTCB k1) \<and> (\<forall>t \<in> T. ready cfg k1 t \<longrightarrow> prio k t \<le> prio k (pxCurrentTCB k1)) else pxCurrentTCB k1 = pxCurrentTCB k"
    using resume_all_runs [OF assms(1-3)] assms(6,7) by blast
  have sv: "same_view cfg T k k1"
    using k1(2) assms(4,5) slept_0 [OF assms(1)] sleeping_pos [OF assms(1)] by (auto simp: same_view_def resumed_def)
  have run: "running cfg T k1" using k1(2) assms(3) by (simp add: running_def resumed_def)
  have cur: "pxCurrentTCB k1 \<in> T" using run baseD(2) by (auto simp: running_def sched_inv_def)
  show ?thesis
  proof (cases y)
    case True
    have "prio k1 = prio k" using sv by (simp add: same_view_def prio_def fun_eq_iff)
    then show ?thesis using True k1(1,3) sv run cur by (auto simp: taskYIELD_WITHIN_API_def runs_highest_def)
  next
    case False
    obtain k' where "vTaskSwitchContext cfg k1 = Some k'" "running cfg T k'" "same_view cfg T k1 k'" "runs_highest cfg T k'"
      using yield_runs [OF run assms(6)] assms(6,7) sv by (auto simp: same_view_def)
    then show ?thesis using False k1(1) sv by (auto simp: taskYIELD_WITHIN_API_def same_view_def)
  qed
qed

text \<open>The running task sleeps, and everything else is as it was.\<close>

definition put_to_sleep :: "sched_config \<Rightarrow> u32 set \<Rightarrow> nat \<Rightarrow> kernel \<Rightarrow> kernel \<Rightarrow> bool" where
  "put_to_sleep cfg T d k k' \<longleftrightarrow> xTickCount k' = xTickCount k \<and> tcbs k' = tcbs k \<and>
     sleeping k' (pxCurrentTCB k) = Some d \<and> \<not> ready cfg k' (pxCurrentTCB k) \<and>
     (\<forall>t \<in> T - {pxCurrentTCB k}. sleeping k' t = sleeping k t \<and> ready cfg k' t = ready cfg k t)"

lemma delay_and_resume:
  assumes "running cfg T k" and "0 < d" and "t \<in> T" and "t \<noteq> pxCurrentTCB k" and "ready cfg k t"
  shows "\<exists>k1 r k'. prvAddCurrentTaskToDelayedList cfg d False (vTaskSuspendAll k) = returns k1 \<and> xTaskResumeAll cfg k1 = returns r \<and>
    taskYIELD_WITHIN_API cfg r = Some k' \<and> running cfg T k' \<and> put_to_sleep cfg T (unat d) k k' \<and> runs_highest cfg T k'"
proof -
  have s: "vTaskSuspendAll k = k\<lparr>uxSchedulerSuspended := 1\<rparr>" using assms(1) by (simp add: vTaskSuspendAll_def running_def)
  have inv: "sched_inv cfg T (k\<lparr>uxSchedulerSuspended := 1\<rparr>)" using assms(1) by (simp add: running_def)
  obtain k1 where k1: "prvAddCurrentTaskToDelayedList cfg d False (k\<lparr>uxSchedulerSuspended := 1\<rparr>) = returns k1" "sched_inv cfg T k1" "tcbs k1 = tcbs k"
      "xTickCount k1 = xTickCount k" "uxSchedulerSuspended k1 = 1" "xPendedTicks k1 = xPendedTicks k" "uxCurrentNumberOfTasks k1 = uxCurrentNumberOfTasks k"
      "sleeping k1 (pxCurrentTCB k) = Some (unat d)" "\<not> ready cfg k1 (pxCurrentTCB k)" "\<forall>t \<in> T. event_of k1 t = event_of k t"
      "\<forall>t \<in> T - {pxCurrentTCB k}. sleeping k1 t = sleeping k t \<and> ready cfg k1 t = ready cfg k t"
    using delay_current [OF inv assms(2), of False] by auto
  have cur: "pxCurrentTCB k \<in> T" using assms(1) baseD(2) by (auto simp: running_def sched_inv_def)
  obtain r k' where k': "xTaskResumeAll cfg k1 = returns r" "taskYIELD_WITHIN_API cfg r = Some k'" "running cfg T k'" "same_view cfg T k1 k'" "runs_highest cfg T k'"
    using resume_and_yield [OF k1(2,5) _ _ _ assms(3)] k1(6,7,10,11) assms by (auto simp: running_def pending_def)
  have "put_to_sleep cfg T (unat d) k k'" using k1(3,4,8,9,11) k'(4) cur by (auto simp: put_to_sleep_def same_view_def)
  then show ?thesis using k1(1) k'(1-3,5) unfolding s by blast
qed

lemma delay_runs:
  assumes "running cfg T k" and "0 < d" and "t \<in> T" and "t \<noteq> pxCurrentTCB k" and "ready cfg k t"
  shows "\<exists>k'. vTaskDelay cfg d k = returns k' \<and> running cfg T k' \<and> put_to_sleep cfg T (unat d) k k' \<and> runs_highest cfg T k'"
proof -
  obtain k1 r k' where k': "prvAddCurrentTaskToDelayedList cfg d False (vTaskSuspendAll k) = returns k1" "xTaskResumeAll cfg k1 = returns r"
      "taskYIELD_WITHIN_API cfg r = Some k'" "running cfg T k'" "put_to_sleep cfg T (unat d) k k'" "runs_highest cfg T k'"
    using delay_and_resume [OF assms] by blast
  have "uxSchedulerSuspended (vTaskSuspendAll k) = 1" using assms(1) by (simp add: vTaskSuspendAll_def running_def)
  then have "vTaskDelay cfg d k = returns k'" using k'(1-3) assms(2) by (simp add: vTaskDelay_def Let_def)
  then show ?thesis using k'(4-6) by blast
qed

text \<open>The test of \<^verbatim>\<open>xTaskDelayUntil\<close> compares three counters that may have wrapped; it asks whether the period has not passed yet.\<close>

lemma should_delay_iff: "should_delay previous (previous + inc) now \<longleftrightarrow> unat (now - previous) < unat inc"
proof -
  have bounds: "unat previous < 4294967296" "unat inc < 4294967296" "unat now < 4294967296"
    using unsigned_less [of previous] unsigned_less [of inc] unsigned_less [of now] by simp_all
  show ?thesis
    unfolding should_delay_def word_less_nat_alt unat_sub_if' unat_plus_if'
    by (auto simp: not_less) (use bounds in linarith)+
qed

lemma delay_until_runs:
  fixes previous :: u32
  assumes "running cfg T k" and "0 < inc" and "t \<in> T" and "t \<noteq> pxCurrentTCB k" and "ready cfg k t"
  defines "elapsed \<equiv> xTickCount k - previous"
  shows "\<exists>k'. xTaskDelayUntil cfg previous inc k = returns ((elapsed < inc, previous + inc), k') \<and> running cfg T k' \<and> runs_highest cfg T k' \<and>
    (if elapsed < inc then put_to_sleep cfg T (unat inc - unat elapsed) k k' else same_view cfg T k k')"
proof -
  let ?k = "vTaskSuspendAll k"
  have s: "?k = k\<lparr>uxSchedulerSuspended := 1\<rparr>" using assms(1) by (simp add: vTaskSuspendAll_def running_def)
  have should: "should_delay previous (previous + inc) (xTickCount k) \<longleftrightarrow> elapsed < inc" by (simp add: should_delay_iff elapsed_def word_less_nat_alt)
  have ticks: "previous + inc - xTickCount k = inc - elapsed" by (simp add: elapsed_def)
  show ?thesis
  proof (cases "elapsed < inc")
    case True
    have "0 < inc - elapsed" "unat (inc - elapsed) = unat inc - unat elapsed"
      using True by (auto simp: word_gt_0 unat_sub less_imp_le)
    then obtain k1 r k' where k': "prvAddCurrentTaskToDelayedList cfg (inc - elapsed) False ?k = returns k1" "xTaskResumeAll cfg k1 = returns r"
        "taskYIELD_WITHIN_API cfg r = Some k'" "running cfg T k'" "put_to_sleep cfg T (unat inc - unat elapsed) k k'" "runs_highest cfg T k'"
      using delay_and_resume [OF assms(1) _ assms(3-5), of "inc - elapsed"] by metis
    have "prvAddCurrentTaskToDelayedList cfg (previous + inc - xTickCount k) False ?k = returns k1" using k'(1) by (simp only: ticks)
    then show ?thesis using True assms(2) should s k'(2-) by (simp add: xTaskDelayUntil_def Let_def)
  next
    case False
    obtain r k' where k': "xTaskResumeAll cfg ?k = returns r" "taskYIELD_WITHIN_API cfg r = Some k'" "running cfg T k'" "same_view cfg T ?k k'" "runs_highest cfg T k'"
      using resume_and_yield [of cfg T ?k t] assms(1,3,5) s by (auto simp: running_def)
    then show ?thesis using False assms(2) should s by (simp add: xTaskDelayUntil_def Let_def same_view_def)
  qed
qed

end
