(* ===== verification/Sched_Events.thy ===== *)
theory Sched_Events
  imports Sched_Delay
begin

text \<open>
  Waiting for events: the running task enters the list of an event, ordered by priority, and is delayed; the event wakes the first task of the list, at
  once or, while the scheduler is suspended, when it is resumed. That this is the task of the highest priority needs the order of the list (\<open>by_priority\<close>), which joining and
  waking keep. Queues, semaphores and mutexes block on these lists.
\<close>

section \<open>Lists of events\<close>

abbreviation event_value :: "kernel \<Rightarrow> u32 \<Rightarrow> u32" where
  "event_value k t \<equiv> item_value (task_lists k) (xEventListItem t)"

text \<open>The tasks that wait in the list of an event, in its order, which the code searches only when a task joins.\<close>

definition event_list :: "sched_config \<Rightarrow> u32 set \<Rightarrow> (u32 \<rightharpoonup> u32 list) \<Rightarrow> u32 \<Rightarrow> u32 list \<Rightarrow> bool" where
  "event_list cfg T L e ts \<longleftrightarrow> e \<notin> kernel_lists cfg \<and> set ts \<subseteq> T \<and> L e = Some (map xEventListItem ts)"

text \<open>The waiters are in the order of their priorities: the values of their items are in order and are those of their priorities. The
  value of an item is set with the priority, also while the task waits, but the list is not ordered again.\<close>

definition by_priority :: "sched_config \<Rightarrow> kernel \<Rightarrow> u32 list \<Rightarrow> bool" where
  "by_priority cfg k ts \<longleftrightarrow> sorted (map (event_value k) ts) \<and> (\<forall>t \<in> set ts. event_value k t = configMAX_PRIORITIES cfg - prio k t)"

text \<open>A change that leaves the lists for states alone keeps what the invariant says of them.\<close>

lemma base_same_states:
  assumes "sched_base cfg T X L k" and "arranged cfg T X L' (k\<lparr>task_lists := m\<rparr>)" and "\<And>l. l \<in> state_lists cfg \<Longrightarrow> L' l = L l"
    and "\<And>u. u \<in> T \<Longrightarrow> item_value m (xStateListItem u) = wake_time k u" and "\<And>u. u \<in> T \<Longrightarrow> container m (xStateListItem u) = state_of k u"
  shows "sched_base cfg T X L' (k\<lparr>task_lists := m\<rparr>)"
proof -
  note b = baseD [OF assms(1)]
  have "ordered L' m l" if l: "ordered L (task_lists k) l" "l \<in> state_lists cfg" for l
  proof -
    obtain xs where xs: "L l = Some xs" using arrangedD(3) [OF b(1)] state_lists_kernel [OF l(2)] by blast
    have "item_value m x = item_value (task_lists k) x" if "x \<in> set xs" for x
      using state_list_items [OF b(1) l(2) xs that] assms(4) by auto
    then have "map (item_value m) xs = map (item_value (task_lists k)) xs" by simp
    then show ?thesis using l xs assms(3) unfolding ordered_def by (metis option.sel)
  qed
  then show ?thesis using b(2-7) assms(2,4,5) delayed_in_state_lists [OF b(1)] by (auto simp: sched_base_def ready_def)
qed

lemma event_unlisted:
  assumes "sched_base cfg T X L k" and "t \<in> T" and "event_of k t = 0"
  shows "unlisted L (xEventListItem t)" and "list_items (task_lists k) (xEventListItem t) \<noteq> None"
  using arrangedD(6) [OF baseD(1) [OF assms(1)] assms(2)] assms(3) by (auto simp: task_ok_def placed_def)

lemma base_arrive_event:
  assumes "sched_base cfg T X L k" and "t \<in> T" and "e \<notin> state_lists cfg" and "L e = Some (us @ vs)"
    and "list_family (L(e \<mapsto> us @ xEventListItem t # vs)) m" and "same_items (task_lists k) m"
    and "container m = (container (task_lists k))(xEventListItem t := e)"
  shows "sched_base cfg T X (L(e \<mapsto> us @ xEventListItem t # vs)) (k\<lparr>task_lists := m\<rparr>)"
proof (rule base_same_states [OF assms(1) arrive_event [OF baseD(1) [OF assms(1)] assms(2-7)]])
  show "(L(e \<mapsto> us @ xEventListItem t # vs)) l = L l" if "l \<in> state_lists cfg" for l using that assms(3) by auto
  show "item_value m (xStateListItem u) = wake_time k u" if "u \<in> T" for u using assms(6) by (simp add: same_items_def)
  show "container m (xStateListItem u) = state_of k u" if "u \<in> T" for u using assms(7) baseD(14) [OF assms(1) that assms(2)] by simp
qed

lemma base_insert_event:
  assumes "sched_base cfg T X L k" and "t \<in> T" and "event_of k t = 0" and "e \<notin> state_lists cfg" and "L e = Some xs"
  shows "\<exists>m. vListInsert e (xEventListItem t) (task_lists k) = returns m \<and>
      sched_base cfg T X (L(e \<mapsto> place (task_lists k) (xEventListItem t) xs)) (k\<lparr>task_lists := m\<rparr>) \<and>
      same_items (task_lists k) m \<and> container m = (container (task_lists k))(xEventListItem t := e)"
    and "\<exists>m us vs. xs = us @ vs \<and> vListInsertEnd e (xEventListItem t) (task_lists k) = Some m \<and>
      sched_base cfg T X (L(e \<mapsto> us @ xEventListItem t # vs)) (k\<lparr>task_lists := m\<rparr>) \<and>
      same_items (task_lists k) m \<and> container m = (container (task_lists k))(xEventListItem t := e)"
proof -
  note f = arrangedD(2) [OF baseD(1) [OF assms(1)]]
  note u = event_unlisted [OF assms(1-3)]
  let ?P = "\<lambda>x. item_value (task_lists k) x \<le> event_value k t"
  obtain m where m: "vListInsert e (xEventListItem t) (task_lists k) = returns m"
      "list_family (L(e \<mapsto> place (task_lists k) (xEventListItem t) xs)) m" "same_items (task_lists k) m"
      "container m = (container (task_lists k))(xEventListItem t := e)"
    using family_insert_sorted [OF f assms(5) u] by blast
  have "L e = Some (takeWhile ?P xs @ dropWhile ?P xs)" using assms(5) by simp
  from base_arrive_event [OF assms(1,2,4) this, of m] m
  show "\<exists>m. vListInsert e (xEventListItem t) (task_lists k) = returns m \<and>
      sched_base cfg T X (L(e \<mapsto> place (task_lists k) (xEventListItem t) xs)) (k\<lparr>task_lists := m\<rparr>) \<and>
      same_items (task_lists k) m \<and> container m = (container (task_lists k))(xEventListItem t := e)"
    unfolding place_def by blast
  obtain m us vs where "xs = us @ vs" "vListInsertEnd e (xEventListItem t) (task_lists k) = Some m"
      "list_family (L(e \<mapsto> us @ xEventListItem t # vs)) m" "same_items (task_lists k) m"
      "container m = (container (task_lists k))(xEventListItem t := e)"
    using family_insert_end [OF f assms(5) u] by blast
  then show "\<exists>m us vs. xs = us @ vs \<and> vListInsertEnd e (xEventListItem t) (task_lists k) = Some m \<and>
      sched_base cfg T X (L(e \<mapsto> us @ xEventListItem t # vs)) (k\<lparr>task_lists := m\<rparr>) \<and>
      same_items (task_lists k) m \<and> container m = (container (task_lists k))(xEventListItem t := e)"
    using base_arrive_event [OF assms(1,2,4), of us vs m] assms(5) by blast
qed

section \<open>The event occurs\<close>

lemma event_members:
  assumes "sched_base cfg T {} L k" and "event_list cfg T L e ts" and "u \<in> T"
  shows "event_of k u = e \<longleftrightarrow> u \<in> set ts"
proof
  note a = baseD(1) [OF assms(1)]
  have L: "L e = Some (map xEventListItem ts)" "set ts \<subseteq> T" using assms(2) by (simp_all add: event_list_def)
  show "event_of k u = e" if "u \<in> set ts" using family_container [OF arrangedD(2) [OF a] L(1), of "xEventListItem u"] that by simp
  assume e: "event_of k u = e"
  have "e \<noteq> 0" using arrangedD(4) [OF a] L(1) by auto
  then have "xEventListItem u \<in> xEventListItem ` set ts" using arrangedD(6) [OF a assms(3)] e L(1) by (auto simp: task_ok_def placed_def)
  then show "u \<in> set ts" by (auto simp: xEventListItem_def)
qed

lemma event_head:
  assumes "sched_base cfg T {} L k" and "event_list cfg T L e (t # ts)"
  shows "t \<in> T" and "event_of k t = e" and "listGET_OWNER_OF_HEAD_ENTRY e (task_lists k) = Some t"
proof -
  note b = baseD [OF assms(1)]
  show t: "t \<in> T" using assms(2) by (simp add: event_list_def)
  show "event_of k t = e" using event_members [OF assms t] by simp
  show "listGET_OWNER_OF_HEAD_ENTRY e (task_lists k) = Some t"
    using family_head(1) [OF arrangedD(2) [OF b(1)], of e "xEventListItem t" "map xEventListItem ts"] assms(2) b(13) [OF t] by (simp add: event_list_def)
qed

lemma highest_first:
  assumes "sched_base cfg T {} L k" and "set (t # ts) \<subseteq> T" and "by_priority cfg k (t # ts)" and "u \<in> set (t # ts)"
  shows "prio k u \<le> prio k t"
proof -
  have "configMAX_PRIORITIES cfg - prio k t \<le> configMAX_PRIORITIES cfg - prio k u" using assms(3,4) by (auto simp: by_priority_def)
  then show ?thesis
    using baseD(9) [OF assms(1), of u] baseD(9) [OF assms(1), of t] assms(2,4)
    by (auto simp: word_le_nat_alt word_less_nat_alt unat_sub_if')
qed

text \<open>The first task of the list is woken: it is ready, or about to be made ready when the scheduler is resumed.\<close>

definition woken_by_event :: "sched_config \<Rightarrow> u32 set \<Rightarrow> u32 \<Rightarrow> u32 \<Rightarrow> kernel \<Rightarrow> kernel \<Rightarrow> bool" where
  "woken_by_event cfg T e t k k' \<longleftrightarrow> in_time T k' \<and> kept k k' \<and> pxCurrentTCB k' = pxCurrentTCB k \<and>
     (xYieldPending k' \<longleftrightarrow> xYieldPending k \<or> prio k (pxCurrentTCB k) < prio k t) \<and>
     (if uxSchedulerSuspended k = 0 then ready cfg k' t \<and> event_of k' t = 0 else pending cfg k' t \<and> state_of k' t = state_of k t) \<and>
     (\<forall>u \<in> T - {t}. state_of k' u = state_of k u \<and> event_of k' u = event_of k u)"

lemma in_time_ready:
  assumes "in_time T k" and "sched_base cfg T X L k" and "t \<in> T" and "same_items (task_lists k) (task_lists k')"
    and "\<And>u. u \<in> T - {t} \<Longrightarrow> state_of k' u = state_of k u" and "state_of k' t = ready_list cfg (prio k t) \<or> state_of k' t = state_of k t"
    and "pxDelayedTaskList k' = pxDelayedTaskList k" and "xTickCount k' = xTickCount k" and "xNextTaskUnblockTime k' = xNextTaskUnblockTime k"
  shows "in_time T k'"
proof -
  have "state_of k u = pxDelayedTaskList k" if "u \<in> T" "state_of k' u = pxDelayedTaskList k" for u
    using that assms(5) [of u] assms(6) ready_not_delayed(1) [OF baseD(1) [OF assms(2)] baseD(9) [OF assms(2,3)]] by (cases "u = t") auto
  then show ?thesis using assms(1,4,7-9) by (auto simp: in_time_def same_items_def)
qed

text \<open>Both ways to wake the task whose event item has just left the list.\<close>

lemma wake_now:
  assumes "sched_base cfg T {} L k" and "in_time T k" and "t \<in> T" and "sched_base cfg T {} L1 (k\<lparr>task_lists := m1\<rparr>)" and "same_items (task_lists k) m1"
    and "container m1 = (container (task_lists k))(xEventListItem t := 0)" and "uxSchedulerSuspended k = 0"
  shows "\<exists>k1 k2 L'. remove_item (xStateListItem t) (k\<lparr>task_lists := m1\<rparr>) = Some k1 \<and> prvAddTaskToReadyList cfg t k1 = Some k2 \<and>
    higher_priority t k2 = Some (prio k (pxCurrentTCB k) < prio k t) \<and> xYieldPending k2 = xYieldPending k \<and>
    sched_base cfg T {} L' k2 \<and> (\<forall>l. l \<notin> state_lists cfg \<longrightarrow> L' l = L1 l) \<and>
    woken_by_event cfg T e t k (k2\<lparr>xYieldPending := xYieldPending k \<or> prio k (pxCurrentTCB k) < prio k t\<rparr>)"
proof -
  note b = baseD [OF assms(1)]
  obtain m2 L2 where m2: "remove_item (xStateListItem t) (k\<lparr>task_lists := m1\<rparr>) = Some (k\<lparr>task_lists := m2\<rparr>)" "sched_base cfg T {t} L2 (k\<lparr>task_lists := m2\<rparr>)"
      "same_items m1 m2" "container m2 = (container m1)(xStateListItem t := 0)" "\<And>l. l \<notin> state_lists cfg \<Longrightarrow> L2 l = L1 l"
    using base_remove_state [OF assms(4,3)] by auto
  let ?k = "\<lambda>m. k\<lparr>task_lists := m, uxTopReadyPriority := max (uxTopReadyPriority k) (prio k t)\<rparr>"
  obtain m L' where m: "prvAddTaskToReadyList cfg t (k\<lparr>task_lists := m2\<rparr>) = Some (?k m)" "sched_base cfg T {} L' (?k m)" "same_items m2 m"
      "container m = (container m2)(xStateListItem t := ready_list cfg (prio k t))" "\<And>l. l \<notin> state_lists cfg \<Longrightarrow> L' l = L2 l"
    using base_ready [OF m2(2) assms(3)] by auto
  let ?y = "xYieldPending k \<or> prio k (pxCurrentTCB k) < prio k t"
  have same: "same_items (task_lists k) m" by (rule same_items_trans [OF same_items_trans [OF assms(5) m2(3)] m(3)])
  have h: "higher_priority t (?k m) = Some (prio k (pxCurrentTCB k) < prio k t)"
    using higher_priority_eq [of "?k m" t] b(2,8) assms(3) by simp
  have st: "container m (xStateListItem u) = (if u = t then ready_list cfg (prio k t) else state_of k u)"
      "container m (xEventListItem u) = (if u = t then 0 else event_of k u)" if "u \<in> T" for u
    using m(4) m2(4) assms(6) b(14) [OF that assms(3)] b(14) [OF assms(3) that] by auto
  have "in_time T ((?k m)\<lparr>xYieldPending := ?y\<rparr>)" by (rule in_time_ready [OF assms(2,1,3)]) (use st assms(3) same in auto)
  then have "woken_by_event cfg T e t k ((?k m)\<lparr>xYieldPending := ?y\<rparr>)"
    using assms(7) st assms(3) same by (auto simp: woken_by_event_def kept_def ready_def)
  then show ?thesis using m2(1,5) m(1,2,5) h by (intro exI [of _ "k\<lparr>task_lists := m2\<rparr>"] exI [of _ "?k m"] exI [of _ L']) simp
qed

lemma wake_later:
  assumes "sched_base cfg T {} L k" and "in_time T k" and "t \<in> T" and "sched_base cfg T {} L1 (k\<lparr>task_lists := m1\<rparr>)" and "same_items (task_lists k) m1"
    and "container m1 = (container (task_lists k))(xEventListItem t := 0)" and "uxSchedulerSuspended k \<noteq> 0"
  shows "\<exists>k2 L'. with_lists (vListInsertEnd (xPendingReadyList cfg) (xEventListItem t)) (k\<lparr>task_lists := m1\<rparr>) = Some k2 \<and>
    higher_priority t k2 = Some (prio k (pxCurrentTCB k) < prio k t) \<and> xYieldPending k2 = xYieldPending k \<and>
    sched_base cfg T {} L' k2 \<and> (\<forall>l. l \<noteq> xPendingReadyList cfg \<longrightarrow> L' l = L1 l) \<and>
    woken_by_event cfg T e t k (k2\<lparr>xYieldPending := xYieldPending k \<or> prio k (pxCurrentTCB k) < prio k t\<rparr>)"
proof -
  note b = baseD [OF assms(1)]
  let ?p = "xPendingReadyList cfg"
  obtain ps where ps: "L1 ?p = Some ps" using arrangedD(3) [OF baseD(1) [OF assms(4)]] kernel_members(3) by blast
  have "?p \<notin> state_lists cfg" "event_of (k\<lparr>task_lists := m1\<rparr>) t = 0" using assms(6) by (simp_all add: state_lists_def)
  then obtain m us' vs' where m: "vListInsertEnd ?p (xEventListItem t) m1 = Some m" "sched_base cfg T {} (L1(?p \<mapsto> us' @ xEventListItem t # vs')) (k\<lparr>task_lists := m\<rparr>)"
      "same_items m1 m" "container m = (container m1)(xEventListItem t := ?p)"
    using base_insert_event(2) [OF assms(4,3) _ _ ps] by auto
  let ?y = "xYieldPending k \<or> prio k (pxCurrentTCB k) < prio k t"
  have same: "same_items (task_lists k) m" by (rule same_items_trans [OF assms(5) m(3)])
  have h: "higher_priority t (k\<lparr>task_lists := m\<rparr>) = Some (prio k (pxCurrentTCB k) < prio k t)"
    using higher_priority_eq [of "k\<lparr>task_lists := m\<rparr>" t] b(2,8) assms(3) by simp
  have st: "container m (xStateListItem u) = state_of k u" "container m (xEventListItem u) = (if u = t then ?p else event_of k u)" if "u \<in> T" for u
    using m(4) assms(6) b(14) [OF that assms(3)] by auto
  have "in_time T (k\<lparr>task_lists := m, xYieldPending := ?y\<rparr>)" by (rule in_time_ready [OF assms(2,1,3)]) (use st assms(3) same in auto)
  then have "woken_by_event cfg T e t k (k\<lparr>task_lists := m, xYieldPending := ?y\<rparr>)"
    using assms(7) st assms(3) same by (auto simp: woken_by_event_def kept_def pending_def)
  then show ?thesis using m(1,2) h
    by (intro exI [of _ "k\<lparr>task_lists := m\<rparr>"] exI [of _ "L1(?p \<mapsto> us' @ xEventListItem t # vs')"]) (simp add: with_lists_def)
qed

lemma remove_from_event_list:
  assumes "sched_base cfg T {} L k" and "in_time T k" and "event_list cfg T L e (t # ts)"
  shows "\<exists>k' L'. xTaskRemoveFromEventList cfg e k = Some (prio k (pxCurrentTCB k) < prio k t, k') \<and>
    sched_base cfg T {} L' k' \<and> event_list cfg T L' e ts \<and> woken_by_event cfg T e t k k'"
proof -
  note b = baseD [OF assms(1)]
  note t = event_head [OF assms(1,3)]
  have L: "L e = Some (xEventListItem t # map xEventListItem ts)" using assms(3) by (simp add: event_list_def)
  have e: "e \<noteq> 0" "e \<notin> state_lists cfg" "e \<noteq> xPendingReadyList cfg"
    using arrangedD(4) [OF b(1)] L assms(3) kernel_members(3) [of cfg] by (auto simp: event_list_def state_lists_def simp del: kernel_members)
  obtain m1 us vs where m1: "remove_item (xEventListItem t) k = Some (k\<lparr>task_lists := m1\<rparr>)" "sched_base cfg T {} (L(e \<mapsto> us @ vs)) (k\<lparr>task_lists := m1\<rparr>)"
      "same_items (task_lists k) m1" "container m1 = (container (task_lists k))(xEventListItem t := 0)" "L e = Some (us @ xEventListItem t # vs)"
    using base_remove_event [OF assms(1) t(1)] t(2) e(1) by auto
  have "distinct (xEventListItem t # map xEventListItem ts)" using family_rep [OF arrangedD(2) [OF b(1)] L] by (simp add: list_rep_def)
  then have rest: "us @ vs = map xEventListItem ts" using m1(5) L by (cases us) (auto simp del: set_map list.set_map)
  let ?h = "prio k (pxCurrentTCB k) < prio k t"
  obtain k2 L' where k2: "(if uxSchedulerSuspended k = 0 then do { k \<leftarrow> remove_item (xStateListItem t) (k\<lparr>task_lists := m1\<rparr>); prvAddTaskToReadyList cfg t k }
        else with_lists (vListInsertEnd (xPendingReadyList cfg) (xEventListItem t)) (k\<lparr>task_lists := m1\<rparr>)) = Some k2"
      "higher_priority t k2 = Some ?h" "xYieldPending k2 = xYieldPending k" "sched_base cfg T {} L' k2" "L' e = Some (us @ vs)"
      "woken_by_event cfg T e t k (k2\<lparr>xYieldPending := xYieldPending k \<or> ?h\<rparr>)"
  proof (cases "uxSchedulerSuspended k = 0")
    case True
    then show ?thesis using that wake_now [OF assms(1,2) t(1) m1(2-4) True, of e] e(2) by auto
  next
    case False
    then show ?thesis using that wake_later [OF assms(1,2) t(1) m1(2-4) False, of e] e(3) by auto
  qed
  have y: "(if ?h then k2\<lparr>xYieldPending := True\<rparr> else k2) = k2\<lparr>xYieldPending := xYieldPending k \<or> ?h\<rparr>" using k2(3) by simp
  have "xTaskRemoveFromEventList cfg e k = Some (?h, k2\<lparr>xYieldPending := xYieldPending k \<or> ?h\<rparr>)"
    using t(3) b(15) [OF t(1)] m1(1) k2(1,2) y by (simp add: xTaskRemoveFromEventList_def config_assert_def)
  moreover have "event_list cfg T L' e ts" using assms(3) k2(5) rest by (simp add: event_list_def)
  moreover have "sched_base cfg T {} L' (k2\<lparr>xYieldPending := xYieldPending k \<or> ?h\<rparr>)" using k2(4) by simp
  ultimately show ?thesis using k2(6) by blast
qed

section \<open>The running task waits\<close>

text \<open>A task that is on its way arrives in the list of suspended tasks.\<close>

lemma base_suspend:
  assumes "sched_base cfg T X L k" and "t \<in> T" and "t \<in> X"
  shows "\<exists>m L'. vListInsertEnd (xSuspendedTaskList cfg) (xStateListItem t) (task_lists k) = Some m \<and> sched_base cfg T (X - {t}) L' (k\<lparr>task_lists := m\<rparr>) \<and>
    same_items (task_lists k) m \<and> container m = (container (task_lists k))(xStateListItem t := xSuspendedTaskList cfg) \<and>
    (\<forall>l. l \<notin> state_lists cfg \<longrightarrow> L' l = L l)"
proof -
  note b = baseD [OF assms(1)]
  let ?l = "xSuspendedTaskList cfg"
  obtain xs where L: "L ?l = Some xs" using arrangedD(3) [OF b(1)] kernel_members(5) by blast
  have "home cfg k t ?l" by (simp add: home_def)
  then obtain us vs m where m: "vListInsertEnd ?l (xStateListItem t) (task_lists k) = Some m"
      "arranged cfg T (X - {t}) (L(?l \<mapsto> us @ xStateListItem t # vs)) (k\<lparr>task_lists := m\<rparr>)" "same_items (task_lists k) m"
      "container m = (container (task_lists k))(xStateListItem t := ?l)"
    using insert_state [OF b(1) assms(2,3) _ L] by blast
  have l: "?l \<noteq> pxDelayedTaskList k" "?l \<noteq> pxOverflowDelayedTaskList k" "?l \<in> state_lists cfg"
    using arrangedD(1,5) [OF b(1)] by (auto simp: sched_config_ok_def state_lists_def)
  have ord: "ordered (L(?l \<mapsto> us @ xStateListItem t # vs)) m j" if "ordered L (task_lists k) j" "j \<noteq> ?l" for j
    by (rule ordered_other [OF that m(3)])
  have "prio k u \<le> uxTopReadyPriority k" if "u \<in> T" "ready cfg (k\<lparr>task_lists := m\<rparr>) u" for u
    using that b(4) [OF that(1)] m(4) ready_not_delayed(4) [OF b(1) b(9) [OF that(1)]] by (auto simp: ready_def split: if_splits)
  moreover have "item_value m = item_value (task_lists k)" using m(3) by (simp add: same_items_def)
  ultimately have "sched_base cfg T (X - {t}) (L(?l \<mapsto> us @ xStateListItem t # vs)) (k\<lparr>task_lists := m\<rparr>)"
    using b(2,3,5) m(2,4) ord [OF b(6)] ord [OF b(7)] l by (auto simp: sched_base_def)
  then show ?thesis using m(1,3,4) l(3) by (metis fun_upd_other)
qed

text \<open>The running task is put aside for a time or without a limit.\<close>

definition put_aside :: "sched_config \<Rightarrow> u32 set \<Rightarrow> u32 \<Rightarrow> kernel \<Rightarrow> kernel \<Rightarrow> bool" where
  "put_aside cfg T n k k' \<longleftrightarrow> in_time T k' \<and> pxCurrentTCB k' = pxCurrentTCB k \<and> tcbs k' = tcbs k \<and> xTickCount k' = xTickCount k \<and>
     uxSchedulerSuspended k' = uxSchedulerSuspended k \<and> \<not> ready cfg k' (pxCurrentTCB k) \<and>
     (if INCLUDE_vTaskSuspend cfg \<and> n = portMAX_DELAY then state_of k' (pxCurrentTCB k) = xSuspendedTaskList cfg
      else sleeping k' (pxCurrentTCB k) = Some (unat n)) \<and>
     (\<forall>t \<in> T - {pxCurrentTCB k}. sleeping k' t = sleeping k t \<and> ready cfg k' t = ready cfg k t)"

lemma block_current:
  assumes "sched_base cfg T {} L k" and "in_time T k" and "0 < n"
  shows "\<exists>k' L'. prvAddCurrentTaskToDelayedList cfg n True k = returns k' \<and> sched_base cfg T {} L' k' \<and> put_aside cfg T n k k' \<and>
    (\<forall>l. l \<notin> state_lists cfg \<longrightarrow> L' l = L l) \<and> (\<forall>t \<in> T. event_of k' t = event_of k t) \<and> (\<forall>t \<in> T. event_value k' t = event_value k t)"
proof (cases "INCLUDE_vTaskSuspend cfg \<and> n = portMAX_DELAY")
  case False
  note b = baseD [OF assms(1)]
  have "xEventListItem t \<noteq> xStateListItem (pxCurrentTCB k)" if "t \<in> T" for t using b(14) [OF b(2) that] by simp
  then show ?thesis using delay_current_lists [OF assms, of True] False unfolding put_aside_def by (auto 0 4)
next
  case True
  note b = baseD [OF assms(1)]
  let ?c = "pxCurrentTCB k"
  obtain m1 L1 where m1: "remove_item (xStateListItem ?c) k = Some (k\<lparr>task_lists := m1\<rparr>)" "sched_base cfg T {?c} L1 (k\<lparr>task_lists := m1\<rparr>)"
      "same_items (task_lists k) m1" "container m1 = (container (task_lists k))(xStateListItem ?c := 0)" "\<And>l. l \<notin> state_lists cfg \<Longrightarrow> L1 l = L l"
    using base_remove_state [OF assms(1) b(2)] by auto
  obtain m L' where m: "vListInsertEnd (xSuspendedTaskList cfg) (xStateListItem ?c) m1 = Some m" "sched_base cfg T {} L' (k\<lparr>task_lists := m\<rparr>)"
      "same_items m1 m" "container m = (container m1)(xStateListItem ?c := xSuspendedTaskList cfg)" "\<And>l. l \<notin> state_lists cfg \<Longrightarrow> L' l = L1 l"
    using base_suspend [OF m1(2) b(2)] by auto
  let ?k = "k\<lparr>task_lists := m\<rparr>"
  have run: "prvAddCurrentTaskToDelayedList cfg n True k = returns ?k"
    using True m1(1) m(1) by (simp add: prvAddCurrentTaskToDelayedList_def Let_def with_lists_def)
  have st: "container m (xStateListItem u) = (if u = ?c then xSuspendedTaskList cfg else state_of k u)" for u using m1(4) m(4) by auto
  have ev: "event_of ?k u = event_of k u" if "u \<in> T" for u using m1(4) m(4) b(14) [OF b(2) that] by auto
  have val: "item_value m = item_value (task_lists k)" using m1(3) m(3) by (simp add: same_items_def)
  have l: "xSuspendedTaskList cfg \<noteq> pxDelayedTaskList k" "xSuspendedTaskList cfg \<noteq> ready_list cfg (prio k ?c)"
    using arrangedD(1,5) [OF b(1)] ready_not_delayed(4) [OF b(1) b(9) [OF b(2)]] by (auto simp: sched_config_ok_def)
  have "in_time T ?k" using assms(2) st val l(1) by (auto simp: in_time_def)
  then have "put_aside cfg T n k ?k" using True st val l by (auto simp: put_aside_def ready_def sleeping_def delayed_def)
  then show ?thesis using run m(2,5) m1(5) ev val by (intro exI [of _ ?k] exI [of _ L']) simp
qed

lemma place_on_event_list:
  assumes "sched_base cfg T {} L k" and "in_time T k" and "event_list cfg T L e ts" and "event_of k (pxCurrentTCB k) = 0" and "0 < n"
  shows "\<exists>k' L' us vs. vTaskPlaceOnEventList cfg e n k = returns k' \<and> sched_base cfg T {} L' k' \<and> ts = us @ vs \<and>
    event_list cfg T L' e (us @ pxCurrentTCB k # vs) \<and> put_aside cfg T n k k' \<and>
    (\<forall>t \<in> T - {pxCurrentTCB k}. event_of k' t = event_of k t) \<and> (\<forall>t \<in> T. event_value k' t = event_value k t) \<and>
    (by_priority cfg k ts \<longrightarrow> event_value k (pxCurrentTCB k) = configMAX_PRIORITIES cfg - prio k (pxCurrentTCB k) \<longrightarrow>
      by_priority cfg k' (us @ pxCurrentTCB k # vs))"
proof -
  note b = baseD [OF assms(1)]
  let ?c = "pxCurrentTCB k" and ?P = "\<lambda>u. event_value k u \<le> event_value k (pxCurrentTCB k)"
  define us vs where "us = takeWhile ?P ts" and "vs = dropWhile ?P ts"
  have ts: "ts = us @ vs" by (simp add: us_def vs_def)
  have L: "L e = Some (map xEventListItem ts)" "e \<notin> kernel_lists cfg" "set ts \<subseteq> T" using assms(3) by (simp_all add: event_list_def)
  have e: "e \<notin> state_lists cfg" using L(2) by (auto simp: state_lists_def)
  let ?xs = "map xEventListItem (us @ ?c # vs)"
  have place: "place (task_lists k) (xEventListItem ?c) (map xEventListItem ts) = ?xs"
    by (simp add: place_def us_def vs_def takeWhile_map dropWhile_map comp_def)
  obtain m where m: "vListInsert e (xEventListItem ?c) (task_lists k) = returns m" "sched_base cfg T {} (L(e \<mapsto> ?xs)) (k\<lparr>task_lists := m\<rparr>)"
      "same_items (task_lists k) m" "container m = (container (task_lists k))(xEventListItem ?c := e)"
    using base_insert_event(1) [OF assms(1) b(2) assms(4) e L(1)] unfolding place by blast
  have val: "item_value m = item_value (task_lists k)" using m(3) by (simp add: same_items_def)
  have st: "container m (xStateListItem u) = state_of k u" if "u \<in> T" for u using m(4) b(14) [OF that b(2)] by simp
  then have "in_time T (k\<lparr>task_lists := m\<rparr>)" using assms(2) val by (simp add: in_time_def)
  then obtain k' L' where k': "prvAddCurrentTaskToDelayedList cfg n True (k\<lparr>task_lists := m\<rparr>) = returns k'" "sched_base cfg T {} L' k'"
      "put_aside cfg T n (k\<lparr>task_lists := m\<rparr>) k'" "\<And>l. l \<notin> state_lists cfg \<Longrightarrow> L' l = (L(e \<mapsto> ?xs)) l"
      "\<And>t. t \<in> T \<Longrightarrow> event_of k' t = container m (xEventListItem t)" "\<And>t. t \<in> T \<Longrightarrow> event_value k' t = item_value m (xEventListItem t)"
    using block_current [OF m(2) _ assms(5)] by auto
  have ev: "event_list cfg T L' e (us @ ?c # vs)" using L(2,3) k'(4) [OF e] b(2) ts by (simp add: event_list_def)
  moreover have "sleeping (k\<lparr>task_lists := m\<rparr>) u = sleeping k u" "ready cfg (k\<lparr>task_lists := m\<rparr>) u = ready cfg k u" if "u \<in> T" for u
    using st [OF that] val by (simp_all add: sleeping_def delayed_def ready_def)
  then have aside: "put_aside cfg T n k k'" using k'(3) by (auto simp: put_aside_def split: if_splits)
  moreover have "vTaskPlaceOnEventList cfg e n k = returns k'" using m(1) k'(1) by (simp add: vTaskPlaceOnEventList_def)
  moreover have "by_priority cfg k' (us @ ?c # vs)" if "by_priority cfg k ts" "event_value k ?c = configMAX_PRIORITIES cfg - prio k ?c"
  proof -
    have same: "event_value k' u = event_value k u" "prio k' u = prio k u" if "u \<in> set (us @ ?c # vs)" for u
      using that ev k'(6) val aside by (auto simp: event_list_def put_aside_def prio_def)
    have "sorted (map (item_value (task_lists k)) (map xEventListItem ts))" using that(1) by (simp add: by_priority_def comp_def)
    from place_sorted [OF this, of "xEventListItem ?c"] have "sorted (map (event_value k) (us @ ?c # vs))" unfolding place by (simp add: comp_def)
    moreover have "map (event_value k') (us @ ?c # vs) = map (event_value k) (us @ ?c # vs)" using same(1) by simp
    moreover have "event_value k u = configMAX_PRIORITIES cfg - prio k u" if "u \<in> set (us @ ?c # vs)" for u
      using that \<open>by_priority cfg k ts\<close> \<open>event_value k ?c = _\<close> ts by (auto simp: by_priority_def)
    ultimately show ?thesis unfolding by_priority_def using same by (metis (no_types, lifting))
  qed
  ultimately show ?thesis using k'(2,5,6) m(4) b(2) val ts by (intro exI [of _ k'] exI [of _ L'] exI [of _ us] exI [of _ vs]) simp
qed

section \<open>A new list of an event\<close>

text \<open>A list that is initialised elsewhere in memory, as a queue does with its two lists, joins the family.\<close>

lemma new_event_list:
  assumes "sched_base cfg T {} L k" and "list_heads (task_lists k) e = None" and "container (task_lists k) (xListEnd e) = 0" and "e \<noteq> 0"
    and "\<And>t. t \<in> T \<Longrightarrow> xStateListItem t \<noteq> xListEnd e \<and> xEventListItem t \<noteq> xListEnd e"
  defines "k' \<equiv> k\<lparr>task_lists := vListInitialise e (task_lists k)\<rparr>"
  shows "sched_base cfg T {} (L(e \<mapsto> [])) k'" and "event_list cfg T (L(e \<mapsto> [])) e []"
proof -
  note b = baseD [OF assms(1)]
  note a = arrangedD [OF b(1)]
  let ?m = "task_lists k" and ?m' = "vListInitialise e (task_lists k)"
  have items: "list_items ?m' i = list_items ?m i" if "i \<noteq> xListEnd e" for i using that by (simp add: vListInitialise_def)
  have none: "L e = None" using family_rep [OF a(2), of e] list_rep_head [of e] assms(2) by (cases "L e") blast+
  have clear: "xListEnd e \<notin> set (xListEnd l # xs)" if "L l = Some xs" for l xs
  proof -
    have "xListEnd e \<notin> set xs" using family_container [OF a(2) that, of "xListEnd e"] assms(3) a(4) that by auto
    then show ?thesis using none that by (auto simp: xListEnd_def)
  qed
  have "list_rep l xs ?m'" if "L l = Some xs" for l xs
  proof -
    have "list_items ?m' i = list_items ?m i" if "i \<in> set (xListEnd l # xs)" for i using items [of i] clear [OF \<open>L l = Some xs\<close>] that by auto
    moreover have "list_heads ?m' l = list_heads ?m l" using none that by (auto simp: vListInitialise_def)
    ultimately show ?thesis using list_rep_cong [of l xs ?m' ?m] family_rep [OF a(2) that] by blast
  qed
  then have fam: "list_family (L(e \<mapsto> [])) ?m'"
    using a(2) clear initialise_rep [of e ?m] unfolding list_family_def by (auto split: if_splits)
  have same: "container ?m' i = container ?m i" "owner ?m' i = owner ?m i" "item_value ?m' i = item_value ?m i" if "i \<noteq> xListEnd e" for i
    using items [OF that] by (simp_all add: container_def owner_def item_value_def)
  have kern: "e \<notin> kernel_lists cfg" using a(3) none by auto
  have pl: "placed (L(e \<mapsto> [])) ?m' i" if "placed L ?m i" "i \<noteq> xListEnd e" for i
  proof (cases "container ?m i = 0")
    case True
    then have "unlisted (L(e \<mapsto> [])) i" using that unfolding placed_def unlisted_def by (auto split: if_splits)
    then show ?thesis using True same(1) [OF that(2)] by (simp add: placed_def)
  next
    case False
    then show ?thesis using that same(1) [OF that(2)] none by (auto simp: placed_def)
  qed
  have "task_ok cfg T (L(e \<mapsto> [])) k' u" if "u \<in> T" for u
    using a(6) [OF that] assms(5) [OF that] items same pl by (auto simp: task_ok_def k'_def)
  moreover have "container ?m' (xStateListItem u) = state_of k u" if "u \<in> T" for u using same assms(5) that by simp
  moreover have "set (the ((L(e \<mapsto> [])) l)) \<subseteq> xStateListItem ` T \<union> xEventListItem ` T" if "l \<in> kernel_lists cfg" for l
    using lists_within [OF b(1), of e "[]" l] that by simp
  ultimately have arr: "arranged cfg T {} (L(e \<mapsto> [])) k'"
    using a(1,3-5,8) fam assms(4) unfolding arranged_def k'_def by auto
  show "sched_base cfg T {} (L(e \<mapsto> [])) k'" unfolding k'_def
    by (rule base_same_states [OF assms(1) arr [unfolded k'_def]]) (use kern same assms(5) in \<open>auto simp: state_lists_def\<close>)
  show "event_list cfg T (L(e \<mapsto> [])) e []" using kern by (simp add: event_list_def)
qed

end
