(* ===== verification/Sched_Start.thy ===== *)
theory Sched_Start
  imports Sched_Delay
begin

text \<open>
  The start of the scheduler: the first task that is created initialises the lists, and every further task joins the ready tasks. Both establish the invariant.
\<close>

section \<open>The lists are initialised\<close>

definition empty_lists :: "u32 set \<Rightarrow> u32 \<rightharpoonup> u32 list" where
  "empty_lists S = (\<lambda>l. if l \<in> S then Some [] else None)"

lemma initialise_items: "a \<noteq> xListEnd l \<Longrightarrow> list_items (vListInitialise l m) a = list_items m a"
  by (simp add: vListInitialise_def)

lemma initialise_heads: "l' \<noteq> l \<Longrightarrow> list_heads (vListInitialise l m) l' = list_heads m l'"
  by (simp add: vListInitialise_def)

lemma initialise_family:
  assumes "list_family (empty_lists S) m"
  shows "list_family (empty_lists (insert l S)) (vListInitialise l m)"
proof -
  have "list_rep k [] (vListInitialise l m)" if "k \<in> insert l S" for k
  proof (cases "k = l")
    case True
    then show ?thesis using initialise_rep by simp
  next
    case False
    then have "list_rep k [] m" using that assms by (simp add: list_family_def empty_lists_def)
    then show ?thesis using list_rep_cong [of k "[]" "vListInitialise l m" m] False initialise_items initialise_heads by simp
  qed
  then show ?thesis by (auto simp: list_family_def empty_lists_def split: if_splits)
qed

lemma initialise_ready_family:
  assumes "list_family (empty_lists S) m"
  shows "list_family (empty_lists (ready_list cfg ` of_nat ` {..<n} \<union> S)) (initialise_ready_lists cfg n m)"
proof (induction n)
  case 0
  then show ?case using assms by simp
next
  case (Suc n)
  then show ?case using initialise_family [of "ready_list cfg ` of_nat ` {..<n} \<union> S"] by (simp add: lessThan_Suc)
qed

lemma initialise_ready_items:
  "(\<And>p. p < n \<Longrightarrow> a \<noteq> xListEnd (ready_list cfg (of_nat p))) \<Longrightarrow> list_items (initialise_ready_lists cfg n m) a = list_items m a"
  by (induction n) (simp_all add: initialise_items)

lemma below_priorities: "of_nat ` {..<unat (n :: u32)} = {p. p < n}"
proof -
  have "p \<in> of_nat ` {..<unat n}" if "p < n" for p :: u32
    using that by (intro image_eqI [of _ _ "unat p"]) (simp_all add: word_less_nat_alt)
  moreover have "of_nat i < n" if "i < unat n" for i
  proof -
    have "unat n < 4294967296" using unsigned_less [of n] by simp
    then have "i < 4294967296" using that by linarith
    then show ?thesis using that by (simp add: word_less_nat_alt unat_of_nat_u32)
  qed
  ultimately show ?thesis by auto
qed

lemma initialise_lists:
  assumes "INCLUDE_vTaskSuspend cfg"
  shows "list_family (empty_lists (kernel_lists cfg)) (task_lists (prvInitialiseTaskLists cfg k))"
    and "(\<And>l. l \<in> kernel_lists cfg \<Longrightarrow> a \<noteq> xListEnd l) \<Longrightarrow> list_items (task_lists (prvInitialiseTaskLists cfg k)) a = list_items (task_lists k) a"
proof -
  let ?r = "initialise_ready_lists cfg (unat (configMAX_PRIORITIES cfg)) (task_lists k)"
  have start: "list_family (empty_lists {}) (task_lists k)" by (simp add: list_family_def empty_lists_def)
  have "list_family (empty_lists (ready_list cfg ` {p. p < configMAX_PRIORITIES cfg})) ?r"
    using initialise_ready_family [OF start, of cfg "unat (configMAX_PRIORITIES cfg)"] by (simp add: below_priorities)
  from initialise_family [OF initialise_family [OF initialise_family [OF initialise_family [OF initialise_family [OF this,
      of "xDelayedTaskList1 cfg"], of "xDelayedTaskList2 cfg"], of "xPendingReadyList cfg"], of "xTasksWaitingTermination cfg"], of "xSuspendedTaskList cfg"]
  show "list_family (empty_lists (kernel_lists cfg)) (task_lists (prvInitialiseTaskLists cfg k))"
    using assms by (simp add: prvInitialiseTaskLists_def Let_def kernel_lists_def Un_commute insert_commute)
  show "list_items (task_lists (prvInitialiseTaskLists cfg k)) a = list_items (task_lists k) a" if "\<And>l. l \<in> kernel_lists cfg \<Longrightarrow> a \<noteq> xListEnd l"
  proof -
    have "list_items ?r a = list_items (task_lists k) a"
      using that ready_in_kernel below_priorities by (intro initialise_ready_items) blast
    then show ?thesis using assms that by (simp add: prvInitialiseTaskLists_def Let_def initialise_items)
  qed
qed

section \<open>A task is created\<close>

text \<open>A new control block: its items are initialised, owned by it and in no list, and it overlaps no other block and no list.\<close>

definition fresh_task :: "sched_config \<Rightarrow> u32 set \<Rightarrow> u32 set \<Rightarrow> kernel \<Rightarrow> u32 \<Rightarrow> bool" where
  "fresh_task cfg T S k t \<longleftrightarrow> t \<noteq> 0 \<and> t \<notin> T \<and> tcbs k t \<noteq> None \<and> prio k t < configMAX_PRIORITIES cfg \<and>
     (\<forall>i \<in> {xStateListItem t, xEventListItem t}. list_items (task_lists k) i \<noteq> None \<and> owner (task_lists k) i = t \<and>
        container (task_lists k) i = 0 \<and> (\<forall>l \<in> S. i \<noteq> xListEnd l)) \<and>
     (\<forall>u \<in> insert t T. xStateListItem t \<noteq> xEventListItem u \<and> xStateListItem u \<noteq> xEventListItem t)"

lemma arranged_new:
  assumes "arranged cfg T {} L k" and "fresh_task cfg T (dom L) k t"
  shows "arranged cfg (insert t T) {t} L k"
proof -
  note a = arrangedD [OF assms(1)]
  have f: "t \<noteq> 0" "t \<notin> T" "tcbs k t \<noteq> None" "prio k t < configMAX_PRIORITIES cfg"
      "\<And>i. i \<in> {xStateListItem t, xEventListItem t} \<Longrightarrow> list_items (task_lists k) i \<noteq> None \<and> owner (task_lists k) i = t \<and> container (task_lists k) i = 0"
      "\<And>i l. i \<in> {xStateListItem t, xEventListItem t} \<Longrightarrow> l \<in> dom L \<Longrightarrow> i \<noteq> xListEnd l"
      "\<And>u. u \<in> insert t T \<Longrightarrow> xStateListItem t \<noteq> xEventListItem u \<and> xStateListItem u \<noteq> xEventListItem t"
    using assms(2) unfolding fresh_task_def by blast+
  have "unlisted L i" if "i \<in> {xStateListItem t, xEventListItem t}" for i
  proof -
    have "i \<notin> set xs" if "L l = Some xs" for l xs
      using family_container [OF a(2) that, of i] f(5) [OF \<open>i \<in> _\<close>] a(4) that by auto
    then show ?thesis using f(6) [OF that] by (auto simp: unlisted_def)
  qed
  then have "placed L (task_lists k) i" if "i \<in> {xStateListItem t, xEventListItem t}" for i using f(5) [OF that] that by (simp add: placed_def)
  then have "task_ok cfg (insert t T) L k t"
    using f kernel_list_nonzero [OF assms(1), of 0] by (auto simp: task_ok_def state_lists_def)
  moreover have "task_ok cfg (insert t T) L k u" if "u \<in> T" for u using a(6) [OF that] f(7) [of u] that by (auto simp: task_ok_def)
  ultimately have ok: "\<forall>u \<in> insert t T. task_ok cfg (insert t T) L k u" by blast
  have "set (the (L l)) \<subseteq> xStateListItem ` insert t T \<union> xEventListItem ` insert t T" if "l \<in> kernel_lists cfg" for l
    using assms(1) that unfolding arranged_def by blast
  moreover have "if u \<in> {t} then container (task_lists k) (xStateListItem u) = 0 else home cfg k u (container (task_lists k) (xStateListItem u))"
    if "u \<in> insert t T" for u using that f(5) a(8) by auto
  ultimately show ?thesis using a(1-5) ok unfolding arranged_def by blast
qed

lemma base_new:
  assumes "sched_base cfg T {} L k" and "fresh_task cfg T (dom L) k t"
  shows "sched_base cfg (insert t T) {t} L k"
proof -
  note b = baseD [OF assms(1)]
  have p: "prio k t < configMAX_PRIORITIES cfg" "state_of k t = 0" using assms(2) by (simp_all add: fresh_task_def)
  have "0 \<noteq> ready_list cfg (prio k t)" "0 \<noteq> pxOverflowDelayedTaskList k"
    using ready_not_delayed(3) [OF b(1) p(1)] kernel_list_nonzero [OF b(1) state_lists_kernel [OF delayed_in_state_lists(2) [OF b(1)]]] by metis+
  then show ?thesis using arranged_new [OF b(1) assms(2)] b(2-7) p(2) by (auto simp: sched_base_def ready_def)
qed

lemma base_current: "sched_base cfg T X L k \<Longrightarrow> t \<in> T \<Longrightarrow> sched_base cfg T X L (k\<lparr>pxCurrentTCB := t\<rparr>)"
  using arranged_cong [of "k\<lparr>pxCurrentTCB := t\<rparr>" k cfg T X L] by (simp add: sched_base_def ready_def)

lemma base_tasks [simp]: "sched_base cfg T X L (k\<lparr>uxCurrentNumberOfTasks := n\<rparr>) = sched_base cfg T X L k"
  by (rule base_cong) simp_all

lemma fresh_anti: "fresh_task cfg T S k t \<Longrightarrow> R \<subseteq> S \<Longrightarrow> fresh_task cfg T R k t"
  unfolding fresh_task_def by blast

lemma initialised_base:
  assumes "sched_config_ok cfg" and "INCLUDE_vTaskSuspend cfg" and "fresh_task cfg {} (kernel_lists cfg) k t" and "uxTopReadyPriority k < configMAX_PRIORITIES cfg"
    and "pxCurrentTCB k = t"
  shows "sched_base cfg {t} {t} (empty_lists (kernel_lists cfg)) (prvInitialiseTaskLists cfg k)"
proof -
  let ?k = "prvInitialiseTaskLists cfg k" and ?L = "empty_lists (kernel_lists cfg)"
  have px: "pxDelayedTaskList ?k = xDelayedTaskList1 cfg" "pxOverflowDelayedTaskList ?k = xDelayedTaskList2 cfg" "tcbs ?k = tcbs k"
      "pxCurrentTCB ?k = t" "uxTopReadyPriority ?k = uxTopReadyPriority k"
    using assms(5) by (simp_all add: prvInitialiseTaskLists_def Let_def)
  have L: "dom ?L = kernel_lists cfg" "l \<in> kernel_lists cfg \<Longrightarrow> ?L l = Some []" for l by (auto simp: empty_lists_def split: if_splits)
  have "arranged cfg {} {} ?L ?k"
    using assms(1) initialise_lists(1) [OF assms(2), of k] L px(1,2) by (auto simp: arranged_def sched_config_ok_def)
  moreover have same: "list_items (task_lists ?k) i = list_items (task_lists k) i" if "i \<in> {xStateListItem t, xEventListItem t}" for i
    using assms(3) that by (intro initialise_lists(2) [OF assms(2)]) (auto simp: fresh_task_def)
  then have "fresh_task cfg {} (dom ?L) ?k t"
    using assms(3) px(3) L(1) by (auto simp: fresh_task_def prio_def container_def owner_def)
  ultimately have a: "arranged cfg {t} {t} ?L ?k" using arranged_new by fastforce
  have "prio ?k t < configMAX_PRIORITIES cfg" "state_of ?k t = 0"
    using arrangedD(6,7) [OF a, of t] by (simp_all add: task_ok_def)
  then have "\<not> ready cfg ?k t" "state_of ?k t \<noteq> pxOverflowDelayedTaskList ?k"
    using ready_not_delayed(3) [OF a] kernel_list_nonzero [OF a kernel_members(2)] px(2) by (auto simp: ready_def)
  then show ?thesis using a px assms(4) L(2) by (simp add: sched_base_def ordered_def)
qed

text \<open>The first task that is created.\<close>

lemma first_task_runs:
  assumes "sched_config_ok cfg" and "INCLUDE_vTaskSuspend cfg" and "fresh_task cfg {} (kernel_lists cfg) k t" and "uxTopReadyPriority k = 0"
    and "pxCurrentTCB k = 0" and "uxCurrentNumberOfTasks k = 0" and "\<not> xSchedulerRunning k" and "uxSchedulerSuspended k = 0" and "xPendedTicks k = 0"
  shows "\<exists>k'. prvAddNewTaskToReadyList cfg t k = Some k' \<and> running cfg {t} k' \<and> runs_highest cfg {t} k' \<and> pxCurrentTCB k' = t \<and>
    tcbs k' = tcbs k \<and> uxCurrentNumberOfTasks k' = 1 \<and> xSchedulerRunning k' = xSchedulerRunning k"
proof -
  let ?fresh = "k\<lparr>uxCurrentNumberOfTasks := 1, pxCurrentTCB := t\<rparr>"
  let ?k1 = "prvInitialiseTaskLists cfg ?fresh"
  have "fresh_task cfg {} (kernel_lists cfg) ?fresh t" using assms(3) by (simp add: fresh_task_def prio_def)
  moreover have "0 < configMAX_PRIORITIES cfg" using assms(1) by (simp add: sched_config_ok_def)
  ultimately have base: "sched_base cfg {t} {t} (empty_lists (kernel_lists cfg)) ?k1"
    using initialised_base [OF assms(1,2), of ?fresh t] assms(4) by simp
  obtain m L' where m: "prvAddTaskToReadyList cfg t ?k1 = Some (?k1\<lparr>task_lists := m, uxTopReadyPriority := max (uxTopReadyPriority ?k1) (prio ?k1 t)\<rparr>)"
      "sched_base cfg {t} {} L' (?k1\<lparr>task_lists := m, uxTopReadyPriority := max (uxTopReadyPriority ?k1) (prio ?k1 t)\<rparr>)"
      "container m = (container (task_lists ?k1))(xStateListItem t := ready_list cfg (prio ?k1 t))"
    using base_ready [OF base] by auto
  let ?k = "?k1\<lparr>task_lists := m, uxTopReadyPriority := max (uxTopReadyPriority ?k1) (prio ?k1 t)\<rparr>"
  have fields: "uxSchedulerSuspended ?k1 = 0" "xPendedTicks ?k1 = 0" "uxCurrentNumberOfTasks ?k1 = 1" "xSchedulerRunning ?k1 = xSchedulerRunning k"
      "pxCurrentTCB ?k1 = t" "tcbs ?k1 = tcbs k"
    using assms(8,9) by (simp_all add: prvInitialiseTaskLists_def Let_def)
  have "prvAddNewTaskToReadyList cfg t k = Some ?k"
    using assms(5-7) m(1) fields(4) by (simp add: prvAddNewTaskToReadyList_def Let_def)
  moreover have r: "ready cfg ?k t" using m(3) by (simp add: ready_def)
  have a: "arranged cfg {t} {} L' ?k" by (rule baseD(1) [OF m(2)])
  have p: "prio ?k t < configMAX_PRIORITIES cfg" using baseD(9) [OF m(2), of t] by simp
  have "in_time {t} ?k" using r ready_not_delayed(1) [OF a p] by (simp add: in_time_def ready_def)
  moreover have "\<not> pending cfg ?k t"
  proof -
    have "event_of ?k1 t = 0"
    proof -
      have "xEventListItem t \<noteq> xListEnd l" if "l \<in> kernel_lists cfg" for l using assms(3) that by (auto simp: fresh_task_def)
      then have "list_items (task_lists ?k1) (xEventListItem t) = list_items (task_lists k) (xEventListItem t)"
        using initialise_lists(2) [OF assms(2), where a = "xEventListItem t" and k = ?fresh] by simp
      then show ?thesis using assms(3) by (simp add: fresh_task_def container_def)
    qed
    then have "event_of ?k t = 0" using m(3) baseD(14) [OF base, of t t] by simp
    then show ?thesis using kernel_list_nonzero [OF a kernel_members(3)] by (simp add: pending_def)
  qed
  ultimately show ?thesis
    using m(2) fields r by (intro exI [of _ ?k]) (auto simp: running_def sched_inv_def runs_highest_def)
qed

text \<open>A further task. Before the scheduler is started the new task is the one to run when no other has a higher priority; afterwards it
  preempts the running task when it has a higher priority.\<close>

lemma preempt_runs:
  assumes "running cfg T k" and "t \<in> T" and "ready cfg k t" and "runs_highest cfg (T - {t}) k"
  shows "\<exists>k'. taskYIELD_ANY_CORE_IF_USING_PREEMPTION cfg t k = Some k' \<and> running cfg T k' \<and> same_view cfg T k k' \<and>
    (configUSE_PREEMPTION cfg \<longrightarrow> runs_highest cfg T k') \<and> uxCurrentNumberOfTasks k' = uxCurrentNumberOfTasks k"
proof -
  obtain L where L: "sched_base cfg T {} L k" using assms(1) by (auto simp: running_def sched_inv_def)
  have h: "higher_priority t k = Some (prio k (pxCurrentTCB k) < prio k t)"
    using higher_priority_eq [of k t] baseD(2,8) [OF L] assms(2) by simp
  show ?thesis
  proof (cases "configUSE_PREEMPTION cfg \<and> prio k (pxCurrentTCB k) < prio k t")
    case True
    obtain k' where "vTaskSwitchContext cfg k = Some k'" "running cfg T k'" "same_view cfg T k k'" "runs_highest cfg T k'"
      "uxCurrentNumberOfTasks k' = uxCurrentNumberOfTasks k"
      using yield_runs [OF assms(1-3)] switch_runs [OF L assms(2,3)] assms(1) by (auto simp: running_def)
    then show ?thesis using True h by (simp add: taskYIELD_ANY_CORE_IF_USING_PREEMPTION_def)
  next
    case False
    then have "configUSE_PREEMPTION cfg \<longrightarrow> runs_highest cfg T k" using assms(4) by (auto simp: runs_highest_def)
    moreover have "taskYIELD_ANY_CORE_IF_USING_PREEMPTION cfg t k = Some k" using False h by (auto simp: taskYIELD_ANY_CORE_IF_USING_PREEMPTION_def)
    ultimately show ?thesis using assms(1) by (simp add: same_view_def)
  qed
qed

definition joined :: "sched_config \<Rightarrow> u32 set \<Rightarrow> u32 \<Rightarrow> kernel \<Rightarrow> kernel \<Rightarrow> bool" where
  "joined cfg T t k k' \<longleftrightarrow> running cfg (insert t T) k' \<and> ready cfg k' t \<and> tcbs k' = tcbs k \<and>
     (\<forall>u \<in> T. sleeping k' u = sleeping k u \<and> ready cfg k' u = ready cfg k u)"

lemma join_ready:
  assumes "running cfg T k" and "fresh_task cfg T {l. list_heads (task_lists k) l \<noteq> None} k t" and "uxCurrentNumberOfTasks k + 1 > 0"
    and "c = pxCurrentTCB k \<or> c = t"
  defines "k0 \<equiv> k\<lparr>uxCurrentNumberOfTasks := uxCurrentNumberOfTasks k + 1, pxCurrentTCB := c\<rparr>"
  shows "\<exists>k'. prvAddTaskToReadyList cfg t k0 = Some k' \<and> joined cfg T t k k' \<and> pxCurrentTCB k' = c \<and> xSchedulerRunning k' = xSchedulerRunning k \<and>
    uxCurrentNumberOfTasks k' = uxCurrentNumberOfTasks k + 1"
proof -
  obtain L where L: "sched_base cfg T {} L k" "in_time T k" using assms(1) by (auto simp: running_def sched_inv_def)
  note b = baseD [OF L(1)]
  have "dom L \<subseteq> {l. list_heads (task_lists k) l \<noteq> None}" using family_rep [OF arrangedD(2) [OF b(1)]] list_rep_head by blast
  then have "sched_base cfg (insert t T) {t} L k" by (rule base_new [OF L(1) fresh_anti [OF assms(2)]])
  then have base: "sched_base cfg (insert t T) {t} L k0" using base_current [of cfg "insert t T" "{t}" L "k\<lparr>uxCurrentNumberOfTasks := uxCurrentNumberOfTasks k + 1\<rparr>" c] assms(4) b(2)
    by (auto simp: k0_def)
  have pk: "prio k0 = prio k" by (simp add: k0_def prio_def fun_eq_iff)
  obtain m L' where m: "prvAddTaskToReadyList cfg t k0 = Some (k0\<lparr>task_lists := m, uxTopReadyPriority := max (uxTopReadyPriority k0) (prio k0 t)\<rparr>)"
      "sched_base cfg (insert t T) {} L' (k0\<lparr>task_lists := m, uxTopReadyPriority := max (uxTopReadyPriority k0) (prio k0 t)\<rparr>)"
      "same_items (task_lists k0) m" "container m = (container (task_lists k0))(xStateListItem t := ready_list cfg (prio k0 t))"
    using base_ready [OF base] by auto
  let ?k = "k0\<lparr>task_lists := m, uxTopReadyPriority := max (uxTopReadyPriority k0) (prio k0 t)\<rparr>"
  have p: "prio k t < configMAX_PRIORITIES cfg" "t \<notin> T" "event_of k t = 0" using assms(2) by (simp_all add: fresh_task_def)
  have st: "container m (xStateListItem u) = (if u = t then ready_list cfg (prio k t) else state_of k u)" for u
    using m(4) pk by (simp add: k0_def)
  have ev: "container m (xEventListItem u) = event_of k u" if "u \<in> insert t T" for u
    using m(4) baseD(14) [OF base _ that, of t] by (simp add: k0_def)
  have val: "item_value m = item_value (task_lists k)" using m(3) by (simp add: same_items_def k0_def)
  have "in_time (insert t T) ?k"
    using L(2) st val ready_not_delayed(1) [OF b(1) p(1)] p(2) by (auto simp: in_time_def k0_def)
  then have inv: "sched_inv cfg (insert t T) ?k" using m(2) by (auto simp: sched_inv_def)
  moreover have "\<not> pending cfg ?k u" if "u \<in> insert t T" for u
    using ev [OF that] assms(1) p(3) that kernel_list_nonzero [OF b(1) kernel_members(3)] by (auto simp: pending_def running_def)
  ultimately have "running cfg (insert t T) ?k" using assms(1,3) by (simp add: running_def k0_def)
  moreover have "sleeping ?k u = sleeping k u \<and> ready cfg ?k u = ready cfg k u" if "u \<in> T" for u
    using st [of u] val that p(2) pk by (auto simp: sleeping_def delayed_def ready_def k0_def)
  moreover have "ready cfg ?k t" using st [of t] pk by (simp add: ready_def)
  ultimately have "joined cfg T t k ?k" by (simp add: joined_def k0_def)
  then show ?thesis using m(1) by (simp add: k0_def)
qed

lemma new_task_joins:
  assumes "running cfg T k" and "fresh_task cfg T {l. list_heads (task_lists k) l \<noteq> None} k t" and "uxCurrentNumberOfTasks k + 1 > 0"
    and "runs_highest cfg T k" and "configUSE_PREEMPTION cfg \<or> \<not> xSchedulerRunning k"
  shows "\<exists>k'. prvAddNewTaskToReadyList cfg t k = Some k' \<and> joined cfg T t k k' \<and> runs_highest cfg (insert t T) k' \<and>
    uxCurrentNumberOfTasks k' = uxCurrentNumberOfTasks k + 1"
proof -
  obtain L where L: "sched_base cfg T {} L k" using assms(1) by (auto simp: running_def sched_inv_def)
  let ?c = "pxCurrentTCB k"
  have c: "?c \<in> T" "?c \<noteq> 0" "t \<notin> T" using baseD(2) [OF L] baseD(15) [OF L baseD(2) [OF L]] assms(2) by (auto simp: fresh_task_def)
  obtain x y where tcb: "tcbs k ?c = Some x" "tcbs k t = Some y" using baseD(8) [OF L c(1)] assms(2) by (auto simp: fresh_task_def)
  define c' where "c' = (if \<not> xSchedulerRunning k \<and> prio k ?c \<le> prio k t then t else ?c)"
  obtain k1 where k1: "prvAddTaskToReadyList cfg t (k\<lparr>uxCurrentNumberOfTasks := uxCurrentNumberOfTasks k + 1, pxCurrentTCB := c'\<rparr>) = Some k1" "joined cfg T t k k1"
      "pxCurrentTCB k1 = c'" "xSchedulerRunning k1 = xSchedulerRunning k" "uxCurrentNumberOfTasks k1 = uxCurrentNumberOfTasks k + 1"
    using join_ready [OF assms(1-3), of c'] c'_def by metis
  have pk: "prio k1 = prio k" using k1(2) by (simp add: joined_def prio_def fun_eq_iff)
  have high: "ready cfg k1 ?c" "\<And>u. u \<in> T \<Longrightarrow> ready cfg k1 u \<Longrightarrow> prio k u \<le> prio k ?c"
    using assms(4) k1(2) c(1) by (auto simp: runs_highest_def joined_def)
  have step: "prvAddNewTaskToReadyList cfg t k = (if xSchedulerRunning k then taskYIELD_ANY_CORE_IF_USING_PREEMPTION cfg t k1 else Some k1)"
    using c(2) tcb k1(1,4) by (auto simp: prvAddNewTaskToReadyList_def Let_def c'_def prio_tcb split: if_splits)
  show ?thesis
  proof (cases "xSchedulerRunning k")
    case True
    have "runs_highest cfg (insert t T - {t}) k1" using True k1(3) c high pk by (auto simp: runs_highest_def c'_def)
    then obtain k' where "taskYIELD_ANY_CORE_IF_USING_PREEMPTION cfg t k1 = Some k'" "running cfg (insert t T) k'" "same_view cfg (insert t T) k1 k'"
        "runs_highest cfg (insert t T) k'" "uxCurrentNumberOfTasks k' = uxCurrentNumberOfTasks k1"
      using preempt_runs [of cfg "insert t T" k1 t] k1(2) assms(5) True by (auto simp: joined_def)
    then show ?thesis using step True k1(2,5) by (auto simp: joined_def same_view_def)
  next
    case False
    have "runs_highest cfg (insert t T) k1"
      using False k1(2,3) c high pk by (auto simp: runs_highest_def c'_def joined_def intro: order_trans less_imp_le)
    then show ?thesis using step False k1(2,5) by simp
  qed
qed

end
