(* ===== verification/Sched_Priority.thy ===== *)
theory Sched_Priority
  imports Sched_Events Sched_Start
begin

text \<open>
  Suspending and resuming single tasks, and priorities: the holder of a mutex inherits the priority of a task that waits for it, and
  returns to its own priority with its last mutex. A holder that itself waits for an event keeps its place in the list of that event, so that the
  event may wake a task of lower priority (\<open>inherited_waiter_not_first\<close>).
\<close>

section \<open>Suspending a task\<close>

lemma base_reset:
  assumes "sched_base cfg T {} L k" and "in_time T k"
  shows "\<exists>n. (if xSchedulerRunning k then prvResetNextTaskUnblockTime k else Some k) = Some (k\<lparr>xNextTaskUnblockTime := n\<rparr>) \<and> in_time T (k\<lparr>xNextTaskUnblockTime := n\<rparr>)"
proof (cases "xSchedulerRunning k")
  case True
  then show ?thesis using reset_unblock_time [OF assms(1)] assms(2) by (auto simp: in_time_def)
next
  case False
  then show ?thesis using assms(2) by (intro exI [of _ "xNextTaskUnblockTime k"]) simp
qed

definition is_suspended :: "sched_config \<Rightarrow> kernel \<Rightarrow> u32 \<Rightarrow> bool" where
  "is_suspended cfg k t \<longleftrightarrow> state_of k t = xSuspendedTaskList cfg \<and> event_of k t = 0"

text \<open>What happens to one task, with all others as they were.\<close>

definition others_same :: "sched_config \<Rightarrow> u32 set \<Rightarrow> u32 \<Rightarrow> kernel \<Rightarrow> kernel \<Rightarrow> bool" where
  "others_same cfg T t k k' \<longleftrightarrow> tcbs k' = tcbs k \<and> xTickCount k' = xTickCount k \<and> xSchedulerRunning k' = xSchedulerRunning k \<and>
     (\<forall>u \<in> T - {t}. sleeping k' u = sleeping k u \<and> ready cfg k' u = ready cfg k u \<and> event_of k' u = event_of k u)"

lemma suspend_moves:
  assumes "running cfg T k" and "t \<in> T"
  shows "\<exists>m2 m n. leave_lists t k = Some (k\<lparr>task_lists := m2\<rparr>) \<and>
    vListInsertEnd (xSuspendedTaskList cfg) (xStateListItem t) m2 = Some m \<and>
    (if xSchedulerRunning k then prvResetNextTaskUnblockTime (k\<lparr>task_lists := m\<rparr>) else Some (k\<lparr>task_lists := m\<rparr>)) = Some (k\<lparr>task_lists := m, xNextTaskUnblockTime := n\<rparr>) \<and>
    running cfg T (k\<lparr>task_lists := m, xNextTaskUnblockTime := n\<rparr>) \<and> is_suspended cfg (k\<lparr>task_lists := m, xNextTaskUnblockTime := n\<rparr>) t \<and>
    others_same cfg T t k (k\<lparr>task_lists := m, xNextTaskUnblockTime := n\<rparr>)"
proof -
  obtain L where L: "sched_base cfg T {} L k" "in_time T k" using assms(1) by (auto simp: running_def sched_inv_def)
  note b = baseD [OF L(1)]
  obtain m2 L2 where m2: "leave_lists t k = Some (k\<lparr>task_lists := m2\<rparr>)" "sched_base cfg T {t} L2 (k\<lparr>task_lists := m2\<rparr>)" "same_items (task_lists k) m2"
      "container m2 = (container (task_lists k))(xStateListItem t := 0, xEventListItem t := 0)"
    using base_detach [OF L(1) assms(2)] by blast
  obtain m L' where m: "vListInsertEnd (xSuspendedTaskList cfg) (xStateListItem t) m2 = Some m" "sched_base cfg T {} L' (k\<lparr>task_lists := m\<rparr>)"
      "same_items m2 m" "container m = (container m2)(xStateListItem t := xSuspendedTaskList cfg)"
    using base_suspend [OF m2(2) assms(2)] by auto
  have st: "container m (xStateListItem u) = (if u = t then xSuspendedTaskList cfg else state_of k u)"
      "container m (xEventListItem u) = (if u = t then 0 else event_of k u)" if "u \<in> T" for u
    using m(4) m2(4) b(14) [OF that assms(2)] b(14) [OF assms(2) that] by auto
  have val: "item_value m = item_value (task_lists k)" using m2(3) m(3) by (simp add: same_items_def)
  have l: "xSuspendedTaskList cfg \<noteq> pxDelayedTaskList k" using arrangedD(1,5) [OF b(1)] by (auto simp: sched_config_ok_def)
  have "in_time T (k\<lparr>task_lists := m\<rparr>)" using L(2) st(1) val l by (auto simp: in_time_def)
  then obtain n where n: "(if xSchedulerRunning k then prvResetNextTaskUnblockTime (k\<lparr>task_lists := m\<rparr>) else Some (k\<lparr>task_lists := m\<rparr>))
      = Some (k\<lparr>task_lists := m, xNextTaskUnblockTime := n\<rparr>)" "in_time T (k\<lparr>task_lists := m, xNextTaskUnblockTime := n\<rparr>)"
    using base_reset [OF m(2)] by auto
  let ?k = "k\<lparr>task_lists := m, xNextTaskUnblockTime := n\<rparr>"
  have "sched_inv cfg T ?k" using m(2) n(2) by (auto simp: sched_inv_def)
  moreover have "\<not> pending cfg ?k u" if "u \<in> T" for u
    using st(2) [OF that] assms(1) that kernel_list_nonzero [OF b(1) kernel_members(3)] by (auto simp: running_def pending_def)
  ultimately have "running cfg T ?k" using assms(1) by (simp add: running_def)
  moreover have "is_suspended cfg ?k t" using st assms(2) by (simp add: is_suspended_def)
  moreover have "others_same cfg T t k ?k" using st val by (simp add: others_same_def sleeping_def delayed_def ready_def)
  ultimately show ?thesis using m2(1) m(1) n(1) by blast
qed

lemma suspend_runs:
  assumes "running cfg T k" and "t \<in> T" and "prvGetTCBFromHandle hnd k = t" and "u \<in> T" and "u \<noteq> t" and "ready cfg k u"
    and "xSchedulerRunning k \<or> t \<noteq> pxCurrentTCB k"
  shows "\<exists>k'. vTaskSuspend cfg hnd k = Some k' \<and> running cfg T k' \<and> is_suspended cfg k' t \<and> others_same cfg T t k k' \<and>
    (if t = pxCurrentTCB k then runs_highest cfg T k' else pxCurrentTCB k' = pxCurrentTCB k)"
proof -
  obtain m2 m n where m: "leave_lists t k = Some (k\<lparr>task_lists := m2\<rparr>)" "vListInsertEnd (xSuspendedTaskList cfg) (xStateListItem t) m2 = Some m"
    "(if xSchedulerRunning k then prvResetNextTaskUnblockTime (k\<lparr>task_lists := m\<rparr>) else Some (k\<lparr>task_lists := m\<rparr>)) = Some (k\<lparr>task_lists := m, xNextTaskUnblockTime := n\<rparr>)"
    "running cfg T (k\<lparr>task_lists := m, xNextTaskUnblockTime := n\<rparr>)" "is_suspended cfg (k\<lparr>task_lists := m, xNextTaskUnblockTime := n\<rparr>) t"
    "others_same cfg T t k (k\<lparr>task_lists := m, xNextTaskUnblockTime := n\<rparr>)"
    using suspend_moves [OF assms(1,2)] by blast
  let ?k = "k\<lparr>task_lists := m, xNextTaskUnblockTime := n\<rparr>"
  have steps: "vTaskSuspend cfg hnd k = (if t = pxCurrentTCB k then vTaskSwitchContext cfg ?k else Some ?k)"
  proof -
    define k1 k2 where "k1 = k\<lparr>task_lists := m\<rparr>" and "k2 = ?k"
    then have fields: "xSchedulerRunning k1 = xSchedulerRunning k" "pxCurrentTCB k2 = pxCurrentTCB k" "xSchedulerRunning k2 = xSchedulerRunning k"
        "uxSchedulerSuspended k2 = 0" "with_lists (vListInsertEnd (xSuspendedTaskList cfg) (xStateListItem t)) (k\<lparr>task_lists := m2\<rparr>) = Some k1"
      using assms(1) m(2) by (simp_all add: running_def with_lists_def)
    have reset: "(if xSchedulerRunning k1 then prvResetNextTaskUnblockTime k1 else Some k1) = Some k2"
      using m(3) fields(1) unfolding k1_def k2_def by simp
    have "vTaskSuspend cfg hnd k = (if t = pxCurrentTCB k then vTaskSwitchContext cfg k2 else Some k2)"
      unfolding vTaskSuspend_def Let_def assms(3) m(1) using fields reset assms(7) by (auto simp: config_assert_def)
    then show ?thesis unfolding k2_def .
  qed
  show ?thesis
  proof (cases "t = pxCurrentTCB k")
    case True
    have r: "ready cfg ?k u" using m(6) assms(4-6) by (simp add: others_same_def)
    have "sched_inv cfg T ?k" "uxSchedulerSuspended ?k = 0" using m(4) by (simp_all add: running_def)
    from switch_keeps [OF this(1) assms(4) r this(2)]
    obtain k' where k': "vTaskSwitchContext cfg ?k = Some k'" "sched_inv cfg T k'" "kept ?k k'" "state_of k' = state_of ?k" "event_of k' = event_of ?k"
        "pxCurrentTCB k' \<in> T" "ready cfg ?k (pxCurrentTCB k')" "\<forall>v \<in> T. ready cfg ?k v \<longrightarrow> prio ?k v \<le> prio ?k (pxCurrentTCB k')" by blast
    have same: "sleeping k' v = sleeping ?k v" "ready cfg k' v = ready cfg ?k v" "event_of k' v = event_of ?k v" "state_of k' v = state_of ?k v" for v
      using kept_view [OF k'(3), of v] k'(4,5) by (simp_all add: fun_eq_iff)
    have "running cfg T k'" using m(4) k'(2,3) same by (simp add: running_def kept_def pending_def)
    moreover have "is_suspended cfg k' t" using m(5) same by (simp add: is_suspended_def)
    moreover have "others_same cfg T t k k'" using m(6) k'(3) same by (simp add: others_same_def kept_def)
    moreover have "runs_highest cfg T k'" using k'(6-8) same kept_prio [OF k'(3)] by (simp add: runs_highest_def)
    ultimately show ?thesis using steps True k'(1) by simp
  next
    case False
    then show ?thesis using steps m(4-6) by simp
  qed
qed

lemma suspended_test:
  assumes "sched_base cfg T {} L k" and "t \<in> T"
  shows "prvTaskIsTaskSuspended cfg t k = Some (is_suspended cfg k t)"
  using baseD(10,11,15) [OF assms(1)] assms(2) item_reads(3) kernel_list_nonzero [OF baseD(1) [OF assms(1)] kernel_members(3)]
  by (auto simp: prvTaskIsTaskSuspended_def config_assert_def is_suspended_def)

lemma resume_task_runs:
  assumes "running cfg T k" and "t \<in> T" and "is_suspended cfg k t" and "t \<noteq> pxCurrentTCB k" and "runs_highest cfg (T - {t}) k"
  shows "\<exists>k'. vTaskResume cfg t k = Some k' \<and> running cfg T k' \<and> ready cfg k' t \<and> (configUSE_PREEMPTION cfg \<longrightarrow> runs_highest cfg T k') \<and>
    (\<forall>u \<in> T - {t}. sleeping k' u = sleeping k u \<and> ready cfg k' u = ready cfg k u)"
proof -
  obtain L where L: "sched_base cfg T {} L k" "in_time T k" using assms(1) by (auto simp: running_def sched_inv_def)
  note b = baseD [OF L(1)]
  obtain m1 L1 where m1: "remove_item (xStateListItem t) k = Some (k\<lparr>task_lists := m1\<rparr>)" "sched_base cfg T {t} L1 (k\<lparr>task_lists := m1\<rparr>)"
      "same_items (task_lists k) m1" "container m1 = (container (task_lists k))(xStateListItem t := 0)"
    using base_remove_state [OF L(1) assms(2)] by auto
  let ?k = "\<lambda>m. k\<lparr>task_lists := m, uxTopReadyPriority := max (uxTopReadyPriority k) (prio k t)\<rparr>"
  obtain m L' where m: "prvAddTaskToReadyList cfg t (k\<lparr>task_lists := m1\<rparr>) = Some (?k m)" "sched_base cfg T {} L' (?k m)" "same_items m1 m"
      "container m = (container m1)(xStateListItem t := ready_list cfg (prio k t))"
    using base_ready [OF m1(2) assms(2)] by auto
  have same: "same_items (task_lists k) m" by (rule same_items_trans [OF m1(3) m(3)])
  have st: "container m (xStateListItem u) = (if u = t then ready_list cfg (prio k t) else state_of k u)" "container m (xEventListItem u) = event_of k u" if "u \<in> T" for u
    using m(4) m1(4) b(14) [OF assms(2) that] by auto
  have val: "item_value m = item_value (task_lists k)" using same by (simp add: same_items_def)
  have "in_time T (?k m)" by (rule in_time_ready [OF L(2,1) assms(2)]) (use st assms(2) same in auto)
  then have "running cfg T (?k m)" using m(2) assms(1) st(2) by (auto simp: running_def sched_inv_def pending_def)
  moreover have r: "ready cfg (?k m) t" using st assms(2) by (simp add: ready_def)
  moreover have view: "sleeping (?k m) u = sleeping k u \<and> ready cfg (?k m) u = ready cfg k u" if "u \<in> T - {t}" for u
    using that st [of u] val by (simp add: sleeping_def delayed_def ready_def)
  moreover have "runs_highest cfg (T - {t}) (?k m)" using assms(5) view by (auto simp: runs_highest_def)
  ultimately obtain k' where k': "taskYIELD_ANY_CORE_IF_USING_PREEMPTION cfg t (?k m) = Some k'" "running cfg T k'" "same_view cfg T (?k m) k'"
      "configUSE_PREEMPTION cfg \<longrightarrow> runs_highest cfg T k'"
    using preempt_runs [of cfg T "?k m" t] assms(2) by auto
  have "vTaskResume cfg t k = Some k'"
    using suspended_test [OF L(1) assms(2)] assms(3,4) b(15) [OF assms(2)] m1(1) m(1) k'(1) by (simp add: vTaskResume_def config_assert_def)
  moreover have "ready cfg k' t" using k'(3) r assms(2) by (simp add: same_view_def)
  moreover have "sleeping k' u = sleeping k u \<and> ready cfg k' u = ready cfg k u" if "u \<in> T - {t}" for u
    using view [OF that] k'(3) that by (simp add: same_view_def)
  ultimately show ?thesis using k'(2,4) by blast
qed

text \<open>The state that is reported for a task that does not run.\<close>

lemma state_reported:
  assumes "running cfg T k" and "t \<in> T" and "t \<noteq> pxCurrentTCB k"
  shows "ready cfg k t \<Longrightarrow> eTaskGetState cfg t k = Some eReady"
    and "sleeping k t = Some d \<Longrightarrow> eTaskGetState cfg t k = Some eBlocked"
    and "is_suspended cfg k t \<Longrightarrow> INCLUDE_vTaskSuspend cfg \<Longrightarrow> eTaskGetState cfg t k = Some eSuspended"
proof -
  obtain L where L: "sched_base cfg T {} L k" using assms(1) by (auto simp: running_def sched_inv_def)
  note b = baseD [OF L]
  have reads: "listLIST_ITEM_CONTAINER (xStateListItem t) (task_lists k) = Some (state_of k t)"
      "listLIST_ITEM_CONTAINER (xEventListItem t) (task_lists k) = Some (event_of k t)" "event_of k t \<noteq> xPendingReadyList cfg"
    using item_reads(2) b(10,11) assms(1,2) by (auto simp: running_def pending_def)
  note c = arrangedD(1,5) [OF b(1)]
  have away: "ready_list cfg (prio k t) \<noteq> xTasksWaitingTermination cfg"
    using c(1) b(9) [OF assms(2)] unfolding sched_config_ok_def by blast
  show "eTaskGetState cfg t k = Some eReady" if "ready cfg k t"
    using that reads assms(3) b(15) [OF assms(2)] ready_not_delayed [OF b(1) b(9) [OF assms(2)]] away
    by (simp add: eTaskGetState_def config_assert_def ready_def)
  show "eTaskGetState cfg t k = Some eBlocked" if "sleeping k t = Some d"
    using that reads assms(3) b(15) [OF assms(2)] by (auto simp: eTaskGetState_def config_assert_def sleeping_def delayed_def split: if_splits)
  show "eTaskGetState cfg t k = Some eSuspended" if "is_suspended cfg k t" "INCLUDE_vTaskSuspend cfg"
    using that reads assms(3) b(15) [OF assms(2)] c by (auto simp: eTaskGetState_def config_assert_def is_suspended_def sched_config_ok_def)
qed

section \<open>Priorities\<close>

lemma prio_update: "prio (k\<lparr>tcbs := (tcbs k)(t \<mapsto> y)\<rparr>) = (prio k)(t := uxPriority y)"
  by (simp add: prio_def fun_eq_iff)

text \<open>The priority of a task may change when it is in no ready list.\<close>

lemma base_set_prio:
  assumes "sched_base cfg T X L k" and "t \<in> T" and "t \<in> X \<or> \<not> ready cfg k t" and "uxPriority y < configMAX_PRIORITIES cfg"
  shows "sched_base cfg T X L (k\<lparr>tcbs := (tcbs k)(t \<mapsto> y)\<rparr>)"
proof -
  note b = baseD [OF assms(1)]
  let ?k = "k\<lparr>tcbs := (tcbs k)(t \<mapsto> y)\<rparr>"
  have "task_ok cfg T L ?k u" if "u \<in> T" for u
    using arrangedD(6) [OF b(1) that] assms(4) by (auto simp: task_ok_def prio_update)
  moreover have "home cfg ?k u (state_of k u)" if "u \<in> T" "u \<notin> X" for u
    using arrangedD(8) [OF b(1) that] assms(3) that(2) by (cases "u = t") (auto simp: home_def prio_update ready_def)
  ultimately have "arranged cfg T X L ?k" using b(1) by (auto simp: arranged_def)
  moreover have "\<not> ready cfg ?k t"
  proof (cases "t \<in> X")
    case True
    then show ?thesis using arrangedD(7) [OF b(1) assms(2)] ready_not_delayed(3) [OF b(1) assms(4)] by (simp add: ready_def prio_update)
  next
    case False
    then have "state_of k t \<in> {xDelayedTaskList1 cfg, xDelayedTaskList2 cfg, xTasksWaitingTermination cfg, xSuspendedTaskList cfg}"
      using arrangedD(8) [OF b(1) assms(2)] assms(3) by (auto simp: home_def ready_def)
    then have "state_of k t \<noteq> ready_list cfg (uxPriority y)"
      using arrangedD(1) [OF b(1)] assms(4) unfolding sched_config_ok_def by blast
    then show ?thesis by (simp add: ready_def prio_update)
  qed
  ultimately show ?thesis using b(2-7) by (auto simp: sched_base_def ready_def prio_update)
qed

lemma base_event_value:
  assumes "sched_base cfg T X L k" and "t \<in> T"
  shows "\<exists>m. with_lists (listSET_LIST_ITEM_VALUE (xEventListItem t) v) k = Some (k\<lparr>task_lists := m\<rparr>) \<and> sched_base cfg T X L (k\<lparr>task_lists := m\<rparr>) \<and>
    container m = container (task_lists k) \<and> (\<forall>u \<in> T. item_value m (xStateListItem u) = wake_time k u) \<and>
    (\<forall>u \<in> T. item_value m (xEventListItem u) = (if u = t then v else event_value k u))"
proof -
  note b = baseD [OF assms(1)]
  let ?i = "xEventListItem t"
  have "placed L (task_lists k) ?i" using arrangedD(6) [OF b(1) assms(2)] by (simp add: task_ok_def)
  then obtain m where m: "listSET_LIST_ITEM_VALUE ?i v (task_lists k) = Some m" "list_family L m" "item_value m = (item_value (task_lists k))(?i := v)"
      "owner m = owner (task_lists k)" "container m = container (task_lists k)" "\<forall>a. list_items m a = None \<longleftrightarrow> list_items (task_lists k) a = None"
    using family_set_value [OF arrangedD(2) [OF b(1)] b(11) [OF assms(2)], of v] placed_not_marker [OF arrangedD(2) [OF b(1)]] by blast
  have "task_ok cfg T L (k\<lparr>task_lists := m\<rparr>) u" if "task_ok cfg T L k u" for u
    using that m(4-6) by (simp add: task_ok_def placed_def)
  then have a: "arranged cfg T X L (k\<lparr>task_lists := m\<rparr>)" using b(1) m(2,5) by (auto simp: arranged_def)
  have val: "item_value m (xStateListItem u) = wake_time k u" if "u \<in> T" for u using m(3) b(14) [OF that assms(2)] by simp
  have "sched_base cfg T X L (k\<lparr>task_lists := m\<rparr>)" by (rule base_same_states [OF assms(1) a _ val]) (use m(5) in auto)
  then show ?thesis using m(1,3,5) val by (auto simp: with_lists_def)
qed

text \<open>The value of the event item that goes with a priority, unless the item is used for something else.\<close>

definition event_key :: "sched_config \<Rightarrow> kernel \<Rightarrow> u32 \<Rightarrow> u32 \<Rightarrow> u32" where
  "event_key cfg k t p = (if event_value k t AND taskEVENT_LIST_ITEM_VALUE_IN_USE = 0 then configMAX_PRIORITIES cfg - p else event_value k t)"

lemma base_set_event_value:
  assumes "sched_base cfg T X L k" and "t \<in> T"
  shows "\<exists>m. set_event_value cfg t p k = Some (k\<lparr>task_lists := m\<rparr>) \<and> sched_base cfg T X L (k\<lparr>task_lists := m\<rparr>) \<and>
    container m = container (task_lists k) \<and> (\<forall>u \<in> T. item_value m (xStateListItem u) = wake_time k u) \<and>
    (\<forall>u \<in> T. item_value m (xEventListItem u) = (if u = t then event_key cfg k t p else event_value k u))"
proof (cases "event_value k t AND taskEVENT_LIST_ITEM_VALUE_IN_USE = 0")
  case True
  then show ?thesis
    using base_event_value [OF assms, of "configMAX_PRIORITIES cfg - p"] item_reads(1) [OF baseD(11) [OF assms]] by (auto simp: set_event_value_def event_key_def)
next
  case False
  then show ?thesis using assms(1) item_reads(1) [OF baseD(11) [OF assms]]
    by (intro exI [of _ "task_lists k"]) (simp add: set_event_value_def event_key_def)
qed

text \<open>One task has another priority, with the value \<open>v\<close> in its event item, and everything else is as it was.\<close>

definition only_priority :: "sched_config \<Rightarrow> u32 set \<Rightarrow> u32 \<Rightarrow> u32 \<Rightarrow> u32 \<Rightarrow> kernel \<Rightarrow> kernel \<Rightarrow> bool" where
  "only_priority cfg T t p v k k' \<longleftrightarrow> sched_inv cfg T k' \<and> prio k' = (prio k)(t := p) \<and> pxCurrentTCB k' = pxCurrentTCB k \<and>
     uxSchedulerSuspended k' = uxSchedulerSuspended k \<and> xTickCount k' = xTickCount k \<and> map_option uxBasePriority \<circ> tcbs k' = map_option uxBasePriority \<circ> tcbs k \<and>
     (\<forall>u \<in> T. sleeping k' u = sleeping k u \<and> ready cfg k' u = ready cfg k u \<and> event_of k' u = event_of k u) \<and>
     (\<forall>u \<in> T. event_value k' u = (if u = t then v else event_value k u))"

lemma only_priorityI:
  assumes "sched_inv cfg T k" and "sched_base cfg T {} L k'" and "t \<in> T" and "tcbs k t = Some x"
    and "tcbs k' = (tcbs k)(t \<mapsto> y)" and "uxPriority y = p" and "uxBasePriority y = uxBasePriority x"
    and "\<And>u. u \<in> T - {t} \<Longrightarrow> state_of k' u = state_of k u" and "\<And>u. u \<in> T \<Longrightarrow> wake_time k' u = wake_time k u" and "\<And>u. u \<in> T \<Longrightarrow> event_of k' u = event_of k u"
    and "state_of k' t = (if ready cfg k t then ready_list cfg p else state_of k t)"
    and "pxDelayedTaskList k' = pxDelayedTaskList k" "pxOverflowDelayedTaskList k' = pxOverflowDelayedTaskList k" "xTickCount k' = xTickCount k"
    and "xNextTaskUnblockTime k' = xNextTaskUnblockTime k" "pxCurrentTCB k' = pxCurrentTCB k" "uxSchedulerSuspended k' = uxSchedulerSuspended k"
    and "\<And>u. u \<in> T \<Longrightarrow> event_value k' u = (if u = t then v else event_value k u)"
  shows "only_priority cfg T t p v k k'"
proof -
  obtain L0 where L0: "sched_base cfg T {} L0 k" "in_time T k" using assms(1) by (auto simp: sched_inv_def)
  have pr: "prio k' = (prio k)(t := p)" using assms(5,6) by (simp add: prio_def fun_eq_iff)
  have p: "p < configMAX_PRIORITIES cfg" using baseD(9) [OF assms(2,3)] pr by simp
  have "ready cfg k' t = ready cfg k t"
  proof (cases "ready cfg k t")
    case True
    then show ?thesis using assms(11) pr by (simp add: ready_def)
  next
    case False
    have "state_of k t \<in> {xDelayedTaskList1 cfg, xDelayedTaskList2 cfg, xTasksWaitingTermination cfg, xSuspendedTaskList cfg}"
      using arrangedD(8) [OF baseD(1) [OF L0(1)] assms(3)] False by (auto simp: home_def ready_def)
    then have "state_of k t \<noteq> ready_list cfg p"
      using arrangedD(1) [OF baseD(1) [OF L0(1)]] p unfolding sched_config_ok_def by blast
    then show ?thesis using False assms(11) pr by (simp add: ready_def)
  qed
  moreover have "delayed k' u = delayed k u" if "u \<in> T" for u
  proof (cases "u = t \<and> ready cfg k t")
    case True
    then show ?thesis
      using assms(11-13) ready_not_delayed(1,2) [OF baseD(1) [OF L0(1)] p] ready_not_delayed(1,2) [OF baseD(1) [OF L0(1)] baseD(9) [OF L0(1) assms(3)]]
      by (auto simp: delayed_def ready_def)
  next
    case False
    then have "state_of k' u = state_of k u" using assms(8,11) that by (cases "u = t") auto
    then show ?thesis using assms(12,13) by (simp add: delayed_def)
  qed
  moreover have "in_time T k'"
  proof -
    have "state_of k u = pxDelayedTaskList k" if "u \<in> T" "state_of k' u = pxDelayedTaskList k" for u
      using that assms(8) [of u] assms(11) ready_not_delayed(1) [OF baseD(1) [OF L0(1)] p] by (cases "u = t") (auto split: if_splits)
    then show ?thesis using L0(2) assms(9,12,14,15) by (simp add: in_time_def)
  qed
  moreover have "ready cfg k' u = ready cfg k u" if "u \<in> T - {t}" for u using assms(8) [OF that] pr that by (simp add: ready_def)
  ultimately show ?thesis
    using assms(2,4,5,7,9,10,14,16-18) pr by (auto simp: only_priority_def sched_inv_def sleeping_def fun_eq_iff)
qed

lemma inherit_runs:
  assumes L: "sched_base cfg T {} L k" and "t \<in> T" and "prio k t < prio k (pxCurrentTCB k)" and "in_time T k"
  shows "\<exists>k' L'. xTaskPriorityInherit cfg t k = Some (True, k') \<and>
    only_priority cfg T t (prio k (pxCurrentTCB k)) (event_key cfg k t (prio k (pxCurrentTCB k))) k k' \<and>
    sched_base cfg T {} L' k' \<and> (\<forall>l. l \<notin> state_lists cfg \<longrightarrow> L' l = L l)"
proof -
  note b = baseD [OF L]
  let ?p = "prio k (pxCurrentTCB k)"
  let ?v = "event_key cfg k t ?p"
  have inv: "sched_inv cfg T k" using L assms(4) by (auto simp: sched_inv_def)
  obtain x c where x: "tcbs k t = Some x" "tcbs k (pxCurrentTCB k) = Some c" using b(2,8) assms(2) by blast
  have pr: "uxPriority x = prio k t" "uxPriority c = ?p" using x by (simp_all add: prio_tcb)
  have p: "uxPriority (x\<lparr>uxPriority := ?p\<rparr>) < configMAX_PRIORITIES cfg" using b(9) [OF b(2)] by simp
  obtain m0 where m0: "set_event_value cfg t ?p k = Some (k\<lparr>task_lists := m0\<rparr>)" "sched_base cfg T {} L (k\<lparr>task_lists := m0\<rparr>)"
      "container m0 = container (task_lists k)" "\<And>u. u \<in> T \<Longrightarrow> item_value m0 (xStateListItem u) = wake_time k u"
      "\<And>u. u \<in> T \<Longrightarrow> item_value m0 (xEventListItem u) = (if u = t then ?v else event_value k u)"
    using base_set_event_value [OF L assms(2), of ?p] by auto
  have r: "listIS_CONTAINED_WITHIN (ready_list cfg (prio k t)) (xStateListItem t) m0 = Some (ready cfg k t)"
    using item_reads(3) [OF baseD(10) [OF m0(2) assms(2)]] m0(3) by (simp add: ready_def)
  show ?thesis
  proof (cases "ready cfg k t")
    case False
    let ?k = "k\<lparr>task_lists := m0, tcbs := (tcbs k)(t \<mapsto> x\<lparr>uxPriority := ?p\<rparr>)\<rparr>"
    have "xTaskPriorityInherit cfg t k = Some (True, ?k)"
      using b(15) [OF assms(2)] x pr assms(3) m0(1) r False by (simp add: xTaskPriorityInherit_def upd_tcb_def)
    moreover have base: "sched_base cfg T {} L ?k"
      using base_set_prio [OF m0(2) assms(2) _ p] False m0(3) by (simp add: ready_def)
    then have "only_priority cfg T t ?p ?v k ?k" by (rule only_priorityI [OF inv _ assms(2) x(1), where y = "x\<lparr>uxPriority := ?p\<rparr>"]) (use m0(3-5) False in auto)
    ultimately show ?thesis using base by blast
  next
    case True
    obtain m1 L1 where m1: "remove_item (xStateListItem t) (k\<lparr>task_lists := m0\<rparr>) = Some (k\<lparr>task_lists := m1\<rparr>)" "sched_base cfg T {t} L1 (k\<lparr>task_lists := m1\<rparr>)"
        "same_items m0 m1" "container m1 = (container m0)(xStateListItem t := 0)" "\<And>l. l \<notin> state_lists cfg \<Longrightarrow> L1 l = L l"
      using base_remove_state [OF m0(2) assms(2)] by auto
    let ?k1 = "k\<lparr>task_lists := m1, tcbs := (tcbs k)(t \<mapsto> x\<lparr>uxPriority := ?p\<rparr>)\<rparr>"
    have "sched_base cfg T {t} L1 ?k1" using base_set_prio [OF m1(2) assms(2) _ p] by simp
    from base_ready [OF this assms(2)] obtain m L2 where m:
        "prvAddTaskToReadyList cfg t ?k1 = Some (?k1\<lparr>task_lists := m, uxTopReadyPriority := max (uxTopReadyPriority k) (prio ?k1 t)\<rparr>)"
        "sched_base cfg T {} L2 (?k1\<lparr>task_lists := m, uxTopReadyPriority := max (uxTopReadyPriority k) (prio ?k1 t)\<rparr>)"
        "same_items m1 m" "container m = (container m1)(xStateListItem t := ready_list cfg (prio ?k1 t))" "\<And>l. l \<notin> state_lists cfg \<Longrightarrow> L2 l = L1 l" by auto
    have new: "prio ?k1 t = ?p" by (simp add: prio_def)
    let ?k = "?k1\<lparr>task_lists := m, uxTopReadyPriority := max (uxTopReadyPriority k) (prio ?k1 t)\<rparr>"
    have "xTaskPriorityInherit cfg t k = Some (True, ?k)"
      using b(15) [OF assms(2)] x pr assms(3) m0(1) r True m1(1) m(1) by (simp add: xTaskPriorityInherit_def upd_tcb_def)
    moreover have "item_value m = item_value m0" using m1(3) m(3) by (simp add: same_items_def)
    then have "only_priority cfg T t ?p ?v k ?k"
      using m0(3-5) m1(4) m(4) new True b(14) [OF assms(2), THEN not_sym] by (intro only_priorityI [OF inv m(2) assms(2) x(1), where y = "x\<lparr>uxPriority := ?p\<rparr>"]) auto
    moreover have "L2 l = L l" if "l \<notin> state_lists cfg" for l using m(5) m1(5) that by simp
    ultimately show ?thesis using m(2) by (intro exI [of _ ?k] exI [of _ L2]) simp
  qed
qed

lemma disinherit_task_runs:
  assumes "sched_inv cfg T k" and "ready cfg k (pxCurrentTCB k)" and "tcbs k (pxCurrentTCB k) = Some x" and "uxMutexesHeld x \<noteq> 0"
    and "uxBasePriority x < configMAX_PRIORITIES cfg"
  shows "\<exists>r k'. xTaskPriorityDisinherit cfg (pxCurrentTCB k) k = Some (r, k') \<and> (r \<longleftrightarrow> uxPriority x \<noteq> uxBasePriority x \<and> uxMutexesHeld x = 1) \<and>
    only_priority cfg T (pxCurrentTCB k) (if r then uxBasePriority x else uxPriority x)
      (if r then configMAX_PRIORITIES cfg - uxBasePriority x else event_value k (pxCurrentTCB k)) k k' \<and>
    map_option uxMutexesHeld (tcbs k' (pxCurrentTCB k)) = Some (uxMutexesHeld x - 1)"
proof -
  obtain L where L: "sched_base cfg T {} L k" using assms(1) by (auto simp: sched_inv_def)
  note b = baseD [OF L]
  let ?t = "pxCurrentTCB k" and ?x = "x\<lparr>uxMutexesHeld := uxMutexesHeld x - 1\<rparr>"
  have t: "?t \<in> T" "?t \<noteq> 0" using b(2,15) by auto
  have one: "uxMutexesHeld x - 1 = 0 \<longleftrightarrow> uxMutexesHeld x = 1" by auto
  let ?k = "k\<lparr>tcbs := (tcbs k)(?t \<mapsto> ?x)\<rparr>"
  have "prio ?k = prio k" using assms(3) by (simp add: prio_def fun_eq_iff)
  then have base: "sched_base cfg T {} L ?k" using L assms(3) by (auto simp: sched_base_def arranged_def task_ok_def home_def ready_def)
  show ?thesis
  proof (cases "uxPriority x \<noteq> uxBasePriority x \<and> uxMutexesHeld x = 1")
    case False
    have "xTaskPriorityDisinherit cfg ?t k = Some (False, ?k)"
      using t(2) assms(3,4) False one by (auto simp: xTaskPriorityDisinherit_def upd_tcb_def config_assert_def)
    moreover have "only_priority cfg T ?t (uxPriority x) (event_value k ?t) k ?k"
      using assms(2,3) by (intro only_priorityI [OF assms(1) base t(1) assms(3), where y = ?x]) (auto simp: ready_def prio_tcb)
    ultimately show ?thesis using False by (intro exI [of _ False] exI [of _ ?k]) simp
  next
    case True
    let ?y = "?x\<lparr>uxPriority := uxBasePriority x\<rparr>"
    obtain m1 L1 where m1: "remove_item (xStateListItem ?t) ?k = Some (?k\<lparr>task_lists := m1\<rparr>)" "sched_base cfg T {?t} L1 (?k\<lparr>task_lists := m1\<rparr>)"
        "same_items (task_lists k) m1" "container m1 = (container (task_lists k))(xStateListItem ?t := 0)"
      using base_remove_state [OF base t(1)] by auto
    have "uxPriority ?y < configMAX_PRIORITIES cfg" using assms(5) by simp
    then have b1: "sched_base cfg T {?t} L1 (k\<lparr>task_lists := m1, tcbs := (tcbs k)(?t \<mapsto> ?y)\<rparr>)" using base_set_prio [OF m1(2) t(1), of ?y] by simp
    obtain m2 where m2: "with_lists (listSET_LIST_ITEM_VALUE (xEventListItem ?t) (configMAX_PRIORITIES cfg - uxBasePriority x)) (k\<lparr>task_lists := m1, tcbs := (tcbs k)(?t \<mapsto> ?y)\<rparr>)
          = Some (k\<lparr>tcbs := (tcbs k)(?t \<mapsto> ?y), task_lists := m2\<rparr>)" "sched_base cfg T {?t} L1 (k\<lparr>tcbs := (tcbs k)(?t \<mapsto> ?y), task_lists := m2\<rparr>)"
        "container m2 = container m1" "\<And>u. u \<in> T \<Longrightarrow> item_value m2 (xStateListItem u) = item_value m1 (xStateListItem u)"
        "\<And>u. u \<in> T \<Longrightarrow> item_value m2 (xEventListItem u) = (if u = ?t then configMAX_PRIORITIES cfg - uxBasePriority x else item_value m1 (xEventListItem u))"
      using base_event_value [OF b1 t(1), of "configMAX_PRIORITIES cfg - uxBasePriority x"] by auto
    let ?k2 = "k\<lparr>tcbs := (tcbs k)(?t \<mapsto> ?y), task_lists := m2\<rparr>"
    have new: "prio ?k2 ?t = uxBasePriority x" by (simp add: prio_def)
    obtain m L2 where m: "prvAddTaskToReadyList cfg ?t ?k2 = Some (?k2\<lparr>task_lists := m, uxTopReadyPriority := max (uxTopReadyPriority k) (uxBasePriority x)\<rparr>)"
        "sched_base cfg T {} L2 (?k2\<lparr>task_lists := m, uxTopReadyPriority := max (uxTopReadyPriority k) (uxBasePriority x)\<rparr>)"
        "same_items m2 m" "container m = (container m2)(xStateListItem ?t := ready_list cfg (uxBasePriority x))"
      using base_ready [OF m2(2) t(1)] new by auto
    let ?done = "?k2\<lparr>task_lists := m, uxTopReadyPriority := max (uxTopReadyPriority k) (uxBasePriority x)\<rparr>"
    have "xTaskPriorityDisinherit cfg ?t k = Some (True, ?done)"
      using t(2) assms(3,4) True m1(1) m2(1) m(1) by (simp add: xTaskPriorityDisinherit_def upd_tcb_def config_assert_def)
    moreover have "item_value m (xStateListItem u) = wake_time k u"
        "item_value m (xEventListItem u) = (if u = ?t then configMAX_PRIORITIES cfg - uxBasePriority x else event_value k u)" if "u \<in> T" for u
      using m1(3) m2(4,5) [OF that] m(3) by (simp_all add: same_items_def)
    then have "only_priority cfg T ?t (uxBasePriority x) (configMAX_PRIORITIES cfg - uxBasePriority x) k ?done"
      using m1(4) m2(3) m(4) assms(2) b(14) [OF t(1), THEN not_sym] by (intro only_priorityI [OF assms(1) m(2) t(1) assms(3), where y = ?y]) auto
    ultimately show ?thesis using True by (intro exI [of _ True] exI [of _ ?done]) simp
  qed
qed

section \<open>Priorities of waiting tasks\<close>

text \<open>A task that waits for an event keeps its place in the list when it inherits a priority: the first task is still woken first, even if
  the other one has now the higher priority.\<close>

lemma inherited_waiter_not_first:
  assumes "sched_base cfg T {} L k" and "in_time T k" and "event_list cfg T L e (v # ts)" and "t \<in> set ts"
    and "prio k v < prio k (pxCurrentTCB k)" and "prio k t < prio k (pxCurrentTCB k)" and "t \<noteq> v"
  shows "\<exists>k1 k2 r. xTaskPriorityInherit cfg t k = Some (True, k1) \<and> xTaskRemoveFromEventList cfg e k1 = Some (r, k2) \<and>
    prio k1 v < prio k1 t \<and> event_of k1 t = e \<and> event_of k2 t = e \<and> event_of k2 v \<noteq> e"
proof -
  have tv: "t \<in> T" "v \<in> T" "e \<notin> state_lists cfg" "e \<noteq> 0" "e \<noteq> xPendingReadyList cfg"
    using assms(3,4) arrangedD(4) [OF baseD(1) [OF assms(1)]] kernel_members(3) [of cfg]
    by (auto simp: event_list_def state_lists_def simp del: kernel_members)
  obtain k1 L1 where k1: "xTaskPriorityInherit cfg t k = Some (True, k1)"
      "only_priority cfg T t (prio k (pxCurrentTCB k)) (event_key cfg k t (prio k (pxCurrentTCB k))) k k1"
      "sched_base cfg T {} L1 k1" "\<And>l. l \<notin> state_lists cfg \<Longrightarrow> L1 l = L l"
    using inherit_runs [OF assms(1) tv(1) assms(6,2)] by blast
  have list: "event_list cfg T L1 e (v # ts)" using assms(3) k1(4) [OF tv(3)] by (simp add: event_list_def)
  have "in_time T k1" using k1(2) by (simp add: only_priority_def sched_inv_def)
  then obtain k2 L2 where k2: "xTaskRemoveFromEventList cfg e k1 = Some (prio k1 (pxCurrentTCB k1) < prio k1 v, k2)"
      "woken_by_event cfg T e v k1 k2"
    using remove_from_event_list [OF k1(3) _ list] by blast
  moreover have "event_of k1 t = e" using event_members [OF k1(3) list tv(1)] assms(4) by simp
  moreover have "event_of k2 t = event_of k1 t" "event_of k2 v \<noteq> e"
    using k2(2) tv assms(7) by (auto simp: woken_by_event_def pending_def split: if_splits)
  moreover have "prio k1 v < prio k1 t" using k1(2) assms(5,7) by (simp add: only_priority_def)
  ultimately show ?thesis using k1(1) by auto
qed

end
