(* ===== verification/Sched_Properties.thy ===== *)
theory Sched_Properties
  imports Sched_Priority
begin

text \<open>
  The properties of the scheduler, and a kernel with an idle task and a second task, just before the wrap of the tick counter, on which they are applied.
\<close>

section \<open>A kernel with two tasks\<close>

definition sample_config :: sched_config where
  "sample_config = \<lparr>configMAX_PRIORITIES = 5, configUSE_PREEMPTION = True, configUSE_TIME_SLICING = True, INCLUDE_vTaskSuspend = True,
     pxReadyTasksLists = 0x1000, xDelayedTaskList1 = 0x1100, xDelayedTaskList2 = 0x1120, xPendingReadyList = 0x1140,
     xTasksWaitingTermination = 0x1160, xSuspendedTaskList = 0x1180\<rparr>"

abbreviation (input) idle_task :: u32 where "idle_task \<equiv> 0x2000"
abbreviation (input) worker_task :: u32 where "worker_task \<equiv> 0x3000"

definition new_item :: "u32 \<Rightarrow> u32 \<Rightarrow> ListItem_t" where
  "new_item t v = \<lparr>xItemValue = v, pxNext = 0, pxPrevious = 0, pvOwner = t, pxContainer = 0\<rparr>"

definition blank_kernel :: kernel where
  "blank_kernel = \<lparr>tcbs = [idle_task \<mapsto> \<lparr>uxPriority = 0, uxBasePriority = 0, uxMutexesHeld = 0\<rparr>,
       worker_task \<mapsto> \<lparr>uxPriority = 2, uxBasePriority = 2, uxMutexesHeld = 0\<rparr>],
     task_lists = \<lparr>list_items = [0x2004 \<mapsto> new_item idle_task 0, 0x2018 \<mapsto> new_item idle_task 5,
       0x3004 \<mapsto> new_item worker_task 0, 0x3018 \<mapsto> new_item worker_task 3], list_heads = (\<lambda>_. None)\<rparr>,
     pxCurrentTCB = 0, pxDelayedTaskList = 0, pxOverflowDelayedTaskList = 0, uxCurrentNumberOfTasks = 0, xTickCount = 0xFFFFFFF0,
     uxTopReadyPriority = 0, xSchedulerRunning = False, xPendedTicks = 0, xYieldPending = False, xNumOfOverflows = 0,
     xNextTaskUnblockTime = 0, uxSchedulerSuspended = 0\<rparr>"

definition one_task :: kernel where
  "one_task = the (prvAddNewTaskToReadyList sample_config idle_task blank_kernel)"

definition two_tasks :: kernel where
  "two_tasks = the (prvAddNewTaskToReadyList sample_config worker_task one_task)"

lemma sample_priorities: "{p :: u32. p < 5} = {0, 1, 2, 3, 4}"
proof -
  have "{..<unat (5 :: u32)} = {0, 1, 2, 3, 4}" by auto
  then have "{p :: u32. p < 5} = of_nat ` {0, 1, 2, 3, 4}" by (simp only: below_priorities [symmetric])
  then show ?thesis by simp
qed

lemma sample_lists: "kernel_lists sample_config = {0x1000, 0x1014, 0x1028, 0x103C, 0x1050, 0x1100, 0x1120, 0x1140, 0x1160, 0x1180}"
  by (auto simp: kernel_lists_def sample_config_def ready_list_def sample_priorities)

lemma sample_max: "configMAX_PRIORITIES sample_config = 5"
  by (simp add: sample_config_def)

lemma sample_config_ok: "sched_config_ok sample_config"
  by (simp add: sched_config_ok_def sample_lists) (simp add: sample_config_def ready_list_def sample_priorities inj_on_def)

lemma one_task_runs:
  "prvAddNewTaskToReadyList sample_config idle_task blank_kernel = Some one_task" "running sample_config {idle_task} one_task"
  "runs_highest sample_config {idle_task} one_task" "tcbs one_task = tcbs blank_kernel" "uxCurrentNumberOfTasks one_task = 1" "\<not> xSchedulerRunning one_task"
proof -
  have "fresh_task sample_config {} (kernel_lists sample_config) blank_kernel idle_task"
    by (simp add: fresh_task_def sample_lists blank_kernel_def prio_def sample_max xStateListItem_def xEventListItem_def
        owner_def container_def new_item_def xListEnd_def)
  from first_task_runs [OF sample_config_ok _ this]
  obtain k where "prvAddNewTaskToReadyList sample_config idle_task blank_kernel = Some k" "running sample_config {idle_task} k"
      "runs_highest sample_config {idle_task} k" "tcbs k = tcbs blank_kernel" "uxCurrentNumberOfTasks k = 1" "\<not> xSchedulerRunning k"
    by (auto simp: sample_config_def blank_kernel_def)
  then show "prvAddNewTaskToReadyList sample_config idle_task blank_kernel = Some one_task" "running sample_config {idle_task} one_task"
      "runs_highest sample_config {idle_task} one_task" "tcbs one_task = tcbs blank_kernel" "uxCurrentNumberOfTasks one_task = 1" "\<not> xSchedulerRunning one_task"
    by (simp_all add: one_task_def)
qed

lemma worker_items:
  "list_items (task_lists one_task) 0x3004 = Some (new_item worker_task 0)" "list_items (task_lists one_task) 0x3018 = Some (new_item worker_task 3)"
  "list_heads (task_lists one_task) 0x2FFC = None" "list_heads (task_lists one_task) 0x3010 = None"
  by code_simp+

lemma worker_fresh: "fresh_task sample_config {idle_task} {l. list_heads (task_lists one_task) l \<noteq> None} one_task worker_task"
proof -
  have "i \<noteq> xListEnd l" if "list_heads (task_lists one_task) (i - 8) = None" "list_heads (task_lists one_task) l \<noteq> None" for i l
    using that by (auto simp: xListEnd_def)
  then show ?thesis
    using worker_items one_task_runs(4)
    by (simp add: fresh_task_def blank_kernel_def prio_def sample_max xStateListItem_def xEventListItem_def owner_def container_def new_item_def)
qed

lemma two_tasks_run:
  "prvAddNewTaskToReadyList sample_config worker_task one_task = Some two_tasks" "joined sample_config {idle_task} worker_task one_task two_tasks"
  "runs_highest sample_config {worker_task, idle_task} two_tasks" "uxCurrentNumberOfTasks two_tasks = 2"
proof -
  from new_task_joins [OF one_task_runs(2) worker_fresh _ one_task_runs(3)] one_task_runs(5,6)
  obtain k where "prvAddNewTaskToReadyList sample_config worker_task one_task = Some k" "joined sample_config {idle_task} worker_task one_task k"
      "runs_highest sample_config {worker_task, idle_task} k" "uxCurrentNumberOfTasks k = 2" by auto
  then show "prvAddNewTaskToReadyList sample_config worker_task one_task = Some two_tasks" "joined sample_config {idle_task} worker_task one_task two_tasks"
      "runs_highest sample_config {worker_task, idle_task} two_tasks" "uxCurrentNumberOfTasks two_tasks = 2"
    by (simp_all add: two_tasks_def)
qed

lemma two_tasks_view:
  "running sample_config {worker_task, idle_task} two_tasks" "pxCurrentTCB two_tasks = worker_task" "ready sample_config two_tasks idle_task"
  "ready sample_config two_tasks worker_task"
proof -
  show r: "running sample_config {worker_task, idle_task} two_tasks" "ready sample_config two_tasks idle_task" "ready sample_config two_tasks worker_task"
    using two_tasks_run(2) one_task_runs(3) by (auto simp: joined_def runs_highest_def)
  have "tcbs two_tasks = tcbs blank_kernel" using two_tasks_run(2) one_task_runs(4) by (simp add: joined_def)
  then have "prio two_tasks worker_task = 2" "prio two_tasks idle_task = 0" by (simp_all add: prio_def blank_kernel_def)
  then show "pxCurrentTCB two_tasks = worker_task" using two_tasks_run(3) r(3) by (auto simp: runs_highest_def)
qed

section \<open>Properties\<close>

text \<open>C33. A context switch selects a ready task of the highest priority, whenever a task is ready, and changes
  nothing else: the search through the ready lists ends at a list that is not empty, and the invariant is kept.\<close>

theorem switch_selects_highest:
  assumes "running cfg T k" and "t \<in> T" and "ready cfg k t"
  shows "\<exists>k'. vTaskSwitchContext cfg k = Some k' \<and> running cfg T k' \<and> same_view cfg T k k' \<and> runs_highest cfg T k'"
  by (rule yield_runs [OF assms])

theorem switch_selects_highest_witness:
  "\<exists>k'. vTaskSwitchContext sample_config two_tasks = Some k' \<and> runs_highest sample_config {worker_task, idle_task} k'"
  using switch_selects_highest [OF two_tasks_view(1) _ two_tasks_view(3)] by auto

text \<open>C34. A tick returns, the assertion that no delayed task is left when the counter wraps holds, and it refines the countdown of the sleeping tasks: a
  task with one tick left is ready and waits for no event any more, every other sleeping task has one tick less to sleep, in whichever of the two lists
  it is, and no other task changes. A switch is requested when a task of higher priority than the running one wakes, and only with preemption.\<close>

theorem tick_counts_down:
  assumes "sched_inv cfg T k" and "uxSchedulerSuspended k = 0"
  shows "\<exists>s k'. xTaskIncrementTick cfg k = returns (s, k') \<and> sched_inv cfg T k' \<and> xTickCount k' = xTickCount k + 1 \<and>
    (\<forall>t \<in> T. sleeping k' t = (if sleeping k t = Some 1 then None else map_option (\<lambda>d. d - 1) (sleeping k t)) \<and>
       (ready cfg k' t \<longleftrightarrow> ready cfg k t \<or> sleeping k t = Some 1) \<and> event_of k' t = (if sleeping k t = Some 1 then 0 else event_of k t)) \<and>
    (s \<longrightarrow> configUSE_PREEMPTION cfg) \<and>
    (configUSE_PREEMPTION cfg \<and> (\<exists>t \<in> T. sleeping k t = Some 1 \<and> prio k (pxCurrentTCB k) < prio k t) \<longrightarrow> s)"
proof -
  obtain s k' where r: "xTaskIncrementTick cfg k = returns (s, k')" "ticked cfg T 1 k k'" "s \<longrightarrow> configUSE_PREEMPTION cfg"
      "configUSE_PREEMPTION cfg \<and> (\<exists>t \<in> T. sleeping k t = Some 1 \<and> prio k (pxCurrentTCB k) < prio k t) \<longrightarrow> s"
    using tick_runs [OF assms] by blast
  have "sleeping k' t = (if sleeping k t = Some 1 then None else map_option (\<lambda>d. d - 1) (sleeping k t)) \<and>
       (ready cfg k' t \<longleftrightarrow> ready cfg k t \<or> sleeping k t = Some 1) \<and> event_of k' t = (if sleeping k t = Some 1 then 0 else event_of k t)" if "t \<in> T" for t
    using tickedD [OF r(2) that] sleeping_pos [OF assms(1) that] by (cases "sleeping k t") (auto simp: slept_def le_Suc_eq split: if_splits)
  then show ?thesis using r unfolding ticked_def by auto
qed

theorem tick_counts_down_witness:
  "\<exists>s k'. xTaskIncrementTick sample_config two_tasks = returns (s, k') \<and> ready sample_config k' worker_task"
proof -
  have "sched_inv sample_config {worker_task, idle_task} two_tasks" "uxSchedulerSuspended two_tasks = 0"
    using two_tasks_view(1) by (simp_all add: running_def)
  from tick_counts_down [OF this] show ?thesis using two_tasks_view(4) by auto
qed

text \<open>C35. The delay is exact: after \<open>vTaskDelay\<close> another task runs, a ready one of the highest priority, and through any number of ticks that follow the delayed task is ready exactly from the tick on
  whose number it asked for, across the wrap of the tick counter.\<close>

theorem delay_is_exact:
  assumes "running cfg T k" and "0 < d" and "t \<in> T" and "t \<noteq> pxCurrentTCB k" and "ready cfg k t"
  shows "\<exists>k'. vTaskDelay cfg d k = returns k' \<and> running cfg T k' \<and> runs_highest cfg T k' \<and> pxCurrentTCB k' \<noteq> pxCurrentTCB k \<and>
    (\<forall>n. \<exists>k''. pended_ticks cfg n k' = returns k'' \<and> (ready cfg k'' (pxCurrentTCB k) \<longleftrightarrow> unat d \<le> n) \<and>
       (n < unat d \<longrightarrow> sleeping k'' (pxCurrentTCB k) = Some (unat d - n)))"
proof -
  obtain k' where k': "vTaskDelay cfg d k = returns k'" "running cfg T k'" "put_to_sleep cfg T (unat d) k k'" "runs_highest cfg T k'"
    using delay_runs [OF assms] by blast
  have c: "pxCurrentTCB k \<in> T" using assms(1) baseD(2) by (auto simp: running_def sched_inv_def)
  have "\<exists>k''. pended_ticks cfg n k' = returns k'' \<and> (ready cfg k'' (pxCurrentTCB k) \<longleftrightarrow> unat d \<le> n) \<and>
      (n < unat d \<longrightarrow> sleeping k'' (pxCurrentTCB k) = Some (unat d - n))" for n
  proof -
    obtain k'' where "pended_ticks cfg n k' = returns k''" "ticked cfg T n k' k''"
      using pended_ticks_run [of cfg T k'] k'(2) by (auto simp: running_def)
    then show ?thesis using tickedD [OF _ c, of cfg n k' k''] k'(3) by (auto simp: put_to_sleep_def slept_def split: if_splits)
  qed
  moreover have "pxCurrentTCB k' \<noteq> pxCurrentTCB k" using k'(3,4) by (auto simp: put_to_sleep_def runs_highest_def)
  ultimately show ?thesis using k'(1,2,4) by blast
qed

theorem delay_is_exact_witness:
  "\<exists>k' k''. vTaskDelay sample_config 20 two_tasks = returns k' \<and> pended_ticks sample_config 20 k' = returns k'' \<and> ready sample_config k'' worker_task"
proof -
  have "idle_task \<noteq> pxCurrentTCB two_tasks" by (simp add: two_tasks_view(2))
  from delay_is_exact [OF two_tasks_view(1) _ _ this two_tasks_view(3), of 20]
  obtain k' where "vTaskDelay sample_config 20 two_tasks = returns k'"
      "\<forall>n. \<exists>k''. pended_ticks sample_config n k' = returns k'' \<and> (ready sample_config k'' worker_task \<longleftrightarrow> 20 \<le> n)"
    by (auto simp: two_tasks_view(2)) metis
  then show ?thesis by (metis order_refl)
qed

text \<open>C36. A periodic task: \<open>xTaskDelayUntil\<close> compares three counters that may have wrapped and yet decides exactly whether
  the period since the previous wake time has not passed; then the task sleeps for the rest of the period, otherwise it stays ready, and in both cases the next
  wake time is the previous one plus the period, so that no drift adds up.\<close>

theorem periodic_delay_exact:
  fixes previous :: u32
  assumes "running cfg T k" and "0 < inc" and "t \<in> T" and "t \<noteq> pxCurrentTCB k" and "ready cfg k t"
  shows "\<exists>k'. xTaskDelayUntil cfg previous inc k = returns ((xTickCount k - previous < inc, previous + inc), k') \<and> running cfg T k' \<and> runs_highest cfg T k' \<and>
    (if xTickCount k - previous < inc then put_to_sleep cfg T (unat inc - unat (xTickCount k - previous)) k k' else same_view cfg T k k')"
  by (rule delay_until_runs [OF assms])

theorem periodic_delay_exact_witness:
  "\<exists>r k'. xTaskDelayUntil sample_config 0xFFFFFFEE 10 two_tasks = returns (r, k') \<and> running sample_config {worker_task, idle_task} k'"
proof -
  have "idle_task \<noteq> pxCurrentTCB two_tasks" by (simp add: two_tasks_view(2))
  from periodic_delay_exact [OF two_tasks_view(1) _ _ this two_tasks_view(3), of 10 "0xFFFFFFEE"] show ?thesis by auto
qed

text \<open>C37. Nothing is lost while the scheduler is suspended: when it is resumed, the tasks whose event occurred in the meantime are ready, the ticks
  that were held back are made up for exactly, no tick and no task is left behind, and if the processor is given up a ready task of the highest priority runs.\<close>

theorem resume_makes_up:
  assumes "sched_inv cfg T k" and "uxSchedulerSuspended k = 1" and "uxCurrentNumberOfTasks k > 0" and "\<exists>t \<in> T. ready cfg k t"
  shows "\<exists>y k'. xTaskResumeAll cfg k = returns (y, k') \<and> running cfg T k' \<and> xTickCount k' = xTickCount k + xPendedTicks k \<and>
    (\<forall>t \<in> T. sleeping k' t = (if pending cfg k t then None else slept (unat (xPendedTicks k)) (sleeping k t)) \<and>
        (ready cfg k' t \<longleftrightarrow> pending cfg k t \<or> ready cfg k t \<or> (\<exists>d. sleeping k t = Some d \<and> d \<le> unat (xPendedTicks k)))) \<and>
    (if y then runs_highest cfg T k' else pxCurrentTCB k' = pxCurrentTCB k)"
proof -
  obtain y k' where r: "xTaskResumeAll cfg k = returns (y, k')" "resumed cfg T k k'"
      "if y then ready cfg k' (pxCurrentTCB k') \<and> (\<forall>t \<in> T. ready cfg k' t \<longrightarrow> prio k t \<le> prio k (pxCurrentTCB k')) else pxCurrentTCB k' = pxCurrentTCB k"
    using resume_all_runs [OF assms] by blast
  have p: "prio k' = prio k" using r(2) by (simp add: resumed_def prio_def fun_eq_iff)
  have "running cfg T k'" using r(2) assms(3) by (simp add: running_def resumed_def)
  moreover from this have "pxCurrentTCB k' \<in> T" using baseD(2) by (auto simp: running_def sched_inv_def)
  ultimately show ?thesis using r p by (auto simp: resumed_def runs_highest_def)
qed

theorem resume_makes_up_witness:
  "\<exists>y k'. xTaskResumeAll sample_config (vTaskSuspendAll two_tasks) = returns (y, k') \<and> running sample_config {worker_task, idle_task} k'"
proof -
  let ?k = "vTaskSuspendAll two_tasks"
  have k: "?k = two_tasks\<lparr>uxSchedulerSuspended := 1\<rparr>" using two_tasks_view(1) by (simp add: vTaskSuspendAll_def running_def)
  have "sched_inv sample_config {worker_task, idle_task} ?k" "uxSchedulerSuspended ?k = 1" "uxCurrentNumberOfTasks ?k > 0"
      "\<exists>t \<in> {worker_task, idle_task}. ready sample_config ?k t"
    using two_tasks_view(1,3) by (simp_all add: k running_def)
  from resume_makes_up [OF this] show ?thesis by auto
qed

section \<open>A task that waits for an event\<close>






text \<open>C39. Priority inheritance: when a task finds a mutex taken, its holder gets the priority of the running task if that is higher, with the value of its event item unless the item
  is used for something else, moves to the ready list of that priority if it is ready, and nothing else changes;
  when the holder gives back its last mutex it returns to its base priority, with the value of its event item, and before that it keeps the inherited one.\<close>

theorem priority_inheritance:
  assumes "sched_inv cfg T k" and "t \<in> T"
  shows "(prio k t < prio k (pxCurrentTCB k) \<longrightarrow>
      (\<exists>k'. xTaskPriorityInherit cfg t k = Some (True, k') \<and>
         only_priority cfg T t (prio k (pxCurrentTCB k)) (event_key cfg k t (prio k (pxCurrentTCB k))) k k')) \<and>
    (t = pxCurrentTCB k \<and> ready cfg k t \<and> tcbs k t = Some x \<and> uxMutexesHeld x \<noteq> 0 \<and> uxBasePriority x < configMAX_PRIORITIES cfg \<longrightarrow>
      (\<exists>r k'. xTaskPriorityDisinherit cfg t k = Some (r, k') \<and> (r \<longleftrightarrow> uxPriority x \<noteq> uxBasePriority x \<and> uxMutexesHeld x = 1) \<and>
         only_priority cfg T t (if r then uxBasePriority x else uxPriority x)
           (if r then configMAX_PRIORITIES cfg - uxBasePriority x else event_value k t) k k' \<and>
         map_option uxMutexesHeld (tcbs k' t) = Some (uxMutexesHeld x - 1)))"
proof -
  obtain L where "sched_base cfg T {} L k" "in_time T k" using assms(1) by (auto simp: sched_inv_def)
  then show ?thesis using inherit_runs [of cfg T L k t] assms(2) disinherit_task_runs [OF assms(1)] by blast
qed

theorem priority_inheritance_witness:
  "\<exists>k'. xTaskPriorityInherit sample_config idle_task two_tasks = Some (True, k') \<and> prio k' idle_task = 2"
proof -
  have s: "sched_inv sample_config {worker_task, idle_task} two_tasks" using two_tasks_view(1) by (simp add: running_def)
  have "tcbs two_tasks = tcbs blank_kernel" using two_tasks_run(2) one_task_runs(4) by (simp add: joined_def)
  then have "prio two_tasks worker_task = 2" "prio two_tasks idle_task = 0" by (simp_all add: prio_def blank_kernel_def)
  then show ?thesis using priority_inheritance [OF s, of idle_task] two_tasks_view(2) by (auto simp: only_priority_def)
qed

end
