(* ===== verification/Spec2Isabelle.thy ===== *)
theory Spec2Isabelle
  imports DoIP_Task DoIP_Tester Lwip_Adapter Ip4_Net Board Sys_Sem Sched_Properties
begin

text \<open>
  A verification development for the DoIP/UDS boot loader firmware of the S32K344
  (\<^verbatim>\<open>src/src\<close> and the layers of lwIP below it).

  \<^bold>\<open>The program.\<close>  A diagnostic tester finds the controller by UDP broadcast, opens a TCP
  connection, activates routing and then sends UDS requests inside DoIP diagnostic messages.
  \<^item> \<^verbatim>\<open>doip_protocol.c\<close> packs and unpacks the messages;
  \<^item> \<^verbatim>\<open>uds_services.c\<close> executes UDS requests;
  \<^item> \<^verbatim>\<open>doip_interface.c\<close> polls the sockets, reassembles the TCP stream and calls back;
  \<^item> \<^verbatim>\<open>app_doip_entity.c\<close> is the server, \<^verbatim>\<open>app_doip_tester.c\<close> the client;
  \<^item> \<^verbatim>\<open>doip_task_example.c\<close> is the task that joins server, interface and UDS under a mutex;
  \<^item> \<^verbatim>\<open>doip_lwip_adapter.c\<close> implements the interface's network operations on the sockets of lwIP
    (\<^verbatim>\<open>sockets.c\<close>), which sit on the netconn layer (\<^verbatim>\<open>api_lib.c\<close>, \<^verbatim>\<open>api_msg.c\<close>) and the mailboxes
    of the operating-system port (\<^verbatim>\<open>sys_arch.c\<close>);
  \<^item> \<^verbatim>\<open>debug_print.c\<close> prints on a UART, \<^verbatim>\<open>doip_log.c\<close> formats log lines for it, \<^verbatim>\<open>led.c\<close>, \<^verbatim>\<open>device.c\<close>
    and \<^verbatim>\<open>main.c\<close> bring the board up and start the application;
  \<^item> of the operating system FreeRTOS, \<^verbatim>\<open>heap_4.c\<close> provides the memory of every dynamic object, \<^verbatim>\<open>list.c\<close> the lists of the
    scheduler, \<^verbatim>\<open>tasks.c\<close> the scheduler, and \<^verbatim>\<open>queue.c\<close> the queues, semaphores and mutexes under the mailboxes and locks of lwIP.

  \<^bold>\<open>The theories\<close>, each with the definitions of one part, its invariant and its properties:
  \<^item> \<open>Prelude\<close>: bounds-checked arrays (an access outside the array is \<open>None\<close>, the model of
    undefined behaviour), loops that may not return (\<open>may_return\<close>), big-endian integers, word
    lemmas, and the collections \<open>exec_simps\<close>, \<open>wire_simps\<close>, \<open>inv_intros\<close>.
  \<^item> \<open>DoIP_Protocol\<close>: the structures and every encoder and decoder on 8, 16 and 32 bit words.
    Abstract messages and their frames are the specification; the locale \<open>frame_encoder\<close> is the
    contract of an encoder and is interpreted on the encoders of the code.
  \<^item> \<open>UDS_Services\<close>: context, handlers, dispatcher, the abstract answer to a request that
    they compute (locale \<open>uds_handler\<close>, interpreted for the five handlers), and the contexts
    reachable from \<open>uds_init\<close>.
  \<^item> \<open>DoIP_Interface\<close>: the interface over a record of network operations, which is a
    parameter as in the code. The receive loop is a partial function, since it may run
    forever (\<open>DoIP_Task.zero_size_message_hangs\<close>). The locale \<open>network\<close> says what is relied on of the network
    operations (a receive returns at most the bytes asked for), \<open>rx_client\<close> and
    \<open>interface_client\<close> what is relied on of the callbacks (\<open>poll_hangs\<close> is the exact condition under which a poll never returns), \<open>tcp_stream\<close> that successive
    receives deliver successive pieces of a byte stream.
  \<^item> \<open>DoIP_Entity\<close>: the server: announcements, identification, routing activation, diagnostic
    messages, responses and timers. It provides \<open>interface_client\<close> (locale \<open>uds_client\<close> and a
    sublocale).
  \<^item> \<open>DoIP_Task\<close>: the handler that joins entity and UDS, the mutex, the task with its start-up and
    its cycle, and the start-up of the application. Memory safety of all of it, for every
    network and any number of cycles, and the answer to a UDS request from end to end.
  \<^item> \<open>DoIP_Tester\<close>: the client; its reachable states (rule induction), and its handshakes with the
    model of the server.
  \<^item> \<open>Ip4_Addr\<close>: \<^verbatim>\<open>ip4addr_aton\<close>, \<^verbatim>\<open>ip4addr_ntoa_r\<close>, byte order. \<open>Ip4_Net\<close>: the tests for broadcast addresses and for netmasks of
    ones followed by zeros.
  \<^item> \<open>Lwip_Sockets\<close>: the table of sockets and the socket calls the adapter uses, over a record of
    netconn operations; the locales \<open>pbuf_source\<close> and \<open>pbuf_stream\<close> are its contract with the
    netconn layer.
  \<^item> \<open>Lwip_Api_Msg\<close> and \<open>Lwip_Netconn\<close>: netconns, their mailboxes and the callbacks of the
    protocols; the functions that run under the core lock and the calls of the application. The
    second provides the contract of the socket layer.
  \<^item> \<open>Lwip_Adapter\<close>: the network operations of the firmware, shown to satisfy \<open>network\<close> and
    \<open>tcp_stream\<close>, and the properties that reach from the segments TCP delivers to the callback
    of the interface.
  \<^item> \<open>C_Text\<close>: C strings, \<^verbatim>\<open>strlen\<close>, \<^verbatim>\<open>snprintf\<close> and the formats the program uses. \<open>Debug_Print\<close> and
    \<open>DoIP_Log\<close>: the debug output and the log, equal to reference hex dumps, with the exact condition
    under which a log line stays in its buffer. \<open>Board\<close>: the LED, the device and \<^verbatim>\<open>main\<close>.
  \<^item> \<open>Heap_4\<close>: the allocator on an explicit store of block headers, and the layout of the heap
    as a list of blocks. \<open>Heap_Correct\<close>: the free list in the store represents a layout
    (\<open>heap_rep\<close>), allocation is first fit on it and release joins neighbours. \<open>Allocator\<close>: the contract
    \<open>allocator\<close> with the histories \<open>served\<close> of its clients. \<open>Heap_Allocator\<close>: \<^verbatim>\<open>pvPortMalloc\<close> and
    \<^verbatim>\<open>vPortFree\<close> provide that contract, from the first call on.
  \<^item> \<open>FreeRTOS_List\<close>: the doubly linked lists in a store of items (\<open>list_rep\<close>): sorted insertion, insertion at the end, removal
    and the walk that shares the processor in turn. \<open>FreeRTOS_Queue\<close>: the queues, from creation on the heap to the
    blocking calls and their time-outs. \<open>Fifo\<close>: the contract \<open>fifo\<close> of a bounded queue with the histories
    \<open>traffic\<close> of its clients. \<open>Queue_Correct\<close>: the ring of bytes represents the list of items (\<open>queue_rep\<close>), the steps of tasks
    and interrupts provide \<open>fifo\<close>, and blocking calls are sound whatever others do meanwhile. \<open>Sys_Mbox\<close>: the
    mailboxes of the port on those queues implement the mailboxes of \<open>Lwip_Api_Msg\<close>.
  \<^item> \<open>FreeRTOS_Semaphore\<close>: counting semaphores and recursive mutexes with priority inheritance. \<open>Semaphore_Correct\<close>: both provide
    \<open>fifo\<close>, as a queue of tokens and as a queue of at most one holder, in histories that include the switches between tasks; recursive takes and gives, with
    what a task relies on of the others (\<open>mutex_others_ok\<close>). \<open>Sys_Sem\<close>: the locks, semaphores and clock of the port.
  \<^item> \<open>FreeRTOS_Tasks\<close>: the scheduler for one core: ready lists, the two delayed lists, the tick, suspending the scheduler, delays, event
    lists, suspended tasks and priorities. \<open>List_Family\<close>: lists that share a store. \<open>Sched_Structure\<close>: every task is in
    exactly one list for its state (\<open>arranged\<close>), with the elementary moves between lists. \<open>Sched_Correct\<close>: the invariant
    \<open>sched_inv\<close> over priorities and wake times, and the selection of the task to run. \<open>Sched_Time\<close>, \<open>Sched_Resume\<close>, \<open>Sched_Delay\<close> and
    \<open>Sched_Start\<close>: the tick, resuming the scheduler, the delays and the creation of tasks refine the view of a task as ready or as
    \<open>sleeping\<close> for a number of ticks. \<open>Sched_Events\<close>: the event lists of the kernel objects, how the running task joins one and
    how the first waiter is woken, which has the highest priority while the list is in the order of the priorities. \<open>Sched_Priority\<close>: suspending and resuming a task, the state a task is reported
    in, and priority inheritance, which may leave a waiter at its old place in an event list (\<open>inherited_waiter_not_first\<close>). \<open>Sched_Properties\<close>: the properties, applied to a kernel with two tasks.

  \<^bold>\<open>Representation.\<close>  Structures are records, C integers are words of their width, enumerations
  are datatypes, pointers that may be null are options, buffers are lists with their length,
  calls through function pointers are fields of the interface record, and global state is passed
  explicitly. Result codes are values; only undefined behaviour is \<open>None\<close>. A \<^verbatim>\<open>configASSERT\<close> that
  fails counts as undefined behaviour, so that a theorem that an operation returns covers its
  assertions; an \<^verbatim>\<open>LWIP_ASSERT\<close> of the port that fails never returns, as its endless loop does. A loop that may not end has type \<open>run\<close>: \<open>None\<close> says that it never returns.

  \<^bold>\<open>Fuel and loops.\<close>  \<open>rx_loop\<close>, the receive loop of a connection, is a partial function whose value
  says whether it returns; \<open>receive_loop_refines_stream\<close> and \<open>entity_process_returns\<close> show when it
  does. The loop of \<^verbatim>\<open>lwip_recv_tcp\<close> and the write loop of \<^verbatim>\<open>lwip_netconn_do_writemore\<close> take fuel: each
  round of the first takes at least one byte or ends, so that \<open>len + 1\<close> rounds suffice, which
  \<open>receive_call_returns\<close> proves. \<open>debug_print_string\<close> and its wait, the rows of the log dump, the wait for the PLL and
  the walks through the free list (\<open>find_block\<close>, \<open>find_position\<close>, \<open>walk_free\<close>), the search of \<^verbatim>\<open>vListInsert\<close> and the rounds of the blocking
  queue calls are partial functions too; \<open>debug_print_string_returns\<close>, \<open>heap_calls_return\<close> and \<open>list_insert_sorted\<close> prove that they
  end. So are the loops of the tick and of \<^verbatim>\<open>xTaskResumeAll\<close>, which \<open>unblock_delayed_runs\<close> and \<open>resume_pending_runs\<close> show to end since every round takes a task
  from a list. A blocking call may wait without limit, as the code may. The task loop \<^verbatim>\<open>for (;;)\<close> is iterated any number of times.

  \<^bold>\<open>Parameters.\<close>  The network operations in the theories above the adapter; TCP, UDP and RAW
  (\<open>tcp_api\<close>, \<open>dgram_api\<close>) and the operating system (\<open>sys_api\<close>, \<open>os_api\<close>) below; the UART driver and
  the hardware layer (\<open>uart_driver\<close>, \<open>mcal\<close>); the place and size of the heap (\<open>heap_config\<close>); the operations of the scheduler that the queues call (\<open>task_api\<close>, \<open>mutex_api\<close>),
  among them those that let other tasks and interrupts run; the number of priorities, preemption, time slicing and the places of the kernel's lists
  (\<open>sched_config\<close>), since the repository holds no \<^verbatim>\<open>FreeRTOSConfig.h\<close>. lwIP is
  configured by its defaults where the repository holds no \<^verbatim>\<open>lwipopts.h\<close>.

  \<^bold>\<open>Not modelled.\<close>  The TCP state machine and the packet code of lwIP; of the FreeRTOS
  scheduler the saving and restoring of registers (a context switch is the choice of the next task, and the interleaving of tasks is the order of the calls), the stacks and the
  deletion of tasks, notifications, timers, event groups, tickless idle and the code for several cores; hardware drivers and generated
  configuration, and the socket calls the firmware does not use (select, names,
  multicast, vectors).
\<close>

end
